(* ===== verification/Prelude.thy ===== *)
theory Prelude
  imports Complex_Main "HOL-Library.AList" "HOL-Library.List_Lexorder" "HOL-Library.Char_ord"
    "HOL-Library.Product_Lexorder"
begin

text \<open>
  Shared vocabulary of the development: Python dictionaries as association lists in insertion
  order, the newest element of a collection (\<open>max(..., key=..., default=None)\<close>), Python text
  helpers, JSON values, and two interfaces that several components share: a machine whose steps
  keep an invariant, and a registry that tells each login the difference between what it must
  show and what it was last told.
\<close>

named_theorems dict_simps \<open>lookups in a dictionary after an update or a removal\<close>

section \<open>Dictionaries\<close>

text \<open>
  A Python \<open>dict\<close> is an association list with distinct keys, in insertion order. Assigning to
  a key that is present keeps its place, assigning to a new key appends it: this is what
  \<open>AList.update\<close> does. \<open>pop(k, None)\<close> is \<open>AList.delete\<close>.
\<close>

abbreviation dget :: "('k \<times> 'v) list \<Rightarrow> 'k \<Rightarrow> 'v option" where
  "dget d k \<equiv> map_of d k"

abbreviation dset :: "('k \<times> 'v) list \<Rightarrow> 'k \<Rightarrow> 'v \<Rightarrow> ('k \<times> 'v) list" where
  "dset d k v \<equiv> AList.update k v d"

abbreviation dpop :: "('k \<times> 'v) list \<Rightarrow> 'k \<Rightarrow> ('k \<times> 'v) list" where
  "dpop d k \<equiv> AList.delete k d"

definition keys_of :: "('k \<times> 'v) list \<Rightarrow> 'k list" where
  "keys_of d = map fst d"

definition vals_of :: "('k \<times> 'v) list \<Rightarrow> 'v list" where
  "vals_of d = map snd d"

definition dict_ok :: "('k \<times> 'v) list \<Rightarrow> bool" where
  "dict_ok d \<longleftrightarrow> distinct (map fst d)"

lemma dget_dset [simp, dict_simps]: "dget (dset d k v) k' = (if k' = k then Some v else dget d k')"
  by (simp add: update_conv')

lemma dget_dpop [simp, dict_simps]: "dget (dpop d k) k' = (if k' = k then None else dget d k')"
  by (simp add: delete_conv')

lemma dict_ok_Nil [simp]: "dict_ok []"
  by (simp add: dict_ok_def)

lemma dict_ok_dset [simp]: "dict_ok d \<Longrightarrow> dict_ok (dset d k v)"
  by (simp add: dict_ok_def distinct_update)

lemma dict_ok_dpop [simp]: "dict_ok d \<Longrightarrow> dict_ok (dpop d k)"
  by (simp add: dict_ok_def distinct_delete)

lemma update_new: "k \<notin> set (map fst d) \<Longrightarrow> dset d k v = d @ [(k, v)]"
  by (induction d) auto

lemma dget_in: "dget d k = Some v \<Longrightarrow> (k, v) \<in> set d"
  by (rule map_of_SomeD)

lemma dget_vals: "dget d k = Some v \<Longrightarrow> v \<in> set (vals_of d)"
  by (force simp: vals_of_def dest: map_of_SomeD)

lemma dget_of_in: "dict_ok d \<Longrightarrow> (k, v) \<in> set d \<Longrightarrow> dget d k = Some v"
  by (simp add: dict_ok_def)

lemma vals_ofE:
  assumes "v \<in> set (vals_of d)"
  obtains k where "(k, v) \<in> set d"
  using assms by (auto simp: vals_of_def)

lemma keys_of_dget: "k \<in> set (keys_of d) \<longleftrightarrow> dget d k \<noteq> None"
  by (auto simp: keys_of_def map_of_eq_None_iff)

lemma set_keys_dset [simp]: "set (keys_of (dset d k v)) = insert k (set (keys_of d))"
  by (auto simp: keys_of_dget split: if_splits)

lemma set_keys_dpop [simp]: "set (keys_of (dpop d k)) = set (keys_of d) - {k}"
  by (auto simp: keys_of_dget split: if_splits)

lemma dget_filter [dict_simps]:
  "dict_ok d \<Longrightarrow> dget (filter P d) k = (case dget d k of None \<Rightarrow> None | Some v \<Rightarrow> if P (k, v) then Some v else None)"
  by (induction d) (force simp: dict_ok_def split: option.splits dest: map_of_SomeD)+

lemma dict_ok_filter [simp]: "dict_ok d \<Longrightarrow> dict_ok (filter P d)"
  by (simp add: dict_ok_def distinct_map_filter)

lemma dget_perm: "dict_ok d \<Longrightarrow> dict_ok d' \<Longrightarrow> set d = set d' \<Longrightarrow> dget d k = dget d' k"
  unfolding dict_ok_def by (metis map_of_inject_set)

lemma dict_ok_sort [simp]: "dict_ok (sort_key f d) = dict_ok d"
  by (simp add: dict_ok_def distinct_map)

lemma dget_sort [simp]: "dict_ok d \<Longrightarrow> dget (sort_key f d) k = dget d k"
  by (rule dget_perm) simp_all

section \<open>Sets as lists\<close>

text \<open>
  A Python \<open>set\<close> is a list without repetition; the order of the list stands for the order an
  iteration takes. \<open>ladd\<close> is \<open>add\<close>, \<open>lunion\<close> is \<open>|=\<close>, \<open>removeAll\<close> is \<open>discard\<close>.
\<close>

definition ladd :: "'a list \<Rightarrow> 'a \<Rightarrow> 'a list" where
  "ladd xs x = (if x \<in> set xs then xs else xs @ [x])"

definition lunion :: "'a list \<Rightarrow> 'a list \<Rightarrow> 'a list" where
  "lunion xs ys = foldl ladd xs ys"

lemma set_ladd [simp]: "set (ladd xs x) = insert x (set xs)"
  by (auto simp: ladd_def)

lemma distinct_ladd [simp]: "distinct (ladd xs x) = distinct xs"
  by (auto simp: ladd_def)

lemma set_lunion [simp]: "set (lunion xs ys) = set xs \<union> set ys"
  unfolding lunion_def by (induction ys arbitrary: xs) auto

lemma distinct_lunion [simp]: "distinct (lunion xs ys) = distinct xs"
  unfolding lunion_def by (induction ys arbitrary: xs) auto

section \<open>The newest element\<close>

text \<open>
  \<open>max(xs, key=f, default=None)\<close>: Python keeps the first of the elements with the greatest key.
\<close>

fun max_by :: "('a \<Rightarrow> 'b::linorder) \<Rightarrow> 'a list \<Rightarrow> 'a option" where
  "max_by f [] = None"
| "max_by f (x # xs) =
     (case max_by f xs of None \<Rightarrow> Some x | Some y \<Rightarrow> if f y \<le> f x then Some x else Some y)"

lemma max_by_None [simp]: "max_by f xs = None \<longleftrightarrow> xs = []"
  by (cases xs) (auto split: option.splits)

lemma max_by_in: "max_by f xs = Some x \<Longrightarrow> x \<in> set xs"
  by (induction xs arbitrary: x) (auto split: option.splits if_splits)

lemma max_by_ge: "max_by f xs = Some x \<Longrightarrow> y \<in> set xs \<Longrightarrow> f y \<le> f x"
proof (induction xs arbitrary: x y)
  case Nil
  then show ?case by simp
next
  case (Cons a xs)
  show ?case
  proof (cases "max_by f xs")
    case None
    with Cons.prems show ?thesis by simp
  next
    case (Some z)
    then have z: "\<And>w. w \<in> set xs \<Longrightarrow> f w \<le> f z" by (rule Cons.IH)
    from Some Cons.prems z show ?thesis
      by (auto split: if_splits dest: order_trans)
  qed
qed

lemma max_by_Some_iff:
  assumes "inj_on f (set xs)"
  shows "max_by f xs = Some x \<longleftrightarrow> x \<in> set xs \<and> (\<forall>y \<in> set xs. f y \<le> f x)" (is "?l \<longleftrightarrow> ?r")
proof
  assume ?l
  then show ?r by (blast intro: max_by_in max_by_ge)
next
  assume r: ?r
  then obtain z where z: "max_by f xs = Some z"
    by (cases "max_by f xs") auto
  with r have "f z = f x" by (meson antisym max_by_ge max_by_in)
  with r z assms show ?l by (metis inj_onD max_by_in)
qed

section \<open>Python text\<close>

text \<open>
  A text is a list of characters with code points below 256, each one code point of the Python
  string. \<open>py_space\<close> is \<open>str.isspace\<close> on that range, \<open>py_strip\<close> is \<open>str.strip()\<close>.
\<close>

definition py_space :: "char \<Rightarrow> bool" where
  "py_space c \<longleftrightarrow> (let n = (of_char c :: nat)
      in (9 \<le> n \<and> n \<le> 13) \<or> (28 \<le> n \<and> n \<le> 32) \<or> n = 133 \<or> n = 160)"

definition py_lstrip :: "string \<Rightarrow> string" where
  "py_lstrip s = dropWhile py_space s"

definition py_strip :: "string \<Rightarrow> string" where
  "py_strip s = rev (dropWhile py_space (rev (dropWhile py_space s)))"

text \<open>\<open>str.partition(sep)\<close> for a one-character separator: the text before the first
  separator and, when there is one, the text after it.\<close>

fun partition_at :: "char \<Rightarrow> string \<Rightarrow> string \<times> string option" where
  "partition_at c [] = ([], None)"
| "partition_at c (x # xs) =
     (if x = c then ([], Some xs)
      else let (a, b) = partition_at c xs in (x # a, b))"

lemma partition_at_app:
  "c \<notin> set xs \<Longrightarrow> partition_at c (xs @ c # ys) = (xs, Some ys)"
  by (induction xs) auto

lemma partition_at_Some:
  "partition_at c xs = (a, Some b) \<Longrightarrow> xs = a @ c # b \<and> c \<notin> set a"
  by (induction xs arbitrary: a) (auto split: if_splits prod.splits)

lemma partition_at_None: "snd (partition_at c xs) = None \<longleftrightarrow> c \<notin> set xs"
  by (induction xs) (auto split: prod.splits)

text \<open>\<open>str.split(sep)\<close> for a one-character separator.\<close>

fun split_on :: "char \<Rightarrow> string \<Rightarrow> string list" where
  "split_on c [] = [[]]"
| "split_on c (x # xs) =
     (if x = c then [] # split_on c xs
      else (case split_on c xs of [] \<Rightarrow> [[x]] | y # ys \<Rightarrow> (x # y) # ys))"

text \<open>\<open>str.split()\<close> without a separator, and \<open>' '.join\<close> of the words.\<close>

fun py_words :: "string \<Rightarrow> string list" where
  "py_words [] = []"
| "py_words (c # cs) =
     (if py_space c then py_words cs
      else (case cs of
              [] \<Rightarrow> [[c]]
            | d # ds \<Rightarrow> if py_space d then [c] # py_words cs
                        else (case py_words cs of [] \<Rightarrow> [[c]] | w # ws \<Rightarrow> (c # w) # ws)))"

fun join_words :: "string list \<Rightarrow> string" where
  "join_words [] = []"
| "join_words [w] = w"
| "join_words (w # v # ws) = w @ CHR '' '' # join_words (v # ws)"

text \<open>\<open>round(x)\<close>: to the nearest integer, to the even one when halfway.\<close>

definition py_round :: "real \<Rightarrow> int" where
  "py_round x = (let f = \<lfloor>x\<rfloor>; d = x - of_int f in
     if d < 1 / 2 then f else if d > 1 / 2 then f + 1 else if even f then f else f + 1)"

text \<open>\<open>str(n)\<close> of an integer.\<close>

fun str_nat :: "nat \<Rightarrow> string" where
  "str_nat n = (if n div 10 = 0 then [] else str_nat (n div 10)) @ [char_of (48 + n mod 10)]"

declare str_nat.simps [simp del]

definition str_int :: "int \<Rightarrow> string" where
  "str_int i = (if i < 0 then ''-'' @ str_nat (nat (- i)) else str_nat (nat i))"

text \<open>\<open>str.isprintable()\<close>.\<close>

definition py_printable :: "string \<Rightarrow> bool" where
  "py_printable s \<longleftrightarrow> list_all (\<lambda>c. let n = (of_char c :: nat)
     in (32 \<le> n \<and> n \<le> 126) \<or> (161 \<le> n \<and> n \<noteq> 173)) s"

section \<open>JSON values\<close>

text \<open>
  The bodies of the requests after \<open>json.loads\<close>. A Python float is a real number or one of
  the values \<open>json\<close> also reads: \<open>nan\<close>, \<open>Infinity\<close>, \<open>-Infinity\<close>.
\<close>

datatype pyfloat = Fin real | PInf | NInf | NaN

datatype json = JNull | JBool bool | JInt int | JFloat pyfloat | JStr string
  | JList "json list" | JObj "(string \<times> json) list"

section \<open>Errors as values\<close>

text \<open>A computation that may raise gives \<open>Inl\<close> of the error; \<open>ebind\<close> goes on with the value.\<close>

definition ebind :: "'e + 'a \<Rightarrow> ('a \<Rightarrow> 'e + 'b) \<Rightarrow> 'e + 'b" where
  "ebind x f = (case x of Inl e \<Rightarrow> Inl e | Inr a \<Rightarrow> f a)"

lemma ebind_simps [simp]: "ebind (Inl e) f = Inl e" "ebind (Inr a) f = f a"
  by (simp_all add: ebind_def)

lemma ebind_Inr: "ebind x f = Inr b \<longleftrightarrow> (\<exists>a. x = Inr a \<and> f a = Inr b)"
  by (cases x) auto

lemma ebind_InrE:
  assumes "ebind x f = Inr b"
  obtains a where "x = Inr a" "f a = Inr b"
  using assms by (cases x) auto

text \<open>A list of computations, stopped by the first error.\<close>

fun emap :: "('a \<Rightarrow> 'e + 'b) \<Rightarrow> 'a list \<Rightarrow> 'e + 'b list" where
  "emap f [] = Inr []"
| "emap f (x # xs) = ebind (f x) (\<lambda>y. ebind (emap f xs) (\<lambda>ys. Inr (y # ys)))"

lemma emap_Inr: "emap f xs = Inr ys \<Longrightarrow> list_all2 (\<lambda>x y. f x = Inr y) xs ys"
  by (induction xs arbitrary: ys) (auto elim!: ebind_InrE)

section \<open>Machines that keep an invariant\<close>

locale invariant_machine =
  fixes start :: "'st \<Rightarrow> bool"
    and step :: "'st \<Rightarrow> 'st \<Rightarrow> bool"
    and inv :: "'st \<Rightarrow> bool"
  assumes start_inv: "start s \<Longrightarrow> inv s"
    and step_inv: "inv s \<Longrightarrow> step s t \<Longrightarrow> inv t"
begin

lemma steps_inv: "step\<^sup>*\<^sup>* s t \<Longrightarrow> inv s \<Longrightarrow> inv t"
  by (induction rule: rtranclp_induct) (auto intro: step_inv)

lemma reach_inv: "start s \<Longrightarrow> step\<^sup>*\<^sup>* s t \<Longrightarrow> inv t"
  using start_inv steps_inv by blast

end

section \<open>Registries that tell the browsers a difference\<close>

text \<open>
  \<open>resync\<close> of the presentations, the focuses and the exams all run the same protocol: for each
  login of a set, what its browser must show now (\<open>current\<close>) is compared with what it was last
  told (\<open>shown\<close>) and the difference is pushed. \<open>sync1\<close> is one iteration of the loop, \<open>exempt\<close>
  the logins the loop skips. The laws are those each registry proves of its own loop body; the
  result of the whole loop follows for every order the set of logins is walked in.
\<close>

locale delta_sync =
  fixes sync1 :: "'l \<Rightarrow> 'st \<Rightarrow> 'st"
    and current :: "'st \<Rightarrow> 'l \<Rightarrow> 'v option"
    and shown :: "'st \<Rightarrow> 'l \<Rightarrow> 'v option"
    and exempt :: "'st \<Rightarrow> 'l \<Rightarrow> bool"
    and good :: "'st \<Rightarrow> bool"
  assumes good_kept: "good s \<Longrightarrow> good (sync1 l s)"
    and settles: "good s \<Longrightarrow> \<not> exempt s l \<Longrightarrow> shown (sync1 l s) l = current s l"
    and skips: "good s \<Longrightarrow> exempt s l \<Longrightarrow> shown (sync1 l s) l = shown s l"
    and shown_other: "good s \<Longrightarrow> l' \<noteq> l \<Longrightarrow> shown (sync1 l s) l' = shown s l'"
    and current_other: "good s \<Longrightarrow> l' \<noteq> l \<Longrightarrow> current (sync1 l s) l' = current s l'"
    and exempt_other: "good s \<Longrightarrow> l' \<noteq> l \<Longrightarrow> exempt (sync1 l s) l' = exempt s l'"
begin

lemma good_all: "good s \<Longrightarrow> good (fold sync1 ls s)"
  by (induction ls arbitrary: s) (auto simp: good_kept)

lemma sync_all:
  "good s \<Longrightarrow> distinct ls \<Longrightarrow>
   shown (fold sync1 ls s) l = (if l \<in> set ls \<and> \<not> exempt s l then current s l else shown s l)"
proof (induction ls arbitrary: s)
  case Nil
  then show ?case by simp
next
  case (Cons a ls)
  have IH: "shown (fold sync1 ls (sync1 a s)) l =
    (if l \<in> set ls \<and> \<not> exempt (sync1 a s) l then current (sync1 a s) l else shown (sync1 a s) l)"
    using Cons by (simp add: good_kept)
  show ?case
  proof (cases "l = a")
    case True
    with Cons.prems IH show ?thesis
      by (cases "exempt s a") (auto simp: settles skips)
  next
    case False
    with Cons.prems IH show ?thesis
      by (auto simp: shown_other current_other exempt_other)
  qed
qed

lemma sync_all_order:
  "good s \<Longrightarrow> distinct ls \<Longrightarrow> distinct ls' \<Longrightarrow> set ls = set ls' \<Longrightarrow>
   shown (fold sync1 ls s) l = shown (fold sync1 ls' s) l"
  by (simp add: sync_all)

end

end
