(* ===== verification/Identity.thy ===== *)
theory Identity
  imports Prelude
begin

text \<open>
  Who a web user is (\<open>src/sreweb/identity.py\<close>): the identity record, its validation, the logins
  the portal accepts and the owner of a running lab name. The two regular expressions are
  written out as Python's \<open>re.match\<close> reads them: \<open>$\<close> also matches just before a final newline.
\<close>

datatype role = Student | Instructor
datatype view = StudentView | InstructorView

record identity =
  login :: string
  fullname :: string
  email :: string
  role_of :: role
  language :: string
  anonymous :: bool
  view_of :: view
  group :: string
  administrator :: bool

datatype identity_error = InvalidLogin | ViewNeedsRole | AdminNeedsRole | InvalidLanguage

definition MAX_LOGIN_LENGTH :: nat where "MAX_LOGIN_LENGTH = 64"
definition MAX_GROUP_LENGTH :: nat where "MAX_GROUP_LENGTH = 64"

definition is_lower :: "char \<Rightarrow> bool" where
  "is_lower c \<longleftrightarrow> CHR ''a'' \<le> c \<and> c \<le> CHR ''z''"

definition is_upper :: "char \<Rightarrow> bool" where
  "is_upper c \<longleftrightarrow> CHR ''A'' \<le> c \<and> c \<le> CHR ''Z''"

definition is_digit :: "char \<Rightarrow> bool" where
  "is_digit c \<longleftrightarrow> CHR ''0'' \<le> c \<and> c \<le> CHR ''9''"

definition is_alnum :: "char \<Rightarrow> bool" where
  "is_alnum c \<longleftrightarrow> is_lower c \<or> is_upper c \<or> is_digit c"

definition login_char :: "char \<Rightarrow> bool" where
  "login_char c \<longleftrightarrow> is_alnum c \<or> c = CHR ''.'' \<or> c = CHR ''_'' \<or> c = CHR ''-''"

text \<open>\<open>$\<close> of a pattern: what is matched up to it is the text, or the text without a final newline.\<close>

definition before_dollar :: "string \<Rightarrow> string" where
  "before_dollar s = (if s \<noteq> [] \<and> last s = CHR 0x0A then butlast s else s)"

text \<open>\<open>VALID_LOGIN = ^[a-zA-Z0-9._-]+$\<close> through \<open>re.match\<close>.\<close>

definition valid_login_match :: "string \<Rightarrow> bool" where
  "valid_login_match s \<longleftrightarrow> before_dollar s \<noteq> [] \<and> list_all login_char (before_dollar s)"

definition is_valid_login :: "string \<Rightarrow> bool" where
  "is_valid_login s \<longleftrightarrow> s \<noteq> [] \<and> length s \<le> MAX_LOGIN_LENGTH \<and> valid_login_match s"

text \<open>
  \<open>_LANGUAGE = ^[a-z]{2,3}(?:[-_][A-Za-z0-9]{2,8})?$\<close>: two or three lower case letters and an
  optional tag.
\<close>

definition language_match :: "string \<Rightarrow> bool" where
  "language_match s = (let t = before_dollar s; a = takeWhile is_lower t; r = dropWhile is_lower t
     in (length a = 2 \<or> length a = 3) \<and>
        (case r of [] \<Rightarrow> True
         | c # cs \<Rightarrow> (c = CHR ''-'' \<or> c = CHR ''_'') \<and> 2 \<le> length cs \<and> length cs \<le> 8 \<and> list_all is_alnum cs))"

text \<open>\<open>Identity.__post_init__\<close>: the checks of a new identity, in their order (the role and the
  view are values of their types here).\<close>

definition post_init :: "identity \<Rightarrow> identity_error + identity" where
  "post_init i =
     (if \<not> is_valid_login (login i) then Inl InvalidLogin
      else if view_of i = InstructorView \<and> role_of i \<noteq> Instructor then Inl ViewNeedsRole
      else if administrator i \<and> role_of i \<noteq> Instructor then Inl AdminNeedsRole
      else if \<not> language_match (language i) then Inl InvalidLanguage
      else Inr i)"

definition is_instructor :: "identity \<Rightarrow> bool" where
  "is_instructor i \<longleftrightarrow> role_of i = Instructor"

definition instructor_view :: "identity \<Rightarrow> bool" where
  "instructor_view i \<longleftrightarrow> view_of i = InstructorView"

text \<open>\<open>dataclasses.replace\<close> builds a new instance, so the checks run again.\<close>

definition with_view :: "view \<Rightarrow> identity \<Rightarrow> identity_error + identity" where
  "with_view v i = post_init (i\<lparr>view_of := v\<rparr>)"

definition with_administrator :: "bool \<Rightarrow> identity \<Rightarrow> identity_error + identity" where
  "with_administrator granted i = post_init (i\<lparr>administrator := granted \<and> is_instructor i\<rparr>)"

definition identity_ok :: "identity \<Rightarrow> bool" where
  "identity_ok i \<longleftrightarrow> post_init i = Inr i"

text \<open>\<open>clean_group\<close>: control characters dropped, blanks trimmed, capped.\<close>

definition control_char :: "char \<Rightarrow> bool" where
  "control_char c \<longleftrightarrow> (let n = (of_char c :: nat) in n \<le> 31 \<or> (127 \<le> n \<and> n \<le> 159))"

definition clean_group :: "string \<Rightarrow> string" where
  "clean_group s = py_strip (take MAX_GROUP_LENGTH (py_strip (filter (\<lambda>c. \<not> control_char c) s)))"

text \<open>
  \<open>RUNNING_LAB_NAME = ^([0-9]+)@@@(.+)@@@(.+)$\<close>: \<open>.\<close> matches no newline and the second group is
  greedy, so the third one starts after the last separator that leaves both non-empty.
\<close>

definition sep3 :: string where "sep3 = ''@@@''"

definition starts3 :: "string \<Rightarrow> bool" where
  "starts3 s \<longleftrightarrow> take 3 s = sep3"

fun rsplit3 :: "string \<Rightarrow> (string \<times> string) option" where
  "rsplit3 [] = None"
| "rsplit3 (x # xs) =
     (case rsplit3 xs of
        Some (a, b) \<Rightarrow> Some (x # a, b)
      | None \<Rightarrow> if starts3 xs \<and> drop 3 xs \<noteq> [] then Some ([x], drop 3 xs) else None)"

definition rln_match :: "string \<Rightarrow> (string \<times> string \<times> string) option" where
  "rln_match s =
     (let t = before_dollar s; d = takeWhile is_digit t; r = dropWhile is_digit t
      in if d = [] \<or> \<not> starts3 r \<or> CHR 0x0A \<in> set t then None
         else map_option (\<lambda>(a, b). (d, a, b)) (rsplit3 (drop 3 r)))"

definition running_lab_name_owner :: "string \<Rightarrow> string option" where
  "running_lab_name_owner rln =
     (if rln = [] \<or> CHR ''/'' \<in> set rln \<or> CHR 0x5C \<in> set rln then None
      else map_option (\<lambda>(d, a, b). b) (rln_match rln))"

section \<open>Lemmas\<close>

lemma identity_ok_iff:
  "identity_ok i \<longleftrightarrow> is_valid_login (login i) \<and> (instructor_view i \<longrightarrow> is_instructor i) \<and>
     (administrator i \<longrightarrow> is_instructor i) \<and> language_match (language i)"
  by (auto simp: identity_ok_def post_init_def is_instructor_def instructor_view_def)

lemma post_init_Inr: "post_init i = Inr j \<Longrightarrow> j = i \<and> identity_ok i"
  by (auto simp: identity_ok_def post_init_def split: if_splits)

lemma is_instructor_update [simp]:
  "is_instructor (i\<lparr>view_of := v\<rparr>) = is_instructor i"
  "is_instructor (i\<lparr>administrator := b\<rparr>) = is_instructor i"
  by (simp_all add: is_instructor_def)

lemma with_administrator_ok:
  assumes "identity_ok i"
  shows "\<exists>j. with_administrator g i = Inr j \<and> identity_ok j \<and> (administrator j \<longrightarrow> is_instructor j)"
proof -
  let ?j = "i\<lparr>administrator := g \<and> is_instructor i\<rparr>"
  have "identity_ok ?j"
    using assms by (auto simp: identity_ok_iff instructor_view_def)
  moreover from this have "post_init ?j = Inr ?j"
    by (simp only: identity_ok_def)
  ultimately have "with_administrator g i = Inr ?j \<and> identity_ok ?j \<and> (administrator ?j \<longrightarrow> is_instructor ?j)"
    by (simp add: with_administrator_def)
  then show ?thesis by (rule exI)
qed

lemma rsplit3_join:
  "rsplit3 s = Some (a, b) \<Longrightarrow> s = a @ sep3 @ b \<and> a \<noteq> [] \<and> b \<noteq> []"
proof (induction s arbitrary: a)
  case Nil
  then show ?case by simp
next
  case (Cons x xs)
  show ?case
  proof (cases "rsplit3 xs")
    case None
    with Cons.prems have "starts3 xs" "drop 3 xs \<noteq> []" "a = [x]" "b = drop 3 xs"
      by (auto split: if_splits)
    then show ?thesis
      by (metis append_take_drop_id append_Cons append_Nil not_Cons_self2 starts3_def)
  next
    case (Some p)
    with Cons show ?thesis by (cases p) auto
  qed
qed

lemma before_dollar_set: "c \<in> set (before_dollar s) \<Longrightarrow> c \<in> set s"
  by (auto simp: before_dollar_def split: if_splits dest: in_set_butlastD)

lemma rln_match_owner:
  assumes "rln_match s = Some (d, a, b)"
  shows "before_dollar s = d @ sep3 @ a @ sep3 @ b" "d \<noteq> []" "a \<noteq> []" "b \<noteq> []"
proof -
  let ?t = "before_dollar s"
  from assms have d: "d = takeWhile is_digit ?t" "d \<noteq> []" "starts3 (dropWhile is_digit ?t)"
    and r: "rsplit3 (drop 3 (dropWhile is_digit ?t)) = Some (a, b)"
    by (auto simp: rln_match_def Let_def split: if_splits)
  from rsplit3_join [OF r] have ab: "drop 3 (dropWhile is_digit ?t) = a @ sep3 @ b" "a \<noteq> []" "b \<noteq> []"
    by auto
  have "dropWhile is_digit ?t = sep3 @ drop 3 (dropWhile is_digit ?t)"
    using d(3) by (metis append_take_drop_id starts3_def)
  then show "before_dollar s = d @ sep3 @ a @ sep3 @ b"
    using d(1) ab(1) by (metis takeWhile_dropWhile_id)
  show "d \<noteq> []" "a \<noteq> []" "b \<noteq> []" using d(2) ab by auto
qed

lemma running_lab_name_owner_Some:
  assumes "running_lab_name_owner rln = Some w"
  shows "w \<noteq> [] \<and> CHR ''/'' \<notin> set w \<and> CHR 0x0A \<notin> set w"
proof -
  from assms obtain d a where m: "rln_match rln = Some (d, a, w)" and s: "CHR ''/'' \<notin> set rln"
    by (auto simp: running_lab_name_owner_def split: if_splits)
  have sub: "set w \<subseteq> set (before_dollar rln)"
    using rln_match_owner(1) [OF m] by auto
  moreover have "CHR 0x0A \<notin> set (before_dollar rln)"
    using m by (auto simp: rln_match_def Let_def split: if_splits)
  moreover have "set (before_dollar rln) \<subseteq> set rln"
    by (auto dest: before_dollar_set)
  ultimately show ?thesis
    using rln_match_owner(4) [OF m] s by blast
qed

text \<open>
  A valid login is one of the pattern's words, or such a word followed by one newline: the
  pattern ends with \<open>$\<close> and is used with \<open>re.match\<close>.
\<close>

lemma is_valid_login_iff:
  "is_valid_login s \<longleftrightarrow> length s \<le> 64 \<and>
     (\<exists>w. w \<noteq> [] \<and> list_all login_char w \<and> (s = w \<or> s = w @ [CHR 0x0A]))"
proof -
  have nl: "\<not> login_char (CHR 0x0A)"
    by (simp add: login_char_def is_alnum_def is_lower_def is_upper_def is_digit_def less_eq_char_def)
  have "last w \<noteq> CHR 0x0A" if "w \<noteq> []" "list_all login_char w" for w
    using that nl by (metis last_in_set list_all_iff)
  then show ?thesis
    by (auto simp: is_valid_login_def MAX_LOGIN_LENGTH_def valid_login_match_def before_dollar_def)
      (metis append_butlast_last_id)+
qed

end
