(* ===== verification/User_Groups.thy ===== *)
theory User_Groups
  imports Identity
begin

text \<open>
  The groups of users (\<open>src/sreweb/portal/groups.py\<close>): the keys of the groups, the names of the
  custom groups, one read of the directory and the memberships the other registries ask. The
  caches behind \<open>Memberships\<close> are given by their current content: the snapshot of the directory
  (if any) and the custom groups of the store (if there is a store).
\<close>

definition KIND_DEPARTMENT :: string where "KIND_DEPARTMENT = ''department''"
definition KIND_DIRECTORY :: string where "KIND_DIRECTORY = ''directory''"
definition KIND_CUSTOM :: string where "KIND_CUSTOM = ''custom''"

definition KINDS :: "string list" where
  "KINDS = [KIND_DEPARTMENT, KIND_DIRECTORY, KIND_CUSTOM]"

definition KEY_SEPARATOR :: char where "KEY_SEPARATOR = CHR '':''"

definition group_key :: "string \<Rightarrow> string \<Rightarrow> string" where
  "group_key kind name = kind @ KEY_SEPARATOR # name"

definition parse_group_key :: "string \<Rightarrow> string \<times> string" where
  "parse_group_key text =
     (case partition_at KEY_SEPARATOR text of
        (kind, Some name) \<Rightarrow> if kind \<in> set KINDS then (kind, name) else (KIND_DEPARTMENT, text)
      | (_, None) \<Rightarrow> (KIND_DEPARTMENT, text))"

definition canonical_key :: "string \<Rightarrow> string" where
  "canonical_key g = (let (kind, name) = parse_group_key g in group_key kind name)"

definition normalize_group_keys :: "string list \<Rightarrow> string list" where
  "normalize_group_keys groups = remdups (map canonical_key groups)"

definition department_member :: "string \<Rightarrow> string list \<Rightarrow> bool" where
  "department_member department keys \<longleftrightarrow>
     department \<noteq> [] \<and> group_key KIND_DEPARTMENT department \<in> set keys"

datatype group_name_error = NameEmpty | NameAltered | NameForbidden

text \<open>\<open>check_group_name\<close> on a text (another JSON value is refused by the caller's type check).\<close>

definition check_group_name :: "string \<Rightarrow> group_name_error + string" where
  "check_group_name value =
     (let name = clean_group value in
      if name = [] then Inl NameEmpty
      else if name \<noteq> py_strip value then Inl NameAltered
      else if CHR '':'' \<in> set name \<or> CHR ''/'' \<in> set name then Inl NameForbidden
      else Inr name)"

record person =
  pe_login :: string
  pe_fullname :: string
  pe_group :: string

record snapshot =
  sn_people :: "(string \<times> person) list"
  sn_groups :: "(string \<times> string list) list"

text \<open>The departments of a snapshot, built from the people in order.\<close>

definition add_to_department :: "person \<Rightarrow> (string \<times> string list) list \<Rightarrow> (string \<times> string list) list" where
  "add_to_department p d =
     (if pe_group p = [] then d
      else dset d (pe_group p)
        (ladd (case dget d (pe_group p) of None \<Rightarrow> [] | Some m \<Rightarrow> m) (pe_login p)))"

definition departments :: "snapshot \<Rightarrow> (string \<times> string list) list" where
  "departments sn = fold add_to_department (vals_of (sn_people sn)) []"

definition snapshot_members_of :: "snapshot \<Rightarrow> string \<Rightarrow> string \<Rightarrow> string list option" where
  "snapshot_members_of sn kind name =
     (if kind = KIND_DEPARTMENT then dget (departments sn) name
      else if kind = KIND_DIRECTORY then dget (sn_groups sn) name
      else None)"

record memberships =
  ms_snapshot :: "snapshot option"
  ms_custom :: "(string \<times> string list) list option"

definition key_members :: "memberships \<Rightarrow> string \<Rightarrow> string list" where
  "key_members ms key =
     (let (kind, name) = parse_group_key key in
      if kind = KIND_CUSTOM then
        (case ms_custom ms of None \<Rightarrow> []
         | Some store \<Rightarrow> (case dget store name of None \<Rightarrow> [] | Some m \<Rightarrow> m))
      else (case ms_snapshot ms of None \<Rightarrow> []
            | Some sn \<Rightarrow> (case snapshot_members_of sn kind name of None \<Rightarrow> [] | Some m \<Rightarrow> m)))"

definition ms_members_of :: "memberships \<Rightarrow> string list \<Rightarrow> string list" where
  "ms_members_of ms keys = foldl (\<lambda>found key. lunion found (key_members ms key)) [] keys"

definition is_member :: "memberships \<Rightarrow> string \<Rightarrow> string list \<Rightarrow> string \<Rightarrow> bool" where
  "is_member ms who keys department \<longleftrightarrow>
     department_member department keys \<or> who \<in> set (ms_members_of ms keys)"

section \<open>Keys\<close>

lemma kinds_no_separator: "kind \<in> set KINDS \<Longrightarrow> KEY_SEPARATOR \<notin> set kind"
  by (auto simp: KINDS_def KIND_DEPARTMENT_def KIND_DIRECTORY_def KIND_CUSTOM_def KEY_SEPARATOR_def)

lemma parse_group_key_of_key:
  "kind \<in> set KINDS \<Longrightarrow> parse_group_key (group_key kind name) = (kind, name)"
  by (simp add: parse_group_key_def group_key_def partition_at_app kinds_no_separator)

lemma parse_group_key_kind: "fst (parse_group_key text) \<in> set KINDS"
  by (auto simp: parse_group_key_def KINDS_def split: prod.splits option.splits)

text \<open>
  A key read and printed again is canonical: printing is inverse to reading on the three kinds,
  and the canonical form of any text is stable under a second normalisation.
\<close>

lemma canonical_key_parse: "parse_group_key (canonical_key g) = parse_group_key g"
  using parse_group_key_kind [of g]
  by (auto simp: canonical_key_def parse_group_key_of_key split: prod.splits)

lemma canonical_key_idem [simp]: "canonical_key (canonical_key g) = canonical_key g"
  by (metis canonical_key_def canonical_key_parse)

section \<open>Members\<close>

lemma dget_add_to_department:
  "dget (add_to_department p d) g =
     (if pe_group p = g \<and> g \<noteq> [] then Some (ladd (case dget d g of None \<Rightarrow> [] | Some m \<Rightarrow> m) (pe_login p))
      else dget d g)"
  by (auto simp: add_to_department_def)

lemma fold_add_to_department:
  "g \<noteq> [] \<Longrightarrow>
   set (case dget (fold add_to_department ps d) g of None \<Rightarrow> [] | Some m \<Rightarrow> m) =
   set (case dget d g of None \<Rightarrow> [] | Some m \<Rightarrow> m) \<union> {pe_login p |p. p \<in> set ps \<and> pe_group p = g}"
proof (induction ps arbitrary: d)
  case Nil
  then show ?case by simp
next
  case (Cons a ps)
  have "set (case dget (fold add_to_department ps (add_to_department a d)) g of None \<Rightarrow> [] | Some m \<Rightarrow> m)
    = set (case dget (add_to_department a d) g of None \<Rightarrow> [] | Some m \<Rightarrow> m)
      \<union> {pe_login p |p. p \<in> set ps \<and> pe_group p = g}"
    by (rule Cons.IH [OF Cons.prems])
  then show ?case
    using Cons.prems by (auto simp: dget_add_to_department)
qed

lemma departments_members:
  "g \<noteq> [] \<Longrightarrow>
   set (case dget (departments sn) g of None \<Rightarrow> [] | Some m \<Rightarrow> m) =
   {pe_login p |p. p \<in> set (vals_of (sn_people sn)) \<and> pe_group p = g}"
  by (simp add: departments_def fold_add_to_department)

lemma set_members_acc:
  "set (foldl (\<lambda>found key. lunion found (key_members ms key)) acc keys) =
   set acc \<union> (\<Union>k \<in> set keys. set (key_members ms k))"
  by (induction keys arbitrary: acc) auto

lemma set_ms_members_of: "set (ms_members_of ms keys) = (\<Union>k \<in> set keys. set (key_members ms k))"
  by (simp add: ms_members_of_def set_members_acc)

lemma distinct_members_acc:
  "distinct acc \<Longrightarrow> distinct (foldl (\<lambda>found key. lunion found (key_members ms key)) acc keys)"
  by (induction keys arbitrary: acc) auto

lemma distinct_ms_members_of [simp]: "distinct (ms_members_of ms keys)"
  by (simp add: ms_members_of_def distinct_members_acc)

lemma is_member_mono: "is_member ms who keys d \<Longrightarrow> set keys \<subseteq> set keys' \<Longrightarrow> is_member ms who keys' d"
  by (auto simp: is_member_def department_member_def set_ms_members_of)

end
