(* ===== verification/Presence.thy ===== *)
theory Presence
  imports User_Groups
begin

text \<open>
  Who has a page of the site open (\<open>Watcher\<close> and \<open>Presence\<close> of
  \<open>src/sreweb/portal/presentation.py\<close>), and the messages the portal pushes. A WebSocket is a
  number; whether the n-th message of a history can be written is the environment's choice, the
  parameter \<open>ok\<close>; the log records every message tried, with that outcome, and every socket closed.
\<close>

datatype message =
    MPresentationEnded string
  | MPresentationStarted string string string
  | MFocusEnded string
  | MFocusStarted string string string string string
  | MExam int "string option"
  | MView json
  | MEvaluation json
  | MAudience nat nat
  | MStudent nat

datatype net_event = Sent nat message bool | Closed nat nat

type_synonym net = "net_event list"

record psocket =
  ps_id :: nat
  ps_identity :: identity
  ps_page :: string
  ps_watcher :: nat
  ps_since :: real

record presence =
  p_sockets :: "(string \<times> psocket list) list"
  p_next :: nat
  p_log :: net

text \<open>\<open>Watcher.send_quietly\<close>: the message is tried; \<open>False\<close> when it could not be written.
  \<open>Watcher.close_quietly\<close> never fails.\<close>

definition send_quietly :: "(nat \<Rightarrow> bool) \<Rightarrow> nat \<Rightarrow> message \<Rightarrow> net \<Rightarrow> bool \<times> net" where
  "send_quietly ok w m l = (ok (length l), l @ [Sent w m (ok (length l))])"

definition close_quietly :: "nat \<Rightarrow> nat \<Rightarrow> net \<Rightarrow> net" where
  "close_quietly w code l = l @ [Closed w code]"

text \<open>\<open>message\<close> to every watcher of a set: those that cannot be written are discarded.\<close>

fun send_each :: "(nat \<Rightarrow> bool) \<Rightarrow> message \<Rightarrow> nat list \<Rightarrow> net \<Rightarrow> nat list \<times> net" where
  "send_each ok m [] l = ([], l)"
| "send_each ok m (w # ws) l =
     (let (sent, l1) = send_quietly ok w m l; (ws', l2) = send_each ok m ws l1
      in (if sent then w # ws' else ws', l2))"

definition close_each :: "nat \<Rightarrow> nat list \<Rightarrow> net \<Rightarrow> net" where
  "close_each code ws l = foldl (\<lambda>l w. close_quietly w code l) l ws"

definition sockets_of :: "presence \<Rightarrow> string \<Rightarrow> psocket list" where
  "sockets_of P who = (case dget (p_sockets P) who of None \<Rightarrow> [] | Some s \<Rightarrow> s)"

definition presence_add :: "identity \<Rightarrow> string \<Rightarrow> nat \<Rightarrow> real \<Rightarrow> presence \<Rightarrow> psocket \<times> presence" where
  "presence_add i page w now P =
     (let s = \<lparr>ps_id = p_next P, ps_identity = i, ps_page = page, ps_watcher = w, ps_since = now\<rparr>
      in (s, P\<lparr>p_sockets := dset (p_sockets P) (login i) (sockets_of P (login i) @ [s]),
               p_next := Suc (p_next P)\<rparr>))"

definition presence_remove :: "psocket \<Rightarrow> presence \<Rightarrow> presence" where
  "presence_remove s P =
     (case dget (p_sockets P) (login (ps_identity s)) of
        None \<Rightarrow> P
      | Some ss \<Rightarrow>
          (let rest = filter (\<lambda>x. ps_id x \<noteq> ps_id s) ss
           in if rest = [] then P\<lparr>p_sockets := dpop (p_sockets P) (login (ps_identity s))\<rparr>
              else P\<lparr>p_sockets := dset (p_sockets P) (login (ps_identity s)) rest\<rparr>))"

definition presence_logins :: "presence \<Rightarrow> string list" where
  "presence_logins P = keys_of (p_sockets P)"

definition identity_of :: "presence \<Rightarrow> string \<Rightarrow> identity option" where
  "identity_of P who = map_option ps_identity (max_by ps_since (sockets_of P who))"

definition logins_of_group :: "presence \<Rightarrow> string \<Rightarrow> string list" where
  "logins_of_group P g =
     (if g = [] then []
      else filter (\<lambda>who. (case identity_of P who of None \<Rightarrow> [] | Some i \<Rightarrow> group i) = g) (presence_logins P))"

text \<open>\<open>Presence.push\<close>: every socket of the login, in order; one that cannot be written is
  forgotten.\<close>

definition push_one :: "(nat \<Rightarrow> bool) \<Rightarrow> message \<Rightarrow> psocket \<Rightarrow> presence \<Rightarrow> presence" where
  "push_one ok m s P =
     (let (sent, l) = send_quietly ok (ps_watcher s) m (p_log P); P1 = P\<lparr>p_log := l\<rparr>
      in if sent then P1 else presence_remove s P1)"

definition push :: "(nat \<Rightarrow> bool) \<Rightarrow> string \<Rightarrow> message \<Rightarrow> presence \<Rightarrow> presence" where
  "push ok who m P = fold (push_one ok m) (sockets_of P who) P"

section \<open>The invariant of the presence\<close>

definition presence_ok :: "presence \<Rightarrow> bool" where
  "presence_ok P \<longleftrightarrow> dict_ok (p_sockets P) \<and>
     (\<forall>(who, ss) \<in> set (p_sockets P). ss \<noteq> [] \<and> distinct (map ps_id ss) \<and>
        (\<forall>s \<in> set ss. login (ps_identity s) = who \<and> ps_id s < p_next P))"

lemma presence_okD:
  assumes "presence_ok P" "dget (p_sockets P) who = Some ss"
  shows "ss \<noteq> []" "distinct (map ps_id ss)" "\<And>s. s \<in> set ss \<Longrightarrow> login (ps_identity s) = who"
    "\<And>s. s \<in> set ss \<Longrightarrow> ps_id s < p_next P"
  using assms by (auto simp: presence_ok_def dest!: map_of_SomeD)

lemma sockets_of_login:
  "presence_ok P \<Longrightarrow> s \<in> set (sockets_of P who) \<Longrightarrow> login (ps_identity s) = who"
  by (cases "dget (p_sockets P) who") (auto simp: sockets_of_def dest: presence_okD(3))

lemma identity_of_login: "presence_ok P \<Longrightarrow> identity_of P who = Some i \<Longrightarrow> login i = who"
  by (auto simp: identity_of_def dest!: max_by_in sockets_of_login)

lemma dget_all_imp_set:
  "dict_ok d \<Longrightarrow> (\<And>k v. dget d k = Some v \<Longrightarrow> Q k v) \<Longrightarrow> \<forall>(k, v) \<in> set d. Q k v"
  by (auto simp: dict_ok_def)

lemma presence_okI:
  assumes "dict_ok (p_sockets P)"
    and "\<And>who ss. dget (p_sockets P) who = Some ss \<Longrightarrow> ss \<noteq> [] \<and> distinct (map ps_id ss) \<and>
        (\<forall>s \<in> set ss. login (ps_identity s) = who \<and> ps_id s < p_next P)"
  shows "presence_ok P"
  using assms dget_all_imp_set [of "p_sockets P"] by (simp add: presence_ok_def)

lemma presence_ok_add: "presence_ok P \<Longrightarrow> presence_ok (snd (presence_add i page w now P))"
proof (rule presence_okI)
  assume ok: "presence_ok P"
  then show "dict_ok (p_sockets (snd (presence_add i page w now P)))"
    by (simp add: presence_add_def Let_def presence_ok_def)
  fix who ss
  assume "dget (p_sockets (snd (presence_add i page w now P))) who = Some ss"
  then show "ss \<noteq> [] \<and> distinct (map ps_id ss) \<and>
      (\<forall>s \<in> set ss. login (ps_identity s) = who
         \<and> ps_id s < p_next (snd (presence_add i page w now P)))"
    using presence_okD [OF ok]
    by (fastforce simp: presence_add_def Let_def sockets_of_def split: if_splits option.splits)
qed

lemma presence_ok_remove: "presence_ok P \<Longrightarrow> presence_ok (presence_remove s P)"
proof (rule presence_okI)
  assume ok: "presence_ok P"
  then show "dict_ok (p_sockets (presence_remove s P))"
    by (auto simp: presence_remove_def Let_def presence_ok_def split: option.splits)
  fix who ss
  assume "dget (p_sockets (presence_remove s P)) who = Some ss"
  then show "ss \<noteq> [] \<and> distinct (map ps_id ss) \<and>
      (\<forall>x \<in> set ss. login (ps_identity x) = who \<and> ps_id x < p_next (presence_remove s P))"
    using presence_okD [OF ok]
    by (auto simp: presence_remove_def Let_def distinct_map_filter split: if_splits option.splits)
qed

lemma presence_ok_log [simp]: "presence_ok (P\<lparr>p_log := l\<rparr>) = presence_ok P"
  by (simp add: presence_ok_def)

lemma presence_ok_push_one: "presence_ok P \<Longrightarrow> presence_ok (push_one ok m s P)"
  by (simp add: push_one_def Let_def presence_ok_remove split: prod.splits)

lemma presence_ok_push: "presence_ok P \<Longrightarrow> presence_ok (push ok who m P)"
proof -
  have "presence_ok P \<Longrightarrow> presence_ok (fold (push_one ok m) ss P)" for ss
    by (induction ss arbitrary: P) (auto simp: presence_ok_push_one)
  then show "presence_ok P \<Longrightarrow> ?thesis" by (simp add: push_def)
qed

section \<open>A push touches the sockets of its login only\<close>

lemma remove_other:
  "login (ps_identity s) \<noteq> who \<Longrightarrow> sockets_of (presence_remove s P) who = sockets_of P who"
  by (auto simp: presence_remove_def sockets_of_def Let_def split: option.splits)

lemma sockets_of_log [simp]: "sockets_of (P\<lparr>p_log := l\<rparr>) who = sockets_of P who"
  by (simp add: sockets_of_def)

lemma identity_of_log [simp]: "identity_of (P\<lparr>p_log := l\<rparr>) who = identity_of P who"
  by (simp add: identity_of_def)

lemma push_one_other:
  "login (ps_identity s) \<noteq> who \<Longrightarrow> sockets_of (push_one ok m s P) who = sockets_of P who"
  by (simp add: push_one_def Let_def remove_other split: prod.splits)

lemma push_other:
  assumes "presence_ok P" "who' \<noteq> who"
  shows "sockets_of (push ok who m P) who' = sockets_of P who'"
proof -
  have "(\<forall>s \<in> set ss. login (ps_identity s) = who) \<Longrightarrow>
    sockets_of (fold (push_one ok m) ss Q) who' = sockets_of Q who'" for ss Q
    using assms(2) by (induction ss arbitrary: Q) (auto simp: push_one_other)
  then show ?thesis
    using sockets_of_login [OF assms(1)] by (simp add: push_def)
qed

lemma identity_of_push_other:
  "presence_ok P \<Longrightarrow> who' \<noteq> who \<Longrightarrow> identity_of (push ok who m P) who' = identity_of P who'"
  by (simp add: identity_of_def push_other)

lemma send_each_subset: "set (fst (send_each ok m ws l)) \<subseteq> set ws"
  by (induction ws arbitrary: l)
    (auto simp: send_quietly_def Let_def split: prod.splits, (metis fst_conv subsetD)+)

lemma presence_remove_log [simp]: "p_log (presence_remove s P) = p_log P"
  by (simp add: presence_remove_def Let_def split: option.splits)

lemma push_one_log:
  "p_log (push_one ok m s P) = p_log P @ [Sent (ps_watcher s) m (ok (length (p_log P)))]"
  by (simp add: push_one_def send_quietly_def Let_def)

text \<open>Every socket of the login is tried, in order, whatever happened to the ones before.\<close>

lemma push_log:
  "map (\<lambda>e. case e of Sent w m b \<Rightarrow> (w, m) | Closed w c \<Rightarrow> (w, MStudent 0))
     (drop (length (p_log P)) (p_log (push ok who m P))) = map (\<lambda>s. (ps_watcher s, m)) (sockets_of P who)
   \<and> take (length (p_log P)) (p_log (push ok who m P)) = p_log P"
proof -
  have "\<exists>es. p_log (fold (push_one ok m) ss Q) = p_log Q @ es \<and>
      map (\<lambda>e. case e of Sent w m b \<Rightarrow> (w, m) | Closed w c \<Rightarrow> (w, MStudent 0)) es
        = map (\<lambda>s. (ps_watcher s, m)) ss" for ss Q
  proof (induction ss arbitrary: Q)
    case Nil
    then show ?case by simp
  next
    case (Cons s ss)
    from Cons [of "push_one ok m s Q"] show ?case
      by (auto simp: push_one_log)
  qed
  from this [of "sockets_of P who" P] show ?thesis
    by (auto simp: push_def)
qed

end
