(* ===== verification/Presentation.thy ===== *)
theory Presentation
  imports Presence
begin

text \<open>
  Presentations (\<open>Presentation\<close>, \<open>parse_audience\<close> and \<open>Presentations\<close> of
  \<open>src/sreweb/portal/presentation.py\<close>): an instructor shows a project on the browsers of an
  audience. Each handler is one transition of the registry; the messages it sends go through
  the presence, whose log records them.
\<close>

record presentation =
  pr_id :: string
  pr_presenter :: identity
  pr_host :: string
  pr_rln :: string
  pr_logins :: "string list"
  pr_groups :: "string list"
  pr_started :: real
  pr_view :: json
  pr_evaluation :: "json option"
  pr_presenter_sockets :: "nat list"
  pr_spectators :: "(string \<times> nat list) list"
  pr_absent :: "real option"
  pr_last :: "(nat \<times> nat) option"

record presentations =
  prs_presence :: presence
  prs_items :: "(string \<times> presentation) list"
  prs_shown :: "(string \<times> string) list"
  prs_ms :: "memberships option"
  prs_grace :: real

definition WS_PRESENTATION_ENDED :: nat where "WS_PRESENTATION_ENDED = 4411"
definition MAX_VIEW_BYTES :: nat where "MAX_VIEW_BYTES = 8 * 1024"
definition MAX_EVALUATION_BYTES :: nat where "MAX_EVALUATION_BYTES = 256 * 1024"
definition MAX_AUDIENCE :: nat where "MAX_AUDIENCE = 1000"

section \<open>The audience of a request\<close>

datatype audience_error = AudienceNotObject | AudienceNotLists | AudienceTooLarge
  | BadLogin | BadGroup

definition jfield :: "(string \<times> json) list \<Rightarrow> string \<Rightarrow> json \<Rightarrow> json" where
  "jfield obj k d = (case dget obj k of None \<Rightarrow> d | Some v \<Rightarrow> v)"

fun check_logins :: "json list \<Rightarrow> audience_error + string list" where
  "check_logins [] = Inr []"
| "check_logins (JStr s # vs) =
     (if \<not> is_valid_login s then Inl BadLogin
      else case check_logins vs of Inl e \<Rightarrow> Inl e | Inr ls \<Rightarrow> Inr (s # ls))"
| "check_logins (_ # vs) = Inl BadLogin"

fun check_groups :: "json list \<Rightarrow> audience_error + string list" where
  "check_groups [] = Inr []"
| "check_groups (JStr s # vs) =
     (let (kind, name) = parse_group_key (py_strip s) in
      if name = [] \<or> clean_group name \<noteq> name then Inl BadGroup
      else case check_groups vs of Inl e \<Rightarrow> Inl e | Inr ks \<Rightarrow> Inr (group_key kind name # ks))"
| "check_groups (_ # vs) = Inl BadGroup"

definition parse_audience :: "json \<Rightarrow> string \<Rightarrow> audience_error + (string list \<times> string list)" where
  "parse_audience value presenter_login =
     (case (case value of JList vs \<Rightarrow> JObj [(''logins'', JList vs)] | v \<Rightarrow> v) of
        JObj obj \<Rightarrow>
          (case (jfield obj ''logins'' (JList []), jfield obj ''groups'' (JList [])) of
             (JList logins, JList groups) \<Rightarrow>
               if length logins + length groups > MAX_AUDIENCE then Inl AudienceTooLarge
               else (case check_logins logins of
                       Inl e \<Rightarrow> Inl e
                     | Inr ls \<Rightarrow>
                         (case check_groups groups of
                            Inl e \<Rightarrow> Inl e
                          | Inr keys \<Rightarrow> Inr (removeAll presenter_login (remdups ls), remdups keys)))
           | _ \<Rightarrow> Inl AudienceNotLists)
      | _ \<Rightarrow> Inl AudienceNotObject)"

section \<open>The audience of a presentation\<close>

definition audience_includes :: "memberships option \<Rightarrow> presentation \<Rightarrow> identity \<Rightarrow> bool" where
  "audience_includes ms p i =
     (if login i = login (pr_presenter p) then False
      else if login i \<in> set (pr_logins p) then True
      else case ms of
             Some m \<Rightarrow> is_member m (login i) (pr_groups p) (group i)
           | None \<Rightarrow> department_member (group i) (pr_groups p))"

definition group_members :: "memberships option \<Rightarrow> presence \<Rightarrow> string \<Rightarrow> string list" where
  "group_members ms P key =
     (let (kind, name) = parse_group_key key in
      lunion (if kind = KIND_DEPARTMENT then logins_of_group P name else [])
        (case ms of None \<Rightarrow> []
         | Some m \<Rightarrow> filter (\<lambda>l. l \<in> set (presence_logins P)) (ms_members_of m [key])))"

definition audience_members :: "memberships option \<Rightarrow> presence \<Rightarrow> presentation \<Rightarrow> string list" where
  "audience_members ms P p =
     removeAll (login (pr_presenter p))
       (foldl (\<lambda>acc key. lunion acc (group_members ms P key)) (pr_logins p) (pr_groups p))"

definition connected_count :: "presentation \<Rightarrow> nat" where
  "connected_count p = length (filter (\<lambda>(l, ws). ws \<noteq> []) (pr_spectators p))"

section \<open>Queries\<close>

definition newness :: "presentation \<Rightarrow> real \<times> string" where
  "newness p = (pr_started p, pr_id p)"

definition of_spectator :: "presentations \<Rightarrow> identity option \<Rightarrow> presentation option" where
  "of_spectator S who =
     max_by newness (filter (\<lambda>p. case who of None \<Rightarrow> False | Some i \<Rightarrow> audience_includes (prs_ms S) p i)
       (vals_of (prs_items S)))"

definition spectator_of :: "presentations \<Rightarrow> identity option \<Rightarrow> string \<Rightarrow> string \<Rightarrow> presentation option" where
  "spectator_of S who host rln =
     (case of_spectator S who of
        Some p \<Rightarrow> if pr_host p = host \<and> pr_rln p = rln then Some p else None
      | None \<Rightarrow> None)"

section \<open>The counts told to the presenter\<close>

definition audience_counts :: "presentations \<Rightarrow> presentation \<Rightarrow> nat \<times> nat" where
  "audience_counts S p = (length (audience_members (prs_ms S) (prs_presence S) p), connected_count p)"

definition set_item :: "presentation \<Rightarrow> presentations \<Rightarrow> presentations" where
  "set_item p S = S\<lparr>prs_items := dset (prs_items S) (pr_id p) p\<rparr>"

definition with_log :: "net \<Rightarrow> presentations \<Rightarrow> presentations" where
  "with_log l S = S\<lparr>prs_presence := (prs_presence S)\<lparr>p_log := l\<rparr>\<rparr>"

definition notify_presenter :: "(nat \<Rightarrow> bool) \<Rightarrow> string \<Rightarrow> presentations \<Rightarrow> presentations" where
  "notify_presenter ok pid S =
     (case dget (prs_items S) pid of
        None \<Rightarrow> S
      | Some p \<Rightarrow>
          (let m = audience_counts S p in
           if pr_last p = Some m then S
           else (let (ws, l) = send_each ok (MAudience (fst m) (snd m)) (pr_presenter_sockets p)
                                 (p_log (prs_presence S))
                 in with_log l (set_item (p\<lparr>pr_last := Some m, pr_presenter_sockets := ws\<rparr>) S))))"

section \<open>\<open>resync\<close>: one login\<close>

definition current_of :: "presentations \<Rightarrow> string \<Rightarrow> string option" where
  "current_of S who =
     (case identity_of (prs_presence S) who of
        None \<Rightarrow> None
      | Some i \<Rightarrow> map_option pr_id (of_spectator S (Some i)))"

definition push_to :: "(nat \<Rightarrow> bool) \<Rightarrow> string \<Rightarrow> message \<Rightarrow> presentations \<Rightarrow> presentations" where
  "push_to ok who m S = S\<lparr>prs_presence := push ok who m (prs_presence S)\<rparr>"

definition drop_spectator :: "(nat \<Rightarrow> bool) \<Rightarrow> string \<Rightarrow> string \<Rightarrow> presentations \<Rightarrow> presentations" where
  "drop_spectator ok who old S =
     (case dget (prs_items S) old of
        None \<Rightarrow> S
      | Some p \<Rightarrow>
          (let ws = (case dget (pr_spectators p) who of None \<Rightarrow> [] | Some ws \<Rightarrow> ws)
           in notify_presenter ok old
                (with_log (close_each WS_PRESENTATION_ENDED ws (p_log (prs_presence S)))
                   (set_item (p\<lparr>pr_spectators := dpop (pr_spectators p) who\<rparr>) S))))"

definition tell_ended :: "(nat \<Rightarrow> bool) \<Rightarrow> string \<Rightarrow> string \<Rightarrow> presentations \<Rightarrow> presentations" where
  "tell_ended ok who old S =
     (let S1 = drop_spectator ok who old S
      in push_to ok who (MPresentationEnded old) (S1\<lparr>prs_shown := dpop (prs_shown S1) who\<rparr>))"

definition present_url :: "string \<Rightarrow> string" where
  "present_url pid = ''/present/'' @ pid"

definition presenter_name :: "presentation \<Rightarrow> string" where
  "presenter_name p =
     (if fullname (pr_presenter p) \<noteq> [] then fullname (pr_presenter p) else login (pr_presenter p))"

definition tell_started :: "(nat \<Rightarrow> bool) \<Rightarrow> string \<Rightarrow> presentation \<Rightarrow> presentations \<Rightarrow> presentations" where
  "tell_started ok who p S =
     notify_presenter ok (pr_id p)
       (push_to ok who (MPresentationStarted (pr_id p) (present_url (pr_id p)) (presenter_name p))
          (S\<lparr>prs_shown := dset (prs_shown S) who (pr_id p)\<rparr>))"

definition resync_presentation1 :: "(nat \<Rightarrow> bool) \<Rightarrow> string \<Rightarrow> presentations \<Rightarrow> presentations" where
  "resync_presentation1 ok who S =
     (let current = (case identity_of (prs_presence S) who of
                       None \<Rightarrow> None | Some i \<Rightarrow> of_spectator S (Some i));
          shown = dget (prs_shown S) who
      in if current \<noteq> None \<and> map_option pr_id current = shown then S
         else (let S1 = (case shown of None \<Rightarrow> S | Some old \<Rightarrow> tell_ended ok who old S)
               in case current of None \<Rightarrow> S1 | Some p \<Rightarrow> tell_started ok who p S1))"

definition resync_presentations :: "(nat \<Rightarrow> bool) \<Rightarrow> string list \<Rightarrow> presentations \<Rightarrow> presentations" where
  "resync_presentations ok logins S = fold (resync_presentation1 ok) (remdups logins) S"

section \<open>Life cycle\<close>

definition end_presentation :: "(nat \<Rightarrow> bool) \<Rightarrow> string \<Rightarrow> presentations \<Rightarrow> presentations" where
  "end_presentation ok pid S =
     (case dget (prs_items S) pid of
        None \<Rightarrow> S
      | Some p \<Rightarrow>
          (let affected = lunion (keys_of (pr_spectators p))
                            (map fst (filter (\<lambda>(l, shown). shown = pid) (prs_shown S)));
               S1 = S\<lparr>prs_items := dpop (prs_items S) pid\<rparr>;
               l1 = close_each WS_PRESENTATION_ENDED (concat (vals_of (pr_spectators p))) (p_log (prs_presence S));
               l2 = close_each WS_PRESENTATION_ENDED (pr_presenter_sockets p) l1
           in resync_presentations ok affected (with_log l2 S1)))"

text \<open>\<open>start\<close>: \<open>new\<close> is the identifier \<open>_new_id\<close> drew, one that no running presentation has.\<close>

definition replaced :: "identity \<Rightarrow> string \<Rightarrow> string \<Rightarrow> presentations \<Rightarrow> string list" where
  "replaced presenter host rln S =
     map pr_id (filter (\<lambda>p. login (pr_presenter p) = login presenter \<and> pr_host p = host \<and> pr_rln p = rln)
       (vals_of (prs_items S)))"

definition start_presentation :: "(nat \<Rightarrow> bool) \<Rightarrow> string \<Rightarrow> identity \<Rightarrow> string \<Rightarrow> string \<Rightarrow>
    string list \<times> string list \<Rightarrow> real \<Rightarrow> presentations \<Rightarrow> presentations" where
  "start_presentation ok new presenter host rln audience now S =
     (let S1 = fold (end_presentation ok) (replaced presenter host rln S) S;
          p = \<lparr>pr_id = new, pr_presenter = presenter, pr_host = host, pr_rln = rln,
               pr_logins = removeAll (login presenter) (remdups (fst audience)),
               pr_groups = normalize_group_keys (snd audience), pr_started = now, pr_view = JObj [],
               pr_evaluation = None, pr_presenter_sockets = [], pr_spectators = [],
               pr_absent = Some now, pr_last = None\<rparr>;
          S2 = set_item p S1
      in resync_presentations ok (audience_members (prs_ms S2) (prs_presence S2) p) S2)"

definition set_audience :: "(nat \<Rightarrow> bool) \<Rightarrow> string \<Rightarrow> string list \<times> string list \<Rightarrow>
    presentations \<Rightarrow> presentations option" where
  "set_audience ok pid audience S =
     (case dget (prs_items S) pid of
        None \<Rightarrow> None
      | Some p \<Rightarrow>
          (let before = audience_members (prs_ms S) (prs_presence S) p;
               p' = p\<lparr>pr_logins := removeAll (login (pr_presenter p)) (remdups (fst audience)),
                      pr_groups := normalize_group_keys (snd audience)\<rparr>;
               S1 = set_item p' S
           in Some (notify_presenter ok pid
                (resync_presentations ok (lunion before (audience_members (prs_ms S1) (prs_presence S1) p')) S1))))"

datatype view_error = UnknownPresentation | NotAnObject | TooLarge

fun push_spectators_loop :: "(nat \<Rightarrow> bool) \<Rightarrow> message \<Rightarrow> (string \<times> nat list) list \<Rightarrow> net \<Rightarrow>
    (string \<times> nat list) list \<times> net" where
  "push_spectators_loop ok m [] l = ([], l)"
| "push_spectators_loop ok m ((who, ws) # rest) l =
     (let (ws', l1) = send_each ok m ws l; (rest', l2) = push_spectators_loop ok m rest l1
      in ((who, ws') # rest', l2))"

definition push_spectators :: "(nat \<Rightarrow> bool) \<Rightarrow> presentation \<Rightarrow> message \<Rightarrow> presentations \<Rightarrow> presentations" where
  "push_spectators ok p m S =
     (let (sp, l) = push_spectators_loop ok m (pr_spectators p) (p_log (prs_presence S))
      in with_log l (set_item (p\<lparr>pr_spectators := sp\<rparr>) S))"

text \<open>\<open>json_size v\<close> is the length of \<open>json.dumps(v)\<close> in UTF-8, compact separators.\<close>

definition set_presentation_view :: "(json \<Rightarrow> nat) \<Rightarrow> (nat \<Rightarrow> bool) \<Rightarrow> string \<Rightarrow> json \<Rightarrow> presentations \<Rightarrow>
    view_error + presentations" where
  "set_presentation_view json_size ok pid v S =
     (case dget (prs_items S) pid of
        None \<Rightarrow> Inl UnknownPresentation
      | Some p \<Rightarrow>
          (case v of
             JObj f \<Rightarrow> if json_size v > MAX_VIEW_BYTES then Inl TooLarge
                       else Inr (push_spectators ok (p\<lparr>pr_view := v\<rparr>) (MView v) S)
           | _ \<Rightarrow> Inl NotAnObject))"

definition is_jlist :: "json option \<Rightarrow> bool" where
  "is_jlist v = (case v of Some (JList xs) \<Rightarrow> True | _ \<Rightarrow> False)"

definition set_evaluation :: "(json \<Rightarrow> nat) \<Rightarrow> (nat \<Rightarrow> bool) \<Rightarrow> string \<Rightarrow> json \<Rightarrow> presentations \<Rightarrow>
    view_error + presentations" where
  "set_evaluation json_size ok pid v S =
     (case dget (prs_items S) pid of
        None \<Rightarrow> Inl UnknownPresentation
      | Some p \<Rightarrow>
          (case v of
             JObj f \<Rightarrow>
               if \<not> is_jlist (dget f ''header'') \<or> \<not> is_jlist (dget f ''rows'') then Inl NotAnObject
               else if json_size v > MAX_EVALUATION_BYTES then Inl TooLarge
               else Inr (push_spectators ok (p\<lparr>pr_evaluation := Some v\<rparr>) (MEvaluation v) S)
           | _ \<Rightarrow> Inl NotAnObject))"

section \<open>The sockets of the presentation page\<close>

definition attach_presenter :: "(nat \<Rightarrow> bool) \<Rightarrow> string \<Rightarrow> nat \<Rightarrow> presentations \<Rightarrow> bool \<times> presentations" where
  "attach_presenter ok pid w S =
     (case dget (prs_items S) pid of
        None \<Rightarrow> (False, S)
      | Some p \<Rightarrow>
          (let m = audience_counts S p;
               l = snd (send_quietly ok w (MAudience (fst m) (snd m)) (p_log (prs_presence S)))
           in (True, with_log l (set_item
                (p\<lparr>pr_presenter_sockets := ladd (pr_presenter_sockets p) w, pr_absent := None,
                   pr_last := Some m\<rparr>) S))))"

definition detach_presenter :: "string \<Rightarrow> nat \<Rightarrow> real \<Rightarrow> presentations \<Rightarrow> presentations" where
  "detach_presenter pid w now S =
     (case dget (prs_items S) pid of
        None \<Rightarrow> S
      | Some p \<Rightarrow>
          (let ws = removeAll w (pr_presenter_sockets p)
           in set_item (p\<lparr>pr_presenter_sockets := ws,
                          pr_absent := (if ws = [] then Some now else pr_absent p)\<rparr>) S))"

definition attach_spectator :: "(nat \<Rightarrow> bool) \<Rightarrow> string \<Rightarrow> identity \<Rightarrow> nat \<Rightarrow> presentations \<Rightarrow>
    bool \<times> presentations" where
  "attach_spectator ok pid i w S =
     (case dget (prs_items S) pid of
        None \<Rightarrow> (False, S)
      | Some p \<Rightarrow>
          if \<not> audience_includes (prs_ms S) p i then (False, S)
          else (let ws = (case dget (pr_spectators p) (login i) of None \<Rightarrow> [] | Some ws \<Rightarrow> ws);
                    l1 = snd (send_quietly ok w (MView (pr_view p)) (p_log (prs_presence S)));
                    l2 = (case pr_evaluation p of None \<Rightarrow> l1
                          | Some e \<Rightarrow> snd (send_quietly ok w (MEvaluation e) l1))
                in (True, notify_presenter ok pid (with_log l2 (set_item
                     (p\<lparr>pr_spectators := dset (pr_spectators p) (login i) (ladd ws w)\<rparr>) S)))))"

definition detach_spectator :: "(nat \<Rightarrow> bool) \<Rightarrow> string \<Rightarrow> string \<Rightarrow> nat \<Rightarrow> presentations \<Rightarrow> presentations" where
  "detach_spectator ok pid who w S =
     (case dget (prs_items S) pid of
        None \<Rightarrow> S
      | Some p \<Rightarrow>
          (let sp = (case dget (pr_spectators p) who of
                       None \<Rightarrow> pr_spectators p
                     | Some ws \<Rightarrow> if removeAll w ws = [] then dpop (pr_spectators p) who
                                  else dset (pr_spectators p) who (removeAll w ws))
           in notify_presenter ok pid (set_item (p\<lparr>pr_spectators := sp\<rparr>) S)))"

section \<open>The grace of an absent presenter\<close>

definition absent_too_long :: "real \<Rightarrow> presentations \<Rightarrow> string \<Rightarrow> bool" where
  "absent_too_long now S pid =
     (case dget (prs_items S) pid of
        None \<Rightarrow> False
      | Some p \<Rightarrow> (case pr_absent p of None \<Rightarrow> False | Some t \<Rightarrow> now - t \<ge> prs_grace S))"

definition tick_presentations :: "(nat \<Rightarrow> bool) \<Rightarrow> real \<Rightarrow> presentations \<Rightarrow> presentations" where
  "tick_presentations ok now S =
     fold (\<lambda>pid S. if absent_too_long now S pid then end_presentation ok pid S else S)
       (keys_of (prs_items S)) S"

definition shutdown_presentations :: "(nat \<Rightarrow> bool) \<Rightarrow> presentations \<Rightarrow> presentations" where
  "shutdown_presentations ok S = fold (end_presentation ok) (keys_of (prs_items S)) S"

section \<open>What a resynchronisation leaves alone\<close>

text \<open>
  The audience of a presentation and its place among the others are decided by five of its
  fields, its \<open>scope\<close>. The notifications, the sockets and the messages never change them.
\<close>

definition scope :: "presentation \<Rightarrow> string \<times> string \<times> string list \<times> string list \<times> real" where
  "scope p = (pr_id p, login (pr_presenter p), pr_logins p, pr_groups p, pr_started p)"

definition scopes :: "presentations \<Rightarrow> (string \<times> string \<times> string \<times> string list \<times> string list \<times> real) list" where
  "scopes S = map (\<lambda>(k, p). (k, scope p)) (prs_items S)"

definition scope_includes :: "memberships option \<Rightarrow> identity \<Rightarrow>
    string \<times> string \<times> string list \<times> string list \<times> real \<Rightarrow> bool" where
  "scope_includes ms i = (\<lambda>(pid, presenter, logins, groups, started).
     (if login i = presenter then False
      else if login i \<in> set logins then True
      else case ms of Some m \<Rightarrow> is_member m (login i) groups (group i)
           | None \<Rightarrow> department_member (group i) groups))"

definition presentations_ok :: "presentations \<Rightarrow> bool" where
  "presentations_ok S \<longleftrightarrow> presence_ok (prs_presence S) \<and> dict_ok (prs_items S) \<and>
     (\<forall>(k, p) \<in> set (prs_items S). pr_id p = k)"

lemma presentations_ok_id: "presentations_ok S \<Longrightarrow> dget (prs_items S) k = Some p \<Longrightarrow> pr_id p = k"
  by (auto simp: presentations_ok_def dest!: map_of_SomeD)

lemma max_by_map: "max_by f (map g xs) = map_option g (max_by (\<lambda>x. f (g x)) xs)"
  by (induction xs) (auto split: option.splits)

lemma audience_includes_scope: "audience_includes ms p i = scope_includes ms i (scope p)"
  by (simp add: audience_includes_def scope_includes_def scope_def)

lemma of_spectator_scope:
  "map_option scope (of_spectator S (Some i)) =
   max_by (\<lambda>(pid, presenter, logins, groups, started). (started, pid))
     (filter (scope_includes (prs_ms S) i) (map snd (scopes S)))"
proof -
  have "map snd (scopes S) = map scope (vals_of (prs_items S))"
    by (auto simp: scopes_def vals_of_def)
  moreover have "(\<lambda>x. case scope x of (pid, presenter, logins, groups, started) \<Rightarrow> (started, pid)) = newness"
    by (auto simp: scope_def newness_def)
  ultimately show ?thesis
    by (simp add: of_spectator_def filter_map o_def audience_includes_scope max_by_map)
qed

lemma current_of_scope:
  assumes "scopes S' = scopes S" "prs_ms S' = prs_ms S"
    "identity_of (prs_presence S') who = identity_of (prs_presence S) who"
  shows "current_of S' who = current_of S who"
proof -
  have "map_option pr_id q = map_option fst (map_option scope q)" for q
    by (cases q) (simp_all add: scope_def)
  then show ?thesis
    using assms by (simp add: current_of_def of_spectator_scope del: option.map_comp split: option.splits)
qed

lemma map_update_same:
  "dget d k = Some q \<Longrightarrow> f q = f p \<Longrightarrow> map (\<lambda>(k, p). (k, f p)) (dset d k p) = map (\<lambda>(k, p). (k, f p)) d"
  by (induction d) (auto split: if_splits)

lemma scopes_set_item:
  "dget (prs_items S) (pr_id p) = Some q \<Longrightarrow> scope q = scope p \<Longrightarrow> scopes (set_item p S) = scopes S"
  by (simp add: scopes_def set_item_def map_update_same)

lemma set_item_simps [simp]:
  "prs_presence (set_item p S) = prs_presence S" "prs_shown (set_item p S) = prs_shown S"
  "prs_ms (set_item p S) = prs_ms S" "prs_grace (set_item p S) = prs_grace S"
  by (simp_all add: set_item_def)

lemma with_log_simps [simp]:
  "prs_items (with_log l S) = prs_items S" "prs_shown (with_log l S) = prs_shown S"
  "prs_ms (with_log l S) = prs_ms S" "prs_grace (with_log l S) = prs_grace S"
  "p_sockets (prs_presence (with_log l S)) = p_sockets (prs_presence S)"
  "identity_of (prs_presence (with_log l S)) who = identity_of (prs_presence S) who"
  "presence_ok (prs_presence (with_log l S)) = presence_ok (prs_presence S)"
  "scopes (with_log l S) = scopes S"
  by (simp_all add: with_log_def scopes_def)

lemma push_to_simps [simp]:
  "prs_items (push_to ok who m S) = prs_items S" "prs_shown (push_to ok who m S) = prs_shown S"
  "prs_ms (push_to ok who m S) = prs_ms S" "prs_grace (push_to ok who m S) = prs_grace S"
  "prs_presence (push_to ok who m S) = push ok who m (prs_presence S)"
  "scopes (push_to ok who m S) = scopes S"
  by (simp_all add: push_to_def scopes_def)

lemma presentations_okI:
  assumes "presence_ok (prs_presence S)" "dict_ok (prs_items S)"
    "\<And>k p. dget (prs_items S) k = Some p \<Longrightarrow> pr_id p = k"
  shows "presentations_ok S"
  using assms dget_all_imp_set [of "prs_items S" "\<lambda>k p. pr_id p = k"]
  by (simp add: presentations_ok_def)

lemma presentations_ok_presence: "presentations_ok S \<Longrightarrow> presence_ok (prs_presence S)"
  by (simp add: presentations_ok_def)

lemma set_item_ok: "presentations_ok S \<Longrightarrow> presentations_ok (set_item p S)"
  by (rule presentations_okI)
    (auto simp: set_item_def presentations_ok_id split: if_splits dest: presentations_ok_presence,
      simp add: presentations_ok_def)

lemma with_log_ok [simp]: "presentations_ok (with_log l S) = presentations_ok S"
  by (simp add: presentations_ok_def)

lemma push_to_ok: "presentations_ok S \<Longrightarrow> presentations_ok (push_to ok who m S)"
  by (simp add: presentations_ok_def presence_ok_push)

lemma shown_update_ok [simp]: "presentations_ok (S\<lparr>prs_shown := d\<rparr>) = presentations_ok S"
  by (simp add: presentations_ok_def)

text \<open>\<open>quiet S S'\<close>: the step from \<open>S\<close> to \<open>S'\<close> only moved sockets and messages.\<close>

definition quiet :: "presentations \<Rightarrow> presentations \<Rightarrow> bool" where
  "quiet S S' \<longleftrightarrow> scopes S' = scopes S \<and> prs_ms S' = prs_ms S \<and> prs_grace S' = prs_grace S"

lemma quiet_refl [simp]: "quiet S S"
  by (simp add: quiet_def)

lemma quiet_trans: "quiet S S' \<Longrightarrow> quiet S' S'' \<Longrightarrow> quiet S S''"
  by (simp add: quiet_def)

lemma notify_presenter_quiet:
  assumes "presentations_ok S"
  shows "quiet S (notify_presenter ok pid S)" "presentations_ok (notify_presenter ok pid S)"
    "prs_shown (notify_presenter ok pid S) = prs_shown S"
    "identity_of (prs_presence (notify_presenter ok pid S)) who = identity_of (prs_presence S) who"
proof -
  have "quiet S (notify_presenter ok pid S) \<and> presentations_ok (notify_presenter ok pid S) \<and>
    prs_shown (notify_presenter ok pid S) = prs_shown S \<and>
    identity_of (prs_presence (notify_presenter ok pid S)) who = identity_of (prs_presence S) who"
  proof (cases "dget (prs_items S) pid")
    case None
    then show ?thesis using assms by (simp add: notify_presenter_def)
  next
    case (Some p)
    then have id: "pr_id p = pid" using assms by (simp add: presentations_ok_id)
    have sc: "scopes (set_item (p\<lparr>pr_last := x, pr_presenter_sockets := ws\<rparr>) S) = scopes S" for x ws
      using Some id by (intro scopes_set_item) (simp_all add: scope_def)
    show ?thesis
      using Some assms sc by (simp add: notify_presenter_def Let_def quiet_def set_item_ok split: prod.splits)
  qed
  then show "quiet S (notify_presenter ok pid S)" "presentations_ok (notify_presenter ok pid S)"
    "prs_shown (notify_presenter ok pid S) = prs_shown S"
    "identity_of (prs_presence (notify_presenter ok pid S)) who = identity_of (prs_presence S) who"
    by auto
qed

lemma drop_spectator_quiet:
  assumes "presentations_ok S"
  shows "quiet S (drop_spectator ok who old S)" "presentations_ok (drop_spectator ok who old S)"
    "prs_shown (drop_spectator ok who old S) = prs_shown S"
    "identity_of (prs_presence (drop_spectator ok who old S)) x = identity_of (prs_presence S) x"
proof -
  have "quiet S (drop_spectator ok who old S) \<and> presentations_ok (drop_spectator ok who old S) \<and>
    prs_shown (drop_spectator ok who old S) = prs_shown S \<and>
    identity_of (prs_presence (drop_spectator ok who old S)) x = identity_of (prs_presence S) x"
  proof (cases "dget (prs_items S) old")
    case None
    then show ?thesis using assms by (simp add: drop_spectator_def)
  next
    case (Some p)
    let ?p = "p\<lparr>pr_spectators := dpop (pr_spectators p) who\<rparr>"
    have id: "pr_id p = old" using assms Some by (simp add: presentations_ok_id)
    have sc: "scopes (set_item ?p S) = scopes S"
      using Some id by (intro scopes_set_item) (simp_all add: scope_def)
    define T where "T = with_log (close_each WS_PRESENTATION_ENDED
      (case dget (pr_spectators p) who of None \<Rightarrow> [] | Some ws \<Rightarrow> ws) (p_log (prs_presence S))) (set_item ?p S)"
    have T: "presentations_ok T" "quiet S T" "prs_shown T = prs_shown S"
      "identity_of (prs_presence T) x = identity_of (prs_presence S) x"
      using assms sc by (simp_all add: T_def quiet_def set_item_ok)
    have "drop_spectator ok who old S = notify_presenter ok old T"
      using Some by (simp add: drop_spectator_def T_def)
    then show ?thesis
      using T notify_presenter_quiet [OF T(1)] by (auto intro: quiet_trans)
  qed
  then show "quiet S (drop_spectator ok who old S)" "presentations_ok (drop_spectator ok who old S)"
    "prs_shown (drop_spectator ok who old S) = prs_shown S"
    "identity_of (prs_presence (drop_spectator ok who old S)) x = identity_of (prs_presence S) x"
    by auto
qed

lemma quiet_push_to [simp]: "quiet S (push_to ok who m S') = quiet S S'"
  by (simp add: quiet_def)

lemma quiet_shown [simp]: "quiet S (S'\<lparr>prs_shown := d\<rparr>) = quiet S S'"
  by (simp add: quiet_def scopes_def)

lemma tell_ended_quiet:
  assumes "presentations_ok S"
  shows "quiet S (tell_ended ok who old S)" "presentations_ok (tell_ended ok who old S)"
    "prs_shown (tell_ended ok who old S) = dpop (prs_shown S) who"
    "x \<noteq> who \<Longrightarrow> identity_of (prs_presence (tell_ended ok who old S)) x = identity_of (prs_presence S) x"
  using drop_spectator_quiet [OF assms]
  by (auto simp: tell_ended_def Let_def push_to_ok identity_of_push_other presentations_ok_presence)

lemma tell_started_quiet:
  assumes "presentations_ok S"
  shows "quiet S (tell_started ok who p S)" "presentations_ok (tell_started ok who p S)"
    "prs_shown (tell_started ok who p S) = dset (prs_shown S) who (pr_id p)"
    "x \<noteq> who \<Longrightarrow> identity_of (prs_presence (tell_started ok who p S)) x = identity_of (prs_presence S) x"
proof -
  define T where "T = push_to ok who (MPresentationStarted (pr_id p) (present_url (pr_id p)) (presenter_name p))
    (S\<lparr>prs_shown := dset (prs_shown S) who (pr_id p)\<rparr>)"
  have T: "presentations_ok T" "quiet S T" "prs_shown T = dset (prs_shown S) who (pr_id p)"
    using assms by (simp_all add: T_def push_to_ok)
  have i: "x \<noteq> who \<Longrightarrow> identity_of (prs_presence T) x = identity_of (prs_presence S) x"
    using assms by (simp add: T_def identity_of_push_other presentations_ok_presence)
  have eq: "tell_started ok who p S = notify_presenter ok (pr_id p) T"
    by (simp add: tell_started_def T_def)
  show "quiet S (tell_started ok who p S)" "presentations_ok (tell_started ok who p S)"
    "prs_shown (tell_started ok who p S) = dset (prs_shown S) who (pr_id p)"
    "x \<noteq> who \<Longrightarrow> identity_of (prs_presence (tell_started ok who p S)) x = identity_of (prs_presence S) x"
    using T i notify_presenter_quiet [OF T(1)] by (auto simp: eq intro: quiet_trans)
qed

lemma resync1_quiet:
  assumes "presentations_ok S"
  shows "quiet S (resync_presentation1 ok who S)" "presentations_ok (resync_presentation1 ok who S)"
    "dget (prs_shown (resync_presentation1 ok who S)) x =
       (if x = who then current_of S who else dget (prs_shown S) x)"
    "x \<noteq> who \<Longrightarrow> identity_of (prs_presence (resync_presentation1 ok who S)) x = identity_of (prs_presence S) x"
proof -
  let ?cur = "case identity_of (prs_presence S) who of None \<Rightarrow> None | Some i \<Rightarrow> of_spectator S (Some i)"
  let ?sh = "dget (prs_shown S) who"
  define S1 where "S1 = (case ?sh of None \<Rightarrow> S | Some old \<Rightarrow> tell_ended ok who old S)"
  have cur: "current_of S who = map_option pr_id ?cur"
    by (simp add: current_of_def split: option.splits)
  have S1: "presentations_ok S1" "quiet S S1"
    "dget (prs_shown S1) y = (if y = who then None else dget (prs_shown S) y)"
    "y \<noteq> who \<Longrightarrow> identity_of (prs_presence S1) y = identity_of (prs_presence S) y" for y
    using assms tell_ended_quiet [OF assms] by (auto simp: S1_def split: option.splits)
  have eq: "resync_presentation1 ok who S =
    (if ?cur \<noteq> None \<and> map_option pr_id ?cur = ?sh then S
     else case ?cur of None \<Rightarrow> S1 | Some p \<Rightarrow> tell_started ok who p S1)"
    by (simp only: resync_presentation1_def S1_def Let_def)
  show "quiet S (resync_presentation1 ok who S)" "presentations_ok (resync_presentation1 ok who S)"
    "dget (prs_shown (resync_presentation1 ok who S)) x =
       (if x = who then current_of S who else dget (prs_shown S) x)"
    "x \<noteq> who \<Longrightarrow> identity_of (prs_presence (resync_presentation1 ok who S)) x = identity_of (prs_presence S) x"
    using assms S1 tell_started_quiet [OF S1(1)]
    unfolding eq cur by (auto split: option.splits intro: quiet_trans)
qed

interpretation pres_sync: delta_sync "resync_presentation1 ok" current_of "\<lambda>S. dget (prs_shown S)" "\<lambda>S l. False"
  presentations_ok for ok
proof unfold_locales
  fix S l l'
  assume ok: "presentations_ok S"
  show "presentations_ok (resync_presentation1 ok l S)" by (rule resync1_quiet [OF ok])
  show "dget (prs_shown (resync_presentation1 ok l S)) l = current_of S l"
    by (simp add: resync1_quiet [OF ok])
  assume other: "l' \<noteq> l"
  show "dget (prs_shown (resync_presentation1 ok l S)) l' = dget (prs_shown S) l'"
    using other by (simp add: resync1_quiet [OF ok])
  show "current_of (resync_presentation1 ok l S) l' = current_of S l'"
    using resync1_quiet(1) [OF ok, of ok l] resync1_quiet(4) [OF ok other, of ok]
    by (intro current_of_scope) (simp_all add: quiet_def)
qed simp_all

section \<open>Properties\<close>

lemma shown_after_resync:
  "presentations_ok S \<Longrightarrow> dget (prs_shown (resync_presentations ok logins S)) who =
     (if who \<in> set logins then current_of S who else dget (prs_shown S) who)"
  using pres_sync.sync_all [of S "remdups logins" ok who] by (simp add: resync_presentations_def)

lemma resync_quiet:
  assumes "presentations_ok S"
  shows "quiet S (resync_presentations ok logins S)" "presentations_ok (resync_presentations ok logins S)"
proof -
  have "presentations_ok S \<Longrightarrow> quiet S (fold (resync_presentation1 ok) ls S)" for ls
  proof (induction ls arbitrary: S)
    case Nil
    then show ?case by simp
  next
    case (Cons a ls)
    from resync1_quiet(1,2) [OF Cons.prems, of ok a] Cons.IH show ?case
      by (auto intro: quiet_trans)
  qed
  with assms show "quiet S (resync_presentations ok logins S)"
    by (simp add: resync_presentations_def)
  show "presentations_ok (resync_presentations ok logins S)"
    unfolding resync_presentations_def by (rule pres_sync.good_all [OF assms])
qed

lemma scopes_keys: "map fst (scopes S) = keys_of (prs_items S)"
  by (auto simp: scopes_def keys_of_def)

lemma current_of_running:
  assumes "presentations_ok S" "current_of S who = Some pid"
  shows "dget (prs_items S) pid \<noteq> None"
proof -
  from assms(2) obtain i p where p: "of_spectator S (Some i) = Some p" "pr_id p = pid"
    by (auto simp: current_of_def split: option.splits)
  then have "p \<in> set (vals_of (prs_items S))"
    by (auto simp: of_spectator_def dest: max_by_in)
  then obtain k where "(k, p) \<in> set (prs_items S)" by (rule vals_ofE)
  then show ?thesis
    using assms(1) p(2) by (auto simp: presentations_ok_def dict_ok_def)
qed

text \<open>After a resynchronisation every login of the set is told exactly the presentation it
  must show now (the newest running one whose audience includes its connected identity, none
  otherwise), and what the other logins were told is unchanged, whatever messages failed.\<close>

theorem resync_tells_current:
  assumes "presentations_ok S"
  shows "dget (prs_shown (resync_presentations ok logins S)) who =
     (if who \<in> set logins then current_of S who else dget (prs_shown S) who)"
  by (rule shown_after_resync [OF assms])

definition no_presentations :: presentations where
  "no_presentations = \<lparr>prs_presence = \<lparr>p_sockets = [], p_next = 0, p_log = []\<rparr>, prs_items = [],
     prs_shown = [], prs_ms = None, prs_grace = 60\<rparr>"

lemma no_presentations_ok: "presentations_ok no_presentations"
  by (simp add: presentations_ok_def presence_ok_def no_presentations_def)

theorem resync_tells_current_witness:
  "dget (prs_shown (resync_presentations (\<lambda>n. True) [''bob''] (no_presentations\<lparr>prs_shown := [(''bob'', ''old'')]\<rparr>)))
     ''bob'' = None"
proof -
  let ?S = "no_presentations\<lparr>prs_shown := [(''bob'', ''old'')]\<rparr>"
  have "presentations_ok ?S" using no_presentations_ok by simp
  from resync_tells_current [OF this, of "\<lambda>n. True" "[''bob'']" "''bob''"] show ?thesis
    by (simp add: current_of_def identity_of_def sockets_of_def no_presentations_def)
qed

lemma end_presentation_ok: "presentations_ok S \<Longrightarrow> presentations_ok (end_presentation ok pid S)"
proof (cases "dget (prs_items S) pid")
  case (Some p)
  assume ok: "presentations_ok S"
  have "presentations_ok (with_log l (S\<lparr>prs_items := dpop (prs_items S) pid\<rparr>))" for l
    using ok by (auto intro!: presentations_okI simp: presentations_ok_id split: if_splits)
      (simp_all add: presentations_ok_def)
  then show ?thesis
    using Some resync_quiet(2) by (simp add: end_presentation_def Let_def)
qed (simp add: end_presentation_def)

text \<open>When a presentation ends it is no longer running and no browser is left told about it:
  every login it was shown to is told another one, or none.\<close>

theorem end_forgets:
  assumes "presentations_ok S"
  shows "dget (prs_items (end_presentation ok pid S)) pid = None \<and>
    (dget (prs_items S) pid \<noteq> None \<longrightarrow>
      (\<forall>who. dget (prs_shown (end_presentation ok pid S)) who \<noteq> Some pid))"
proof (cases "dget (prs_items S) pid")
  case None
  then show ?thesis by (simp add: end_presentation_def)
next
  case (Some p)
  define aff where "aff = lunion (keys_of (pr_spectators p)) (map fst (filter (\<lambda>(l, shown). shown = pid) (prs_shown S)))"
  define l where "l = close_each WS_PRESENTATION_ENDED (pr_presenter_sockets p)
    (close_each WS_PRESENTATION_ENDED (concat (vals_of (pr_spectators p))) (p_log (prs_presence S)))"
  define T where "T = with_log l (S\<lparr>prs_items := dpop (prs_items S) pid\<rparr>)"
  have eq: "end_presentation ok pid S = resync_presentations ok aff T"
    using Some by (simp add: end_presentation_def Let_def aff_def l_def T_def)
  have T: "presentations_ok T" "dget (prs_items T) pid = None" "prs_shown T = prs_shown S"
    using assms by (auto simp: T_def intro!: presentations_okI split: if_splits dest: presentations_ok_id)
      (simp_all add: presentations_ok_def)
  have "set (keys_of (prs_items (resync_presentations ok aff T))) = set (keys_of (prs_items T))"
    using resync_quiet(1) [OF T(1), of ok aff] by (metis quiet_def scopes_keys)
  with T(2) have gone: "dget (prs_items (resync_presentations ok aff T)) pid = None"
    by (metis keys_of_dget)
  have "dget (prs_shown (resync_presentations ok aff T)) who \<noteq> Some pid" for who
  proof (cases "who \<in> set aff")
    case True
    then show ?thesis
      using current_of_running [OF T(1), of who pid] T(2) by (auto simp: shown_after_resync [OF T(1)])
  next
    case False
    then have "dget (prs_shown S) who \<noteq> Some pid"
      by (force simp: aff_def image_iff dest!: map_of_SomeD)
    then show ?thesis using False T(3) by (simp add: shown_after_resync [OF T(1)])
  qed
  with gone show ?thesis by (simp add: eq)
qed

definition demo_identity :: "string \<Rightarrow> identity" where
  "demo_identity who = \<lparr>login = who, fullname = [], email = [], role_of = Student, language = ''en'',
     anonymous = False, view_of = StudentView, group = [], administrator = False\<rparr>"

definition demo_presentation :: "string \<Rightarrow> presentation" where
  "demo_presentation pid = \<lparr>pr_id = pid, pr_presenter = demo_identity ''prof'', pr_host = ''h'', pr_rln = ''r'',
     pr_logins = [''bob''], pr_groups = [], pr_started = 0, pr_view = JObj [], pr_evaluation = None,
     pr_presenter_sockets = [], pr_spectators = [], pr_absent = None, pr_last = None\<rparr>"

definition demo_presentations :: presentations where
  "demo_presentations = no_presentations\<lparr>prs_items := [(''p1'', demo_presentation ''p1'')],
     prs_shown := [(''bob'', ''p1'')]\<rparr>"

lemma demo_presentations_ok: "presentations_ok demo_presentations"
  by (simp add: presentations_ok_def presence_ok_def demo_presentations_def no_presentations_def
      demo_presentation_def dict_ok_def)

theorem end_forgets_witness:
  "dget (prs_shown demo_presentations) ''bob'' = Some ''p1'' \<and>
   dget (prs_shown (end_presentation (\<lambda>n. True) ''p1'' demo_presentations)) ''bob'' \<noteq> Some ''p1''"
  using end_forgets [OF demo_presentations_ok, of "\<lambda>n. True" "''p1''"]
  by (simp add: demo_presentations_def)

end
