(* ===== verification/Exam_Model.thy ===== *)
theory Exam_Model
  imports Presentation
begin

text \<open>
  The data of the exams (\<open>ExamLab\<close>, \<open>Member\<close> and \<open>Exam\<close> of \<open>src/sreweb/portal/exams.py\<close>) and
  the clock of a student: the end of their exam, its phase and when it may start. Times are
  epoch seconds (real numbers: the rounding of IEEE arithmetic is left out), delays seconds.
\<close>

datatype phase = PHASE_SCHEDULED | PHASE_WAITING | PHASE_STARTING | PHASE_ACTIVE | PHASE_ENDED
  | PHASE_DONE | PHASE_PAST

datatype exam_status = STATUS_SCHEDULED | STATUS_RUNNING | STATUS_PAST

definition BINDING_PHASES :: "phase set" where
  "BINDING_PHASES = {PHASE_WAITING, PHASE_STARTING, PHASE_ACTIVE, PHASE_ENDED}"

definition OPEN_PHASES :: "phase set" where
  "OPEN_PHASES = {PHASE_ACTIVE}"

definition START_PHASES :: "phase set" where
  "START_PHASES = {PHASE_WAITING, PHASE_STARTING, PHASE_ACTIVE}"

definition normal_lab :: "string \<Rightarrow> string" where
  "normal_lab name = map (\<lambda>c. if c = CHR ''@'' then CHR ''/'' else c) name"

text \<open>\<open>str.split('@@@')\<close>.\<close>

fun split3 :: "string \<Rightarrow> string list" where
  "split3 (x # y # z # r) =
     (if x = CHR ''@'' \<and> y = CHR ''@'' \<and> z = CHR ''@'' then [] # split3 r
      else (case split3 (y # z # r) of [] \<Rightarrow> [[x]] | p # ps \<Rightarrow> (x # p) # ps))"
| "split3 s = [s]"

definition lab_of_rln :: "string \<Rightarrow> string option" where
  "lab_of_rln rln =
     (case split3 rln of
        [stamp, lab, owner] \<Rightarrow> if lab \<noteq> [] then Some (normal_lab lab) else None
      | _ \<Rightarrow> None)"

record exam_lab =
  el_lab :: string
  el_flavor :: "string option"

text \<open>\<open>projects[lab] = {'host', 'rln', 'synced'}\<close>: \<open>synced\<close> is what the agent was told of the exam
  project, the start, the end, the evaluation period and the title.\<close>

type_synonym synced = "int option \<times> int option \<times> int \<times> string"

record project_ref =
  pj_host :: string
  pj_rln :: string
  pj_synced :: "synced option"

record orphan =
  or_host :: string
  or_rln :: string

record member =
  mb_login :: string
  mb_first_seen :: "real option"
  mb_started :: "real option"
  mb_ended :: "real option"
  mb_extra :: int
  mb_labs :: "exam_lab list option"
  mb_dismissed :: "real option"
  mb_projects :: "(string \<times> project_ref) list"
  mb_orphans :: "orphan list"
  mb_address :: string

text \<open>An \<open>ipaddress\<close> network or address: its version, its integer value and its prefix length.\<close>

record network =
  nw_version :: nat
  nw_address :: nat
  nw_prefix :: nat

record exam =
  ex_id :: int
  ex_title :: string
  ex_created_by :: string
  ex_created_at :: real
  ex_updated_at :: real
  ex_logins :: "string list"
  ex_groups :: "string list"
  ex_labs :: "exam_lab list"
  ex_duration :: "real option"
  ex_start_after :: "real option"
  ex_end_before :: "real option"
  ex_lead :: real
  ex_pre_start :: real
  ex_networks :: "network list"
  ex_eval_interval :: real
  ex_ended :: "real option"
  ex_members :: "(string \<times> member) list"

definition new_member :: "string \<Rightarrow> member" where
  "new_member who = \<lparr>mb_login = who, mb_first_seen = None, mb_started = None, mb_ended = None, mb_extra = 0,
     mb_labs = None, mb_dismissed = None, mb_projects = [], mb_orphans = [], mb_address = []\<rparr>"

section \<open>The audience\<close>

definition exam_includes :: "memberships option \<Rightarrow> exam \<Rightarrow> string \<Rightarrow> string \<Rightarrow> bool" where
  "exam_includes ms e who department =
     (if who \<in> set (ex_logins e) then True
      else if ex_groups e = [] then False
      else case ms of
             Some m \<Rightarrow> is_member m who (ex_groups e) department
           | None \<Rightarrow> department_member department (ex_groups e))"

text \<open>\<open>Exam.member\<close>: without \<open>create\<close> a lookup; with it the record, added when there is none.\<close>

definition member_of :: "exam \<Rightarrow> string \<Rightarrow> member option" where
  "member_of e who = dget (ex_members e) who"

definition member_create :: "exam \<Rightarrow> string \<Rightarrow> member \<times> exam" where
  "member_create e who =
     (case dget (ex_members e) who of
        Some m \<Rightarrow> (m, e)
      | None \<Rightarrow> (new_member who, e\<lparr>ex_members := dset (ex_members e) who (new_member who)\<rparr>))"

definition put_member :: "exam \<Rightarrow> string \<Rightarrow> member \<Rightarrow> exam" where
  "put_member e who m = e\<lparr>ex_members := dset (ex_members e) who m\<rparr>"

definition labs_of :: "exam \<Rightarrow> string option \<Rightarrow> exam_lab list" where
  "labs_of e who =
     (case (case who of None \<Rightarrow> None | Some w \<Rightarrow> if w = [] then None else dget (ex_members e) w) of
        Some m \<Rightarrow> (case mb_labs m of Some ls \<Rightarrow> ls | None \<Rightarrow> ex_labs e)
      | None \<Rightarrow> ex_labs e)"

definition lab_names :: "exam \<Rightarrow> string option \<Rightarrow> string list" where
  "lab_names e who = remdups (map el_lab (labs_of e who))"

definition flavor_of :: "exam \<Rightarrow> string option \<Rightarrow> string \<Rightarrow> string option" where
  "flavor_of e who lab =
     (case find (\<lambda>l. el_lab l = lab) (labs_of e who) of None \<Rightarrow> None | Some l \<Rightarrow> el_flavor l)"

section \<open>The clock\<close>

definition hide_at :: "exam \<Rightarrow> real option" where
  "hide_at e = map_option (\<lambda>s. s - ex_lead e) (ex_start_after e)"

definition prestart_at :: "exam \<Rightarrow> real option" where
  "prestart_at e = map_option (\<lambda>s. s - ex_pre_start e) (ex_start_after e)"

text \<open>The minimum of two bounds, \<open>None\<close> being no bound (\<open>math.inf\<close>).\<close>

fun min_opt :: "real option \<Rightarrow> real option \<Rightarrow> real option" where
  "min_opt None b = b"
| "min_opt a None = a"
| "min_opt (Some a) (Some b) = Some (min a b)"

definition cap :: "real option \<Rightarrow> real \<Rightarrow> real" where
  "cap c e = (case c of None \<Rightarrow> e | Some x \<Rightarrow> min e x)"

definition end_at :: "exam \<Rightarrow> member option \<Rightarrow> real option" where
  "end_at e mo =
     (case mo of
        None \<Rightarrow> None
      | Some m \<Rightarrow>
          (case mb_started m of
             None \<Rightarrow> None
           | Some st \<Rightarrow>
               (case min_opt (map_option (\<lambda>d. st + d) (ex_duration e)) (ex_end_before e) of
                  None \<Rightarrow> None
                | Some x \<Rightarrow>
                    Some (cap (mb_ended m) (cap (ex_ended e) (max (x + of_int (mb_extra m) * 60) st))))))"

definition phase :: "exam \<Rightarrow> member option \<Rightarrow> real \<Rightarrow> phase" where
  "phase e mo now =
     (if (case ex_start_after e of None \<Rightarrow> False | Some s \<Rightarrow> now < s - ex_lead e) then PHASE_SCHEDULED
      else if (case end_at e mo of None \<Rightarrow> False | Some x \<Rightarrow> x \<le> now) then
        (if (case (mo, end_at e mo) of
               (Some m, Some x) \<Rightarrow> (case mb_dismissed m of None \<Rightarrow> False | Some d \<Rightarrow> x \<le> d)
             | _ \<Rightarrow> False)
         then PHASE_DONE else PHASE_ENDED)
      else if (case mo of None \<Rightarrow> False | Some m \<Rightarrow> mb_started m \<noteq> None) then PHASE_ACTIVE
      else if ex_ended e \<noteq> None \<or> (case ex_end_before e of None \<Rightarrow> False | Some x \<Rightarrow> x \<le> now) then PHASE_PAST
      else if (case ex_start_after e of None \<Rightarrow> False | Some s \<Rightarrow> now < s) then PHASE_WAITING
      else PHASE_STARTING)"

definition may_start :: "exam \<Rightarrow> member option \<Rightarrow> real \<Rightarrow> bool" where
  "may_start e mo now =
     (case mo of
        None \<Rightarrow> False
      | Some m \<Rightarrow>
          if mb_started m \<noteq> None then False
          else if (case ex_start_after e of None \<Rightarrow> False | Some s \<Rightarrow> now < s) then False
          else (let labs = lab_names e (Some (mb_login m))
                in labs \<noteq> [] \<and> set labs \<subseteq> set (keys_of (mb_projects m))))"

definition status :: "exam \<Rightarrow> real \<Rightarrow> exam_status" where
  "status e now =
     (if ex_ended e \<noteq> None then STATUS_PAST
      else if (case ex_start_after e of None \<Rightarrow> False | Some s \<Rightarrow> now < s) then STATUS_SCHEDULED
      else if (case ex_end_before e of None \<Rightarrow> False | Some x \<Rightarrow> x \<le> now) \<and>
              list_all (\<lambda>m. case end_at e (Some m) of None \<Rightarrow> True | Some x \<Rightarrow> x \<le> now) (vals_of (ex_members e))
      then STATUS_PAST
      else STATUS_RUNNING)"

definition start_at :: "exam \<Rightarrow> real" where
  "start_at e = (case ex_start_after e of Some s \<Rightarrow> s | None \<Rightarrow> ex_created_at e)"

section \<open>The end of a student's exam\<close>

lemma cap_le: "cap c x \<le> x"
  by (cases c) (simp_all add: cap_def)

lemma cap_Some_le: "cap (Some c) x \<le> c"
  by (simp add: cap_def)

lemma cap_ge: "a \<le> x \<Longrightarrow> (\<And>y. c = Some y \<Longrightarrow> a \<le> y) \<Longrightarrow> a \<le> cap c x"
  by (cases c) (simp_all add: cap_def)

lemma end_at_None_iff:
  "end_at e mo = None \<longleftrightarrow>
     (case mo of None \<Rightarrow> True | Some m \<Rightarrow> mb_started m = None \<or> (ex_duration e = None \<and> ex_end_before e = None))"
  by (cases "ex_duration e"; cases "ex_end_before e") (auto simp: end_at_def split: option.splits)

lemma end_at_SomeE:
  assumes "end_at e mo = Some x"
  obtains m st y where "mo = Some m" "mb_started m = Some st"
    "min_opt (map_option (\<lambda>d. st + d) (ex_duration e)) (ex_end_before e) = Some y"
    "x = cap (mb_ended m) (cap (ex_ended e) (max (y + of_int (mb_extra m) * 60) st))"
  using assms by (auto simp: end_at_def split: option.splits)

text \<open>
  The end is never before the start of the clock unless an \<open>End now\<close> is: the minutes taken from
  a student cannot move their end before their start.
\<close>

lemma end_at_ge_start:
  assumes "end_at e (Some m) = Some x" "mb_started m = Some st"
    and "\<And>c. ex_ended e = Some c \<Longrightarrow> st \<le> c" "\<And>c. mb_ended m = Some c \<Longrightarrow> st \<le> c"
  shows "st \<le> x"
proof -
  from assms(1) obtain st' y where "mb_started m = Some st'"
    "x = cap (mb_ended m) (cap (ex_ended e) (max (y + of_int (mb_extra m) * 60) st'))"
    by (auto elim!: end_at_SomeE)
  with assms(2-) show ?thesis by (simp add: cap_ge)
qed

lemma end_at_le_caps:
  assumes "end_at e (Some m) = Some x"
  shows "(\<forall>c. ex_ended e = Some c \<longrightarrow> x \<le> c) \<and> (\<forall>c. mb_ended m = Some c \<longrightarrow> x \<le> c)"
proof -
  from assms obtain z where "x = cap (mb_ended m) (cap (ex_ended e) z)"
    by (auto elim!: end_at_SomeE)
  then show ?thesis
    using cap_le [of "mb_ended m" "cap (ex_ended e) z"]
    by (auto simp: cap_Some_le) (metis cap_Some_le order_trans)
qed

text \<open>More extra minutes never bring the end forward.\<close>

lemma end_at_extra_mono:
  assumes "mb_extra m \<le> mb_extra m'" "mb_started m' = mb_started m" "mb_ended m' = mb_ended m"
    and "end_at e (Some m) = Some x" "end_at e (Some m') = Some x'"
  shows "x \<le> x'"
proof -
  from assms(4) obtain st y where s: "mb_started m = Some st"
    "min_opt (map_option (\<lambda>d. st + d) (ex_duration e)) (ex_end_before e) = Some y"
    "x = cap (mb_ended m) (cap (ex_ended e) (max (y + of_int (mb_extra m) * 60) st))"
    by (auto elim!: end_at_SomeE)
  with assms(2,3,5) have x': "x' = cap (mb_ended m) (cap (ex_ended e) (max (y + of_int (mb_extra m') * 60) st))"
    by (simp add: end_at_def)
  have "(of_int (mb_extra m) :: real) \<le> of_int (mb_extra m')" using assms(1) by simp
  then show ?thesis
    unfolding s(3) x' by (auto simp: cap_def split: option.splits)
qed

section \<open>The phases in order\<close>

definition phase_rank :: "phase \<Rightarrow> nat" where
  "phase_rank p = (case p of PHASE_SCHEDULED \<Rightarrow> 0 | PHASE_WAITING \<Rightarrow> 1 | PHASE_STARTING \<Rightarrow> 2
     | PHASE_ACTIVE \<Rightarrow> 3 | PHASE_ENDED \<Rightarrow> 4 | PHASE_DONE \<Rightarrow> 5 | PHASE_PAST \<Rightarrow> 6)"

text \<open>As long as nobody edits the exam or the record of the student, time moves a student
  through the phases in one direction only: scheduled, waiting, starting, active, ended (done or
  past being where they stop); an exam never binds again a student it has let go.\<close>

theorem phase_mono:
  assumes "now \<le> now'"
  shows "phase_rank (phase e mo now) \<le> phase_rank (phase e mo now')"
proof (cases "end_at e mo")
  case (Some x)
  then obtain m st where "mo = Some m" "mb_started m = Some st"
    by (auto elim!: end_at_SomeE)
  with Some assms show ?thesis
    by (cases "ex_start_after e") (auto simp: phase_def phase_rank_def split: option.splits)
next
  case None
  with assms show ?thesis
    by (cases "ex_start_after e"; cases "ex_end_before e"; cases mo)
      (auto simp: phase_def phase_rank_def split: option.splits)
qed

definition demo_exam :: exam where
  "demo_exam = \<lparr>ex_id = 1, ex_title = ''net'', ex_created_by = ''prof'', ex_created_at = 0, ex_updated_at = 0,
     ex_logins = [''bob''], ex_groups = [], ex_labs = [\<lparr>el_lab = ''sre/dhcp.py'', el_flavor = None\<rparr>],
     ex_duration = Some 3600, ex_start_after = Some 1000, ex_end_before = Some 6000, ex_lead = 600,
     ex_pre_start = 300, ex_networks = [], ex_eval_interval = 300, ex_ended = None, ex_members = []\<rparr>"

theorem phase_mono_witness:
  "phase demo_exam None 300 = PHASE_SCHEDULED \<and> phase demo_exam None 500 = PHASE_WAITING \<and>
   phase_rank (phase demo_exam None 300) \<le> phase_rank (phase demo_exam None 500)"
  using phase_mono [of 300 500 demo_exam None] by (simp add: phase_def demo_exam_def end_at_def)

text \<open>What the phases mean: a student is active exactly when their clock has started, the
  lead window has opened and their end, if there is one, is still to come; and the exam binds them
  without a started clock only inside its window, before an \<open>End now\<close> of everybody.\<close>

theorem phase_active_iff:
  "phase e mo now = PHASE_ACTIVE \<longleftrightarrow>
     (\<exists>m st. mo = Some m \<and> mb_started m = Some st) \<and>
     (case hide_at e of None \<Rightarrow> True | Some h \<Rightarrow> h \<le> now) \<and>
     (case end_at e mo of None \<Rightarrow> True | Some x \<Rightarrow> now < x)"
  by (cases "ex_start_after e"; cases "end_at e mo"; cases mo)
    (auto simp: phase_def hide_at_def split: option.splits)

text \<open>A student whose clock never started is bound (waiting or starting) exactly from the
  lead window on, while the window is open and nobody ended the exam.\<close>

theorem phase_unstarted_binding:
  assumes "end_at e mo = None" "\<forall>m. mo = Some m \<longrightarrow> mb_started m = None"
  shows "phase e mo now \<in> BINDING_PHASES \<longleftrightarrow>
     (case hide_at e of None \<Rightarrow> True | Some h \<Rightarrow> h \<le> now) \<and> ex_ended e = None \<and>
     (case ex_end_before e of None \<Rightarrow> True | Some x \<Rightarrow> now < x)"
  using assms
  by (cases "ex_start_after e"; cases mo)
    (auto simp: phase_def hide_at_def BINDING_PHASES_def split: option.splits)

theorem phase_unstarted_binding_witness:
  "phase demo_exam None 2000 \<in> BINDING_PHASES \<and> phase demo_exam None 100 \<notin> BINDING_PHASES"
  using phase_unstarted_binding [of demo_exam None 2000] phase_unstarted_binding [of demo_exam None 100]
  by (simp add: end_at_def hide_at_def demo_exam_def)

text \<open>The end of a student's clock is after its start, at most what an \<open>End now\<close> allows, and
  exactly the duration from the start when nothing else limits it, provided no \<open>End now\<close> is
  before the start.\<close>

theorem end_at_bounds:
  assumes "end_at e (Some m) = Some x" "mb_started m = Some st"
    and "\<forall>c. ex_ended e = Some c \<or> mb_ended m = Some c \<longrightarrow> st \<le> c"
  shows "st \<le> x \<and> (\<forall>c. ex_ended e = Some c \<or> mb_ended m = Some c \<longrightarrow> x \<le> c) \<and>
    (\<forall>d. ex_duration e = Some d \<and> 0 \<le> d \<and> ex_end_before e = None \<and> mb_extra m = 0 \<and> ex_ended e = None
       \<and> mb_ended m = None \<longrightarrow> x = st + d)"
proof -
  have "st \<le> x" using assms by (intro end_at_ge_start [OF assms(1,2)]) auto
  moreover have "\<forall>c. ex_ended e = Some c \<or> mb_ended m = Some c \<longrightarrow> x \<le> c"
    using end_at_le_caps [OF assms(1)] by blast
  moreover have "ex_duration e = Some d \<Longrightarrow> 0 \<le> d \<Longrightarrow> ex_end_before e = None \<Longrightarrow> mb_extra m = 0 \<Longrightarrow>
      ex_ended e = None \<Longrightarrow> mb_ended m = None \<Longrightarrow> x = st + d" for d
    using assms(1,2) by (simp add: end_at_def cap_def)
  ultimately show ?thesis by blast
qed

theorem end_at_bounds_witness:
  "end_at demo_exam (Some ((new_member ''bob'')\<lparr>mb_started := Some 1200\<rparr>)) = Some 4800 \<and> (1200 :: real) \<le> 4800"
proof -
  let ?m = "(new_member ''bob'')\<lparr>mb_started := Some 1200\<rparr>"
  have e: "end_at demo_exam (Some ?m) = Some 4800"
    by (simp add: end_at_def demo_exam_def new_member_def cap_def)
  have "mb_started ?m = Some 1200" by simp
  from end_at_bounds [OF e this] e show ?thesis
    by (simp add: demo_exam_def new_member_def)
qed

end
