(* ===== verification/Exam_Requests.thy ===== *)
theory Exam_Requests
  imports Exam_Model
begin

text \<open>
  The requests about exams (\<open>ExamLab.parse\<close>, \<open>parse_labs\<close>, \<open>parse_exam\<close>, \<open>parse_selection\<close>,
  \<open>parse_extra_minutes\<close> of \<open>src/sreweb/portal/exams.py\<close>): a JSON body becomes a definition or the
  first problem. Two functions of the standard library are parameters: \<open>from_iso\<close> reads an ISO 8601
  text as epoch seconds (\<open>datetime.fromisoformat(...).timestamp()\<close>, which uses the local time
  zone), \<open>net\<close> reads a network (\<open>ipaddress\<close>).
\<close>

datatype exam_error =
    LabNotNameOrObject | LabNameRequired | LabNameInvalid | FlavorNotName | FlavorInvalid
  | LabsRequired | TooManyLabs | LabTwice | LabUnknown string
  | NotATime string | MinutesRequired string | NotMinutes string | MinutesOutOfRange string
  | BodyNotObject | TitleRequired | TitleTooLong | AudienceWrong audience_error | AudienceEmpty
  | NetworksNotList | TooManyNetworks | NetworkInvalid | EvalIntervalWrong
  | NoDurationNorEnd | EndInThePast | EndBeforeStart | SelectionEmpty | ExtraMinutesWrong

definition MAX_TITLE :: nat where "MAX_TITLE = 200"
definition MAX_LABS :: nat where "MAX_LABS = 20"
definition MAX_NETWORKS :: nat where "MAX_NETWORKS = 50"
definition MAX_MINUTES :: real where "MAX_MINUTES = 7 * 24 * 60"
definition MAX_EVAL_INTERVAL :: real where "MAX_EVAL_INTERVAL = 86400"

text \<open>\<open>FLAVOR_RE = ^[A-Za-z_][A-Za-z0-9_]*$\<close> with \<open>match\<close>.\<close>

definition flavor_match :: "string \<Rightarrow> bool" where
  "flavor_match s =
     (case before_dollar s of
        [] \<Rightarrow> False
      | c # cs \<Rightarrow> (is_lower c \<or> is_upper c \<or> c = CHR ''_'') \<and> list_all (\<lambda>c. is_alnum c \<or> c = CHR ''_'') cs)"

definition lab_name_ok :: "string \<Rightarrow> bool" where
  "lab_name_ok lab \<longleftrightarrow> CHR ''@'' \<notin> set lab \<and> take 1 lab \<noteq> ''/'' \<and>
     list_all (\<lambda>part. part \<noteq> [] \<and> part \<noteq> ''.'' \<and> part \<noteq> ''..'') (split_on CHR ''/'' lab) \<and>
     py_printable lab \<and> length lab \<le> MAX_TITLE"

definition parse_flavor :: "json option \<Rightarrow> exam_error + string option" where
  "parse_flavor v =
     (case v of
        None \<Rightarrow> Inr None
      | Some JNull \<Rightarrow> Inr None
      | Some (JStr s) \<Rightarrow>
          (let f = py_strip s in
           if f = [] then Inr None
           else if \<not> flavor_match f then Inl FlavorInvalid
           else Inr (Some f))
      | Some _ \<Rightarrow> Inl FlavorNotName)"

definition parse_lab :: "json \<Rightarrow> exam_error + exam_lab" where
  "parse_lab value =
     (case (case value of JStr s \<Rightarrow> JObj [(''lab'', JStr s)] | v \<Rightarrow> v) of
        JObj obj \<Rightarrow>
          (case dget obj ''lab'' of
             Some (JStr s) \<Rightarrow>
               (let lab = py_strip s in
                if lab = [] then Inl LabNameRequired
                else if \<not> lab_name_ok lab then Inl LabNameInvalid
                else ebind (parse_flavor (dget obj ''flavor''))
                       (\<lambda>f. Inr \<lparr>el_lab = lab, el_flavor = f\<rparr>))
           | _ \<Rightarrow> Inl LabNameRequired)
      | _ \<Rightarrow> Inl LabNotNameOrObject)"

definition parse_labs :: "json \<Rightarrow> string list option \<Rightarrow> exam_error + exam_lab list" where
  "parse_labs value known =
     (case value of
        JList vs \<Rightarrow>
          if vs = [] then Inl LabsRequired
          else if length vs > MAX_LABS then Inl TooManyLabs
          else ebind (emap parse_lab vs) (\<lambda>labs.
            let names = map el_lab labs in
            if \<not> distinct names then Inl LabTwice
            else case (case known of None \<Rightarrow> None | Some k \<Rightarrow> find (\<lambda>n. n \<notin> set k) names) of
                   Some n \<Rightarrow> Inl (LabUnknown n)
                 | None \<Rightarrow> Inr labs)
      | _ \<Rightarrow> Inl LabsRequired)"

text \<open>The number a JSON value is, when it is one (\<open>True\<close> and \<open>False\<close> are not).\<close>

fun json_number :: "json \<Rightarrow> pyfloat option" where
  "json_number (JInt i) = Some (Fin (of_int i))"
| "json_number (JFloat f) = Some f"
| "json_number _ = None"

definition blank :: "json \<Rightarrow> bool" where
  "blank v \<longleftrightarrow> v = JNull \<or> v = JStr []"

definition parse_time :: "(string \<Rightarrow> real option) \<Rightarrow> string \<Rightarrow> json \<Rightarrow> exam_error + real option" where
  "parse_time from_iso key v =
     (if blank v then Inr None
      else case v of
        JStr s \<Rightarrow> (case from_iso (py_strip s) of None \<Rightarrow> Inl (NotATime key) | Some t \<Rightarrow> Inr (Some t))
      | _ \<Rightarrow> (case json_number v of
                 Some (Fin x) \<Rightarrow> if x \<le> 0 then Inl (NotATime key) else Inr (Some x)
               | _ \<Rightarrow> Inl (NotATime key)))"

definition parse_minutes :: "string \<Rightarrow> bool \<Rightarrow> real \<Rightarrow> json \<Rightarrow> exam_error + real option" where
  "parse_minutes key nullable minimum v =
     (if blank v then (if nullable then Inr None else Inl (MinutesRequired key))
      else case json_number v of
        Some (Fin x) \<Rightarrow> if x < minimum \<or> x > MAX_MINUTES then Inl (MinutesOutOfRange key)
                        else Inr (Some (x * 60))
      | _ \<Rightarrow> Inl (NotMinutes key))"

section \<open>The definition of an exam\<close>

record exams_config =
  cf_lead :: real
  cf_pre_start :: real
  cf_eval_interval :: real

record exam_spec =
  sp_title :: string
  sp_logins :: "string list"
  sp_groups :: "string list"
  sp_labs :: "exam_lab list"
  sp_duration :: "real option"
  sp_start_after :: "real option"
  sp_end_before :: "real option"
  sp_lead :: real
  sp_pre_start :: real
  sp_networks :: "network list"
  sp_eval_interval :: real

definition spec_of :: "exam \<Rightarrow> exam_spec" where
  "spec_of e = \<lparr>sp_title = ex_title e, sp_logins = ex_logins e, sp_groups = ex_groups e, sp_labs = ex_labs e,
     sp_duration = ex_duration e, sp_start_after = ex_start_after e, sp_end_before = ex_end_before e,
     sp_lead = ex_lead e, sp_pre_start = ex_pre_start e, sp_networks = ex_networks e,
     sp_eval_interval = ex_eval_interval e\<rparr>"

definition parse_title :: "json \<Rightarrow> exam_error + string" where
  "parse_title v =
     (case v of
        JStr s \<Rightarrow> if py_strip s = [] then Inl TitleRequired
                  else (let t = join_words (py_words s) in
                        if length t > MAX_TITLE then Inl TitleTooLong else Inr t)
      | _ \<Rightarrow> Inl TitleRequired)"

definition parse_exam_audience :: "json \<Rightarrow> exam_error + string list \<times> string list" where
  "parse_exam_audience v =
     (case parse_audience v [] of
        Inl e \<Rightarrow> Inl (AudienceWrong e)
      | Inr (logins, groups) \<Rightarrow> if logins = [] \<and> groups = [] then Inl AudienceEmpty else Inr (logins, groups))"

fun json_strings :: "json list \<Rightarrow> string list option" where
  "json_strings [] = Some []"
| "json_strings (JStr s # vs) = map_option ((#) s) (json_strings vs)"
| "json_strings (_ # vs) = None"

definition parse_exam_networks :: "(string \<Rightarrow> network option) \<Rightarrow> json \<Rightarrow> exam_error + network list" where
  "parse_exam_networks net v =
     (case (if v = JNull then JList [] else v) of
        JList vs \<Rightarrow>
          (case json_strings vs of
             None \<Rightarrow> Inl NetworksNotList
           | Some ss \<Rightarrow>
               (let values = filter (\<lambda>s. s \<noteq> []) (map py_strip ss) in
                if length values > MAX_NETWORKS then Inl TooManyNetworks
                else emap (\<lambda>s. case net s of None \<Rightarrow> Inl NetworkInvalid | Some n \<Rightarrow> Inr n) values))
      | _ \<Rightarrow> Inl NetworksNotList)"

definition parse_eval_interval :: "exams_config \<Rightarrow> json \<Rightarrow> exam_error + real" where
  "parse_eval_interval cfg v =
     (case (if blank v then Some (Fin (cf_eval_interval cfg)) else json_number v) of
        Some (Fin x) \<Rightarrow> if 0 < x \<and> x \<le> MAX_EVAL_INTERVAL then Inr x else Inl EvalIntervalWrong
      | _ \<Rightarrow> Inl EvalIntervalWrong)"

text \<open>The value of a field: parsed when the body gives it or the exam is new, kept otherwise.\<close>

definition field_or :: "(string \<times> json) list \<Rightarrow> exam option \<Rightarrow> string \<Rightarrow> (json \<Rightarrow> exam_error + 'a) \<Rightarrow>
    (exam \<Rightarrow> 'a) \<Rightarrow> json \<Rightarrow> exam_error + 'a" where
  "field_or obj current key parse keep missing =
     (case (dget obj key, current) of
        (Some v, _) \<Rightarrow> parse v
      | (None, None) \<Rightarrow> parse missing
      | (None, Some e) \<Rightarrow> Inr (keep e))"

text \<open>A delay or the interval: a field left out of a new exam takes the configured default.\<close>

definition field_default :: "(string \<times> json) list \<Rightarrow> exam option \<Rightarrow> string \<Rightarrow> (json \<Rightarrow> exam_error + 'a) \<Rightarrow>
    (exam \<Rightarrow> 'a) \<Rightarrow> 'a \<Rightarrow> exam_error + 'a" where
  "field_default obj current key parse keep dflt =
     (case (dget obj key, current) of
        (Some v, _) \<Rightarrow> parse v
      | (None, None) \<Rightarrow> Inr dflt
      | (None, Some e) \<Rightarrow> Inr (keep e))"

definition parse_delay :: "string \<Rightarrow> real \<Rightarrow> json \<Rightarrow> exam_error + real" where
  "parse_delay key dflt v =
     ebind (parse_minutes key True 0 v) (\<lambda>x. Inr (case x of None \<Rightarrow> dflt | Some t \<Rightarrow> t))"

definition check_times :: "(string \<times> json) list \<Rightarrow> exam option \<Rightarrow> real \<Rightarrow> exam_spec \<Rightarrow> exam_error + exam_spec" where
  "check_times obj current now sp =
     (if sp_duration sp = None \<and> sp_end_before sp = None then Inl NoDurationNorEnd
      else if (case sp_end_before sp of None \<Rightarrow> False | Some x \<Rightarrow> x \<le> now) \<and>
              (current = None \<or> dget obj ''end_before'' \<noteq> None) then Inl EndInThePast
      else if (case (sp_start_after sp, sp_end_before sp) of (Some s, Some x) \<Rightarrow> x \<le> s | _ \<Rightarrow> False)
      then Inl EndBeforeStart
      else Inr sp)"

definition parse_exam :: "(string \<Rightarrow> real option) \<Rightarrow> (string \<Rightarrow> network option) \<Rightarrow> exams_config \<Rightarrow> real \<Rightarrow>
    string list option \<Rightarrow> exam option \<Rightarrow> json \<Rightarrow> exam_error + exam_spec" where
  "parse_exam from_iso net cfg now known current body =
     (case body of
        JObj obj \<Rightarrow>
          ebind (field_or obj current ''title'' parse_title ex_title JNull) (\<lambda>title.
          ebind (field_or obj current ''audience'' parse_exam_audience (\<lambda>e. (ex_logins e, ex_groups e)) JNull) (\<lambda>(logins, groups).
          ebind (field_or obj current ''labs'' (\<lambda>v. parse_labs v known) ex_labs JNull) (\<lambda>labs.
          ebind (field_or obj current ''duration'' (parse_minutes ''duration'' True 1) ex_duration JNull) (\<lambda>duration.
          ebind (field_or obj current ''start_after'' (parse_time from_iso ''start_after'') ex_start_after JNull) (\<lambda>start_after.
          ebind (field_or obj current ''end_before'' (parse_time from_iso ''end_before'') ex_end_before JNull) (\<lambda>end_before.
          ebind (field_default obj current ''lead'' (parse_delay ''lead'' (cf_lead cfg)) ex_lead (cf_lead cfg)) (\<lambda>lead.
          ebind (field_default obj current ''pre_start'' (parse_delay ''pre_start'' (cf_pre_start cfg)) ex_pre_start (cf_pre_start cfg)) (\<lambda>pre_start.
          ebind (field_or obj current ''networks'' (parse_exam_networks net) ex_networks (JList [])) (\<lambda>networks.
          ebind (field_default obj current ''eval_interval'' (parse_eval_interval cfg) ex_eval_interval (cf_eval_interval cfg)) (\<lambda>eval_interval.
            check_times obj current now
              \<lparr>sp_title = title, sp_logins = logins, sp_groups = groups, sp_labs = labs, sp_duration = duration,
               sp_start_after = start_after, sp_end_before = end_before, sp_lead = lead, sp_pre_start = pre_start,
               sp_networks = networks, sp_eval_interval = eval_interval\<rparr>))))))))))
      | _ \<Rightarrow> Inl BodyNotObject)"

text \<open>\<open>parse_selection\<close>: \<open>(everybody, logins, groups)\<close>.\<close>

definition parse_selection :: "json \<Rightarrow> exam_error + (bool \<times> string list \<times> string list)" where
  "parse_selection body =
     (case body of
        JObj obj \<Rightarrow>
          if dget obj ''all'' = Some (JBool True) then Inr (True, [], [])
          else (case parse_audience (JObj [(''logins'', jfield obj ''logins'' (JList [])),
                                           (''groups'', jfield obj ''groups'' (JList []))]) [] of
                  Inl e \<Rightarrow> Inl (AudienceWrong e)
                | Inr (logins, groups) \<Rightarrow>
                    if logins = [] \<and> groups = [] then Inl SelectionEmpty else Inr (False, logins, groups))
      | _ \<Rightarrow> Inl BodyNotObject)"

definition parse_extra_minutes :: "json \<Rightarrow> exam_error + int" where
  "parse_extra_minutes v =
     (case json_number v of
        Some (Fin x) \<Rightarrow>
          if x \<noteq> of_int \<lfloor>x\<rfloor> \<or> \<bar>x\<bar> > MAX_MINUTES \<or> x = 0 then Inl ExtraMinutesWrong else Inr \<lfloor>x\<rfloor>
      | _ \<Rightarrow> Inl ExtraMinutesWrong)"

section \<open>What a definition accepted by the parser is\<close>

definition lab_ok :: "exam_lab \<Rightarrow> bool" where
  "lab_ok l \<longleftrightarrow> el_lab l \<noteq> [] \<and> lab_name_ok (el_lab l) \<and>
     (case el_flavor l of None \<Rightarrow> True | Some f \<Rightarrow> flavor_match f)"

definition labs_ok :: "exam_lab list \<Rightarrow> bool" where
  "labs_ok ls \<longleftrightarrow> ls \<noteq> [] \<and> length ls \<le> MAX_LABS \<and> distinct (map el_lab ls) \<and> list_all lab_ok ls"

definition spec_ok :: "exam_spec \<Rightarrow> bool" where
  "spec_ok sp \<longleftrightarrow>
     (sp_logins sp \<noteq> [] \<or> sp_groups sp \<noteq> []) \<and> labs_ok (sp_labs sp) \<and>
     (sp_duration sp \<noteq> None \<or> sp_end_before sp \<noteq> None) \<and>
     (\<forall>d. sp_duration sp = Some d \<longrightarrow> 60 \<le> d) \<and>
     (\<forall>s x. sp_start_after sp = Some s \<and> sp_end_before sp = Some x \<longrightarrow> s < x) \<and>
     0 < sp_eval_interval sp \<and> 0 \<le> sp_lead sp \<and> 0 \<le> sp_pre_start sp"

lemma parse_flavor_ok: "parse_flavor v = Inr f \<Longrightarrow> (case f of None \<Rightarrow> True | Some f \<Rightarrow> flavor_match f)"
  by (auto simp: parse_flavor_def Let_def split: option.splits json.splits if_splits)

lemma parse_lab_ok: "parse_lab v = Inr l \<Longrightarrow> lab_ok l"
  by (auto simp: parse_lab_def lab_ok_def Let_def split: json.splits option.splits if_splits
      elim!: ebind_InrE dest!: parse_flavor_ok)

lemma parse_labs_ok: "parse_labs v known = Inr ls \<Longrightarrow> labs_ok ls"
proof -
  assume "parse_labs v known = Inr ls"
  then obtain vs where vs: "v = JList vs" "vs \<noteq> []" "length vs \<le> MAX_LABS" "emap parse_lab vs = Inr ls"
    "distinct (map el_lab ls)"
    by (auto simp: parse_labs_def Let_def split: json.splits if_splits option.splits elim!: ebind_InrE)
  then have l2: "list_all2 (\<lambda>x y. parse_lab x = Inr y) vs ls" by (simp add: emap_Inr)
  then have "list_all lab_ok ls"
    by (auto simp: list_all_length list_all2_conv_all_nth intro: parse_lab_ok)
  moreover have "length ls = length vs" using l2 by (simp add: list_all2_lengthD)
  ultimately show ?thesis using vs by (auto simp: labs_ok_def)
qed

lemma field_or_cases:
  "field_or obj current key parse keep missing = Inr x \<Longrightarrow>
     (\<exists>v. parse v = Inr x) \<or> (\<exists>e. current = Some e \<and> x = keep e)"
  by (auto simp: field_or_def split: option.splits)

lemma field_default_cases:
  "field_default obj current key parse keep dflt = Inr x \<Longrightarrow>
     (\<exists>v. parse v = Inr x) \<or> x = dflt \<or> (\<exists>e. current = Some e \<and> x = keep e)"
  by (auto simp: field_default_def split: option.splits)

lemma parse_minutes_bounds:
  "parse_minutes key nullable lo v = Inr (Some x) \<Longrightarrow> lo * 60 \<le> x \<and> x \<le> MAX_MINUTES * 60"
  by (auto simp: parse_minutes_def split: if_splits option.splits pyfloat.splits)

lemma parse_delay_nonneg: "parse_delay key d v = Inr x \<Longrightarrow> 0 \<le> d \<Longrightarrow> 0 \<le> x"
  using parse_minutes_bounds [of key True 0 v]
  by (auto simp: parse_delay_def elim!: ebind_InrE split: option.splits)

lemma parse_exam_audience_ok: "parse_exam_audience v = Inr (ls, gs) \<Longrightarrow> ls \<noteq> [] \<or> gs \<noteq> []"
  by (auto simp: parse_exam_audience_def split: sum.splits if_splits)

lemma parse_eval_interval_ok: "parse_eval_interval cfg v = Inr x \<Longrightarrow> 0 < x \<and> x \<le> MAX_EVAL_INTERVAL"
  by (auto simp: parse_eval_interval_def split: if_splits option.splits pyfloat.splits)

text \<open>C37: A definition the parser accepts is a well-formed one, whatever the body: an audience, between
  one and twenty distinct labs with valid names, a duration of a minute or more or an end time, the
  end after the start, a positive evaluation interval. For an edit the current definition has to
  be well-formed already; for a new exam the configured defaults have to be non-negative.\<close>

theorem parse_exam_well_formed:
  assumes "parse_exam from_iso net cfg now known current body = Inr sp"
    and "\<forall>e. current = Some e \<longrightarrow> spec_ok (spec_of e)"
    and "0 \<le> cf_lead cfg" "0 \<le> cf_pre_start cfg" "0 < cf_eval_interval cfg"
  shows "spec_ok sp"
proof -
  from assms(1) obtain obj where obj: "body = JObj obj"
    by (auto simp: parse_exam_def split: json.splits)
  from assms(1) obtain title lg labs dur st en lead pre nets ev where f:
    "field_or obj current ''audience'' parse_exam_audience (\<lambda>e. (ex_logins e, ex_groups e)) JNull = Inr lg"
    "field_or obj current ''labs'' (\<lambda>v. parse_labs v known) ex_labs JNull = Inr labs"
    "field_or obj current ''duration'' (parse_minutes ''duration'' True 1) ex_duration JNull = Inr dur"
    "field_default obj current ''lead'' (parse_delay ''lead'' (cf_lead cfg)) ex_lead (cf_lead cfg) = Inr lead"
    "field_default obj current ''pre_start'' (parse_delay ''pre_start'' (cf_pre_start cfg)) ex_pre_start (cf_pre_start cfg) = Inr pre"
    "field_default obj current ''eval_interval'' (parse_eval_interval cfg) ex_eval_interval (cf_eval_interval cfg) = Inr ev"
    and c: "check_times obj current now
      \<lparr>sp_title = title, sp_logins = fst lg, sp_groups = snd lg, sp_labs = labs, sp_duration = dur,
       sp_start_after = st, sp_end_before = en, sp_lead = lead, sp_pre_start = pre,
       sp_networks = nets, sp_eval_interval = ev\<rparr> = Inr sp"
    unfolding parse_exam_def obj by (auto elim!: ebind_InrE)
  have cur: "spec_ok (spec_of e)" if "current = Some e" for e using assms(2) that by blast
  have "fst lg \<noteq> [] \<or> snd lg \<noteq> []"
    using field_or_cases [OF f(1)] cur
    by (cases lg) (auto simp: spec_ok_def spec_of_def dest: parse_exam_audience_ok)
  moreover have "labs_ok labs"
    using field_or_cases [OF f(2)] cur by (auto simp: spec_ok_def spec_of_def dest: parse_labs_ok)
  moreover have "\<forall>d. dur = Some d \<longrightarrow> 60 \<le> d"
    using field_or_cases [OF f(3)] cur by (auto simp: spec_ok_def spec_of_def dest: parse_minutes_bounds)
  moreover have "0 \<le> lead"
    using field_default_cases [OF f(4)] cur assms(3)
    by (auto simp: spec_ok_def spec_of_def dest: parse_delay_nonneg)
  moreover have "0 \<le> pre"
    using field_default_cases [OF f(5)] cur assms(4)
    by (auto simp: spec_ok_def spec_of_def dest: parse_delay_nonneg)
  moreover have "0 < ev"
    using field_default_cases [OF f(6)] cur assms(5)
    by (auto simp: spec_ok_def spec_of_def dest: parse_eval_interval_ok)
  ultimately show ?thesis
    using c by (auto simp: check_times_def spec_ok_def split: if_splits option.splits)
qed

definition demo_body :: json where
  "demo_body = JObj [(''title'', JStr '' net  lab ''), (''audience'', JList [JStr ''bob'']),
     (''labs'', JList [JStr ''sre/dhcp.py'']), (''duration'', JInt 60)]"

definition demo_config :: exams_config where
  "demo_config = \<lparr>cf_lead = 600, cf_pre_start = 300, cf_eval_interval = 300\<rparr>"

definition demo_spec :: exam_spec where
  "demo_spec = \<lparr>sp_title = ''net lab'', sp_logins = [''bob''], sp_groups = [],
     sp_labs = [\<lparr>el_lab = ''sre/dhcp.py'', el_flavor = None\<rparr>], sp_duration = Some 3600, sp_start_after = None,
     sp_end_before = None, sp_lead = 600, sp_pre_start = 300, sp_networks = [], sp_eval_interval = 300\<rparr>"

lemmas parse_char_defs = py_space_def py_strip_def is_lower_def is_upper_def is_digit_def is_alnum_def
  login_char_def before_dollar_def less_eq_char_def

lemma demo_body_parsed:
  "parse_exam (\<lambda>s. None) (\<lambda>s. None) demo_config 0 None None demo_body = Inr demo_spec"
  by (simp add: parse_exam_def demo_body_def demo_config_def demo_spec_def field_or_def field_default_def
      parse_title_def parse_exam_audience_def parse_audience_def jfield_def is_valid_login_def
      valid_login_match_def MAX_LOGIN_LENGTH_def MAX_AUDIENCE_def MAX_TITLE_def MAX_LABS_def MAX_MINUTES_def
      parse_labs_def parse_lab_def lab_name_ok_def py_printable_def parse_flavor_def parse_minutes_def
      parse_time_def blank_def parse_exam_networks_def MAX_NETWORKS_def check_times_def parse_char_defs)

theorem parse_exam_well_formed_witness: "spec_ok demo_spec"
  by (rule parse_exam_well_formed [OF demo_body_parsed]) (simp_all add: demo_config_def)

text \<open>An edit that gives no field keeps the definition as it is: the body \<open>{}\<close> read over a
  well-formed exam is the exam's own definition, even when its end is already in the past.\<close>

theorem parse_exam_empty_edit:
  assumes "spec_ok (spec_of e)"
  shows "parse_exam from_iso net cfg now known (Some e) (JObj []) = Inr (spec_of e)"
  using assms
  by (auto simp: parse_exam_def field_or_def field_default_def check_times_def spec_of_def spec_ok_def
      split: option.splits)

theorem parse_exam_empty_edit_witness:
  "parse_exam (\<lambda>s. None) (\<lambda>s. None) demo_config 9000 None (Some demo_exam) (JObj []) = Inr (spec_of demo_exam)"
  by (rule parse_exam_empty_edit)
    (simp add: spec_ok_def spec_of_def demo_exam_def labs_ok_def MAX_LABS_def lab_ok_def lab_name_ok_def
      py_printable_def MAX_TITLE_def)

end
