(* ===== verification/Exam_Registry.thy ===== *)
theory Exam_Registry
  imports Exam_Requests
begin

text \<open>
  The registry of the exams (\<open>Exams\<close> of \<open>src/sreweb/portal/exams.py\<close>) with the two tables behind
  it (\<open>src/sreweb/portal/examstore.py\<close>): the exam binding a student, what they may open, start and
  see, the instructors' operations, the observation of the projects, the write-through to the
  database, the resynchronisation of the browsers and the tick. A handler is one transition; the
  environment (\<open>env\<close>) decides which message can be written and which database operation succeeds,
  by the number of the operation in the history. The columns keep the times exactly.
\<close>

record env =
  en_send :: "nat \<Rightarrow> bool"
  en_db :: "nat \<Rightarrow> bool"

text \<open>\<open>_told\<close>: what the pages of a student know of their exam.\<close>

record told =
  td_id :: int
  td_phase :: phase
  td_start :: "real option"
  td_pre_start :: real
  td_end :: "real option"
  td_labs :: "string list"
  td_title :: string

record exams =
  xs_items :: "(int \<times> exam) list"
  xs_shown :: "(string \<times> told) list"
  xs_presence :: presence
  xs_ms :: "memberships option"
  xs_next :: int
  xs_store :: bool
  xs_loaded :: bool
  xs_dirty :: "(int \<times> string option) list"
  xs_db_exams :: "(int \<times> exam) list"
  xs_db_members :: "((int \<times> string) \<times> member) list"
  xs_db_ops :: nat
  xs_last_refresh :: real
  xs_last_retry :: real
  xs_last_purge :: real
  xs_keep :: real

definition MEMBERSHIPS_REFRESH :: real where "MEMBERSHIPS_REFRESH = 10"
definition DIRTY_RETRY :: real where "DIRTY_RETRY = 10"

text \<open>\<open>_at\<close>: the time of an operation, truncated to the millisecond.\<close>

definition at_ms :: "real \<Rightarrow> real" where
  "at_ms now = of_int \<lfloor>now * 1000\<rfloor> / 1000"

section \<open>Queries\<close>

definition get_exam :: "exams \<Rightarrow> int \<Rightarrow> exam option" where
  "get_exam S i = dget (xs_items S) i"

definition listing :: "exams \<Rightarrow> exam list" where
  "listing S = sort_key (\<lambda>e. (start_at e, ex_id e)) (vals_of (xs_items S))"

definition exams_of :: "exams \<Rightarrow> string \<Rightarrow> string \<Rightarrow> exam list" where
  "exams_of S who department = filter (\<lambda>e. exam_includes (xs_ms S) e who department) (listing S)"

type_synonym binding = "exam \<times> member option \<times> phase"

definition better :: "real \<Rightarrow> string \<Rightarrow> binding option \<Rightarrow> exam \<Rightarrow> binding option" where
  "better now who best e =
     (let m = member_of e who; p = phase e m now in
      if p \<in> BINDING_PHASES then
        (case best of
           None \<Rightarrow> Some (e, m, p)
         | Some (b, mb, pb) \<Rightarrow>
             if (start_at e, ex_id e) < (start_at b, ex_id b) then Some (e, m, p) else best)
      else best)"

definition for_login :: "exams \<Rightarrow> string \<Rightarrow> string \<Rightarrow> real \<Rightarrow> binding option" where
  "for_login S who department now = foldl (better (at_ms now) who) None (exams_of S who department)"

definition exam_project :: "exams \<Rightarrow> string \<Rightarrow> string \<Rightarrow> (exam \<times> member) option" where
  "exam_project S who rln =
     (case find (\<lambda>e. case member_of e who of
                       None \<Rightarrow> False
                     | Some m \<Rightarrow> list_ex (\<lambda>p. pj_rln p = rln) (vals_of (mb_projects m))) (vals_of (xs_items S)) of
        None \<Rightarrow> None
      | Some e \<Rightarrow> map_option (\<lambda>m. (e, m)) (member_of e who))"

datatype reason = REASON_NONE | REASON_NOT_STARTED | REASON_OVER | REASON_OTHER_LAB | REASON_STARTS_AT real

definition project_access :: "exams \<Rightarrow> string \<Rightarrow> string \<Rightarrow> string \<Rightarrow> real \<Rightarrow> bool \<times> reason" where
  "project_access S who department rln now =
     (case for_login S who department now of
        Some (e, m, p) \<Rightarrow>
          if (case lab_of_rln rln of None \<Rightarrow> True | Some lab \<Rightarrow> lab \<notin> set (lab_names e (Some who)))
          then (False, REASON_OTHER_LAB)
          else if p = PHASE_ENDED then (False, REASON_OVER)
          else if p \<notin> OPEN_PHASES then (False, REASON_NOT_STARTED)
          else (True, REASON_NONE)
      | None \<Rightarrow>
          if exam_project S who rln \<noteq> None then (False, REASON_OVER) else (True, REASON_NONE))"

definition start_access :: "exams \<Rightarrow> string \<Rightarrow> string \<Rightarrow> string \<Rightarrow> real \<Rightarrow> bool \<times> reason" where
  "start_access S who department lab now =
     (case for_login S who department now of
        None \<Rightarrow> (True, REASON_NONE)
      | Some (e, m, p) \<Rightarrow>
          if lab \<notin> set (lab_names e (Some who)) then (False, REASON_OTHER_LAB)
          else if p = PHASE_ENDED then (False, REASON_OVER)
          else if p \<notin> START_PHASES then (False, REASON_NOT_STARTED)
          else (case prestart_at e of
                  Some t \<Rightarrow> if p = PHASE_WAITING \<and> at_ms now < t then (False, REASON_STARTS_AT t)
                            else (True, REASON_NONE)
                | None \<Rightarrow> (True, REASON_NONE)))"

text \<open>A row of \<open>GET /api/projects\<close>: \<open>None\<close> for a name that is absent or not a text; the owner
  may be any value.\<close>

record project_row =
  rw_lab_name :: string
  rw_rln :: "string option"
  rw_host :: "string option"
  rw_owner :: "json option"

definition visible_rows :: "exams \<Rightarrow> string \<Rightarrow> string \<Rightarrow> project_row list \<Rightarrow> real \<Rightarrow>
    (project_row \<times> (int \<times> string) option) list" where
  "visible_rows S who department rows now =
     (case for_login S who department now of
        Some (e, m, p) \<Rightarrow>
          if p \<notin> START_PHASES then []
          else map (\<lambda>r. (r, Some (ex_id e, ex_title e)))
                 (filter (\<lambda>r. normal_lab (rw_lab_name r) \<in> set (lab_names e (Some who))) rows)
      | None \<Rightarrow>
          (let hidden = concat (map (\<lambda>e. case member_of e who of None \<Rightarrow> []
                                         | Some m \<Rightarrow> map pj_rln (vals_of (mb_projects m))) (vals_of (xs_items S)))
           in map (\<lambda>r. (r, None))
                (filter (\<lambda>r. case rw_rln r of None \<Rightarrow> True | Some x \<Rightarrow> x \<notin> set hidden) rows)))"

text \<open>\<open>address_allowed\<close>: \<open>client_allowed\<close> of \<open>src/sreweb/config.py\<close> on the addresses the text gives
  (\<open>addresses\<close>: the parsed address and, for an IPv4-mapped one, the IPv4 address; \<open>[]\<close> when it
  cannot be parsed).\<close>

definition address_bits :: "nat \<Rightarrow> nat" where
  "address_bits version = (if version = 4 then 32 else 128)"

definition in_network :: "nat \<times> nat \<Rightarrow> network \<Rightarrow> bool" where
  "in_network a n \<longleftrightarrow> fst a = nw_version n \<and>
     snd a div 2 ^ (address_bits (nw_version n) - nw_prefix n) =
     nw_address n div 2 ^ (address_bits (nw_version n) - nw_prefix n)"

definition client_allowed :: "(string \<Rightarrow> (nat \<times> nat) list) \<Rightarrow> string \<Rightarrow> network list \<Rightarrow> bool" where
  "client_allowed addresses remote networks =
     (if networks = [] then True
      else list_ex (\<lambda>n. list_ex (\<lambda>a. in_network a n) (addresses (takeWhile (\<lambda>c. c \<noteq> CHR ''%'') remote))) networks)"

definition address_allowed :: "(string \<Rightarrow> (nat \<times> nat) list) \<Rightarrow> exam \<Rightarrow> string \<Rightarrow> bool" where
  "address_allowed addresses e address \<longleftrightarrow>
     ex_networks e = [] \<or> client_allowed addresses address (ex_networks e)"

definition members_of :: "exams \<Rightarrow> exam \<Rightarrow> string list" where
  "members_of S e =
     (let base = lunion (remdups (ex_logins e)) (keys_of (ex_members e));
          all_logins = (if ex_groups e = [] then base
             else lunion (case xs_ms S of None \<Rightarrow> base | Some m \<Rightarrow> lunion base (ms_members_of m (ex_groups e)))
               (filter (\<lambda>who. case identity_of (xs_presence S) who of
                                None \<Rightarrow> False
                              | Some i \<Rightarrow> exam_includes (xs_ms S) e who (group i)) (presence_logins (xs_presence S))))
      in filter is_valid_login all_logins)"

definition resolve :: "exams \<Rightarrow> exam \<Rightarrow> string list \<Rightarrow> string list \<Rightarrow> string + string list" where
  "resolve S e logins groups =
     (let ms = members_of S e; unknown = sort (filter (\<lambda>l. l \<notin> set ms) (remdups logins)) in
      case unknown of
        u # us \<Rightarrow> Inl u
      | [] \<Rightarrow>
          Inr (if groups = [] then remdups logins
               else lunion (case xs_ms S of
                              None \<Rightarrow> remdups logins
                            | Some m \<Rightarrow> lunion (remdups logins) (filter (\<lambda>l. l \<in> set ms) (ms_members_of m groups)))
                      (filter (\<lambda>who. case identity_of (xs_presence S) who of
                                       None \<Rightarrow> False
                                     | Some i \<Rightarrow> department_member (group i) groups) ms)))"

section \<open>The database\<close>

text \<open>The rows: the definition of an exam with its duration in whole seconds, and a member with
  an address of at most 64 characters.\<close>

definition row_of_exam :: "exam \<Rightarrow> exam" where
  "row_of_exam e = e\<lparr>ex_members := [], ex_duration := map_option (\<lambda>d. of_int (py_round d)) (ex_duration e)\<rparr>"

definition row_of_member :: "member \<Rightarrow> member" where
  "row_of_member m = m\<lparr>mb_address := take 64 (mb_address m)\<rparr>"

definition db_answers :: "env \<Rightarrow> exams \<Rightarrow> bool" where
  "db_answers E S \<longleftrightarrow> en_db E (xs_db_ops S)"

definition db_tried :: "exams \<Rightarrow> exams" where
  "db_tried S = S\<lparr>xs_db_ops := Suc (xs_db_ops S)\<rparr>"

text \<open>\<open>save_exam\<close> of an exam with an identifier is an \<open>UPDATE\<close>: it changes nothing when the row is
  gone (purged).\<close>

definition persist_exam :: "env \<Rightarrow> int \<Rightarrow> exams \<Rightarrow> exams" where
  "persist_exam E i S =
     (case dget (xs_items S) i of
        None \<Rightarrow> S
      | Some e \<Rightarrow>
          if \<not> xs_store S \<or> i \<le> 0 then S
          else if db_answers E S then
            (db_tried S)\<lparr>xs_db_exams := (if dget (xs_db_exams S) i = None then xs_db_exams S
                                       else dset (xs_db_exams S) i (row_of_exam e)),
                         xs_dirty := removeAll (i, None) (xs_dirty S)\<rparr>
          else (db_tried S)\<lparr>xs_dirty := ladd (xs_dirty S) (i, None)\<rparr>)"

definition persist_member :: "env \<Rightarrow> int \<Rightarrow> string \<Rightarrow> exams \<Rightarrow> exams" where
  "persist_member E i who S =
     (case dget (xs_items S) i of
        None \<Rightarrow> S
      | Some e \<Rightarrow>
          (case member_of e who of
             None \<Rightarrow> S
           | Some m \<Rightarrow>
               if \<not> xs_store S \<or> i \<le> 0 then S
               else if db_answers E S then
                 (db_tried S)\<lparr>xs_db_members := dset (xs_db_members S) (i, who) (row_of_member m),
                              xs_dirty := removeAll (i, Some who) (xs_dirty S)\<rparr>
               else (db_tried S)\<lparr>xs_dirty := ladd (xs_dirty S) (i, Some who)\<rparr>))"

definition retry_key :: "int \<times> string option \<Rightarrow> int \<times> string" where
  "retry_key d = (fst d, case snd d of None \<Rightarrow> [] | Some who \<Rightarrow> who)"

fun retry_loop :: "env \<Rightarrow> (int \<times> string option) list \<Rightarrow> exams \<Rightarrow> exams" where
  "retry_loop E [] S = S"
| "retry_loop E ((i, who) # ds) S =
     (case dget (xs_items S) i of
        None \<Rightarrow> retry_loop E ds (S\<lparr>xs_dirty := removeAll (i, who) (xs_dirty S)\<rparr>)
      | Some e \<Rightarrow>
          (let S1 = (case who of
                       None \<Rightarrow> persist_exam E i S
                     | Some l \<Rightarrow> if member_of e l \<noteq> None then persist_member E i l S
                                 else S\<lparr>xs_dirty := removeAll (i, who) (xs_dirty S)\<rparr>)
           in if (i, who) \<in> set (xs_dirty S1) then S1 else retry_loop E ds S1))"

definition retry_dirty :: "env \<Rightarrow> exams \<Rightarrow> exams" where
  "retry_dirty E S = retry_loop E (sort_key retry_key (xs_dirty S)) S"

text \<open>\<open>load_all\<close> and \<open>load\<close>: the exams of the tables with their members; the ones not in memory
  are added.\<close>

definition load_all :: "exams \<Rightarrow> exam list" where
  "load_all S = map (\<lambda>(i, e). e\<lparr>ex_members :=
       map (\<lambda>((j, who), m). (who, m))
         (sort_key (\<lambda>((j, who), m). who) (filter (\<lambda>((j, who), m). j = i) (xs_db_members S)))\<rparr>)
     (sort_key fst (xs_db_exams S))"

definition setdefault_exam :: "exam \<Rightarrow> exams \<Rightarrow> exams" where
  "setdefault_exam e S =
     (if dget (xs_items S) (ex_id e) = None then S\<lparr>xs_items := dset (xs_items S) (ex_id e) e\<rparr> else S)"

definition load_exams :: "env \<Rightarrow> exams \<Rightarrow> int \<times> exams" where
  "load_exams E S =
     (if \<not> xs_store S then (0, S\<lparr>xs_loaded := True\<rparr>)
      else if \<not> db_answers E S then (-1, db_tried S)
      else (int (length (load_all S)), (fold setdefault_exam (load_all S) (db_tried S))\<lparr>xs_loaded := True\<rparr>))"

text \<open>\<open>purge\<close>: the past exams last changed before \<open>before\<close>, and the members left without an exam.\<close>

definition purged :: "real \<Rightarrow> exam \<Rightarrow> bool" where
  "purged before e \<longleftrightarrow> ex_updated_at e < before \<and>
     (ex_ended e \<noteq> None \<or> (case ex_end_before e of None \<Rightarrow> False | Some x \<Rightarrow> x < before))"

definition purge_exams :: "env \<Rightarrow> real \<Rightarrow> exams \<Rightarrow> exams" where
  "purge_exams E before S =
     (if \<not> db_answers E S then db_tried S
      else (let kept = filter (\<lambda>(i, e). \<not> purged before e) (xs_db_exams S)
            in (db_tried S)\<lparr>xs_db_exams := kept,
                 xs_db_members := filter (\<lambda>((i, who), m). i \<in> set (keys_of kept)) (xs_db_members S)\<rparr>))"

section \<open>The browsers\<close>

definition told_of :: "binding \<Rightarrow> told" where
  "told_of b = (case b of (e, m, p) \<Rightarrow>
     \<lparr>td_id = ex_id e, td_phase = p, td_start = ex_start_after e, td_pre_start = ex_pre_start e,
      td_end = end_at e m, td_labs = map el_lab (labs_of e (map_option mb_login m)), td_title = ex_title e\<rparr>)"

definition phase_name :: "phase \<Rightarrow> string" where
  "phase_name p = (case p of PHASE_SCHEDULED \<Rightarrow> ''scheduled'' | PHASE_WAITING \<Rightarrow> ''waiting''
     | PHASE_STARTING \<Rightarrow> ''starting'' | PHASE_ACTIVE \<Rightarrow> ''active'' | PHASE_ENDED \<Rightarrow> ''ended''
     | PHASE_DONE \<Rightarrow> ''done'' | PHASE_PAST \<Rightarrow> ''past'')"

definition push_exam :: "env \<Rightarrow> string \<Rightarrow> message \<Rightarrow> exams \<Rightarrow> exams" where
  "push_exam E who m S = S\<lparr>xs_presence := push (en_send E) who m (xs_presence S)\<rparr>"

definition told_now :: "real \<Rightarrow> exams \<Rightarrow> string \<Rightarrow> told option" where
  "told_now now S who =
     (case identity_of (xs_presence S) who of
        None \<Rightarrow> None
      | Some i \<Rightarrow> map_option told_of (for_login S who (group i) now))"

definition resync_exam1 :: "env \<Rightarrow> real \<Rightarrow> string \<Rightarrow> exams \<Rightarrow> exams" where
  "resync_exam1 E now who S =
     (case identity_of (xs_presence S) who of
        None \<Rightarrow> S\<lparr>xs_shown := dpop (xs_shown S) who\<rparr>
      | Some i \<Rightarrow>
          if is_instructor i then S
          else (let current = map_option told_of (for_login S who (group i) now); shown = dget (xs_shown S) who in
                if current = shown then S
                else (case current of
                        None \<Rightarrow> push_exam E who (MExam (td_id (the shown)) None) (S\<lparr>xs_shown := dpop (xs_shown S) who\<rparr>)
                      | Some t \<Rightarrow> push_exam E who (MExam (td_id t) (Some (phase_name (td_phase t))))
                                    (S\<lparr>xs_shown := dset (xs_shown S) who t\<rparr>))))"

definition resync_exams :: "env \<Rightarrow> real \<Rightarrow> string list \<Rightarrow> exams \<Rightarrow> exams" where
  "resync_exams E now logins S = fold (resync_exam1 E now) (remdups logins) S"

end
