(* ===== verification/Exam_Operations.thy ===== *)
theory Exam_Operations
  imports Exam_Registry
begin

text \<open>
  The operations of \<open>Exams\<close> (\<open>src/sreweb/portal/exams.py\<close>): creating, editing and deleting an
  exam, \<open>End now\<close>, the extra minutes, the labs of some students, the end banner, the requests and
  the projects of the students, and the tick. \<open>now\<close> is the clock at the start of an operation and
  \<open>later\<close> the clock when its \<open>resync\<close> reads it again.
\<close>

datatype registry_error = NoExam int | BadValue string | StoreRefused

definition require_exam :: "exams \<Rightarrow> int \<Rightarrow> registry_error + exam" where
  "require_exam S i = (case get_exam S i of None \<Rightarrow> Inl (NoExam i) | Some e \<Rightarrow> Inr e)"

definition put_exam :: "exam \<Rightarrow> exams \<Rightarrow> exams" where
  "put_exam e S = S\<lparr>xs_items := dset (xs_items S) (ex_id e) e\<rparr>"

section \<open>The life cycle\<close>

definition new_exam :: "string \<Rightarrow> exam_spec \<Rightarrow> real \<Rightarrow> exam" where
  "new_exam creator sp now = \<lparr>ex_id = 0, ex_title = sp_title sp, ex_created_by = creator, ex_created_at = now,
     ex_updated_at = now, ex_logins = sp_logins sp, ex_groups = sp_groups sp, ex_labs = sp_labs sp,
     ex_duration = sp_duration sp, ex_start_after = sp_start_after sp, ex_end_before = sp_end_before sp,
     ex_lead = sp_lead sp, ex_pre_start = sp_pre_start sp, ex_networks = sp_networks sp,
     ex_eval_interval = sp_eval_interval sp, ex_ended = None, ex_members = []\<rparr>"

text \<open>\<open>row_id\<close> is the identifier the database gives to the row (\<open>AUTO_INCREMENT\<close>).\<close>

definition create_exam :: "env \<Rightarrow> int \<Rightarrow> string \<Rightarrow> exam_spec \<Rightarrow> real \<Rightarrow> real \<Rightarrow> exams \<Rightarrow>
    (registry_error + int) \<times> exams" where
  "create_exam E row_id creator sp now later S =
     (let e0 = new_exam creator sp (at_ms now) in
      if xs_store S \<and> \<not> db_answers E S then (Inl StoreRefused, db_tried S)
      else
        (let i = (if xs_store S then row_id else xs_next S);
             e = e0\<lparr>ex_id := i\<rparr>;
             S1 = (if xs_store S then (db_tried S)\<lparr>xs_db_exams := dset (xs_db_exams S) i (row_of_exam e)\<rparr>
                   else S\<lparr>xs_next := xs_next S + 1\<rparr>);
             S2 = put_exam e S1
         in (Inr i, resync_exams E later (lunion (members_of S2 e) (presence_logins (xs_presence S2))) S2)))"

definition edited :: "exam_spec \<Rightarrow> bool \<Rightarrow> real \<Rightarrow> exam \<Rightarrow> exam" where
  "edited sp resume now e = e\<lparr>ex_title := sp_title sp, ex_logins := sp_logins sp, ex_groups := sp_groups sp,
     ex_labs := sp_labs sp, ex_duration := sp_duration sp, ex_start_after := sp_start_after sp,
     ex_end_before := sp_end_before sp, ex_lead := sp_lead sp, ex_pre_start := sp_pre_start sp,
     ex_networks := sp_networks sp, ex_eval_interval := sp_eval_interval sp,
     ex_ended := (if resume then None else ex_ended e), ex_updated_at := now\<rparr>"

definition update_exam :: "env \<Rightarrow> int \<Rightarrow> exam_spec \<Rightarrow> bool \<Rightarrow> real \<Rightarrow> real \<Rightarrow> exams \<Rightarrow>
    (registry_error + unit) \<times> exams" where
  "update_exam E i sp resume now later S =
     (case require_exam S i of
        Inl x \<Rightarrow> (Inl x, S)
      | Inr e \<Rightarrow>
          (let before = members_of S e;
               e1 = edited sp resume (at_ms now) e;
               S1 = persist_exam E i (put_exam e1 S)
           in (Inr (), resync_exams E later
                 (lunion (lunion before (members_of S1 e1)) (presence_logins (xs_presence S1))) S1)))"

definition delete_exam :: "env \<Rightarrow> int \<Rightarrow> real \<Rightarrow> exams \<Rightarrow> (registry_error + unit) \<times> exams" where
  "delete_exam E i later S =
     (case require_exam S i of
        Inl x \<Rightarrow> (Inl x, S)
      | Inr e \<Rightarrow>
          (let affected = lunion (members_of S e) (map fst (filter (\<lambda>(who, t). td_id t = i) (xs_shown S)));
               S1 = S\<lparr>xs_items := dpop (xs_items S) i, xs_dirty := filter (\<lambda>d. fst d \<noteq> i) (xs_dirty S)\<rparr>;
               S2 = (if \<not> xs_store S then S1
                     else if db_answers E S then
                       (db_tried S1)\<lparr>xs_db_exams := dpop (xs_db_exams S) i,
                                     xs_db_members := filter (\<lambda>((j, who), m). j \<noteq> i) (xs_db_members S)\<rparr>
                     else db_tried S1)
           in (Inr (), resync_exams E later affected S2)))"

text \<open>The body of the loops \<open>for login in logins\<close>: the record of the student, created when there
  is none, changed and written.\<close>

definition change_member :: "env \<Rightarrow> int \<Rightarrow> (exam \<Rightarrow> member \<Rightarrow> member) \<Rightarrow> string \<Rightarrow> exams \<Rightarrow> exams" where
  "change_member E i f who S =
     (case get_exam S i of
        None \<Rightarrow> S
      | Some e \<Rightarrow>
          (let (m, e1) = member_create e who
           in persist_member E i who (put_exam (put_member e1 who (f e1 m)) S)))"

definition change_members :: "env \<Rightarrow> int \<Rightarrow> (exam \<Rightarrow> member \<Rightarrow> member) \<Rightarrow> string list \<Rightarrow> exams \<Rightarrow> exams" where
  "change_members E i f logins S = fold (change_member E i f) logins S"

definition end_now :: "env \<Rightarrow> int \<Rightarrow> string list option \<Rightarrow> real \<Rightarrow> real \<Rightarrow> exams \<Rightarrow>
    (registry_error + unit) \<times> exams" where
  "end_now E i logins now later S =
     (case require_exam S i of
        Inl x \<Rightarrow> (Inl x, S)
      | Inr e \<Rightarrow>
          (case logins of
             None \<Rightarrow>
               (let e1 = e\<lparr>ex_ended := Some (at_ms now), ex_updated_at := at_ms now\<rparr>;
                    S1 = persist_exam E i (put_exam e1 S)
                in (Inr (), resync_exams E later (members_of S1 e1) S1))
           | Some ls \<Rightarrow>
               (Inr (), resync_exams E later ls
                  (change_members E i (\<lambda>e m. m\<lparr>mb_ended := Some (at_ms now)\<rparr>) ls S))))"

definition adjust :: "env \<Rightarrow> int \<Rightarrow> string list option \<Rightarrow> int \<Rightarrow> real \<Rightarrow> real \<Rightarrow> exams \<Rightarrow>
    (registry_error + unit) \<times> exams" where
  "adjust E i logins extra now later S =
     (case require_exam S i of
        Inl x \<Rightarrow> (Inl x, S)
      | Inr e \<Rightarrow>
          (case logins of
             None \<Rightarrow>
               (let e1 = e\<lparr>ex_duration := map_option (\<lambda>d. max 60 (d + of_int (extra * 60))) (ex_duration e),
                           ex_end_before := map_option (\<lambda>x. x + of_int (extra * 60)) (ex_end_before e),
                           ex_ended := None, ex_updated_at := at_ms now\<rparr>;
                    S1 = persist_exam E i (put_exam e1 S)
                in (Inr (), resync_exams E later (members_of S1 e1) S1))
           | Some ls \<Rightarrow>
               (Inr (), resync_exams E later ls
                  (change_members E i (\<lambda>e m. m\<lparr>mb_extra := mb_extra m + extra, mb_ended := None\<rparr>) ls S))))"

text \<open>\<open>_orphan\<close>: \<open>e\<close> is the exam whose record of the student is the one given.\<close>

definition orphan1 :: "member \<Rightarrow> string \<Rightarrow> member" where
  "orphan1 m lab =
     (case dget (mb_projects m) lab of
        None \<Rightarrow> m
      | Some p \<Rightarrow> m\<lparr>mb_projects := dpop (mb_projects m) lab,
                     mb_orphans := mb_orphans m @ [\<lparr>or_host = pj_host p, or_rln = pj_rln p\<rparr>]\<rparr>)"

definition orphan_projects :: "exam \<Rightarrow> member \<Rightarrow> member" where
  "orphan_projects e m =
     foldl orphan1 m (filter (\<lambda>lab. lab \<notin> set (lab_names (put_member e (mb_login m) m) (Some (mb_login m))))
       (keys_of (mb_projects m)))"

fun persist_members :: "env \<Rightarrow> int \<Rightarrow> string list \<Rightarrow> exams \<Rightarrow> exams" where
  "persist_members E i [] S = S"
| "persist_members E i (who # ws) S = persist_members E i ws (persist_member E i who S)"

definition with_labs :: "exam_lab list option \<Rightarrow> exam \<Rightarrow> member \<Rightarrow> member" where
  "with_labs ls e m = orphan_projects e (m\<lparr>mb_labs := ls\<rparr>)"

definition set_labs :: "env \<Rightarrow> int \<Rightarrow> string list option \<Rightarrow> exam_lab list \<Rightarrow> real \<Rightarrow> real \<Rightarrow> exams \<Rightarrow>
    (registry_error + unit) \<times> exams" where
  "set_labs E i logins labs now later S =
     (case require_exam S i of
        Inl x \<Rightarrow> (Inl x, S)
      | Inr e \<Rightarrow>
          (case logins of
             None \<Rightarrow>
               (let e0 = e\<lparr>ex_labs := labs, ex_updated_at := at_ms now\<rparr>;
                    e1 = e0\<lparr>ex_members := map (\<lambda>(who, m). (who, with_labs None e0 m)) (ex_members e0)\<rparr>;
                    S1 = persist_exam E i (put_exam e1 S);
                    S2 = persist_members E i (keys_of (ex_members e1)) S1
                in (Inr (), resync_exams E later (members_of S2 e1) S2))
           | Some ls \<Rightarrow>
               (Inr (), resync_exams E later ls (change_members E i (with_labs (Some labs)) ls S))))"

section \<open>The students\<close>

definition dismiss :: "env \<Rightarrow> int \<Rightarrow> string \<Rightarrow> real \<Rightarrow> real \<Rightarrow> exams \<Rightarrow> (registry_error + phase) \<times> exams" where
  "dismiss E i who now later S =
     (case require_exam S i of
        Inl x \<Rightarrow> (Inl x, S)
      | Inr e \<Rightarrow>
          (let (m, e1) = member_create e who; S1 = put_exam e1 S in
           if phase e1 (Some m) (at_ms now) \<noteq> PHASE_ENDED then (Inl (BadValue ''nothing to dismiss''), S1)
           else (let m1 = m\<lparr>mb_dismissed := Some (at_ms now)\<rparr>; e2 = put_member e1 who m1
                 in (Inr (phase e2 (Some m1) (at_ms now)),
                     resync_exams E later [who] (persist_member E i who (put_exam e2 S1))))))"

definition seen_at :: "real \<Rightarrow> string \<Rightarrow> member \<Rightarrow> member" where
  "seen_at now address m =
     (let m1 = (if mb_first_seen m = None then m\<lparr>mb_first_seen := Some now\<rparr> else m)
      in if address \<noteq> [] \<and> address \<noteq> mb_address m1 then m1\<lparr>mb_address := address\<rparr> else m1)"

definition note_seen :: "env \<Rightarrow> int \<Rightarrow> string \<Rightarrow> string \<Rightarrow> real \<Rightarrow> exams \<Rightarrow> exams" where
  "note_seen E i who address now S =
     (case get_exam S i of
        None \<Rightarrow> S
      | Some e \<Rightarrow>
          (let (m, e1) = member_create e who; m1 = seen_at (at_ms now) address m
           in if m1 \<noteq> m then persist_member E i who (put_exam (put_member e1 who m1) S)
              else put_exam e1 S))"

text \<open>A row of the running projects: recorded when it is a project of the student for one of
  their labs that is not known yet under that name and host. The flag is \<open>changed\<close>.\<close>

definition record_project :: "member \<Rightarrow> string \<Rightarrow> string \<Rightarrow> string \<Rightarrow> member" where
  "record_project m lab host rln =
     m\<lparr>mb_projects := dset (mb_projects m) lab \<lparr>pj_host = host, pj_rln = rln, pj_synced = None\<rparr>\<rparr>"

definition observe_row :: "string list \<Rightarrow> string \<Rightarrow> member \<times> bool \<Rightarrow> project_row \<Rightarrow> member \<times> bool" where
  "observe_row labs who mc r =
     (let m = fst mc; lab = normal_lab (rw_lab_name r) in
      case (rw_rln r, rw_host r) of
        (Some rln, Some host) \<Rightarrow>
          if lab \<notin> set labs then mc
          else if (case rw_owner r of None \<Rightarrow> False | Some v \<Rightarrow> v \<noteq> JStr who) then mc
          else (case dget (mb_projects m) lab of
                  Some p \<Rightarrow> if pj_rln p \<noteq> rln \<or> pj_host p \<noteq> host then (record_project m lab host rln, True) else mc
                | None \<Rightarrow> (record_project m lab host rln, True))
      | _ \<Rightarrow> mc)"

definition observed :: "exam \<Rightarrow> string \<Rightarrow> project_row list \<Rightarrow> real \<Rightarrow> string \<Rightarrow> member \<Rightarrow> member \<times> bool" where
  "observed e who rows now address m =
     (let m0 = seen_at now address m;
          (m1, changed) = foldl (observe_row (lab_names e (Some who)) who) (m0, m0 \<noteq> m) rows
      in if may_start (put_member e who m1) (Some m1) now then (m1\<lparr>mb_started := Some now\<rparr>, True)
         else (m1, changed))"

definition observe :: "env \<Rightarrow> int \<Rightarrow> string \<Rightarrow> project_row list \<Rightarrow> real \<Rightarrow> string \<Rightarrow> real \<Rightarrow> exams \<Rightarrow>
    bool \<times> exams" where
  "observe E i who rows now address later S =
     (case get_exam S i of
        None \<Rightarrow> (False, S)
      | Some e \<Rightarrow>
          (let (m, e1) = member_create e who;
               (m1, changed) = observed e1 who rows (at_ms now) address m;
               S1 = put_exam (put_member e1 who m1) S
           in if changed then (True, resync_exams E later [who] (persist_member E i who S1))
              else (False, S1)))"

section \<open>The tick\<close>

definition tick_member :: "env \<Rightarrow> int \<Rightarrow> real \<Rightarrow> string \<Rightarrow> exams \<Rightarrow> exams" where
  "tick_member E i now who S =
     (case get_exam S i of
        None \<Rightarrow> S
      | Some e \<Rightarrow>
          (case member_of e who of
             None \<Rightarrow> S
           | Some m \<Rightarrow>
               if may_start e (Some m) now
               then persist_member E i who (put_exam (put_member e who (m\<lparr>mb_started := ex_start_after e\<rparr>)) S)
               else S))"

definition tick_exam :: "env \<Rightarrow> real \<Rightarrow> int \<Rightarrow> exams \<Rightarrow> exams" where
  "tick_exam E now i S =
     (case get_exam S i of
        None \<Rightarrow> S
      | Some e \<Rightarrow>
          (case ex_start_after e of
             None \<Rightarrow> S
           | Some st \<Rightarrow> if now < st then S
                        else fold (tick_member E i now) (keys_of (ex_members e)) S))"

definition tick_refresh :: "memberships \<Rightarrow> real \<Rightarrow> exams \<Rightarrow> exams" where
  "tick_refresh ms now S =
     (if xs_ms S \<noteq> None \<and> MEMBERSHIPS_REFRESH \<le> now - xs_last_refresh S
      then S\<lparr>xs_last_refresh := now, xs_ms := Some ms\<rparr> else S)"

definition tick_retry :: "env \<Rightarrow> real \<Rightarrow> exams \<Rightarrow> exams" where
  "tick_retry E now S =
     (if now - xs_last_retry S < DIRTY_RETRY then S
      else
        (let S1 = S\<lparr>xs_last_retry := now\<rparr>;
             S2 = (if xs_loaded S1 then S1 else snd (load_exams E S1));
             S3 = (if xs_dirty S2 = [] then S2 else retry_dirty E S2)
         in if xs_store S3 \<and> 0 < xs_keep S3 \<and> 86400 \<le> now - xs_last_purge S3
            then purge_exams E (now - xs_keep S3 * 86400) (S3\<lparr>xs_last_purge := now\<rparr>)
            else S3))"

text \<open>\<open>tick\<close> without the hooks; \<open>ms\<close> is what the memberships are after a refresh.\<close>

definition tick_exams :: "env \<Rightarrow> memberships \<Rightarrow> real \<Rightarrow> exams \<Rightarrow> exams" where
  "tick_exams E ms now S =
     (let S1 = fold (tick_exam E (at_ms now)) (keys_of (xs_items S)) S;
          S2 = tick_retry E (at_ms now) (tick_refresh ms (at_ms now) S1)
      in resync_exams E (at_ms now) (presence_logins (xs_presence S2)) S2)"

end
