(* ===== verification/Exam_Access.thy ===== *)
theory Exam_Access
  imports Exam_Registry
begin

text \<open>
  What the queries of \<open>Exams\<close> (\<open>src/sreweb/portal/exams.py\<close>) promise: the exam that binds a
  student, what they may open, start and see meanwhile, and what their browsers are told of it.
\<close>

section \<open>The exam that binds a student\<close>

definition binds :: "exams \<Rightarrow> string \<Rightarrow> string \<Rightarrow> real \<Rightarrow> exam \<Rightarrow> bool" where
  "binds S who department now e \<longleftrightarrow> e \<in> set (vals_of (xs_items S)) \<and>
     exam_includes (xs_ms S) e who department \<and> phase e (member_of e who) (at_ms now) \<in> BINDING_PHASES"

abbreviation start_key :: "exam \<Rightarrow> real \<times> int" where
  "start_key e \<equiv> (start_at e, ex_id e)"

lemma set_exams_of: "set (exams_of S who department) =
    {e \<in> set (vals_of (xs_items S)). exam_includes (xs_ms S) e who department}"
  by (auto simp: exams_of_def listing_def)

lemma fold_better:
  assumes "\<forall>b. best = Some b \<longrightarrow> Q b" and "\<forall>e \<in> set es. phase e (member_of e who) t \<in> BINDING_PHASES \<longrightarrow>
      Q (e, member_of e who, phase e (member_of e who) t)"
  shows "(case foldl (better t who) best es of
      None \<Rightarrow> best = None \<and> (\<forall>e \<in> set es. phase e (member_of e who) t \<notin> BINDING_PHASES)
    | Some b \<Rightarrow> Q b \<and> (\<forall>e \<in> set es. phase e (member_of e who) t \<in> BINDING_PHASES \<longrightarrow> start_key (fst b) \<le> start_key e)
        \<and> (\<forall>c. best = Some c \<longrightarrow> start_key (fst b) \<le> start_key (fst c)))"
  using assms
proof (induction es arbitrary: best)
  case Nil
  then show ?case by (auto split: option.splits)
next
  case (Cons e es)
  let ?p = "phase e (member_of e who) t"
  have Q: "\<forall>b. better t who best e = Some b \<longrightarrow> Q b"
    using Cons.prems by (auto simp: better_def Let_def split: option.splits if_splits)
  have IH: "case foldl (better t who) (better t who best e) es of
      None \<Rightarrow> better t who best e = None \<and> (\<forall>e \<in> set es. phase e (member_of e who) t \<notin> BINDING_PHASES)
    | Some b \<Rightarrow> Q b \<and> (\<forall>e \<in> set es. phase e (member_of e who) t \<in> BINDING_PHASES \<longrightarrow> start_key (fst b) \<le> start_key e)
        \<and> (\<forall>c. better t who best e = Some c \<longrightarrow> start_key (fst b) \<le> start_key (fst c))"
    using Cons.IH [OF Q] Cons.prems(2) by simp
  have no: "better t who best e = None \<Longrightarrow> best = None \<and> ?p \<notin> BINDING_PHASES"
    by (auto simp: better_def Let_def split: option.splits if_splits)
  have le: "better t who best e = Some c \<Longrightarrow>
      (?p \<in> BINDING_PHASES \<longrightarrow> start_key (fst c) \<le> start_key e) \<and> (\<forall>b. best = Some b \<longrightarrow> start_key (fst c) \<le> start_key (fst b))" for c
    by (auto simp: better_def Let_def split: option.splits if_splits)
  have some: "?p \<in> BINDING_PHASES \<or> best \<noteq> None \<Longrightarrow> \<exists>c. better t who best e = Some c"
    by (auto simp: better_def Let_def split: option.splits)
  show ?case
  proof (cases "foldl (better t who) (better t who best e) es")
    case None
    with IH no show ?thesis by simp
  next
    case (Some b)
    with IH have b: "Q b" "\<forall>e \<in> set es. phase e (member_of e who) t \<in> BINDING_PHASES \<longrightarrow> start_key (fst b) \<le> start_key e"
      "\<And>c. better t who best e = Some c \<Longrightarrow> start_key (fst b) \<le> start_key (fst c)"
      by simp_all
    have 1: "start_key (fst b) \<le> start_key e" if "?p \<in> BINDING_PHASES"
    proof -
      from some that obtain c where c: "better t who best e = Some c" by blast
      from b(3) [OF c] le [OF c] that show ?thesis by (blast intro: order_trans)
    qed
    have 2: "start_key (fst b) \<le> start_key (fst d)" if "best = Some d" for d
    proof -
      from some that obtain c where c: "better t who best e = Some c" by blast
      from b(3) [OF c] le [OF c] that show ?thesis by (blast intro: order_trans)
    qed
    from Some b(1,2) 1 2 show ?thesis by simp
  qed
qed

lemma for_login_cases:
  "case for_login S who department now of
     None \<Rightarrow> \<forall>e. \<not> binds S who department now e
   | Some (e, m, p) \<Rightarrow> binds S who department now e \<and> m = member_of e who \<and> p = phase e m (at_ms now) \<and>
       (\<forall>e'. binds S who department now e' \<longrightarrow> start_key e \<le> start_key e')"
proof -
  let ?Q = "\<lambda>(e, m, p). binds S who department now e \<and> m = member_of e who \<and> p = phase e m (at_ms now)"
  have "case for_login S who department now of
      None \<Rightarrow> (None :: binding option) = None \<and> (\<forall>e \<in> set (exams_of S who department). phase e (member_of e who) (at_ms now) \<notin> BINDING_PHASES)
    | Some b \<Rightarrow> ?Q b \<and> (\<forall>e \<in> set (exams_of S who department). phase e (member_of e who) (at_ms now) \<in> BINDING_PHASES
          \<longrightarrow> start_key (fst b) \<le> start_key e) \<and> (\<forall>c. (None :: binding option) = Some c \<longrightarrow> start_key (fst b) \<le> start_key (fst c))"
    unfolding for_login_def
    by (rule fold_better [where best = None and Q = ?Q]) (auto simp: set_exams_of binds_def)
  then show ?thesis
    by (auto simp: set_exams_of binds_def split: option.splits)
qed

lemma for_login_Some:
  assumes "for_login S who department now = Some (e, m, p)"
  shows "binds S who department now e" "m = member_of e who" "p = phase e m (at_ms now)" "p \<in> BINDING_PHASES"
  using for_login_cases [of S who department now] assms by (auto simp: binds_def)

text \<open>C27: The exam that binds a student is found exactly: when some exam of the registry includes
  them in a binding phase, the query gives one with its member and its phase, and none that binds
  them started before it (nor at the same time under a smaller identifier); it gives nothing exactly
  when no exam binds them.\<close>

theorem for_login_exact:
  "(for_login S who department now = None \<longleftrightarrow> (\<forall>e. \<not> binds S who department now e)) \<and>
   (\<forall>e m p. for_login S who department now = Some (e, m, p) \<longrightarrow>
      binds S who department now e \<and> m = member_of e who \<and> p = phase e m (at_ms now) \<and>
      (\<forall>e'. binds S who department now e' \<longrightarrow> start_key e \<le> start_key e'))"
  using for_login_cases [of S who department now] by (auto split: option.splits)

definition demo_exams :: exams where
  "demo_exams = \<lparr>xs_items = [(1, demo_exam), (2, demo_exam\<lparr>ex_id := 2, ex_start_after := Some 900\<rparr>)], xs_shown = [],
     xs_presence = \<lparr>p_sockets = [], p_next = 0, p_log = []\<rparr>, xs_ms = None, xs_next = 3, xs_store = False,
     xs_loaded = True, xs_dirty = [], xs_db_exams = [], xs_db_members = [], xs_db_ops = 0,
     xs_last_refresh = 0, xs_last_retry = 0, xs_last_purge = 0, xs_keep = 0\<rparr>"

lemma demo_for_login: "for_login demo_exams ''bob'' [] 2000
    = Some (demo_exam\<lparr>ex_id := 2, ex_start_after := Some 900\<rparr>, None, PHASE_STARTING)"
  by (simp add: for_login_def exams_of_def listing_def demo_exams_def demo_exam_def vals_of_def start_at_def
      exam_includes_def better_def member_of_def phase_def end_at_def at_ms_def BINDING_PHASES_def Let_def)

theorem for_login_exact_witness:
  "\<exists>e p. for_login demo_exams ''bob'' [] 2000 = Some (e, None, p) \<and> binds demo_exams ''bob'' [] 2000 e \<and> ex_id e = 2"
  using for_login_exact [of demo_exams "''bob''" "[]" 2000] demo_for_login by auto

section \<open>What a student may open, start and see\<close>

lemma project_access_iff:
  "fst (project_access S who department rln now) \<longleftrightarrow>
     (case for_login S who department now of
        Some (e, m, p) \<Rightarrow> p = PHASE_ACTIVE \<and> (\<exists>lab. lab_of_rln rln = Some lab \<and> lab \<in> set (lab_names e (Some who)))
      | None \<Rightarrow> exam_project S who rln = None)"
proof (cases "for_login S who department now")
  case None
  then show ?thesis by (cases "exam_project S who rln") (simp_all add: project_access_def)
next
  case (Some b)
  then obtain e m p where b: "for_login S who department now = Some (e, m, p)" by (cases b) auto
  then show ?thesis
    by (cases p; cases "lab_of_rln rln") (auto simp: project_access_def OPEN_PHASES_def)
qed

text \<open>The calls on a project: while an exam binds a student they are allowed exactly on the
  projects of its labs for them, and only in the active phase; when none does, every project is
  allowed but those an exam has recorded as its own.\<close>

theorem project_access_exact:
  "fst (project_access S who department rln now) \<longleftrightarrow>
     (case for_login S who department now of
        Some (e, m, p) \<Rightarrow> p = PHASE_ACTIVE \<and> (\<exists>lab. lab_of_rln rln = Some lab \<and> lab \<in> set (lab_names e (Some who)))
      | None \<Rightarrow> exam_project S who rln = None)"
  by (rule project_access_iff)

text \<open>Starting a project while an exam binds the student: only a lab of theirs, never once
  their exam is over, and before the start of the exam only from the pre-start time on.\<close>

theorem start_access_exact:
  assumes "for_login S who department now = Some (e, m, p)"
  shows "fst (start_access S who department lab now) \<longleftrightarrow>
     lab \<in> set (lab_names e (Some who)) \<and> p \<noteq> PHASE_ENDED \<and>
     (p = PHASE_WAITING \<longrightarrow> (\<forall>t. prestart_at e = Some t \<longrightarrow> t \<le> at_ms now))"
proof -
  have "p \<in> BINDING_PHASES" by (rule for_login_Some [OF assms])
  then show ?thesis
    using assms by (auto simp: start_access_def BINDING_PHASES_def START_PHASES_def split: option.splits)
qed

theorem start_access_exact_witness:
  "fst (start_access demo_exams ''bob'' [] ''sre/dhcp.py'' 2000) \<and>
   \<not> fst (start_access demo_exams ''bob'' [] ''sre/nat.py'' 2000)"
  using start_access_exact [OF demo_for_login, of "''sre/dhcp.py''"]
    start_access_exact [OF demo_for_login, of "''sre/nat.py''"]
  by (simp add: lab_names_def labs_of_def demo_exam_def)

text \<open>An exam project of a student is one an exam has recorded for them.\<close>

lemma exam_project_None: "exam_project S who rln = None \<longleftrightarrow>
    (\<forall>e \<in> set (vals_of (xs_items S)). \<forall>m. member_of e who = Some m \<longrightarrow> (\<forall>p \<in> set (vals_of (mb_projects m)). pj_rln p \<noteq> rln))"
  (is "?l \<longleftrightarrow> ?r")
proof -
  let ?P = "\<lambda>e. case member_of e who of None \<Rightarrow> False | Some m \<Rightarrow> list_ex (\<lambda>p. pj_rln p = rln) (vals_of (mb_projects m))"
  have "?l \<longleftrightarrow> find ?P (vals_of (xs_items S)) = None"
  proof (cases "find ?P (vals_of (xs_items S))")
    case None
    then show ?thesis by (simp add: exam_project_def)
  next
    case (Some e)
    then have "?P e" by (auto simp: find_Some_iff)
    with Some show ?thesis by (auto simp: exam_project_def split: option.splits)
  qed
  also have "\<dots> \<longleftrightarrow> ?r" by (auto simp: find_None_iff list_ex_iff split: option.splits)
  finally show ?thesis .
qed

text \<open>The listing of the projects and the access to them agree: a row a student sees while
  no exam binds them is a project they may open, and while one does, a row whose name says its lab
  is seen only where the exam lets the student start it, and may be opened exactly in the active
  phase.\<close>

theorem visible_rows_access:
  assumes "(r, mark) \<in> set (visible_rows S who department rows now)" "rw_rln r = Some rln"
    and "lab_of_rln rln = Some (normal_lab (rw_lab_name r))"
  shows "r \<in> set rows \<and>
    (case for_login S who department now of
       None \<Rightarrow> mark = None \<and> fst (project_access S who department rln now)
     | Some (e, m, p) \<Rightarrow> mark = Some (ex_id e, ex_title e) \<and> p \<noteq> PHASE_ENDED \<and>
         (fst (project_access S who department rln now) \<longleftrightarrow> p = PHASE_ACTIVE))"
proof (cases "for_login S who department now")
  case None
  have "exam_project S who rln = None"
    using assms(1,2) None by (fastforce simp: exam_project_None visible_rows_def Let_def split: option.splits)
  then show ?thesis
    using assms None project_access_iff [of S who department rln now] by (auto simp: visible_rows_def Let_def)
next
  case (Some b)
  then obtain e m p where b: "for_login S who department now = Some (e, m, p)" by (cases b) auto
  with assms have "p \<in> START_PHASES" "normal_lab (rw_lab_name r) \<in> set (lab_names e (Some who))" "r \<in> set rows"
    "mark = Some (ex_id e, ex_title e)"
    by (auto simp: visible_rows_def split: if_splits)
  then show ?thesis
    using b assms(3) project_access_iff [of S who department rln now] by (auto simp: START_PHASES_def)
qed

theorem visible_rows_access_witness:
  "\<exists>rln r. rw_rln r = Some rln \<and> visible_rows demo_exams ''bob'' [] [r] 2000 = [(r, Some (2, ''net''))] \<and>
     \<not> fst (project_access demo_exams ''bob'' [] rln 2000)"
proof -
  define rln where "rln = ''s@@@sre@dhcp.py@@@bob''"
  define r where "r = \<lparr>rw_lab_name = ''sre@dhcp.py'', rw_rln = Some rln, rw_host = Some ''h'', rw_owner = None\<rparr>"
  have v: "visible_rows demo_exams ''bob'' [] [r] 2000 = [(r, Some (2, ''net''))]"
    by (simp add: visible_rows_def demo_for_login r_def START_PHASES_def lab_names_def labs_of_def demo_exam_def normal_lab_def)
  have l: "lab_of_rln rln = Some (normal_lab (rw_lab_name r))"
    by (simp add: rln_def r_def lab_of_rln_def normal_lab_def)
  have n: "rw_rln r = Some rln" by (simp add: r_def)
  from visible_rows_access [of r "Some (2, ''net'')" demo_exams "''bob''" "[]" "[r]" 2000 rln] v l n
  show ?thesis by (intro exI [of _ rln] exI [of _ r]) (simp add: demo_for_login)
qed

section \<open>What the browsers are told\<close>

definition no_student :: "exams \<Rightarrow> string \<Rightarrow> bool" where
  "no_student S who \<longleftrightarrow> (case identity_of (xs_presence S) who of None \<Rightarrow> False | Some i \<Rightarrow> is_instructor i)"

definition same_exams :: "exams \<Rightarrow> exams \<Rightarrow> bool" where
  "same_exams S T \<longleftrightarrow> T = S\<lparr>xs_shown := xs_shown T, xs_presence := xs_presence T\<rparr>"

lemma same_exams_refl [simp]: "same_exams S S"
  by (simp add: same_exams_def)

lemma same_exams_trans: "same_exams S T \<Longrightarrow> same_exams T U \<Longrightarrow> same_exams S U"
  unfolding same_exams_def by (cases S, cases T, cases U) simp

lemma same_examsD:
  "same_exams S T \<Longrightarrow> xs_items T = xs_items S \<and> xs_ms T = xs_ms S \<and> xs_next T = xs_next S \<and> xs_store T = xs_store S \<and>
    xs_loaded T = xs_loaded S \<and> xs_dirty T = xs_dirty S \<and> xs_db_exams T = xs_db_exams S \<and>
    xs_db_members T = xs_db_members S \<and> xs_db_ops T = xs_db_ops S"
  unfolding same_exams_def by (cases S, cases T) simp

lemma resync_exam1_same: "same_exams S (resync_exam1 E now who S)"
  by (auto simp: resync_exam1_def same_exams_def push_exam_def Let_def split: option.splits)

lemma resync_exams_same: "same_exams S (resync_exams E now logins S)"
proof -
  have "same_exams S (fold (resync_exam1 E now) ls S)" for ls
    by (induction ls arbitrary: S) (auto intro: same_exams_trans resync_exam1_same)
  then show ?thesis by (simp add: resync_exams_def)
qed

lemmas resync_exams_frame [simp] = same_examsD [OF resync_exams_same]

lemma for_login_same: "same_exams S T \<Longrightarrow> for_login T who department now = for_login S who department now"
  by (simp add: for_login_def exams_of_def listing_def same_examsD)

lemma resync_exam1_presence: "presence_ok (xs_presence S) \<Longrightarrow> presence_ok (xs_presence (resync_exam1 E now who S))"
  by (auto simp: resync_exam1_def push_exam_def Let_def presence_ok_push split: option.splits)

lemma resync_exams_presence: "presence_ok (xs_presence S) \<Longrightarrow> presence_ok (xs_presence (resync_exams E now ls S))"
proof -
  have "presence_ok (xs_presence S) \<Longrightarrow> presence_ok (xs_presence (fold (resync_exam1 E now) ls S))" for ls
    by (induction ls arbitrary: S) (auto simp: resync_exam1_presence)
  then show "presence_ok (xs_presence S) \<Longrightarrow> ?thesis" by (simp add: resync_exams_def)
qed

lemma resync_exam1_identity:
  assumes "presence_ok (xs_presence S)" "who' \<noteq> who"
  shows "identity_of (xs_presence (resync_exam1 E now who S)) who' = identity_of (xs_presence S) who'"
  using assms by (auto simp: resync_exam1_def push_exam_def Let_def identity_of_push_other split: option.splits)

interpretation exam_sync: delta_sync "resync_exam1 E now" "told_now now" "\<lambda>S :: exams. dget (xs_shown S)" no_student
  "\<lambda>S :: exams. presence_ok (xs_presence S)" for E now
proof unfold_locales
  fix S :: exams and l l'
  assume ok: "presence_ok (xs_presence S)"
  show "presence_ok (xs_presence (resync_exam1 E now l S))" using ok by (rule resync_exam1_presence)
  show "\<not> no_student S l \<Longrightarrow> dget (xs_shown (resync_exam1 E now l S)) l = told_now now S l"
    by (auto simp: resync_exam1_def told_now_def no_student_def push_exam_def Let_def split: option.splits)
  show "no_student S l \<Longrightarrow> dget (xs_shown (resync_exam1 E now l S)) l = dget (xs_shown S) l"
    by (auto simp: resync_exam1_def no_student_def split: option.splits)
  assume other: "l' \<noteq> l"
  show "dget (xs_shown (resync_exam1 E now l S)) l' = dget (xs_shown S) l'"
    using other by (auto simp: resync_exam1_def push_exam_def Let_def split: option.splits)
  note ident = resync_exam1_identity [OF ok other, of E now]
  show "told_now now (resync_exam1 E now l S) l' = told_now now S l'"
    by (simp add: told_now_def ident for_login_same [OF resync_exam1_same] split: option.split)
  show "no_student (resync_exam1 E now l S) l' = no_student S l'"
    by (simp add: no_student_def ident)
qed

text \<open>After a resynchronisation, what the registry has told the pages of each login of the
  set is the exam that binds them now (its phase, its start, their end, their labs and its title),
  nothing when none does or they have no page open; a connected instructor and the logins outside
  of the set keep what they had.\<close>

theorem resync_exams_tells:
  assumes "presence_ok (xs_presence S)"
  shows "dget (xs_shown (resync_exams E now logins S)) who =
    (if who \<in> set logins \<and> \<not> no_student S who then told_now now S who else dget (xs_shown S) who)"
  using exam_sync.sync_all [OF assms, of "remdups logins" E now who] by (simp add: resync_exams_def)

text \<open>A page of a student and a registry with their two exams.\<close>

definition demo_student :: "string \<Rightarrow> identity" where
  "demo_student who = \<lparr>login = who, fullname = [], email = [], role_of = Student, language = ''en'',
     anonymous = False, view_of = StudentView, group = [], administrator = False\<rparr>"

definition demo_connected :: exams where
  "demo_connected = demo_exams\<lparr>xs_presence :=
     snd (presence_add (demo_student ''bob'') ''labs'' 7 1990 (xs_presence demo_exams))\<rparr>"

lemma demo_connected_simps:
  "presence_ok (xs_presence demo_connected)" "\<not> no_student demo_connected ''bob''"
  "told_now 2000 demo_connected ''bob'' = Some (told_of (demo_exam\<lparr>ex_id := 2, ex_start_after := Some 900\<rparr>, None, PHASE_STARTING))"
proof -
  have i: "identity_of (xs_presence demo_connected) ''bob'' = Some (demo_student ''bob'')"
    by (simp add: demo_connected_def demo_exams_def presence_add_def identity_of_def sockets_of_def demo_student_def Let_def)
  have f: "for_login demo_connected ''bob'' [] 2000 = for_login demo_exams ''bob'' [] 2000"
    by (simp add: demo_connected_def for_login_def exams_of_def listing_def)
  show "presence_ok (xs_presence demo_connected)"
    unfolding demo_connected_def demo_exams_def by (simp, rule presence_ok_add) (simp add: presence_ok_def)
  show "\<not> no_student demo_connected ''bob''"
    by (simp add: no_student_def i demo_student_def is_instructor_def)
  show "told_now 2000 demo_connected ''bob'' = Some (told_of (demo_exam\<lparr>ex_id := 2, ex_start_after := Some 900\<rparr>, None, PHASE_STARTING))"
    by (simp add: told_now_def i f demo_for_login demo_student_def)
qed

theorem resync_exams_tells_witness:
  "\<exists>t. dget (xs_shown (resync_exams \<lparr>en_send = (\<lambda>n. True), en_db = (\<lambda>n. True)\<rparr> 2000 [''bob''] demo_connected)) ''bob'' = Some t
     \<and> td_phase t = PHASE_STARTING \<and> td_id t = 2"
  using resync_exams_tells [OF demo_connected_simps(1), of _ 2000 "[''bob'']" "''bob''"] demo_connected_simps(2,3)
  by (simp add: told_of_def)

end
