(* ===== verification/Exam_Invariants.thy ===== *)
theory Exam_Invariants
  imports Exam_Operations Exam_Access
begin

text \<open>
  What every history of the registry of the exams keeps (\<open>src/sreweb/portal/exams.py\<close> over
  \<open>examstore.py\<close>): the shape of its tables, the write-through to the database, the clocks of the
  students. The lemmas follow the operations; the machine at the end ranges over all of them.
\<close>

section \<open>The shape of the registry\<close>

definition member_ok :: "string \<Rightarrow> member \<Rightarrow> bool" where
  "member_ok who m \<longleftrightarrow> mb_login m = who \<and> dict_ok (mb_projects m)"

definition exam_ok :: "int \<Rightarrow> exam \<Rightarrow> bool" where
  "exam_ok i e \<longleftrightarrow> ex_id e = i \<and> 0 < i \<and> dict_ok (ex_members e) \<and>
     (\<forall>who m. member_of e who = Some m \<longrightarrow> member_ok who m)"

definition rows_ok :: "exams \<Rightarrow> bool" where
  "rows_ok S \<longleftrightarrow> dict_ok (xs_db_exams S) \<and> dict_ok (xs_db_members S) \<and>
     (\<forall>i e. dget (xs_db_exams S) i = Some e \<longrightarrow> row_of_exam e = e \<and> exam_ok i e) \<and>
     (\<forall>i who m. dget (xs_db_members S) (i, who) = Some m \<longrightarrow> row_of_member m = m \<and> member_ok who m)"

definition exams_ok :: "exams \<Rightarrow> bool" where
  "exams_ok S \<longleftrightarrow> dict_ok (xs_items S) \<and> (\<forall>i e. get_exam S i = Some e \<longrightarrow> exam_ok i e) \<and>
     presence_ok (xs_presence S) \<and> rows_ok S \<and>
     0 < xs_next S \<and> (\<not> xs_store S \<longrightarrow> (\<forall>i \<in> set (keys_of (xs_items S)). i < xs_next S))"

text \<open>\<open>coherent_but P\<close>: outside of the keys of \<open>P\<close> and of the writes the database refused, a row is
  what the memory holds. A purged exam has no row any more; a record that was only created to look
  at it (\<open>dismiss\<close> of an exam that is not over) has none yet.\<close>

type_synonym key = "int \<times> string option"

definition pending :: "key set \<Rightarrow> exams \<Rightarrow> key \<Rightarrow> bool" where
  "pending P S k \<longleftrightarrow> k \<in> P \<or> k \<in> set (xs_dirty S)"

definition member_coherent :: "bool \<Rightarrow> string \<Rightarrow> member option \<Rightarrow> member option \<Rightarrow> bool" where
  "member_coherent late who mo row =
     (case mo of
        None \<Rightarrow> row = None
      | Some m \<Rightarrow> late \<or> row = Some (row_of_member m) \<or> m = new_member who \<and> row = None)"

definition coherent_at :: "key set \<Rightarrow> exams \<Rightarrow> int \<Rightarrow> exam \<Rightarrow> exam \<Rightarrow> bool" where
  "coherent_at P S i e r \<longleftrightarrow> (pending P S (i, None) \<or> r = row_of_exam e) \<and>
     (\<forall>who. member_coherent (pending P S (i, Some who)) who (member_of e who) (dget (xs_db_members S) (i, who)))"

definition coherent_but :: "key set \<Rightarrow> exams \<Rightarrow> bool" where
  "coherent_but P S \<longleftrightarrow> (xs_store S \<longrightarrow>
     (\<forall>i e r. get_exam S i = Some e \<longrightarrow> dget (xs_db_exams S) i = Some r \<longrightarrow> coherent_at P S i e r))"

abbreviation coherent :: "exams \<Rightarrow> bool" where
  "coherent S \<equiv> coherent_but {} S"

text \<open>The clocks that run and the records are never lost nor moved by what leads from a state to
  another.\<close>

definition clocks_kept :: "exams \<Rightarrow> exams \<Rightarrow> bool" where
  "clocks_kept S T \<longleftrightarrow> (\<forall>i e who m. get_exam S i = Some e \<longrightarrow> member_of e who = Some m \<longrightarrow>
     (\<exists>e' m'. get_exam T i = Some e' \<and> member_of e' who = Some m' \<and>
        (\<forall>t. mb_started m = Some t \<longrightarrow> mb_started m' = Some t)))"

lemma clocks_kept_refl [simp]: "clocks_kept S S"
  by (auto simp: clocks_kept_def)

lemma clocks_kept_trans:
  assumes st: "clocks_kept S T" and tu: "clocks_kept T U"
  shows "clocks_kept S U"
  unfolding clocks_kept_def
proof (intro allI impI)
  fix i e who m
  assume "get_exam S i = Some e" "member_of e who = Some m"
  with st obtain e1 m1 where 1: "get_exam T i = Some e1" "member_of e1 who = Some m1"
    "\<forall>t. mb_started m = Some t \<longrightarrow> mb_started m1 = Some t"
    unfolding clocks_kept_def by blast
  with tu obtain e2 m2 where "get_exam U i = Some e2" "member_of e2 who = Some m2"
    "\<forall>t. mb_started m1 = Some t \<longrightarrow> mb_started m2 = Some t"
    unfolding clocks_kept_def by blast
  with 1(3) show "\<exists>e' m'. get_exam U i = Some e' \<and> member_of e' who = Some m' \<and>
      (\<forall>t. mb_started m = Some t \<longrightarrow> mb_started m' = Some t)" by blast
qed

lemma clocks_kept_items: "xs_items T = xs_items S \<Longrightarrow> clocks_kept S T"
  by (auto simp: clocks_kept_def get_exam_def)

section \<open>Records\<close>

lemma row_of_exam_idem [simp]: "row_of_exam (row_of_exam e) = row_of_exam e"
proof -
  have "py_round (of_int n) = n" for n
    by (simp add: py_round_def Let_def)
  then show ?thesis
    by (cases "ex_duration e") (simp_all add: row_of_exam_def)
qed

lemma row_of_exam_members [simp]: "row_of_exam (e\<lparr>ex_members := ms\<rparr>) = row_of_exam e"
  by (simp add: row_of_exam_def)

lemma row_of_member_idem [simp]: "row_of_member (row_of_member m) = row_of_member m"
  by (simp add: row_of_member_def)

lemma exam_ok_row: "exam_ok i e \<Longrightarrow> exam_ok i (row_of_exam e)"
  by (simp add: exam_ok_def row_of_exam_def member_of_def)

lemma member_ok_row: "member_ok who m \<Longrightarrow> member_ok who (row_of_member m)"
  by (simp add: member_ok_def row_of_member_def)

lemma member_ok_new [simp]: "member_ok who (new_member who)"
  by (simp add: member_ok_def new_member_def)

lemma member_of_put_member [simp]:
  "member_of (put_member e who m) who' = (if who' = who then Some m else member_of e who')"
  by (simp add: member_of_def put_member_def)

lemma put_member_simps [simp]: "ex_id (put_member e who m) = ex_id e" "row_of_exam (put_member e who m) = row_of_exam e"
  by (simp_all add: put_member_def)

lemma exam_ok_put_member: "exam_ok i e \<Longrightarrow> member_ok who m \<Longrightarrow> exam_ok i (put_member e who m)"
  by (auto simp: exam_ok_def put_member_def member_of_def split: if_splits)

lemma member_create_cases:
  obtains (old) m where "member_of e who = Some m" "member_create e who = (m, e)"
  | (new) "member_of e who = None" "member_create e who = (new_member who, put_member e who (new_member who))"
  by (cases "member_of e who") (auto simp: member_create_def put_member_def member_of_def)

lemma exam_ok_create: "exam_ok i e \<Longrightarrow> exam_ok i (snd (member_create e who)) \<and> member_ok who (fst (member_create e who))"
  by (rule member_create_cases [of e who]) (auto intro!: exam_ok_put_member, simp add: exam_ok_def)

lemma get_put_exam [simp]: "get_exam (put_exam e S) i = (if i = ex_id e then Some e else get_exam S i)"
  by (simp add: put_exam_def get_exam_def)

lemma put_exam_frame [simp]:
  "xs_store (put_exam e S) = xs_store S" "xs_presence (put_exam e S) = xs_presence S" "xs_dirty (put_exam e S) = xs_dirty S"
  "xs_db_exams (put_exam e S) = xs_db_exams S" "xs_db_members (put_exam e S) = xs_db_members S"
  "xs_next (put_exam e S) = xs_next S" "xs_db_ops (put_exam e S) = xs_db_ops S" "xs_loaded (put_exam e S) = xs_loaded S"
  by (simp_all add: put_exam_def)

lemma set_keys_put_exam [simp]: "set (keys_of (xs_items (put_exam e S))) = insert (ex_id e) (set (keys_of (xs_items S)))"
  by (simp add: put_exam_def)

lemma exams_okD:
  assumes "exams_ok S"
  shows "get_exam S i = Some e \<Longrightarrow> exam_ok i e" "presence_ok (xs_presence S)" "rows_ok S" "dict_ok (xs_items S)"
  using assms by (simp_all add: exams_ok_def)

lemma exams_ok_put:
  assumes "exams_ok S" "exam_ok (ex_id e) e" "get_exam S (ex_id e) \<noteq> None"
  shows "exams_ok (put_exam e S)"
  using assms by (auto simp: exams_ok_def put_exam_def get_exam_def rows_ok_def keys_of_dget)

lemma member_coherent_mono: "member_coherent late who mo row \<Longrightarrow> (late \<Longrightarrow> late') \<Longrightarrow> member_coherent late' who mo row"
  by (auto simp: member_coherent_def split: option.splits)

lemma coherentD:
  "coherent_but P S \<Longrightarrow> xs_store S \<Longrightarrow> get_exam S i = Some e \<Longrightarrow> dget (xs_db_exams S) i = Some r \<Longrightarrow> coherent_at P S i e r"
  by (simp add: coherent_but_def)

lemma coherent_atD:
  assumes "coherent_at P S i e r"
  shows "pending P S (i, None) \<or> r = row_of_exam e"
    "member_coherent (pending P S (i, Some who)) who (member_of e who) (dget (xs_db_members S) (i, who))"
  using assms by (auto simp: coherent_at_def)

text \<open>What is late may be more, and what does not change stays coherent.\<close>

lemma coherent_at_mono:
  assumes "coherent_at P S i e r"
    and "row_of_exam e' = row_of_exam e \<and> (pending P S (i, None) \<longrightarrow> pending Q T (i, None)) \<or> pending Q T (i, None)"
    and "\<And>who. (member_of e' who = member_of e who \<and> dget (xs_db_members T) (i, who) = dget (xs_db_members S) (i, who)
         \<and> (pending P S (i, Some who) \<longrightarrow> pending Q T (i, Some who)))
       \<or> member_coherent (pending Q T (i, Some who)) who (member_of e' who) (dget (xs_db_members T) (i, who))"
  shows "coherent_at Q T i e' r"
  unfolding coherent_at_def
proof (intro conjI allI)
  show "pending Q T (i, None) \<or> r = row_of_exam e'"
    using coherent_atD(1) [OF assms(1)] assms(2) by auto
  fix who
  show "member_coherent (pending Q T (i, Some who)) who (member_of e' who) (dget (xs_db_members T) (i, who))"
    using coherent_atD(2) [OF assms(1), of who] assms(3) [of who] by (auto intro: member_coherent_mono)
qed

lemma coherent_at_subset: "coherent_at P S i e r \<Longrightarrow> P \<subseteq> Q \<Longrightarrow> coherent_at Q S i e r"
  by (erule coherent_at_mono) (auto simp: pending_def)

lemma coherent_but_put:
  assumes "coherent_but P S" "get_exam S i = Some e" "ex_id e' = i" "P \<subseteq> Q"
    and "row_of_exam e' = row_of_exam e \<or> (i, None) \<in> Q"
    and "\<And>who. member_of e' who = member_of e who \<or>
        member_of e' who \<noteq> None \<and> ((i, Some who) \<in> Q \<or> member_of e who = None \<and> member_of e' who = Some (new_member who))"
  shows "coherent_but Q (put_exam e' S)"
  unfolding coherent_but_def
proof (intro impI allI)
  fix j f r
  assume st: "xs_store (put_exam e' S)" and f: "get_exam (put_exam e' S) j = Some f"
    and r: "dget (xs_db_exams (put_exam e' S)) j = Some r"
  have pm: "pending P S k \<Longrightarrow> pending Q (put_exam e' S) k" for k
    using assms(4) by (auto simp: pending_def)
  show "coherent_at Q (put_exam e' S) j f r"
  proof (cases "j = i")
    case False
    with f assms(3) have "get_exam S j = Some f" by simp
    with st r have "coherent_at P S j f r" by (intro coherentD [OF assms(1)]) simp_all
    then show ?thesis by (rule coherent_at_mono) (simp_all add: pm)
  next
    case True
    with f assms(3) have f': "f = e'" by simp
    from st r True assms(2) have c: "coherent_at P S i e r" by (intro coherentD [OF assms(1)]) simp_all
    have "coherent_at Q (put_exam e' S) i e' r"
    proof (rule coherent_at_mono [OF c])
      show "row_of_exam e' = row_of_exam e \<and> (pending P S (i, None) \<longrightarrow> pending Q (put_exam e' S) (i, None)) \<or>
          pending Q (put_exam e' S) (i, None)"
        using assms(5) pm by (auto simp: pending_def)
      fix who
      show "(member_of e' who = member_of e who \<and> dget (xs_db_members (put_exam e' S)) (i, who) = dget (xs_db_members S) (i, who)
           \<and> (pending P S (i, Some who) \<longrightarrow> pending Q (put_exam e' S) (i, Some who)))
         \<or> member_coherent (pending Q (put_exam e' S) (i, Some who)) who (member_of e' who) (dget (xs_db_members (put_exam e' S)) (i, who))"
        using assms(6) [of who] pm coherent_atD(2) [OF c, of who]
        by (auto simp: member_coherent_def pending_def)
    qed
    with True f' show ?thesis by simp
  qed
qed

lemma clocks_kept_put:
  assumes "get_exam S (ex_id e') = Some e"
    and "\<And>who m. member_of e who = Some m \<Longrightarrow> \<exists>m'. member_of e' who = Some m' \<and>
        (\<forall>t. mb_started m = Some t \<longrightarrow> mb_started m' = Some t)"
  shows "clocks_kept S (put_exam e' S)"
  using assms unfolding clocks_kept_def by (metis get_put_exam option.inject)

section \<open>The database operations\<close>

lemma db_tried_frame [simp]:
  "xs_items (db_tried S) = xs_items S" "xs_store (db_tried S) = xs_store S" "xs_dirty (db_tried S) = xs_dirty S"
  "xs_db_exams (db_tried S) = xs_db_exams S" "xs_db_members (db_tried S) = xs_db_members S"
  "xs_presence (db_tried S) = xs_presence S" "xs_next (db_tried S) = xs_next S" "get_exam (db_tried S) i = get_exam S i"
  "xs_loaded (db_tried S) = xs_loaded S" "xs_ms (db_tried S) = xs_ms S" "xs_shown (db_tried S) = xs_shown S"
  by (simp_all add: db_tried_def get_exam_def)

lemma exams_ok_tried [simp]: "exams_ok (db_tried S) = exams_ok S"
  by (simp add: exams_ok_def rows_ok_def)

lemma pending_tried [simp]: "pending P (db_tried S) k = pending P S k"
  by (simp add: pending_def)

lemma coherent_tried [simp]: "coherent_but P (db_tried S) = coherent_but P S"
  by (simp add: coherent_but_def coherent_at_def)

lemma persist_exam_frame [simp]:
  "xs_items (persist_exam E i S) = xs_items S" "xs_store (persist_exam E i S) = xs_store S"
  "xs_presence (persist_exam E i S) = xs_presence S" "get_exam (persist_exam E i S) j = get_exam S j"
  "xs_next (persist_exam E i S) = xs_next S" "xs_db_members (persist_exam E i S) = xs_db_members S"
  "xs_ms (persist_exam E i S) = xs_ms S" "xs_shown (persist_exam E i S) = xs_shown S"
  by (auto simp: persist_exam_def get_exam_def split: option.splits)

lemma persist_member_frame [simp]:
  "xs_items (persist_member E i who S) = xs_items S" "xs_store (persist_member E i who S) = xs_store S"
  "xs_presence (persist_member E i who S) = xs_presence S" "get_exam (persist_member E i who S) j = get_exam S j"
  "xs_next (persist_member E i who S) = xs_next S" "xs_db_exams (persist_member E i who S) = xs_db_exams S"
  "xs_ms (persist_member E i who S) = xs_ms S" "xs_shown (persist_member E i who S) = xs_shown S"
  by (auto simp: persist_member_def get_exam_def split: option.splits)

lemma exams_ok_persist_exam: "exams_ok S \<Longrightarrow> exams_ok (persist_exam E i S)"
proof -
  assume ok: "exams_ok S"
  have "rows_ok (persist_exam E i S)"
    using ok exams_okD(1) [OF ok] unfolding rows_ok_def exams_ok_def persist_exam_def
    by (auto simp: get_exam_def exam_ok_row split: option.splits)
  with ok show ?thesis by (simp add: exams_ok_def)
qed

lemma exams_ok_persist_member: "exams_ok S \<Longrightarrow> exams_ok (persist_member E i who S)"
proof -
  assume ok: "exams_ok S"
  have "rows_ok (persist_member E i who S)"
    using ok exams_okD(1) [OF ok] unfolding rows_ok_def exams_ok_def persist_member_def
    by (auto simp: get_exam_def exam_ok_def member_ok_row split: option.splits)
  with ok show ?thesis by (simp add: exams_ok_def)
qed

text \<open>A write that is tried settles its key: the row is written, or the key is remembered.\<close>

lemma coherent_persist_exam:
  assumes "coherent_but P S" "exams_ok S"
  shows "coherent_but (P - {(i, None)}) (persist_exam E i S)" (is "coherent_but ?Q ?T")
  unfolding coherent_but_def
proof (intro impI allI)
  fix j f r
  assume st: "xs_store ?T" and f: "get_exam ?T j = Some f" and r: "dget (xs_db_exams ?T) j = Some r"
  then have fS: "get_exam S j = Some f" and jpos: "0 < j" and stS: "xs_store S"
    using exams_okD(1) [OF assms(2)] by (auto simp: exam_ok_def)
  obtain r0 where r0: "dget (xs_db_exams S) j = Some r0" "j \<noteq> i \<Longrightarrow> r0 = r"
    using r by (auto simp: persist_exam_def split: option.splits if_splits)
  have c: "coherent_at P S j f r0" by (rule coherentD [OF assms(1) stS fS r0(1)])
  have late: "pending P S k \<Longrightarrow> k \<noteq> (i, None) \<Longrightarrow> pending ?Q ?T k" for k
    by (auto simp: pending_def persist_exam_def split: option.splits)
  have "r = row_of_exam f \<or> pending ?Q ?T (j, None)" if "j = i"
    using that r fS r0 stS jpos by (auto simp: persist_exam_def get_exam_def pending_def split: if_splits)
  moreover have "r = row_of_exam f \<or> pending ?Q ?T (j, None)" if "j \<noteq> i"
    using that r0(2) late [of "(j, None)"] coherent_atD(1) [OF c] by auto
  moreover have "member_coherent (pending ?Q ?T (j, Some w)) w (member_of f w) (dget (xs_db_members ?T) (j, w))" for w
    using coherent_atD(2) [OF c, of w] late [of "(j, Some w)"] by (simp add: member_coherent_mono)
  ultimately show "coherent_at ?Q ?T j f r"
    by (auto simp: coherent_at_def)
qed

lemma coherent_persist_member:
  assumes "coherent_but P S" "exams_ok S"
  shows "coherent_but (P - {(i, Some who)}) (persist_member E i who S)" (is "coherent_but ?Q ?T")
  unfolding coherent_but_def
proof (intro impI allI)
  fix j f r
  assume st: "xs_store ?T" and f: "get_exam ?T j = Some f" and r: "dget (xs_db_exams ?T) j = Some r"
  then have fS: "get_exam S j = Some f" and jpos: "0 < j" and stS: "xs_store S" and rS: "dget (xs_db_exams S) j = Some r"
    using exams_okD(1) [OF assms(2)] by (auto simp: exam_ok_def)
  have c: "coherent_at P S j f r" by (rule coherentD [OF assms(1) stS fS rS])
  have late: "pending P S k \<Longrightarrow> k \<noteq> (i, Some who) \<Longrightarrow> pending ?Q ?T k" for k
    by (auto simp: pending_def persist_member_def split: option.splits)
  have other: "dget (xs_db_members ?T) (j, w) = dget (xs_db_members S) (j, w)" if "(j, w) \<noteq> (i, who)" for w
    using that by (auto simp: persist_member_def split: option.splits)
  have self: "member_coherent (pending ?Q ?T (j, Some w)) w (member_of f w) (dget (xs_db_members ?T) (j, w))"
    if "(j, w) = (i, who)" for w
    using that fS stS jpos coherent_atD(2) [OF c, of w]
    by (auto simp: persist_member_def get_exam_def member_coherent_def pending_def split: option.splits)
  show "coherent_at ?Q ?T j f r"
    using c
  proof (rule coherent_at_mono)
    show "row_of_exam f = row_of_exam f \<and> (pending P S (j, None) \<longrightarrow> pending ?Q ?T (j, None)) \<or> pending ?Q ?T (j, None)"
      using late by auto
    fix w
    show "(member_of f w = member_of f w \<and> dget (xs_db_members ?T) (j, w) = dget (xs_db_members S) (j, w)
         \<and> (pending P S (j, Some w) \<longrightarrow> pending ?Q ?T (j, Some w)))
       \<or> member_coherent (pending ?Q ?T (j, Some w)) w (member_of f w) (dget (xs_db_members ?T) (j, w))"
    proof (cases "(j, w) = (i, who)")
      case True
      then show ?thesis by (intro disjI2 self)
    next
      case False
      then show ?thesis using late [of "(j, Some w)"] other [OF False] by simp
    qed
  qed
qed

lemma coherent_mono: "coherent_but P S \<Longrightarrow> P \<subseteq> Q \<Longrightarrow> coherent_but Q S"
  unfolding coherent_but_def by (blast intro: coherent_at_subset)

section \<open>The operations\<close>

definition good :: "exams \<Rightarrow> bool" where
  "good S \<longleftrightarrow> exams_ok S \<and> coherent S"

definition safe :: "exams \<Rightarrow> exams \<Rightarrow> bool" where
  "safe S T \<longleftrightarrow> (good S \<longrightarrow> good T \<and> clocks_kept S T)"

lemma safe_refl [simp, intro]: "safe S S"
  by (simp add: safe_def)

lemma safe_trans: "safe S T \<Longrightarrow> safe T U \<Longrightarrow> safe S U"
  by (auto simp: safe_def intro: clocks_kept_trans)

lemma safe_fold: "(\<And>x S. safe S (f x S)) \<Longrightarrow> safe S (fold f xs S)"
  by (induction xs arbitrary: S) (auto intro: safe_trans)

lemma exams_ok_resync: "exams_ok S \<Longrightarrow> exams_ok (resync_exams E now ls S)"
  by (simp add: exams_ok_def rows_ok_def resync_exams_presence get_exam_def)

lemma coherent_resync: "coherent_but P S \<Longrightarrow> coherent_but P (resync_exams E now ls S)"
  by (simp add: coherent_but_def coherent_at_def pending_def get_exam_def)

lemma safe_resync: "safe S T \<Longrightarrow> safe S (resync_exams E now ls T)"
  by (rule safe_trans [of S T])
    (auto simp: safe_def good_def exams_ok_resync coherent_resync intro: clocks_kept_items)

text \<open>An exam looked at, or changed and written.\<close>

lemma safe_put:
  assumes "get_exam S i = Some e" "exam_ok i e \<Longrightarrow> exam_ok i e'" "row_of_exam e' = row_of_exam e"
    and "\<And>w. member_of e' w = member_of e w \<or> member_of e w = None \<and> member_of e' w = Some (new_member w)"
  shows "safe S (put_exam e' S)"
  unfolding safe_def good_def
proof (intro impI, elim conjE)
  assume ok: "exams_ok S" and c: "coherent S"
  have i: "exam_ok i e'" using assms(1,2) ok exams_okD(1) by blast
  then have id: "ex_id e' = i" by (simp add: exam_ok_def)
  have "coherent (put_exam e' S)"
    using c assms(1) id by (rule coherent_but_put) (use assms(3,4) in auto)
  moreover have "exams_ok (put_exam e' S)"
    using ok i id assms(1) by (intro exams_ok_put) auto
  moreover have "clocks_kept S (put_exam e' S)"
    using assms(1) id by (intro clocks_kept_put [where e = e]) (use assms(4) in \<open>auto, metis option.distinct(1)\<close>)
  ultimately show "(exams_ok (put_exam e' S) \<and> coherent (put_exam e' S)) \<and> clocks_kept S (put_exam e' S)" by simp
qed

lemma safe_exam:
  assumes "get_exam S i = Some e" "exam_ok i e \<Longrightarrow> exam_ok i e'" "\<And>w. member_of e' w = member_of e w"
  shows "safe S (persist_exam E i (put_exam e' S))"
  unfolding safe_def good_def
proof (intro impI, elim conjE)
  assume ok: "exams_ok S" and c: "coherent S"
  have i: "exam_ok i e'" using assms(1,2) ok exams_okD(1) by blast
  then have id: "ex_id e' = i" by (simp add: exam_ok_def)
  have ok': "exams_ok (put_exam e' S)" using ok i id assms(1) by (intro exams_ok_put) auto
  have "coherent_but {(i, None)} (put_exam e' S)"
    using c assms(1) id by (rule coherent_but_put) (use assms(3) in auto)
  from coherent_persist_exam [OF this ok', of i E]
  have "coherent (persist_exam E i (put_exam e' S))" by simp
  moreover have "clocks_kept S (put_exam e' S)"
    using assms(1) id by (intro clocks_kept_put [where e = e]) (use assms(3) in auto)
  then have "clocks_kept S (persist_exam E i (put_exam e' S))"
    by (rule clocks_kept_trans) (simp add: clocks_kept_items)
  ultimately show "(exams_ok (persist_exam E i (put_exam e' S)) \<and> coherent (persist_exam E i (put_exam e' S))) \<and>
      clocks_kept S (persist_exam E i (put_exam e' S))"
    by (simp add: exams_ok_persist_exam ok')
qed

lemma created_frame [simp]:
  "member_of (snd (member_create e who)) w = (if w = who then Some (fst (member_create e who)) else member_of e w)"
  "row_of_exam (snd (member_create e who)) = row_of_exam e"
  by (rule member_create_cases [of e who]; simp)+

lemma created_ok:
  "exam_ok i e \<Longrightarrow> member_ok who m \<Longrightarrow> exam_ok i (put_member (snd (member_create e who)) who m)"
  using exam_ok_create exam_ok_put_member by blast

lemma safe_member:
  assumes "get_exam S i = Some e" "exam_ok i e \<Longrightarrow> member_ok who m"
    and "\<And>m0 t. member_of e who = Some m0 \<Longrightarrow> mb_started m0 = Some t \<Longrightarrow> mb_started m = Some t"
  shows "safe S (persist_member E i who (put_exam (put_member (snd (member_create e who)) who m) S))"
    (is "safe S (persist_member E i who (put_exam ?e S))")
  unfolding safe_def good_def
proof (intro impI, elim conjE)
  assume ok: "exams_ok S" and c: "coherent S"
  from assms(1) ok have ie: "exam_ok i e" by (rule exams_okD(1) [rotated])
  then have i: "exam_ok i ?e" using assms(2) by (intro created_ok) auto
  then have id: "ex_id ?e = i" by (simp add: exam_ok_def)
  have ok': "exams_ok (put_exam ?e S)" using ok i id assms(1) by (intro exams_ok_put) auto
  have "coherent_but {(i, Some who)} (put_exam ?e S)"
    using c assms(1) id by (rule coherent_but_put) auto
  from coherent_persist_member [OF this ok', of i who E]
  have "coherent (persist_member E i who (put_exam ?e S))" by simp
  moreover have "clocks_kept S (put_exam ?e S)"
    using assms(1) id by (intro clocks_kept_put [where e = e]) (use assms(3) in auto)
  then have "clocks_kept S (persist_member E i who (put_exam ?e S))"
    by (rule clocks_kept_trans) (simp add: clocks_kept_items)
  ultimately show "(exams_ok (persist_member E i who (put_exam ?e S)) \<and> coherent (persist_member E i who (put_exam ?e S))) \<and>
      clocks_kept S (persist_member E i who (put_exam ?e S))"
    by (simp add: exams_ok_persist_member ok')
qed

lemma safe_change_member:
  assumes "\<And>e m. exam_ok i e \<Longrightarrow> member_ok who m \<Longrightarrow> member_ok who (f e m)"
    and "\<And>e m. mb_started (f e m) = mb_started m"
  shows "safe S (change_member E i f who S)"
proof (cases "get_exam S i")
  case None
  then show ?thesis by (simp add: change_member_def)
next
  case (Some e)
  obtain m e1 where mc: "member_create e who = (m, e1)" by fastforce
  have ok1: "exam_ok i e \<Longrightarrow> exam_ok i e1 \<and> member_ok who m" using exam_ok_create [of i e who] mc by simp
  have old: "member_of e who = Some m0 \<Longrightarrow> m0 = m" for m0
    using mc by (rule_tac member_create_cases [of e who]) auto
  have "safe S (persist_member E i who (put_exam (put_member (snd (member_create e who)) who (f e1 m)) S))"
    using Some by (rule safe_member) (use ok1 old assms in auto)
  then show ?thesis using Some mc by (simp add: change_member_def)
qed

lemma safe_change_members:
  assumes "\<And>e m who. exam_ok i e \<Longrightarrow> member_ok who m \<Longrightarrow> member_ok who (f e m)"
    and "\<And>e m. mb_started (f e m) = mb_started m"
  shows "safe S (change_members E i f ls S)"
  unfolding change_members_def by (rule safe_fold, rule safe_change_member) (use assms in auto)

lemma require_exam_Inr: "require_exam S i = Inr e \<Longrightarrow> get_exam S i = Some e"
  by (auto simp: require_exam_def split: option.splits)

lemma safe_update: "safe S (snd (update_exam E i sp resume now later S))"
proof (cases "require_exam S i")
  case (Inr e)
  from require_exam_Inr [OF Inr] have "safe S (persist_exam E i (put_exam (edited sp resume (at_ms now) e) S))"
    by (intro safe_exam [where e = e]) (auto simp: exam_ok_def edited_def member_of_def)
  with Inr show ?thesis by (simp add: update_exam_def Let_def safe_resync)
qed (simp add: update_exam_def)

lemma safe_end_now: "safe S (snd (end_now E i logins now later S))"
proof (cases "require_exam S i")
  case (Inr e)
  show ?thesis
  proof (cases logins)
    case None
    from require_exam_Inr [OF Inr] have "safe S (persist_exam E i (put_exam (e\<lparr>ex_ended := Some (at_ms now), ex_updated_at := at_ms now\<rparr>) S))"
      by (intro safe_exam [where e = e]) (auto simp: exam_ok_def member_of_def)
    with Inr None show ?thesis by (simp add: end_now_def Let_def safe_resync)
  next
    case (Some ls)
    have "safe S (change_members E i (\<lambda>e m. m\<lparr>mb_ended := Some (at_ms now)\<rparr>) ls S)"
      by (rule safe_change_members) (auto simp: member_ok_def)
    with Inr Some show ?thesis by (simp add: end_now_def safe_resync)
  qed
qed (simp add: end_now_def)

lemma safe_adjust: "safe S (snd (adjust E i logins extra now later S))"
proof (cases "require_exam S i")
  case (Inr e)
  show ?thesis
  proof (cases logins)
    case None
    from require_exam_Inr [OF Inr] have "safe S (persist_exam E i (put_exam
        (e\<lparr>ex_duration := map_option (\<lambda>d. max 60 (d + of_int (extra * 60))) (ex_duration e),
           ex_end_before := map_option (\<lambda>x. x + of_int (extra * 60)) (ex_end_before e),
           ex_ended := None, ex_updated_at := at_ms now\<rparr>) S))"
      by (intro safe_exam [where e = e]) (auto simp: exam_ok_def member_of_def)
    with Inr None show ?thesis by (simp add: adjust_def Let_def safe_resync)
  next
    case (Some ls)
    have "safe S (change_members E i (\<lambda>e m. m\<lparr>mb_extra := mb_extra m + extra, mb_ended := None\<rparr>) ls S)"
      by (rule safe_change_members) (auto simp: member_ok_def)
    with Inr Some show ?thesis by (simp add: adjust_def safe_resync)
  qed
qed (simp add: adjust_def)

lemma orphan1_frame [simp]: "mb_login (orphan1 m lab) = mb_login m" "mb_started (orphan1 m lab) = mb_started m"
  "dict_ok (mb_projects m) \<Longrightarrow> dict_ok (mb_projects (orphan1 m lab))" "mb_labs (orphan1 m lab) = mb_labs m"
  by (auto simp: orphan1_def split: option.splits)

lemma orphans_frame:
  "mb_login (foldl orphan1 m labs) = mb_login m \<and> mb_started (foldl orphan1 m labs) = mb_started m \<and>
   (dict_ok (mb_projects m) \<longrightarrow> dict_ok (mb_projects (foldl orphan1 m labs))) \<and> mb_labs (foldl orphan1 m labs) = mb_labs m"
  by (induction labs arbitrary: m) simp_all

lemma with_labs_frame [simp]:
  "mb_started (with_labs ls e m) = mb_started m" "member_ok who m \<Longrightarrow> member_ok who (with_labs ls e m)"
  using orphans_frame by (auto simp: with_labs_def orphan_projects_def member_ok_def)

lemma persist_members_settle:
  assumes "coherent_but P S" "exams_ok S"
  shows "coherent_but (P - {(i, Some w) |w. w \<in> set ws}) (persist_members E i ws S) \<and>
    exams_ok (persist_members E i ws S) \<and> xs_items (persist_members E i ws S) = xs_items S"
  using assms
proof (induction ws arbitrary: P S)
  case Nil
  then show ?case by simp
next
  case (Cons w ws)
  have *: "P - {(i, Some w)} - {(i, Some v) |v. v \<in> set ws} = P - {(i, Some v) |v. v \<in> set (w # ws)}"
    by auto
  from Cons.IH [OF coherent_persist_member [OF Cons.prems, of i w E] exams_ok_persist_member [OF Cons.prems(2)]]
  show ?case unfolding * by simp
qed

lemma safe_set_labs_all:
  assumes "get_exam S i = Some e"
    and "\<And>w. member_of e1 w = map_option g (member_of e w)" "ex_id e1 = ex_id e" "dict_ok (ex_members e) \<Longrightarrow> dict_ok (ex_members e1)"
    and g: "\<And>m. mb_started (g m) = mb_started m" "\<And>w m. member_ok w m \<Longrightarrow> member_ok w (g m)"
  shows "safe S (persist_members E i (keys_of (ex_members e1)) (persist_exam E i (put_exam e1 S)))"
  unfolding safe_def good_def
proof (intro impI, elim conjE)
  assume ok: "exams_ok S" and c: "coherent S"
  have ie: "exam_ok i e" using ok assms(1) by (rule exams_okD(1))
  then have i1: "exam_ok i e1" using assms by (auto simp: exam_ok_def)
  then have id: "ex_id e1 = i" by (simp add: exam_ok_def)
  let ?Q = "insert (i, None) {(i, Some w) |w. w \<in> set (keys_of (ex_members e1))}"
  have keys: "member_of e w \<noteq> None \<Longrightarrow> w \<in> set (keys_of (ex_members e1))" for w
    using assms(2) [of w] by (auto simp: keys_of_dget member_of_def [symmetric])
  have "coherent_but ?Q (put_exam e1 S)"
    using c assms(1) id
  proof (rule coherent_but_put)
    fix w
    show "member_of e1 w = member_of e w \<or>
        member_of e1 w \<noteq> None \<and> ((i, Some w) \<in> ?Q \<or> member_of e w = None \<and> member_of e1 w = Some (new_member w))"
      using keys [of w] assms(2) [of w] by (cases "member_of e w") auto
  qed auto
  moreover have ok1: "exams_ok (put_exam e1 S)" using ok i1 id assms(1) by (intro exams_ok_put) auto
  ultimately have "coherent_but (?Q - {(i, None)}) (persist_exam E i (put_exam e1 S))"
    by (rule coherent_persist_exam)
  from persist_members_settle [OF this exams_ok_persist_exam [OF ok1], of i "keys_of (ex_members e1)" E]
  have "coherent_but {} (persist_members E i (keys_of (ex_members e1)) (persist_exam E i (put_exam e1 S))) \<and>
      exams_ok (persist_members E i (keys_of (ex_members e1)) (persist_exam E i (put_exam e1 S))) \<and>
      xs_items (persist_members E i (keys_of (ex_members e1)) (persist_exam E i (put_exam e1 S))) = xs_items (put_exam e1 S)"
    by (elim conjE, intro conjI) (erule coherent_mono, auto)
  moreover have "clocks_kept S (put_exam e1 S)"
    using assms(1) id by (intro clocks_kept_put [where e = e]) (auto simp: assms(2) g)
  ultimately show "(exams_ok (persist_members E i (keys_of (ex_members e1)) (persist_exam E i (put_exam e1 S))) \<and>
      coherent (persist_members E i (keys_of (ex_members e1)) (persist_exam E i (put_exam e1 S)))) \<and>
      clocks_kept S (persist_members E i (keys_of (ex_members e1)) (persist_exam E i (put_exam e1 S)))"
    using clocks_kept_trans clocks_kept_items by metis
qed

lemma safe_set_labs: "safe S (snd (set_labs E i logins labs now later S))"
proof (cases "require_exam S i")
  case (Inr e)
  show ?thesis
  proof (cases logins)
    case None
    let ?e0 = "e\<lparr>ex_labs := labs, ex_updated_at := at_ms now\<rparr>"
    let ?e1 = "?e0\<lparr>ex_members := map (\<lambda>(who, m). (who, with_labs None ?e0 m)) (ex_members ?e0)\<rparr>"
    have "safe S (persist_members E i (keys_of (ex_members ?e1)) (persist_exam E i (put_exam ?e1 S)))"
      using require_exam_Inr [OF Inr]
      by (rule safe_set_labs_all [where g = "with_labs None ?e0"])
        (simp_all add: member_of_def map_of_map dict_ok_def comp_def case_prod_beta)
    with Inr None show ?thesis by (simp add: set_labs_def Let_def safe_resync)
  next
    case (Some ls)
    have "safe S (change_members E i (with_labs (Some labs)) ls S)"
      by (rule safe_change_members) auto
    with Inr Some show ?thesis by (simp add: set_labs_def safe_resync)
  qed
qed (simp add: set_labs_def)

section \<open>The students\<close>

lemma safe_created:
  assumes "get_exam S i = Some e"
  shows "safe S (put_exam (snd (member_create e who)) S)"
proof (rule safe_put [OF assms])
  show "exam_ok i e \<Longrightarrow> exam_ok i (snd (member_create e who))"
    using exam_ok_create by blast
  show "member_of (snd (member_create e who)) w = member_of e w \<or>
      member_of e w = None \<and> member_of (snd (member_create e who)) w = Some (new_member w)" for w
    by (rule member_create_cases [of e who]) auto
qed simp

lemma safe_created_member:
  assumes "get_exam S i = Some e" "member_create e who = (m, e1)"
    and "member_ok who m \<Longrightarrow> member_ok who m'" "\<And>t. mb_started m = Some t \<Longrightarrow> mb_started m' = Some t"
  shows "safe S (persist_member E i who (put_exam (put_member e1 who m') S))"
proof -
  have "exam_ok i e \<Longrightarrow> member_ok who m" using exam_ok_create [of i e who] assms(2) by simp
  moreover have "member_of e who = Some m0 \<Longrightarrow> m0 = m" for m0
    using assms(2) by (rule_tac member_create_cases [of e who]) auto
  ultimately have "safe S (persist_member E i who (put_exam (put_member (snd (member_create e who)) who m') S))"
    using assms(3,4) by (intro safe_member [OF assms(1)]) auto
  then show ?thesis using assms(2) by simp
qed

lemma put_exam_twice: "ex_id e = ex_id e' \<Longrightarrow> put_exam e (put_exam e' S) = put_exam e S"
  by (simp add: put_exam_def update_Some_unfold)

lemma safe_dismiss: "safe S (snd (dismiss E i who now later S))"
proof (cases "require_exam S i")
  case (Inr e)
  note g = require_exam_Inr [OF Inr]
  obtain m e1 where mc: "member_create e who = (m, e1)" by fastforce
  have "safe S (put_exam e1 S)" using safe_created [OF g, of who] mc by simp
  moreover have "safe S (persist_member E i who (put_exam (put_member e1 who (m\<lparr>mb_dismissed := Some (at_ms now)\<rparr>)) S))"
    using g mc by (rule safe_created_member) (auto simp: member_ok_def)
  ultimately show ?thesis
    using Inr mc by (simp add: dismiss_def Let_def safe_resync put_exam_twice)
qed (simp add: dismiss_def)

lemma seen_at_frame [simp]: "mb_login (seen_at now a m) = mb_login m" "mb_started (seen_at now a m) = mb_started m"
  "mb_projects (seen_at now a m) = mb_projects m" "mb_labs (seen_at now a m) = mb_labs m"
  by (simp_all add: seen_at_def Let_def)

lemma safe_note_seen: "safe S (note_seen E i who address now S)"
proof (cases "get_exam S i")
  case None
  then show ?thesis by (simp add: note_seen_def)
next
  case (Some e)
  obtain m e1 where mc: "member_create e who = (m, e1)" by fastforce
  have "safe S (put_exam e1 S)" using safe_created [OF Some, of who] mc by simp
  moreover have "safe S (persist_member E i who (put_exam (put_member e1 who (seen_at (at_ms now) address m)) S))"
    using Some mc by (rule safe_created_member) (auto simp: member_ok_def)
  ultimately show ?thesis using Some mc by (simp add: note_seen_def Let_def)
qed

lemma observe_row_frame:
  "mb_login (fst (observe_row labs who mc r)) = mb_login (fst mc) \<and> mb_started (fst (observe_row labs who mc r)) = mb_started (fst mc) \<and>
   mb_labs (fst (observe_row labs who mc r)) = mb_labs (fst mc) \<and>
   (dict_ok (mb_projects (fst mc)) \<longrightarrow> dict_ok (mb_projects (fst (observe_row labs who mc r)))) \<and>
   (\<not> snd (observe_row labs who mc r) \<longrightarrow> observe_row labs who mc r = mc)"
  by (auto simp: observe_row_def record_project_def Let_def split: option.splits)

lemma observe_rows_frame:
  "mb_login (fst (foldl (observe_row labs who) mc rows)) = mb_login (fst mc) \<and>
   mb_started (fst (foldl (observe_row labs who) mc rows)) = mb_started (fst mc) \<and>
   mb_labs (fst (foldl (observe_row labs who) mc rows)) = mb_labs (fst mc) \<and>
   (dict_ok (mb_projects (fst mc)) \<longrightarrow> dict_ok (mb_projects (fst (foldl (observe_row labs who) mc rows)))) \<and>
   (\<not> snd (foldl (observe_row labs who) mc rows) \<longrightarrow> foldl (observe_row labs who) mc rows = mc)"
proof (induction rows arbitrary: mc)
  case Nil
  then show ?case by simp
next
  case (Cons r rows)
  from Cons [of "observe_row labs who mc r"] observe_row_frame [of labs who mc r] show ?case by auto
qed

lemma observed_frame:
  assumes "observed e who rows now address m = (m1, changed)"
  shows "member_ok who m \<Longrightarrow> member_ok who m1" "mb_started m = Some t \<Longrightarrow> mb_started m1 = Some t"
    "\<not> changed \<Longrightarrow> m1 = m"
proof -
  let ?m0 = "seen_at now address m"
  obtain m2 c2 where f: "foldl (observe_row (lab_names e (Some who)) who) (?m0, ?m0 \<noteq> m) rows = (m2, c2)" by fastforce
  note fr = observe_rows_frame [of "lab_names e (Some who)" who "(?m0, ?m0 \<noteq> m)" rows, unfolded f, simplified]
  have o: "(m1, changed) = (if may_start (put_member e who m2) (Some m2) now then (m2\<lparr>mb_started := Some now\<rparr>, True) else (m2, c2))"
    using assms f by (simp add: observed_def Let_def)
  show "member_ok who m \<Longrightarrow> member_ok who m1"
    using o fr by (auto simp: member_ok_def split: if_splits)
  show "mb_started m = Some t \<Longrightarrow> mb_started m1 = Some t"
    using o fr by (auto simp: may_start_def split: if_splits)
  show "\<not> changed \<Longrightarrow> m1 = m"
    using o fr by (auto split: if_splits)
qed

lemma safe_observe: "safe S (snd (observe E i who rows now address later S))"
proof (cases "get_exam S i")
  case None
  then show ?thesis by (simp add: observe_def)
next
  case (Some e)
  obtain m e1 where mc: "member_create e who = (m, e1)" by fastforce
  obtain m1 c where oc: "observed e1 who rows (at_ms now) address m = (m1, c)" by fastforce
  show ?thesis
  proof (cases c)
    case True
    have "safe S (persist_member E i who (put_exam (put_member e1 who m1) S))"
      using Some mc observed_frame(1,2) [OF oc] by (rule safe_created_member)
    with True Some mc oc show ?thesis by (simp add: observe_def safe_resync)
  next
    case False
    have "safe S (put_exam (put_member e1 who m1) S)"
      using Some
    proof (rule safe_put)
      show "exam_ok i e \<Longrightarrow> exam_ok i (put_member e1 who m1)"
        using created_ok [of i e who m1] exam_ok_create [of i e who] mc observed_frame(3) [OF oc False] by simp
      show "row_of_exam (put_member e1 who m1) = row_of_exam e"
        using created_frame(2) [of e who] mc by simp
      show "member_of (put_member e1 who m1) w = member_of e w \<or>
          member_of e w = None \<and> member_of (put_member e1 who m1) w = Some (new_member w)" for w
        using mc observed_frame(3) [OF oc False] by (rule_tac member_create_cases [of e who]) auto
    qed
    with False Some mc oc show ?thesis by (simp add: observe_def)
  qed
qed

section \<open>The tick\<close>

lemma safe_tick_member:
  assumes "\<And>e. get_exam S i = Some e \<Longrightarrow> ex_start_after e \<noteq> None"
  shows "safe S (tick_member E i now who S)"
proof (cases "get_exam S i")
  case None
  then show ?thesis by (simp add: tick_member_def)
next
  case (Some e)
  show ?thesis
  proof (cases "member_of e who")
    case None
    with Some show ?thesis by (simp add: tick_member_def)
  next
    case (Some m)
    have mc: "member_create e who = (m, e)" using Some by (simp add: member_create_def member_of_def)
    have "may_start e (Some m) now \<Longrightarrow> safe S
        (persist_member E i who (put_exam (put_member e who (m\<lparr>mb_started := ex_start_after e\<rparr>)) S))"
      using \<open>get_exam S i = Some e\<close> mc by (rule safe_created_member) (auto simp: member_ok_def may_start_def)
    with Some \<open>get_exam S i = Some e\<close> show ?thesis by (simp add: tick_member_def)
  qed
qed

lemma tick_member_start_after:
  "get_exam (tick_member E i now who S) i = Some e' \<Longrightarrow>
     (\<exists>e. get_exam S i = Some e \<and> ex_start_after e' = ex_start_after e)"
  by (auto simp: tick_member_def put_member_def split: option.splits if_splits)

lemma safe_tick_members:
  assumes "\<And>e. get_exam S i = Some e \<Longrightarrow> ex_start_after e \<noteq> None"
  shows "safe S (fold (tick_member E i now) whos S)"
  using assms
proof (induction whos arbitrary: S)
  case (Cons who whos)
  have "safe (tick_member E i now who S) (fold (tick_member E i now) whos (tick_member E i now who S))"
    using Cons.prems by (intro Cons.IH) (auto dest!: tick_member_start_after)
  moreover have "safe S (tick_member E i now who S)" using Cons.prems by (rule safe_tick_member)
  ultimately show ?case by (auto intro: safe_trans)
qed simp

lemma safe_tick_exam: "safe S (tick_exam E now i S)"
  by (auto simp: tick_exam_def intro!: safe_tick_members split: option.splits)

lemma safe_frame:
  assumes "xs_items T = xs_items S" "xs_presence T = xs_presence S" "xs_db_exams T = xs_db_exams S"
    "xs_db_members T = xs_db_members S" "xs_dirty T = xs_dirty S" "xs_store T = xs_store S" "xs_next T = xs_next S"
  shows "safe S T"
  using assms by (auto simp: safe_def good_def exams_ok_def rows_ok_def coherent_but_def coherent_at_def pending_def
      get_exam_def clocks_kept_items)

text \<open>A key is forgotten only when there is nothing left to write under it.\<close>

lemma safe_forget:
  assumes "\<And>e. get_exam S (fst k) = Some e \<Longrightarrow> \<exists>who. snd k = Some who \<and> member_of e who = None"
  shows "safe S (S\<lparr>xs_dirty := removeAll k (xs_dirty S)\<rparr>)" (is "safe S ?T")
  unfolding safe_def good_def
proof (intro impI, elim conjE)
  assume ok: "exams_ok S" and c: "coherent S"
  have "coherent ?T"
    unfolding coherent_but_def
  proof (intro impI allI)
    fix i e r
    assume "xs_store ?T" "get_exam ?T i = Some e" "dget (xs_db_exams ?T) i = Some r"
    then have e: "get_exam S i = Some e" and at: "coherent_at {} S i e r"
      using coherentD [OF c] by (simp_all add: get_exam_def)
    have none: "k \<noteq> (i, None)" using e assms by auto
    have some: "k = (i, Some who) \<Longrightarrow> member_of e who = None" for who using e assms by auto
    from at show "coherent_at {} ?T i e r"
    proof (rule coherent_at_mono)
      show "row_of_exam e = row_of_exam e \<and> (pending {} S (i, None) \<longrightarrow> pending {} ?T (i, None)) \<or> pending {} ?T (i, None)"
        using none by (auto simp: pending_def)
      show "(member_of e who = member_of e who \<and> dget (xs_db_members ?T) (i, who) = dget (xs_db_members S) (i, who) \<and>
           (pending {} S (i, Some who) \<longrightarrow> pending {} ?T (i, Some who))) \<or>
         member_coherent (pending {} ?T (i, Some who)) who (member_of e who) (dget (xs_db_members ?T) (i, who))" for who
        using some [of who] coherent_atD(2) [OF at, of who] by (auto simp: pending_def member_coherent_def)
    qed
  qed
  moreover have "exams_ok ?T" using ok by (simp add: exams_ok_def rows_ok_def get_exam_def)
  moreover have "clocks_kept S ?T" by (rule clocks_kept_items) simp
  ultimately show "(exams_ok ?T \<and> coherent ?T) \<and> clocks_kept S ?T" by simp
qed

lemma safe_persist_exam: "safe S (persist_exam E i S)"
  using coherent_persist_exam [of "{}" S i E]
  by (auto simp: safe_def good_def exams_ok_persist_exam clocks_kept_items)

lemma safe_persist_member: "safe S (persist_member E i who S)"
  using coherent_persist_member [of "{}" S i who E]
  by (auto simp: safe_def good_def exams_ok_persist_member clocks_kept_items)

lemma safe_retry_loop: "safe S (retry_loop E ds S)"
proof (induction E ds S rule: retry_loop.induct)
  case (1 E S)
  then show ?case by simp
next
  case (2 E i who ds S)
  let ?forget = "S\<lparr>xs_dirty := removeAll (i, who) (xs_dirty S)\<rparr>"
  show ?case
  proof (cases "dget (xs_items S) i")
    case None
    then have "safe S ?forget" by (intro safe_forget) (auto simp: get_exam_def)
    with None 2(1) [OF None] show ?thesis by (auto intro: safe_trans)
  next
    case (Some e)
    let ?S1 = "case who of None \<Rightarrow> persist_exam E i S
      | Some l \<Rightarrow> if member_of e l \<noteq> None then persist_member E i l S else ?forget"
    have "safe S ?S1"
      using Some by (auto simp: safe_persist_exam safe_persist_member get_exam_def split: option.splits intro!: safe_forget)
    with Some 2(2) [OF Some refl] show ?thesis by (auto simp: Let_def intro: safe_trans)
  qed
qed

lemma safe_retry_dirty: "safe S (retry_dirty E S)"
  by (simp add: retry_dirty_def safe_retry_loop)

section \<open>Loading and purging\<close>

definition exam_from_rows :: "exams \<Rightarrow> int \<Rightarrow> exam \<Rightarrow> exam" where
  "exam_from_rows S i r = r\<lparr>ex_members := map (\<lambda>((j, who), m). (who, m))
     (sort_key (\<lambda>((j, who), m). who) (filter (\<lambda>((j, who), m). j = i) (xs_db_members S)))\<rparr>"

lemma load_all_rows: "load_all S = map (\<lambda>(i, r). exam_from_rows S i r) (sort_key fst (xs_db_exams S))"
  by (simp add: load_all_def exam_from_rows_def)

lemma dget_rows_of:
  assumes "dict_ok d"
  shows "dget (map (\<lambda>((j, who), m). (who, m)) (sort_key (\<lambda>((j, who), m). who) (filter (\<lambda>((j, who), m). j = i) d))) w = dget d (i, w)"
    and "dict_ok (map (\<lambda>((j, who), m). (who, m)) (sort_key (\<lambda>((j, who), m). who) (filter (\<lambda>((j, who), m). j = i) d)))"
proof -
  let ?f = "filter (\<lambda>((j, who), m). j = i) d" and ?g = "\<lambda>((j, who), m). (who, m)"
  let ?s = "sort_key (\<lambda>((j, who), m). who) ?f"
  have "inj_on (\<lambda>x. snd (fst x)) (set ?f)"
    using assms by (fastforce simp: inj_on_def dict_ok_def distinct_map)
  moreover have "distinct ?f" using assms by (auto simp: dict_ok_def distinct_map)
  ultimately have "distinct (map (\<lambda>x. snd (fst x)) ?s)"
    unfolding distinct_map by simp
  moreover have "map fst (map ?g ?s) = map (\<lambda>x. snd (fst x)) ?s" by (auto simp: case_prod_beta)
  ultimately show ok: "dict_ok (map ?g ?s)"
    unfolding dict_ok_def by (simp only:)
  show "dget (map ?g ?s) w = dget d (i, w)"
  proof (cases "dget d (i, w)")
    case None
    then have "(w, m) \<notin> set (map ?g ?s)" for m
      using assms by (auto dest: dget_of_in)
    then show ?thesis using None by (metis map_of_SomeD not_Some_eq)
  next
    case (Some m)
    then have "((i, w), m) \<in> set ?f" by (auto dest: map_of_SomeD)
    then have "(w, m) \<in> set (map ?g ?s)" by force
    with ok Some show ?thesis by (simp add: dget_of_in)
  qed
qed

lemma exam_from_rows_simps:
  assumes "rows_ok S"
  shows "member_of (exam_from_rows S i r) who = dget (xs_db_members S) (i, who)"
    "dget (xs_db_exams S) i = Some r \<Longrightarrow> exam_ok i (exam_from_rows S i r)"
    "row_of_exam (exam_from_rows S i r) = row_of_exam r" "ex_id (exam_from_rows S i r) = ex_id r"
proof -
  have d: "dict_ok (xs_db_members S)" using assms by (simp add: rows_ok_def)
  show m: "member_of (exam_from_rows S i r) who = dget (xs_db_members S) (i, who)" for who
    by (simp add: exam_from_rows_def member_of_def dget_rows_of [OF d])
  show "row_of_exam (exam_from_rows S i r) = row_of_exam r" by (simp add: exam_from_rows_def)
  show id: "ex_id (exam_from_rows S i r) = ex_id r" by (simp add: exam_from_rows_def)
  have "dict_ok (ex_members (exam_from_rows S i r))"
    by (simp add: exam_from_rows_def dget_rows_of [OF d])
  then show "dget (xs_db_exams S) i = Some r \<Longrightarrow> exam_ok i (exam_from_rows S i r)"
    using assms by (auto simp: exam_ok_def m id rows_ok_def)
qed

lemma setdefault_frame [simp]:
  "xs_db_exams (setdefault_exam e S) = xs_db_exams S" "xs_db_members (setdefault_exam e S) = xs_db_members S"
  "xs_store (setdefault_exam e S) = xs_store S" "xs_dirty (setdefault_exam e S) = xs_dirty S"
  "xs_presence (setdefault_exam e S) = xs_presence S" "xs_next (setdefault_exam e S) = xs_next S"
  "xs_db_ops (setdefault_exam e S) = xs_db_ops S"
  "get_exam (setdefault_exam e S) i = (if i = ex_id e \<and> get_exam S i = None then Some e else get_exam S i)"
  by (auto simp: setdefault_exam_def get_exam_def)

lemma exams_ok_setdefault: "exams_ok S \<Longrightarrow> xs_store S \<Longrightarrow> exam_ok (ex_id e) e \<Longrightarrow> exams_ok (setdefault_exam e S)"
  by (auto simp: exams_ok_def setdefault_exam_def get_exam_def rows_ok_def)

lemma safe_setdefault:
  assumes "xs_store S" "dget (xs_db_exams S) i = Some r"
  shows "safe S (setdefault_exam (exam_from_rows S i r) S)" (is "safe S (setdefault_exam ?e S)")
  unfolding safe_def good_def
proof (intro impI, elim conjE)
  assume ok: "exams_ok S" and c: "coherent S"
  note rows = exams_okD(3) [OF ok]
  have ei: "exam_ok i ?e" using assms(2) by (rule exam_from_rows_simps(2) [OF rows])
  then have id: "ex_id ?e = i" by (simp add: exam_ok_def)
  have "exams_ok (setdefault_exam ?e S)" using ok assms(1) ei id by (intro exams_ok_setdefault) simp_all
  moreover have "coherent (setdefault_exam ?e S)"
    unfolding coherent_but_def
  proof (intro impI allI)
    fix j f q
    assume f: "get_exam (setdefault_exam ?e S) j = Some f" and q: "dget (xs_db_exams (setdefault_exam ?e S)) j = Some q"
    show "coherent_at {} (setdefault_exam ?e S) j f q"
    proof (cases "get_exam S j")
      case (Some g)
      with f q assms(1) have "coherent_at {} S j f q" by (intro coherentD [OF c]) (auto split: if_splits)
      then show ?thesis by (rule coherent_at_mono) (auto simp: pending_def)
    next
      case None
      with f id have "j = i" "f = ?e" by (auto split: if_splits)
      moreover have "row_of_exam r = r" "dget (xs_db_members S) (i, who) = Some m \<Longrightarrow> row_of_member m = m" for who m
        using rows assms(2) by (auto simp: rows_ok_def)
      ultimately show ?thesis
        using q assms(2) by (auto simp: coherent_at_def exam_from_rows_simps [OF rows] member_coherent_def split: option.splits)
    qed
  qed
  moreover have "clocks_kept S (setdefault_exam ?e S)" by (auto simp: clocks_kept_def)
  ultimately show "(exams_ok (setdefault_exam ?e S) \<and> coherent (setdefault_exam ?e S)) \<and> clocks_kept S (setdefault_exam ?e S)"
    by simp
qed

lemma safe_setdefaults:
  assumes "xs_store S" "\<And>i r. (i, r) \<in> set rs \<Longrightarrow> dget (xs_db_exams S) i = Some r"
    and "xs_db_members S = xs_db_members S0"
  shows "safe S (fold setdefault_exam (map (\<lambda>(i, r). exam_from_rows S0 i r) rs) S)"
  using assms
proof (induction rs arbitrary: S)
  case Nil
  then show ?case by simp
next
  case (Cons x rs)
  obtain i r where x: "x = (i, r)" by (cases x)
  have same: "exam_from_rows S0 i r = exam_from_rows S i r" using Cons.prems(3) by (simp add: exam_from_rows_def)
  have "safe S (setdefault_exam (exam_from_rows S i r) S)"
    using Cons.prems x by (intro safe_setdefault) auto
  moreover have "safe (setdefault_exam (exam_from_rows S0 i r) S)
      (fold setdefault_exam (map (\<lambda>(i, r). exam_from_rows S0 i r) rs) (setdefault_exam (exam_from_rows S0 i r) S))"
    by (rule Cons.IH) (use Cons.prems in auto)
  ultimately show ?case using x same by (auto intro: safe_trans)
qed

lemma safe_load: "safe S (snd (load_exams E S))"
proof (cases "xs_store S \<and> db_answers E S")
  case True
  have "safe S (fold setdefault_exam (load_all S) (db_tried S))" if "good S"
  proof (rule safe_trans)
    show "safe S (db_tried S)" by (rule safe_frame) simp_all
    have "dict_ok (xs_db_exams S)" using that by (simp add: good_def exams_ok_def rows_ok_def)
    then show "safe (db_tried S) (fold setdefault_exam (load_all S) (db_tried S))"
      unfolding load_all_rows using True by (intro safe_setdefaults) (auto intro: dget_of_in)
  qed
  then have "safe S (fold setdefault_exam (load_all S) (db_tried S))" by (auto simp: safe_def)
  moreover have "safe T (T\<lparr>xs_loaded := True\<rparr>)" for T by (rule safe_frame) simp_all
  ultimately show ?thesis using True by (auto simp: load_exams_def intro: safe_trans)
next
  case False
  then show ?thesis by (auto simp: load_exams_def intro!: safe_frame)
qed

lemma safe_purge: "safe S (purge_exams E before S)"
proof (cases "db_answers E S")
  case False
  then show ?thesis by (auto simp: purge_exams_def intro!: safe_frame)
next
  case True
  show ?thesis
    unfolding safe_def good_def
  proof (intro impI, elim conjE)
    assume ok: "exams_ok S" and c: "coherent S"
    let ?T = "purge_exams E before S"
    have d: "dict_ok (xs_db_exams S)" "dict_ok (xs_db_members S)" using ok by (simp_all add: exams_ok_def rows_ok_def)
    have frame: "xs_items ?T = xs_items S" "xs_presence ?T = xs_presence S" "xs_next ?T = xs_next S"
      "xs_store ?T = xs_store S" "xs_dirty ?T = xs_dirty S"
      using True by (simp_all add: purge_exams_def Let_def)
    have ex: "dget (xs_db_exams ?T) i = (case dget (xs_db_exams S) i of None \<Rightarrow> None
        | Some e \<Rightarrow> if purged before e then None else Some e)" for i
      using True by (auto simp: purge_exams_def Let_def dget_filter d split: option.splits)
    have keys: "set (keys_of (filter (\<lambda>(i, e). \<not> purged before e) (xs_db_exams S))) = {i. dget (xs_db_exams ?T) i \<noteq> None}"
      using True by (auto simp: keys_of_dget purge_exams_def Let_def)
    have mem: "dget (xs_db_members ?T) (i, who) = (if dget (xs_db_exams ?T) i = None then None else dget (xs_db_members S) (i, who))" for i who
      using True keys by (auto simp: purge_exams_def Let_def dget_filter d split: option.splits)
    have "dict_ok (xs_db_exams ?T)" "dict_ok (xs_db_members ?T)"
      using True d by (auto simp: purge_exams_def Let_def)
    then have "rows_ok ?T"
      using exams_okD(3) [OF ok] by (auto simp: rows_ok_def ex mem split: option.splits if_splits)
    then have "exams_ok ?T" using ok by (simp add: exams_ok_def frame get_exam_def)
    moreover have "coherent ?T"
      unfolding coherent_but_def
    proof (intro impI allI)
      fix i e r
      assume "xs_store ?T" "get_exam ?T i = Some e" and r: "dget (xs_db_exams ?T) i = Some r"
      then have "coherent_at {} S i e r"
        by (intro coherentD [OF c]) (auto simp: frame get_exam_def ex split: option.splits if_splits)
      then show "coherent_at {} ?T i e r"
        by (rule coherent_at_mono) (auto simp: pending_def frame mem r)
    qed
    moreover have "clocks_kept S ?T" by (rule clocks_kept_items) (simp add: frame)
    ultimately show "(exams_ok ?T \<and> coherent ?T) \<and> clocks_kept S ?T" by simp
  qed
qed

lemma safe_tick_refresh: "safe S (tick_refresh ms now S)"
  by (auto simp: tick_refresh_def intro: safe_frame)

lemma safe_tick_retry: "safe S (tick_retry E now S)"
proof -
  let ?S1 = "S\<lparr>xs_last_retry := now\<rparr>"
  let ?S2 = "if xs_loaded ?S1 then ?S1 else snd (load_exams E ?S1)"
  let ?S3 = "if xs_dirty ?S2 = [] then ?S2 else retry_dirty E ?S2"
  have 1: "safe S ?S1" by (rule safe_frame) simp_all
  have 2: "safe ?S1 ?S2" using safe_load [of ?S1 E] by (cases "xs_loaded ?S1") simp_all
  have 3: "safe ?S2 ?S3" using safe_retry_dirty [of ?S2 E] by (cases "xs_dirty ?S2 = []") simp_all
  have 4: "safe ?S3 (purge_exams E b (?S3\<lparr>xs_last_purge := now\<rparr>))" for b
    by (rule safe_trans [OF _ safe_purge]) (rule safe_frame; simp)
  have S3: "safe S ?S3" using 1 2 3 safe_trans by blast
  show ?thesis
    unfolding tick_retry_def Let_def using S3 safe_trans [OF S3 4] by auto
qed

lemma safe_tick: "safe S (tick_exams E ms now S)"
proof -
  have "safe S (fold (tick_exam E (at_ms now)) is S)" for "is"
    by (rule safe_fold, rule safe_tick_exam)
  then show ?thesis
    unfolding tick_exams_def Let_def
    by (intro safe_resync) (blast intro: safe_trans safe_tick_refresh safe_tick_retry)
qed

end
