(* ===== verification/Exam_Histories.thy ===== *)
theory Exam_Histories
  imports Exam_Invariants
begin

text \<open>
  The histories of the registry of the exams: every operation of \<open>src/sreweb/portal/exams.py\<close> the
  portal calls, in any order, with the database refusing any of its operations and any browser
  unreachable. The theorems say what no history breaks.
\<close>

section \<open>Creating and deleting\<close>

text \<open>An identifier \<open>AUTO_INCREMENT\<close> may give: never given before.\<close>

definition fresh_id :: "exams \<Rightarrow> int \<Rightarrow> bool" where
  "fresh_id S i \<longleftrightarrow> 0 < i \<and> get_exam S i = None \<and> i \<notin> set (keys_of (xs_db_exams S)) \<and>
     i \<notin> set (map fst (keys_of (xs_db_members S)))"

lemma fresh_id_members: "fresh_id S i \<Longrightarrow> dget (xs_db_members S) (i, who) = None"
  by (force simp: fresh_id_def keys_of_def map_of_eq_None_iff)

lemma safe_new_exam:
  assumes new: "good S \<Longrightarrow> get_exam S i = None" and ei: "good S \<Longrightarrow> exam_ok i e" and none: "\<And>who. member_of e who = None"
    and S1: "xs_items S1 = xs_items S" "xs_store S1 = xs_store S" "xs_presence S1 = xs_presence S"
      "xs_db_members S1 = xs_db_members S" "xs_dirty S1 = xs_dirty S"
    and nxt: "good S \<Longrightarrow> 0 < xs_next S1 \<and> (\<not> xs_store S \<longrightarrow> i < xs_next S1 \<and> xs_next S \<le> xs_next S1)"
    and db: "xs_db_exams S1 = (if xs_store S then dset (xs_db_exams S) i (row_of_exam e) else xs_db_exams S)"
    and fresh: "xs_store S \<Longrightarrow> fresh_id S i"
  shows "safe S (put_exam e S1)"
  unfolding safe_def
proof
  assume g: "good S"
  then have ok: "exams_ok S" and c: "coherent S" by (simp_all add: good_def)
  have id: "ex_id e = i" using ei [OF g] by (simp add: exam_ok_def)
  have get: "get_exam (put_exam e S1) j = (if j = i then Some e else get_exam S j)" for j
    by (simp add: id) (simp add: get_exam_def S1)
  have "exams_ok (put_exam e S1)"
    unfolding exams_ok_def
  proof (intro conjI allI impI)
    show "dict_ok (xs_items (put_exam e S1))" using exams_okD(4) [OF ok] by (simp add: put_exam_def S1)
    show "get_exam (put_exam e S1) j = Some f \<Longrightarrow> exam_ok j f" for j f
      using ei [OF g] exams_okD(1) [OF ok, of j f] unfolding get by (auto split: if_splits)
    show "presence_ok (xs_presence (put_exam e S1))" using exams_okD(2) [OF ok] by (simp add: S1)
    show "rows_ok (put_exam e S1)"
      using exams_okD(3) [OF ok] exam_ok_row [OF ei [OF g]] by (auto simp: rows_ok_def db S1 split: if_splits)
    show "0 < xs_next (put_exam e S1)" using nxt [OF g] by simp
    show "\<forall>i \<in> set (keys_of (xs_items (put_exam e S1))). i < xs_next (put_exam e S1)" if "\<not> xs_store (put_exam e S1)"
      using nxt [OF g] that ok by (auto simp: S1 id exams_ok_def)
  qed
  moreover have "coherent (put_exam e S1)"
    unfolding coherent_but_def
  proof (intro impI allI)
    fix j f r
    assume st: "xs_store (put_exam e S1)" and f: "get_exam (put_exam e S1) j = Some f"
      and r: "dget (xs_db_exams (put_exam e S1)) j = Some r"
    then have str: "xs_store S" by (simp add: S1)
    show "coherent_at {} (put_exam e S1) j f r"
    proof (cases "j = i")
      case True
      with f r str have "f = e" "r = row_of_exam e" unfolding get by (simp_all add: db)
      with True fresh_id_members [OF fresh [OF str]] show ?thesis
        by (simp add: coherent_at_def none member_coherent_def S1)
    next
      case False
      with f r str have "coherent_at {} S j f r" unfolding get by (intro coherentD [OF c]) (simp_all add: db)
      then show ?thesis by (rule coherent_at_mono) (simp_all add: pending_def S1)
    qed
  qed
  moreover have "clocks_kept S (put_exam e S1)"
    using new [OF g] unfolding clocks_kept_def get by auto
  ultimately show "good (put_exam e S1) \<and> clocks_kept S (put_exam e S1)" by (simp add: good_def)
qed

lemma safe_create:
  assumes fresh: "xs_store S \<Longrightarrow> fresh_id S row_id"
  shows "safe S (snd (create_exam E row_id creator sp now later S))"
proof (cases "xs_store S \<and> \<not> db_answers E S")
  case True
  then show ?thesis by (auto simp: create_exam_def Let_def intro: safe_frame)
next
  case False
  define i where "i = (if xs_store S then row_id else xs_next S)"
  define e where "e = (new_exam creator sp (at_ms now))\<lparr>ex_id := i\<rparr>"
  define S1 where "S1 = (if xs_store S then (db_tried S)\<lparr>xs_db_exams := dset (xs_db_exams S) i (row_of_exam e)\<rparr>
             else S\<lparr>xs_next := xs_next S + 1\<rparr>)"
  have none: "member_of e who = None" for who by (simp add: e_def new_exam_def member_of_def)
  have "safe S (put_exam e S1)"
  proof (rule safe_new_exam [where i = i])
    show "good S \<Longrightarrow> get_exam S i = None"
      using fresh by (auto simp: i_def fresh_id_def good_def exams_ok_def get_exam_def keys_of_dget)
    show "good S \<Longrightarrow> exam_ok i e"
      using fresh by (simp add: exam_ok_def none) (auto simp: e_def new_exam_def i_def fresh_id_def good_def exams_ok_def)
  qed (use fresh in \<open>auto simp: none S1_def i_def good_def exams_ok_def\<close>)
  then have "safe S (resync_exams E later (lunion (members_of (put_exam e S1) e) (presence_logins (xs_presence (put_exam e S1))))
      (put_exam e S1))"
    by (rule safe_resync)
  moreover have "snd (create_exam E row_id creator sp now later S) =
      resync_exams E later (lunion (members_of (put_exam e S1) e) (presence_logins (xs_presence (put_exam e S1)))) (put_exam e S1)"
    using False by (auto simp: create_exam_def Let_def S1_def e_def i_def)
  ultimately show ?thesis by simp
qed

text \<open>Deleting an exam forgets its clocks only.\<close>

definition clocks_kept_but :: "int \<Rightarrow> exams \<Rightarrow> exams \<Rightarrow> bool" where
  "clocks_kept_but i S T \<longleftrightarrow> (\<forall>j e who m. j \<noteq> i \<longrightarrow> get_exam S j = Some e \<longrightarrow> member_of e who = Some m \<longrightarrow>
     (\<exists>e' m'. get_exam T j = Some e' \<and> member_of e' who = Some m' \<and>
        (\<forall>t. mb_started m = Some t \<longrightarrow> mb_started m' = Some t)))"

lemma good_delete:
  assumes "good S"
  shows "good (snd (delete_exam E i later S)) \<and> clocks_kept_but i S (snd (delete_exam E i later S))"
proof (cases "require_exam S i")
  case (Inl x)
  with assms show ?thesis by (auto simp: delete_exam_def clocks_kept_but_def)
next
  case (Inr e)
  let ?S1 = "S\<lparr>xs_items := dpop (xs_items S) i, xs_dirty := filter (\<lambda>d. fst d \<noteq> i) (xs_dirty S)\<rparr>"
  let ?S2 = "if \<not> xs_store S then ?S1
     else if db_answers E S then (db_tried ?S1)\<lparr>xs_db_exams := dpop (xs_db_exams S) i,
        xs_db_members := filter (\<lambda>((j, who), m). j \<noteq> i) (xs_db_members S)\<rparr>
     else db_tried ?S1"
  have ok: "exams_ok S" and c: "coherent S" using assms by (simp_all add: good_def)
  have d: "dict_ok (xs_db_members S)" using ok by (simp add: exams_ok_def rows_ok_def)
  have items: "get_exam ?S2 j = (if j = i then None else get_exam S j)" for j by (simp add: get_exam_def)
  have frame: "xs_items ?S2 = dpop (xs_items S) i" "xs_presence ?S2 = xs_presence S" "xs_next ?S2 = xs_next S"
    "xs_store ?S2 = xs_store S" by simp_all
  have rows: "j \<noteq> i \<Longrightarrow> dget (xs_db_exams ?S2) j = dget (xs_db_exams S) j"
    "j \<noteq> i \<Longrightarrow> dget (xs_db_members ?S2) (j, who) = dget (xs_db_members S) (j, who)"
    "dget (xs_db_exams ?S2) k = Some r \<Longrightarrow> dget (xs_db_exams S) k = Some r"
    "dget (xs_db_members ?S2) kw = Some m \<Longrightarrow> dget (xs_db_members S) kw = Some m" for j who k r kw m
    using d by (auto simp: dget_filter split: if_splits option.splits)
  have "dict_ok (xs_db_exams ?S2)" "dict_ok (xs_db_members ?S2)"
    using exams_okD(3) [OF ok] by (auto simp: rows_ok_def)
  then have "rows_ok ?S2"
    using exams_okD(3) [OF ok] rows(3,4) unfolding rows_ok_def by blast
  moreover have "\<forall>j e. get_exam ?S2 j = Some e \<longrightarrow> exam_ok j e"
    using ok unfolding items by (auto simp: exams_ok_def split: if_splits)
  ultimately have ok2: "exams_ok ?S2"
    using ok unfolding exams_ok_def frame by auto
  have "coherent ?S2"
    unfolding coherent_but_def
  proof (intro impI allI)
    fix j f r
    assume st: "xs_store ?S2" and f: "get_exam ?S2 j = Some f" and r: "dget (xs_db_exams ?S2) j = Some r"
    from f have j: "j \<noteq> i" "get_exam S j = Some f" by (auto simp: items split: if_splits)
    from st r j have "coherent_at {} S j f r" by (intro coherentD [OF c]) (auto simp: frame rows)
    moreover have "pending {} S (j, k) = pending {} ?S2 (j, k)" for k
      using j(1) by (simp add: pending_def)
    ultimately show "coherent_at {} ?S2 j f r"
      using rows(2) [OF j(1)] by (simp add: coherent_at_def)
  qed
  with ok2 have "good (resync_exams E later aff ?S2)" for aff
    by (simp add: good_def exams_ok_resync coherent_resync)
  moreover have "clocks_kept_but i S (resync_exams E later aff ?S2)" for aff
    by (auto simp: clocks_kept_but_def get_exam_def)
  moreover have "\<exists>aff. snd (delete_exam E i later S) = resync_exams E later aff ?S2"
    using Inr by (auto simp: delete_exam_def Let_def)
  ultimately show ?thesis by metis
qed

section \<open>Histories\<close>

datatype exam_op =
    OpCreate int string exam_spec real real
  | OpUpdate int exam_spec bool real real
  | OpDelete int real
  | OpEndNow int "string list option" real real
  | OpAdjust int "string list option" int real real
  | OpSetLabs int "string list option" "exam_lab list" real real
  | OpDismiss int string real real
  | OpNoteSeen int string string real
  | OpObserve int string "project_row list" real string real
  | OpTick memberships real
  | OpLoad
  | OpResync real "string list"
  | OpConnect identity string nat real
  | OpDisconnect psocket

fun exec_op :: "env \<Rightarrow> exam_op \<Rightarrow> exams \<Rightarrow> exams" where
  "exec_op E (OpCreate row_id who sp now later) S = snd (create_exam E row_id who sp now later S)"
| "exec_op E (OpUpdate i sp resume now later) S = snd (update_exam E i sp resume now later S)"
| "exec_op E (OpDelete i later) S = snd (delete_exam E i later S)"
| "exec_op E (OpEndNow i ls now later) S = snd (end_now E i ls now later S)"
| "exec_op E (OpAdjust i ls extra now later) S = snd (adjust E i ls extra now later S)"
| "exec_op E (OpSetLabs i ls labs now later) S = snd (set_labs E i ls labs now later S)"
| "exec_op E (OpDismiss i who now later) S = snd (dismiss E i who now later S)"
| "exec_op E (OpNoteSeen i who address now) S = note_seen E i who address now S"
| "exec_op E (OpObserve i who rows now address later) S = snd (observe E i who rows now address later S)"
| "exec_op E (OpTick ms now) S = tick_exams E ms now S"
| "exec_op E OpLoad S = snd (load_exams E S)"
| "exec_op E (OpResync now ls) S = resync_exams E now ls S"
| "exec_op E (OpConnect who page w now) S = S\<lparr>xs_presence := snd (presence_add who page w now (xs_presence S))\<rparr>"
| "exec_op E (OpDisconnect s) S = S\<lparr>xs_presence := presence_remove s (xs_presence S)\<rparr>"

definition op_possible :: "exam_op \<Rightarrow> exams \<Rightarrow> bool" where
  "op_possible a S \<longleftrightarrow> (case a of OpCreate row_id who sp now later \<Rightarrow> xs_store S \<longrightarrow> fresh_id S row_id | _ \<Rightarrow> True)"

inductive exam_step :: "env \<Rightarrow> exams \<Rightarrow> exams \<Rightarrow> bool" for E :: env where
  exam_stepI: "op_possible a S \<Longrightarrow> exam_step E S (exec_op E a S)"

inductive_cases exam_stepE: "exam_step E S T"

lemma exec_op_safe:
  assumes "op_possible a S" "\<And>i later. a \<noteq> OpDelete i later"
  shows "safe S (exec_op E a S)"
proof (cases a)
  case (OpConnect who page w now)
  then show ?thesis
    by (auto simp: safe_def good_def exams_ok_def rows_ok_def presence_ok_add coherent_but_def coherent_at_def pending_def
        get_exam_def intro: clocks_kept_items)
next
  case (OpDisconnect s)
  then show ?thesis
    by (auto simp: safe_def good_def exams_ok_def rows_ok_def presence_ok_remove coherent_but_def coherent_at_def pending_def
        get_exam_def intro: clocks_kept_items)
qed (use assms in \<open>auto simp: op_possible_def safe_create safe_update safe_end_now safe_adjust safe_set_labs
      safe_dismiss safe_note_seen safe_observe safe_tick safe_load intro: safe_resync\<close>)

lemma exec_op_good: "good S \<Longrightarrow> op_possible a S \<Longrightarrow> good (exec_op E a S)"
  using exec_op_safe [of a S E] good_delete [of S E] by (cases a) (auto simp: safe_def)

definition empty_registry :: "exams \<Rightarrow> bool" where
  "empty_registry S \<longleftrightarrow> xs_items S = [] \<and> xs_dirty S = [] \<and> 0 < xs_next S \<and> presence_ok (xs_presence S) \<and> rows_ok S"

lemma empty_good: "empty_registry S \<Longrightarrow> good S"
  by (auto simp: empty_registry_def good_def exams_ok_def coherent_but_def get_exam_def keys_of_def)

interpretation exams_machine: invariant_machine empty_registry "exam_step E" good for E
  by unfold_locales (auto intro: empty_good elim!: exam_stepE simp: exec_op_good)

section \<open>What no history breaks\<close>


definition all_up :: env where
  "all_up = \<lparr>en_send = (\<lambda>n. True), en_db = (\<lambda>n. True)\<rparr>"

definition demo_empty :: exams where
  "demo_empty = demo_exams\<lparr>xs_items := [], xs_store := True\<rparr>"

lemma demo_empty_registry: "empty_registry demo_empty"
  by (simp add: empty_registry_def demo_empty_def demo_exams_def presence_ok_def rows_ok_def)

definition demo_created :: exams where
  "demo_created = exec_op all_up (OpCreate 1 ''prof'' (spec_of demo_exam) 0 0) demo_empty"

lemma demo_possible: "op_possible (OpCreate 1 ''prof'' (spec_of demo_exam) 0 0) demo_empty"
  by (simp add: op_possible_def fresh_id_def get_exam_def demo_empty_def demo_exams_def keys_of_def)

lemma demo_created_step: "(exam_step all_up)\<^sup>*\<^sup>* demo_empty demo_created"
  unfolding demo_created_def by (rule r_into_rtranclp, rule exam_stepI, rule demo_possible)

lemma demo_created_exam: "get_exam demo_created 1 = Some demo_exam"
  by (simp add: demo_created_def create_exam_def demo_empty_def demo_exams_def db_answers_def all_up_def Let_def new_exam_def
      spec_of_def demo_exam_def at_ms_def put_exam_def db_tried_def get_exam_def)


text \<open>A history is a list of operations, each possible where it is run.\<close>

fun run_ops :: "env \<Rightarrow> exam_op list \<Rightarrow> exams \<Rightarrow> exams" where
  "run_ops E [] S = S"
| "run_ops E (a # as) S = run_ops E as (exec_op E a S)"

fun ops_possible :: "env \<Rightarrow> exam_op list \<Rightarrow> exams \<Rightarrow> bool" where
  "ops_possible E [] S = True"
| "ops_possible E (a # as) S = (op_possible a S \<and> ops_possible E as (exec_op E a S))"

fun deletes :: "int \<Rightarrow> exam_op \<Rightarrow> bool" where
  "deletes i (OpDelete j later) = (i = j)"
| "deletes i _ = False"

lemma run_clocks:
  assumes "good S" "ops_possible E as S" "\<forall>a \<in> set as. \<not> deletes i a"
    and "get_exam S i = Some e" "member_of e who = Some m"
  shows "\<exists>e' m'. get_exam (run_ops E as S) i = Some e' \<and> member_of e' who = Some m' \<and>
      (\<forall>t. mb_started m = Some t \<longrightarrow> mb_started m' = Some t)"
  using assms
proof (induction as arbitrary: S e m)
  case Nil
  then show ?case by simp
next
  case (Cons a as)
  have g: "good (exec_op E a S)" using Cons.prems(1,2) by (simp add: exec_op_good)
  have "\<exists>e1 m1. get_exam (exec_op E a S) i = Some e1 \<and> member_of e1 who = Some m1 \<and>
      (\<forall>t. mb_started m = Some t \<longrightarrow> mb_started m1 = Some t)"
  proof (cases "\<exists>j later. a = OpDelete j later")
    case True
    then obtain j later where a: "a = OpDelete j later" by blast
    with Cons.prems(3) have "i \<noteq> j" by auto
    with good_delete [OF Cons.prems(1), of E j later] Cons.prems(4,5) a show ?thesis
      by (simp add: clocks_kept_but_def)
  next
    case False
    with Cons.prems exec_op_safe [of a S E] show ?thesis
      by (simp add: safe_def clocks_kept_def)
  qed
  then obtain e1 m1 where 1: "get_exam (exec_op E a S) i = Some e1" "member_of e1 who = Some m1"
    "\<forall>t. mb_started m = Some t \<longrightarrow> mb_started m1 = Some t" by blast
  from Cons.IH [OF g _ _ 1(1,2)] Cons.prems(2,3) obtain e2 m2 where
    "get_exam (run_ops E as (exec_op E a S)) i = Some e2" "member_of e2 who = Some m2"
    "\<forall>t. mb_started m1 = Some t \<longrightarrow> mb_started m2 = Some t" by auto
  with 1(3) show ?case by auto
qed

text \<open>C20: A clock is started once: through any history that does not delete the exam (edits, extra
  minutes, ends, other labs, ticks, a reload of the database), the record of a student stays and a
  clock that has started keeps its start.\<close>

theorem clock_started_once:
  assumes "empty_registry S" "ops_possible E (before @ after) S" "\<forall>a \<in> set after. \<not> deletes i a"
    and "get_exam (run_ops E before S) i = Some e" "member_of e who = Some m" "mb_started m = Some t"
  shows "\<exists>e' m'. get_exam (run_ops E (before @ after) S) i = Some e' \<and> member_of e' who = Some m' \<and> mb_started m' = Some t"
proof -
  have split: "good S \<Longrightarrow> ops_possible E (as @ bs) S \<Longrightarrow>
      good (run_ops E as S) \<and> ops_possible E bs (run_ops E as S) \<and> run_ops E (as @ bs) S = run_ops E bs (run_ops E as S)"
    for as bs S
    by (induction as arbitrary: S) (auto simp: exec_op_good)
  from split [OF empty_good [OF assms(1)] assms(2)] run_clocks [of "run_ops E before S" E after i e who m] assms(3-6)
  show ?thesis by auto
qed

section \<open>A clock ended before it starts\<close>

definition demo_project :: project_row where
  "demo_project = \<lparr>rw_lab_name = ''sre@dhcp.py'', rw_rln = Some ''r'', rw_host = Some ''h'', rw_owner = None\<rparr>"

definition demo_end_early :: "exam_op list" where
  "demo_end_early = [OpCreate 1 ''prof'' (spec_of demo_exam) 0 0, OpObserve 1 ''bob'' [demo_project] 800 [] 800,
     OpEndNow 1 None 900 900]"

definition demo_tick :: exam_op where
  "demo_tick = OpTick \<lparr>ms_snapshot = None, ms_custom = None\<rparr> 1000"


lemma no_page: "identity_of \<lparr>p_sockets = [], p_next = n, p_log = l\<rparr> who = None"
  by (simp add: identity_of_def sockets_of_def)

lemma resync_nobody: "xs_presence S = \<lparr>p_sockets = [], p_next = 0, p_log = []\<rparr> \<Longrightarrow> xs_shown S = [] \<Longrightarrow> resync_exams E now ls S = S"
proof -
  assume a: "xs_presence S = \<lparr>p_sockets = [], p_next = 0, p_log = []\<rparr>" "xs_shown S = []"
  then have 1: "resync_exam1 E now w S = S" for w by (simp add: resync_exam1_def no_page)
  have "fold (resync_exam1 E now) ws S = S" for ws by (induction ws) (simp_all add: 1)
  then show ?thesis by (simp add: resync_exams_def)
qed

definition demo_bob :: member where
  "demo_bob = (new_member ''bob'')\<lparr>mb_first_seen := Some 800, mb_projects := [(''sre/dhcp.py'', \<lparr>pj_host = ''h'', pj_rln = ''r'', pj_synced = None\<rparr>)]\<rparr>"

definition demo_H0 :: exams where
  "demo_H0 = demo_empty\<lparr>xs_items := [(1, demo_exam)], xs_db_exams := [(1, row_of_exam demo_exam)], xs_db_ops := 1\<rparr>"

definition demo_H1 :: exams where
  "demo_H1 = demo_H0\<lparr>xs_items := [(1, put_member demo_exam ''bob'' demo_bob)], xs_db_members := [((1,''bob''), row_of_member demo_bob)], xs_db_ops := 2\<rparr>"

lemma demo_run0: "demo_created = demo_H0"
  by (simp add: demo_created_def create_exam_def demo_empty_def demo_exams_def db_answers_def all_up_def Let_def new_exam_def
      spec_of_def demo_exam_def at_ms_def put_exam_def db_tried_def resync_nobody demo_H0_def)

lemma demo_run1: "exec_op all_up (OpObserve 1 ''bob'' [demo_project] 800 [] 800) demo_H0 = demo_H1"
  by (simp add: demo_H0_def demo_H1_def demo_bob_def observe_def get_exam_def member_create_def observed_def observe_row_def demo_project_def seen_at_def new_member_def
     lab_names_def labs_of_def demo_exam_def normal_lab_def record_project_def may_start_def at_ms_def put_member_def put_exam_def persist_member_def member_of_def
     db_answers_def all_up_def db_tried_def demo_empty_def demo_exams_def row_of_member_def resync_nobody Let_def)

definition demo_ended :: exam where
  "demo_ended = (put_member demo_exam ''bob'' demo_bob)\<lparr>ex_ended := Some 900, ex_updated_at := 900\<rparr>"

definition demo_H2 :: exams where
  "demo_H2 = demo_H1\<lparr>xs_items := [(1, demo_ended)], xs_db_exams := [(1, row_of_exam demo_ended)], xs_db_ops := 3\<rparr>"

lemma demo_run2: "exec_op all_up (OpEndNow 1 None 900 900) demo_H1 = demo_H2"
  by (simp add: demo_H2_def demo_H1_def demo_H0_def demo_ended_def end_now_def require_exam_def get_exam_def at_ms_def put_exam_def put_member_def persist_exam_def
     db_answers_def all_up_def db_tried_def demo_empty_def demo_exams_def resync_nobody Let_def demo_exam_def)

lemma demo_run3: "get_exam (exec_op all_up demo_tick demo_H2) 1 = Some (put_member demo_ended ''bob'' (demo_bob\<lparr>mb_started := Some 1000\<rparr>))"
  by (simp add: demo_tick_def tick_exams_def demo_H2_def demo_H1_def demo_H0_def demo_ended_def demo_bob_def get_exam_def at_ms_def put_exam_def put_member_def 
     tick_exam_def tick_member_def keys_of_def member_of_def may_start_def lab_names_def labs_of_def new_member_def persist_member_def tick_refresh_def
     tick_retry_def load_exams_def purge_exams_def DIRTY_RETRY_def retry_dirty_def
     db_answers_def all_up_def db_tried_def demo_empty_def demo_exams_def resync_nobody Let_def demo_exam_def)

text \<open>An \<open>End now\<close> of everybody in the waiting room does not keep a clock from starting: the
  student whose projects are ready is let go by the exam (past), the tick of the start then starts
  their clock, which ends before it has started, and the exam binds them again (ended). The
  documentation of \<open>Exam.end_at\<close> says that an end is never before the start.\<close>

theorem end_now_before_start:
  "\<exists>e m e' m'. get_exam (run_ops all_up demo_end_early demo_empty) 1 = Some e \<and> member_of e ''bob'' = Some m \<and>
     phase e (Some m) 950 = PHASE_PAST \<and>
     get_exam (run_ops all_up (demo_end_early @ [demo_tick]) demo_empty) 1 = Some e' \<and> member_of e' ''bob'' = Some m' \<and>
     mb_started m' = Some 1000 \<and> end_at e' (Some m') = Some 900 \<and> phase e' (Some m') 1000 = PHASE_ENDED"
proof -
  have r: "run_ops all_up demo_end_early demo_empty = demo_H2"
    using demo_run0 by (simp add: demo_end_early_def demo_created_def [symmetric] demo_run1 demo_run2 del: exec_op.simps)
  then have r2: "run_ops all_up (demo_end_early @ [demo_tick]) demo_empty = exec_op all_up demo_tick demo_H2"
    using demo_run0 by (simp add: demo_end_early_def demo_created_def [symmetric] demo_run1 demo_run2 del: exec_op.simps)
  have e: "get_exam demo_H2 1 = Some demo_ended" by (simp add: demo_H2_def get_exam_def)
  have m: "member_of demo_ended ''bob'' = Some demo_bob" by (simp add: demo_ended_def member_of_def put_member_def)
  have p: "phase demo_ended (Some demo_bob) 950 = PHASE_PAST"
    by (simp add: phase_def end_at_def demo_ended_def demo_bob_def new_member_def put_member_def demo_exam_def)
  let ?m = "demo_bob\<lparr>mb_started := Some 1000\<rparr>"
  have "end_at (put_member demo_ended ''bob'' ?m) (Some ?m) = Some 900"
    by (simp add: end_at_def demo_ended_def demo_bob_def new_member_def put_member_def demo_exam_def cap_def)
  moreover then have "phase (put_member demo_ended ''bob'' ?m) (Some ?m) 1000 = PHASE_ENDED"
    by (simp add: phase_def demo_ended_def demo_bob_def new_member_def put_member_def demo_exam_def)
  ultimately show ?thesis
    using r r2 e m p demo_run3 by (intro exI conjI) (auto simp: member_of_put_member)
qed

theorem clock_started_once_witness:
  "\<exists>e m. get_exam (run_ops all_up ((demo_end_early @ [demo_tick]) @ [OpAdjust 1 None 10 1100 1100]) demo_empty) 1 = Some e \<and>
     member_of e ''bob'' = Some m \<and> mb_started m = Some 1000"
proof -
  have possible: "ops_possible all_up ((demo_end_early @ [demo_tick]) @ [OpAdjust 1 None 10 1100 1100]) demo_empty"
    using demo_possible by (simp add: demo_end_early_def demo_tick_def op_possible_def del: exec_op.simps)
  obtain e m where "get_exam (run_ops all_up (demo_end_early @ [demo_tick]) demo_empty) 1 = Some e"
    "member_of e ''bob'' = Some m" "mb_started m = Some 1000"
  proof -
    have "run_ops all_up (demo_end_early @ [demo_tick]) demo_empty = exec_op all_up demo_tick demo_H2"
      using demo_run0 by (simp add: demo_end_early_def demo_created_def [symmetric] demo_run1 demo_run2 del: exec_op.simps)
    with demo_run3 that show ?thesis by simp
  qed
  from clock_started_once [OF demo_empty_registry possible _ this] show ?thesis by simp
qed

end
