(* ===== verification/Exam_Students.thy ===== *)
theory Exam_Students
  imports Exam_Recovery "HOL-Library.Multiset"
begin

text \<open>
  The projects of the students of an exam (\<open>set_labs\<close> with \<open>_orphan\<close>, and \<open>observe\<close>, of
  \<open>src/sreweb/portal/exams.py\<close>): changing the labs loses no project, and the clock of a student
  starts exactly when every project of theirs has been seen.
\<close>

section \<open>Changing the labs\<close>

definition project_refs :: "member \<Rightarrow> (string \<times> string) multiset" where
  "project_refs m = mset (map (\<lambda>p. (pj_host p, pj_rln p)) (vals_of (mb_projects m))) +
     mset (map (\<lambda>r. (or_host r, or_rln r)) (mb_orphans m))"

lemma mset_vals_dpop:
  "dict_ok d \<Longrightarrow> dget d k = Some v \<Longrightarrow> mset (vals_of d) = add_mset v (mset (vals_of (dpop d k)))"
proof (induction d)
  case (Cons x d)
  have "dpop d k = d" if "dget d k = None"
    using that by (simp add: delete_idem map_of_eq_None_iff)
  with Cons show ?case by (cases x) (auto simp: vals_of_def dict_ok_def map_of_eq_None_iff split: if_splits)
qed (simp add: vals_of_def)

lemma orphan1_refs: "dict_ok (mb_projects m) \<Longrightarrow> project_refs (orphan1 m lab) = project_refs m"
  using mset_vals_dpop [of "mb_projects m" lab]
  by (auto simp: orphan1_def project_refs_def split: option.split)

lemma orphans_refs: "dict_ok (mb_projects m) \<Longrightarrow> project_refs (foldl orphan1 m labs) = project_refs m"
  by (induction labs arbitrary: m) (simp_all add: orphan1_refs)

lemma orphans_keys:
  "dict_ok (mb_projects m) \<Longrightarrow>
   set (keys_of (mb_projects (foldl orphan1 m labs))) = set (keys_of (mb_projects m)) - set labs"
proof (induction labs arbitrary: m)
  case (Cons lab labs)
  have "set (keys_of (mb_projects (orphan1 m lab))) = set (keys_of (mb_projects m)) - {lab}"
    by (auto simp: orphan1_def keys_of_dget split: option.splits if_splits)
  with Cons show ?case by auto
qed simp

lemma lab_names_put_member:
  "mb_labs m = mb_labs m' \<Longrightarrow> lab_names (put_member e w m) (Some w) = lab_names (put_member e w m') (Some w)"
  by (simp add: lab_names_def labs_of_def put_member_def split: option.split)

lemma with_labs_result:
  assumes "member_ok w m"
  shows "project_refs (with_labs ls e m) = project_refs m"
    "set (keys_of (mb_projects (with_labs ls e m))) \<subseteq> set (lab_names (put_member e w (with_labs ls e m)) (Some w))"
proof -
  let ?m = "m\<lparr>mb_labs := ls\<rparr>"
  have ok: "dict_ok (mb_projects ?m)" and who: "mb_login m = w" using assms by (simp_all add: member_ok_def)
  have p: "project_refs ?m = project_refs m" by (simp add: project_refs_def)
  from orphans_refs [OF ok] p show "project_refs (with_labs ls e m) = project_refs m"
    by (simp add: with_labs_def orphan_projects_def)
  have "mb_labs (with_labs ls e m) = mb_labs ?m"
    by (simp add: with_labs_def orphan_projects_def orphans_frame)
  from lab_names_put_member [OF this, of e w] orphans_keys [OF ok]
  show "set (keys_of (mb_projects (with_labs ls e m))) \<subseteq> set (lab_names (put_member e w (with_labs ls e m)) (Some w))"
    by (auto simp: with_labs_def orphan_projects_def who)
qed

text \<open>The record of a student keeps its projects, and has only those of its labs when it must.\<close>

definition labs_settled :: "exam \<Rightarrow> string \<Rightarrow> bool" where
  "labs_settled e who \<longleftrightarrow> (case member_of e who of None \<Rightarrow> True
     | Some m \<Rightarrow> set (keys_of (mb_projects m)) \<subseteq> set (lab_names e (Some who)))"

definition refs_of :: "exam \<Rightarrow> string \<Rightarrow> (string \<times> string) multiset" where
  "refs_of e who = (case member_of e who of None \<Rightarrow> {#} | Some m \<Rightarrow> project_refs m)"

lemma lab_names_cong:
  "ex_labs e' = ex_labs e \<Longrightarrow> member_of e' w = member_of e w \<Longrightarrow> lab_names e' (Some w) = lab_names e (Some w)"
  by (simp add: lab_names_def labs_of_def member_of_def cong: option.case_cong)

lemma change_labs_member:
  assumes "get_exam S i = Some e" "exam_ok i e"
  shows "\<exists>e'. get_exam (change_member E i (with_labs (Some labs)) w S) i = Some e' \<and> exam_ok i e' \<and>
     (\<forall>who. refs_of e' who = refs_of e who \<and> (who = w \<or> labs_settled e who \<longrightarrow> labs_settled e' who))"
proof -
  obtain m e1 where mc: "member_create e w = (m, e1)" by fastforce
  have ok: "exam_ok i e1" "member_ok w m" using exam_ok_create [OF assms(2), of w] mc by simp_all
  let ?m = "with_labs (Some labs) e1 m" and ?e = "put_member e1 w (with_labs (Some labs) e1 m)"
  have ok': "exam_ok i ?e" using ok by (simp add: exam_ok_put_member)
  have other: "who \<noteq> w \<Longrightarrow> member_of e1 who = member_of e who" for who
    using created_frame(1) [of e w who] mc by simp
  have labs: "ex_labs ?e = ex_labs e"
    using mc by (rule_tac member_create_cases [of e w]) (auto simp: put_member_def)
  have refs: "refs_of ?e who = refs_of e who" for who
  proof (cases "who = w")
    case True
    have "member_of e w = Some m \<or> member_of e w = None \<and> m = new_member w"
      using mc by (rule_tac member_create_cases [of e w]) auto
    then have "refs_of e w = project_refs m"
      by (auto simp: refs_of_def project_refs_def new_member_def vals_of_def)
    with True with_labs_result(1) [OF ok(2)] show ?thesis by (simp add: refs_of_def)
  next
    case False
    then show ?thesis by (simp add: refs_of_def other)
  qed
  have settled: "labs_settled ?e who" if "who = w \<or> labs_settled e who" for who
  proof (cases "who = w")
    case True
    with with_labs_result(2) [OF ok(2)] show ?thesis by (simp add: labs_settled_def)
  next
    case False
    then have o: "member_of ?e who = member_of e who" by (simp add: other)
    with that False lab_names_cong [OF labs o] show ?thesis
      by (simp add: labs_settled_def split: option.splits)
  qed
  have "get_exam (change_member E i (with_labs (Some labs)) w S) i = Some ?e"
    using assms(1) mc ok' by (simp add: change_member_def exam_ok_def)
  with ok' refs settled show ?thesis by blast
qed

lemma change_labs_members:
  assumes "get_exam S i = Some e" "exam_ok i e"
  shows "\<exists>e'. get_exam (change_members E i (with_labs (Some labs)) ls S) i = Some e' \<and> exam_ok i e' \<and>
     (\<forall>who. refs_of e' who = refs_of e who \<and> (who \<in> set ls \<or> labs_settled e who \<longrightarrow> labs_settled e' who))"
  using assms
proof (induction ls arbitrary: S e)
  case Nil
  then show ?case by (auto simp: change_members_def)
next
  case (Cons w ls)
  from change_labs_member [OF Cons.prems, of E labs w] obtain e1 where
    1: "get_exam (change_member E i (with_labs (Some labs)) w S) i = Some e1" "exam_ok i e1"
    "\<forall>who. refs_of e1 who = refs_of e who \<and> (who = w \<or> labs_settled e who \<longrightarrow> labs_settled e1 who)" by blast
  from Cons.IH [OF 1(1,2)] 1(3) show ?case
    unfolding change_members_def by fastforce
qed

lemma persist_members_get [simp]: "get_exam (persist_members E i ws S) j = get_exam S j"
  by (induction ws arbitrary: S) simp_all

lemma get_resync [simp]: "get_exam (resync_exams E now ls S) i = get_exam S i"
  by (simp add: get_exam_def)

text \<open>Changing the labs of an exam, for everybody or for some students, loses no exam project:
  each project of each student stays recorded, under its lab or among those whose agents are still
  to be told; and the students concerned keep only projects of their labs.\<close>

theorem set_labs_keeps_projects:
  assumes "exams_ok S" "get_exam S i = Some e"
  shows "\<exists>e'. get_exam (snd (set_labs E i logins labs now later S)) i = Some e' \<and>
     (\<forall>who. refs_of e' who = refs_of e who) \<and>
     (\<forall>who. (case logins of None \<Rightarrow> True | Some ls \<Rightarrow> who \<in> set ls) \<longrightarrow> labs_settled e' who)"
proof (cases logins)
  case (Some ls)
  from change_labs_members [OF assms(2) exams_okD(1) [OF assms], of E labs ls] assms(2) Some show ?thesis
    by (auto simp: set_labs_def require_exam_def)
next
  case None
  have ok: "exam_ok i e" by (rule exams_okD(1) [OF assms])
  define e0 where "e0 = e\<lparr>ex_labs := labs, ex_updated_at := at_ms now\<rparr>"
  define e1 where "e1 = e0\<lparr>ex_members := map (\<lambda>(who, m). (who, with_labs None e0 m)) (ex_members e0)\<rparr>"
  have mem: "member_of e1 w = map_option (with_labs None e0) (member_of e w)" for w
    by (simp add: e1_def e0_def member_of_def map_of_map)
  have mok: "member_of e w = Some m \<Longrightarrow> member_ok w m" for w m using ok by (simp add: exam_ok_def)
  have "refs_of e1 who = refs_of e who" for who
    by (cases "member_of e who") (simp_all add: refs_of_def mem with_labs_result(1) [OF mok])
  moreover have "labs_settled e1 who" for who
  proof (cases "member_of e who")
    case None
    then show ?thesis by (simp add: labs_settled_def mem)
  next
    case (Some m)
    let ?m = "with_labs None e0 m"
    have "mb_labs ?m = None" by (simp add: with_labs_def orphan_projects_def orphans_frame)
    then have "lab_names e1 (Some who) = lab_names (put_member e0 who ?m) (Some who)"
      using mem [of who] Some by (simp add: lab_names_def labs_of_def member_of_def put_member_def)
        (simp add: e1_def)
    with Some mem [of who] with_labs_result(2) [OF mok [OF Some], of None e0] show ?thesis
      by (simp add: labs_settled_def)
  qed
  moreover have "ex_id e1 = i" using ok by (simp add: exam_ok_def e1_def e0_def)
  moreover have "get_exam (snd (set_labs E i logins labs now later S)) i =
      get_exam (put_exam e1 S) i"
    using None assms(2) by (simp add: set_labs_def require_exam_def Let_def e1_def e0_def del: get_put_exam)
  ultimately show ?thesis by simp
qed

lemma demo_H1_ok: "exams_ok demo_H1" "get_exam demo_H1 1 = Some (put_member demo_exam ''bob'' demo_bob)"
proof -
  have "good (exec_op all_up (OpObserve 1 ''bob'' [demo_project] 800 [] 800) demo_created)"
    by (rule exec_op_good) (use exec_op_good [OF empty_good [OF demo_empty_registry] demo_possible, of all_up]
      in \<open>simp_all add: demo_created_def op_possible_def\<close>)
  then show "exams_ok demo_H1" by (simp add: demo_run0 demo_run1 good_def del: exec_op.simps)
  show "get_exam demo_H1 1 = Some (put_member demo_exam ''bob'' demo_bob)" by (simp add: demo_H1_def get_exam_def)
qed

theorem set_labs_keeps_projects_witness:
  "\<exists>e'. get_exam (snd (set_labs all_up 1 None [\<lparr>el_lab = ''sre/nat.py'', el_flavor = None\<rparr>] 900 900 demo_H1)) 1 = Some e' \<and>
     refs_of e' ''bob'' = {#(''h'', ''r'')#} \<and> labs_settled e' ''bob''"
proof -
  have "refs_of (put_member demo_exam ''bob'' demo_bob) ''bob'' = {#(''h'', ''r'')#}"
    by (simp add: refs_of_def project_refs_def demo_bob_def new_member_def vals_of_def)
  with set_labs_keeps_projects [OF demo_H1_ok, of all_up None "[\<lparr>el_lab = ''sre/nat.py'', el_flavor = None\<rparr>]" 900 900]
  show ?thesis by auto
qed

section \<open>The start of a clock\<close>

text \<open>A row that shows a project of the student for a lab.\<close>

definition shows_lab :: "string \<Rightarrow> string \<Rightarrow> project_row \<Rightarrow> bool" where
  "shows_lab who lab r \<longleftrightarrow> normal_lab (rw_lab_name r) = lab \<and> rw_rln r \<noteq> None \<and> rw_host r \<noteq> None \<and>
     (\<forall>v. rw_owner r = Some v \<longrightarrow> v = JStr who)"

lemma observe_row_keys:
  "set (keys_of (mb_projects (fst (observe_row labs who mc r)))) =
     set (keys_of (mb_projects (fst mc))) \<union> {lab \<in> set labs. shows_lab who lab r}"
  by (cases "rw_rln r"; cases "rw_host r"; cases "rw_owner r")
    (auto simp: observe_row_def shows_lab_def record_project_def Let_def keys_of_dget split: option.splits if_splits)

lemma observe_rows_keys:
  "set (keys_of (mb_projects (fst (foldl (observe_row labs who) mc rows)))) =
     set (keys_of (mb_projects (fst mc))) \<union> {lab \<in> set labs. \<exists>r \<in> set rows. shows_lab who lab r}"
  by (induction rows arbitrary: mc) (auto simp: observe_row_keys)

definition record_of :: "exam \<Rightarrow> string \<Rightarrow> member" where
  "record_of e who = (case member_of e who of None \<Rightarrow> new_member who | Some m \<Rightarrow> m)"

lemma member_create_record: "fst (member_create e who) = record_of e who"
  by (rule member_create_cases [of e who]) (simp_all add: record_of_def)

lemma lab_names_create: "lab_names (snd (member_create e who)) (Some who) = lab_names e (Some who)"
  by (rule member_create_cases [of e who])
    (auto simp: lab_names_def labs_of_def member_of_def put_member_def new_member_def split: option.splits)

text \<open>The requests of a student and the listing of their running projects start their clock
  exactly when it has not started, the start of the exam has passed and each lab of theirs (one at
  least) has a project, recorded before or shown by a row that is theirs; the clock then starts at
  the time of the request, to the millisecond.\<close>

theorem observe_starts_clock:
  assumes "exams_ok S" "get_exam S i = Some e"
  shows "\<exists>e' m'. get_exam (snd (observe E i who rows now address later S)) i = Some e' \<and> member_of e' who = Some m' \<and>
    mb_started m' =
      (if mb_started (record_of e who) = None \<and> (\<forall>s. ex_start_after e = Some s \<longrightarrow> s \<le> at_ms now) \<and>
          lab_names e (Some who) \<noteq> [] \<and>
          (\<forall>lab \<in> set (lab_names e (Some who)).
             lab \<in> set (keys_of (mb_projects (record_of e who))) \<or> (\<exists>r \<in> set rows. shows_lab who lab r))
       then Some (at_ms now) else mb_started (record_of e who))"
proof -
  have ok: "exam_ok i e" by (rule exams_okD(1) [OF assms])
  obtain m e1 where mc: "member_create e who = (m, e1)" by fastforce
  have m: "m = record_of e who" and labs: "lab_names e1 (Some who) = lab_names e (Some who)"
    using member_create_record [of e who] lab_names_create [of e who] mc by simp_all
  have okm: "exam_ok i e1" "member_ok who m" using exam_ok_create [OF ok, of who] mc by simp_all
  have st: "ex_start_after (put_member e1 who x) = ex_start_after e" for x
    using mc by (rule_tac member_create_cases [of e who]) (auto simp: put_member_def)
  let ?m0 = "seen_at (at_ms now) address m"
  obtain m2 c2 where f: "foldl (observe_row (lab_names e1 (Some who)) who) (?m0, ?m0 \<noteq> m) rows = (m2, c2)" by fastforce
  note fr = observe_rows_frame [of "lab_names e1 (Some who)" who "(?m0, ?m0 \<noteq> m)" rows, unfolded f, simplified]
  have keys: "set (keys_of (mb_projects m2)) = set (keys_of (mb_projects m)) \<union>
      {lab \<in> set (lab_names e (Some who)). \<exists>r \<in> set rows. shows_lab who lab r}"
    using observe_rows_keys [of "lab_names e1 (Some who)" who "(?m0, ?m0 \<noteq> m)" rows] f by (simp add: labs)
  have names: "lab_names (put_member e1 who m2) (Some who) = lab_names e (Some who)"
  proof -
    have "member_of e1 who = Some m" using mc by (rule_tac member_create_cases [of e who]) auto
    then have "lab_names (put_member e1 who m2) (Some who) = lab_names e1 (Some who)"
      using fr by (simp add: lab_names_def labs_of_def put_member_def member_of_def split: option.split)
    then show ?thesis by (simp add: labs)
  qed
  have may: "may_start (put_member e1 who m2) (Some m2) (at_ms now) \<longleftrightarrow>
      mb_started m = None \<and> (\<forall>s. ex_start_after e = Some s \<longrightarrow> s \<le> at_ms now) \<and> lab_names e (Some who) \<noteq> [] \<and>
      (\<forall>lab \<in> set (lab_names e (Some who)). lab \<in> set (keys_of (mb_projects m)) \<or> (\<exists>r \<in> set rows. shows_lab who lab r))"
    using fr okm(2) by (auto simp: may_start_def st names keys member_ok_def Let_def split: option.splits)
  let ?m1 = "if may_start (put_member e1 who m2) (Some m2) (at_ms now) then m2\<lparr>mb_started := Some (at_ms now)\<rparr> else m2"
  obtain c where obs: "observed e1 who rows (at_ms now) address m = (?m1, c)"
    using f by (cases "may_start (put_member e1 who m2) (Some m2) (at_ms now)") (simp_all add: observed_def Let_def)
  have id: "ex_id (put_member e1 who ?m1) = i" using okm(1) by (simp add: exam_ok_def)
  have "get_exam (snd (observe E i who rows now address later S)) i = get_exam (put_exam (put_member e1 who ?m1) S) i"
    using assms(2) mc obs by (cases c) (simp_all add: observe_def Let_def del: get_put_exam)
  then have "get_exam (snd (observe E i who rows now address later S)) i = Some (put_member e1 who ?m1)"
    using id by simp
  moreover have "member_of (put_member e1 who ?m1) who = Some ?m1" by simp
  moreover have "mb_started ?m1 = (if may_start (put_member e1 who m2) (Some m2) (at_ms now)
      then Some (at_ms now) else mb_started m)"
    using fr by simp
  ultimately show ?thesis unfolding may m by blast
qed

theorem observe_starts_clock_witness:
  "\<exists>e' m'. get_exam (snd (observe all_up 1 ''bob'' [] 1200 [] 1200 demo_H1)) 1 = Some e' \<and> member_of e' ''bob'' = Some m' \<and>
     mb_started m' = Some 1200"
proof -
  let ?e = "put_member demo_exam ''bob'' demo_bob"
  have "record_of ?e ''bob'' = demo_bob" by (simp add: record_of_def)
  moreover have "lab_names ?e (Some ''bob'') = [''sre/dhcp.py'']" "ex_start_after ?e = Some 1000"
    by (simp_all add: lab_names_def labs_of_def put_member_def demo_exam_def demo_bob_def new_member_def)
  moreover have "mb_started demo_bob = None" "keys_of (mb_projects demo_bob) = [''sre/dhcp.py'']"
    by (simp_all add: demo_bob_def new_member_def keys_of_def)
  moreover have "at_ms 1200 = 1200" by (simp add: at_ms_def)
  ultimately show ?thesis
    using observe_starts_clock [OF demo_H1_ok, of all_up "''bob''" "[]" 1200 "[]" 1200] by simp
qed

end
