(* ===== verification/Exam_Projects.thy ===== *)
theory Exam_Projects
  imports Exam_Histories
begin

text \<open>
  The agents' side of the exams (\<open>src/sreweb/portal/examprojects.py\<close>): the exam object of every exam
  project kept in step with the portal, and the job that closes exam projects. The agents answer
  through \<open>net\<close>, the status of each call (\<open>None\<close>: the host is unknown or does not answer). A pass
  over a member is one transition; the close job is cut at its awaits. The log of the warnings is
  not kept; the calls are.
\<close>

definition RECONCILE_INTERVAL :: real where "RECONCILE_INTERVAL = 5"
definition RETRY_DELAY :: real where "RETRY_DELAY = 15"
definition CLOSE_CONCURRENCY :: nat where "CLOSE_CONCURRENCY = 8"
definition CLOSE_KEEP :: real where "CLOSE_KEEP = 300"

section \<open>The exam object\<close>

text \<open>\<open>datetime.fromtimestamp(ts).isoformat(timespec='seconds')\<close>: rounded to the microsecond, then
  cut to the second.\<close>

definition iso_utc :: "real \<Rightarrow> int" where
  "iso_utc ts = \<lfloor>of_int (py_round (ts * 1000000)) / (1000000 :: real)\<rfloor>"

record payload =
  pl_id :: int
  pl_title :: string
  pl_started :: "int option"
  pl_end :: "int option"
  pl_interval :: int
  pl_now :: int

definition exam_payload :: "exam \<Rightarrow> member option \<Rightarrow> real \<Rightarrow> payload" where
  "exam_payload e m now =
     \<lparr>pl_id = ex_id e, pl_title = ex_title e,
      pl_started = (case m of None \<Rightarrow> None | Some x \<Rightarrow> map_option iso_utc (mb_started x)),
      pl_end = map_option iso_utc (end_at e m), pl_interval = py_round (ex_eval_interval e), pl_now = iso_utc now\<rparr>"

definition wanted :: "exam \<Rightarrow> member \<Rightarrow> synced" where
  "wanted e m = (let p = exam_payload e (Some m) 0 in (pl_started p, pl_end p, pl_interval p, ex_title e))"

definition instructor_identity :: "exam \<Rightarrow> identity_error + identity" where
  "instructor_identity e =
     post_init \<lparr>login = (if is_valid_login (ex_created_by e) then ex_created_by e else ''sre-web''), fullname = [], email = [],
       role_of = Instructor, language = ''en'', anonymous = False, view_of = StudentView, group = [], administrator = False\<rparr>"

section \<open>The reconciliation\<close>

datatype agent_call = PutExam string string payload | DeleteExam string string | CloseProject string string

record exam_sync =
  es_last_pass :: real
  es_retry_at :: "((string \<times> string) \<times> real) list"
  es_calls :: "agent_call list"

type_synonym answers = "agent_call \<Rightarrow> nat option"

definition refused :: "nat option \<Rightarrow> bool" where
  "refused st \<longleftrightarrow> (case st of None \<Rightarrow> True | Some n \<Rightarrow> 500 \<le> n)"

definition call_agent :: "agent_call \<Rightarrow> exam_sync \<Rightarrow> exam_sync" where
  "call_agent c x = x\<lparr>es_calls := es_calls x @ [c]\<rparr>"

text \<open>One project of the loop: it is told when what it was told is not what is wanted, unless a failed
  call waits.\<close>

definition told_late :: "real \<Rightarrow> project_ref \<Rightarrow> exam_sync \<Rightarrow> bool" where
  "told_late now p x \<longleftrightarrow> (case dget (es_retry_at x) (pj_host p, pj_rln p) of None \<Rightarrow> 0 > now | Some tm \<Rightarrow> tm > now)"

definition sync_project :: "answers \<Rightarrow> payload \<Rightarrow> synced \<Rightarrow> real \<Rightarrow> string \<times> project_ref \<Rightarrow>
    exam_sync \<times> member \<times> bool \<Rightarrow> exam_sync \<times> member \<times> bool" where
  "sync_project net pl want now lp y =
     (case (lp, y) of ((lab, p), (x, m, changed)) \<Rightarrow>
        if pj_synced p = Some want \<or> told_late now p x then (x, m, changed)
        else (let c = PutExam (pj_host p) (pj_rln p) pl; x = call_agent c x
              in if refused (net c)
                 then (x\<lparr>es_retry_at := dset (es_retry_at x) (pj_host p, pj_rln p) (now + RETRY_DELAY)\<rparr>, m, changed)
                 else (x, m\<lparr>mb_projects := dset (mb_projects m) lab (p\<lparr>pj_synced := Some want\<rparr>)\<rparr>, True)))"

definition sync_orphan :: "answers \<Rightarrow> orphan \<Rightarrow> exam_sync \<times> member \<times> bool \<Rightarrow> exam_sync \<times> member \<times> bool" where
  "sync_orphan net r y =
     (case y of (x, m, changed) \<Rightarrow>
        (let c = DeleteExam (or_host r) (or_rln r); x = call_agent c x
         in if refused (net c) then (x, m, changed)
            else (x, m\<lparr>mb_orphans := remove1 r (mb_orphans m)\<rparr>, True)))"

definition synced_member :: "answers \<Rightarrow> exam \<Rightarrow> real \<Rightarrow> exam_sync \<Rightarrow> member \<Rightarrow> exam_sync \<times> member \<times> bool" where
  "synced_member net e now x m =
     fold (sync_orphan net) (mb_orphans m)
       (fold (sync_project net (exam_payload e (Some m) now) (wanted e m) now) (mb_projects m) (x, m, False))"

definition sync_member :: "env \<Rightarrow> answers \<Rightarrow> real \<Rightarrow> int \<Rightarrow> string \<Rightarrow> exam_sync \<times> exams \<Rightarrow> exam_sync \<times> exams" where
  "sync_member E net now i who y =
     (case get_exam (snd y) i of
        None \<Rightarrow> y
      | Some e \<Rightarrow>
          (case member_of e who of
             None \<Rightarrow> y
           | Some m \<Rightarrow>
               (case synced_member net e now (fst y) m of
                  (x, m', changed) \<Rightarrow>
                    (x, if changed then persist_member E i who (put_exam (put_member e who m') (snd y)) else snd y))))"

definition reconcile :: "env \<Rightarrow> answers \<Rightarrow> real \<Rightarrow> exam_sync \<times> exams \<Rightarrow> exam_sync \<times> exams" where
  "reconcile E net now y =
     (if now - es_last_pass (fst y) < RECONCILE_INTERVAL then y
      else fold (\<lambda>e y. fold (sync_member E net now (ex_id e)) (keys_of (ex_members e)) y) (listing (snd y))
             ((fst y)\<lparr>es_last_pass := now\<rparr>, snd y))"

text \<open>The projects of a deleted exam are told once, whatever the answers.\<close>

definition release_member :: "member \<Rightarrow> exam_sync \<Rightarrow> exam_sync" where
  "release_member m x =
     fold (\<lambda>r. call_agent (DeleteExam (or_host r) (or_rln r))) (mb_orphans m)
       (fold (\<lambda>p. call_agent (DeleteExam (pj_host p) (pj_rln p))) (vals_of (mb_projects m)) x)"

definition release_exam :: "exam \<Rightarrow> exam_sync \<Rightarrow> exam_sync" where
  "release_exam e x = fold release_member (vals_of (ex_members e)) x"

section \<open>The close job\<close>

type_synonym close_item = "string \<times> string \<times> project_ref"

record close_job =
  cj_exam :: int
  cj_total :: nat
  cj_started_at :: real
  cj_done :: nat
  cj_closed :: nat
  cj_failed :: nat
  cj_finished_at :: "real option"
  cj_waiting :: "close_item list"
  cj_flying :: "close_item list"
  cj_touched :: "string list"

definition job_running :: "close_job \<Rightarrow> bool" where
  "job_running j \<longleftrightarrow> cj_finished_at j = None"

type_synonym closings = "(int \<times> close_job) list"

definition close_items :: "exam \<Rightarrow> string list \<Rightarrow> close_item list" where
  "close_items e logins =
     concat (map (\<lambda>who. case member_of e who of None \<Rightarrow> [] | Some m \<Rightarrow> map (\<lambda>(lab, p). (who, lab, p)) (mb_projects m))
       (sort (remdups logins)))"

definition new_job :: "exam \<Rightarrow> string list \<Rightarrow> real \<Rightarrow> close_job" where
  "new_job e logins now =
     (let items = close_items e logins
      in \<lparr>cj_exam = ex_id e, cj_total = length items, cj_started_at = now, cj_done = 0, cj_closed = 0, cj_failed = 0,
          cj_finished_at = (if items = [] then Some now else None), cj_waiting = items, cj_flying = [], cj_touched = []\<rparr>)"

definition close_exam :: "exam \<Rightarrow> string list \<Rightarrow> real \<Rightarrow> closings \<Rightarrow> close_job \<times> closings" where
  "close_exam e logins now cs =
     (case dget cs (ex_id e) of
        Some j \<Rightarrow> if job_running j then (j, cs) else (new_job e logins now, dset cs (ex_id e) (new_job e logins now))
      | None \<Rightarrow> (new_job e logins now, dset cs (ex_id e) (new_job e logins now)))"

text \<open>\<open>_close_one\<close>: the semaphore lets a task go, the agent answers, or the call raises.\<close>

definition close_launch :: "close_job \<Rightarrow> close_job" where
  "close_launch j =
     (case cj_waiting j of
        [] \<Rightarrow> j
      | x # xs \<Rightarrow> if length (cj_flying j) < CLOSE_CONCURRENCY
                  then j\<lparr>cj_waiting := xs, cj_flying := cj_flying j @ [x]\<rparr> else j)"

definition project_closed :: "nat option \<Rightarrow> bool" where
  "project_closed st \<longleftrightarrow> (case st of None \<Rightarrow> False | Some n \<Rightarrow> n < 400 \<or> n = 404)"

definition forget_project :: "int \<Rightarrow> string \<Rightarrow> string \<Rightarrow> exams \<Rightarrow> exams" where
  "forget_project i who lab S =
     (case get_exam S i of
        None \<Rightarrow> S
      | Some e \<Rightarrow> (case member_of e who of
                      None \<Rightarrow> S
                    | Some m \<Rightarrow> put_exam (put_member e who (m\<lparr>mb_projects := dpop (mb_projects m) lab\<rparr>)) S))"

definition close_answer :: "close_item \<Rightarrow> nat option \<Rightarrow> close_job \<times> exams \<Rightarrow> close_job \<times> exams" where
  "close_answer item st y =
     (case (item, y) of ((who, lab, p), (j, S)) \<Rightarrow>
        if item \<notin> set (cj_flying j) then y
        else (let j = j\<lparr>cj_flying := remove1 item (cj_flying j), cj_done := Suc (cj_done j)\<rparr>
              in if project_closed st
                 then (j\<lparr>cj_closed := Suc (cj_closed j), cj_touched := ladd (cj_touched j) who\<rparr>,
                       forget_project (cj_exam j) who lab S)
                 else (j\<lparr>cj_failed := Suc (cj_failed j)\<rparr>, S)))"

definition close_raises :: "close_item \<Rightarrow> close_job \<Rightarrow> close_job" where
  "close_raises item j =
     (if item \<notin> set (cj_flying j) then j
      else j\<lparr>cj_flying := remove1 item (cj_flying j), cj_done := Suc (cj_done j)\<rparr>)"

definition close_finish :: "env \<Rightarrow> real \<Rightarrow> close_job \<times> exams \<Rightarrow> close_job \<times> exams" where
  "close_finish E now y =
     (case y of (j, S) \<Rightarrow>
        if cj_waiting j = [] \<and> cj_flying j = [] \<and> cj_finished_at j = None
        then (j\<lparr>cj_finished_at := Some now\<rparr>,
              if get_exam S (cj_exam j) = None then S else persist_members E (cj_exam j) (cj_touched j) S)
        else y)"

definition closing_of :: "exam \<Rightarrow> real \<Rightarrow> closings \<Rightarrow> close_job option \<times> closings" where
  "closing_of e now cs =
     (case dget cs (ex_id e) of
        None \<Rightarrow> (None, cs)
      | Some j \<Rightarrow> (case cj_finished_at j of
                      None \<Rightarrow> (Some j, cs)
                    | Some tm \<Rightarrow> if CLOSE_KEEP < now - tm then (None, dpop cs (ex_id e)) else (Some j, cs)))"

section \<open>The members table\<close>

text \<open>A row of the pool with its \<open>exam\<close> marker: the text of its identifier when it is an object.\<close>

record listed_row = project_row +
  rw_exam :: "string option"

fun digits_of :: "nat \<Rightarrow> string" where
  "digits_of n = (if n < 10 then [char_of (48 + n)] else digits_of (n div 10) @ [char_of (48 + n mod 10)])"

definition is_exam_row :: "exam \<Rightarrow> listed_row \<Rightarrow> bool" where
  "is_exam_row e r \<longleftrightarrow>
     (case rw_owner r of
        Some (JStr owner) \<Rightarrow>
          (case rw_exam r of
             Some marker \<Rightarrow> marker = [] \<or> marker = digits_of (nat (ex_id e))
           | None \<Rightarrow> True) \<and>
          normal_lab (rw_lab_name r) \<in> set (lab_names e (Some owner))
      | _ \<Rightarrow> False)"

definition add_row :: "exam \<Rightarrow> listed_row \<Rightarrow> (string \<times> listed_row list) list \<Rightarrow> (string \<times> listed_row list) list" where
  "add_row e r found =
     (case rw_owner r of
        Some (JStr owner) \<Rightarrow>
          if is_exam_row e r
          then dset found owner ((case dget found owner of None \<Rightarrow> [] | Some rs \<Rightarrow> rs) @ [r]) else found
      | _ \<Rightarrow> found)"

definition rows_of :: "exam \<Rightarrow> listed_row list \<Rightarrow> (string \<times> listed_row list) list" where
  "rows_of e rows = fold (add_row e) rows []"

end
