(* ===== verification/Exam_Sync.thy ===== *)
theory Exam_Sync
  imports Exam_Projects
begin

text \<open>
  The agents and the registry stay in step, and every close job ends.
\<close>

section \<open>What the agents hold\<close>

text \<open>A call an agent accepted changes the exam object of the project; the others change nothing.\<close>

definition accepted :: "nat option \<Rightarrow> bool" where
  "accepted st \<longleftrightarrow> (case st of None \<Rightarrow> False | Some n \<Rightarrow> n < 400)"

type_synonym agents = "string \<times> string \<Rightarrow> synced option"

definition agent_does :: "answers \<Rightarrow> agent_call \<Rightarrow> agents \<Rightarrow> agents" where
  "agent_does net c f =
     (if \<not> accepted (net c) then f
      else (case c of
          PutExam h r p \<Rightarrow> f((h, r) := Some (pl_started p, pl_end p, pl_interval p, pl_title p))
        | DeleteExam h r \<Rightarrow> f((h, r) := None)
        | CloseProject h r \<Rightarrow> f((h, r) := None)))"

definition pj_ref :: "project_ref \<Rightarrow> string \<times> string" where
  "pj_ref p = (pj_host p, pj_rln p)"

text \<open>The portal knows what each agent holds.\<close>

definition in_step :: "agents \<Rightarrow> member \<Rightarrow> bool" where
  "in_step f m \<longleftrightarrow> (\<forall>lab p w. dget (mb_projects m) lab = Some p \<longrightarrow> pj_synced p = Some w \<longrightarrow> f (pj_ref p) = Some w)"

definition refs_apart :: "member \<Rightarrow> bool" where
  "refs_apart m \<longleftrightarrow>
     (\<forall>lab lab' p p'. dget (mb_projects m) lab = Some p \<longrightarrow> dget (mb_projects m) lab' = Some p' \<longrightarrow> pj_ref p = pj_ref p' \<longrightarrow> lab = lab') \<and>
     (\<forall>lab p. dget (mb_projects m) lab = Some p \<longrightarrow> pj_ref p \<notin> (\<lambda>r. (or_host r, or_rln r)) ` set (mb_orphans m))"

definition same_refs :: "member \<Rightarrow> member \<Rightarrow> bool" where
  "same_refs m m' \<longleftrightarrow> dict_ok (mb_projects m') \<and>
     (\<forall>lab. map_option pj_ref (dget (mb_projects m') lab) = map_option pj_ref (dget (mb_projects m) lab)) \<and>
     m'\<lparr>mb_projects := [], mb_orphans := []\<rparr> = m\<lparr>mb_projects := [], mb_orphans := []\<rparr>"

text \<open>The state of a pass: the new calls, and what they made of the agents.\<close>

definition pass_ok :: "answers \<Rightarrow> agents \<Rightarrow> exam_sync \<Rightarrow> member \<Rightarrow> exam_sync \<times> member \<times> bool \<Rightarrow> bool" where
  "pass_ok net f x0 m0 y \<longleftrightarrow> (case y of (x, m, ch) \<Rightarrow>
     same_refs m0 m \<and> (\<exists>cs. es_calls x = es_calls x0 @ cs \<and> in_step (fold (agent_does net) cs f) m))"

lemma not_accepted: "refused st \<Longrightarrow> \<not> accepted st"
  by (simp add: refused_def accepted_def split: option.splits)

lemma in_step_other:
  assumes "in_step f m" "\<And>lab p. dget (mb_projects m) lab = Some p \<Longrightarrow> pj_ref p \<noteq> k"
  shows "in_step (f(k := v)) m"
  using assms by (auto simp: in_step_def)

lemma same_refs_dget:
  "same_refs m m' \<Longrightarrow> dget (mb_projects m') lab = Some p \<Longrightarrow> \<exists>q. dget (mb_projects m) lab = Some q \<and> pj_ref q = pj_ref p"
proof -
  assume "same_refs m m'" "dget (mb_projects m') lab = Some p"
  then have "map_option pj_ref (dget (mb_projects m) lab) = Some (pj_ref p)" by (metis same_refs_def option.simps(9))
  then show ?thesis by auto
qed

lemma pass_project:
  assumes ok: "pass_ok net f x0 m0 (x, m, ch)" and apart: "refs_apart m0"
    and lp: "dget (mb_projects m0) lab = Some p" and clean: "\<And>c. accepted (net c) \<or> refused (net c)"
    and pl: "want = (pl_started pl, pl_end pl, pl_interval pl, pl_title pl)"
  shows "pass_ok net f x0 m0 (sync_project net pl want now (lab, p) (x, m, ch))"
proof -
  obtain cs where same: "same_refs m0 m" and cs: "es_calls x = es_calls x0 @ cs" "in_step (fold (agent_does net) cs f) m"
    using ok by (auto simp: pass_ok_def)
  let ?c = "PutExam (pj_host p) (pj_rln p) pl"
  consider "pj_synced p = Some want \<or> told_late now p x"
    | "\<not> (pj_synced p = Some want \<or> told_late now p x)" "refused (net ?c)"
    | "\<not> (pj_synced p = Some want \<or> told_late now p x)" "\<not> refused (net ?c)" by blast
  then show ?thesis
  proof cases
    case 1
    then show ?thesis using ok by (auto simp: sync_project_def)
  next
    case 2
    then have "fold (agent_does net) (cs @ [?c]) f = fold (agent_does net) cs f" by (simp add: agent_does_def not_accepted)
    moreover have "es_calls (call_agent ?c x) = es_calls x0 @ cs @ [?c]" using cs by (simp add: call_agent_def)
    ultimately show ?thesis using 2 same cs(2) unfolding pass_ok_def sync_project_def Let_def
      by (auto simp: call_agent_def intro!: exI [of _ "cs @ [?c]"])
  next
    case 3
    then have acc: "accepted (net ?c)" using clean by blast
    let ?m = "m\<lparr>mb_projects := dset (mb_projects m) lab (p\<lparr>pj_synced := Some want\<rparr>)\<rparr>"
    let ?f = "(fold (agent_does net) cs f)(pj_ref p := Some want)"
    have f: "fold (agent_does net) (cs @ [?c]) f = ?f" using acc by (simp add: agent_does_def pj_ref_def pl)
    have ref: "pj_ref (p\<lparr>pj_synced := w\<rparr>) = pj_ref p" for w by (simp add: pj_ref_def)
    have sm: "same_refs m0 ?m" using same lp unfolding same_refs_def by (auto simp: ref)
    have "in_step ?f ?m" unfolding in_step_def
    proof (intro allI impI)
      fix lab' q w assume q: "dget (mb_projects ?m) lab' = Some q" "pj_synced q = Some w"
      show "?f (pj_ref q) = Some w"
      proof (cases "lab' = lab")
        case True
        then show ?thesis using q by (auto simp: ref)
      next
        case False
        then have dq: "dget (mb_projects m) lab' = Some q" using q(1) by simp
        obtain q0 where q0: "dget (mb_projects m0) lab' = Some q0" "pj_ref q0 = pj_ref q" using same_refs_dget [OF same dq] by blast
        then have "pj_ref q \<noteq> pj_ref p" using apart lp False unfolding refs_apart_def by metis
        moreover have "fold (agent_does net) cs f (pj_ref q) = Some w" using cs(2) dq q(2) unfolding in_step_def by blast
        ultimately show ?thesis by simp
      qed
    qed
    moreover have "es_calls (call_agent ?c x) = es_calls x0 @ cs @ [?c]" using cs by (simp add: call_agent_def)
    ultimately show ?thesis using 3 sm f unfolding pass_ok_def sync_project_def Let_def
      by (auto intro!: exI [of _ "cs @ [?c]"])
  qed
qed

lemma pass_projects:
  assumes "pass_ok net f x0 m0 y" "refs_apart m0" "\<And>lab p. (lab, p) \<in> set ps \<Longrightarrow> dget (mb_projects m0) lab = Some p"
    and "\<And>c. accepted (net c) \<or> refused (net c)" "want = (pl_started pl, pl_end pl, pl_interval pl, pl_title pl)"
  shows "pass_ok net f x0 m0 (fold (sync_project net pl want now) ps y)"
  using assms(1,3)
proof (induction ps arbitrary: y)
  case (Cons lp ps)
  obtain x m ch where y: "y = (x, m, ch)" by (cases y)
  obtain lab p where lp: "lp = (lab, p)" by (cases lp)
  have "pass_ok net f x0 m0 (sync_project net pl want now (lab, p) (x, m, ch))"
    using Cons.prems(1) assms(2) Cons.prems(2) [of lab p] assms(4,5) unfolding y lp by (intro pass_project) auto
  then show ?case using Cons.IH Cons.prems(2) by (simp add: y lp)
qed simp

lemma pass_orphan:
  assumes ok: "pass_ok net f x0 m0 (x, m, ch)" and apart: "refs_apart m0" and r: "r \<in> set (mb_orphans m0)"
  shows "pass_ok net f x0 m0 (sync_orphan net r (x, m, ch))"
proof -
  obtain cs where same: "same_refs m0 m" and cs: "es_calls x = es_calls x0 @ cs" "in_step (fold (agent_does net) cs f) m"
    using ok by (auto simp: pass_ok_def)
  let ?c = "DeleteExam (or_host r) (or_rln r)"
  have "pj_ref p \<noteq> (or_host r, or_rln r)" if dp: "dget (mb_projects m) lab = Some p" for lab p
  proof -
    obtain q where "dget (mb_projects m0) lab = Some q" "pj_ref q = pj_ref p" using same_refs_dget [OF same dp] by blast
    then show ?thesis using apart r unfolding refs_apart_def by force
  qed
  then have "in_step ((fold (agent_does net) cs f)((or_host r, or_rln r) := None)) m" using cs(2) by (intro in_step_other)
  then have step: "in_step (fold (agent_does net) (cs @ [?c]) f) m" using cs(2) by (simp add: agent_does_def)
  have calls: "es_calls (call_agent ?c x) = es_calls x0 @ cs @ [?c]" using cs by (simp add: call_agent_def)
  have "in_step g (m\<lparr>mb_orphans := os\<rparr>) = in_step g m" "same_refs m0 (m\<lparr>mb_orphans := os\<rparr>)" for g os
    using same by (auto simp: in_step_def same_refs_def)
  then show ?thesis using same step calls unfolding pass_ok_def sync_orphan_def Let_def
    by (auto intro!: exI [of _ "cs @ [?c]"])
qed

lemma pass_orphans:
  assumes "pass_ok net f x0 m0 y" "refs_apart m0" "set rs \<subseteq> set (mb_orphans m0)"
  shows "pass_ok net f x0 m0 (fold (sync_orphan net) rs y)"
  using assms(1,3)
proof (induction rs arbitrary: y)
  case (Cons r rs)
  obtain x m ch where y: "y = (x, m, ch)" by (cases y)
  show ?case using Cons.IH [OF pass_orphan [OF Cons.prems(1) [unfolded y] assms(2)]] Cons.prems(2) by (simp add: y)
qed simp

text \<open>Who is told: a project not told late and not refused ends with what is wanted.\<close>

lemma told_late_cong: "es_retry_at x' = es_retry_at x \<Longrightarrow> told_late now p x' = told_late now p x"
  by (simp add: told_late_def)

lemma sync_projects_told:
  assumes "\<And>c. \<not> refused (net c)" "\<And>lab p. (lab, p) \<in> set ps \<Longrightarrow> \<not> told_late now p x"
    and "distinct (map fst ps)" "\<And>lab p. (lab, p) \<in> set ps \<Longrightarrow> dget (mb_projects m) lab = Some p"
  shows "\<exists>x' m' ch'. fold (sync_project net pl want now) ps (x, m, ch) = (x', m', ch') \<and> mb_orphans m' = mb_orphans m \<and>
      (\<forall>lab. dget (mb_projects m') lab = (if lab \<in> fst ` set ps then map_option (\<lambda>p. p\<lparr>pj_synced := Some want\<rparr>) (dget (mb_projects m) lab)
         else dget (mb_projects m) lab))"
  using assms(2-4)
proof (induction ps arbitrary: x m ch)
  case (Cons lp ps)
  obtain lab p where lp: "lp = (lab, p)" by (cases lp)
  define m1 where "m1 = (if pj_synced p = Some want then m
    else m\<lparr>mb_projects := dset (mb_projects m) lab (p\<lparr>pj_synced := Some want\<rparr>)\<rparr>)"
  have "\<not> told_late now p x" using Cons.prems(1) [of lab p] lp by simp
  then have "\<exists>x1 ch1. sync_project net pl want now lp (x, m, ch) = (x1, m1, ch1) \<and> es_retry_at x1 = es_retry_at x"
    using assms(1) by (cases "pj_synced p = Some want") (auto simp: lp m1_def sync_project_def call_agent_def Let_def)
  then obtain x1 ch1 where x1: "sync_project net pl want now lp (x, m, ch) = (x1, m1, ch1)" "es_retry_at x1 = es_retry_at x" by blast
  have dp: "dget (mb_projects m) lab = Some p" using Cons.prems(3) lp by simp
  have eq: "p\<lparr>pj_synced := Some want\<rparr> = p" if "pj_synced p = Some want" using that by simp
  have d1: "dget (mb_projects m1) l = (if l = lab then Some (p\<lparr>pj_synced := Some want\<rparr>) else dget (mb_projects m) l)" for l
    using dp eq by (simp add: m1_def)
  have o1: "mb_orphans m1 = mb_orphans m" by (simp add: m1_def)
  have fresh: "lab \<notin> fst ` set ps" using Cons.prems(2) lp by simp
  have rest: "dget (mb_projects m1) l = Some q" if "(l, q) \<in> set ps" for l q
    using that fresh Cons.prems(3) [of l q] d1 by (force simp: image_iff)
  have late: "\<not> told_late now q x1" if "(l, q) \<in> set ps" for l q
    using that Cons.prems(1) [of l q] told_late_cong [OF x1(2)] by simp
  have dist: "distinct (map fst ps)" using Cons.prems(2) by simp
  have "\<exists>x' m' ch'. fold (sync_project net pl want now) ps (x1, m1, ch1) = (x', m', ch') \<and> mb_orphans m' = mb_orphans m1 \<and>
    (\<forall>l. dget (mb_projects m') l = (if l \<in> fst ` set ps then map_option (\<lambda>p. p\<lparr>pj_synced := Some want\<rparr>) (dget (mb_projects m1) l)
         else dget (mb_projects m1) l))"
    by (rule Cons.IH) (erule late, fact dist, erule rest)
  then obtain x' m' ch' where r: "fold (sync_project net pl want now) ps (x1, m1, ch1) = (x', m', ch')" "mb_orphans m' = mb_orphans m1"
    "\<forall>l. dget (mb_projects m') l = (if l \<in> fst ` set ps then map_option (\<lambda>p. p\<lparr>pj_synced := Some want\<rparr>) (dget (mb_projects m1) l)
         else dget (mb_projects m1) l)"
    by blast
  have "fold (sync_project net pl want now) (lp # ps) (x, m, ch) = (x', m', ch')" using r(1) x1(1) by simp
  moreover have "\<forall>l. dget (mb_projects m') l = (if l \<in> fst ` set (lp # ps)
      then map_option (\<lambda>p. p\<lparr>pj_synced := Some want\<rparr>) (dget (mb_projects m) l) else dget (mb_projects m) l)"
    using r(3) d1 fresh dp by (simp add: lp)
  ultimately show ?case using r(2) o1 by auto
qed simp

lemma sync_orphans_told:
  assumes "\<And>c. \<not> refused (net c)"
  shows "\<exists>x' ch'. fold (sync_orphan net) rs (x, m, ch) = (x', m\<lparr>mb_orphans := foldl (\<lambda>os r. remove1 r os) (mb_orphans m) rs\<rparr>, ch')"
proof (induction rs arbitrary: x m ch)
  case (Cons r rs)
  have "sync_orphan net r (x, m, ch) = (call_agent (DeleteExam (or_host r) (or_rln r)) x, m\<lparr>mb_orphans := remove1 r (mb_orphans m)\<rparr>, True)"
    using assms by (simp add: sync_orphan_def Let_def)
  then show ?case using Cons.IH [of "call_agent (DeleteExam (or_host r) (or_rln r)) x" "m\<lparr>mb_orphans := remove1 r (mb_orphans m)\<rparr>" True]
    by simp
qed simp

lemma remove_all: "foldl (\<lambda>os r. remove1 r os) rs rs = []"
  by (induction rs) simp_all


definition demo_sync :: exam_sync where
  "demo_sync = \<lparr>es_last_pass = 0, es_retry_at = [], es_calls = []\<rparr>"

definition demo_sat :: member where
  "demo_sat = demo_bob\<lparr>mb_started := Some 1000\<rparr>"


text \<open>What the proviso excludes happens: when a lab is taken from a student and given back before
  the agent was told (or while its host is silent), the observation records the same running
  project again and leaves it among the released ones; the next pass sets the exam object and then
  removes it, and records the project as told, so the project runs on without an exam, for good.\<close>

theorem orphan_undoes:
  "let m = record_project (orphan1 demo_sat ''sre/dhcp.py'') ''sre/dhcp.py'' ''h'' ''r'';
       (x, m', ch) = synced_member (\<lambda>c. Some 200) demo_exam 1000 demo_sync m;
       (y, m'', ch') = synced_member (\<lambda>c. Some 200) demo_exam 1005 (x\<lparr>es_calls := []\<rparr>) m'
   in map_option pj_synced (dget (mb_projects m') ''sre/dhcp.py'') = Some (Some (wanted demo_exam m)) \<and>
      fold (agent_does (\<lambda>c. Some 200)) (es_calls x) (\<lambda>k. None) (''h'', ''r'') = None \<and> es_calls y = []"
  by (simp add: record_project_def orphan1_def demo_sat_def demo_bob_def new_member_def synced_member_def sync_project_def
      sync_orphan_def told_late_def demo_sync_def refused_def call_agent_def agent_does_def accepted_def Let_def)
    (simp add: wanted_def exam_payload_def end_at_def demo_exam_def)

section \<open>The registry\<close>

lemma synced_member_frame:
  assumes "synced_member net e now x m = (x', m', ch)"
  shows "mb_login m' = mb_login m \<and> mb_started m' = mb_started m \<and> (dict_ok (mb_projects m) \<longrightarrow> dict_ok (mb_projects m'))"
proof -
  define K where "K y \<longleftrightarrow> (case y of (x1, m1, ch1) \<Rightarrow>
    mb_login m1 = mb_login m \<and> mb_started m1 = mb_started m \<and> (dict_ok (mb_projects m) \<longrightarrow> dict_ok (mb_projects m1)))"
    for y :: "exam_sync \<times> member \<times> bool"
  have 1: "K y \<Longrightarrow> K (sync_project net pl want now lp y)" for pl want lp y
    by (cases lp; cases y) (auto simp: K_def sync_project_def Let_def)
  have 2: "K y \<Longrightarrow> K (sync_orphan net r y)" for r y by (cases y) (auto simp: K_def sync_orphan_def Let_def)
  have 3: "K y \<Longrightarrow> K (fold (sync_project net pl want now) ps y)" for pl want ps y by (induction ps arbitrary: y) (simp_all add: 1)
  have 4: "K y \<Longrightarrow> K (fold (sync_orphan net) rs y)" for rs y by (induction rs arbitrary: y) (simp_all add: 2)
  have "K (x', m', ch)" unfolding assms [symmetric] synced_member_def by (intro 3 4) (simp add: K_def)
  then show ?thesis by (simp add: K_def)
qed

lemma safe_sync_member: "safe (snd y) (snd (sync_member E net now i who y))"
proof (cases "get_exam (snd y) i")
  case (Some e)
  show ?thesis
  proof (cases "member_of e who")
    case (Some m)
    obtain x m' ch where r: "synced_member net e now (fst y) m = (x, m', ch)" by (metis prod_cases3)
    have mc: "member_create e who = (m, e)" using Some by (simp add: member_create_def member_of_def)
    have "safe (snd y) (persist_member E i who (put_exam (put_member e who m') (snd y)))"
      using \<open>get_exam (snd y) i = Some e\<close> mc by (rule safe_created_member)
        (use synced_member_frame [OF r] in \<open>auto simp: member_ok_def\<close>)
    then show ?thesis using Some \<open>get_exam (snd y) i = Some e\<close> r by (simp add: sync_member_def)
  qed (simp add: sync_member_def Some)
qed (simp add: sync_member_def)

lemma safe_fold_snd:
  assumes "\<And>a y. safe (snd y) (snd (f a y))"
  shows "safe (snd y) (snd (fold f as y))"
proof (induction as arbitrary: y)
  case (Cons a as)
  show ?case using safe_trans [OF assms Cons.IH [of "f a y"]] by simp
qed simp

lemma safe_pass:
  "safe (snd z) (snd (fold (\<lambda>e. fold (sync_member E net now (ex_id e)) (keys_of (ex_members e))) es z))"
  by (intro safe_fold_snd safe_sync_member)

lemma safe_reconcile: "safe (snd y) (snd (reconcile E net now y))"
  using safe_pass [of "((fst y)\<lparr>es_last_pass := now\<rparr>, snd y)" E net now "listing (snd y)"] by (simp add: reconcile_def)

text \<open>Telling the agents never harms the registry: whatever the agents and the database answer, a pass
  over the exam projects keeps the tables consistent and the rows what the memory holds (but for
  the writes still owed), loses no student and moves no clock that runs.\<close>

theorem reconcile_keeps:
  assumes "exams_ok S" "coherent S"
  shows "exams_ok (snd (reconcile E net now (x, S))) \<and> coherent (snd (reconcile E net now (x, S))) \<and>
    clocks_kept S (snd (reconcile E net now (x, S)))"
  using safe_reconcile [of "(x, S)" E net now] assms by (simp add: safe_def good_def)

theorem reconcile_keeps_witness: "coherent (snd (reconcile all_up (\<lambda>c. None) 1000 (demo_sync, demo_created)))"
  using reconcile_keeps [of demo_created all_up "\<lambda>c. None" 1000 demo_sync]
    exams_machine.reach_inv [OF demo_empty_registry demo_created_step] by (simp add: good_def)

section \<open>The close job\<close>

inductive close_step :: "env \<Rightarrow> close_job \<times> exams \<Rightarrow> close_job \<times> exams \<Rightarrow> bool" for E :: env where
  launch: "cj_waiting j \<noteq> [] \<Longrightarrow> length (cj_flying j) < CLOSE_CONCURRENCY \<Longrightarrow> close_step E (j, S) (close_launch j, S)"
| answer: "item \<in> set (cj_flying j) \<Longrightarrow> close_step E (j, S) (close_answer item st (j, S))"
| raises: "item \<in> set (cj_flying j) \<Longrightarrow> close_step E (j, S) (close_raises item j, S)"
| finish: "cj_waiting j = [] \<Longrightarrow> cj_flying j = [] \<Longrightarrow> job_running j \<Longrightarrow> close_step E (j, S) (close_finish E now (j, S))"

inductive_cases close_stepE: "close_step E x y"

definition job_ok :: "close_job \<Rightarrow> bool" where
  "job_ok j \<longleftrightarrow> cj_done j + length (cj_waiting j) + length (cj_flying j) = cj_total j \<and> cj_closed j + cj_failed j \<le> cj_done j \<and>
     length (cj_flying j) \<le> CLOSE_CONCURRENCY \<and> (\<not> job_running j \<longrightarrow> cj_waiting j = [] \<and> cj_flying j = [])"

definition job_left :: "close_job \<Rightarrow> nat" where
  "job_left j = 2 * length (cj_waiting j) + length (cj_flying j) + (if job_running j then 1 else 0)"

lemmas job_defs = job_ok_def job_left_def job_running_def

lemma new_job_ok: "job_ok (new_job e logins now)"
  by (simp add: job_defs new_job_def Let_def)

lemma answer_fst:
  "item \<in> set (cj_flying j) \<Longrightarrow> \<exists>a b t. fst (close_answer item st (j, S)) =
     j\<lparr>cj_flying := remove1 item (cj_flying j), cj_done := Suc (cj_done j), cj_closed := a, cj_failed := b, cj_touched := t\<rparr> \<and>
     a + b = Suc (cj_closed j + cj_failed j)"
  by (cases item; cases j) (auto simp: close_answer_def Let_def)

lemma job_step:
  assumes "close_step E (j, S) (j', S')" "job_ok j"
  shows "job_ok j' \<and> job_left j' < job_left j \<and> cj_total j' = cj_total j"
  using assms(1)
proof (cases rule: close_step.cases)
  case launch
  then show ?thesis using assms(2) by (cases "cj_waiting j") (auto simp: job_defs close_launch_def)
next
  case (answer item st)
  obtain a b t where j': "j' = j\<lparr>cj_flying := remove1 item (cj_flying j), cj_done := Suc (cj_done j), cj_closed := a, cj_failed := b,
      cj_touched := t\<rparr>" "a + b = Suc (cj_closed j + cj_failed j)"
    using answer_fst [OF answer(2), of st S] answer(1) by (metis fst_conv)
  obtain n where "length (cj_flying j) = Suc n" using answer(2) by (cases "cj_flying j") auto
  then show ?thesis using assms(2) j'(2) answer(2) unfolding j'(1) by (auto simp: job_defs length_remove1)
next
  case (raises item)
  obtain n where "length (cj_flying j) = Suc n" using raises(3) by (cases "cj_flying j") auto
  then show ?thesis using assms(2) raises by (auto simp: job_defs close_raises_def length_remove1)
next
  case (finish now)
  then show ?thesis using assms(2) by (auto simp: job_defs close_finish_def)
qed

lemma job_steps:
  "(close_step E ^^ n) (j, S) (j', S') \<Longrightarrow> job_ok j \<Longrightarrow> job_ok j' \<and> job_left j' + n \<le> job_left j \<and> cj_total j' = cj_total j"
proof (induction n arbitrary: j' S')
  case (Suc n)
  obtain j1 S1 where 1: "(close_step E ^^ n) (j, S) (j1, S1)" "close_step E (j1, S1) (j', S')" using Suc.prems(1) by auto
  have "job_ok j1 \<and> job_left j1 + n \<le> job_left j \<and> cj_total j1 = cj_total j" by (rule Suc.IH [OF 1(1) Suc.prems(2)])
  then show ?case using job_step [OF 1(2)] by auto
qed simp



end
