(* ===== verification/Pool.thy ===== *)
theory Pool
  imports Identity
begin

text \<open>
  The pool of hosts (\<open>src/sreweb/portal/pool.py\<close>): the status an agent reports, the state of a
  host, the placement of a new project with its reservations, the poll of an agent, and the
  membership changed by hand with the state file. Times are those of \<open>time.monotonic\<close>, real
  numbers. A \<open>Reservation\<close> is an object shared by the pool and the request that starts the project:
  it is named by a number here. What the agents answer is data (\<open>poll\<close>).
\<close>

datatype host_state = STATE_OFF | STATE_WAKING | STATE_UP | STATE_OCCUPIED | STATE_EXAM | STATE_DRAINING
  | STATE_DISABLED

datatype host_source = SOURCE_CONFIG | SOURCE_ADDED

datatype placement = PLACEMENT_LOAD | PLACEMENT_SESSION | PLACEMENT_NAMED

record host =
  ho_name :: string
  ho_url :: string
  ho_token :: string
  ho_max_projects :: int
  ho_mac :: string
  ho_wake_command :: string
  ho_power :: bool
  ho_enabled :: bool
  ho_instructors_only :: bool

definition can_wake :: "host \<Rightarrow> bool" where
  "can_wake h \<longleftrightarrow> ho_mac h \<noteq> [] \<or> ho_wake_command h \<noteq> []"

record reservation =
  rv_id :: nat
  rv_released_at :: "real option"
  rv_placement :: placement

record host_status =
  hs_reachable :: bool
  hs_projects :: int
  hs_managed_projects :: int
  hs_local_projects :: int
  hs_terminals :: int
  hs_load1 :: "real option"
  hs_exam_mode :: bool
  hs_occupied :: bool
  hs_occupied_by :: "string list"
  hs_uptime :: "int option"
  hs_power_off_allowed :: bool
  hs_agent_uptime :: "int option"
  hs_restart_allowed :: bool
  hs_restarting :: bool
  hs_hostname :: string
  hs_sre_version :: string
  hs_error :: string

definition down_status :: "string \<Rightarrow> host_status" where
  "down_status err = \<lparr>hs_reachable = False, hs_projects = 0, hs_managed_projects = 0, hs_local_projects = 0,
     hs_terminals = 0, hs_load1 = None, hs_exam_mode = False, hs_occupied = False, hs_occupied_by = [],
     hs_uptime = None, hs_power_off_allowed = False, hs_agent_uptime = None, hs_restart_allowed = False,
     hs_restarting = False, hs_hostname = [], hs_sre_version = [], hs_error = err\<rparr>"

record runtime =
  rt_source :: host_source
  rt_enabled :: bool
  rt_woken_at :: "real option"
  rt_wake_failures :: nat
  rt_next_wake_at :: real
  rt_idle_since :: "real option"
  rt_drain :: bool
  rt_power_off_sent :: "real option"
  rt_restart_sent :: "real option"
  rt_wake_reason :: string

definition new_runtime :: "host_source \<Rightarrow> bool \<Rightarrow> runtime" where
  "new_runtime src enabled = \<lparr>rt_source = src, rt_enabled = enabled, rt_woken_at = None, rt_wake_failures = 0,
     rt_next_wake_at = 0, rt_idle_since = None, rt_drain = False, rt_power_off_sent = None, rt_restart_sent = None,
     rt_wake_reason = []\<rparr>"

record pool =
  po_hosts :: "(string \<times> host) list"
  po_status :: "(string \<times> host_status) list"
  po_runtime :: "(string \<times> runtime) list"
  po_reservations :: "(string \<times> reservation list) list"
  po_reported :: "(string \<times> bool) list"
  po_config :: "(string \<times> host) list"
  po_removed :: "string list"
  po_next_rv :: nat
  po_has_file :: bool
  po_file :: "json option"
  po_wake_timeout :: real
  po_restart_hold :: real
  po_follow :: bool

section \<open>The status of an agent\<close>

definition MAX_STATUS_TEXT :: nat where "MAX_STATUS_TEXT = 200"
definition MAX_OCCUPIED_BY :: nat where "MAX_OCCUPIED_BY = 100"

datatype status_error = OverflowError

text \<open>\<open>float(n)\<close> of an integer raises \<open>OverflowError\<close> from this size on (where the nearest double
  would be \<open>2\<^sup>1\<^sup>0\<^sup>2\<^sup>4\<close>).\<close>

definition float_limit :: int where "float_limit = 2 ^ 1024 - 2 ^ 970"

text \<open>\<open>_number\<close>\<close>

definition status_number :: "json option \<Rightarrow> status_error + real option" where
  "status_number v =
     (case v of
        Some (JInt n) \<Rightarrow> if float_limit \<le> \<bar>n\<bar> then Inl OverflowError else Inr (Some (of_int n))
      | Some (JFloat (Fin x)) \<Rightarrow> Inr (Some x)
      | _ \<Rightarrow> Inr None)"

text \<open>\<open>int(x)\<close> of a float.\<close>

definition py_int :: "real \<Rightarrow> int" where
  "py_int x = (if 0 \<le> x then \<lfloor>x\<rfloor> else \<lceil>x\<rceil>)"

definition status_count :: "json option \<Rightarrow> status_error + int" where
  "status_count v = ebind (status_number v) (\<lambda>n. Inr (case n of None \<Rightarrow> 0 | Some x \<Rightarrow> max 0 (py_int x)))"

definition status_seconds :: "json option \<Rightarrow> status_error + int option" where
  "status_seconds v = ebind (status_number v) (\<lambda>n. Inr (map_option (\<lambda>x. max 0 (py_int x)) n))"

definition status_text :: "json option \<Rightarrow> string" where
  "status_text v = (case v of Some (JStr s) \<Rightarrow> take MAX_STATUS_TEXT s | _ \<Rightarrow> [])"

definition is_true :: "json option \<Rightarrow> bool" where
  "is_true v \<longleftrightarrow> v = Some (JBool True)"

fun json_texts :: "json list \<Rightarrow> string list" where
  "json_texts [] = []"
| "json_texts (JStr s # xs) = s # json_texts xs"
| "json_texts (_ # xs) = json_texts xs"

definition status_occupied_by :: "json option \<Rightarrow> string list" where
  "status_occupied_by v =
     (case v of Some (JList xs) \<Rightarrow> take MAX_OCCUPIED_BY (map (take MAX_STATUS_TEXT) (json_texts xs)) | _ \<Rightarrow> [])"

definition status_from_json :: "json \<Rightarrow> int \<Rightarrow> status_error + host_status" where
  "status_from_json data extra =
     (case data of
        JObj d \<Rightarrow>
          ebind (status_count (dget d ''projects'')) (\<lambda>projects.
          ebind (status_count (dget d ''managed_projects'')) (\<lambda>managed.
          ebind (status_count (dget d ''local_projects'')) (\<lambda>local_projects.
          ebind (status_count (dget d ''terminals'')) (\<lambda>terminals.
          ebind (status_number (dget d ''load1'')) (\<lambda>load1.
          ebind (status_seconds (dget d ''uptime'')) (\<lambda>uptime.
          ebind (status_seconds (dget d ''agent_uptime'')) (\<lambda>agent_uptime.
            Inr \<lparr>hs_reachable = True, hs_projects = projects + extra, hs_managed_projects = managed,
              hs_local_projects = local_projects, hs_terminals = terminals, hs_load1 = load1,
              hs_exam_mode = is_true (dget d ''exam_mode''), hs_occupied = is_true (dget d ''occupied''),
              hs_occupied_by = status_occupied_by (dget d ''occupied_by''), hs_uptime = uptime,
              hs_power_off_allowed = is_true (dget d ''power_off_allowed''), hs_agent_uptime = agent_uptime,
              hs_restart_allowed = is_true (dget d ''restart_allowed''), hs_restarting = is_true (dget d ''restarting''),
              hs_hostname = status_text (dget d ''hostname''), hs_sre_version = status_text (dget d ''sre_version''),
              hs_error = []\<rparr>)))))))
      | _ \<Rightarrow> Inr (down_status ''status: not a JSON object''))"

section \<open>The state of a host\<close>

definition host_state_of :: "real \<Rightarrow> real \<Rightarrow> host_status \<Rightarrow> runtime \<Rightarrow> host_state" where
  "host_state_of wake_timeout now st rt =
     (if \<not> rt_enabled rt then STATE_DISABLED
      else if \<not> hs_reachable st then
        (case rt_woken_at rt of
           Some w \<Rightarrow> if now - w < wake_timeout then STATE_WAKING else STATE_OFF
         | None \<Rightarrow> STATE_OFF)
      else if hs_exam_mode st then STATE_EXAM
      else if hs_occupied st then STATE_OCCUPIED
      else if rt_drain rt then STATE_DRAINING
      else STATE_UP)"

text \<open>The tables of the pool have the same keys; a missing entry (a \<open>KeyError\<close>) is a state of its
  own that \<open>pool_ok\<close> excludes.\<close>

definition status_of :: "pool \<Rightarrow> string \<Rightarrow> host_status" where
  "status_of P n = (case dget (po_status P) n of None \<Rightarrow> down_status [] | Some st \<Rightarrow> st)"

definition runtime_of :: "pool \<Rightarrow> string \<Rightarrow> runtime" where
  "runtime_of P n = (case dget (po_runtime P) n of None \<Rightarrow> new_runtime SOURCE_CONFIG False | Some rt \<Rightarrow> rt)"

definition state_of :: "pool \<Rightarrow> real \<Rightarrow> string \<Rightarrow> host_state" where
  "state_of P now n = host_state_of (po_wake_timeout P) now (status_of P n) (runtime_of P n)"

section \<open>The placement of a project\<close>

datatype pool_error = PoolError nat string "nat option"

definition find_host :: "pool \<Rightarrow> string \<Rightarrow> pool_error + host" where
  "find_host P n = (case dget (po_hosts P) n of None \<Rightarrow> Inl (PoolError 404 ''unknown host'' None) | Some h \<Rightarrow> Inr h)"

definition SESSION_PREFIX :: string where "SESSION_PREFIX = ''session:''"

definition available_to :: "pool \<Rightarrow> host \<Rightarrow> identity option \<Rightarrow> host_state \<Rightarrow> placement option" where
  "available_to P h i state =
     (if rt_restart_sent (runtime_of P (ho_name h)) \<noteq> None then None
      else if state = STATE_UP then Some PLACEMENT_LOAD
      else if state = STATE_OCCUPIED \<and> po_follow P \<and> \<not> rt_drain (runtime_of P (ho_name h)) \<and>
          (case i of None \<Rightarrow> False
             | Some who \<Rightarrow> SESSION_PREFIX @ login who \<in> set (hs_occupied_by (status_of P (ho_name h))))
      then Some PLACEMENT_SESSION
      else None)"

definition reserve :: "host \<Rightarrow> placement \<Rightarrow> pool \<Rightarrow> (host \<times> reservation) \<times> pool" where
  "reserve h pl P =
     (let st = status_of P (ho_name h);
          rv = \<lparr>rv_id = po_next_rv P, rv_released_at = None, rv_placement = pl\<rparr>;
          held = (case dget (po_reservations P) (ho_name h) of None \<Rightarrow> [] | Some rs \<Rightarrow> rs)
      in ((h, rv), P\<lparr>po_status := dset (po_status P) (ho_name h) (st\<lparr>hs_projects := hs_projects st + 1\<rparr>),
                     po_reservations := dset (po_reservations P) (ho_name h) (held @ [rv]),
                     po_next_rv := Suc (po_next_rv P)\<rparr>))"

definition release :: "nat \<Rightarrow> real \<Rightarrow> pool \<Rightarrow> pool" where
  "release i now P = P\<lparr>po_reservations :=
     map (\<lambda>(n, rs). (n, map (\<lambda>r. if rv_id r = i then r\<lparr>rv_released_at := Some now\<rparr> else r) rs)) (po_reservations P)\<rparr>"

text \<open>A candidate: its sort key and the host with the placement it would have.\<close>

type_synonym candidate = "(bool \<times> real \<times> real \<times> string) \<times> host \<times> placement"

definition candidate_of :: "pool \<Rightarrow> identity option \<Rightarrow> real \<Rightarrow> host \<Rightarrow> candidate option" where
  "candidate_of P i now h =
     (let st = status_of P (ho_name h) in
      case available_to P h i (state_of P now (ho_name h)) of
        None \<Rightarrow> None
      | Some pl \<Rightarrow>
          if ho_max_projects h \<le> hs_projects st then None
          else Some ((pl \<noteq> PLACEMENT_SESSION, of_int (hs_projects st) / of_int (ho_max_projects h),
                      (case hs_load1 st of None \<Rightarrow> 0 | Some x \<Rightarrow> x), ho_name h), h, pl))"

definition may_use :: "identity option \<Rightarrow> host \<Rightarrow> bool" where
  "may_use i h \<longleftrightarrow> (ho_instructors_only h \<longrightarrow> (case i of None \<Rightarrow> False | Some who \<Rightarrow> is_instructor who))"

definition candidates :: "pool \<Rightarrow> identity option \<Rightarrow> real \<Rightarrow> candidate list" where
  "candidates P i now = List.map_filter (candidate_of P i now) (filter (may_use i) (vals_of (po_hosts P)))"

definition starting_soon :: "pool \<Rightarrow> identity option \<Rightarrow> real \<Rightarrow> bool" where
  "starting_soon P i now \<longleftrightarrow> list_ex (\<lambda>h. state_of P now (ho_name h) = STATE_WAKING \<or>
     rt_restart_sent (runtime_of P (ho_name h)) \<noteq> None) (filter (may_use i) (vals_of (po_hosts P)))"

definition pick_named :: "string \<Rightarrow> identity option \<Rightarrow> real \<Rightarrow> pool \<Rightarrow>
    (pool_error + (host \<times> reservation)) \<times> pool" where
  "pick_named n i now P =
     (case find_host P n of
        Inl e \<Rightarrow> (Inl e, P)
      | Inr h \<Rightarrow>
          if \<not> may_use i h then (Inl (PoolError 403 ''instructors only'' None), P)
          else if available_to P h i (state_of P now n) = None
          then (Inl (PoolError 503 ''the host is not available'' (Some 60)), P)
          else if ho_max_projects h \<le> hs_projects (status_of P n)
          then (Inl (PoolError 503 ''the host is full'' (Some 60)), P)
          else (case reserve h PLACEMENT_NAMED P of (r, Q) \<Rightarrow> (Inr r, Q)))"

definition pick :: "identity option \<Rightarrow> string option \<Rightarrow> real \<Rightarrow> pool \<Rightarrow>
    (pool_error + (host \<times> reservation)) \<times> pool" where
  "pick i named now P =
     (case named of
        Some n \<Rightarrow> pick_named n i now P
      | None \<Rightarrow>
          (case sort_key fst (candidates P i now) of
             [] \<Rightarrow> (if starting_soon P i now
                    then (Inl (PoolError 503 ''a host is starting, please retry in a moment'' (Some 30)), P)
                    else (Inl (PoolError 503 ''no host available for a new project'' (Some 60)), P))
           | (k, h, pl) # rest \<Rightarrow> (case reserve h pl P of (r, Q) \<Rightarrow> (Inr r, Q))))"

section \<open>The poll of an agent\<close>

text \<open>What \<open>GET /v1/status\<close> gave: an answer that is not 200, a body, or a failure of the call (no
  connection, a time out, a body that is not JSON).\<close>

datatype poll = PollStatus string | PollJson json | PollFailed string

text \<open>\<open>_consume\<close>: the reservations released before the request was sent are forgotten.\<close>

definition kept_rv :: "real \<Rightarrow> reservation \<Rightarrow> bool" where
  "kept_rv polled_at r \<longleftrightarrow> (case rv_released_at r of None \<Rightarrow> True | Some t \<Rightarrow> polled_at < t)"

definition held_rvs :: "pool \<Rightarrow> string \<Rightarrow> reservation list" where
  "held_rvs P n = (case dget (po_reservations P) n of None \<Rightarrow> [] | Some rs \<Rightarrow> rs)"

definition consume :: "string \<Rightarrow> real \<Rightarrow> pool \<Rightarrow> nat \<times> pool" where
  "consume n polled_at P =
     (let rs = filter (kept_rv polled_at) (held_rvs P n)
      in (length rs, P\<lparr>po_reservations := dset (po_reservations P) n rs\<rparr>))"

definition track_restart :: "real \<Rightarrow> host_status \<Rightarrow> real \<Rightarrow> runtime \<Rightarrow> runtime" where
  "track_restart hold st polled_at rt =
     (case rt_restart_sent rt of
        None \<Rightarrow> rt
      | Some sent \<Rightarrow>
          (let elapsed = polled_at - sent in
           if hs_reachable st \<and> (case hs_agent_uptime st of None \<Rightarrow> False | Some u \<Rightarrow> of_int u + 1 / 2 < elapsed)
           then rt\<lparr>rt_restart_sent := None\<rparr>
           else if hold < elapsed \<and> \<not> (hs_reachable st \<and> hs_restarting st) then rt\<lparr>rt_restart_sent := None\<rparr>
           else rt))"

definition after_poll :: "real \<Rightarrow> host_status \<Rightarrow> bool option \<Rightarrow> real \<Rightarrow> runtime \<Rightarrow> runtime" where
  "after_poll hold st previous polled_at rt =
     (let rt1 = (if rt_restart_sent rt \<noteq> None then track_restart hold st polled_at rt
                 else if hs_reachable st \<and> previous = Some False
                 then rt\<lparr>rt_drain := False, rt_power_off_sent := None, rt_next_wake_at := 0\<rparr>
                 else if \<not> hs_reachable st \<and> rt_power_off_sent rt \<noteq> None
                 then rt\<lparr>rt_drain := False, rt_power_off_sent := None\<rparr>
                 else rt)
      in if hs_reachable st \<and> rt_woken_at rt1 \<noteq> None
         then rt1\<lparr>rt_woken_at := None, rt_wake_failures := 0, rt_next_wake_at := 0\<rparr> else rt1)"

definition received :: "host_status \<Rightarrow> string \<Rightarrow> real \<Rightarrow> pool \<Rightarrow> pool" where
  "received st n polled_at P =
     (if dget (po_status P) n = None then P
      else P\<lparr>po_reported := dset (po_reported P) n (hs_reachable st),
             po_runtime := dset (po_runtime P) n
               (after_poll (po_restart_hold P) st (dget (po_reported P) n) polled_at (runtime_of P n)),
             po_status := dset (po_status P) n st\<rparr>)"

text \<open>\<open>refresh_host\<close>, when the answer is there. A host removed meanwhile raises \<open>KeyError\<close> in
  \<open>_consume\<close> (its task fails alone); the \<open>OverflowError\<close> of a number too large is not caught.\<close>

datatype refresh_error = RefreshOverflow | RefreshKeyError

definition refresh_host :: "string \<Rightarrow> real \<Rightarrow> poll \<Rightarrow> pool \<Rightarrow> (refresh_error + host_status) \<times> pool" where
  "refresh_host n polled_at answer P =
     (case answer of
        PollStatus err \<Rightarrow> (Inr (down_status err), received (down_status err) n polled_at P)
      | PollFailed err \<Rightarrow> (Inr (down_status err), received (down_status err) n polled_at P)
      | PollJson data \<Rightarrow>
          if dget (po_reservations P) n = None then (Inl RefreshKeyError, P)
          else (case consume n polled_at P of
                  (count, P1) \<Rightarrow>
                    (case status_from_json data (int count) of
                       Inl e \<Rightarrow> (Inl RefreshOverflow, P1)
                     | Inr st \<Rightarrow> (Inr st, received st n polled_at P1))))"

section \<open>The membership\<close>

definition register :: "host \<Rightarrow> host_source \<Rightarrow> pool \<Rightarrow> pool" where
  "register h src P = P\<lparr>po_hosts := dset (po_hosts P) (ho_name h) h,
     po_status := dset (po_status P) (ho_name h) (down_status []),
     po_runtime := dset (po_runtime P) (ho_name h) (new_runtime src (ho_enabled h)),
     po_reservations := dset (po_reservations P) (ho_name h) [],
     po_reported := dpop (po_reported P) (ho_name h)\<rparr>"

definition pop_tables :: "string \<Rightarrow> pool \<Rightarrow> pool" where
  "pop_tables n P = P\<lparr>po_hosts := dpop (po_hosts P) n, po_status := dpop (po_status P) n,
     po_runtime := dpop (po_runtime P) n, po_reservations := dpop (po_reservations P) n\<rparr>"

text \<open>\<open>asdict(host)\<close>\<close>

definition host_json :: "host \<Rightarrow> json" where
  "host_json h = JObj [(''name'', JStr (ho_name h)), (''url'', JStr (ho_url h)), (''token'', JStr (ho_token h)),
     (''max_projects'', JInt (ho_max_projects h)), (''mac'', JStr (ho_mac h)),
     (''wake_command'', JStr (ho_wake_command h)), (''power'', JBool (ho_power h)), (''enabled'', JBool (ho_enabled h)),
     (''instructors_only'', JBool (ho_instructors_only h))]"

text \<open>\<open>save_state\<close>; \<open>w\<close> says whether the file could be written.\<close>

definition saved_state :: "pool \<Rightarrow> json" where
  "saved_state P = JObj [
     (''removed'', JList (map JStr (sort (po_removed P)))),
     (''added'', JList (map (\<lambda>(n, rt). case dget (po_hosts P) n of Some h \<Rightarrow> host_json h | None \<Rightarrow> JNull)
                 (filter (\<lambda>(n, rt). rt_source rt = SOURCE_ADDED) (po_runtime P)))),
     (''disabled'', JList (map JStr (sort (map fst (filter (\<lambda>(n, rt). \<not> rt_enabled rt) (po_runtime P))))))]"

definition save_state :: "bool \<Rightarrow> pool \<Rightarrow> pool" where
  "save_state w P = (if po_has_file P \<and> w then P\<lparr>po_file := Some (saved_state P)\<rparr> else P)"

definition add_host :: "bool \<Rightarrow> host \<Rightarrow> pool \<Rightarrow> (pool_error + unit) \<times> pool" where
  "add_host w h P =
     (if dget (po_config P) (ho_name h) \<noteq> None
      then (Inl (PoolError 409 ''it is in the configuration file: edit it there'' None), P)
      else (Inr (), save_state w (register h SOURCE_ADDED P)))"

definition remove_host :: "bool \<Rightarrow> string \<Rightarrow> bool \<Rightarrow> pool \<Rightarrow> (pool_error + unit) \<times> pool" where
  "remove_host w n force P =
     (case find_host P n of
        Inl e \<Rightarrow> (Inl e, P)
      | Inr h \<Rightarrow>
          (let st = status_of P n; projects = (if hs_reachable st then hs_projects st else 0) in
           if projects \<noteq> 0 \<and> \<not> force then (Inl (PoolError 409 ''it has projects: drain it first, or --force'' None), P)
           else (let P1 = (if rt_source (runtime_of P n) = SOURCE_CONFIG then P\<lparr>po_removed := ladd (po_removed P) n\<rparr> else P);
                     P2 = pop_tables n P1
                 in (Inr (), save_state w (P2\<lparr>po_reported := dpop (po_reported P2) n\<rparr>)))))"

definition set_enabled :: "bool \<Rightarrow> string \<Rightarrow> bool \<Rightarrow> pool \<Rightarrow> (pool_error + unit) \<times> pool" where
  "set_enabled w n enabled P =
     (if n \<in> set (po_removed P) \<and> enabled then
        (case dget (po_config P) n of
           None \<Rightarrow> (Inl (PoolError 404 ''unknown host'' None), P)
         | Some h \<Rightarrow> (Inr (), save_state w (register h SOURCE_CONFIG (P\<lparr>po_removed := removeAll n (po_removed P)\<rparr>))))
      else (case find_host P n of
              Inl e \<Rightarrow> (Inl e, P)
            | Inr h \<Rightarrow>
                (let rt = (runtime_of P n)\<lparr>rt_enabled := enabled\<rparr>;
                     rt1 = (if enabled then rt\<lparr>rt_drain := False\<rparr> else rt)
                 in (Inr (), save_state w (P\<lparr>po_runtime := dset (po_runtime P) n rt1\<rparr>)))))"

text \<open>\<open>parse_mac\<close> and \<open>host_config_from_dict\<close> of \<open>src/sreweb/config.py\<close> on an entry of the file.
  \<open>HostIllTyped\<close>: a value of another type than \<open>asdict\<close> writes, which the code keeps as it is or
  raises on later; the model drops the entry.\<close>

datatype host_error = HostRefused | HostIllTyped

definition hex_char :: "char \<Rightarrow> bool" where
  "hex_char c \<longleftrightarrow> is_digit c \<or> (CHR ''a'' \<le> c \<and> c \<le> CHR ''f'') \<or> (CHR ''A'' \<le> c \<and> c \<le> CHR ''F'')"

definition lower_char :: "char \<Rightarrow> char" where
  "lower_char c = (if is_upper c then char_of ((of_char c :: nat) + 32) else c)"

fun mac_match :: "nat \<Rightarrow> string \<Rightarrow> bool" where
  "mac_match 0 [a, b] = (hex_char a \<and> hex_char b)"
| "mac_match (Suc n) (a # b # c # s) = (hex_char a \<and> hex_char b \<and> (c = CHR '':'' \<or> c = CHR ''-'') \<and> mac_match n s)"
| "mac_match _ _ = False"

definition parse_mac :: "string \<Rightarrow> host_error + string" where
  "parse_mac s = (let t = py_strip s in
     if \<not> mac_match 5 t then Inl HostRefused
     else Inr (map (\<lambda>c. if c = CHR ''-'' then CHR '':'' else lower_char c) t))"

definition host_keys :: "string list" where
  "host_keys = [''name'', ''url'', ''token'', ''max_projects'', ''mac'', ''wake_command'', ''power'', ''enabled'', ''instructors_only'']"

definition text_field :: "(string \<times> json) list \<Rightarrow> string \<Rightarrow> host_error + string" where
  "text_field d k = (case dget d k of None \<Rightarrow> Inr [] | Some (JStr s) \<Rightarrow> Inr s | _ \<Rightarrow> Inl HostIllTyped)"

definition bool_field :: "(string \<times> json) list \<Rightarrow> string \<Rightarrow> bool \<Rightarrow> host_error + bool" where
  "bool_field d k absent = (case dget d k of None \<Rightarrow> Inr absent | Some (JBool b) \<Rightarrow> Inr b | _ \<Rightarrow> Inl HostRefused)"

definition host_config_from_dict :: "json \<Rightarrow> host_error + host" where
  "host_config_from_dict v =
     (case v of
        JObj d \<Rightarrow>
          ebind (ebind (text_field d ''mac'') (\<lambda>m. if m = [] then Inr [] else parse_mac m)) (\<lambda>mac.
          if \<not> set (keys_of d) \<subseteq> set host_keys then Inl HostRefused
          else
          ebind (text_field d ''name'') (\<lambda>name. ebind (text_field d ''url'') (\<lambda>url. ebind (text_field d ''token'') (\<lambda>token.
          ebind (text_field d ''wake_command'') (\<lambda>wake_command.
          if name = [] \<or> url = [] \<or> token = [] then Inl HostRefused
          else if \<not> valid_login_match name then Inl HostRefused
          else
          ebind (case dget d ''max_projects'' of None \<Rightarrow> Inr 25 | Some (JInt n) \<Rightarrow> Inr n | _ \<Rightarrow> Inl HostIllTyped) (\<lambda>n.
          if n < 1 then Inl HostRefused
          else
          ebind (bool_field d ''power'' False) (\<lambda>power. ebind (bool_field d ''enabled'' True) (\<lambda>enabled.
          ebind (bool_field d ''instructors_only'' False) (\<lambda>only.
            Inr \<lparr>ho_name = name, ho_url = url, ho_token = token, ho_max_projects = n, ho_mac = mac,
              ho_wake_command = wake_command, ho_power = power, ho_enabled = enabled,
              ho_instructors_only = only\<rparr>)))))))))
      | _ \<Rightarrow> Inl HostRefused)"

text \<open>\<open>load_state\<close>; a part of the file that is not a list counts as empty.\<close>

definition json_list :: "json option \<Rightarrow> json list" where
  "json_list v = (case v of Some (JList xs) \<Rightarrow> xs | _ \<Rightarrow> [])"

definition load_removed :: "string \<Rightarrow> pool \<Rightarrow> pool" where
  "load_removed n P =
     (if dget (po_hosts P) n \<noteq> None \<and> rt_source (runtime_of P n) = SOURCE_CONFIG
      then (pop_tables n P)\<lparr>po_removed := ladd (po_removed P) n\<rparr> else P)"

definition load_added :: "json \<Rightarrow> pool \<Rightarrow> pool" where
  "load_added v P =
     (case host_config_from_dict v of
        Inl e \<Rightarrow> P
      | Inr h \<Rightarrow>
          if dget (po_hosts P) (ho_name h) \<noteq> None \<and> rt_source (runtime_of P (ho_name h)) = SOURCE_CONFIG then P
          else register h SOURCE_ADDED P)"

definition load_disabled :: "string \<Rightarrow> pool \<Rightarrow> pool" where
  "load_disabled n P =
     (case dget (po_runtime P) n of
        None \<Rightarrow> P
      | Some rt \<Rightarrow> P\<lparr>po_runtime := dset (po_runtime P) n (rt\<lparr>rt_enabled := False\<rparr>)\<rparr>)"

definition load_state :: "pool \<Rightarrow> pool" where
  "load_state P =
     (if \<not> po_has_file P then P
      else (case po_file P of
              Some (JObj d) \<Rightarrow>
                (let P1 = fold load_removed (json_texts (json_list (dget d ''removed''))) P;
                     P2 = fold load_added (json_list (dget d ''added'')) P1
                 in fold load_disabled (json_texts (json_list (dget d ''disabled''))) P2)
            | _ \<Rightarrow> P))"

text \<open>\<open>Pool.__init__\<close>: the hosts of the configuration registered, then the state file.\<close>

definition empty_pool :: "host list \<Rightarrow> bool \<Rightarrow> json option \<Rightarrow> real \<Rightarrow> real \<Rightarrow> bool \<Rightarrow> pool" where
  "empty_pool hosts has_file file wake_timeout restart_hold follow =
     \<lparr>po_hosts = [], po_status = [], po_runtime = [], po_reservations = [], po_reported = [],
      po_config = fold (\<lambda>h d. dset d (ho_name h) h) hosts [], po_removed = [], po_next_rv = 0, po_has_file = has_file,
      po_file = file, po_wake_timeout = wake_timeout, po_restart_hold = restart_hold, po_follow = follow\<rparr>"

definition new_pool :: "host list \<Rightarrow> bool \<Rightarrow> json option \<Rightarrow> real \<Rightarrow> real \<Rightarrow> bool \<Rightarrow> pool" where
  "new_pool hosts has_file file wake_timeout restart_hold follow =
     load_state (fold (\<lambda>h. register h SOURCE_CONFIG) hosts (empty_pool hosts has_file file wake_timeout restart_hold follow))"

end
