(* ===== verification/Pool_Safety.thy ===== *)
theory Pool_Safety
  imports Pool
begin

text \<open>
  What the pool of hosts promises (\<open>src/sreweb/portal/pool.py\<close>): its tables agree and count every
  start in progress, a placement is sound and the least loaded, a status is typed whatever the
  agent answers, the membership survives a restart of the portal.
\<close>

section \<open>The tables agree\<close>

definition open_count :: "reservation list \<Rightarrow> nat" where
  "open_count rvs = length (filter (\<lambda>r. rv_released_at r = None) rvs)"

definition row_ok :: "string \<Rightarrow> host option \<Rightarrow> host_status option \<Rightarrow> runtime option \<Rightarrow> reservation list option \<Rightarrow>
    host option \<Rightarrow> bool \<Rightarrow> bool" where
  "row_ok n ho sto rto rvo config removed \<longleftrightarrow>
     (\<forall>h. config = Some h \<longrightarrow> ho_name h = n \<and> 1 \<le> ho_max_projects h) \<and>
     (case ho of
        None \<Rightarrow> sto = None \<and> rto = None \<and> rvo = None \<and> (removed \<longleftrightarrow> config \<noteq> None)
      | Some h \<Rightarrow> \<exists>st rt rvs. sto = Some st \<and> rto = Some rt \<and> rvo = Some rvs \<and> ho_name h = n \<and> 1 \<le> ho_max_projects h \<and>
          \<not> removed \<and> (rt_source rt = SOURCE_CONFIG \<longleftrightarrow> config \<noteq> None) \<and> (config \<noteq> None \<longrightarrow> config = Some h) \<and>
          0 \<le> hs_projects st \<and> (hs_reachable st \<longrightarrow> int (open_count rvs) \<le> hs_projects st))"

definition row_of :: "pool \<Rightarrow> string \<Rightarrow> bool" where
  "row_of P n \<longleftrightarrow> row_ok n (dget (po_hosts P) n) (dget (po_status P) n) (dget (po_runtime P) n)
     (dget (po_reservations P) n) (dget (po_config P) n) (n \<in> set (po_removed P))"

definition tables_ok :: "pool \<Rightarrow> bool" where
  "tables_ok P \<longleftrightarrow> dict_ok (po_hosts P) \<and> dict_ok (po_status P) \<and> dict_ok (po_runtime P) \<and>
     dict_ok (po_reservations P) \<and> dict_ok (po_config P)"

definition pool_ok :: "pool \<Rightarrow> bool" where
  "pool_ok P \<longleftrightarrow> tables_ok P \<and> (\<forall>n. row_of P n)"

lemma pool_okI:
  assumes "pool_ok P" "tables_ok Q"
    and "\<And>k. k \<noteq> n \<Longrightarrow> dget (po_hosts Q) k = dget (po_hosts P) k \<and> dget (po_status Q) k = dget (po_status P) k \<and>
       dget (po_runtime Q) k = dget (po_runtime P) k \<and> dget (po_reservations Q) k = dget (po_reservations P) k \<and>
       dget (po_config Q) k = dget (po_config P) k \<and> (k \<in> set (po_removed Q) \<longleftrightarrow> k \<in> set (po_removed P))"
    and "row_of Q n"
  shows "pool_ok Q"
proof -
  have "row_of Q k" for k
  proof (cases "k = n")
    case False
    have "row_of P k" using assms(1) by (simp add: pool_ok_def)
    with assms(3) [OF False] show ?thesis by (simp add: row_of_def)
  qed (use assms(4) in simp)
  with assms(2) show ?thesis by (simp add: pool_ok_def)
qed

lemma pool_okD: "pool_ok P \<Longrightarrow> tables_ok P" "pool_ok P \<Longrightarrow> row_of P n"
  by (simp_all add: pool_ok_def)

lemma pool_row:
  assumes "pool_ok P" "dget (po_hosts P) n = Some h"
  obtains st rt rvs where "dget (po_status P) n = Some st" "dget (po_runtime P) n = Some rt"
    "dget (po_reservations P) n = Some rvs" "ho_name h = n" "1 \<le> ho_max_projects h" "n \<notin> set (po_removed P)"
    "rt_source rt = SOURCE_CONFIG \<longleftrightarrow> dget (po_config P) n \<noteq> None"
    "dget (po_config P) n \<noteq> None \<longrightarrow> dget (po_config P) n = Some h"
    "0 \<le> hs_projects st" "hs_reachable st \<longrightarrow> int (open_count rvs) \<le> hs_projects st"
    "status_of P n = st" "runtime_of P n = rt" "held_rvs P n = rvs"
  using pool_okD(2) [OF assms(1), of n] assms(2)
  by (auto simp: row_of_def row_ok_def status_of_def runtime_of_def held_rvs_def)

lemma pool_no_row:
  assumes "pool_ok P" "dget (po_hosts P) n = None"
  shows "dget (po_status P) n = None" "dget (po_runtime P) n = None" "dget (po_reservations P) n = None"
    "n \<in> set (po_removed P) \<longleftrightarrow> dget (po_config P) n \<noteq> None"
  using pool_okD(2) [OF assms(1), of n] assms(2) by (auto simp: row_of_def row_ok_def)

lemma pool_config: "pool_ok P \<Longrightarrow> dget (po_config P) n = Some h \<Longrightarrow> ho_name h = n \<and> 1 \<le> ho_max_projects h"
  using pool_okD(2) [of P n] by (auto simp: row_of_def row_ok_def)

lemma pool_ok_frame:
  assumes "po_hosts Q = po_hosts P" "po_status Q = po_status P" "po_runtime Q = po_runtime P"
    "po_reservations Q = po_reservations P" "po_config Q = po_config P" "po_removed Q = po_removed P"
  shows "pool_ok Q = pool_ok P"
  using assms by (simp add: pool_ok_def tables_ok_def row_of_def)

lemma pool_ok_file [simp]: "pool_ok (save_state w P) = pool_ok P"
  by (rule pool_ok_frame) (simp_all add: save_state_def)

lemma reported_ok [simp]: "pool_ok (P\<lparr>po_reported := r\<rparr>) = pool_ok P"
  by (rule pool_ok_frame) simp_all

lemma host_listed:
  assumes "pool_ok P" "h \<in> set (vals_of (po_hosts P))"
  shows "dget (po_hosts P) (ho_name h) = Some h"
proof -
  from assms(2) obtain n where "(n, h) \<in> set (po_hosts P)" by (rule vals_ofE)
  then have n: "dget (po_hosts P) n = Some h"
    using pool_okD(1) [OF assms(1)] by (simp add: tables_ok_def dget_of_in)
  from assms(1) n have "ho_name h = n" by (rule pool_row)
  with n show ?thesis by simp
qed

section \<open>The operations keep them so\<close>

lemma register_ok:
  assumes "pool_ok P" "1 \<le> ho_max_projects h" "ho_name h \<notin> set (po_removed P)"
    and "src = SOURCE_CONFIG \<longleftrightarrow> dget (po_config P) (ho_name h) \<noteq> None"
    and "dget (po_config P) (ho_name h) \<noteq> None \<longrightarrow> dget (po_config P) (ho_name h) = Some h"
  shows "pool_ok (register h src P)"
  using assms(1)
proof (rule pool_okI [where n = "ho_name h"])
  show "tables_ok (register h src P)" using pool_okD(1) [OF assms(1)] by (simp add: tables_ok_def register_def)
  show "row_of (register h src P) (ho_name h)"
    using assms(2-5) by (auto simp: row_of_def row_ok_def register_def new_runtime_def down_status_def)
qed (simp add: register_def)

lemma reserve_ok:
  assumes "pool_ok P" "dget (po_hosts P) (ho_name h) = Some h"
  shows "pool_ok (snd (reserve h pl P))"
proof -
  from assms obtain st rt rvs where r: "dget (po_status P) (ho_name h) = Some st" "dget (po_runtime P) (ho_name h) = Some rt"
    "dget (po_reservations P) (ho_name h) = Some rvs" "1 \<le> ho_max_projects h" "ho_name h \<notin> set (po_removed P)"
    "rt_source rt = SOURCE_CONFIG \<longleftrightarrow> dget (po_config P) (ho_name h) \<noteq> None"
    "dget (po_config P) (ho_name h) \<noteq> None \<longrightarrow> dget (po_config P) (ho_name h) = Some h"
    "0 \<le> hs_projects st" "hs_reachable st \<longrightarrow> int (open_count rvs) \<le> hs_projects st"
    by (rule pool_row) blast
  show ?thesis
    using assms(1)
  proof (rule pool_okI [where n = "ho_name h"])
    show "tables_ok (snd (reserve h pl P))" using pool_okD(1) [OF assms(1)] by (simp add: tables_ok_def reserve_def Let_def)
    show "row_of (snd (reserve h pl P)) (ho_name h)"
      using r assms(2)
      by (cases "dget (po_config P) (ho_name h)"; cases "hs_reachable st")
        (simp_all add: row_of_def row_ok_def reserve_def Let_def status_of_def open_count_def)
  qed (simp add: reserve_def Let_def)
qed

lemma open_count_release:
  "open_count (map (\<lambda>r. if rv_id r = i then r\<lparr>rv_released_at := Some now\<rparr> else r) rvs) \<le> open_count rvs"
  by (induction rvs) (auto simp: open_count_def)

lemma release_ok:
  assumes "pool_ok P"
  shows "pool_ok (release i now P)"
proof -
  let ?f = "map (\<lambda>r. if rv_id r = i then r\<lparr>rv_released_at := Some now\<rparr> else r)"
  have res: "dget (po_reservations (release i now P)) n = map_option ?f (dget (po_reservations P) n)" for n
    by (simp add: release_def map_of_map)
  have frame: "po_hosts (release i now P) = po_hosts P" "po_status (release i now P) = po_status P"
    "po_runtime (release i now P) = po_runtime P" "po_config (release i now P) = po_config P"
    "po_removed (release i now P) = po_removed P"
    by (simp_all add: release_def)
  have "tables_ok (release i now P)"
    using pool_okD(1) [OF assms] by (simp add: tables_ok_def release_def dict_ok_def comp_def case_prod_beta)
  moreover have "row_of (release i now P) n" for n
  proof (cases "dget (po_hosts P) n")
    case None
    with pool_okD(2) [OF assms, of n] show ?thesis by (simp add: row_of_def row_ok_def frame res)
  next
    case (Some h)
    from assms Some obtain st rt rvs where r: "dget (po_reservations P) n = Some rvs" "dget (po_status P) n = Some st"
      "hs_reachable st \<longrightarrow> int (open_count rvs) \<le> hs_projects st"
      by (rule pool_row) blast
    then have "hs_reachable st \<Longrightarrow> int (open_count (?f rvs)) \<le> hs_projects st"
      using open_count_release [of i now rvs] by simp
    with r Some pool_okD(2) [OF assms, of n] show ?thesis by (simp add: row_of_def row_ok_def frame res)
  qed
  ultimately show ?thesis by (simp add: pool_ok_def)
qed

lemma pop_ok:
  assumes "pool_ok P" "dget (po_hosts P) n = Some h"
  shows "pool_ok (pop_tables n (if rt_source (runtime_of P n) = SOURCE_CONFIG then P\<lparr>po_removed := ladd (po_removed P) n\<rparr> else P))"
    (is "pool_ok (pop_tables n ?P)")
proof -
  from assms obtain rt where r: "rt_source rt = SOURCE_CONFIG \<longleftrightarrow> dget (po_config P) n \<noteq> None" "runtime_of P n = rt"
    "n \<notin> set (po_removed P)" by (rule pool_row) blast
  show ?thesis
    using assms(1)
  proof (rule pool_okI [where n = n])
    show "tables_ok (pop_tables n ?P)" using pool_okD(1) [OF assms(1)] by (simp add: tables_ok_def pop_tables_def)
    show "row_of (pop_tables n ?P) n"
      using r pool_config [OF assms(1), of n] by (auto simp: row_of_def row_ok_def pop_tables_def)
  qed (auto simp: pop_tables_def)
qed

lemma set_row_ok:
  assumes "pool_ok P" "dget (po_hosts P) n = Some h" "rt_source rt' = rt_source (runtime_of P n)"
    and "0 \<le> hs_projects st'" "hs_reachable st' \<Longrightarrow> int (open_count rvs') \<le> hs_projects st'"
  shows "pool_ok (P\<lparr>po_runtime := dset (po_runtime P) n rt', po_status := dset (po_status P) n st',
     po_reservations := dset (po_reservations P) n rvs'\<rparr>)" (is "pool_ok ?Q")
proof -
  from assms(1,2) obtain st rt where r: "runtime_of P n = rt" "rt_source rt = SOURCE_CONFIG \<longleftrightarrow> dget (po_config P) n \<noteq> None"
    "dget (po_config P) n \<noteq> None \<longrightarrow> dget (po_config P) n = Some h" "ho_name h = n" "1 \<le> ho_max_projects h"
    "n \<notin> set (po_removed P)" by (rule pool_row) blast
  show ?thesis
    using assms(1)
  proof (rule pool_okI [where n = n])
    show "tables_ok ?Q" using pool_okD(1) [OF assms(1)] by (simp add: tables_ok_def)
    show "row_of ?Q n" using r assms(2-5) by (auto simp: row_of_def row_ok_def)
  qed simp
qed

text \<open>Writing back what a table has changes nothing the invariant sees.\<close>

lemma dset_same: "dget d k = Some v \<Longrightarrow> dget (dset d k v) = dget d"
  by (auto simp: fun_eq_iff)

lemma runtime_ok:
  assumes "pool_ok P" "dget (po_hosts P) n = Some h" "rt_source rt' = rt_source (runtime_of P n)"
  shows "pool_ok (P\<lparr>po_runtime := dset (po_runtime P) n rt'\<rparr>)"
proof -
  from assms(1,2) obtain rt where r: "runtime_of P n = rt" "dget (po_runtime P) n = Some rt"
    "rt_source rt = SOURCE_CONFIG \<longleftrightarrow> dget (po_config P) n \<noteq> None" by (rule pool_row) blast
  show ?thesis
    using assms(1)
  proof (rule pool_okI [where n = n])
    show "tables_ok (P\<lparr>po_runtime := dset (po_runtime P) n rt'\<rparr>)" using pool_okD(1) [OF assms(1)] by (simp add: tables_ok_def)
    show "row_of (P\<lparr>po_runtime := dset (po_runtime P) n rt'\<rparr>) n"
      using r assms(2,3) pool_okD(2) [OF assms(1), of n] by (auto simp: row_of_def row_ok_def)
  qed simp
qed

lemma kept_open: "open_count (filter (kept_rv t) rs) = open_count rs"
  by (induction rs) (auto simp: kept_rv_def open_count_def)

lemma open_count_le: "open_count rs \<le> length rs"
  by (simp add: open_count_def)

lemma consume_ok:
  assumes "pool_ok P" "dget (po_hosts P) n = Some h" "consume n t P = (c, Q)"
  shows "pool_ok Q" "open_count (held_rvs Q n) \<le> c" "po_hosts Q = po_hosts P"
proof -
  have Q: "Q = P\<lparr>po_reservations := dset (po_reservations P) n (filter (kept_rv t) (held_rvs P n))\<rparr>"
    and c: "c = length (filter (kept_rv t) (held_rvs P n))"
    using assms(3) by (simp_all add: consume_def Let_def)
  show "po_hosts Q = po_hosts P" by (simp add: Q)
  show "open_count (held_rvs Q n) \<le> c" by (simp add: Q c held_rvs_def open_count_le)
  from assms(1,2) obtain rvs where r: "dget (po_reservations P) n = Some rvs" "held_rvs P n = rvs" by (rule pool_row) blast
  show "pool_ok Q"
    using assms(1)
  proof (rule pool_okI [where n = n])
    show "tables_ok Q" using pool_okD(1) [OF assms(1)] by (simp add: Q tables_ok_def)
    show "row_of Q n"
      using r assms(2) pool_okD(2) [OF assms(1), of n] by (auto simp: Q row_of_def row_ok_def kept_open)
  qed (simp add: Q)
qed

lemma after_poll_source [simp]: "rt_source (after_poll hold st prev t rt) = rt_source rt"
  by (simp add: after_poll_def track_restart_def Let_def split: option.splits)

lemma received_ok:
  assumes "pool_ok P" "0 \<le> hs_projects st" "hs_reachable st \<Longrightarrow> int (open_count (held_rvs P n)) \<le> hs_projects st"
  shows "pool_ok (received st n t P)"
proof (cases "dget (po_hosts P) n")
  case None
  with assms(1) show ?thesis by (simp add: received_def pool_no_row)
next
  case (Some h)
  from assms(1) Some obtain rvs old where r: "dget (po_reservations P) n = Some rvs" "held_rvs P n = rvs"
    "dget (po_status P) n = Some old" by (rule pool_row) blast
  let ?rt = "after_poll (po_restart_hold P) st (dget (po_reported P) n) t (runtime_of P n)"
  let ?Q = "P\<lparr>po_runtime := dset (po_runtime P) n ?rt, po_status := dset (po_status P) n st,
     po_reservations := dset (po_reservations P) n rvs\<rparr>"
  have "pool_ok ?Q"
    using assms(1) Some by (rule set_row_ok) (use assms(2,3) r in simp_all)
  then have "pool_ok (received st n t P)"
    unfolding pool_ok_def tables_ok_def row_of_def using r dset_same [OF r(1)] pool_okD(1) [OF assms(1)]
    by (simp add: received_def tables_ok_def)
  then show ?thesis .
qed

lemma status_number_Inr: "status_count v = Inr c \<Longrightarrow> 0 \<le> c"
  by (auto simp: status_count_def elim!: ebind_InrE split: option.splits)

lemma status_from_json_Inr:
  assumes "status_from_json data extra = Inr st"
  shows "hs_reachable st \<longleftrightarrow> (\<exists>d. data = JObj d)" "hs_reachable st \<Longrightarrow> extra \<le> hs_projects st" "\<not> hs_reachable st \<Longrightarrow> hs_projects st = 0"
  using assms
  by (auto simp: status_from_json_def down_status_def elim!: ebind_InrE split: json.splits dest: status_number_Inr)

lemma refresh_ok:
  assumes "pool_ok P"
  shows "pool_ok (snd (refresh_host n t answer P))"
proof (cases answer)
  case (PollJson data)
  show ?thesis
  proof (cases "dget (po_hosts P) n")
    case None
    with PollJson assms show ?thesis by (simp add: refresh_host_def pool_no_row)
  next
    case (Some h)
    from assms Some obtain rvs where r: "dget (po_reservations P) n = Some rvs" by (rule pool_row) blast
    obtain c Q where cQ: "consume n t P = (c, Q)" by fastforce
    note Q = consume_ok [OF assms Some cQ]
    show ?thesis
    proof (cases "status_from_json data (int c)")
      case (Inl e)
      with PollJson r cQ Q(1) show ?thesis by (simp add: refresh_host_def)
    next
      case (Inr st)
      have "pool_ok (received st n t Q)"
        using Q(1)
      proof (rule received_ok)
        show "0 \<le> hs_projects st" using status_from_json_Inr(2,3) [OF Inr] by (cases "hs_reachable st") auto
        show "hs_reachable st \<Longrightarrow> int (open_count (held_rvs Q n)) \<le> hs_projects st"
          using status_from_json_Inr(2) [OF Inr] Q(2) by simp
      qed
      with PollJson r cQ Inr show ?thesis by (simp add: refresh_host_def)
    qed
  qed
qed (use assms in \<open>auto simp: refresh_host_def down_status_def intro!: received_ok\<close>)

lemma add_host_ok: "pool_ok P \<Longrightarrow> 1 \<le> ho_max_projects h \<Longrightarrow> pool_ok (snd (add_host w h P))"
proof (cases "dget (po_config P) (ho_name h)")
  case None
  assume ok: "pool_ok P" and max: "1 \<le> ho_max_projects h"
  have "ho_name h \<notin> set (po_removed P)"
    using None ok pool_no_row(4) [OF ok] by (cases "dget (po_hosts P) (ho_name h)") (auto elim: pool_row)
  with ok max None have "pool_ok (register h SOURCE_ADDED P)" by (intro register_ok) simp_all
  with None show ?thesis by (simp add: add_host_def)
qed (simp add: add_host_def)

lemma remove_host_ok:
  assumes "pool_ok P"
  shows "pool_ok (snd (remove_host w n force P))"
proof (cases "dget (po_hosts P) n")
  case None
  with assms show ?thesis by (simp add: remove_host_def find_host_def)
next
  case (Some h)
  from pop_ok [OF assms Some] show ?thesis
    using assms Some by (simp add: remove_host_def find_host_def Let_def)
qed

lemma set_enabled_ok:
  assumes "pool_ok P"
  shows "pool_ok (snd (set_enabled w n enabled P))"
proof (cases "n \<in> set (po_removed P) \<and> enabled")
  case True
  have none: "dget (po_hosts P) n = None"
    using True assms by (cases "dget (po_hosts P) n") (auto elim: pool_row)
  then obtain h where h: "dget (po_config P) n = Some h" using True pool_no_row(4) [OF assms none] by auto
  then have n: "ho_name h = n" "1 \<le> ho_max_projects h" using pool_config [OF assms h] by simp_all
  let ?P = "P\<lparr>po_removed := removeAll n (po_removed P)\<rparr>"
  have "pool_ok (register h SOURCE_CONFIG ?P)"
    using assms
  proof (rule pool_okI [where n = n])
    show "tables_ok (register h SOURCE_CONFIG ?P)" using pool_okD(1) [OF assms] by (simp add: tables_ok_def register_def)
    show "row_of (register h SOURCE_CONFIG ?P) n"
      using h n by (simp add: row_of_def row_ok_def register_def new_runtime_def down_status_def)
  qed (simp add: register_def n)
  with True h show ?thesis by (simp add: set_enabled_def)
next
  case False
  show ?thesis
  proof (cases "dget (po_hosts P) n")
    case None
    with False assms show ?thesis by (auto simp: set_enabled_def find_host_def)
  next
    case (Some h)
    have "pool_ok (P\<lparr>po_runtime := dset (po_runtime P) n rt\<rparr>)" if "rt_source rt = rt_source (runtime_of P n)" for rt
      using assms Some that by (rule runtime_ok)
    with False Some show ?thesis by (auto simp: set_enabled_def find_host_def Let_def)
  qed
qed

section \<open>Placements\<close>

lemma set_map_filter: "set (List.map_filter f xs) = {y. \<exists>x \<in> set xs. f x = Some y}"
  by (induction xs) (auto simp: map_filter_simps split: option.splits)

lemma set_candidates:
  assumes "pool_ok P"
  shows "(k, h, pl) \<in> set (candidates P i now) \<longleftrightarrow>
    dget (po_hosts P) (ho_name h) = Some h \<and> may_use i h \<and> candidate_of P i now h = Some (k, h, pl)"
proof
  assume "(k, h, pl) \<in> set (candidates P i now)"
  then obtain g where g: "g \<in> set (vals_of (po_hosts P))" "may_use i g" "candidate_of P i now g = Some (k, h, pl)"
    by (auto simp: candidates_def set_map_filter)
  then have "g = h" by (auto simp: candidate_of_def Let_def split: option.splits if_splits)
  with g host_listed [OF assms, of h] show "dget (po_hosts P) (ho_name h) = Some h \<and> may_use i h \<and>
      candidate_of P i now h = Some (k, h, pl)" by simp
next
  assume r: "dget (po_hosts P) (ho_name h) = Some h \<and> may_use i h \<and> candidate_of P i now h = Some (k, h, pl)"
  then have "h \<in> set (vals_of (po_hosts P))" by (blast intro: dget_vals)
  with r show "(k, h, pl) \<in> set (candidates P i now)" by (auto simp: candidates_def set_map_filter)
qed

text \<open>A host that may take a project of \<open>i\<close> now, and how.\<close>

definition takes :: "pool \<Rightarrow> identity option \<Rightarrow> real \<Rightarrow> host \<Rightarrow> placement \<Rightarrow> bool" where
  "takes P i now h pl \<longleftrightarrow>
     (let st = status_of P (ho_name h); rt = runtime_of P (ho_name h) in
      dget (po_hosts P) (ho_name h) = Some h \<and> may_use i h \<and> rt_enabled rt \<and> hs_reachable st \<and> \<not> hs_exam_mode st \<and>
      \<not> rt_drain rt \<and> rt_restart_sent rt = None \<and> hs_projects st < ho_max_projects h \<and>
      (pl = PLACEMENT_LOAD \<and> \<not> hs_occupied st \<or>
       pl = PLACEMENT_SESSION \<and> hs_occupied st \<and> po_follow P \<and>
         (\<exists>who. i = Some who \<and> SESSION_PREFIX @ login who \<in> set (hs_occupied_by st))))"

definition load_key :: "pool \<Rightarrow> host \<Rightarrow> placement \<Rightarrow> bool \<times> real \<times> real \<times> string" where
  "load_key P h pl = (pl \<noteq> PLACEMENT_SESSION,
     of_int (hs_projects (status_of P (ho_name h))) / of_int (ho_max_projects h),
     (case hs_load1 (status_of P (ho_name h)) of None \<Rightarrow> 0 | Some x \<Rightarrow> x), ho_name h)"

lemma candidate_takes:
  "dget (po_hosts P) (ho_name h) = Some h \<and> may_use i h \<and> candidate_of P i now h = Some (k, h, pl) \<longleftrightarrow>
   takes P i now h pl \<and> k = load_key P h pl"
proof (cases i)
  case None
  then show ?thesis
    by (auto simp: candidate_of_def takes_def load_key_def available_to_def state_of_def host_state_of_def Let_def
        split: option.splits if_splits)
next
  case (Some who)
  then show ?thesis
    by (auto simp: candidate_of_def takes_def load_key_def available_to_def state_of_def host_state_of_def Let_def
        split: option.splits if_splits)
qed

lemma candidates_takes:
  "pool_ok P \<Longrightarrow> (k, h, pl) \<in> set (candidates P i now) \<longleftrightarrow> takes P i now h pl \<and> k = load_key P h pl"
  using set_candidates candidate_takes by blast

lemma reserve_simps:
  assumes "reserve h pl P = ((g, rv), Q)"
  shows "g = h" "rv_placement rv = pl" "rv_released_at rv = None"
    "hs_projects (status_of Q (ho_name h)) = hs_projects (status_of P (ho_name h)) + 1"
    "held_rvs Q (ho_name h) = held_rvs P (ho_name h) @ [rv]"
  using assms by (auto simp: reserve_def Let_def status_of_def held_rvs_def)

text \<open>C29: A project without a named host goes where it may: on a host the user may use, enabled,
  reachable, not in exam mode, not draining, with no restart of its agent pending, below its maximum,
  and either free or occupied by a local session of that very user, which comes first; among those,
  on the least loaded. The project is counted at once and its reservation held.\<close>

theorem pick_places:
  assumes "pool_ok P" "pick i None now P = (Inr (h, rv), Q)"
  shows "takes P i now h (rv_placement rv) \<and>
    (\<forall>g pl. takes P i now g pl \<longrightarrow> load_key P h (rv_placement rv) \<le> load_key P g pl) \<and>
    hs_projects (status_of Q (ho_name h)) = hs_projects (status_of P (ho_name h)) + 1 \<and>
    hs_projects (status_of Q (ho_name h)) \<le> ho_max_projects h \<and> rv_released_at rv = None \<and>
    held_rvs Q (ho_name h) = held_rvs P (ho_name h) @ [rv]"
proof -
  from assms(2) obtain k pl g rest where c: "sort_key fst (candidates P i now) = (k, g, pl) # rest"
    "reserve g pl P = ((h, rv), Q)"
    by (auto simp: pick_def split: list.splits prod.splits if_splits)
  note r = reserve_simps [OF c(2)]
  have gh: "g = h" using r(1) by simp
  have "(k, h, pl) \<in> set (sort_key fst (candidates P i now))" using c(1) gh by simp
  then have t: "takes P i now h pl" "k = load_key P h pl" using candidates_takes [OF assms(1)] by auto
  have least: "k \<le> load_key P g' pl'" if "takes P i now g' pl'" for g' pl'
  proof -
    have "(load_key P g' pl', g', pl') \<in> set (sort_key fst (candidates P i now))"
      using that candidates_takes [OF assms(1)] by simp
    moreover have "sorted (map fst (sort_key fst (candidates P i now)))" by simp
    ultimately have "fst (k, g, pl) \<le> fst (load_key P g' pl', g', pl')"
      unfolding c(1) by (simp only: list.map sorted_wrt.simps set_map set_simps insert_iff) (metis fst_conv imageI order_refl)
    then show ?thesis by simp
  qed
  have "hs_projects (status_of P (ho_name h)) < ho_max_projects h" using t(1) by (simp add: takes_def Let_def)
  note full = this
  have le: "load_key P h (rv_placement rv) \<le> load_key P g' pl'" if "takes P i now g' pl'" for g' pl'
    using least [OF that] unfolding r(2) t(2) .
  show ?thesis
    using t(1) full r(2-5) unfolding gh by (intro conjI allI impI) (simp, erule le, simp_all)
qed

lemma pick_fail_iff:
  assumes "pool_ok P"
  shows "(\<exists>e. fst (pick i None now P) = Inl e) \<longleftrightarrow> (\<forall>h pl. \<not> takes P i now h pl)"
proof -
  have "sort_key fst (candidates P i now) = [] \<longleftrightarrow> set (candidates P i now) = {}"
    by (metis set_empty set_sort)
  also have "\<dots> \<longleftrightarrow> (\<forall>k h pl. (k, h, pl) \<notin> set (candidates P i now))" by (metis all_not_in_conv prod_cases3)
  also have "\<dots> \<longleftrightarrow> (\<forall>h pl. \<not> takes P i now h pl)" unfolding candidates_takes [OF assms] by blast
  finally have empty: "sort_key fst (candidates P i now) = [] \<longleftrightarrow> (\<forall>h pl. \<not> takes P i now h pl)" .
  show ?thesis unfolding empty [symmetric] by (auto simp: pick_def split: list.splits prod.splits)
qed

text \<open>A placement fails only when no host takes the project, and changes nothing then.\<close>

theorem pick_fails:
  assumes "pool_ok P"
  shows "((\<exists>e. fst (pick i None now P) = Inl e) \<longleftrightarrow> (\<forall>h pl. \<not> takes P i now h pl)) \<and>
    (\<forall>e. fst (pick i None now P) = Inl e \<longrightarrow> snd (pick i None now P) = P)"
proof (intro conjI)
  show "(\<exists>e. fst (pick i None now P) = Inl e) \<longleftrightarrow> (\<forall>h pl. \<not> takes P i now h pl)"
    using assms by (rule pick_fail_iff)
  show "\<forall>e. fst (pick i None now P) = Inl e \<longrightarrow> snd (pick i None now P) = P"
    by (auto simp: pick_def split: list.splits prod.splits if_splits)
qed

lemma pick_ok:
  assumes "pool_ok P"
  shows "pool_ok (snd (pick i named now P))"
proof (cases named)
  case None
  show ?thesis
  proof (cases "sort_key fst (candidates P i now)")
    case Nil
    with None assms show ?thesis by (simp add: pick_def)
  next
    case (Cons c rest)
    obtain k h pl where c: "c = (k, h, pl)" by (cases c)
    then have "(k, h, pl) \<in> set (sort_key fst (candidates P i now))" using Cons by simp
    then have "dget (po_hosts P) (ho_name h) = Some h" using set_candidates [OF assms] by auto
    from reserve_ok [OF assms this, of pl] show ?thesis using None Cons c
      by (cases "reserve h pl P") (auto simp: pick_def)
  qed
next
  case (Some n)
  show ?thesis
  proof (cases "dget (po_hosts P) n")
    case None
    with Some assms show ?thesis by (simp add: pick_def pick_named_def find_host_def)
  next
    case (Some h)
    from assms Some have "ho_name h = n" by (rule pool_row)
    with Some have "dget (po_hosts P) (ho_name h) = Some h" by simp
    from reserve_ok [OF assms this, of PLACEMENT_NAMED] show ?thesis
      using \<open>named = Some n\<close> Some assms
      by (cases "reserve h PLACEMENT_NAMED P") (auto simp: pick_def pick_named_def find_host_def)
  qed
qed

section \<open>A status is typed\<close>

text \<open>Whatever JSON value an agent answers, the status kept of it is typed and bounded: the host
  is reachable exactly when the answer is an object, its counts are not negative and include the
  reservations, its texts and lists are limited; the only failure is a number no double can hold.\<close>

theorem status_bounded:
  assumes "status_from_json data extra = Inr st" "0 \<le> extra"
  shows "(hs_reachable st \<longleftrightarrow> (\<exists>d. data = JObj d)) \<and> (hs_reachable st \<longrightarrow> extra \<le> hs_projects st) \<and>
    0 \<le> hs_projects st \<and> 0 \<le> hs_managed_projects st \<and> 0 \<le> hs_local_projects st \<and> 0 \<le> hs_terminals st \<and>
    (\<forall>u. hs_agent_uptime st = Some u \<or> hs_uptime st = Some u \<longrightarrow> 0 \<le> u) \<and>
    length (hs_hostname st) \<le> 200 \<and> length (hs_sre_version st) \<le> 200 \<and>
    length (hs_occupied_by st) \<le> 100 \<and> (\<forall>x \<in> set (hs_occupied_by st). length x \<le> 200)"
proof -
  have counts: "0 \<le> hs_managed_projects st \<and> 0 \<le> hs_local_projects st \<and> 0 \<le> hs_terminals st \<and>
     (\<forall>u. hs_agent_uptime st = Some u \<or> hs_uptime st = Some u \<longrightarrow> 0 \<le> u)"
    using assms(1)
    by (auto simp: status_from_json_def down_status_def status_seconds_def elim!: ebind_InrE split: json.splits
        dest: status_number_Inr)
  have texts: "length (hs_hostname st) \<le> 200 \<and> length (hs_sre_version st) \<le> 200"
    using assms(1)
    by (auto simp: status_from_json_def down_status_def status_text_def MAX_STATUS_TEXT_def elim!: ebind_InrE
        split: json.splits option.splits)
  have "length (status_occupied_by v) \<le> 100 \<and> (\<forall>x \<in> set (status_occupied_by v). length x \<le> 200)" for v
    by (auto simp: status_occupied_by_def MAX_OCCUPIED_BY_def MAX_STATUS_TEXT_def dest!: in_set_takeD
        split: option.splits json.splits)
  then have occ: "length (hs_occupied_by st) \<le> 100 \<and> (\<forall>x \<in> set (hs_occupied_by st). length x \<le> 200)"
    using assms(1) by (auto simp: status_from_json_def down_status_def elim!: ebind_InrE split: json.splits)
  note j = status_from_json_Inr [OF assms(1)]
  have "0 \<le> hs_projects st" using j(2,3) assms(2) by (cases "hs_reachable st") auto
  with counts texts occ j show ?thesis by blast
qed

theorem status_bounded_witness:
  "\<exists>st. status_from_json (JObj [(''projects'', JFloat (Fin (- 3))), (''occupied_by'', JStr ''x'')]) 2 = Inr st \<and>
     hs_reachable st \<and> 2 \<le> hs_projects st"
proof -
  obtain st where st: "status_from_json (JObj [(''projects'', JFloat (Fin (- 3))), (''occupied_by'', JStr ''x'')]) 2 = Inr st"
    by (simp add: status_from_json_def status_count_def status_number_def status_seconds_def)
  from status_bounded [OF st] st show ?thesis by auto
qed

text \<open>A number the agent writes with more than 308 digits is not coerced: it raises
  \<open>OverflowError\<close> out of the poll, which drops the reservations already released and keeps the
  previous status, so that the host stays as it was last seen (reachable) for as long as its agent
  answers so. The documentation of \<open>status_from_json\<close> says every field is coerced.\<close>

theorem status_overflow:
  "status_from_json (JObj [(''projects'', JInt (10 ^ 400))]) 0 = Inl OverflowError \<and>
   (\<forall>P n t rs. dget (po_reservations P) n = Some rs \<longrightarrow>
      fst (refresh_host n t (PollJson (JObj [(''projects'', JInt (10 ^ 400))])) P) = Inl RefreshOverflow \<and>
      po_status (snd (refresh_host n t (PollJson (JObj [(''projects'', JInt (10 ^ 400))])) P)) = po_status P)"
proof -
  have "float_limit \<le> (10 ^ 400 :: int)" unfolding float_limit_def by simp
  then have 1: "status_from_json (JObj [(''projects'', JInt (10 ^ 400))]) extra = Inl OverflowError" for extra
    by (simp add: status_from_json_def status_count_def status_number_def)
  then show ?thesis by (simp add: refresh_host_def consume_def Let_def)
qed

section \<open>A restart of an agent\<close>

text \<open>The portal does not take an agent for restarted while it is not: when the agent answers
  \<open>delay\<close> seconds after the poll with its uptime rounded to the second, an agent started before the
  request keeps the mark until the hold is over, and one started more than a second and that delay
  after the request loses it at once.\<close>

theorem restart_seen:
  assumes "rt_restart_sent rt = Some sent" "hs_reachable st" "hs_agent_uptime st = Some u"
    and "\<bar>of_int u - (polled_at + delay - started)\<bar> \<le> 1 / 2" "0 \<le> delay"
  shows "(started \<le> sent \<longrightarrow> polled_at - sent \<le> hold \<or> hs_restarting st \<longrightarrow> track_restart hold st polled_at rt = rt) \<and>
    (sent + 1 + delay < started \<longrightarrow> rt_restart_sent (track_restart hold st polled_at rt) = None)"
  using assms by (auto simp: track_restart_def Let_def abs_le_iff split: if_splits)

theorem restart_seen_witness:
  "rt_restart_sent (track_restart 120 ((down_status [])\<lparr>hs_reachable := True, hs_agent_uptime := Some 7\<rparr>) 110
     ((new_runtime SOURCE_CONFIG True)\<lparr>rt_restart_sent := Some 100\<rparr>)) = None"
  using restart_seen [of "(new_runtime SOURCE_CONFIG True)\<lparr>rt_restart_sent := Some 100\<rparr>" 100
      "(down_status [])\<lparr>hs_reachable := True, hs_agent_uptime := Some 7\<rparr>" 7 110 0 103 120]
  by simp

end
