(* ===== verification/Pool_Manager.thy ===== *)
theory Pool_Manager
  imports Pool_Safety
begin

text \<open>
  The elastic pool (\<open>src/sreweb/portal/manager.py\<close>) with the active hours of
  \<open>src/sreweb/config.py\<close>: which host to wake, which one to power off, the failures of the wakes and
  the actions of the manager on the runtime of a host. The clock of the loop is an argument; what a
  wake or a call of an agent gives is data.
\<close>

section \<open>The active hours\<close>

text \<open>\<open>parse_active_hours\<close>: \<open>HH:MM-HH:MM\<close> with spaces allowed around, \<open>None\<close> for always.\<close>

definition py_lspace :: "string \<Rightarrow> string" where
  "py_lspace s = dropWhile py_space s"

fun digits_value :: "string \<Rightarrow> nat" where
  "digits_value s = foldl (\<lambda>n c. 10 * n + (of_char c - 48)) 0 s"

text \<open>One or two digits, a colon and two digits, then the rest of the text. \<open>\d{1,2}\<close> is greedy; a
  digit it leaves cannot be the colon.\<close>

definition hour_minute :: "string \<Rightarrow> (nat \<times> nat \<times> string) option" where
  "hour_minute s =
     (let h = takeWhile is_digit s; r = dropWhile is_digit s in
      if h = [] \<or> 2 < length h then None
      else (case r of
              c # x # y # r2 \<Rightarrow> if c = CHR '':'' \<and> is_digit x \<and> is_digit y
                               then Some (digits_value h, digits_value [x, y], r2) else None
            | _ \<Rightarrow> None))"

definition parse_active_hours :: "string \<Rightarrow> unit + (nat \<times> nat) option" where
  "parse_active_hours value =
     (let s = py_strip value in
      if s = [] then Inr None
      else (case hour_minute s of
              None \<Rightarrow> Inl ()
            | Some (h1, m1, r) \<Rightarrow>
                (case py_lspace r of
                   c # r2 \<Rightarrow>
                     if c \<noteq> CHR ''-'' then Inl ()
                     else (case hour_minute (py_lspace r2) of
                             Some (h2, m2, []) \<Rightarrow>
                               if 24 < h1 \<or> 24 < h2 \<or> 59 < m1 \<or> 59 < m2 then Inl ()
                               else Inr (Some (h1 * 60 + m1, h2 * 60 + m2))
                           | _ \<Rightarrow> Inl ())
                 | [] \<Rightarrow> Inl ())))"

definition in_active_hours :: "(nat \<times> nat) option \<Rightarrow> nat \<Rightarrow> bool" where
  "in_active_hours hours minute_of_day =
     (case hours of
        None \<Rightarrow> True
      | Some (start_min, end_min) \<Rightarrow>
          if start_min \<le> end_min then start_min \<le> minute_of_day \<and> minute_of_day < end_min
          else start_min \<le> minute_of_day \<or> minute_of_day < end_min)"

section \<open>The policy\<close>

record pool_config =
  pc_spare_projects :: int
  pc_min_hosts_up :: int
  pc_active_hours :: "(nat \<times> nat) option"
  pc_wake_interval :: real
  pc_idle_host_timeout :: real

definition BACKOFF_MIN :: real where "BACKOFF_MIN = 60"
definition BACKOFF_MAX :: real where "BACKOFF_MAX = 1800"
definition POWER_OFF_HOLD :: real where "POWER_OFF_HOLD = 600"

definition AWAKE_STATES :: "host_state set" where
  "AWAKE_STATES = {STATE_UP, STATE_OCCUPIED, STATE_EXAM, STATE_DRAINING}"

record host_view =
  hv_name :: string
  hv_state :: host_state
  hv_projects :: int
  hv_max_projects :: int
  hv_can_wake :: bool
  hv_enabled :: bool
  hv_power :: bool
  hv_power_off_allowed :: bool
  hv_next_wake_at :: real
  hv_idle_for :: "real option"
  hv_drain :: bool
  hv_power_off_pending :: bool
  hv_instructors_only :: bool
  hv_restart_pending :: bool

definition awake_count :: "host_view list \<Rightarrow> int" where
  "awake_count hosts = int (length (filter (\<lambda>h. \<not> hv_instructors_only h \<and>
     (hv_state h \<in> AWAKE_STATES \<or> hv_state h = STATE_WAKING)) hosts))"

definition spare_capacity :: "host_view list \<Rightarrow> int" where
  "spare_capacity hosts =
     sum_list (map (\<lambda>h. hv_max_projects h - hv_projects h)
       (filter (\<lambda>h. hv_state h = STATE_UP \<and> \<not> hv_instructors_only h) hosts)) +
     sum_list (map hv_max_projects (filter (\<lambda>h. hv_state h = STATE_WAKING \<and> \<not> hv_instructors_only h) hosts))"

definition wakeable :: "real \<Rightarrow> host_view \<Rightarrow> bool" where
  "wakeable now h \<longleftrightarrow> \<not> (hv_state h \<noteq> STATE_OFF \<or> \<not> hv_can_wake h \<or> \<not> hv_enabled h \<or> hv_instructors_only h \<or>
     now < hv_next_wake_at h \<or> hv_restart_pending h)"

fun wake_loop :: "pool_config \<Rightarrow> real \<Rightarrow> bool \<Rightarrow> host_view list \<Rightarrow> int \<Rightarrow> int \<Rightarrow> string list" where
  "wake_loop cfg now active [] spare awake = []"
| "wake_loop cfg now active (h # hs) spare awake =
     (if wakeable now h \<and> (spare < pc_spare_projects cfg \<or> active \<and> awake < pc_min_hosts_up cfg)
      then hv_name h # wake_loop cfg now active hs (spare + hv_max_projects h) (awake + 1)
      else wake_loop cfg now active hs spare awake)"

definition wake_plan :: "host_view list \<Rightarrow> pool_config \<Rightarrow> real \<Rightarrow> bool \<Rightarrow> real \<Rightarrow> string list" where
  "wake_plan hosts cfg now active last_wake_at =
     (if now - last_wake_at < pc_wake_interval cfg then []
      else take 1 (wake_loop cfg now active hosts (spare_capacity hosts) (awake_count hosts)))"

definition empties :: "host_view list \<Rightarrow> host_view list" where
  "empties hosts = filter (\<lambda>h. (hv_state h = STATE_UP \<or> hv_state h = STATE_DRAINING) \<and> hv_projects h = 0 \<and>
     hv_power h \<and> hv_power_off_allowed h \<and> \<not> hv_power_off_pending h \<and> \<not> hv_restart_pending h) hosts"

definition idle_key :: "host_view \<Rightarrow> real" where
  "idle_key h = - (case hv_idle_for h of None \<Rightarrow> 0 | Some x \<Rightarrow> x)"

fun idle_loop :: "pool_config \<Rightarrow> host_view list \<Rightarrow> int \<Rightarrow> int \<Rightarrow> host_view list \<Rightarrow> string list" where
  "idle_loop cfg hosts awake floor_count [] = []"
| "idle_loop cfg hosts awake floor_count (h # hs) =
     (if (case hv_idle_for h of None \<Rightarrow> True | Some x \<Rightarrow> x < pc_idle_host_timeout cfg)
      then idle_loop cfg hosts awake floor_count hs
      else if hv_instructors_only h then [hv_name h]
      else if floor_count < awake \<and>
          pc_spare_projects cfg \<le> spare_capacity (filter (\<lambda>x. hv_name x \<noteq> hv_name h) hosts)
      then [hv_name h]
      else idle_loop cfg hosts awake floor_count hs)"

definition poweroff_plan :: "host_view list \<Rightarrow> pool_config \<Rightarrow> bool \<Rightarrow> string list" where
  "poweroff_plan hosts cfg active =
     (let drained = map hv_name (filter hv_drain (empties hosts)) in
      if drained \<noteq> [] then take 1 drained
      else if pc_idle_host_timeout cfg \<le> 0 then []
      else idle_loop cfg hosts (awake_count hosts) (if active then pc_min_hosts_up cfg else 0)
             (sort_key idle_key (empties hosts)))"

section \<open>The manager\<close>

definition view_of :: "pool \<Rightarrow> real \<Rightarrow> host \<Rightarrow> host_view" where
  "view_of P now h =
     (let st = status_of P (ho_name h); rt = runtime_of P (ho_name h); state = state_of P now (ho_name h) in
      \<lparr>hv_name = ho_name h, hv_state = state, hv_projects = hs_projects st, hv_max_projects = ho_max_projects h,
       hv_can_wake = can_wake h, hv_enabled = rt_enabled rt, hv_power = ho_power h,
       hv_power_off_allowed = hs_power_off_allowed st, hv_next_wake_at = rt_next_wake_at rt,
       hv_idle_for = (case rt_idle_since rt of
          Some t \<Rightarrow> if hs_projects st = 0 \<and> (state = STATE_UP \<or> state = STATE_DRAINING) then Some (now - t) else None
        | None \<Rightarrow> None),
       hv_drain = rt_drain rt,
       hv_power_off_pending = (case rt_power_off_sent rt of None \<Rightarrow> False | Some t \<Rightarrow> now - t < po_wake_timeout P),
       hv_instructors_only = ho_instructors_only h, hv_restart_pending = rt_restart_sent rt \<noteq> None\<rparr>)"

definition views :: "pool \<Rightarrow> real \<Rightarrow> host_view list" where
  "views P now = map (view_of P now) (vals_of (po_hosts P))"

record manager =
  mg_pool :: pool
  mg_last_wake_at :: real

definition put_runtime :: "string \<Rightarrow> runtime \<Rightarrow> pool \<Rightarrow> pool" where
  "put_runtime n rt P = P\<lparr>po_runtime := dset (po_runtime P) n rt\<rparr>"

definition track_idle1 :: "real \<Rightarrow> string \<times> host_status \<Rightarrow> pool \<Rightarrow> pool" where
  "track_idle1 now e P =
     (case e of (n, st) \<Rightarrow>
        (let rt = runtime_of P n in
         if hs_reachable st \<and> hs_projects st = 0
         then (if rt_idle_since rt = None then put_runtime n (rt\<lparr>rt_idle_since := Some now\<rparr>) P else P)
         else put_runtime n (rt\<lparr>rt_idle_since := None\<rparr>) P))"

definition track_idle :: "real \<Rightarrow> pool \<Rightarrow> pool" where
  "track_idle now P = fold (track_idle1 now) (po_status P) P"

text \<open>\<open>_wake_failed\<close>: \<open>BACKOFF_MIN * 2 ** (failures - 1)\<close> turns the integer into a double, which
  raises \<open>OverflowError\<close> from \<open>2\<^sup>1\<^sup>0\<^sup>2\<^sup>4\<close> on, after the failure has been counted and before the next
  attempt is set.\<close>

definition wake_failed :: "real \<Rightarrow> runtime \<Rightarrow> status_error option \<times> runtime" where
  "wake_failed now rt =
     (let n = Suc (rt_wake_failures rt); rt1 = rt\<lparr>rt_woken_at := None, rt_wake_failures := n\<rparr> in
      if 1024 \<le> n - 1 then (Some OverflowError, rt1)
      else (None, rt1\<lparr>rt_next_wake_at := now + min (BACKOFF_MIN * 2 ^ (n - 1)) BACKOFF_MAX\<rparr>))"

definition wake_expired :: "pool \<Rightarrow> real \<Rightarrow> string \<Rightarrow> runtime \<Rightarrow> bool" where
  "wake_expired P now n rt \<longleftrightarrow>
     (case rt_woken_at rt of
        None \<Rightarrow> False
      | Some t \<Rightarrow> \<not> hs_reachable (status_of P n) \<and> po_wake_timeout P \<le> now - t)"

text \<open>\<open>_expire_wakes\<close>: the loop stops at an exception.\<close>

fun expire_loop :: "real \<Rightarrow> string list \<Rightarrow> pool \<Rightarrow> status_error option \<times> pool" where
  "expire_loop now [] P = (None, P)"
| "expire_loop now (n # ns) P =
     (if wake_expired P now n (runtime_of P n)
      then (case wake_failed now (runtime_of P n) of
              (Some err, rt) \<Rightarrow> (Some err, put_runtime n rt P)
            | (None, rt) \<Rightarrow> expire_loop now ns (put_runtime n rt P))
      else expire_loop now ns P)"

definition expire_wakes :: "real \<Rightarrow> pool \<Rightarrow> status_error option \<times> pool" where
  "expire_wakes now P = expire_loop now (keys_of (po_runtime P)) P"

text \<open>\<open>wake\<close>: \<open>sent\<close> says whether the wake command or the packet went through.\<close>

datatype manager_error = MgPool pool_error | MgOverflow

definition wake :: "string \<Rightarrow> string \<Rightarrow> real \<Rightarrow> bool \<Rightarrow> manager \<Rightarrow> (manager_error + unit) \<times> manager" where
  "wake n why now sent M =
     (case find_host (mg_pool M) n of
        Inl e \<Rightarrow> (Inl (MgPool e), M)
      | Inr h \<Rightarrow>
          if \<not> can_wake h then (Inl (MgPool (PoolError 409 ''it has no mac nor wake_command'' None)), M)
          else (let P = mg_pool M; M1 = M\<lparr>mg_last_wake_at := now\<rparr> in
                if sent then
                  (Inr (), M1\<lparr>mg_pool := put_runtime n ((runtime_of P n)\<lparr>rt_woken_at := Some now, rt_wake_reason := why\<rparr>) P\<rparr>)
                else (case wake_failed now (runtime_of P n) of
                        (Some err, rt) \<Rightarrow> (Inl MgOverflow, M1\<lparr>mg_pool := put_runtime n rt P\<rparr>)
                      | (None, rt) \<Rightarrow> (Inl (MgPool (PoolError 502 ''the wake failed'' None)),
                                     M1\<lparr>mg_pool := put_runtime n rt P\<rparr>))))"

text \<open>What a \<open>POST\<close> to an agent gives: its status, or no answer.\<close>

datatype agent_answer = AgentStatus nat | AgentSilent

definition refusal :: "agent_answer \<Rightarrow> pool_error option" where
  "refusal a = (case a of
       AgentSilent \<Rightarrow> Some (PoolError 502 ''it does not answer'' None)
     | AgentStatus s \<Rightarrow> if s = 200 then None else Some (PoolError s ''it refused'' None))"

definition power_off :: "string \<Rightarrow> real \<Rightarrow> agent_answer \<Rightarrow> manager \<Rightarrow> (pool_error + unit) \<times> manager" where
  "power_off n now answer M =
     (case find_host (mg_pool M) n of
        Inl e \<Rightarrow> (Inl e, M)
      | Inr h \<Rightarrow>
          (let P = mg_pool M; rt = runtime_of P n in
           if \<not> hs_reachable (status_of P n) then (Inl (PoolError 409 ''it is not reachable'' None), M)
           else (case refusal answer of
                   Some e \<Rightarrow> (Inl e, M)
                 | None \<Rightarrow> (Inr (), M\<lparr>mg_pool := put_runtime n (rt\<lparr>rt_drain := True, rt_power_off_sent := Some now,
                      rt_next_wake_at := max (rt_next_wake_at rt) (now + POWER_OFF_HOLD)\<rparr>) P\<rparr>))))"

definition restart_agent :: "string \<Rightarrow> real \<Rightarrow> agent_answer \<Rightarrow> manager \<Rightarrow> (pool_error + unit) \<times> manager" where
  "restart_agent n now answer M =
     (case find_host (mg_pool M) n of
        Inl e \<Rightarrow> (Inl e, M)
      | Inr h \<Rightarrow>
          (let P = mg_pool M; rt = runtime_of P n in
           if \<not> hs_reachable (status_of P n) then (Inl (PoolError 409 ''it is not reachable'' None), M)
           else if rt_restart_sent rt \<noteq> None then (Inl (PoolError 409 ''a restart was sent already'' None), M)
           else (case refusal answer of
                   Some e \<Rightarrow> (Inl e, M)
                 | None \<Rightarrow> (Inr (), M\<lparr>mg_pool := put_runtime n (rt\<lparr>rt_restart_sent := Some now\<rparr>) P\<rparr>))))"

text \<open>\<open>tick\<close>: at most one wake and one power off; \<open>sent\<close> and \<open>answer\<close> are what they meet, \<open>minute\<close> the
  minute of the day. An exception of the expiry ends the tick.\<close>

definition tick_manager :: "pool_config \<Rightarrow> nat \<Rightarrow> real \<Rightarrow> (string \<Rightarrow> bool) \<Rightarrow> (string \<Rightarrow> agent_answer) \<Rightarrow> manager \<Rightarrow>
    status_error option \<times> manager" where
  "tick_manager cfg minute now sent answer M =
     (case expire_wakes now (track_idle now (mg_pool M)) of
        (Some err, P) \<Rightarrow> (Some err, M\<lparr>mg_pool := P\<rparr>)
      | (None, P) \<Rightarrow>
          (let M1 = M\<lparr>mg_pool := P\<rparr>; vs = views P now; active = in_active_hours (pc_active_hours cfg) minute;
               why = (if spare_capacity vs < pc_spare_projects cfg then ''spare capacity'' else ''floor'');
               wakes = wake_plan vs cfg now active (mg_last_wake_at M1);
               (err, M2) = (case wakes of
                  [] \<Rightarrow> (None, M1)
                | n # _ \<Rightarrow> (case wake n why now (sent n) M1 of
                             (Inl MgOverflow, M') \<Rightarrow> (Some OverflowError, M')
                           | (_, M') \<Rightarrow> (None, M')))
           in if err \<noteq> None then (err, M2)
              else (None, fold (\<lambda>n M. snd (power_off n now (answer n) M)) (poweroff_plan vs cfg active) M2)))"

end
