(* ===== verification/Pool_Membership.thy ===== *)
theory Pool_Membership
  imports Pool_Safety
begin

text \<open>
  The membership of the pool over a restart of the portal (\<open>save_state\<close> and \<open>load_state\<close> of
  \<open>src/sreweb/portal/pool.py\<close>, \<open>host_config_from_dict\<close> of \<open>src/sreweb/config.py\<close>).
\<close>

section \<open>An entry of the state file\<close>

definition mac_norm :: "char \<Rightarrow> char" where
  "mac_norm c = (if c = CHR ''-'' then CHR '':'' else lower_char c)"

lemma char_eq_nat: "(c :: char) = d \<longleftrightarrow> (of_char c :: nat) = of_char d"
  by simp

lemma char_le_nat: "(c :: char) \<le> d \<longleftrightarrow> (of_char c :: nat) \<le> of_char d"
  by (simp add: less_eq_char_def)

lemma hex_char_nat: "hex_char c \<longleftrightarrow> (let n = (of_char c :: nat) in (48 \<le> n \<and> n \<le> 57) \<or> (97 \<le> n \<and> n \<le> 102) \<or> (65 \<le> n \<and> n \<le> 70))"
  by (simp add: hex_char_def is_digit_def char_le_nat Let_def)

lemma lower_char_nat: "of_char (lower_char c) = (if 65 \<le> (of_char c :: nat) \<and> (of_char c :: nat) \<le> 90 then of_char c + 32 else (of_char c :: nat))"
  by (auto simp: lower_char_def is_upper_def char_le_nat)

lemma mac_norm_hex:
  assumes "hex_char c"
  shows "hex_char (mac_norm c)" "mac_norm (mac_norm c) = mac_norm c" "\<not> py_space (mac_norm c)"
proof -
  have "c \<noteq> CHR ''-''" using assms by (auto simp: hex_char_nat Let_def)
  then have m: "mac_norm c = lower_char c" by (simp add: mac_norm_def)
  have n: "(of_char (lower_char c) :: nat) \<in> {48..57} \<union> {97..102}"
    using assms by (auto simp: lower_char_nat hex_char_nat Let_def)
  then show "hex_char (mac_norm c)" "\<not> py_space (mac_norm c)"
    unfolding m by (auto simp: hex_char_nat py_space_def Let_def)
  have "lower_char c \<noteq> CHR ''-''" using n by (auto simp: char_eq_nat)
  moreover have "lower_char (lower_char c) = lower_char c"
    using n unfolding char_eq_nat lower_char_nat [of "lower_char c"] by auto
  ultimately show "mac_norm (mac_norm c) = mac_norm c" unfolding m by (simp add: mac_norm_def)
qed

lemma mac_norm_sep: "mac_norm CHR ''-'' = CHR '':''" "mac_norm CHR '':'' = CHR '':''"
  by (simp_all add: mac_norm_def lower_char_def is_upper_def char_le_nat)

lemma mac_match_norm: "mac_match n s \<Longrightarrow> mac_match n (map mac_norm s) \<and> map mac_norm (map mac_norm s) = map mac_norm s"
  by (induction n s rule: mac_match.induct) (auto simp: mac_norm_hex mac_norm_sep)

lemma mac_match_numeral: "mac_match (numeral k) (a # b # c # s) =
    (hex_char a \<and> hex_char b \<and> (c = CHR '':'' \<or> c = CHR ''-'') \<and> mac_match (pred_numeral k) s)"
  by (simp add: numeral_eq_Suc)

lemma mac_match_ends:
  "mac_match n s \<Longrightarrow> s \<noteq> [] \<and> hex_char (hd s) \<and> hex_char (last s)"
  by (induction n s rule: mac_match.induct) auto

lemma py_strip_id: "s \<noteq> [] \<Longrightarrow> \<not> py_space (hd s) \<Longrightarrow> \<not> py_space (last s) \<Longrightarrow> py_strip s = s"
proof -
  assume a: "s \<noteq> []" "\<not> py_space (hd s)" "\<not> py_space (last s)"
  then have "dropWhile py_space s = s" by (cases s) simp_all
  moreover have "dropWhile py_space (rev s) = rev s" using a by (cases "rev s") (auto simp: last_rev hd_rev [symmetric])
  ultimately show ?thesis by (simp add: py_strip_def)
qed

lemma parse_mac_idem: "parse_mac s = Inr m \<Longrightarrow> m \<noteq> [] \<and> parse_mac m = Inr m"
proof -
  assume "parse_mac s = Inr m"
  then have t: "mac_match 5 (py_strip s)" and m: "m = map mac_norm (py_strip s)"
    by (auto simp: parse_mac_def Let_def mac_norm_def split: if_splits)
  note n = mac_match_norm [OF t]
  from n have mm: "mac_match 5 m" by (simp add: m)
  note ends = mac_match_ends [OF mm]
  have "\<not> py_space (hd m)" "\<not> py_space (last m)"
    using mac_match_ends [OF t] mac_norm_hex(3) by (auto simp: m hd_map last_map)
  then have "py_strip m = m" using ends by (intro py_strip_id) auto
  moreover have "map mac_norm m = m" using n by (simp add: m)
  then have "map (\<lambda>c. if c = CHR ''-'' then CHR '':'' else lower_char c) m = m" by (simp add: mac_norm_def [abs_def])
  ultimately show ?thesis using mm ends by (simp add: parse_mac_def Let_def)
qed

text \<open>An entry of a host that is accepted is written back and accepted again as the same host
  (its MAC address in its normal form).\<close>

theorem host_entry_roundtrip:
  assumes "host_config_from_dict v = Inr h"
  shows "host_config_from_dict (host_json h) = Inr h"
proof -
  from assms obtain d mac name url tok wk n pw en only where v: "v = JObj d"
    and m: "ebind (text_field d ''mac'') (\<lambda>m. if m = [] then Inr [] else parse_mac m) = Inr mac"
    and c: "name \<noteq> []" "url \<noteq> []" "tok \<noteq> []" "valid_login_match name" "\<not> n < 1"
    and h: "h = \<lparr>ho_name = name, ho_url = url, ho_token = tok, ho_max_projects = n, ho_mac = mac,
       ho_wake_command = wk, ho_power = pw, ho_enabled = en, ho_instructors_only = only\<rparr>"
    unfolding host_config_from_dict_def by (auto elim!: ebind_InrE split: json.splits if_splits)
  have "(if mac = [] then Inr [] else parse_mac mac) = Inr mac"
    using m by (auto elim!: ebind_InrE split: if_splits dest!: parse_mac_idem)
  then show ?thesis
    using c by (simp add: h host_config_from_dict_def host_json_def text_field_def bool_field_def host_keys_def keys_of_def)
qed

definition demo_host :: "string \<Rightarrow> host" where
  "demo_host n = \<lparr>ho_name = n, ho_url = ''u'', ho_token = ''t'', ho_max_projects = 2, ho_mac = [],
     ho_wake_command = [], ho_power = True, ho_enabled = True, ho_instructors_only = False\<rparr>"

lemma login_char_demo: "valid_login_match ''a'' \<and> valid_login_match ''b''"
  by (simp add: valid_login_match_def before_dollar_def login_char_def is_alnum_def is_lower_def char_le_nat)

lemma lower_demo: "lower_char CHR ''A'' = CHR ''a''" "lower_char CHR ''F'' = CHR ''f''" "lower_char CHR ''b'' = CHR ''b''"
  "lower_char CHR ''c'' = CHR ''c''" "lower_char CHR ''d'' = CHR ''d''" "lower_char CHR ''e'' = CHR ''e''"
  "lower_char CHR ''0'' = CHR ''0''"
  unfolding char_eq_nat lower_char_nat by simp_all

theorem host_entry_roundtrip_witness:
  "host_config_from_dict (host_json ((demo_host ''a'')\<lparr>ho_mac := ''aa:bb:cc:dd:ee:0f''\<rparr>)) =
     Inr ((demo_host ''a'')\<lparr>ho_mac := ''aa:bb:cc:dd:ee:0f''\<rparr>)"
proof -
  let ?v = "JObj [(''name'', JStr ''a''), (''url'', JStr ''u''), (''token'', JStr ''t''), (''max_projects'', JInt 2),
     (''mac'', JStr '' AA-bb-cc-dd-ee-0F''), (''power'', JBool True)]"
  have "host_config_from_dict ?v = Inr ((demo_host ''a'')\<lparr>ho_mac := ''aa:bb:cc:dd:ee:0f''\<rparr>)"
    using login_char_demo
    by (simp add: host_config_from_dict_def text_field_def bool_field_def host_keys_def keys_of_def demo_host_def parse_mac_def
        py_strip_def py_space_def Let_def mac_match_numeral hex_char_nat lower_demo)
  from host_entry_roundtrip [OF this] show ?thesis .
qed

section \<open>The membership\<close>

type_synonym membership = "string \<Rightarrow> (host \<times> host_source \<times> bool) option"

text \<open>What a pool that has just been built holds: each host fresh, from its source, enabled or not.\<close>

definition fresh_pool :: "pool \<Rightarrow> membership \<Rightarrow> string set \<Rightarrow> bool" where
  "fresh_pool P f gone \<longleftrightarrow> set (po_removed P) = gone \<and>
     (\<forall>n. dget (po_hosts P) n = map_option fst (f n) \<and>
          dget (po_runtime P) n = map_option (\<lambda>(h, src, en). new_runtime src en) (f n))"

lemma fresh_register:
  "fresh_pool P f gone \<Longrightarrow> fresh_pool (register h src P) (f(ho_name h \<mapsto> (h, src, ho_enabled h))) gone"
  by (simp add: fresh_pool_def register_def)

lemma fresh_runtime: "fresh_pool P f gone \<Longrightarrow> f n = Some (h, src, en) \<Longrightarrow> runtime_of P n = new_runtime src en"
  by (simp add: fresh_pool_def runtime_of_def)

definition from_config :: "membership \<Rightarrow> string \<Rightarrow> bool" where
  "from_config f n \<longleftrightarrow> (\<exists>h en. f n = Some (h, SOURCE_CONFIG, en))"

lemma fresh_source:
  assumes "fresh_pool P f gone"
  shows "dget (po_hosts P) n \<noteq> None \<and> rt_source (runtime_of P n) = SOURCE_CONFIG \<longleftrightarrow> from_config f n"
proof (cases "f n")
  case None
  with assms show ?thesis by (simp add: fresh_pool_def from_config_def)
next
  case (Some x)
  obtain h src en where x: "x = (h, src, en)" by (cases x)
  with assms Some fresh_runtime [OF assms] show ?thesis
    by (auto simp: fresh_pool_def from_config_def new_runtime_def)
qed

lemma fresh_load_removed:
  assumes "fresh_pool P f gone"
  shows "fresh_pool (load_removed n P) (if from_config f n then f(n := None) else f) (if from_config f n then insert n gone else gone)"
  using assms fresh_source [OF assms, of n]
  by (auto simp: load_removed_def fresh_pool_def pop_tables_def)

lemma fresh_loads_removed:
  "fresh_pool P f gone \<Longrightarrow> fresh_pool (fold load_removed ns P)
     (\<lambda>n. if n \<in> set ns \<and> from_config f n then None else f n) (gone \<union> {n \<in> set ns. from_config f n})"
proof (induction ns arbitrary: P f gone)
  case Nil
  then show ?case by simp
next
  case (Cons m ns)
  let ?f = "if from_config f m then f(m := None) else f"
  let ?g = "if from_config f m then insert m gone else gone"
  have c: "from_config ?f n \<longleftrightarrow> from_config f n \<and> \<not> (n = m \<and> from_config f m)" for n
    by (auto simp: from_config_def)
  have "(\<lambda>n. if n \<in> set ns \<and> from_config ?f n then None else ?f n) =
      (\<lambda>n. if n \<in> set (m # ns) \<and> from_config f n then None else f n)"
    by (rule ext) (auto simp: c)
  moreover have "?g \<union> {n \<in> set ns. from_config ?f n} = gone \<union> {n \<in> set (m # ns). from_config f n}"
    by (auto simp: c)
  ultimately show ?case using Cons.IH [OF fresh_load_removed [OF Cons.prems], of m] by (simp del: fun_upd_apply)
qed

lemma fresh_loads_added:
  assumes "fresh_pool P f gone" "\<forall>h \<in> set hs. host_config_from_dict (host_json h) = Inr h \<and> \<not> from_config f (ho_name h)"
  shows "\<exists>g. fresh_pool (fold load_added (map host_json hs) P) g gone \<and>
    (\<forall>n. n \<notin> ho_name ` set hs \<longrightarrow> g n = f n) \<and>
    (distinct (map ho_name hs) \<longrightarrow> (\<forall>h \<in> set hs. g (ho_name h) = Some (h, SOURCE_ADDED, ho_enabled h)))"
  using assms
proof (induction hs arbitrary: P f)
  case Nil
  then show ?case by auto
next
  case (Cons h hs)
  let ?f = "f(ho_name h \<mapsto> (h, SOURCE_ADDED, ho_enabled h))"
  have "load_added (host_json h) P = register h SOURCE_ADDED P"
    using Cons.prems fresh_source [OF Cons.prems(1), of "ho_name h"] by (auto simp: load_added_def)
  then have 1: "fresh_pool (load_added (host_json h) P) ?f gone" using fresh_register [OF Cons.prems(1)] by simp
  have "\<forall>k \<in> set hs. host_config_from_dict (host_json k) = Inr k \<and> \<not> from_config ?f (ho_name k)"
    using Cons.prems(2) by (auto simp: from_config_def)
  from Cons.IH [OF 1 this] obtain g where
    g: "fresh_pool (fold load_added (map host_json hs) (load_added (host_json h) P)) g gone"
    "\<forall>n. n \<notin> ho_name ` set hs \<longrightarrow> g n = ?f n"
    "distinct (map ho_name hs) \<longrightarrow> (\<forall>k \<in> set hs. g (ho_name k) = Some (k, SOURCE_ADDED, ho_enabled k))" by blast
  show ?case
  proof (intro exI conjI)
    show "fresh_pool (fold load_added (map host_json (h # hs)) P) g gone" using g(1) by simp
    show "\<forall>n. n \<notin> ho_name ` set (h # hs) \<longrightarrow> g n = f n" using g(2) by auto
    show "distinct (map ho_name (h # hs)) \<longrightarrow> (\<forall>k \<in> set (h # hs). g (ho_name k) = Some (k, SOURCE_ADDED, ho_enabled k))"
      using g(2,3) by auto
  qed
qed

lemma fresh_load_disabled:
  assumes "fresh_pool P f gone"
  shows "fresh_pool (load_disabled n P) (f(n := map_option (\<lambda>(h, src, en). (h, src, False)) (f n))) gone"
proof (cases "f n")
  case None
  with assms show ?thesis by (simp add: load_disabled_def fresh_pool_def fun_upd_idem)
next
  case (Some x)
  with assms show ?thesis by (cases x) (auto simp: load_disabled_def fresh_pool_def new_runtime_def)
qed

lemma fresh_loads_disabled:
  "fresh_pool P f gone \<Longrightarrow>
   fresh_pool (fold load_disabled ns P) (\<lambda>n. map_option (\<lambda>(h, src, en). (h, src, en \<and> n \<notin> set ns)) (f n)) gone"
proof (induction ns arbitrary: P f)
  case Nil
  then show ?case by (simp add: option.map_ident split_def)
next
  case (Cons m ns)
  from Cons.IH [OF fresh_load_disabled [OF Cons.prems, of m]]
  have "fresh_pool (fold load_disabled (m # ns) P) (\<lambda>n. map_option (\<lambda>(h, src, en). (h, src, en \<and> n \<notin> set ns))
      ((f(m := map_option (\<lambda>(h, src, en). (h, src, False)) (f m))) n)) gone" by simp
  moreover have "(\<lambda>n. map_option (\<lambda>(h, src, en). (h, src, en \<and> n \<notin> set ns))
      ((f(m := map_option (\<lambda>(h, src, en). (h, src, False)) (f m))) n)) =
     (\<lambda>n. map_option (\<lambda>(h, src, en). (h, src, en \<and> n \<notin> set (m # ns))) (f n))"
    by (rule ext) (auto simp: option.map_comp split_def comp_def)
  ultimately show ?case by simp
qed

text \<open>The hosts of the configuration.\<close>

lemma fresh_registers:
  assumes "fresh_pool P f gone"
  shows "fresh_pool (fold (\<lambda>h. register h SOURCE_CONFIG) hs P)
    (fold (\<lambda>h f. f(ho_name h \<mapsto> (h, SOURCE_CONFIG, ho_enabled h))) hs f) gone"
  using assms by (induction hs arbitrary: P f) (simp_all add: fresh_register)

lemma fold_config:
  "(\<forall>n. f n = map_option (\<lambda>h. (h, SOURCE_CONFIG, ho_enabled h)) (dget d n)) \<Longrightarrow>
   fold (\<lambda>h f. f(ho_name h \<mapsto> (h, SOURCE_CONFIG, ho_enabled h))) hs f n =
     map_option (\<lambda>h. (h, SOURCE_CONFIG, ho_enabled h)) (dget (fold (\<lambda>h d. dset d (ho_name h) h) hs d) n)"
  by (induction hs arbitrary: f d) auto

lemma json_texts_map [simp]: "json_texts (map JStr xs) = xs"
  by (induction xs) simp_all

lemma empty_pool_frame:
  "po_has_file (fold (\<lambda>h. register h src) hs P) = po_has_file P" "po_file (fold (\<lambda>h. register h src) hs P) = po_file P"
  "po_has_file (empty_pool hs b file wt rh fl) = b" "po_file (empty_pool hs b file wt rh fl) = file"
  by (induction hs arbitrary: P) (simp_all add: register_def empty_pool_def)

text \<open>C36: A restart of the portal keeps the membership decided by hand: over the same configuration,
  the pool built from the state file the portal has written has the same hosts, from the same
  source, enabled or not as they were, and the same hosts removed (when no host is disabled in its
  definition itself).\<close>

theorem membership_survives_restart:
  assumes "pool_ok P" "po_config P = fold (\<lambda>h d. dset d (ho_name h) h) hs []"
    and "\<forall>n h. dget (po_hosts P) n = Some h \<or> dget (po_config P) n = Some h \<longrightarrow>
       ho_enabled h \<and> host_config_from_dict (host_json h) = Inr h"
  shows "let R = new_pool hs True (Some (saved_state P)) wake_timeout restart_hold follow in
    set (po_removed R) = set (po_removed P) \<and>
    (\<forall>n. dget (po_hosts R) n = dget (po_hosts P) n \<and>
       (dget (po_hosts P) n \<noteq> None \<longrightarrow> rt_source (runtime_of R n) = rt_source (runtime_of P n) \<and>
          rt_enabled (runtime_of R n) = rt_enabled (runtime_of P n)))"
proof -
  let ?E = "empty_pool hs True (Some (saved_state P)) wake_timeout restart_hold follow"
  let ?f0 = "\<lambda>n. map_option (\<lambda>h. (h, SOURCE_CONFIG, ho_enabled h)) (dget (po_config P) n)"
  have "fresh_pool ?E (\<lambda>n. None) {}" by (simp add: fresh_pool_def empty_pool_def)
  from fresh_registers [OF this, of hs]
  have "fresh_pool (fold (\<lambda>h. register h SOURCE_CONFIG) hs ?E)
      (fold (\<lambda>h f. f(ho_name h \<mapsto> (h, SOURCE_CONFIG, ho_enabled h))) hs (\<lambda>n. None)) {}" .
  moreover have "fold (\<lambda>h f. f(ho_name h \<mapsto> (h, SOURCE_CONFIG, ho_enabled h))) hs (\<lambda>n. None) = ?f0"
    by (rule ext, subst fold_config [where d = "[]"]) (simp_all add: assms(2))
  ultimately have 0: "fresh_pool (fold (\<lambda>h. register h SOURCE_CONFIG) hs ?E) ?f0 {}" by simp
  have c0: "from_config ?f0 n \<longleftrightarrow> dget (po_config P) n \<noteq> None" for n by (auto simp: from_config_def)
  let ?f1 = "\<lambda>n. if n \<in> set (po_removed P) then None else ?f0 n"
  have rem: "n \<in> set (po_removed P) \<longleftrightarrow> dget (po_config P) n \<noteq> None \<and> dget (po_hosts P) n = None" for n
    using pool_no_row(4) [OF assms(1), of n] by (cases "dget (po_hosts P) n") (auto elim: pool_row [OF assms(1)])
  define P1 where "P1 = fold load_removed (sort (po_removed P)) (fold (\<lambda>h. register h SOURCE_CONFIG) hs ?E)"
  have "(\<lambda>n. if n \<in> set (sort (po_removed P)) \<and> from_config ?f0 n then None else ?f0 n) = ?f1"
    using rem by (auto simp: fun_eq_iff c0)
  moreover have "{} \<union> {n \<in> set (sort (po_removed P)). from_config ?f0 n} = set (po_removed P)"
    using rem by (auto simp: c0)
  ultimately have 1: "fresh_pool P1 ?f1 (set (po_removed P))"
    using fresh_loads_removed [OF 0, of "sort (po_removed P)"] by (simp add: P1_def)
  define added where "added = filter (\<lambda>(n, rt). rt_source rt = SOURCE_ADDED) (po_runtime P)"
  define hl where "hl = map (\<lambda>(n, rt). the (dget (po_hosts P) n)) added"
  have entry: "(n, rt) \<in> set added \<longleftrightarrow> dget (po_runtime P) n = Some rt \<and> rt_source rt = SOURCE_ADDED" for n rt
    using pool_okD(1) [OF assms(1)] by (simp add: added_def tables_ok_def dict_ok_def map_of_eq_Some_iff)
  have row: "\<exists>h. dget (po_hosts P) n = Some h \<and> ho_name h = n \<and> dget (po_config P) n = None" if "(n, rt) \<in> set added" for n rt
  proof -
    from that have rt: "dget (po_runtime P) n = Some rt" "rt_source rt = SOURCE_ADDED" by (simp_all add: entry)
    then obtain h where h: "dget (po_hosts P) n = Some h" using pool_no_row(2) [OF assms(1), of n] by auto
    from assms(1) h obtain rt' where "ho_name h = n" "rt_source rt' = SOURCE_CONFIG \<longleftrightarrow> dget (po_config P) n \<noteq> None"
      "dget (po_runtime P) n = Some rt'" by (rule pool_row) blast
    with rt h show ?thesis by simp
  qed
  have names: "map ho_name hl = map fst added"
  proof -
    have "ho_name (case x of (n, rt) \<Rightarrow> the (dget (po_hosts P) n)) = fst x" if "x \<in> set added" for x
      using row [of "fst x" "snd x"] that by (auto simp: case_prod_beta)
    then show ?thesis by (simp add: hl_def)
  qed
  then have dist: "distinct (map ho_name hl)"
    using pool_okD(1) [OF assms(1)] by (simp add: added_def tables_ok_def dict_ok_def distinct_map_filter)
  have hl: "h \<in> set hl \<longleftrightarrow> dget (po_hosts P) (ho_name h) = Some h \<and> rt_source (runtime_of P (ho_name h)) = SOURCE_ADDED" for h
  proof
    assume "h \<in> set hl"
    then obtain n rt where n: "(n, rt) \<in> set added" "h = the (dget (po_hosts P) n)" by (auto simp: hl_def)
    with row [OF n(1)] show "dget (po_hosts P) (ho_name h) = Some h \<and> rt_source (runtime_of P (ho_name h)) = SOURCE_ADDED"
      by (auto simp: entry runtime_of_def)
  next
    assume h: "dget (po_hosts P) (ho_name h) = Some h \<and> rt_source (runtime_of P (ho_name h)) = SOURCE_ADDED"
    then obtain rt where "dget (po_runtime P) (ho_name h) = Some rt" "runtime_of P (ho_name h) = rt"
      using pool_row [OF assms(1)] by metis
    with h have "(ho_name h, rt) \<in> set added" by (simp add: entry)
    with h show "h \<in> set hl" by (force simp: hl_def)
  qed
  have "\<forall>h \<in> set hl. host_config_from_dict (host_json h) = Inr h \<and> \<not> from_config ?f1 (ho_name h)"
  proof
    fix h assume "h \<in> set hl"
    then have h: "dget (po_hosts P) (ho_name h) = Some h" "rt_source (runtime_of P (ho_name h)) = SOURCE_ADDED" by (simp_all add: hl)
    then have "dget (po_config P) (ho_name h) = None" by (auto elim: pool_row [OF assms(1)])
    with h(1) assms(3) show "host_config_from_dict (host_json h) = Inr h \<and> \<not> from_config ?f1 (ho_name h)"
      by (auto simp: from_config_def)
  qed
  from fresh_loads_added [OF 1 this] dist obtain g where g: "fresh_pool (fold load_added (map host_json hl) P1) g (set (po_removed P))"
    "\<forall>n. n \<notin> ho_name ` set hl \<longrightarrow> g n = ?f1 n" "\<forall>h \<in> set hl. g (ho_name h) = Some (h, SOURCE_ADDED, ho_enabled h)" by blast
  define ns where "ns = sort (map fst (filter (\<lambda>(n, rt). \<not> rt_enabled rt) (po_runtime P)))"
  have ns: "n \<in> set ns \<longleftrightarrow> \<not> rt_enabled (runtime_of P n)" if "dget (po_hosts P) n \<noteq> None" for n
  proof -
    from that obtain h where h: "dget (po_hosts P) n = Some h" by blast
    from assms(1) h obtain rt where "dget (po_runtime P) n = Some rt" "runtime_of P n = rt" by (rule pool_row) blast
    then show ?thesis
      using pool_okD(1) [OF assms(1)] map_of_eq_Some_iff [of "po_runtime P" n]
      by (force simp: ns_def tables_ok_def dict_ok_def)
  qed
  let ?f3 = "\<lambda>n. map_option (\<lambda>(h, src, en). (h, src, en \<and> n \<notin> set ns)) (g n)"
  define R where "R = new_pool hs True (Some (saved_state P)) wake_timeout restart_hold follow"
  have "map (\<lambda>(n, rt). case dget (po_hosts P) n of Some h \<Rightarrow> host_json h | None \<Rightarrow> JNull) added = map host_json hl"
    unfolding hl_def using row by (fastforce simp: comp_def)
  then have R: "R = fold load_disabled ns (fold load_added (map host_json hl) P1)"
    unfolding R_def new_pool_def load_state_def P1_def
    by (simp add: saved_state_def json_list_def ns_def added_def [symmetric] empty_pool_frame)
  have 3: "fresh_pool R ?f3 (set (po_removed P))" unfolding R using g(1) by (rule fresh_loads_disabled)
  have f3: "?f3 n = (case dget (po_hosts P) n of None \<Rightarrow> None
      | Some h \<Rightarrow> Some (h, rt_source (runtime_of P n), rt_enabled (runtime_of P n)))" for n
  proof (cases "dget (po_hosts P) n")
    case None
    then have "n \<notin> ho_name ` set hl" by (auto simp: hl)
    with g(2) None rem [of n] show ?thesis by (cases "dget (po_config P) n") auto
  next
    case (Some h)
    from assms(1) Some have r: "ho_name h = n" "rt_source (runtime_of P n) = SOURCE_CONFIG \<longleftrightarrow> dget (po_config P) n \<noteq> None"
      "dget (po_config P) n \<noteq> None \<longrightarrow> dget (po_config P) n = Some h" "n \<notin> set (po_removed P)"
      by (auto elim: pool_row)
    have en: "ho_enabled h" using assms(3) Some by blast
    show ?thesis
    proof (cases "dget (po_config P) n")
      case None
      then have "rt_source (runtime_of P n) = SOURCE_ADDED" using r(2) by (cases "rt_source (runtime_of P n)") auto
      with g(3) hl [of h] Some r(1) en ns [of n] show ?thesis by auto
    next
      case (Some h')
      then have "rt_source (runtime_of P n) = SOURCE_CONFIG" using r by simp
      then have "n \<notin> ho_name ` set hl" by (auto simp: hl)
      with g(2) r Some en ns [of n] \<open>dget (po_hosts P) n = Some h\<close> \<open>rt_source (runtime_of P n) = SOURCE_CONFIG\<close>
      show ?thesis by auto
    qed
  qed
  have "dget (po_hosts R) n = dget (po_hosts P) n" for n
    using 3 f3 [of n] by (auto simp: fresh_pool_def split: option.splits)
  moreover have "rt_source (runtime_of R n) = rt_source (runtime_of P n) \<and> rt_enabled (runtime_of R n) = rt_enabled (runtime_of P n)"
    if "dget (po_hosts P) n \<noteq> None" for n
    using that f3 [of n] fresh_runtime [OF 3, of n] by (auto simp: new_runtime_def split: option.splits)
  moreover have "set (po_removed R) = set (po_removed P)" using 3 by (simp add: fresh_pool_def)
  ultimately show ?thesis unfolding R_def [symmetric] Let_def by blast
qed

text \<open>Two hosts of the configuration, the second one disabled by hand, both polled.\<close>

definition demo_pool :: pool where
  "demo_pool = new_pool [demo_host ''a'', demo_host ''b''] True None 180 120 True"

lemma demo_pool_ok: "pool_ok demo_pool"
proof -
  have "tables_ok demo_pool"
    by (simp add: tables_ok_def dict_ok_def demo_pool_def new_pool_def load_state_def register_def empty_pool_def demo_host_def)
  moreover have "row_of demo_pool n" for n
    by (simp add: row_of_def row_ok_def demo_pool_def new_pool_def load_state_def register_def empty_pool_def demo_host_def
        new_runtime_def down_status_def open_count_def)
  ultimately show ?thesis by (simp add: pool_ok_def)
qed

definition demo_disabled :: pool where
  "demo_disabled = snd (set_enabled True ''b'' False demo_pool)"

lemma demo_disabled_ok: "pool_ok demo_disabled"
  unfolding demo_disabled_def by (rule set_enabled_ok, rule demo_pool_ok)

lemma demo_entry: "host_config_from_dict (host_json (demo_host ''a'')) = Inr (demo_host ''a'')"
  "host_config_from_dict (host_json (demo_host ''b'')) = Inr (demo_host ''b'')"
  using login_char_demo
  by (simp_all add: host_config_from_dict_def host_json_def text_field_def bool_field_def host_keys_def keys_of_def demo_host_def)

lemma demo_disabled_simps:
  "dget (po_hosts demo_disabled) n = (if n = ''a'' then Some (demo_host ''a'') else if n = ''b'' then Some (demo_host ''b'') else None)"
  "po_config demo_disabled = fold (\<lambda>h d. dset d (ho_name h) h) [demo_host ''a'', demo_host ''b''] []"
  "dget (po_config demo_disabled) n = (if n = ''a'' then Some (demo_host ''a'') else if n = ''b'' then Some (demo_host ''b'') else None)"
  "\<not> rt_enabled (runtime_of demo_disabled ''b'')"
  by (auto simp: demo_disabled_def set_enabled_def demo_pool_def new_pool_def load_state_def register_def empty_pool_def
      demo_host_def find_host_def Let_def save_state_def runtime_of_def)

theorem membership_survives_restart_witness:
  "\<not> rt_enabled (runtime_of (new_pool [demo_host ''a'', demo_host ''b''] True (Some (saved_state demo_disabled)) 180 120 True) ''b'')"
proof -
  have "\<forall>n h. dget (po_hosts demo_disabled) n = Some h \<or> dget (po_config demo_disabled) n = Some h \<longrightarrow>
      ho_enabled h \<and> host_config_from_dict (host_json h) = Inr h"
    using demo_entry by (auto simp: demo_disabled_simps demo_host_def split: if_splits)
  from membership_survives_restart [OF demo_disabled_ok demo_disabled_simps(2) this, of 180 120 True] demo_disabled_simps(4)
  show ?thesis by (auto simp: Let_def demo_disabled_simps)
qed

text \<open>A host the configuration defines as disabled and an instructor enables by hand is disabled
  again by a restart of the portal: the state file has no place for a host enabled by hand.\<close>

theorem hand_enabled_lost:
  "let h = (demo_host ''a'')\<lparr>ho_enabled := False\<rparr>;
       P = snd (set_enabled True ''a'' True (new_pool [h] True None 180 120 True));
       R = new_pool [h] True (po_file P) 180 120 True
   in po_file P \<noteq> None \<and> rt_enabled (runtime_of P ''a'') \<and> \<not> rt_enabled (runtime_of R ''a'')"
  by (simp add: Let_def set_enabled_def new_pool_def load_state_def register_def empty_pool_def
      demo_host_def find_host_def save_state_def saved_state_def runtime_of_def new_runtime_def json_list_def)

section \<open>Placements on the demonstration pool\<close>

definition demo_up :: pool where
  "demo_up = snd (refresh_host ''a'' 1 (PollJson (JObj [(''projects'', JInt 1)])) demo_disabled)"

lemma demo_up_ok: "pool_ok demo_up"
  unfolding demo_up_def by (rule refresh_ok, rule demo_disabled_ok)

lemma demo_takes: "takes demo_up None 5 (demo_host ''a'') PLACEMENT_LOAD"
  by (simp add: takes_def demo_up_def refresh_host_def consume_def status_from_json_def status_count_def status_number_def
      status_seconds_def float_limit_def received_def demo_disabled_def set_enabled_def demo_pool_def new_pool_def load_state_def
      register_def empty_pool_def demo_host_def find_host_def Let_def save_state_def runtime_of_def status_of_def held_rvs_def
      after_poll_def new_runtime_def is_true_def py_int_def may_use_def)

theorem pick_places_witness:
  "\<exists>h rv Q. pick None None 5 demo_up = (Inr (h, rv), Q) \<and> takes demo_up None 5 h (rv_placement rv)"
proof -
  have "\<not> (\<exists>e. fst (pick None None 5 demo_up) = Inl e)"
    using pick_fail_iff [OF demo_up_ok, of None 5] demo_takes by blast
  then obtain h rv where "fst (pick None None 5 demo_up) = Inr (h, rv)"
    by (cases "fst (pick None None 5 demo_up)") auto
  then obtain Q where p: "pick None None 5 demo_up = (Inr (h, rv), Q)" by (metis prod.collapse)
  from pick_places [OF demo_up_ok p] p show ?thesis by blast
qed

theorem pick_fails_witness:
  "fst (pick None None 5 demo_disabled) = Inl (PoolError 503 ''no host available for a new project'' (Some 60)) \<and>
   snd (pick None None 5 demo_disabled) = demo_disabled"
proof -
  have "\<not> takes demo_disabled None 5 h pl" for h pl
    by (auto simp: takes_def Let_def demo_disabled_simps demo_disabled_def set_enabled_def demo_pool_def new_pool_def
        load_state_def register_def empty_pool_def demo_host_def find_host_def save_state_def status_of_def down_status_def
        split: if_splits)
  with pick_fails [OF demo_disabled_ok, of None 5] obtain e where
    e: "fst (pick None None 5 demo_disabled) = Inl e" "snd (pick None None 5 demo_disabled) = demo_disabled" by blast
  have "\<not> starting_soon demo_disabled None 5"
    by (simp add: starting_soon_def demo_disabled_def set_enabled_def demo_pool_def new_pool_def load_state_def register_def
        empty_pool_def demo_host_def find_host_def save_state_def Let_def state_of_def host_state_of_def status_of_def
        runtime_of_def down_status_def new_runtime_def vals_of_def may_use_def)
  with e show ?thesis by (auto simp: pick_def split: list.splits prod.splits)
qed

end
