(* ===== verification/Pool_Policy.thy ===== *)
theory Pool_Policy
  imports Pool_Manager Pool_Membership
begin

text \<open>
  What the policy of the elastic pool promises (\<open>src/sreweb/portal/manager.py\<close>): one wake at a time
  and only when it is wanted, a power off of a host that holds nothing, no host woken because one
  was powered off, bounded backoffs, and the histories of the pool under every operation.
\<close>

section \<open>The active hours\<close>

text \<open>The active hours are an interval of the clock face: a minute is in it exactly when it is
  less far after the start than the end is, around midnight too.\<close>

theorem active_hours_circular:
  assumes "s < 1440" "e < 1440" "m < 1440"
  shows "in_active_hours (Some (s, e)) m \<longleftrightarrow> (int m - int s) mod 1440 < (int e - int s) mod 1440"
proof -
  have md: "(int a - int b) mod 1440 = (if b \<le> a then int a - int b else int a - int b + 1440)" if "a < 1440" "b < 1440" for a b :: nat
  proof (cases "b \<le> a")
    case True
    with that show ?thesis by (simp add: mod_pos_pos_trivial)
  next
    case False
    then have "(int a - int b) mod 1440 = (int a - int b + 1440) mod 1440" by simp
    also have "\<dots> = int a - int b + 1440" using that False by (intro mod_pos_pos_trivial) auto
    finally show ?thesis using False by simp
  qed
  show ?thesis using assms by (auto simp: in_active_hours_def md)
qed

theorem active_hours_circular_witness:
  "in_active_hours (Some (1320, 360)) 30 \<and> \<not> in_active_hours (Some (1320, 360)) 720"
  using active_hours_circular [of 1320 360 30] active_hours_circular [of 1320 360 720] by simp

section \<open>Which host to wake\<close>

definition wake_wanted :: "host_view list \<Rightarrow> pool_config \<Rightarrow> bool \<Rightarrow> bool" where
  "wake_wanted hosts cfg active \<longleftrightarrow> spare_capacity hosts < pc_spare_projects cfg \<or>
     active \<and> awake_count hosts < pc_min_hosts_up cfg"

lemma wake_loop_first:
  "take 1 (wake_loop cfg now active hosts spare awake) =
     (if spare < pc_spare_projects cfg \<or> active \<and> awake < pc_min_hosts_up cfg
      then take 1 (map hv_name (filter (wakeable now) hosts)) else [])"
  by (induction hosts) auto

lemma wake_plan_eq:
  "wake_plan hosts cfg now active last_wake_at =
     (if pc_wake_interval cfg \<le> now - last_wake_at \<and> wake_wanted hosts cfg active
      then take 1 (map hv_name (filter (wakeable now) hosts)) else [])"
  unfolding wake_plan_def wake_loop_first wake_wanted_def by (auto simp: not_less simp del: One_nat_def)

text \<open>The loop of \<open>wake_plan\<close>, which counts what each host it takes adds, decides as the
  simple rule does: when the interval since the last wake is over and the spare capacity or the
  floor is not met, the first host in the order of the pool that is off, able and allowed to
  wake and past its backoff; otherwise none.\<close>

theorem wake_plan_rule:
  "wake_plan hosts cfg now active last_wake_at =
     (if pc_wake_interval cfg \<le> now - last_wake_at \<and>
         (spare_capacity hosts < pc_spare_projects cfg \<or> active \<and> awake_count hosts < pc_min_hosts_up cfg)
      then (case find (wakeable now) hosts of None \<Rightarrow> [] | Some h \<Rightarrow> [hv_name h]) else [])"
proof -
  have "take 1 (map hv_name (filter (wakeable now) hosts)) =
      (case find (wakeable now) hosts of None \<Rightarrow> [] | Some h \<Rightarrow> [hv_name h])"
    by (induction hosts) auto
  then show ?thesis unfolding wake_plan_eq wake_wanted_def by (simp only: refl)
qed

section \<open>Which host to power off\<close>

definition floor_of :: "pool_config \<Rightarrow> bool \<Rightarrow> int" where
  "floor_of cfg active = (if active then pc_min_hosts_up cfg else 0)"

definition others :: "host_view list \<Rightarrow> string \<Rightarrow> host_view list" where
  "others hosts n = filter (\<lambda>x. hv_name x \<noteq> n) hosts"

definition idle_enough :: "pool_config \<Rightarrow> host_view \<Rightarrow> bool" where
  "idle_enough cfg h \<longleftrightarrow> (case hv_idle_for h of None \<Rightarrow> False | Some x \<Rightarrow> pc_idle_host_timeout cfg \<le> x)"

definition may_go :: "host_view list \<Rightarrow> pool_config \<Rightarrow> bool \<Rightarrow> host_view \<Rightarrow> bool" where
  "may_go hosts cfg active h \<longleftrightarrow> hv_instructors_only h \<or>
     floor_of cfg active < awake_count hosts \<and> pc_spare_projects cfg \<le> spare_capacity (others hosts (hv_name h))"

lemma idle_loop_iff:
  "n \<in> set (idle_loop cfg hosts (awake_count hosts) (floor_of cfg active) hs) \<Longrightarrow>
     \<exists>h \<in> set hs. hv_name h = n \<and> idle_enough cfg h \<and> may_go hosts cfg active h"
  by (induction hs) (auto simp: idle_enough_def may_go_def others_def not_less split: if_splits option.splits)

lemma idle_loop_one: "length (idle_loop cfg hosts awake floor_count hs) \<le> 1"
  by (induction hs) auto

definition drained :: "host_view list \<Rightarrow> string list" where
  "drained hosts = map hv_name (filter hv_drain (empties hosts))"

lemma poweroff_plan_eq:
  "poweroff_plan hosts cfg active =
     (if drained hosts \<noteq> [] then take 1 (drained hosts)
      else if pc_idle_host_timeout cfg \<le> 0 then []
      else idle_loop cfg hosts (awake_count hosts) (floor_of cfg active) (sort_key idle_key (empties hosts)))"
  by (simp add: poweroff_plan_def drained_def floor_of_def Let_def)

lemma poweroff_planE:
  assumes "n \<in> set (poweroff_plan hosts cfg active)"
  obtains h where "h \<in> set (empties hosts)" "hv_name h = n" "hv_drain h"
  | h where "h \<in> set (empties hosts)" "hv_name h = n" "\<not> hv_drain h" "0 < pc_idle_host_timeout cfg" "idle_enough cfg h"
      "may_go hosts cfg active h"
proof (cases "drained hosts = []")
  case True
  with assms have t: "0 < pc_idle_host_timeout cfg"
    "n \<in> set (idle_loop cfg hosts (awake_count hosts) (floor_of cfg active) (sort_key idle_key (empties hosts)))"
    by (auto simp: poweroff_plan_eq split: if_splits)
  from idle_loop_iff [OF t(2)] obtain h where h: "h \<in> set (empties hosts)" "hv_name h = n" "idle_enough cfg h"
    "may_go hosts cfg active h" by auto
  moreover have "\<not> hv_drain h" using True h(1) by (auto simp: drained_def filter_empty_conv)
  ultimately show ?thesis using t(1) that(2) by blast
next
  case False
  with assms have "n \<in> set (drained hosts)" by (auto simp: poweroff_plan_eq dest: in_set_takeD)
  then show ?thesis using that(1) by (auto simp: drained_def)
qed

lemma poweroff_plan_one: "length (poweroff_plan hosts cfg active) \<le> 1"
  using idle_loop_one by (auto simp: poweroff_plan_eq simp del: One_nat_def)

lemma view_simps [simp]:
  "hv_name (view_of P now h) = ho_name h" "hv_state (view_of P now h) = state_of P now (ho_name h)"
  "hv_projects (view_of P now h) = hs_projects (status_of P (ho_name h))" "hv_power (view_of P now h) = ho_power h"
  "hv_drain (view_of P now h) = rt_drain (runtime_of P (ho_name h))" "hv_max_projects (view_of P now h) = ho_max_projects h"
  "hv_instructors_only (view_of P now h) = ho_instructors_only h"
  "hv_power_off_allowed (view_of P now h) = hs_power_off_allowed (status_of P (ho_name h))"
  "hv_restart_pending (view_of P now h) \<longleftrightarrow> rt_restart_sent (runtime_of P (ho_name h)) \<noteq> None"
  by (simp_all add: view_of_def Let_def)

lemma in_views: "v \<in> set (views P now) \<longleftrightarrow> (\<exists>h \<in> set (vals_of (po_hosts P)). v = view_of P now h)"
  by (auto simp: views_def)

text \<open>A host that is up or draining answers; nothing it was asked for is outstanding when it counts no project.\<close>

lemma up_reachable:
  assumes "state_of P now n \<in> {STATE_UP, STATE_DRAINING}"
  shows "hs_reachable (status_of P n)" "rt_enabled (runtime_of P n)" "\<not> hs_exam_mode (status_of P n)" "\<not> hs_occupied (status_of P n)"
  using assms by (auto simp: state_of_def host_state_of_def split: if_splits option.splits)

lemma no_start_pending:
  assumes "pool_ok P" "dget (po_hosts P) n = Some h" "hs_reachable (status_of P n)" "hs_projects (status_of P n) = 0"
    and "r \<in> set (held_rvs P n)"
  shows "rv_released_at r \<noteq> None"
proof -
  from assms(1,2) have "hs_reachable (status_of P n) \<longrightarrow> int (open_count (held_rvs P n)) \<le> hs_projects (status_of P n)"
    by (rule pool_row) auto
  with assms(3,4) have "open_count (held_rvs P n) = 0" by simp
  with assms(5) show ?thesis by (auto simp: open_count_def filter_empty_conv)
qed

text \<open>C19: In every consistent pool the manager powers off at most one host at a time, and only one
  that answered its last poll with no project and no exam or session, that no start in progress
  holds a reservation on, that the configuration and the agent let it power off and that is not
  restarting; and it is drained, or it has been idle for the timeout and the rest of the pool
  keeps the floor and the spare capacity (a host of the instructors does not count for these).\<close>

theorem power_off_sound:
  assumes "pool_ok P" "n \<in> set (poweroff_plan (views P now) cfg active)"
  shows "poweroff_plan (views P now) cfg active = [n] \<and>
    (\<exists>h. dget (po_hosts P) n = Some h \<and> ho_power h \<and> hs_power_off_allowed (status_of P n) \<and>
       hs_reachable (status_of P n) \<and> \<not> hs_exam_mode (status_of P n) \<and> \<not> hs_occupied (status_of P n) \<and>
       hs_projects (status_of P n) = 0 \<and> (\<forall>r \<in> set (held_rvs P n). rv_released_at r \<noteq> None) \<and>
       rt_restart_sent (runtime_of P n) = None \<and>
       (rt_drain (runtime_of P n) \<or>
        0 < pc_idle_host_timeout cfg \<and>
        (\<exists>t. rt_idle_since (runtime_of P n) = Some t \<and> pc_idle_host_timeout cfg \<le> now - t) \<and>
        (ho_instructors_only h \<or>
         floor_of cfg active < awake_count (views P now) \<and>
         pc_spare_projects cfg \<le> spare_capacity (others (views P now) n))))"
proof
  have "length (poweroff_plan (views P now) cfg active) \<le> 1" by (rule poweroff_plan_one)
  with assms(2) show "poweroff_plan (views P now) cfg active = [n]"
    by (cases "poweroff_plan (views P now) cfg active") auto
next
  from assms(2) obtain v where v: "v \<in> set (empties (views P now))" "hv_name v = n"
    and why: "hv_drain v \<or> 0 < pc_idle_host_timeout cfg \<and> idle_enough cfg v \<and> may_go (views P now) cfg active v"
    by (rule poweroff_planE) blast+
  then obtain h where h: "h \<in> set (vals_of (po_hosts P))" "v = view_of P now h" by (auto simp: empties_def in_views)
  with v have n: "ho_name h = n" by simp
  have row: "dget (po_hosts P) n = Some h" using host_listed [OF assms(1) h(1)] n by simp
  have e: "state_of P now n \<in> {STATE_UP, STATE_DRAINING}" "hs_projects (status_of P n) = 0" "ho_power h"
    "hs_power_off_allowed (status_of P n)" "rt_restart_sent (runtime_of P n) = None"
    using v(1) h(2) n by (auto simp: empties_def)
  have idle: "idle_enough cfg v \<Longrightarrow> \<exists>t. rt_idle_since (runtime_of P n) = Some t \<and> pc_idle_host_timeout cfg \<le> now - t"
    using h(2) n by (auto simp: idle_enough_def view_of_def Let_def split: option.splits if_splits)
  have "\<forall>r \<in> set (held_rvs P n). rv_released_at r \<noteq> None"
    using no_start_pending [OF assms(1) row up_reachable(1) [OF e(1)] e(2)] by blast
  with row e up_reachable [OF e(1)] why idle show "\<exists>h. dget (po_hosts P) n = Some h \<and> ho_power h \<and> hs_power_off_allowed (status_of P n) \<and>
       hs_reachable (status_of P n) \<and> \<not> hs_exam_mode (status_of P n) \<and> \<not> hs_occupied (status_of P n) \<and>
       hs_projects (status_of P n) = 0 \<and> (\<forall>r \<in> set (held_rvs P n). rv_released_at r \<noteq> None) \<and>
       rt_restart_sent (runtime_of P n) = None \<and>
       (rt_drain (runtime_of P n) \<or>
        0 < pc_idle_host_timeout cfg \<and>
        (\<exists>t. rt_idle_since (runtime_of P n) = Some t \<and> pc_idle_host_timeout cfg \<le> now - t) \<and>
        (ho_instructors_only h \<or>
         floor_of cfg active < awake_count (views P now) \<and>
         pc_spare_projects cfg \<le> spare_capacity (others (views P now) n)))"
    by (intro exI [of _ h]) (use h(2) n in \<open>auto simp: may_go_def\<close>)
qed

section \<open>No host is woken for one powered off\<close>

definition turned_off :: "string \<Rightarrow> host_view list \<Rightarrow> host_view list" where
  "turned_off n hosts = map (\<lambda>h. if hv_name h = n then h\<lparr>hv_state := STATE_OFF\<rparr> else h) hosts"

lemma turned_off_filter:
  assumes "\<And>h. hv_name h = n \<Longrightarrow> \<not> p (h\<lparr>hv_state := STATE_OFF\<rparr>)"
  shows "filter p (turned_off n hosts) = filter p (others hosts n)"
  unfolding turned_off_def others_def using assms by (induction hosts) auto

lemma turned_off_spare: "spare_capacity (turned_off n hosts) = spare_capacity (others hosts n)"
  by (simp add: spare_capacity_def turned_off_filter)

lemma awake_others:
  assumes "distinct (map hv_name hosts)"
  shows "awake_count hosts - 1 \<le> awake_count (others hosts n)"
  using assms
proof (induction hosts)
  case Nil
  then show ?case by (simp add: awake_count_def others_def)
next
  case (Cons a hosts)
  have "others hosts n = hosts" if "hv_name a = n"
    using Cons.prems that by (auto simp: others_def filter_id_conv rev_image_eqI)
  with Cons show ?case by (auto simp: awake_count_def others_def)
qed

lemma turned_off_awake: "awake_count (turned_off n hosts) = awake_count (others hosts n)"
  by (simp add: awake_count_def turned_off_filter AWAKE_STATES_def)

lemma idle_power_off_not_wanted:
  assumes names: "distinct (map hv_name hosts)" and n: "n \<in> set (poweroff_plan hosts cfg active)"
    and shared: "\<And>h. h \<in> set hosts \<Longrightarrow> hv_name h = n \<Longrightarrow> \<not> hv_drain h \<and> \<not> hv_instructors_only h"
  shows "\<not> wake_wanted (turned_off n hosts) cfg active"
proof -
  from n obtain h where h: "h \<in> set (empties hosts)" "hv_name h = n"
    and go: "hv_drain h \<or> may_go hosts cfg active h" by (rule poweroff_planE) blast+
  then have "h \<in> set hosts" by (simp add: empties_def)
  with shared [OF this h(2)] go have "floor_of cfg active < awake_count hosts"
    "pc_spare_projects cfg \<le> spare_capacity (others hosts n)" by (simp_all add: may_go_def h(2))
  with awake_others [OF names, of n] show ?thesis
    by (auto simp: wake_wanted_def turned_off_spare turned_off_awake floor_of_def)
qed

text \<open>Powering off an idle host of everyone never makes the manager wake a host: with that
  host off and the rest as it was, \<open>wake_plan\<close> takes none, at any time and for the same hours of
  activity, so the two halves of the policy do not work against each other.\<close>

theorem no_flapping:
  assumes "distinct (map hv_name hosts)" "n \<in> set (poweroff_plan hosts cfg active)"
    and "\<And>h. h \<in> set hosts \<Longrightarrow> hv_name h = n \<Longrightarrow> \<not> hv_drain h \<and> \<not> hv_instructors_only h"
  shows "wake_plan (turned_off n hosts) cfg later active last_wake_at = []"
  using idle_power_off_not_wanted [OF assms] by (simp add: wake_plan_eq)

section \<open>The backoff of the wakes\<close>

lemma backoff_bounds: "BACKOFF_MIN \<le> min (BACKOFF_MIN * 2 ^ k) BACKOFF_MAX" "min (BACKOFF_MIN * 2 ^ k) BACKOFF_MAX \<le> BACKOFF_MAX"
proof -
  have "(1 :: real) \<le> 2 ^ k" by simp
  then show "BACKOFF_MIN \<le> min (BACKOFF_MIN * 2 ^ k) BACKOFF_MAX" by (simp add: BACKOFF_MIN_def BACKOFF_MAX_def)
qed simp

text \<open>The next attempt after a failed wake is between one minute and half an hour away,
  never sooner than after an earlier failure, as long as fewer than 1024 wakes failed in a row.\<close>

theorem backoff_bounded:
  assumes "rt_wake_failures rt < 1024"
  shows "\<exists>rt'. wake_failed now rt = (None, rt') \<and> rt_wake_failures rt' = rt_wake_failures rt + 1 \<and>
    rt_woken_at rt' = None \<and> now + 60 \<le> rt_next_wake_at rt' \<and> rt_next_wake_at rt' \<le> now + 1800 \<and>
    (\<forall>older t. rt_wake_failures older \<le> rt_wake_failures rt \<longrightarrow>
       rt_next_wake_at (snd (wake_failed t older)) - t \<le> rt_next_wake_at rt' - now)"
proof -
  have mono: "min (BACKOFF_MIN * 2 ^ j) BACKOFF_MAX \<le> min (BACKOFF_MIN * 2 ^ k) BACKOFF_MAX" if "j \<le> k" for j k
    using that by (intro min.mono mult_left_mono power_increasing) (simp_all add: BACKOFF_MIN_def)
  show ?thesis
    using assms backoff_bounds [of "rt_wake_failures rt"] mono
    by (auto simp: wake_failed_def Let_def BACKOFF_MIN_def BACKOFF_MAX_def)
qed

theorem backoff_bounded_witness:
  "\<exists>rt'. wake_failed 100 ((new_runtime SOURCE_CONFIG True)\<lparr>rt_wake_failures := 7\<rparr>) = (None, rt') \<and> rt_next_wake_at rt' \<le> 1900"
  using backoff_bounded [of "(new_runtime SOURCE_CONFIG True)\<lparr>rt_wake_failures := 7\<rparr>" 100] by auto

text \<open>After 1024 failed wakes in a row the backoff is lost: \<open>2 ** (failures - 1)\<close> no longer
  fits a double, and the failure leaves the handler as an \<open>OverflowError\<close> with the time of the next
  attempt as it was.\<close>

theorem backoff_overflow:
  assumes "1024 \<le> rt_wake_failures rt"
  shows "fst (wake_failed now rt) = Some OverflowError \<and> rt_next_wake_at (snd (wake_failed now rt)) = rt_next_wake_at rt"
  using assms by (simp add: wake_failed_def Let_def)

theorem backoff_overflow_witness:
  "fst (wake_failed 7 ((new_runtime SOURCE_CONFIG True)\<lparr>rt_wake_failures := 1024\<rparr>)) = Some OverflowError"
  using backoff_overflow [of "(new_runtime SOURCE_CONFIG True)\<lparr>rt_wake_failures := 1024\<rparr>" 7] by simp

section \<open>At concrete pools\<close>

definition demo_config :: pool_config where
  "demo_config = \<lparr>pc_spare_projects = 2, pc_min_hosts_up = 1, pc_active_hours = None, pc_wake_interval = 60,
     pc_idle_host_timeout = 600\<rparr>"

definition demo_view :: "string \<Rightarrow> host_view" where
  "demo_view n = \<lparr>hv_name = n, hv_state = STATE_UP, hv_projects = 0, hv_max_projects = 4, hv_can_wake = True,
     hv_enabled = True, hv_power = True, hv_power_off_allowed = True, hv_next_wake_at = 0, hv_idle_for = Some 900,
     hv_drain = False, hv_power_off_pending = False, hv_instructors_only = False, hv_restart_pending = False\<rparr>"

lemma demo_view_simps [simp]:
  "hv_name (demo_view n) = n" "\<not> hv_drain (demo_view n)" "\<not> hv_instructors_only (demo_view n)"
  by (simp_all add: demo_view_def)

lemma demo_poweroff: "poweroff_plan [demo_view ''a'', demo_view ''b''] demo_config True = [''a'']"
  by (simp add: poweroff_plan_def empties_def demo_view_def demo_config_def awake_count_def AWAKE_STATES_def spare_capacity_def
      idle_key_def)

theorem no_flapping_witness:
  "wake_plan (turned_off ''a'' [demo_view ''a'', demo_view ''b'']) demo_config 1000 True 0 = []"
  by (rule no_flapping) (auto simp: demo_poweroff)

lemma hosts_of_received [simp]: "po_hosts (received st n t P) = po_hosts P"
  by (simp add: received_def)

definition demo_pool1 :: pool where
  "demo_pool1 = new_pool [(demo_host ''a'')\<lparr>ho_power := True\<rparr>] False None 180 120 True"

definition demo_polled :: pool where
  "demo_polled = received ((down_status [])\<lparr>hs_reachable := True, hs_power_off_allowed := True\<rparr>) ''a'' 1 demo_pool1"

definition demo_idle :: pool where
  "demo_idle = put_runtime ''a'' ((runtime_of demo_polled ''a'')\<lparr>rt_drain := True\<rparr>) demo_polled"

lemma demo_pool1_tables:
  "dget (po_hosts demo_pool1) ''a'' = Some ((demo_host ''a'')\<lparr>ho_power := True\<rparr>)"
  "vals_of (po_hosts demo_pool1) = [(demo_host ''a'')\<lparr>ho_power := True\<rparr>]"
  "dget (po_status demo_pool1) ''a'' = Some (down_status [])" "dget (po_reported demo_pool1) ''a'' = None"
  "dget (po_runtime demo_pool1) ''a'' = Some (new_runtime SOURCE_CONFIG True)" "held_rvs demo_pool1 ''a'' = []"
  by (simp_all add: demo_pool1_def new_pool_def load_state_def register_def empty_pool_def demo_host_def vals_of_def held_rvs_def)

lemma demo_pool1_ok: "pool_ok demo_pool1"
proof -
  have "tables_ok demo_pool1"
    by (simp add: tables_ok_def dict_ok_def demo_pool1_def new_pool_def load_state_def register_def empty_pool_def demo_host_def)
  moreover have "row_of demo_pool1 n" for n
    by (simp add: row_of_def row_ok_def demo_pool1_def new_pool_def load_state_def register_def empty_pool_def demo_host_def
        new_runtime_def down_status_def)
  ultimately show ?thesis by (simp add: pool_ok_def)
qed

lemma demo_polled_ok: "pool_ok demo_polled"
  unfolding demo_polled_def using demo_pool1_ok by (rule received_ok) (simp_all add: demo_pool1_tables down_status_def open_count_def)

lemma demo_idle_ok: "pool_ok demo_idle"
  unfolding demo_idle_def put_runtime_def using demo_polled_ok
  by (rule runtime_ok) (simp_all add: demo_polled_def demo_pool1_tables)

lemma demo_idle_tables:
  "vals_of (po_hosts demo_idle) = [(demo_host ''a'')\<lparr>ho_power := True\<rparr>]"
  "status_of demo_idle ''a'' = (down_status [])\<lparr>hs_reachable := True, hs_power_off_allowed := True\<rparr>"
  "runtime_of demo_idle ''a'' = (new_runtime SOURCE_CONFIG True)\<lparr>rt_drain := True\<rparr>"
  by (simp_all add: demo_idle_def put_runtime_def demo_polled_def status_of_def runtime_of_def received_def demo_pool1_tables
      after_poll_def new_runtime_def)

lemma demo_idle_plan: "poweroff_plan (views demo_idle 900) demo_config True = [''a'']"
  by (simp add: poweroff_plan_def empties_def views_def view_of_def state_of_def host_state_of_def demo_idle_tables
      new_runtime_def down_status_def demo_host_def)

theorem power_off_sound_witness:
  "\<exists>h. dget (po_hosts demo_idle) ''a'' = Some h \<and> ho_power h \<and> hs_projects (status_of demo_idle ''a'') = 0"
  using power_off_sound [OF demo_idle_ok, of "''a''" 900 demo_config True] by (auto simp: demo_idle_plan)

end
