(* ===== verification/Pool_Histories.thy ===== *)
theory Pool_Histories
  imports Pool_Policy
begin

text \<open>
  The histories of the pool: the placements, the polls, the changes of the membership
  (\<open>src/sreweb/portal/pool.py\<close>) and the actions and ticks of the manager
  (\<open>src/sreweb/portal/manager.py\<close>), in any order and whatever the agents answer; and the hosts whose
  lab list is served (\<open>_labs_hosts\<close>).
\<close>

section \<open>The manager keeps the tables\<close>

text \<open>The manager changes the runtime of a host it knows, never where it comes from.\<close>

definition known :: "pool \<Rightarrow> string \<Rightarrow> bool" where
  "known P n \<longleftrightarrow> dget (po_hosts P) n \<noteq> None"

lemma known_put [simp]: "known (put_runtime n rt P) m = known P m"
  by (simp add: known_def put_runtime_def)

lemma runtime_of_put [simp]: "runtime_of (put_runtime n rt P) m = (if m = n then rt else runtime_of P m)"
  by (simp add: runtime_of_def put_runtime_def)

lemma status_of_put [simp]: "status_of (put_runtime n rt P) m = status_of P m"
  by (simp add: status_of_def put_runtime_def)

lemma hosts_of_put [simp]: "po_hosts (put_runtime n rt P) = po_hosts P" "po_status (put_runtime n rt P) = po_status P"
  by (simp_all add: put_runtime_def)

lemma put_runtime_ok: "pool_ok P \<Longrightarrow> known P n \<Longrightarrow> rt_source rt = rt_source (runtime_of P n) \<Longrightarrow> pool_ok (put_runtime n rt P)"
  unfolding put_runtime_def known_def by (auto intro: runtime_ok)

lemma known_tables:
  assumes "pool_ok P"
  shows "n \<in> set (keys_of (po_runtime P)) \<longleftrightarrow> known P n" "n \<in> set (keys_of (po_status P)) \<longleftrightarrow> known P n"
  using pool_okD(2) [OF assms, of n] unfolding known_def keys_of_dget
  by (auto simp: row_of_def row_ok_def split: option.splits)

lemma find_host_known: "find_host P n = Inr h \<Longrightarrow> known P n"
  by (simp add: find_host_def known_def split: option.splits)

lemma track_idle1_ok:
  assumes "pool_ok P" "known P (fst e)"
  shows "pool_ok (track_idle1 now e P) \<and> known (track_idle1 now e P) = known P"
  using assms by (auto simp: track_idle1_def Let_def fun_eq_iff intro!: put_runtime_ok split: prod.split)

lemma track_idle_ok:
  assumes "pool_ok P"
  shows "pool_ok (track_idle now P)"
proof -
  have "pool_ok (fold (track_idle1 now) es Q)" if "pool_ok Q" "\<forall>e \<in> set es. known Q (fst e)" for es Q
    using that by (induction es arbitrary: Q) (use track_idle1_ok in auto)
  moreover have "\<forall>e \<in> set (po_status P). known P (fst e)"
    using known_tables(2) [OF assms] by (auto simp: keys_of_def)
  ultimately show ?thesis using assms by (simp add: track_idle_def)
qed

lemma wake_failed_source [simp]: "rt_source (snd (wake_failed now rt)) = rt_source rt"
  by (simp add: wake_failed_def Let_def)

lemma expire_loop_ok:
  "pool_ok P \<Longrightarrow> \<forall>n \<in> set ns. known P n \<Longrightarrow> pool_ok (snd (expire_loop now ns P))"
proof (induction ns arbitrary: P)
  case (Cons n ns)
  obtain err rt where w: "wake_failed now (runtime_of P n) = (err, rt)" by (cases "wake_failed now (runtime_of P n)")
  then have "rt_source rt = rt_source (runtime_of P n)" using wake_failed_source [of now "runtime_of P n"] by simp
  with Cons.prems have "pool_ok (put_runtime n rt P)" by (intro put_runtime_ok) auto
  with Cons w show ?case by (auto split: option.split)
qed simp

lemma expire_wakes_ok: "pool_ok P \<Longrightarrow> pool_ok (snd (expire_wakes now P))"
  unfolding expire_wakes_def by (rule expire_loop_ok) (simp_all add: known_tables)

lemma wake_ok:
  assumes "pool_ok (mg_pool M)"
  shows "pool_ok (mg_pool (snd (wake n why now sent M)))"
proof (cases "find_host (mg_pool M) n")
  case (Inr h)
  obtain err rt where w: "wake_failed now (runtime_of (mg_pool M) n) = (err, rt)"
    by (cases "wake_failed now (runtime_of (mg_pool M) n)")
  then have "rt_source rt = rt_source (runtime_of (mg_pool M) n)"
    using wake_failed_source [of now "runtime_of (mg_pool M) n"] by simp
  with w Inr assms find_host_known [OF Inr] show ?thesis
    by (auto simp: wake_def Let_def intro!: put_runtime_ok split: option.split)
qed (use assms in \<open>simp add: wake_def\<close>)

lemma power_off_ok: "pool_ok (mg_pool M) \<Longrightarrow> pool_ok (mg_pool (snd (power_off n now a M)))"
  by (cases "find_host (mg_pool M) n")
    (auto simp: power_off_def Let_def find_host_known intro!: put_runtime_ok split: option.split)

lemma restart_agent_ok: "pool_ok (mg_pool M) \<Longrightarrow> pool_ok (mg_pool (snd (restart_agent n now a M)))"
  by (cases "find_host (mg_pool M) n")
    (auto simp: restart_agent_def Let_def find_host_known intro!: put_runtime_ok split: option.split)

lemma power_offs_ok:
  "pool_ok (mg_pool M) \<Longrightarrow> pool_ok (mg_pool (fold (\<lambda>n M. snd (power_off n now (answer n) M)) ns M))"
  by (induction ns arbitrary: M) (auto intro: power_off_ok)

lemma tick_manager_ok:
  assumes "pool_ok (mg_pool M)"
  shows "pool_ok (mg_pool (snd (tick_manager cfg minute now sent answer M)))"
proof -
  obtain err P where e: "expire_wakes now (track_idle now (mg_pool M)) = (err, P)"
    by (cases "expire_wakes now (track_idle now (mg_pool M))")
  then have P: "pool_ok P" using expire_wakes_ok [OF track_idle_ok [OF assms, of now], of now] by simp
  have wk: "pool_ok (mg_pool M')" if "wake n why now s (M\<lparr>mg_pool := P\<rparr>) = (r, M')" for n why s r M'
    using wake_ok [of "M\<lparr>mg_pool := P\<rparr>" n why now s] P that by simp
  show ?thesis
  proof (cases err)
    case None
    show ?thesis
      unfolding tick_manager_def e None Let_def
      by (auto split: list.split prod.split sum.split manager_error.split intro!: power_offs_ok simp: P dest: wk)
  qed (use e P in \<open>simp add: tick_manager_def\<close>)
qed

section \<open>Histories\<close>

datatype pool_op =
    PoPick "identity option" "string option" real
  | PoRelease nat real
  | PoRefresh string real poll
  | PoAdd bool host
  | PoRemove bool string bool
  | PoEnable bool string bool
  | PoWake string string real bool
  | PoPowerOff string real agent_answer
  | PoRestart string real agent_answer
  | PoTick pool_config nat real "string \<Rightarrow> bool" "string \<Rightarrow> agent_answer"

definition on_pool :: "(pool \<Rightarrow> pool) \<Rightarrow> manager \<Rightarrow> manager" where
  "on_pool f M = M\<lparr>mg_pool := f (mg_pool M)\<rparr>"

fun exec_pool :: "pool_op \<Rightarrow> manager \<Rightarrow> manager" where
  "exec_pool (PoPick i named now) M = on_pool (\<lambda>P. snd (pick i named now P)) M"
| "exec_pool (PoRelease i now) M = on_pool (release i now) M"
| "exec_pool (PoRefresh n polled_at answer) M = on_pool (\<lambda>P. snd (refresh_host n polled_at answer P)) M"
| "exec_pool (PoAdd w h) M = on_pool (\<lambda>P. snd (add_host w h P)) M"
| "exec_pool (PoRemove w n force) M = on_pool (\<lambda>P. snd (remove_host w n force P)) M"
| "exec_pool (PoEnable w n enabled) M = on_pool (\<lambda>P. snd (set_enabled w n enabled P)) M"
| "exec_pool (PoWake n why now sent) M = snd (wake n why now sent M)"
| "exec_pool (PoPowerOff n now a) M = snd (power_off n now a M)"
| "exec_pool (PoRestart n now a) M = snd (restart_agent n now a M)"
| "exec_pool (PoTick cfg minute now sent answer) M = snd (tick_manager cfg minute now sent answer M)"

text \<open>A host that is added has been read by \<open>host_config_from_dict\<close>: it takes one project at least.\<close>

fun pool_op_possible :: "pool_op \<Rightarrow> bool" where
  "pool_op_possible (PoAdd w h) = (1 \<le> ho_max_projects h)"
| "pool_op_possible _ = True"

inductive pool_step :: "manager \<Rightarrow> manager \<Rightarrow> bool" where
  pool_stepI: "pool_op_possible a \<Longrightarrow> pool_step M (exec_pool a M)"

inductive_cases pool_stepE: "pool_step M M'"

lemma pool_step_ok: "pool_ok (mg_pool M) \<Longrightarrow> pool_step M M' \<Longrightarrow> pool_ok (mg_pool M')"
proof (elim pool_stepE)
  fix a
  assume "pool_ok (mg_pool M)" "M' = exec_pool a M" "pool_op_possible a"
  then show ?thesis
    by (cases a) (simp_all add: on_pool_def pick_ok release_ok refresh_ok add_host_ok remove_host_ok set_enabled_ok
        wake_ok power_off_ok restart_agent_ok tick_manager_ok)
qed

section \<open>The start of the portal\<close>

text \<open>The configuration grows with the hosts registered: the same pool as with the whole
  configuration known from the start.\<close>

definition configured :: "host \<Rightarrow> pool \<Rightarrow> pool" where
  "configured h P = register h SOURCE_CONFIG (P\<lparr>po_config := dset (po_config P) (ho_name h) h\<rparr>)"

lemma registers_config:
  "fold (\<lambda>h. register h src) hs (Q\<lparr>po_config := c\<rparr>) = (fold (\<lambda>h. register h src) hs Q)\<lparr>po_config := c\<rparr>"
proof (induction hs arbitrary: Q)
  case (Cons h hs)
  have "register h src (Q\<lparr>po_config := c\<rparr>) = (register h src Q)\<lparr>po_config := c\<rparr>" by (simp add: register_def)
  with Cons show ?case by simp
qed simp

lemma configured_fold:
  "fold configured hs P = (fold (\<lambda>h. register h SOURCE_CONFIG) hs P)\<lparr>po_config := fold (\<lambda>h d. dset d (ho_name h) h) hs (po_config P)\<rparr>"
proof (induction hs arbitrary: P)
  case (Cons h hs)
  have "configured h P = (register h SOURCE_CONFIG P)\<lparr>po_config := dset (po_config P) (ho_name h) h\<rparr>"
    by (simp add: configured_def register_def)
  with Cons show ?case by (simp add: registers_config)
qed simp

lemma configured_ok:
  assumes "pool_ok P" "1 \<le> ho_max_projects h" "po_removed P = []"
  shows "pool_ok (configured h P) \<and> po_removed (configured h P) = []"
proof
  show "pool_ok (configured h P)"
    using assms(1)
  proof (rule pool_okI [where n = "ho_name h"])
    show "tables_ok (configured h P)"
      using pool_okD(1) [OF assms(1)] by (simp add: tables_ok_def configured_def register_def)
    show "row_of (configured h P) (ho_name h)"
      using assms(2,3) by (simp add: row_of_def row_ok_def configured_def register_def new_runtime_def down_status_def)
  qed (simp add: configured_def register_def)
qed (simp add: configured_def register_def assms(3))

lemma configured_pool_ok:
  assumes "\<forall>h \<in> set hosts. 1 \<le> ho_max_projects h"
  shows "pool_ok (fold (\<lambda>h. register h SOURCE_CONFIG) hosts (empty_pool hosts has_file file wt rh follow))"
proof -
  let ?E = "(empty_pool hosts has_file file wt rh follow)\<lparr>po_config := []\<rparr>"
  have "pool_ok (fold configured hs P)" if "pool_ok P" "po_removed P = []" "\<forall>h \<in> set hs. 1 \<le> ho_max_projects h" for hs P
    using that by (induction hs arbitrary: P) (simp_all add: configured_ok)
  moreover have "pool_ok ?E" by (simp add: pool_ok_def tables_ok_def row_of_def row_ok_def empty_pool_def)
  ultimately have ok: "pool_ok (fold configured hosts ?E)" using assms by (simp add: empty_pool_def)
  from registers_config [of SOURCE_CONFIG hosts "fold (\<lambda>h d. dset d (ho_name h) h) hosts []" ?E] ok show ?thesis
    by (simp add: configured_fold empty_pool_def)
qed

text \<open>The state file: no host is both removed and added in it.\<close>

definition added_names :: "json option \<Rightarrow> string set" where
  "added_names v = {ho_name h | h. \<exists>x \<in> set (json_list v). host_config_from_dict x = Inr h}"

definition state_file_ok :: "json option \<Rightarrow> bool" where
  "state_file_ok file \<longleftrightarrow> (\<forall>d. file = Some (JObj d) \<longrightarrow>
     added_names (dget d ''added'') \<inter> set (json_texts (json_list (dget d ''removed''))) = {})"

lemma added_names_list: "added_names (Some (JList (json_list v))) = added_names v"
  by (simp add: added_names_def json_list_def)

lemma load_removed_ok:
  assumes "pool_ok P" "po_removed P = r"
  shows "pool_ok (load_removed n P) \<and> set (po_removed (load_removed n P)) \<subseteq> insert n (set r)"
proof (cases "dget (po_hosts P) n")
  case (Some h)
  have "(pop_tables n P)\<lparr>po_removed := ladd (po_removed P) n\<rparr> = pop_tables n (P\<lparr>po_removed := ladd (po_removed P) n\<rparr>)"
    by (simp add: pop_tables_def)
  with pop_ok [OF assms(1) Some] show ?thesis using assms Some by (auto simp: load_removed_def) (auto simp: pop_tables_def)
qed (use assms in \<open>auto simp: load_removed_def\<close>)

lemma load_removeds_ok:
  "pool_ok P \<Longrightarrow> pool_ok (fold load_removed ns P) \<and> set (po_removed (fold load_removed ns P)) \<subseteq> set ns \<union> set (po_removed P)"
proof (induction ns arbitrary: P)
  case (Cons n ns)
  from load_removed_ok [OF Cons.prems refl, of n] Cons.IH [of "load_removed n P"] show ?case by auto
qed simp

lemma host_config_max: "host_config_from_dict v = Inr h \<Longrightarrow> 1 \<le> ho_max_projects h"
  by (auto simp: host_config_from_dict_def elim!: ebind_InrE split: json.splits if_splits)

lemma register_removed [simp]: "po_removed (register h src P) = po_removed P"
  by (simp add: register_def)

lemma load_added_ok:
  assumes "pool_ok P" "\<And>h. host_config_from_dict v = Inr h \<Longrightarrow> ho_name h \<notin> set (po_removed P)"
  shows "pool_ok (load_added v P) \<and> po_removed (load_added v P) = po_removed P"
proof (cases "host_config_from_dict v")
  case (Inr h)
  have "dget (po_config P) (ho_name h) = None"
    if "\<not> (dget (po_hosts P) (ho_name h) \<noteq> None \<and> rt_source (runtime_of P (ho_name h)) = SOURCE_CONFIG)"
    using that assms(2) [OF Inr] pool_no_row(4) [OF assms(1), of "ho_name h"]
    by (cases "dget (po_hosts P) (ho_name h)") (auto elim: pool_row [OF assms(1)])
  with Inr assms host_config_max [OF Inr] show ?thesis
    by (auto simp: load_added_def register_removed intro!: register_ok)
qed (use assms in \<open>simp add: load_added_def\<close>)

lemma load_addeds_ok:
  "pool_ok P \<Longrightarrow> added_names (Some (JList vs)) \<inter> set (po_removed P) = {} \<Longrightarrow> pool_ok (fold load_added vs P)"
proof (induction vs arbitrary: P)
  case (Cons v vs)
  from Cons.prems(2) have "\<And>h. host_config_from_dict v = Inr h \<Longrightarrow> ho_name h \<notin> set (po_removed P)"
    by (auto simp: added_names_def json_list_def)
  from load_added_ok [OF Cons.prems(1) this] Cons.IH [of "load_added v P"] Cons.prems(2) show ?case
    by (auto simp: added_names_def json_list_def)
qed simp

lemma load_disabled_ok: "pool_ok P \<Longrightarrow> pool_ok (load_disabled n P)"
proof (cases "dget (po_hosts P) n")
  case None
  assume "pool_ok P"
  with None show ?thesis by (simp add: load_disabled_def pool_no_row)
next
  case (Some h)
  assume ok: "pool_ok P"
  from ok Some obtain rt where "dget (po_runtime P) n = Some rt" "runtime_of P n = rt" by (rule pool_row) blast
  with runtime_ok [OF ok Some, of "rt\<lparr>rt_enabled := False\<rparr>"] show ?thesis by (simp add: load_disabled_def)
qed

lemma load_state_ok:
  assumes "pool_ok P" "state_file_ok (po_file P)" "po_removed P = []"
  shows "pool_ok (load_state P)"
proof (cases "\<exists>d. po_has_file P \<and> po_file P = Some (JObj d)")
  case True
  then obtain d where d: "po_has_file P" "po_file P = Some (JObj d)" by blast
  let ?P1 = "fold load_removed (json_texts (json_list (dget d ''removed''))) P"
  let ?P2 = "fold load_added (json_list (dget d ''added'')) ?P1"
  from load_removeds_ok [OF assms(1), of "json_texts (json_list (dget d ''removed''))"] assms(3)
  have 1: "pool_ok ?P1" "set (po_removed ?P1) \<subseteq> set (json_texts (json_list (dget d ''removed'')))" by simp_all
  have "pool_ok ?P2"
    using 1(1)
  proof (rule load_addeds_ok)
    show "added_names (Some (JList (json_list (dget d ''added'')))) \<inter> set (po_removed ?P1) = {}"
      using 1(2) assms(2) d(2) unfolding added_names_list state_file_ok_def by blast
  qed
  moreover have "pool_ok (fold load_disabled ns Q)" if "pool_ok Q" for ns Q
    using that by (induction ns arbitrary: Q) (simp_all add: load_disabled_ok)
  ultimately have "pool_ok (fold load_disabled ns ?P2)" for ns by blast
  with d show ?thesis by (simp add: load_state_def Let_def)
next
  case False
  then show ?thesis using assms(1) by (auto simp: load_state_def split: option.split json.split)
qed

lemma new_pool_ok:
  assumes "\<forall>h \<in> set hosts. 1 \<le> ho_max_projects h" "state_file_ok file"
  shows "pool_ok (new_pool hosts has_file file wt rh follow)"
proof -
  have "po_removed (fold (\<lambda>h. register h SOURCE_CONFIG) hs P) = po_removed P" for hs P
    by (induction hs arbitrary: P) simp_all
  then show ?thesis
    unfolding new_pool_def
    by (intro load_state_ok configured_pool_ok assms(1)) (simp_all add: empty_pool_frame assms(2), simp add: empty_pool_def)
qed

text \<open>The file the portal writes is such a file.\<close>

lemma host_json_name: "host_config_from_dict (host_json h) = Inr k \<Longrightarrow> ho_name k = ho_name h"
  by (auto simp: host_config_from_dict_def host_json_def text_field_def elim!: ebind_InrE split: if_splits)

lemma saved_state_file_ok:
  assumes "pool_ok P"
  shows "state_file_ok (Some (saved_state P))"
proof -
  have "n \<notin> set (po_removed P)" if "dget (po_runtime P) n = Some rt" "rt_source rt = SOURCE_ADDED" for n rt
    using that pool_no_row(2) [OF assms, of n] by (cases "dget (po_hosts P) n") (auto elim: pool_row [OF assms])
  moreover have "ho_name h = n" if "dget (po_hosts P) n = Some h" for n h using assms that by (rule pool_row)
  moreover have "dget (po_runtime P) n = Some rt" if "(n, rt) \<in> set (po_runtime P)" for n rt
    using that pool_okD(1) [OF assms] by (simp add: tables_ok_def dget_of_in)
  ultimately show ?thesis
    by (fastforce simp: state_file_ok_def saved_state_def added_names_def json_list_def host_config_from_dict_def [of JNull]
        dest: host_json_name split: option.splits)
qed

section \<open>What no history breaks\<close>

inductive pool_start :: "manager \<Rightarrow> bool" where
  "\<forall>h \<in> set hosts. 1 \<le> ho_max_projects h \<Longrightarrow> state_file_ok file \<Longrightarrow>
   pool_start \<lparr>mg_pool = new_pool hosts has_file file wt rh follow, mg_last_wake_at = 0\<rparr>"

interpretation pool_machine: invariant_machine pool_start pool_step "\<lambda>M. pool_ok (mg_pool M)"
  by unfold_locales (auto elim!: pool_start.cases intro: new_pool_ok pool_step_ok)

lemma run_pool: "\<forall>a \<in> set ops. pool_op_possible a \<Longrightarrow> pool_step\<^sup>*\<^sup>* M (fold exec_pool ops M)"
  by (induction ops arbitrary: M) (auto intro: pool_stepI converse_rtranclp_into_rtranclp)

lemma pick_room:
  assumes "pool_ok P" "pick i named now P = (Inr (h, rv), Q)"
  shows "dget (po_hosts P) (ho_name h) = Some h \<and> hs_projects (status_of P (ho_name h)) < ho_max_projects h"
proof (cases named)
  case None
  with assms(2) obtain k pl g rest where c: "sort_key fst (candidates P i now) = (k, g, pl) # rest"
    "reserve g pl P = ((h, rv), Q)"
    by (auto simp: pick_def split: list.splits prod.splits if_splits)
  then have "(k, h, pl) \<in> set (sort_key fst (candidates P i now))" using reserve_simps(1) [OF c(2)] by simp
  then show ?thesis using candidates_takes [OF assms(1)] by (auto simp: takes_def Let_def)
next
  case (Some n)
  with assms obtain g where g: "dget (po_hosts P) n = Some g" "hs_projects (status_of P n) < ho_max_projects g"
    "reserve g PLACEMENT_NAMED P = ((h, rv), Q)"
    by (auto simp: pick_def pick_named_def find_host_def split: option.splits if_splits prod.splits)
  have "ho_name g = n" using assms(1) g(1) by (rule pool_row)
  with g reserve_simps(1) [OF g(3)] show ?thesis by simp
qed


definition demo_manager :: manager where
  "demo_manager = \<lparr>mg_pool = demo_pool1, mg_last_wake_at = 0\<rparr>"

lemma demo_manager_start: "pool_start demo_manager"
  unfolding demo_manager_def demo_pool1_def by (rule pool_start.intros) (simp_all add: state_file_ok_def demo_host_def)


text \<open>A restart of the portal over any edited configuration, with the state file the portal
  wrote, gives consistent tables again.\<close>

theorem restart_consistent:
  assumes "pool_ok P" "\<forall>h \<in> set hosts. 1 \<le> ho_max_projects h"
  shows "pool_ok (new_pool hosts True (Some (saved_state P)) wake_timeout restart_hold follow)"
  using new_pool_ok [OF assms(2) saved_state_file_ok [OF assms(1)]] .

theorem restart_consistent_witness:
  "pool_ok (new_pool [demo_host ''b''] True (Some (saved_state demo_disabled)) 180 120 True)"
  using restart_consistent [OF demo_disabled_ok, of "[demo_host ''b'']" 180 120 True] by (simp add: demo_host_def)

end
