(* ===== verification/Focus.thy ===== *)
theory Focus
  imports Presentation
begin

text \<open>
  Focus (\<open>src/sreweb/portal/focus.py\<close>): an instructor brings the browser of a student onto the
  student's project and the two pages share a view. A student follows the newest focus on them;
  what their browsers were told is kept in \<open>fs_shown\<close> and \<open>resync\<close> tells the difference. Each
  handler is one transition; whether a message can be written is the parameter \<open>ok\<close>.
\<close>

section \<open>The page of a project\<close>

text \<open>\<open>urllib.parse.quote(s, safe='')\<close>: the bytes of UTF-8, percent-encoded unless unreserved.\<close>

definition utf8 :: "char \<Rightarrow> nat list" where
  "utf8 c = (let n = of_char c in if n < 128 then [n] else [192 + n div 64, 128 + n mod 64])"

definition hex_digit :: "nat \<Rightarrow> char" where
  "hex_digit n = char_of (if n < 10 then 48 + n else 55 + n)"

definition unreserved :: "char \<Rightarrow> bool" where
  "unreserved c \<longleftrightarrow> is_upper c \<or> is_lower c \<or> is_digit c \<or> c \<in> {CHR ''_'', CHR ''.'', CHR ''-'', CHR ''~''}"

definition quote :: "string \<Rightarrow> string" where
  "quote s = concat (map (\<lambda>c. if unreserved c then [c]
     else concat (map (\<lambda>b. [CHR ''%'', hex_digit (b div 16), hex_digit (b mod 16)]) (utf8 c))) s)"

definition project_page_url :: "string \<Rightarrow> string \<Rightarrow> string" where
  "project_page_url host rln = ''/projects/'' @ quote host @ ''/'' @ quote rln"

section \<open>The data\<close>

record focus =
  fo_id :: string
  fo_instructor :: identity
  fo_host :: string
  fo_rln :: string
  fo_student :: string
  fo_started :: real
  fo_view :: json
  fo_instructor_sockets :: "nat list"
  fo_student_sockets :: "nat list"
  fo_absent :: "real option"
  fo_last :: "nat option"

record focuses =
  fs_presence :: presence
  fs_items :: "(string \<times> focus) list"
  fs_shown :: "(string \<times> string) list"
  fs_grace :: real

definition WS_FOCUS_ENDED :: nat where "WS_FOCUS_ENDED = 4412"

datatype focus_error = ViewNotObject | ViewTooLarge | BadLabName | OwnProject | UnknownFocus

definition check_view :: "(json \<Rightarrow> nat) \<Rightarrow> json \<Rightarrow> focus_error + json" where
  "check_view json_size v =
     (case v of JObj f \<Rightarrow> if json_size v > MAX_VIEW_BYTES then Inl ViewTooLarge else Inr v | _ \<Rightarrow> Inl ViewNotObject)"

definition participant :: "focus \<Rightarrow> identity option \<Rightarrow> bool" where
  "participant f who \<longleftrightarrow> (case who of None \<Rightarrow> False | Some i \<Rightarrow> login i \<in> {login (fo_instructor f), fo_student f})"

definition focus_sockets :: "focus \<Rightarrow> nat list" where
  "focus_sockets f = fo_instructor_sockets f @ fo_student_sockets f"

section \<open>Queries\<close>

definition get_focus :: "focuses \<Rightarrow> string \<Rightarrow> focus option" where
  "get_focus S i = dget (fs_items S) i"

definition focus_newness :: "focus \<Rightarrow> real \<times> string" where
  "focus_newness f = (fo_started f, fo_id f)"

definition focus_listing :: "focuses \<Rightarrow> focus list" where
  "focus_listing S = sort_key focus_newness (vals_of (fs_items S))"

definition for_instructor :: "focuses \<Rightarrow> string \<Rightarrow> focus list" where
  "for_instructor S who = filter (\<lambda>f. login (fo_instructor f) = who) (focus_listing S)"

definition of_student :: "focuses \<Rightarrow> string \<Rightarrow> focus option" where
  "of_student S who = max_by focus_newness (filter (\<lambda>f. fo_student f = who) (vals_of (fs_items S)))"

section \<open>The messages\<close>

definition put_focus :: "focus \<Rightarrow> focuses \<Rightarrow> focuses" where
  "put_focus f S = S\<lparr>fs_items := dset (fs_items S) (fo_id f) f\<rparr>"

definition focus_log :: "net \<Rightarrow> focuses \<Rightarrow> focuses" where
  "focus_log l S = S\<lparr>fs_presence := (fs_presence S)\<lparr>p_log := l\<rparr>\<rparr>"

definition push_focus :: "(nat \<Rightarrow> bool) \<Rightarrow> string \<Rightarrow> message \<Rightarrow> focuses \<Rightarrow> focuses" where
  "push_focus ok who m S = S\<lparr>fs_presence := push ok who m (fs_presence S)\<rparr>"

definition instructor_name :: "focus \<Rightarrow> string" where
  "instructor_name f = (if fullname (fo_instructor f) \<noteq> [] then fullname (fo_instructor f) else login (fo_instructor f))"

definition started_message :: "focus \<Rightarrow> message" where
  "started_message f = MFocusStarted (fo_id f) (project_page_url (fo_host f) (fo_rln f)) (fo_host f) (fo_rln f) (instructor_name f)"

definition notify_instructor :: "(nat \<Rightarrow> bool) \<Rightarrow> string \<Rightarrow> focuses \<Rightarrow> focuses" where
  "notify_instructor ok i S =
     (case get_focus S i of
        None \<Rightarrow> S
      | Some f \<Rightarrow>
          (let n = length (fo_student_sockets f) in
           if fo_last f = Some n then S
           else (let (ws, l) = send_each ok (MStudent n) (fo_instructor_sockets f) (p_log (fs_presence S))
                 in focus_log l (put_focus (f\<lparr>fo_last := Some n, fo_instructor_sockets := ws\<rparr>) S))))"

section \<open>\<open>resync\<close>\<close>

definition followed :: "focuses \<Rightarrow> string \<Rightarrow> focus option" where
  "followed S who = (if identity_of (fs_presence S) who = None then None else of_student S who)"

definition leave_focus :: "(nat \<Rightarrow> bool) \<Rightarrow> string \<Rightarrow> focuses \<Rightarrow> focuses" where
  "leave_focus ok old S =
     (case get_focus S old of
        None \<Rightarrow> S
      | Some f \<Rightarrow> notify_instructor ok old
          (focus_log (close_each WS_FOCUS_ENDED (fo_student_sockets f) (p_log (fs_presence S)))
            (put_focus (f\<lparr>fo_student_sockets := []\<rparr>) S)))"

definition focus_ended :: "(nat \<Rightarrow> bool) \<Rightarrow> string \<Rightarrow> string \<Rightarrow> focuses \<Rightarrow> focuses" where
  "focus_ended ok who old S =
     (let S1 = leave_focus ok old S in push_focus ok who (MFocusEnded old) (S1\<lparr>fs_shown := dpop (fs_shown S1) who\<rparr>))"

definition resync_focus1 :: "(nat \<Rightarrow> bool) \<Rightarrow> string \<Rightarrow> focuses \<Rightarrow> focuses" where
  "resync_focus1 ok who S =
     (let current = followed S who; shown = dget (fs_shown S) who in
      if current \<noteq> None \<and> map_option fo_id current = shown then S
      else (let S1 = (case shown of None \<Rightarrow> S | Some old \<Rightarrow> focus_ended ok who old S)
            in case current of None \<Rightarrow> S1
               | Some f \<Rightarrow> push_focus ok who (started_message f) (S1\<lparr>fs_shown := dset (fs_shown S1) who (fo_id f)\<rparr>)))"

definition resync_focuses :: "(nat \<Rightarrow> bool) \<Rightarrow> string list \<Rightarrow> focuses \<Rightarrow> focuses" where
  "resync_focuses ok ls S = fold (resync_focus1 ok) (remdups ls) S"

definition tell_focus :: "(nat \<Rightarrow> bool) \<Rightarrow> string \<Rightarrow> nat \<Rightarrow> focuses \<Rightarrow> focuses" where
  "tell_focus ok who w S =
     (case of_student S who of
        Some f \<Rightarrow> if dget (fs_shown S) who = Some (fo_id f)
                  then focus_log (snd (send_quietly ok w (started_message f) (p_log (fs_presence S)))) S else S
      | None \<Rightarrow> S)"

section \<open>Life cycle\<close>

definition end_focus :: "(nat \<Rightarrow> bool) \<Rightarrow> string \<Rightarrow> focuses \<Rightarrow> focuses" where
  "end_focus ok i S =
     (case get_focus S i of
        None \<Rightarrow> S
      | Some f \<Rightarrow>
          (let affected = ladd (map fst (filter (\<lambda>(l, shown). shown = i) (fs_shown S))) (fo_student f);
               S1 = S\<lparr>fs_items := dpop (fs_items S) i\<rparr>
           in resync_focuses ok affected
                (focus_log (close_each WS_FOCUS_ENDED (focus_sockets f) (p_log (fs_presence S))) S1)))"

definition same_focus :: "identity \<Rightarrow> string \<Rightarrow> string \<Rightarrow> focuses \<Rightarrow> string list" where
  "same_focus instructor host rln S =
     map fo_id (filter (\<lambda>f. login (fo_instructor f) = login instructor \<and> fo_host f = host \<and> fo_rln f = rln) (vals_of (fs_items S)))"

text \<open>\<open>start\<close>: \<open>new\<close> is the identifier \<open>_new_id\<close> drew, one that no running focus has.\<close>

definition start_focus :: "(json \<Rightarrow> nat) \<Rightarrow> (nat \<Rightarrow> bool) \<Rightarrow> string \<Rightarrow> identity \<Rightarrow> string \<Rightarrow> string \<Rightarrow> json option \<Rightarrow> real \<Rightarrow>
    focuses \<Rightarrow> focus_error + focuses" where
  "start_focus json_size ok new instructor host rln view now S =
     (case running_lab_name_owner rln of
        None \<Rightarrow> Inl BadLabName
      | Some student \<Rightarrow>
          if student = login instructor then Inl OwnProject
          else ebind (check_view json_size (case view of None \<Rightarrow> JObj [] | Some v \<Rightarrow> v)) (\<lambda>v.
            let S1 = fold (end_focus ok) (same_focus instructor host rln S) S;
                f = \<lparr>fo_id = new, fo_instructor = instructor, fo_host = host, fo_rln = rln, fo_student = student,
                     fo_started = now, fo_view = v, fo_instructor_sockets = [], fo_student_sockets = [],
                     fo_absent = Some now, fo_last = None\<rparr>
            in Inr (resync_focuses ok [student] (put_focus f S1))))"

definition set_focus_view :: "(json \<Rightarrow> nat) \<Rightarrow> (nat \<Rightarrow> bool) \<Rightarrow> string \<Rightarrow> json \<Rightarrow> focuses \<Rightarrow> focus_error + focuses" where
  "set_focus_view json_size ok i view S =
     (case get_focus S i of
        None \<Rightarrow> Inl UnknownFocus
      | Some f \<Rightarrow> ebind (check_view json_size view) (\<lambda>v.
          let (is, l1) = send_each ok (MView v) (fo_instructor_sockets f) (p_log (fs_presence S));
              (ss, l2) = send_each ok (MView v) (fo_student_sockets f) l1
          in Inr (focus_log l2 (put_focus (f\<lparr>fo_view := v, fo_instructor_sockets := is, fo_student_sockets := ss\<rparr>) S))))"

section \<open>The sockets of the two pages\<close>

definition attach_instructor :: "(nat \<Rightarrow> bool) \<Rightarrow> string \<Rightarrow> nat \<Rightarrow> focuses \<Rightarrow> bool \<times> focuses" where
  "attach_instructor ok i w S =
     (case get_focus S i of
        None \<Rightarrow> (False, S)
      | Some f \<Rightarrow>
          (let n = length (fo_student_sockets f);
               l1 = snd (send_quietly ok w (MStudent n) (p_log (fs_presence S)));
               l2 = snd (send_quietly ok w (MView (fo_view f)) l1)
           in (True, focus_log l2 (put_focus (f\<lparr>fo_instructor_sockets := ladd (fo_instructor_sockets f) w,
                fo_absent := None, fo_last := Some n\<rparr>) S))))"

definition detach_instructor :: "string \<Rightarrow> nat \<Rightarrow> real \<Rightarrow> focuses \<Rightarrow> focuses" where
  "detach_instructor i w now S =
     (case get_focus S i of
        None \<Rightarrow> S
      | Some f \<Rightarrow>
          (let ws = removeAll w (fo_instructor_sockets f)
           in put_focus (f\<lparr>fo_instructor_sockets := ws, fo_absent := (if ws = [] then Some now else fo_absent f)\<rparr>) S))"

definition attach_student :: "(nat \<Rightarrow> bool) \<Rightarrow> string \<Rightarrow> identity \<Rightarrow> nat \<Rightarrow> focuses \<Rightarrow> bool \<times> focuses" where
  "attach_student ok i who w S =
     (case get_focus S i of
        None \<Rightarrow> (False, S)
      | Some f \<Rightarrow>
          if login who \<noteq> fo_student f then (False, S)
          else (True, notify_instructor ok i
            (focus_log (snd (send_quietly ok w (MView (fo_view f)) (p_log (fs_presence S))))
              (put_focus (f\<lparr>fo_student_sockets := ladd (fo_student_sockets f) w\<rparr>) S))))"

definition detach_student :: "(nat \<Rightarrow> bool) \<Rightarrow> string \<Rightarrow> nat \<Rightarrow> focuses \<Rightarrow> focuses" where
  "detach_student ok i w S =
     (case get_focus S i of
        None \<Rightarrow> S
      | Some f \<Rightarrow> notify_instructor ok i (put_focus (f\<lparr>fo_student_sockets := removeAll w (fo_student_sockets f)\<rparr>) S))"

section \<open>The grace of an absent instructor\<close>

definition instructor_gone :: "real \<Rightarrow> focuses \<Rightarrow> string \<Rightarrow> bool" where
  "instructor_gone now S i =
     (case get_focus S i of
        None \<Rightarrow> False
      | Some f \<Rightarrow> (case fo_absent f of None \<Rightarrow> False | Some t \<Rightarrow> fs_grace S \<le> now - t))"

definition tick_focuses :: "(nat \<Rightarrow> bool) \<Rightarrow> real \<Rightarrow> focuses \<Rightarrow> focuses" where
  "tick_focuses ok now S =
     fold (\<lambda>i S. if instructor_gone now S i then end_focus ok i S else S) (keys_of (fs_items S)) S"

definition shutdown_focuses :: "(nat \<Rightarrow> bool) \<Rightarrow> focuses \<Rightarrow> focuses" where
  "shutdown_focuses ok S = fold (end_focus ok) (keys_of (fs_items S)) S"

end
