(* ===== verification/Focus_Safety.thy ===== *)
theory Focus_Safety
  imports Focus
begin

text \<open>
  What the focuses promise (\<open>src/sreweb/portal/focus.py\<close>): \<open>resync\<close> follows the protocol of
  \<open>delta_sync\<close>, and no history leaves the browser of a student on a focus that is over or that is on
  someone else.
\<close>

section \<open>What the messages leave alone\<close>

text \<open>What decides which focus a student follows.\<close>

definition fscope :: "focus \<Rightarrow> string \<times> string \<times> real" where
  "fscope f = (fo_id f, fo_student f, fo_started f)"

definition fscopes :: "focuses \<Rightarrow> (string \<times> string \<times> string \<times> real) list" where
  "fscopes S = map (\<lambda>(k, f). (k, fscope f)) (fs_items S)"

definition focuses_ok :: "focuses \<Rightarrow> bool" where
  "focuses_ok S \<longleftrightarrow> presence_ok (fs_presence S) \<and> dict_ok (fs_items S) \<and> (\<forall>k f. get_focus S k = Some f \<longrightarrow> fo_id f = k)"

lemma focuses_okD:
  "focuses_ok S \<Longrightarrow> presence_ok (fs_presence S)" "focuses_ok S \<Longrightarrow> dict_ok (fs_items S)"
  "focuses_ok S \<Longrightarrow> get_focus S k = Some f \<Longrightarrow> fo_id f = k"
  by (simp_all add: focuses_ok_def)

lemma get_put [simp]: "get_focus (put_focus f S) k = (if k = fo_id f then Some f else get_focus S k)"
  by (simp add: get_focus_def put_focus_def)

lemma focus_frame [simp]:
  "get_focus (focus_log l S) = get_focus S" "get_focus (push_focus ok who m S) = get_focus S"
  "get_focus (S\<lparr>fs_shown := d\<rparr>) = get_focus S"
  "fscopes (focus_log l S) = fscopes S" "fscopes (push_focus ok who m S) = fscopes S" "fscopes (S\<lparr>fs_shown := d\<rparr>) = fscopes S"
  "fs_shown (focus_log l S) = fs_shown S" "fs_shown (push_focus ok who m S) = fs_shown S" "fs_shown (put_focus f S) = fs_shown S"
  "fs_presence (put_focus f S) = fs_presence S" "identity_of (fs_presence (focus_log l S)) who = identity_of (fs_presence S) who"
  by (simp_all add: fun_eq_iff get_focus_def focus_log_def push_focus_def put_focus_def fscopes_def)

lemma focuses_ok_frame [simp]:
  "focuses_ok (focus_log l S) = focuses_ok S" "focuses_ok (S\<lparr>fs_shown := d\<rparr>) = focuses_ok S"
  by (simp_all add: focuses_ok_def) (simp_all add: focus_log_def)

lemma put_focus_ok: "focuses_ok S \<Longrightarrow> focuses_ok (put_focus f S)"
  by (simp add: focuses_ok_def) (simp add: put_focus_def)

lemma push_focus_ok: "focuses_ok S \<Longrightarrow> focuses_ok (push_focus ok who m S)"
  by (simp add: focuses_ok_def) (simp add: push_focus_def presence_ok_push)

lemma fscopes_put: "get_focus S (fo_id f) = Some g \<Longrightarrow> fscope g = fscope f \<Longrightarrow> fscopes (put_focus f S) = fscopes S"
  by (simp add: fscopes_def put_focus_def get_focus_def map_update_same)

text \<open>\<open>still S T\<close>: from \<open>S\<close> to \<open>T\<close> only sockets, views and messages moved; who is followed by whom did not.\<close>

definition still :: "focuses \<Rightarrow> focuses \<Rightarrow> bool" where
  "still S T \<longleftrightarrow> fscopes T = fscopes S \<and> (focuses_ok S \<longrightarrow> focuses_ok T)"

lemma still_refl [simp]: "still S S"
  by (simp add: still_def)

lemma still_trans [trans]: "still S T \<Longrightarrow> still T U \<Longrightarrow> still S U"
  by (simp add: still_def)

lemma still_log [simp]: "still S (focus_log l T) = still S T" "still S (T\<lparr>fs_shown := d\<rparr>) = still S T"
  by (simp_all add: still_def)

lemma still_push: "still S T \<Longrightarrow> still S (push_focus ok who m T)"
  by (simp add: still_def push_focus_ok)

lemma still_put: "get_focus S (fo_id f) = Some g \<Longrightarrow> fscope g = fscope f \<Longrightarrow> still S (put_focus f S)"
  by (simp add: still_def fscopes_put put_focus_ok)

lemma notify_instructor_still:
  "still S (notify_instructor ok i S) \<and> fs_shown (notify_instructor ok i S) = fs_shown S \<and>
   identity_of (fs_presence (notify_instructor ok i S)) who = identity_of (fs_presence S) who" if "focuses_ok S"
  using focuses_okD(3) [OF that]
  by (auto simp: notify_instructor_def Let_def fscope_def intro!: still_put split: option.split prod.split)

lemma leave_focus_still:
  assumes "focuses_ok S"
  shows "still S (leave_focus ok old S)" "fs_shown (leave_focus ok old S) = fs_shown S"
    "identity_of (fs_presence (leave_focus ok old S)) who = identity_of (fs_presence S) who"
proof -
  have "still S (leave_focus ok old S) \<and> fs_shown (leave_focus ok old S) = fs_shown S \<and>
    identity_of (fs_presence (leave_focus ok old S)) who = identity_of (fs_presence S) who"
  proof (cases "get_focus S old")
    case (Some f)
    let ?T = "focus_log (close_each WS_FOCUS_ENDED (fo_student_sockets f) (p_log (fs_presence S))) (put_focus (f\<lparr>fo_student_sockets := []\<rparr>) S)"
    have T: "still S ?T" using Some focuses_okD(3) [OF assms Some] by (simp add: still_put fscope_def)
    then have "focuses_ok ?T" using assms by (simp add: still_def)
    note n = notify_instructor_still [OF this, of ok old who]
    have "still S (notify_instructor ok old ?T)" by (rule still_trans [OF T conjunct1 [OF n]])
    with n Some show ?thesis by (simp add: leave_focus_def)
  qed (simp add: leave_focus_def)
  then show "still S (leave_focus ok old S)" "fs_shown (leave_focus ok old S) = fs_shown S"
    "identity_of (fs_presence (leave_focus ok old S)) who = identity_of (fs_presence S) who" by auto
qed

section \<open>\<open>resync\<close> tells the difference\<close>

definition followed_id :: "focuses \<Rightarrow> string \<Rightarrow> string option" where
  "followed_id S who = map_option fo_id (followed S who)"

lemma of_student_scope:
  "map_option fscope (of_student S who) =
     max_by (\<lambda>(i, student, started). (started, i)) (filter (\<lambda>(i, student, started). student = who) (map snd (fscopes S)))"
proof -
  have "map snd (fscopes S) = map fscope (vals_of (fs_items S))" by (auto simp: fscopes_def vals_of_def)
  moreover have "(\<lambda>x. case fscope x of (i, student, started) \<Rightarrow> (started, i)) = focus_newness"
    by (auto simp: fscope_def focus_newness_def)
  moreover have "(\<lambda>x. case fscope x of (i, student, started) \<Rightarrow> student = who) = (\<lambda>f. fo_student f = who)"
    by (auto simp: fscope_def)
  ultimately show ?thesis by (simp add: of_student_def filter_map o_def max_by_map)
qed

lemma followed_id_still:
  assumes "fscopes T = fscopes S" "identity_of (fs_presence T) who = identity_of (fs_presence S) who"
  shows "followed_id T who = followed_id S who"
proof -
  have "map_option fo_id q = map_option fst (map_option fscope q)" for q by (cases q) (simp_all add: fscope_def)
  then show ?thesis using assms by (simp add: followed_id_def followed_def of_student_scope del: option.map_comp)
qed

lemma push_focus_identity:
  "focuses_ok S \<Longrightarrow> x \<noteq> who \<Longrightarrow> identity_of (fs_presence (push_focus ok who m S)) x = identity_of (fs_presence S) x"
  by (simp add: push_focus_def identity_of_push_other focuses_okD(1))

lemma resync_focus1_facts:
  assumes "focuses_ok S"
  shows "still S (resync_focus1 ok who S)"
    "dget (fs_shown (resync_focus1 ok who S)) x = (if x = who then followed_id S who else dget (fs_shown S) x)"
    "x \<noteq> who \<Longrightarrow> identity_of (fs_presence (resync_focus1 ok who S)) x = identity_of (fs_presence S) x"
proof -
  define S1 where "S1 = (case dget (fs_shown S) who of None \<Rightarrow> S | Some old \<Rightarrow> focus_ended ok who old S)"
  have S1: "still S S1" "dget (fs_shown S1) y = (if y = who then None else dget (fs_shown S) y)"
    "y \<noteq> who \<Longrightarrow> identity_of (fs_presence S1) y = identity_of (fs_presence S) y" for y
  proof -
    have ok: "focuses_ok (leave_focus ok old S)" for old using leave_focus_still(1) [OF assms] assms by (simp add: still_def)
    show "still S S1" "dget (fs_shown S1) y = (if y = who then None else dget (fs_shown S) y)"
      "y \<noteq> who \<Longrightarrow> identity_of (fs_presence S1) y = identity_of (fs_presence S) y"
      using leave_focus_still [OF assms, of ok] ok
      by (auto simp: S1_def focus_ended_def Let_def still_push push_focus_identity split: option.split)
  qed
  have ok1: "focuses_ok S1" using S1(1) assms by (simp add: still_def)
  have eq: "resync_focus1 ok who S =
     (if followed S who \<noteq> None \<and> map_option fo_id (followed S who) = dget (fs_shown S) who then S
      else case followed S who of None \<Rightarrow> S1
        | Some f \<Rightarrow> push_focus ok who (started_message f) (S1\<lparr>fs_shown := dset (fs_shown S1) who (fo_id f)\<rparr>))"
    by (simp only: resync_focus1_def S1_def Let_def)
  show "still S (resync_focus1 ok who S)"
    "dget (fs_shown (resync_focus1 ok who S)) x = (if x = who then followed_id S who else dget (fs_shown S) x)"
    "x \<noteq> who \<Longrightarrow> identity_of (fs_presence (resync_focus1 ok who S)) x = identity_of (fs_presence S) x"
    using S1 ok1 unfolding eq followed_id_def
    by (auto simp: still_push push_focus_identity split: option.split)
qed

interpretation focus_sync: delta_sync "resync_focus1 ok" followed_id "\<lambda>S. dget (fs_shown S)" "\<lambda>S l. False" focuses_ok for ok
proof unfold_locales
  fix S l l'
  assume S: "focuses_ok S"
  note f = resync_focus1_facts [OF S, where ok = ok and who = l]
  show "focuses_ok (resync_focus1 ok l S)" using f(1) S by (simp add: still_def)
  show "dget (fs_shown (resync_focus1 ok l S)) l = followed_id S l" by (simp add: f(2))
  assume other: "l' \<noteq> l"
  show "dget (fs_shown (resync_focus1 ok l S)) l' = dget (fs_shown S) l'" using other by (simp add: f(2))
  show "followed_id (resync_focus1 ok l S) l' = followed_id S l'"
    using f(1) f(3) [OF other] by (intro followed_id_still) (simp_all add: still_def)
qed simp_all

lemma resync_focuses_shown:
  "focuses_ok S \<Longrightarrow> dget (fs_shown (resync_focuses ok ls S)) who =
     (if who \<in> set ls then followed_id S who else dget (fs_shown S) who)"
  using focus_sync.sync_all [of S "remdups ls" ok who] by (simp add: resync_focuses_def)

lemma resync_focuses_still: "focuses_ok S \<Longrightarrow> still S (resync_focuses ok ls S)"
proof -
  have "focuses_ok S \<Longrightarrow> still S (fold (resync_focus1 ok) l S)" for l
  proof (induction l arbitrary: S)
    case (Cons a l)
    note f = resync_focus1_facts(1) [OF Cons.prems, of ok a]
    have "still (resync_focus1 ok a S) (fold (resync_focus1 ok) l (resync_focus1 ok a S))"
      by (rule Cons.IH) (use f Cons.prems in \<open>simp add: still_def\<close>)
    with f show ?case by (auto intro: still_trans)
  qed simp
  then show "focuses_ok S \<Longrightarrow> ?thesis" by (simp add: resync_focuses_def)
qed

section \<open>No browser is left on a focus that is over\<close>

text \<open>What every login was told is a running focus on them.\<close>

definition told_running :: "focuses \<Rightarrow> bool" where
  "told_running S \<longleftrightarrow> (\<forall>who i. dget (fs_shown S) who = Some i \<longrightarrow> (\<exists>f. get_focus S i = Some f \<and> fo_student f = who))"

definition good_focuses :: "focuses \<Rightarrow> bool" where
  "good_focuses S \<longleftrightarrow> focuses_ok S \<and> told_running S"

lemma get_fscopes: "map_option fscope (get_focus S i) = map_of (fscopes S) i"
  by (simp add: get_focus_def fscopes_def map_of_map [symmetric] comp_def map_of_map)

lemma running_fscopes:
  "(\<exists>f. get_focus S i = Some f \<and> fo_student f = who) \<longleftrightarrow> (\<exists>j t. map_of (fscopes S) i = Some (j, who, t))"
  unfolding get_fscopes [symmetric] by (auto simp: fscope_def)

lemma told_running_still: "told_running S \<Longrightarrow> fscopes T = fscopes S \<Longrightarrow> fs_shown T = fs_shown S \<Longrightarrow> told_running T"
  by (simp add: told_running_def running_fscopes)

lemma followed_running:
  assumes "focuses_ok S" "followed_id S who = Some i"
  shows "\<exists>f. get_focus S i = Some f \<and> fo_student f = who"
proof -
  from assms(2) obtain f where f: "of_student S who = Some f" "fo_id f = i"
    by (auto simp: followed_id_def followed_def split: if_splits)
  then have m: "f \<in> set (vals_of (fs_items S))" "fo_student f = who" by (auto simp: of_student_def dest!: max_by_in)
  from m(1) obtain k where "(k, f) \<in> set (fs_items S)" by (rule vals_ofE)
  then have "get_focus S k = Some f" using focuses_okD(2) [OF assms(1)] by (simp add: get_focus_def dget_of_in)
  with focuses_okD(3) [OF assms(1) this] f m(2) show ?thesis by auto
qed

text \<open>A resynchronisation repairs what the logins it covers were told.\<close>

lemma resync_good:
  assumes "focuses_ok S"
    and "\<And>who i. who \<notin> set ls \<Longrightarrow> dget (fs_shown S) who = Some i \<Longrightarrow> \<exists>f. get_focus S i = Some f \<and> fo_student f = who"
  shows "good_focuses (resync_focuses ok ls S)"
proof -
  have st: "still S (resync_focuses ok ls S)" by (rule resync_focuses_still [OF assms(1)])
  have "told_running (resync_focuses ok ls S)"
    unfolding told_running_def
  proof (intro allI impI)
    fix who i
    assume "dget (fs_shown (resync_focuses ok ls S)) who = Some i"
    then have "\<exists>f. get_focus S i = Some f \<and> fo_student f = who"
      using assms followed_running [OF assms(1)] by (auto simp: resync_focuses_shown split: if_splits)
    then show "\<exists>f. get_focus (resync_focuses ok ls S) i = Some f \<and> fo_student f = who"
      using st by (simp add: running_fscopes still_def)
  qed
  with st assms(1) show ?thesis by (simp add: good_focuses_def still_def)
qed

lemma end_focus_good:
  assumes "good_focuses S"
  shows "good_focuses (end_focus ok i S)"
proof (cases "get_focus S i")
  case None
  with assms show ?thesis by (simp add: end_focus_def)
next
  case (Some f)
  define aff where "aff = ladd (map fst (filter (\<lambda>(l, shown). shown = i) (fs_shown S))) (fo_student f)"
  define T where "T = focus_log (close_each WS_FOCUS_ENDED (focus_sockets f) (p_log (fs_presence S))) (S\<lparr>fs_items := dpop (fs_items S) i\<rparr>)"
  have ok: "focuses_ok S" and told: "told_running S" using assms by (simp_all add: good_focuses_def)
  have get: "get_focus T k = (if k = i then None else get_focus S k)" for k by (simp add: T_def) (simp add: get_focus_def)
  have "focuses_ok T"
    unfolding focuses_ok_def get using ok by (auto simp: T_def focus_log_def focuses_ok_def split: if_splits)
  moreover have "\<exists>g. get_focus T j = Some g \<and> fo_student g = who" if "who \<notin> set aff" "dget (fs_shown T) who = Some j" for who j
  proof -
    have sh: "dget (fs_shown S) who = Some j" using that(2) by (simp add: T_def)
    then have "j \<noteq> i" using that(1) by (force simp: aff_def dest: map_of_SomeD)
    with sh told show ?thesis by (auto simp: told_running_def get)
  qed
  ultimately have "good_focuses (resync_focuses ok aff T)" by (rule resync_good)
  with Some show ?thesis by (simp add: end_focus_def Let_def aff_def T_def)
qed

lemma ends_good: "good_focuses S \<Longrightarrow> good_focuses (fold (end_focus ok) is S)"
  by (induction "is" arbitrary: S) (auto intro: end_focus_good)

lemma still_good: "good_focuses S \<Longrightarrow> still S T \<Longrightarrow> fs_shown T = fs_shown S \<Longrightarrow> good_focuses T"
  by (auto simp: good_focuses_def still_def intro: told_running_still)

lemma still_get: "still S T \<Longrightarrow> get_focus T k = None \<longleftrightarrow> get_focus S k = None"
  using get_fscopes [of S k] get_fscopes [of T k] by (metis still_def option.map_disc_iff)

lemma end_focus_none:
  assumes "focuses_ok S" "get_focus S k = None \<or> k = i"
  shows "get_focus (end_focus ok i S) k = None"
proof (cases "get_focus S i")
  case (Some f)
  define T where "T = focus_log (close_each WS_FOCUS_ENDED (focus_sockets f) (p_log (fs_presence S))) (S\<lparr>fs_items := dpop (fs_items S) i\<rparr>)"
  have "focuses_ok T" unfolding focuses_ok_def using assms(1)
    by (auto simp: T_def focus_log_def focuses_ok_def get_focus_def split: if_splits)
  then have "get_focus (resync_focuses ok ls T) k = None \<longleftrightarrow> get_focus T k = None" for ls
    by (rule still_get [OF resync_focuses_still])
  with Some assms(2) show ?thesis by (auto simp: end_focus_def Let_def T_def) (auto simp: get_focus_def)
qed (use assms(2) in \<open>auto simp: end_focus_def\<close>)

lemma ends_none:
  "good_focuses S \<Longrightarrow> get_focus S k = None \<Longrightarrow> get_focus (fold (end_focus ok) is S) k = None"
proof (induction "is" arbitrary: S)
  case (Cons i "is")
  then have "get_focus (end_focus ok i S) k = None" by (intro end_focus_none) (simp_all add: good_focuses_def)
  with Cons.IH [OF end_focus_good [OF Cons.prems(1)]] show ?case by simp
qed simp

lemma start_focus_good:
  assumes "good_focuses S" "get_focus S new = None" "start_focus json_size ok new instructor host rln view now S = Inr T"
  shows "good_focuses T"
proof -
  define S1 where "S1 = fold (end_focus ok) (same_focus instructor host rln S) S"
  from assms(3) obtain student v where T: "T = resync_focuses ok [student] (put_focus \<lparr>fo_id = new, fo_instructor = instructor,
      fo_host = host, fo_rln = rln, fo_student = student, fo_started = now, fo_view = v, fo_instructor_sockets = [],
      fo_student_sockets = [], fo_absent = Some now, fo_last = None\<rparr> S1)"
    by (auto simp: start_focus_def S1_def Let_def elim!: ebind_InrE split: option.splits if_splits)
  have S1: "good_focuses S1" "get_focus S1 new = None"
    using ends_good [OF assms(1)] ends_none [OF assms(1,2)] by (simp_all add: S1_def)
  show ?thesis
    unfolding T
  proof (rule resync_good)
    fix who i
    assume "who \<notin> set [student]" and sh: "dget (fs_shown (put_focus \<lparr>fo_id = new, fo_instructor = instructor,
      fo_host = host, fo_rln = rln, fo_student = student, fo_started = now, fo_view = v, fo_instructor_sockets = [],
      fo_student_sockets = [], fo_absent = Some now, fo_last = None\<rparr> S1)) who = Some i"
    with S1(1) obtain f where f: "get_focus S1 i = Some f" "fo_student f = who" by (auto simp: good_focuses_def told_running_def)
    with S1(2) have "i \<noteq> new" by auto
    with f show "\<exists>f. get_focus (put_focus \<lparr>fo_id = new, fo_instructor = instructor,
      fo_host = host, fo_rln = rln, fo_student = student, fo_started = now, fo_view = v, fo_instructor_sockets = [],
      fo_student_sockets = [], fo_absent = Some now, fo_last = None\<rparr> S1) i = Some f \<and> fo_student f = who" by simp
  qed (use S1(1) in \<open>simp add: put_focus_ok good_focuses_def\<close>)
qed

lemma set_focus_view_good:
  assumes "good_focuses S" "set_focus_view json_size ok i view S = Inr T"
  shows "good_focuses T"
proof -
  from assms(2) obtain f v ws ss l where f: "get_focus S i = Some f"
    "T = focus_log l (put_focus (f\<lparr>fo_view := v, fo_instructor_sockets := ws, fo_student_sockets := ss\<rparr>) S)"
    by (auto simp: set_focus_view_def elim!: ebind_InrE split: option.splits prod.splits)
  have "fo_id f = i" using assms(1) f(1) by (auto simp: good_focuses_def dest: focuses_okD(3))
  with f have "still S T" by (simp add: still_put fscope_def)
  with assms(1) show ?thesis by (rule still_good) (simp add: f(2))
qed

lemma notify_good:
  assumes "good_focuses S"
  shows "good_focuses (notify_instructor ok i S)"
proof -
  from assms have "focuses_ok S" by (simp add: good_focuses_def)
  from notify_instructor_still [OF this, of ok i] show ?thesis by (intro still_good [OF assms]) blast+
qed

lemma put_good:
  "good_focuses S \<Longrightarrow> get_focus S (fo_id f) = Some g \<Longrightarrow> fscope g = fscope f \<Longrightarrow> good_focuses (put_focus f S)"
  using still_good [OF _ still_put, of S f g] by simp

lemma log_good [simp]: "good_focuses (focus_log l S) = good_focuses S"
  by (simp add: good_focuses_def told_running_def)

lemma good_id: "good_focuses S \<Longrightarrow> get_focus S k = Some f \<Longrightarrow> fo_id f = k"
  by (auto simp: good_focuses_def dest: focuses_okD(3))

lemma sockets_good:
  assumes "good_focuses S"
  shows "good_focuses (snd (attach_instructor ok i w S))" "good_focuses (detach_instructor i w now S)"
    "good_focuses (snd (attach_student ok i who w S))" "good_focuses (detach_student ok i w S)"
  using good_id [OF assms, of i] assms
  by (cases "get_focus S i"; simp add: attach_instructor_def detach_instructor_def attach_student_def detach_student_def Let_def;
      auto intro!: notify_good put_good [OF assms] simp: fscope_def)+

lemma presence_change_good: "good_focuses S \<Longrightarrow> presence_ok P \<Longrightarrow> good_focuses (S\<lparr>fs_presence := P\<rparr>)"
  by (simp add: good_focuses_def focuses_ok_def told_running_def get_focus_def)

section \<open>Histories\<close>

datatype focus_op =
    FoStart string identity string string "json option" real
  | FoView string json
  | FoEnd string
  | FoInstructor string nat
  | FoInstructorGone string nat real
  | FoStudent string identity nat
  | FoStudentGone string nat
  | FoTell string nat
  | FoResync "string list"
  | FoTick real
  | FoShutdown
  | FoConnect identity string nat real
  | FoDisconnect psocket

definition or_same :: "'e + 'a \<Rightarrow> 'a \<Rightarrow> 'a" where
  "or_same r S = (case r of Inl e \<Rightarrow> S | Inr T \<Rightarrow> T)"

fun exec_focus :: "(json \<Rightarrow> nat) \<Rightarrow> (nat \<Rightarrow> bool) \<Rightarrow> focus_op \<Rightarrow> focuses \<Rightarrow> focuses" where
  "exec_focus sz ok (FoStart new who host rln view now) S = or_same (start_focus sz ok new who host rln view now S) S"
| "exec_focus sz ok (FoView i v) S = or_same (set_focus_view sz ok i v S) S"
| "exec_focus sz ok (FoEnd i) S = end_focus ok i S"
| "exec_focus sz ok (FoInstructor i w) S = snd (attach_instructor ok i w S)"
| "exec_focus sz ok (FoInstructorGone i w now) S = detach_instructor i w now S"
| "exec_focus sz ok (FoStudent i who w) S = snd (attach_student ok i who w S)"
| "exec_focus sz ok (FoStudentGone i w) S = detach_student ok i w S"
| "exec_focus sz ok (FoTell who w) S = tell_focus ok who w S"
| "exec_focus sz ok (FoResync ls) S = resync_focuses ok ls S"
| "exec_focus sz ok (FoTick now) S = tick_focuses ok now S"
| "exec_focus sz ok FoShutdown S = shutdown_focuses ok S"
| "exec_focus sz ok (FoConnect who page w now) S = S\<lparr>fs_presence := snd (presence_add who page w now (fs_presence S))\<rparr>"
| "exec_focus sz ok (FoDisconnect s) S = S\<lparr>fs_presence := presence_remove s (fs_presence S)\<rparr>"

inductive focus_step :: "(json \<Rightarrow> nat) \<Rightarrow> (nat \<Rightarrow> bool) \<Rightarrow> focuses \<Rightarrow> focuses \<Rightarrow> bool" for sz ok where
  focus_stepI: "(case a of FoStart new who host rln view now \<Rightarrow> get_focus S new = None | _ \<Rightarrow> True) \<Longrightarrow>
    focus_step sz ok S (exec_focus sz ok a S)"

inductive_cases focus_stepE: "focus_step sz ok S T"

lemma tick_focuses_good: "good_focuses S \<Longrightarrow> good_focuses (tick_focuses ok now S)"
proof -
  have "good_focuses S \<Longrightarrow> good_focuses (fold (\<lambda>i S. if instructor_gone now S i then end_focus ok i S else S) is S)" for "is"
    by (induction "is" arbitrary: S) (auto intro: end_focus_good)
  then show "good_focuses S \<Longrightarrow> ?thesis" by (simp add: tick_focuses_def)
qed

lemma resync_focuses_good: "good_focuses S \<Longrightarrow> good_focuses (resync_focuses ok ls S)"
  by (rule resync_good) (auto simp: good_focuses_def told_running_def)

lemma tell_focus_good: "good_focuses S \<Longrightarrow> good_focuses (tell_focus ok who w S)"
  by (simp add: tell_focus_def split: option.split)

lemma focus_step_good: "good_focuses S \<Longrightarrow> focus_step sz ok S T \<Longrightarrow> good_focuses T"
proof (elim focus_stepE)
  fix a
  assume g: "good_focuses S" and T: "T = exec_focus sz ok a S"
    and p: "case a of FoStart new who host rln view now \<Rightarrow> get_focus S new = None | _ \<Rightarrow> True"
  have P: "presence_ok (fs_presence S)" using g by (simp add: good_focuses_def focuses_okD(1))
  show "good_focuses T"
    using g p P unfolding T
    by (cases a) (auto simp: or_same_def end_focus_good sockets_good resync_focuses_good tick_focuses_good tell_focus_good
        shutdown_focuses_def ends_good presence_change_good presence_ok_add presence_ok_remove split: sum.split
        intro: start_focus_good set_focus_view_good)
qed

definition no_focuses :: "real \<Rightarrow> focuses" where
  "no_focuses grace = \<lparr>fs_presence = \<lparr>p_sockets = [], p_next = 0, p_log = []\<rparr>, fs_items = [], fs_shown = [], fs_grace = grace\<rparr>"

lemma no_focuses_good: "good_focuses (no_focuses grace)"
  by (simp add: good_focuses_def focuses_ok_def told_running_def presence_ok_def no_focuses_def get_focus_def)

interpretation focus_machine: invariant_machine "\<lambda>S. \<exists>g. S = no_focuses g" "focus_step sz ok" good_focuses for sz ok
  by unfold_locales (auto intro: no_focuses_good focus_step_good)


lemma vals_dset: "set (vals_of (dset d k v)) \<subseteq> insert v (set (vals_of d))"
  by (induction d) (auto simp: vals_of_def)

lemma max_by_strict: "x \<in> set xs \<Longrightarrow> \<forall>y \<in> set xs. y \<noteq> x \<longrightarrow> f y < f x \<Longrightarrow> max_by f xs = Some x"
  using max_by_in [of f xs] max_by_ge [of f xs] by (cases "max_by f xs") (auto simp: leD)

text \<open>An instructor who helps a connected student brings the student's browser to the project
  at once, with the view that was given, when no running focus on that student is newer and the
  instructor had none on that project.\<close>

theorem start_brings:
  assumes "good_focuses S" "get_focus S new = None" "start_focus sz ok new instructor host rln view now S = Inr T"
    and "running_lab_name_owner rln = Some student" "identity_of (fs_presence S) student \<noteq> None"
    and "same_focus instructor host rln S = []"
    and "\<And>f. f \<in> set (vals_of (fs_items S)) \<Longrightarrow> fo_student f = student \<Longrightarrow> fo_started f < now"
  shows "dget (fs_shown T) student = Some new \<and> (\<exists>f. get_focus T new = Some f \<and> fo_student f = student)"
proof -
  from assms(3,4) obtain v where T: "T = resync_focuses ok [student] (put_focus \<lparr>fo_id = new, fo_instructor = instructor,
      fo_host = host, fo_rln = rln, fo_student = student, fo_started = now, fo_view = v, fo_instructor_sockets = [],
      fo_student_sockets = [], fo_absent = Some now, fo_last = None\<rparr> S)"
    by (auto simp: start_focus_def assms(6) Let_def elim!: ebind_InrE split: option.splits if_splits)
  define f where "f = \<lparr>fo_id = new, fo_instructor = instructor,
      fo_host = host, fo_rln = rln, fo_student = student, fo_started = now, fo_view = v, fo_instructor_sockets = [],
      fo_student_sockets = [], fo_absent = Some now, fo_last = None\<rparr>"
  have ok: "focuses_ok (put_focus f S)" using assms(1) by (simp add: put_focus_ok good_focuses_def)
  have items: "set (vals_of (fs_items (put_focus f S))) \<subseteq> insert f (set (vals_of (fs_items S)))"
    by (simp add: put_focus_def vals_dset)
  have fin: "f \<in> set (vals_of (fs_items (put_focus f S)))"
    by (rule dget_vals [of _ new]) (simp add: put_focus_def f_def)
  have "max_by focus_newness (filter (\<lambda>f. fo_student f = student) (vals_of (fs_items (put_focus f S)))) = Some f"
  proof (rule max_by_strict)
    show "f \<in> set (filter (\<lambda>f. fo_student f = student) (vals_of (fs_items (put_focus f S))))"
      using fin by (simp add: f_def)
    show "\<forall>y \<in> set (filter (\<lambda>f. fo_student f = student) (vals_of (fs_items (put_focus f S)))). y \<noteq> f \<longrightarrow>
        focus_newness y < focus_newness f"
      using items assms(7) by (auto simp: focus_newness_def less_prod_def) (auto simp: f_def)
  qed
  then have "followed_id (put_focus f S) student = Some new"
    using assms(5) by (simp add: followed_id_def followed_def of_student_def f_def)
  then have sh: "dget (fs_shown T) student = Some new"
    using resync_focuses_shown [OF ok, of ok "[student]" student] unfolding T f_def by simp
  have "good_focuses T" using assms(1-3) by (rule start_focus_good)
  with sh show ?thesis by (auto simp: good_focuses_def told_running_def)
qed

text \<open>An instructor helps a student who has a page open.\<close>

definition demo_online :: focuses where
  "demo_online = (no_focuses 60)\<lparr>fs_presence := snd (presence_add (demo_identity ''bob'') ''p'' 0 1 (fs_presence (no_focuses 60)))\<rparr>"

definition demo_rln :: string where "demo_rln = ''1'' @ sep3 @ ''lab'' @ sep3 @ ''bob''"

lemma demo_rln_owner: "running_lab_name_owner demo_rln = Some ''bob''"
  by (simp add: demo_rln_def sep3_def running_lab_name_owner_def rln_match_def before_dollar_def starts3_def is_digit_def Let_def)

definition demo_helped :: focuses where
  "demo_helped = or_same (start_focus (\<lambda>v. 2) (\<lambda>n. True) ''f1'' (demo_identity ''prof'') ''h'' demo_rln None 5 demo_online) demo_online"

lemma demo_online_good: "good_focuses demo_online"
  unfolding demo_online_def using no_focuses_good
  by (rule presence_change_good) (intro presence_ok_add, simp add: no_focuses_def presence_ok_def)

lemma demo_start: "start_focus (\<lambda>v. 2) (\<lambda>n. True) ''f1'' (demo_identity ''prof'') ''h'' demo_rln None 5 demo_online = Inr demo_helped"
  by (simp add: demo_helped_def or_same_def start_focus_def demo_rln_owner demo_identity_def check_view_def MAX_VIEW_BYTES_def Let_def)

theorem start_brings_witness: "dget (fs_shown demo_helped) ''bob'' = Some ''f1''"
  using start_brings [OF demo_online_good _ demo_start demo_rln_owner]
  by (simp add: demo_online_def no_focuses_def get_focus_def same_focus_def vals_of_def identity_of_def sockets_of_def presence_add_def
      Let_def demo_identity_def)


end
