(* ===== verification/Rfb_Filter.thy ===== *)
theory Rfb_Filter
  imports Prelude "HOL-Library.Word"
begin

text \<open>
  The filter of a read-only viewer of a desktop (\<open>src/sreweb/agent/rfb_filter.py\<close>): what may go to
  the X server out of what a spectator sends. A byte is an \<open>8 word\<close>, the buffer a list of them; one
  turn of the \<open>while True\<close> of \<open>feed\<close> is one call of \<open>rfb_loop\<close>, which ends because every turn that
  goes on takes at least one byte of the buffer. \<open>RfbProtocolError\<close> is an error value.
\<close>

type_synonym byte = "8 word"

section \<open>The filter\<close>

definition MAX_RFB_MESSAGE :: nat where "MAX_RFB_MESSAGE = 2 ^ 20"

definition FIXED_LENGTH :: "(nat \<times> nat) list" where
  "FIXED_LENGTH = [(0, 20), (3, 10), (4, 8), (5, 6), (150, 10), (250, 4)]"

definition DROPPED :: "nat set" where "DROPPED = {4, 5, 6, 250, 251, 255}"

datatype rfb_state = RfbVersion | RfbSecurity | RfbInit | RfbMessages

datatype rfb_error = BadVersion | BadSecurity nat | BadMessageType nat | BadSubtype nat | MessageTooLong

record rfb_filter =
  rf_buf :: "byte list"
  rf_state :: rfb_state
  rf_skip :: nat

definition new_filter :: rfb_filter where
  "new_filter = \<lparr>rf_buf = [], rf_state = RfbVersion, rf_skip = 0\<rparr>"

definition handshake_done :: "rfb_filter \<Rightarrow> bool" where
  "handshake_done f \<longleftrightarrow> rf_state f = RfbMessages"

definition byte_at :: "byte list \<Rightarrow> nat \<Rightarrow> nat" where
  "byte_at b i = unat (b ! i)"

text \<open>\<open>struct.unpack_from('>H', ...)\<close> and the absolute value of \<open>struct.unpack_from('>i', ...)\<close>.\<close>

definition u16_at :: "byte list \<Rightarrow> nat \<Rightarrow> nat" where
  "u16_at b i = 256 * byte_at b i + byte_at b (i + 1)"

definition s32_at :: "byte list \<Rightarrow> nat \<Rightarrow> int" where
  "s32_at b i = (let u = int (65536 * u16_at b i + u16_at b (i + 2)) in if 2 ^ 31 \<le> u then u - 2 ^ 32 else u)"

text \<open>\<open>_message_length\<close>: the length of the message at the head of a buffer that is not empty.\<close>

definition message_length :: "byte list \<Rightarrow> rfb_error + nat option" where
  "message_length b =
     (let kind = byte_at b 0 in
      case dget FIXED_LENGTH kind of
        Some n \<Rightarrow> Inr (Some n)
      | None \<Rightarrow>
          if kind = 2 then Inr (if length b < 4 then None else Some (4 + 4 * u16_at b 2))
          else if kind = 6 then Inr (if length b < 8 then None else Some (8 + nat \<bar>s32_at b 4\<bar>))
          else if kind = 248 then Inr (if length b < 9 then None else Some (9 + byte_at b 8))
          else if kind = 251 then Inr (if length b < 7 then None else Some (8 + 16 * byte_at b 6))
          else if kind = 255 then
            (if length b < 2 then Inr None
             else if byte_at b 1 = 0 then Inr (Some 12) else Inl (BadSubtype (byte_at b 1)))
          else Inl (BadMessageType kind))"

text \<open>\<open>VERSION_RE\<close>: \<open>RFB ddd.ddd\<close> and a newline; the two numbers.\<close>

definition digit_byte :: "byte \<Rightarrow> bool" where
  "digit_byte b \<longleftrightarrow> 48 \<le> unat b \<and> unat b \<le> 57"

definition digits3 :: "byte list \<Rightarrow> nat" where
  "digits3 b = 100 * (unat (b ! 0) - 48) + 10 * (unat (b ! 1) - 48) + (unat (b ! 2) - 48)"

definition rfb_version :: "byte list \<Rightarrow> (nat \<times> nat) option" where
  "rfb_version h =
     (if length h = 12 \<and> map unat (take 4 h) = [82, 70, 66, 32] \<and> list_all digit_byte (take 3 (drop 4 h)) \<and>
         unat (h ! 7) = 46 \<and> list_all digit_byte (take 3 (drop 8 h)) \<and> unat (h ! 11) = 10
      then Some (digits3 (drop 4 h), digits3 (drop 8 h)) else None)"

definition good_version :: "byte list \<Rightarrow> nat option" where
  "good_version h = (case rfb_version h of
     Some (major, minor) \<Rightarrow> if major = 3 \<and> minor \<in> {3, 7, 8} then Some minor else None
   | None \<Rightarrow> None)"

text \<open>The loop of \<open>feed\<close>: what it sends, and what is left in the buffer, the state and the bytes to skip.\<close>

lemma message_length_pos: "message_length b = Inr (Some n) \<Longrightarrow> 0 < n"
  by (auto simp: message_length_def FIXED_LENGTH_def Let_def split: if_splits)

function rfb_loop :: "byte list \<Rightarrow> rfb_state \<Rightarrow> nat \<Rightarrow> rfb_error + byte list \<times> byte list \<times> rfb_state \<times> nat" where
  "rfb_loop buf st skip =
     (if 0 < skip then
        (let n = min skip (length buf) in
         if 0 < skip - n then Inr ([], drop n buf, st, skip - n) else rfb_loop (drop n buf) st 0)
      else if buf = [] then Inr ([], [], st, 0)
      else case st of
        RfbVersion \<Rightarrow>
          if length buf < 12 then Inr ([], buf, st, 0)
          else (case good_version (take 12 buf) of
                  None \<Rightarrow> Inl BadVersion
                | Some minor \<Rightarrow>
                    ebind (rfb_loop (drop 12 buf) (if minor = 3 then RfbInit else RfbSecurity) 0)
                      (\<lambda>(out, r). Inr (take 12 buf @ out, r)))
      | RfbSecurity \<Rightarrow>
          if byte_at buf 0 \<noteq> 1 then Inl (BadSecurity (byte_at buf 0))
          else ebind (rfb_loop (drop 1 buf) RfbInit 0) (\<lambda>(out, r). Inr (take 1 buf @ out, r))
      | RfbInit \<Rightarrow> ebind (rfb_loop (drop 1 buf) RfbMessages 0) (\<lambda>(out, r). Inr (take 1 buf @ out, r))
      | RfbMessages \<Rightarrow>
          (case message_length buf of
             Inl e \<Rightarrow> Inl e
           | Inr None \<Rightarrow> Inr ([], buf, st, 0)
           | Inr (Some len) \<Rightarrow>
               if byte_at buf 0 \<in> DROPPED then
                 (let n = min len (length buf) in rfb_loop (drop n buf) st (len - n))
               else if MAX_RFB_MESSAGE < len then Inl MessageTooLong
               else if length buf < len then Inr ([], buf, st, 0)
               else ebind (rfb_loop (drop len buf) st 0) (\<lambda>(out, r). Inr (take len buf @ out, r))))"
  by pat_completeness auto

termination
  by (relation "measure (\<lambda>(buf, st, skip). length buf)")
    (auto simp: Let_def dest: message_length_pos)

declare rfb_loop.simps [simp del]

definition feed :: "byte list \<Rightarrow> rfb_filter \<Rightarrow> rfb_error + byte list \<times> rfb_filter" where
  "feed data f =
     ebind (rfb_loop (rf_buf f @ data) (rf_state f) (rf_skip f))
       (\<lambda>(out, buf, st, skip). Inr (out, \<lparr>rf_buf = buf, rf_state = st, rf_skip = skip\<rparr>))"

section \<open>The chunks do not matter\<close>

lemma rfb_loop_skip: "rfb_loop (a @ b) st (length a + k) = rfb_loop b st k"
proof (cases "a = []")
  case False
  show ?thesis
  proof (cases "length b < k")
    case True
    then show ?thesis by (simp add: rfb_loop.simps [of "a @ b"] rfb_loop.simps [of b] Let_def)
  next
    case k: False
    then have "rfb_loop (a @ b) st (length a + k) = rfb_loop (drop k b) st 0"
      using False by (simp add: rfb_loop.simps [of "a @ b"] Let_def min_absorb1)
    also have "\<dots> = rfb_loop b st k"
      using k by (cases "k = 0") (simp_all add: rfb_loop.simps [of b st k] Let_def min_absorb1)
    finally show ?thesis .
  qed
qed simp

lemma rfb_loop_drop: "n \<le> length b \<Longrightarrow> n \<le> k \<Longrightarrow> rfb_loop b st k = rfb_loop (drop n b) st (k - n)"
  using rfb_loop_skip [of "take n b" "drop n b" st "k - n"] by simp

lemma rfb_loop_Nil [simp]: "rfb_loop [] st k = Inr ([], [], st, k)"
  by (simp add: rfb_loop.simps [of "[]"])

text \<open>What a turn of the loop decides is settled by a prefix of the buffer that is long enough.\<close>

lemma bytes_app:
  "i < length a \<Longrightarrow> byte_at (a @ b) i = byte_at a i"
  "i + 1 < length a \<Longrightarrow> u16_at (a @ b) i = u16_at a i"
  "i + 3 < length a \<Longrightarrow> s32_at (a @ b) i = s32_at a i"
  by (simp_all add: byte_at_def u16_at_def s32_at_def nth_append)

lemma message_length_app:
  assumes "a \<noteq> []" "message_length a \<noteq> Inr None"
  shows "message_length (a @ b) = message_length a"
  using assms unfolding message_length_def Let_def
  by (auto simp: bytes_app FIXED_LENGTH_def split: if_split_asm)

definition stuck :: "byte list \<Rightarrow> rfb_state \<Rightarrow> bool" where
  "stuck buf st \<longleftrightarrow> buf = [] \<or> st = RfbVersion \<and> length buf < 12 \<or>
     st = RfbMessages \<and> (message_length buf = Inr None \<or>
       (\<exists>len. message_length buf = Inr (Some len) \<and> byte_at buf 0 \<notin> DROPPED \<and> len \<le> MAX_RFB_MESSAGE \<and> length buf < len))"

lemma rfb_loop_stuck: "stuck buf st \<Longrightarrow> rfb_loop buf st 0 = Inr ([], buf, st, 0)"
  by (auto simp: stuck_def rfb_loop.simps [of buf])

lemma not_stuckE:
  assumes "\<not> stuck buf st"
  obtains (version) "st = RfbVersion" "12 \<le> length buf"
  | (security) "st = RfbSecurity" "buf \<noteq> []"
  | (init) "st = RfbInit" "buf \<noteq> []"
  | (error) e where "st = RfbMessages" "buf \<noteq> []" "message_length buf = Inl e"
  | (dropped) len where "st = RfbMessages" "buf \<noteq> []" "message_length buf = Inr (Some len)" "byte_at buf 0 \<in> DROPPED"
  | (long) len where "st = RfbMessages" "buf \<noteq> []" "message_length buf = Inr (Some len)" "byte_at buf 0 \<notin> DROPPED"
      "MAX_RFB_MESSAGE < len"
  | (message) len where "st = RfbMessages" "buf \<noteq> []" "message_length buf = Inr (Some len)" "byte_at buf 0 \<notin> DROPPED"
      "len \<le> MAX_RFB_MESSAGE" "len \<le> length buf"
  using assms unfolding stuck_def
  by (cases st; cases "message_length buf" rule: sum.exhaust; cases "byte_at buf 0 \<in> DROPPED") (auto simp: not_le not_less, meson not_less)

definition then_more :: "byte list \<Rightarrow> rfb_error + byte list \<times> byte list \<times> rfb_state \<times> nat \<Rightarrow>
    rfb_error + byte list \<times> byte list \<times> rfb_state \<times> nat" where
  "then_more b r = ebind r (\<lambda>(out, buf, st, skip). ebind (rfb_loop (buf @ b) st skip) (\<lambda>(out2, r2). Inr (out @ out2, r2)))"

lemma then_more_simps [simp]:
  "then_more b (Inl e) = Inl e"
  "then_more b (Inr ([], buf, st, skip)) = rfb_loop (buf @ b) st skip"
  by (cases "rfb_loop (buf @ b) st skip"; auto simp: then_more_def)+

text \<open>One turn of the loop of a filter that is not stuck, whatever comes after its buffer: it fails,
  sends the head of the buffer and moves on, or drops a message as far as it is there.\<close>

definition emit :: "byte list \<Rightarrow> rfb_error + byte list \<times> 'r \<Rightarrow> rfb_error + byte list \<times> 'r" where
  "emit h r = ebind r (\<lambda>(out, r). Inr (h @ out, r))"

lemma emit_simps [simp]: "emit h (Inl e) = Inl e" "emit h (Inr (out, r)) = Inr (h @ out, r)"
  by (simp_all add: emit_def)

lemma emit_InrE:
  assumes "emit h r = Inr (out, x)"
  obtains o' where "r = Inr (o', x)" "out = h @ o'"
  using assms by (cases r) auto

lemma then_more_emit: "then_more b (emit h r) = emit h (then_more b r)"
  by (cases r) (auto simp: then_more_def ebind_def emit_def split: sum.split)

definition passed :: "byte list \<Rightarrow> rfb_state \<Rightarrow> nat \<Rightarrow> rfb_state \<Rightarrow> bool" where
  "passed buf st n s \<longleftrightarrow>
     (case st of
        RfbVersion \<Rightarrow> n = 12 \<and> (\<exists>minor. good_version (take 12 buf) = Some minor \<and> s = (if minor = 3 then RfbInit else RfbSecurity))
      | RfbSecurity \<Rightarrow> n = 1 \<and> byte_at buf 0 = 1 \<and> s = RfbInit
      | RfbInit \<Rightarrow> n = 1 \<and> s = RfbMessages
      | RfbMessages \<Rightarrow> s = RfbMessages \<and> message_length buf = Inr (Some n) \<and> byte_at buf 0 \<notin> DROPPED \<and> n \<le> MAX_RFB_MESSAGE)"

lemma rfb_turn:
  assumes "\<not> stuck buf st"
  obtains (fail) e where "\<And>b. rfb_loop (buf @ b) st 0 = Inl e"
  | (send) n s where "0 < n" "n \<le> length buf" "passed buf st n s"
      "\<And>b. rfb_loop (buf @ b) st 0 = emit (take n buf) (rfb_loop (drop n buf @ b) s 0)"
  | (skip) len where "0 < len" "st = RfbMessages" "buf \<noteq> []" "message_length buf = Inr (Some len)" "byte_at buf 0 \<in> DROPPED"
      "\<And>b. rfb_loop (buf @ b) st 0 = rfb_loop (drop (min len (length buf)) buf @ b) st (len - min len (length buf))"
  using assms
proof (cases rule: not_stuckE)
  case version
  then have "buf \<noteq> []" by auto
  show thesis
  proof (cases "good_version (take 12 buf)")
    case None
    with version \<open>buf \<noteq> []\<close> show thesis by (intro fail) (simp add: rfb_loop.simps [of "buf @ b" for b])
  next
    case (Some minor)
    with version \<open>buf \<noteq> []\<close> show thesis
      by (intro send [of 12]) (auto simp: rfb_loop.simps [of "buf @ b" for b] passed_def emit_def)
  qed
next
  case security
  then show thesis
    by (cases "byte_at buf 0 = 1"; intro send [of 1] fail)
      (auto simp: rfb_loop.simps [of "buf @ b" for b] passed_def emit_def bytes_app Suc_le_eq)
next
  case init
  then show thesis
    by (intro send [of 1]) (auto simp: rfb_loop.simps [of "buf @ b" for b] passed_def emit_def Suc_le_eq)
next
  case (error e)
  then show thesis by (intro fail) (simp add: rfb_loop.simps [of "buf @ b" for b] message_length_app)
next
  case (dropped len)
  have "rfb_loop (buf @ b) st 0 = rfb_loop (drop (min len (length buf)) buf @ b) st (len - min len (length buf))" for b
  proof -
    have "rfb_loop (buf @ b) st 0 = rfb_loop (buf @ b) st len"
      using dropped
      by (simp add: rfb_loop.simps [of "buf @ b" RfbMessages 0] bytes_app message_length_app Let_def)
        (simp add: rfb_loop_drop [of "min len (length buf + length b)" "buf @ b" len])
    then show ?thesis by (subst (asm) (2) rfb_loop_drop [of "min len (length buf)"]) simp_all
  qed
  with dropped show thesis by (intro skip) (auto dest: message_length_pos)
next
  case (long len)
  then show thesis by (intro fail) (simp add: rfb_loop.simps [of "buf @ b" for b] bytes_app message_length_app)
next
  case (message len)
  then show thesis
    by (intro send [of len])
      (auto simp: rfb_loop.simps [of "buf @ b" for b] bytes_app message_length_app passed_def emit_def dest: message_length_pos)
qed

lemma rfb_loop_app: "rfb_loop (buf @ b) st skip = then_more b (rfb_loop buf st skip)"
proof (induction "length buf" arbitrary: buf st skip rule: less_induct)
  case less
  have IH: "rfb_loop (drop n buf @ b) s k = then_more b (rfb_loop (drop n buf) s k)" if "0 < n" "buf \<noteq> []" for n s k
    by (rule less) (use that in auto)
  consider "length buf < skip" | "0 < skip" "skip \<le> length buf" | "skip = 0" by linarith
  then show ?case
  proof cases
    case 1
    then obtain k where k: "skip = length buf + k" "0 < k" by (metis less_imp_add_positive)
    then show ?thesis by (simp add: rfb_loop_skip) (simp add: rfb_loop.simps [of buf])
  next
    case 2
    then have "buf \<noteq> []" by auto
    with 2 IH [of skip st 0] show ?thesis by (simp add: rfb_loop_drop [of skip buf] rfb_loop_drop [of skip "buf @ b"])
  next
    case 3
    show ?thesis
    proof (cases "stuck buf st")
      case False
      then show ?thesis
      proof (cases rule: rfb_turn)
        case (fail e)
        with fail [of "[]"] 3 show ?thesis by simp
      next
        case (send n s)
        then have "buf \<noteq> []" by auto
        with 3 send send(4) [of "[]"] IH [of n s 0] show ?thesis by (simp add: then_more_emit)
      next
        case (skip len)
        with 3 skip(6) [of "[]"] IH [of "min len (length buf)"] show ?thesis by simp
      qed
    qed (simp add: rfb_loop_stuck 3)
  qed
qed

text \<open>C12: How the network cuts the stream of a viewer into frames changes nothing: feeding two
  pieces one after the other sends the same bytes, ends in the same state and fails in the same
  cases as feeding them at once.\<close>

theorem feed_chunks:
  "feed (a @ b) f = ebind (feed a f) (\<lambda>(out, g). ebind (feed b g) (\<lambda>(out2, h). Inr (out @ out2, h)))"
  using rfb_loop_app [of "rf_buf f @ a" b "rf_state f" "rf_skip f"]
  by (cases "rfb_loop (rf_buf f @ a) (rf_state f) (rf_skip f)")
    (auto simp: feed_def then_more_def ebind_def split: sum.splits)

text \<open>The loop of an idle filter ends with a buffer it cannot go on with, or in the middle of a
  message it drops.\<close>

lemma rfb_loop_settles:
  "rfb_loop buf st skip = Inr (out, buf', st', skip') \<Longrightarrow> if skip' = 0 then stuck buf' st' else buf' = []"
proof (induction "length buf" arbitrary: buf st skip out rule: less_induct)
  case less
  have IH: "if skip' = 0 then stuck buf' st' else buf' = []"
    if "rfb_loop (drop n buf) s k = Inr (o', buf', st', skip')" "0 < n" "buf \<noteq> []" for n s k o'
    by (rule less.hyps [OF _ that(1)]) (use that in auto)
  consider "length buf < skip" | "0 < skip" "skip \<le> length buf" | "skip = 0" by linarith
  then show ?case
  proof cases
    case 1
    with less.prems show ?thesis by (auto simp: rfb_loop.simps [of buf] Let_def)
  next
    case 2
    with less.prems have "rfb_loop (drop skip buf) st 0 = Inr (out, buf', st', skip')" by (simp add: rfb_loop_drop [of skip buf])
    then show ?thesis by (rule IH) (use 2 in auto)
  next
    case 3
    show ?thesis
    proof (cases "stuck buf st")
      case True
      with less.prems 3 show ?thesis by (auto simp: rfb_loop_stuck)
    next
      case False
      then show ?thesis
      proof (cases rule: rfb_turn)
        case (fail e)
        with fail [of "[]"] less.prems 3 show ?thesis by simp
      next
        case (send n s)
        then have "buf \<noteq> []" by auto
        with send send(4) [of "[]"] less.prems 3 IH [of n s 0] show ?thesis by (auto elim!: emit_InrE)
      next
        case (skip len)
        with skip(6) [of "[]"] less.prems 3
        have "rfb_loop (drop (min len (length buf)) buf) st (len - min len (length buf)) = Inr (out, buf', st', skip')" by simp
        then show ?thesis by (rule IH) (use skip in auto)
      qed
    qed
  qed
qed

text \<open>The filter never keeps more than a megabyte of a viewer: whatever it is fed, and however
  it is cut, fewer than \<open>MAX_RFB_MESSAGE\<close> bytes wait in its buffer.\<close>

theorem filter_bounded:
  assumes "feed bs new_filter = Inr (out, g)"
  shows "length (rf_buf g) < MAX_RFB_MESSAGE"
proof -
  from assms have "rfb_loop bs RfbVersion 0 = Inr (out, rf_buf g, rf_state g, rf_skip g)"
    by (auto simp: feed_def new_filter_def elim!: ebind_InrE)
  from rfb_loop_settles [OF this] show ?thesis
    by (auto simp: stuck_def MAX_RFB_MESSAGE_def message_length_def Let_def split: if_splits option.splits)
qed

text \<open>A whole message, and one that may pass.\<close>

definition whole :: "byte list \<Rightarrow> bool" where
  "whole m \<longleftrightarrow> m \<noteq> [] \<and> message_length m = Inr (Some (length m))"

definition may_pass :: "byte list \<Rightarrow> bool" where
  "may_pass m \<longleftrightarrow> byte_at m 0 \<in> {0, 2, 3, 150, 248}"

definition unfinished :: "byte list \<Rightarrow> bool" where
  "unfinished b \<longleftrightarrow> b = [] \<or> message_length b = Inr None \<or> (\<exists>n. message_length b = Inr (Some n) \<and> length b < n)"

lemma message_kinds: "message_length b = Inr (Some n) \<Longrightarrow> may_pass b \<longleftrightarrow> byte_at b 0 \<notin> DROPPED"
  by (auto simp: message_length_def may_pass_def DROPPED_def FIXED_LENGTH_def Let_def split: if_splits)

lemma message_header:
  assumes "message_length (a @ b) = Inr (Some (length a))" "a \<noteq> []"
  shows "whole a"
proof -
  have "message_length a \<noteq> Inr None"
    using assms by (auto simp: message_length_def Let_def FIXED_LENGTH_def bytes_app split: if_splits)
  with assms message_length_app [of a b] show ?thesis by (simp add: whole_def)
qed

lemma messages_pass:
  "rfb_loop buf RfbMessages 0 = Inr (out, r) \<Longrightarrow>
   \<exists>ms rest. buf = concat ms @ rest \<and> list_all whole ms \<and> unfinished rest \<and> out = concat (filter may_pass ms) \<and>
     (\<forall>m \<in> set ms. may_pass m \<longrightarrow> length m \<le> MAX_RFB_MESSAGE)"
proof (induction "length buf" arbitrary: buf out rule: less_induct)
  case less
  show ?case
  proof (cases "stuck buf RfbMessages")
    case True
    with less.prems have "buf = concat [] @ buf" "unfinished buf" "out = []"
      by (auto simp: rfb_loop_stuck) (auto simp: stuck_def unfinished_def)
    then show ?thesis by (intro exI [of _ "[]"] exI [of _ buf]) simp
  next
    case False
    then show ?thesis
    proof (cases rule: rfb_turn)
      case (fail e)
      with fail [of "[]"] less.prems show ?thesis by simp
    next
      case (send n s)
      then have s: "s = RfbMessages" "message_length buf = Inr (Some n)" "byte_at buf 0 \<notin> DROPPED" "n \<le> MAX_RFB_MESSAGE"
        by (simp_all add: passed_def)
      from send(4) [of "[]"] less.prems have "emit (take n buf) (rfb_loop (drop n buf) RfbMessages 0) = Inr (out, r)"
        by (simp add: s)
      then obtain o' where o': "rfb_loop (drop n buf) RfbMessages 0 = Inr (o', r)" "out = take n buf @ o'"
        by (rule emit_InrE)
      from less.hyps [OF _ o'(1)] send(1,2) obtain ms rest where IH: "drop n buf = concat ms @ rest" "list_all whole ms"
        "unfinished rest" "o' = concat (filter may_pass ms)" "\<forall>m \<in> set ms. may_pass m \<longrightarrow> length m \<le> MAX_RFB_MESSAGE" by fastforce
      have m: "whole (take n buf)" "may_pass (take n buf)"
      proof -
        show "whole (take n buf)" by (rule message_header [of _ "drop n buf"]) (use send s in auto)
        show "may_pass (take n buf)" using message_kinds [OF s(2)] s(3) send(1,2) by (simp add: may_pass_def byte_at_def)
      qed
      have "buf = concat (take n buf # ms) @ rest" using IH(1) append_take_drop_id [of n buf] by simp
      with IH o' m s(4) show ?thesis by (intro exI [of _ "take n buf # ms"] exI [of _ rest]) simp
    next
      case (skip len)
      note run = skip(6) [of "[]", simplified]
      show ?thesis
      proof (cases "length buf < len")
        case True
        with run less.prems skip show ?thesis
          by (intro exI [of _ "[]"] exI [of _ buf]) (auto simp: unfinished_def)
      next
        case False
        with run less.prems have "rfb_loop (drop len buf) RfbMessages 0 = Inr (out, r)" by (simp add: min_absorb1)
        from less.hyps [OF _ this] skip(1,3) obtain ms rest where IH: "drop len buf = concat ms @ rest" "list_all whole ms"
          "unfinished rest" "out = concat (filter may_pass ms)" "\<forall>m \<in> set ms. may_pass m \<longrightarrow> length m \<le> MAX_RFB_MESSAGE" by fastforce
        have "whole (take len buf)" by (rule message_header [of _ "drop len buf"]) (use skip False in auto)
        moreover have "\<not> may_pass (take len buf)"
          using message_kinds [OF skip(4)] skip(1,5) by (simp add: may_pass_def byte_at_def)
        moreover have "buf = concat (take len buf # ms) @ rest" using IH(1) append_take_drop_id [of len buf] by simp
        ultimately show ?thesis using IH by (intro exI [of _ "take len buf # ms"] exI [of _ rest]) simp
      qed
    qed
  qed
qed


text \<open>A viewer that asks for an update, then types a key in two frames.\<close>

definition demo_update :: "byte list" where "demo_update = [3, 0, 0, 0, 0, 0, 0, 9, 0, 9]"
definition demo_key :: "byte list" where "demo_key = [4, 1, 0, 0, 0, 0, 0, 65]"

definition demo_viewer :: rfb_filter where
  "demo_viewer = \<lparr>rf_buf = [], rf_state = RfbMessages, rf_skip = 0\<rparr>"

lemma demo_feed: "feed (demo_update @ demo_key) demo_viewer = Inr (demo_update, demo_viewer)"
  by (simp add: feed_def demo_viewer_def demo_update_def demo_key_def rfb_loop.simps message_length_def FIXED_LENGTH_def
      byte_at_def DROPPED_def MAX_RFB_MESSAGE_def Let_def)


lemma demo_version: "feed [82, 70, 66, 32, 48, 48, 51, 46, 48] new_filter =
   Inr ([], new_filter\<lparr>rf_buf := [82, 70, 66, 32, 48, 48, 51, 46, 48]\<rparr>)"
  by (simp add: feed_def new_filter_def rfb_loop.simps)

theorem filter_bounded_witness: "(9 :: nat) < MAX_RFB_MESSAGE"
  using filter_bounded [OF demo_version] by simp

end
