(* ===== verification/Rate_Limit.thy ===== *)
theory Rate_Limit
  imports Prelude
begin

text \<open>
  The rate limits of the portal (\<open>src/sreweb/portal/ratelimit.py\<close>): at most one action per interval
  for a key, and at most a number of actions per minute. A key is a kind and a login or an address;
  the clock is an argument.
\<close>

type_synonym rkey = "string \<times> string"

record limiter =
  rl_last :: "(rkey \<times> real) list"
  rl_counts :: "(rkey \<times> real list) list"

definition new_limiter :: limiter where
  "new_limiter = \<lparr>rl_last = [], rl_counts = []\<rparr>"

definition take_every :: "rkey \<Rightarrow> real \<Rightarrow> real \<Rightarrow> limiter \<Rightarrow> (real \<times> real option) \<times> limiter" where
  "take_every k interval now L =
     (case dget (rl_last L) k of
        Some last_at \<Rightarrow>
          if now - last_at < interval then ((interval - (now - last_at), None), L)
          else ((0, Some last_at), L\<lparr>rl_last := dset (rl_last L) k now\<rparr>)
      | None \<Rightarrow> ((0, None), L\<lparr>rl_last := dset (rl_last L) k now\<rparr>))"

definition allow_every :: "rkey \<Rightarrow> real \<Rightarrow> real \<Rightarrow> limiter \<Rightarrow> real \<times> limiter" where
  "allow_every k interval now L = (case take_every k interval now L of ((w, p), L') \<Rightarrow> (w, L'))"

definition give_back :: "rkey \<Rightarrow> real option \<Rightarrow> limiter \<Rightarrow> limiter" where
  "give_back k previous L =
     (case previous of
        None \<Rightarrow> L\<lparr>rl_last := dpop (rl_last L) k\<rparr>
      | Some t \<Rightarrow> L\<lparr>rl_last := dset (rl_last L) k t\<rparr>)"

definition recent :: "real \<Rightarrow> rkey \<Rightarrow> limiter \<Rightarrow> real list" where
  "recent now k L = filter (\<lambda>t. now - t < 60) (case dget (rl_counts L) k of None \<Rightarrow> [] | Some ts \<Rightarrow> ts)"

definition allow_per_minute :: "rkey \<Rightarrow> nat \<Rightarrow> real \<Rightarrow> limiter \<Rightarrow> bool \<times> limiter" where
  "allow_per_minute k limit now L =
     (let stamps = recent now k L in
      if limit \<le> length stamps then (False, L\<lparr>rl_counts := dset (rl_counts L) k stamps\<rparr>)
      else (True, L\<lparr>rl_counts := dset (rl_counts L) k (stamps @ [now])\<rparr>))"

section \<open>Giving a slot back\<close>

text \<open>Taking a slot and giving it back leaves the limiter as it was: every key is refused or
  allowed as before, for every interval.\<close>

theorem give_back_undoes:
  assumes "take_every k interval now L = ((0, previous), L')" "0 < interval"
  shows "dget (rl_last (give_back k previous L')) k2 = dget (rl_last L) k2 \<and>
    rl_counts (give_back k previous L') = rl_counts L"
  using assms by (cases "dget (rl_last L) k") (auto simp: take_every_def give_back_def split: if_splits option.split)

theorem give_back_undoes_witness:
  "dget (rl_last (give_back (''start'', ''bob'') None (snd (take_every (''start'', ''bob'') 10 5 new_limiter)))) (''start'', ''bob'') = None"
  using give_back_undoes [of "(''start'', ''bob'')" 10 5 new_limiter None "snd (take_every (''start'', ''bob'') 10 5 new_limiter)"]
  by (simp add: take_every_def new_limiter_def)

section \<open>What the limits guarantee\<close>

text \<open>The requests of a run, of all keys, and the times at which those of one key were allowed.\<close>

fun every_run :: "(rkey \<Rightarrow> real) \<Rightarrow> rkey \<Rightarrow> (rkey \<times> real) list \<Rightarrow> limiter \<Rightarrow> real list" where
  "every_run interval k [] L = []"
| "every_run interval k ((k2, now) # rs) L =
     (let (wait, L') = allow_every k2 (interval k2) now L; later = every_run interval k rs L'
      in if k2 = k \<and> wait = 0 then now # later else later)"

fun minute_run :: "(rkey \<Rightarrow> nat) \<Rightarrow> rkey \<Rightarrow> (rkey \<times> real) list \<Rightarrow> limiter \<Rightarrow> real list" where
  "minute_run limit k [] L = []"
| "minute_run limit k ((k2, now) # rs) L =
     (let (yes, L') = allow_per_minute k2 (limit k2) now L; later = minute_run limit k rs L'
      in if k2 = k \<and> yes then now # later else later)"

lemma allow_every_cases:
  assumes "0 < interval k2"
  obtains (refused) w last_at where "allow_every k2 (interval k2) now L = (w, L)" "0 < w"
      "dget (rl_last L) k2 = Some last_at" "now < last_at + interval k2"
  | (allowed) "allow_every k2 (interval k2) now L = (0, L\<lparr>rl_last := dset (rl_last L) k2 now\<rparr>)"
      "\<forall>last_at. dget (rl_last L) k2 = Some last_at \<longrightarrow> last_at + interval k2 \<le> now"
proof (cases "dget (rl_last L) k2")
  case (Some last_at)
  then show thesis
    by (cases "now - last_at < interval k2"; intro refused allowed) (auto simp: allow_every_def take_every_def)
qed (rule allowed, simp_all add: allow_every_def take_every_def)

lemma every_run_spaced:
  assumes "0 < interval k"
  shows "(\<forall>k. 0 < interval k) \<Longrightarrow> sorted_wrt (\<lambda>a b. a + interval k \<le> b) (every_run interval k rs L) \<and>
    (\<forall>last_at. dget (rl_last L) k = Some last_at \<longrightarrow> (\<forall>t \<in> set (every_run interval k rs L). last_at + interval k \<le> t))"
proof (induction rs arbitrary: L)
  case (Cons r rs)
  obtain k2 now where r: "r = (k2, now)" by (cases r)
  have pos: "0 < interval k2" using Cons.prems by blast
  show ?case
  proof (rule allow_every_cases [where interval = interval and ?k2.0 = k2 and now = now and L = L, OF pos], goal_cases)
    case (1 w last_at)
    with Cons.IH [of L] Cons.prems r show ?case by auto
  next
    case 2
    note allowed = 2
    let ?L = "L\<lparr>rl_last := dset (rl_last L) k2 now\<rparr>"
    have IH: "sorted_wrt (\<lambda>a b. a + interval k \<le> b) (every_run interval k rs ?L)"
      "\<And>last_at t. dget (rl_last ?L) k = Some last_at \<Longrightarrow> t \<in> set (every_run interval k rs ?L) \<Longrightarrow> last_at + interval k \<le> t"
      using Cons.IH [of ?L] Cons.prems by blast+
    show ?case
    proof (cases "k2 = k")
      case True
      with IH(2) [of now] have "\<forall>t \<in> set (every_run interval k rs ?L). now + interval k \<le> t" by simp
      with True allowed IH(1) pos show ?thesis by (fastforce simp: r)
    next
      case False
      with allowed IH show ?thesis by (simp add: r)
    qed
  qed
qed simp

text \<open>However the requests of all the keys interleave, two actions allowed to the same key are
  never closer than its interval.\<close>

theorem every_spaced:
  assumes "\<And>k. 0 < interval k"
  shows "sorted_wrt (\<lambda>a b. a + interval k \<le> b) (every_run interval k rs new_limiter)"
  using every_run_spaced [of interval k rs new_limiter] assms by blast

theorem every_spaced_witness:
  "sorted_wrt (\<lambda>a b. a + 10 \<le> b) (every_run (\<lambda>k. 10) (''k'', ''a'') [((''k'', ''a''), 1), ((''k'', ''b''), 2), ((''k'', ''a''), 12)] new_limiter)"
  by (rule every_spaced) simp

text \<open>The stamps kept for a key hold every action allowed to it in the last minute.\<close>

definition in_minute :: "real \<Rightarrow> real list \<Rightarrow> real list" where
  "in_minute now ts = filter (\<lambda>t. now - t < 60 \<and> t \<le> now) ts"

definition stamps_of :: "limiter \<Rightarrow> rkey \<Rightarrow> real list" where
  "stamps_of L k = (case dget (rl_counts L) k of None \<Rightarrow> [] | Some ts \<Rightarrow> ts)"

lemma allow_per_minute_stamps:
  "stamps_of (snd (allow_per_minute k2 limit now L)) k =
     (if k = k2 then filter (\<lambda>t. now - t < 60) (stamps_of L k) @ (if fst (allow_per_minute k2 limit now L) then [now] else [])
      else stamps_of L k)"
  "fst (allow_per_minute k2 limit now L) \<longleftrightarrow> length (filter (\<lambda>t. now - t < 60) (stamps_of L k2)) < limit"
  by (auto simp: allow_per_minute_def recent_def stamps_of_def Let_def)

definition past_kept :: "real \<Rightarrow> real list \<Rightarrow> real list \<Rightarrow> bool" where
  "past_kept now past stamps \<longleftrightarrow> (\<forall>t \<in> set past. t \<le> now) \<and>
     (\<forall>u \<ge> now. length (filter (\<lambda>t. u - t < 60) past) \<le> length (filter (\<lambda>t. u - t < 60) stamps))"

definition windows_ok :: "nat \<Rightarrow> real list \<Rightarrow> bool" where
  "windows_ok limit ts \<longleftrightarrow> (\<forall>u. length (in_minute u ts) \<le> limit)"

lemma windows_snoc:
  assumes "windows_ok limit past" "\<forall>t \<in> set past. t \<le> now" "length (filter (\<lambda>t. now - t < 60) past) < limit"
  shows "windows_ok limit (past @ [now])"
  unfolding windows_ok_def
proof
  fix u
  show "length (in_minute u (past @ [now])) \<le> limit"
  proof (cases "now \<le> u \<and> u - now < 60")
    case False
    then have "in_minute u (past @ [now]) = in_minute u past" by (auto simp: in_minute_def)
    with assms(1) show ?thesis by (simp add: windows_ok_def)
  next
    case True
    have "length (in_minute u past) \<le> length (filter (\<lambda>t. now - t < 60) past)"
    proof -
      have "in_minute u past = filter (\<lambda>t. u - t < 60 \<and> t \<le> u) (filter (\<lambda>t. now - t < 60) past)"
        using True unfolding in_minute_def filter_filter by (intro filter_cong) auto
      then show ?thesis by (simp del: filter_filter)
    qed
    with assms(3) show ?thesis using True by (simp add: in_minute_def)
  qed
qed

lemma minute_run_windows:
  "sorted (now # map snd rs) \<Longrightarrow> windows_ok (limit k) past \<Longrightarrow> past_kept now past (stamps_of L k) \<Longrightarrow>
   windows_ok (limit k) (past @ minute_run limit k rs L)"
proof (induction rs arbitrary: L past now)
  case (Cons r rs)
  obtain k2 t where r: "r = (k2, t)" by (cases r)
  let ?a = "allow_per_minute k2 (limit k2) t L"
  have le: "now \<le> t" and sorted: "sorted (t # map snd rs)" using Cons.prems(1) by (simp_all add: r)
  have pastle: "\<forall>x \<in> set past. x \<le> t" using Cons.prems(3) le by (fastforce simp: past_kept_def)
  have keep: "length (filter (\<lambda>x. u - x < 60) past) \<le> length (filter (\<lambda>x. u - x < 60) (stamps_of L k))" if "t \<le> u" for u
    using Cons.prems(3) le that by (simp add: past_kept_def)
  have shrink: "filter (\<lambda>x. u - x < 60) (filter (\<lambda>x. t - x < 60) ys) = filter (\<lambda>x. u - x < 60) ys" if "t \<le> u" for u ys
    using that by (auto simp: filter_filter intro!: filter_cong)
  show ?case
  proof (cases "k2 = k \<and> fst ?a")
    case True
    then have "length (filter (\<lambda>x. t - x < 60) past) < limit k"
      using keep [of t] allow_per_minute_stamps(2) [of k2 "limit k2" t L] by (metis le_less_trans order_refl)
    with Cons.prems(2) pastle have w: "windows_ok (limit k) (past @ [t])" by (intro windows_snoc)
    have "past_kept t (past @ [t]) (stamps_of (snd ?a) k)"
      using pastle True keep by (auto simp: past_kept_def allow_per_minute_stamps(1) shrink simp del: filter_filter)
    from Cons.IH [OF sorted w this] True show ?thesis by (auto simp add: r case_prod_beta Let_def)
  next
    case False
    have "past_kept t past (stamps_of (snd ?a) k)"
      using pastle False keep by (auto simp: past_kept_def allow_per_minute_stamps(1) shrink simp del: filter_filter)
    from Cons.IH [OF sorted Cons.prems(2) this] False show ?thesis by (auto simp: r case_prod_beta Let_def)
  qed
qed simp

text \<open>However the requests interleave, no minute holds more allowed actions of a key than its
  limit: not only each minute that ends at a request, but every window of sixty seconds.\<close>

theorem minute_limit:
  assumes "sorted (map snd rs)"
  shows "length (filter (\<lambda>t. u - t < 60 \<and> t \<le> u) (minute_run limit k rs new_limiter)) \<le> limit k"
proof (cases rs)
  case (Cons r rs')
  have "windows_ok (limit k) ([] @ minute_run limit k rs new_limiter)"
    by (rule minute_run_windows [of "snd r"])
      (use assms Cons in \<open>simp_all add: windows_ok_def in_minute_def past_kept_def\<close>)
  then show ?thesis by (simp add: windows_ok_def in_minute_def)
qed simp

theorem minute_limit_witness:
  "length (filter (\<lambda>t. 30 - t < 60 \<and> t \<le> 30)
     (minute_run (\<lambda>k. 1) (''k'', ''a'') [((''k'', ''a''), 1), ((''k'', ''a''), 2)] new_limiter)) \<le> 1"
  by (rule minute_limit) simp

end
