(* ===== verification/Agent_Projects.thy ===== *)
theory Agent_Projects
  imports Pool
begin

text \<open>
  The schedulers of the agent (\<open>src/sreweb/agent/schedulers.py\<close>) on one project of
  \<open>src/sreweb/agent/registry.py\<close>, with the exam the portal sets on it
  (\<open>src/sreweb/agent/app.py\<close>): the periodic evaluation, the end of an exam with its final
  evaluation, the idle reaper and the close. Every \<open>await\<close> of the code is a point where other
  steps may happen: a coroutine is a task with a stage, the lock of the project names the task
  that holds it, and an event is one uninterrupted piece of one task, of a tick or of a request.
\<close>

section \<open>Intervals\<close>

text \<open>\<open>interval_seconds\<close>; \<open>float_of\<close> is \<open>float\<close> on a text. An integer no double can hold raises
  \<open>OverflowError\<close>, which is not caught.\<close>

definition float_seconds :: "pyfloat \<Rightarrow> int" where
  "float_seconds x = (case x of Fin r \<Rightarrow> if r \<le> 0 then 0 else \<lfloor>r\<rfloor> | _ \<Rightarrow> 0)"

definition interval_seconds :: "(string \<Rightarrow> pyfloat option) \<Rightarrow> json \<Rightarrow> status_error + int" where
  "interval_seconds float_of v =
     (case v of
        JBool b \<Rightarrow> Inr (if b then 1 else 0)
      | JInt n \<Rightarrow> if float_limit \<le> \<bar>n\<bar> then Inl OverflowError else Inr (max 0 n)
      | JFloat x \<Rightarrow> Inr (float_seconds x)
      | JStr s \<Rightarrow> Inr (if s = [] then 0 else case float_of s of None \<Rightarrow> 0 | Some x \<Rightarrow> float_seconds x)
      | _ \<Rightarrow> Inr 0)"

section \<open>A project\<close>

record agent_exam =
  ax_started :: "real option"
  ax_end :: "real option"
  ax_interval :: int
  ax_ended :: bool
  ax_final :: bool

datatype stage =
    EvalPlanned | EvalWaiting | EvalRunning | EvalNotifying
  | EndPlanned | EndCutting | EndRunning | EndNotifying
  | ClosePlanned | CloseWaiting | CloseHolding | CloseEvaluating | CloseStopping
  | UserRunning

record project =
  pj_owner :: string
  pj_managed :: bool
  pj_closing :: bool
  pj_exam :: "agent_exam option"
  pj_exam_ending :: bool
  pj_retry_at :: "real option"
  pj_next_eval :: "real option"
  pj_last_activity :: real
  pj_idle_timeout :: "real option"
  pj_info_interval :: int
  pj_eval_before_exit :: bool
  pj_subscribers :: "string list"
  pj_displays :: nat
  pj_terminals :: nat
  pj_lock :: "nat option"
  pj_tasks :: "(nat \<times> stage) list"
  pj_next_task :: nat

definition exam_over :: "project \<Rightarrow> bool" where
  "exam_over p \<longleftrightarrow> (case pj_exam p of None \<Rightarrow> False | Some x \<Rightarrow> ax_ended x)"

definition exam_running :: "project \<Rightarrow> bool" where
  "exam_running p \<longleftrightarrow> pj_exam p \<noteq> None \<and> \<not> exam_over p"

definition touch :: "real \<Rightarrow> project \<Rightarrow> project" where
  "touch tm p = p\<lparr>pj_last_activity := tm\<rparr>"

definition idle_seconds :: "real \<Rightarrow> project \<Rightarrow> real" where
  "idle_seconds tm p = tm - pj_last_activity p"

definition spawn :: "stage \<Rightarrow> project \<Rightarrow> project" where
  "spawn s p = p\<lparr>pj_tasks := pj_tasks p @ [(pj_next_task p, s)], pj_next_task := Suc (pj_next_task p)\<rparr>"

definition set_stage :: "nat \<Rightarrow> stage \<Rightarrow> project \<Rightarrow> project" where
  "set_stage t s p = p\<lparr>pj_tasks := dset (pj_tasks p) t s\<rparr>"

definition end_task :: "nat \<Rightarrow> project \<Rightarrow> project" where
  "end_task t p = p\<lparr>pj_tasks := dpop (pj_tasks p) t\<rparr>"

definition locked :: "project \<Rightarrow> bool" where
  "locked p \<longleftrightarrow> pj_lock p \<noteq> None"

section \<open>The schedulers\<close>

definition FINAL_EVAL_RETRY :: real where "FINAL_EVAL_RETRY = 60"

definition eval_interval :: "project \<Rightarrow> int" where
  "eval_interval p =
     (case pj_exam p of
        Some x \<Rightarrow> if \<not> exam_running p \<or> ax_end x = None then 0 else ax_interval x
      | None \<Rightarrow> pj_info_interval p)"

definition arm :: "real \<Rightarrow> project \<Rightarrow> project" where
  "arm tm p = p\<lparr>pj_next_eval :=
     (if 0 < eval_interval p \<and> pj_managed p then Some (tm + of_int (eval_interval p)) else None)\<rparr>"

text \<open>\<open>exam_end_due\<close>: \<open>now\<close> is the wall clock, \<open>tm\<close> the monotonic one.\<close>

definition exam_end_due :: "real \<Rightarrow> real \<Rightarrow> project \<Rightarrow> bool" where
  "exam_end_due now tm p \<longleftrightarrow>
     (case pj_exam p of
        None \<Rightarrow> False
      | Some x \<Rightarrow>
          if pj_exam_ending p then False
          else if ax_ended x then
            \<not> ax_final x \<and> (case pj_retry_at p of None \<Rightarrow> True | Some t \<Rightarrow> t \<le> tm)
          else (case ax_end x of None \<Rightarrow> False | Some e \<Rightarrow> e \<le> now))"

definition end_exam_if_due :: "real \<Rightarrow> real \<Rightarrow> project \<Rightarrow> project" where
  "end_exam_if_due now tm p = (if exam_end_due now tm p then spawn EndPlanned p else p)"

definition periodic_eval :: "bool \<Rightarrow> real \<Rightarrow> project \<Rightarrow> project" where
  "periodic_eval exam_mode tm p =
     (case pj_next_eval p of
        None \<Rightarrow> p
      | Some t \<Rightarrow>
          if tm < t then p
          else if eval_interval p \<le> 0 then p\<lparr>pj_next_eval := None\<rparr>
          else (let q = p\<lparr>pj_next_eval := Some (tm + of_int (eval_interval p))\<rparr>
                in if exam_mode \<or> locked p then q else spawn EvalPlanned q))"

definition idle_timeout :: "real \<Rightarrow> project \<Rightarrow> real" where
  "idle_timeout default_timeout p = (case pj_idle_timeout p of None \<Rightarrow> default_timeout | Some t \<Rightarrow> t)"

definition keepers :: "project \<Rightarrow> string list" where
  "keepers p = filter (\<lambda>who. \<not> (exam_over p \<and> who = pj_owner p)) (pj_subscribers p)"

definition reap_if_idle :: "real \<Rightarrow> real \<Rightarrow> project \<Rightarrow> project" where
  "reap_if_idle default_timeout tm p =
     (if exam_running p then p
      else (let timeout = idle_timeout default_timeout p in
            if timeout \<le> 0 \<or> pj_terminals p \<noteq> 0 \<or> keepers p \<noteq> [] \<or> pj_displays p \<noteq> 0 \<or> locked p then p
            else if timeout < idle_seconds tm p then spawn ClosePlanned p else p))"

definition on_tick :: "bool \<Rightarrow> real \<Rightarrow> real \<Rightarrow> real \<Rightarrow> project \<Rightarrow> project" where
  "on_tick exam_mode default_timeout now tm p =
     (if pj_closing p \<or> \<not> pj_managed p then p
      else reap_if_idle default_timeout tm (periodic_eval exam_mode tm (end_exam_if_due now tm p)))"

section \<open>The pieces of the tasks\<close>

text \<open>A task runs for the first time.\<close>

definition mark_ended :: "real \<Rightarrow> project \<Rightarrow> project" where
  "mark_ended tm p =
     (if exam_over p then p
      else (arm tm (touch tm (p\<lparr>pj_exam := map_option (\<lambda>x. x\<lparr>ax_ended := True\<rparr>) (pj_exam p)\<rparr>)))\<lparr>pj_terminals := 0, pj_displays := 0\<rparr>)"

definition eval_starts :: "nat \<Rightarrow> project \<Rightarrow> project" where
  "eval_starts t p = (if locked p \<or> pj_closing p then end_task t p else set_stage t EvalWaiting p)"

definition end_starts :: "real \<Rightarrow> real \<Rightarrow> nat \<Rightarrow> project \<Rightarrow> project" where
  "end_starts now tm t p =
     (if \<not> exam_end_due now tm p then end_task t p
      else set_stage t EndCutting (mark_ended tm (p\<lparr>pj_exam_ending := True\<rparr>)))"

definition close_starts :: "nat \<Rightarrow> project \<Rightarrow> project" where
  "close_starts t p = (if pj_closing p then end_task t p else set_stage t CloseWaiting (p\<lparr>pj_closing := True\<rparr>))"

definition first_step :: "real \<Rightarrow> real \<Rightarrow> nat \<Rightarrow> project \<Rightarrow> project" where
  "first_step now tm t p =
     (case dget (pj_tasks p) t of
        Some EvalPlanned \<Rightarrow> eval_starts t p
      | Some EndPlanned \<Rightarrow> end_starts now tm t p
      | Some ClosePlanned \<Rightarrow> close_starts t p
      | _ \<Rightarrow> p)"

text \<open>A waiting task gets the lock.\<close>

definition end_ending :: "nat \<Rightarrow> project \<Rightarrow> project" where
  "end_ending t p = end_task t (p\<lparr>pj_exam_ending := False\<rparr>)"

definition end_locked :: "nat \<Rightarrow> project \<Rightarrow> project" where
  "end_locked t p =
     (if pj_closing p \<or> pj_exam p = None then end_ending t p else set_stage t EndRunning (p\<lparr>pj_lock := Some t\<rparr>))"

definition close_locked :: "nat \<Rightarrow> project \<Rightarrow> project" where
  "close_locked t p = set_stage t CloseHolding (p\<lparr>pj_lock := Some t, pj_terminals := 0\<rparr>)"

definition take_lock :: "nat \<Rightarrow> project \<Rightarrow> project" where
  "take_lock t p =
     (if locked p then p
      else (case dget (pj_tasks p) t of
              Some EvalWaiting \<Rightarrow> set_stage t EvalRunning (p\<lparr>pj_lock := Some t\<rparr>)
            | Some EndCutting \<Rightarrow> end_locked t p
            | Some CloseWaiting \<Rightarrow> close_locked t p
            | _ \<Rightarrow> p))"

text \<open>The terminals are closed: does the close evaluate first?\<close>

definition close_decides :: "bool \<Rightarrow> nat \<Rightarrow> project \<Rightarrow> project" where
  "close_decides exam_mode t p =
     (case dget (pj_tasks p) t of
        Some CloseHolding \<Rightarrow>
          (let evaluate = (if pj_exam p \<noteq> None then \<not> exam_over p else pj_eval_before_exit p \<and> \<not> exam_mode)
           in set_stage t (if evaluate then CloseEvaluating else CloseStopping) p)
      | _ \<Rightarrow> p)"

text \<open>A command of \<open>sre\<close> ended: well, with an error (\<open>CommandError\<close>), or \<open>sre\<close> was not found
  (\<open>FileNotFoundError\<close>, which a close does not catch: the project stays closing). A final evaluation
  that succeeds is recorded on the exam the project has then; without one the assignment raises and
  the task ends.\<close>

datatype outcome = CmdOk | CmdFailed | CmdMissing

definition free_lock :: "project \<Rightarrow> project" where
  "free_lock p = p\<lparr>pj_lock := None\<rparr>"

definition eval_done :: "outcome \<Rightarrow> nat \<Rightarrow> project \<Rightarrow> project" where
  "eval_done res t p = (if res = CmdOk then set_stage t EvalNotifying (free_lock p) else end_task t (free_lock p))"

definition final_done :: "outcome \<Rightarrow> real \<Rightarrow> nat \<Rightarrow> project \<Rightarrow> project" where
  "final_done res tm t p =
     (if res \<noteq> CmdOk then end_ending t (free_lock (p\<lparr>pj_retry_at := Some (tm + FINAL_EVAL_RETRY)\<rparr>))
      else (case pj_exam p of
              None \<Rightarrow> end_ending t (free_lock p)
            | Some x \<Rightarrow> set_stage t EndNotifying (free_lock (p\<lparr>pj_exam := Some (x\<lparr>ax_final := True\<rparr>), pj_retry_at := None\<rparr>))))"

definition close_evaluated :: "outcome \<Rightarrow> nat \<Rightarrow> project \<Rightarrow> project" where
  "close_evaluated res t p = (if res = CmdMissing then end_task t (free_lock p) else set_stage t CloseStopping p)"

definition close_stopped :: "outcome \<Rightarrow> nat \<Rightarrow> project \<Rightarrow> project" where
  "close_stopped res t p =
     (if res = CmdFailed then end_task t (free_lock (p\<lparr>pj_closing := False\<rparr>)) else end_task t (free_lock p))"

definition command_done :: "outcome \<Rightarrow> real \<Rightarrow> nat \<Rightarrow> project \<Rightarrow> project" where
  "command_done res tm t p =
     (case dget (pj_tasks p) t of
        Some EvalRunning \<Rightarrow> eval_done res t p
      | Some EndRunning \<Rightarrow> final_done res tm t p
      | Some CloseEvaluating \<Rightarrow> close_evaluated res t p
      | Some CloseStopping \<Rightarrow> close_stopped res t p
      | Some UserRunning \<Rightarrow> end_task t (free_lock p)
      | _ \<Rightarrow> p)"

definition notified :: "nat \<Rightarrow> project \<Rightarrow> project" where
  "notified t p =
     (case dget (pj_tasks p) t of
        Some EvalNotifying \<Rightarrow> end_task t p
      | Some EndNotifying \<Rightarrow> end_ending t p
      | _ \<Rightarrow> p)"

lemmas piece_defs = first_step_def eval_starts_def end_starts_def close_starts_def take_lock_def end_locked_def close_locked_def
  command_done_def eval_done_def final_done_def close_evaluated_def close_stopped_def

section \<open>The requests\<close>

text \<open>An evaluation or a state of a user takes the lock at once, or is refused.\<close>

definition user_command :: "project \<Rightarrow> project option" where
  "user_command p = (if locked p then None else Some (spawn UserRunning (p\<lparr>pj_lock := Some (pj_next_task p)\<rparr>)))"

text \<open>\<open>exam_put\<close> and \<open>exam_delete\<close> on an exam that \<open>parse_exam\<close> accepted.\<close>

definition exam_put :: "agent_exam \<Rightarrow> real \<Rightarrow> real \<Rightarrow> project \<Rightarrow> project option" where
  "exam_put x now tm p =
     (if \<not> pj_managed p then None
      else (let kept = (case pj_exam p of
                  Some old \<Rightarrow> if ax_ended old \<and> (case ax_end x of None \<Rightarrow> True | Some e \<Rightarrow> e \<le> now)
                             then x\<lparr>ax_ended := True, ax_final := ax_final old\<rparr> else x
                | None \<Rightarrow> x)
            in Some (arm tm (p\<lparr>pj_exam := Some kept, pj_retry_at := None\<rparr>))))"

definition exam_delete :: "real \<Rightarrow> project \<Rightarrow> project" where
  "exam_delete tm p = (if pj_exam p = None then p else arm tm (p\<lparr>pj_exam := None, pj_retry_at := None\<rparr>))"

section \<open>The events\<close>

datatype project_event =
    PvTick bool real real real
  | PvFirst real real nat
  | PvLock nat
  | PvDecide bool nat
  | PvDone outcome real nat
  | PvNotified nat
  | PvUser
  | PvClose
  | PvPut agent_exam real real
  | PvDelete real
  | PvInfo int bool real
  | PvPages "string list" nat nat real

definition or_unchanged :: "('a \<Rightarrow> 'a option) \<Rightarrow> 'a \<Rightarrow> 'a" where
  "or_unchanged f x = (case f x of None \<Rightarrow> x | Some y \<Rightarrow> y)"

fun exec_project :: "project_event \<Rightarrow> project \<Rightarrow> project" where
  "exec_project (PvTick exam_mode dt now tm) p = on_tick exam_mode dt now tm p"
| "exec_project (PvFirst now tm t) p = first_step now tm t p"
| "exec_project (PvLock t) p = take_lock t p"
| "exec_project (PvDecide exam_mode t) p = close_decides exam_mode t p"
| "exec_project (PvDone res tm t) p = command_done res tm t p"
| "exec_project (PvNotified t) p = notified t p"
| "exec_project PvUser p = or_unchanged user_command p"
| "exec_project PvClose p = spawn ClosePlanned p"
| "exec_project (PvPut x now tm) p = or_unchanged (exam_put x now tm) p"
| "exec_project (PvDelete tm) p = exam_delete tm p"
| "exec_project (PvInfo i b tm) p = arm tm (p\<lparr>pj_info_interval := i, pj_eval_before_exit := b\<rparr>)"
| "exec_project (PvPages subs displays terminals tm) p =
     touch tm (p\<lparr>pj_subscribers := subs, pj_displays := displays, pj_terminals := terminals\<rparr>)"

text \<open>An exam of a request has not ended; its end is after its start.\<close>

fun event_ok :: "project_event \<Rightarrow> bool" where
  "event_ok (PvPut x now tm) = (\<not> ax_ended x \<and> \<not> ax_final x \<and>
     (case ax_end x of None \<Rightarrow> True | Some e \<Rightarrow> (case ax_started x of None \<Rightarrow> False | Some s \<Rightarrow> s \<le> e)))"
| "event_ok _ = True"

inductive project_step :: "project \<Rightarrow> project \<Rightarrow> bool" where
  project_stepI: "event_ok e \<Longrightarrow> project_step p (exec_project e p)"

inductive_cases project_stepE: "project_step p q"

end
