(* ===== verification/Agent_Safety.thy ===== *)
theory Agent_Safety
  imports Agent_Projects
begin

text \<open>
  What the schedulers of the agent promise (\<open>src/sreweb/agent/schedulers.py\<close>): one command of \<open>sre\<close>
  on a project at a time, one end of an exam and one close at a time, no idle close of an exam in
  progress, and a final evaluation that is owed until it is recorded. And what they do not: an
  exam resumed during its final evaluation can lose the next one.
\<close>

section \<open>The tasks in a group of stages\<close>

definition tasks_in :: "stage set \<Rightarrow> project \<Rightarrow> nat set" where
  "tasks_in C p = {t. \<exists>s \<in> C. dget (pj_tasks p) t = Some s}"

definition HOLDING :: "stage set" where
  "HOLDING = {EvalRunning, EndRunning, CloseHolding, CloseEvaluating, CloseStopping, UserRunning}"

definition ENDING :: "stage set" where "ENDING = {EndCutting, EndRunning, EndNotifying}"

definition CLOSERS :: "stage set" where "CLOSERS = {CloseWaiting, CloseHolding, CloseEvaluating, CloseStopping}"

lemmas stage_groups = HOLDING_def ENDING_def CLOSERS_def

definition tasks_fresh :: "project \<Rightarrow> bool" where
  "tasks_fresh p \<longleftrightarrow> (\<forall>t \<ge> pj_next_task p. dget (pj_tasks p) t = None)"

definition alone :: "nat set \<Rightarrow> bool" where
  "alone X \<longleftrightarrow> (\<exists>t. X \<subseteq> {t})"

definition project_inv :: "project \<Rightarrow> bool" where
  "project_inv p \<longleftrightarrow> tasks_fresh p \<and>
     tasks_in HOLDING p = set_option (pj_lock p) \<and>
     alone (tasks_in ENDING p) \<and> (pj_exam_ending p \<longleftrightarrow> tasks_in ENDING p \<noteq> {}) \<and>
     alone (tasks_in CLOSERS p) \<and> (\<not> pj_closing p \<longrightarrow> tasks_in CLOSERS p = {})"

lemma tasks_in_set_stage [simp]: "tasks_in C (set_stage t s p) = (if s \<in> C then insert t (tasks_in C p) else tasks_in C p - {t})"
  by (auto simp: tasks_in_def set_stage_def)

lemma tasks_in_end_task [simp]: "tasks_in C (end_task t p) = tasks_in C p - {t}"
  by (auto simp: tasks_in_def end_task_def)

lemma tasks_in_frame:
  "pj_tasks q = pj_tasks p \<Longrightarrow> tasks_in C q = tasks_in C p"
  by (simp add: tasks_in_def)

lemma tasks_in_spawn: "tasks_fresh p \<Longrightarrow> tasks_in C (spawn s p) = (if s \<in> C then insert (pj_next_task p) (tasks_in C p) else tasks_in C p)"
  by (auto simp: tasks_in_def spawn_def tasks_fresh_def map_add_def split: option.splits)

lemma alone_simps [simp]: "alone {}" "alone {t}" "alone X \<Longrightarrow> alone (X - Y)" "alone (insert t X) \<longleftrightarrow> X \<subseteq> {t}"
  by (auto simp: alone_def)

lemma alone_member: "alone X \<Longrightarrow> t \<in> X \<Longrightarrow> X = {t}"
  by (auto simp: alone_def)

lemma in_tasks: "dget (pj_tasks p) t = Some s \<Longrightarrow> t \<in> tasks_in C p \<longleftrightarrow> s \<in> C"
  by (simp add: tasks_in_def)

lemma field_simps_project [simp]:
  "pj_lock (set_stage t s p) = pj_lock p" "pj_exam_ending (set_stage t s p) = pj_exam_ending p" "pj_closing (set_stage t s p) = pj_closing p"
  "pj_lock (end_task t p) = pj_lock p" "pj_exam_ending (end_task t p) = pj_exam_ending p" "pj_closing (end_task t p) = pj_closing p"
  "pj_lock (spawn s p) = pj_lock p" "pj_exam_ending (spawn s p) = pj_exam_ending p" "pj_closing (spawn s p) = pj_closing p"
  "pj_lock (arm tm p) = pj_lock p" "pj_exam_ending (arm tm p) = pj_exam_ending p" "pj_closing (arm tm p) = pj_closing p"
  "pj_tasks (arm tm p) = pj_tasks p" "pj_next_task (arm tm p) = pj_next_task p"
  by (simp_all add: set_stage_def end_task_def spawn_def arm_def)

lemma project_inv_frame:
  assumes "pj_tasks q = pj_tasks p" "pj_next_task q = pj_next_task p" "pj_lock q = pj_lock p"
    "pj_exam_ending q = pj_exam_ending p" "pj_closing q = pj_closing p"
  shows "project_inv q = project_inv p"
  using assms by (simp add: project_inv_def tasks_fresh_def tasks_in_def)

lemma tasks_fresh_ops:
  "tasks_fresh p \<Longrightarrow> tasks_fresh (end_task t p)"
  "tasks_fresh p \<Longrightarrow> dget (pj_tasks p) t = Some s0 \<Longrightarrow> tasks_fresh (set_stage t s p)"
  "tasks_fresh p \<Longrightarrow> tasks_fresh (spawn s p)"
  by (auto simp: tasks_fresh_def end_task_def set_stage_def spawn_def map_add_def split: option.splits)

lemma spawn_inv: "project_inv p \<Longrightarrow> s \<notin> HOLDING \<union> ENDING \<union> CLOSERS \<Longrightarrow> project_inv (spawn s p)"
  by (simp add: project_inv_def tasks_fresh_ops tasks_in_spawn)

lemma end_exam_if_due_inv: "project_inv p \<Longrightarrow> project_inv (end_exam_if_due now tm p)"
  by (auto simp: end_exam_if_due_def stage_groups intro: spawn_inv)

lemma periodic_eval_inv: "project_inv p \<Longrightarrow> project_inv (periodic_eval exam_mode tm p)"
proof -
  assume p: "project_inv p"
  have "project_inv (p\<lparr>pj_next_eval := x\<rparr>)" for x
    using p project_inv_frame [of "p\<lparr>pj_next_eval := x\<rparr>" p] by simp
  then show ?thesis
    using p by (auto simp: periodic_eval_def Let_def stage_groups intro!: spawn_inv split: option.split)
qed

lemma reap_inv: "project_inv p \<Longrightarrow> project_inv (reap_if_idle dt tm p)"
  by (auto simp: reap_if_idle_def Let_def stage_groups intro!: spawn_inv)

lemma on_tick_inv: "project_inv p \<Longrightarrow> project_inv (on_tick exam_mode dt now tm p)"
  by (simp add: on_tick_def reap_inv periodic_eval_inv end_exam_if_due_inv)

lemma mark_ended_frame [simp]:
  "pj_tasks (mark_ended tm p) = pj_tasks p" "pj_next_task (mark_ended tm p) = pj_next_task p" "pj_lock (mark_ended tm p) = pj_lock p"
  "pj_exam_ending (mark_ended tm p) = pj_exam_ending p" "pj_closing (mark_ended tm p) = pj_closing p"
  by (simp_all add: mark_ended_def touch_def)

lemma exam_end_due_not_ending: "exam_end_due now tm p \<Longrightarrow> \<not> pj_exam_ending p"
  by (auto simp: exam_end_due_def split: option.splits)

lemma tasks_in_fields [simp]:
  "tasks_in C (mark_ended tm p) = tasks_in C p" "tasks_in C (p\<lparr>pj_exam_ending := b\<rparr>) = tasks_in C p"
  "tasks_in C (p\<lparr>pj_closing := b\<rparr>) = tasks_in C p" "tasks_in C (p\<lparr>pj_lock := l\<rparr>) = tasks_in C p"
  "tasks_in C (p\<lparr>pj_exam := x\<rparr>) = tasks_in C p" "tasks_in C (p\<lparr>pj_retry_at := r\<rparr>) = tasks_in C p"
  "tasks_in C (p\<lparr>pj_terminals := n\<rparr>) = tasks_in C p" "tasks_in C (arm tm p) = tasks_in C p"
  by (rule tasks_in_frame; simp)+

lemma tasks_fresh_fields [simp]:
  "tasks_fresh (mark_ended tm p) = tasks_fresh p" "tasks_fresh (p\<lparr>pj_exam_ending := b\<rparr>) = tasks_fresh p"
  "tasks_fresh (p\<lparr>pj_closing := b\<rparr>) = tasks_fresh p" "tasks_fresh (p\<lparr>pj_lock := l\<rparr>) = tasks_fresh p"
  "tasks_fresh (p\<lparr>pj_exam := x\<rparr>) = tasks_fresh p" "tasks_fresh (p\<lparr>pj_retry_at := r\<rparr>) = tasks_fresh p"
  "tasks_fresh (p\<lparr>pj_terminals := n\<rparr>) = tasks_fresh p" "tasks_fresh (arm tm p) = tasks_fresh p"
  by (simp_all add: tasks_fresh_def)

lemma project_invD:
  assumes "project_inv p" "dget (pj_tasks p) t = Some s"
  shows "s \<in> HOLDING \<Longrightarrow> pj_lock p = Some t" "s \<notin> HOLDING \<Longrightarrow> pj_lock p \<noteq> Some t"
    "s \<in> ENDING \<Longrightarrow> tasks_in ENDING p = {t} \<and> pj_exam_ending p" "s \<notin> ENDING \<Longrightarrow> t \<notin> tasks_in ENDING p"
    "s \<in> CLOSERS \<Longrightarrow> tasks_in CLOSERS p = {t} \<and> pj_closing p" "s \<notin> CLOSERS \<Longrightarrow> t \<notin> tasks_in CLOSERS p"
    "tasks_in HOLDING p = set_option (pj_lock p)" "tasks_fresh p" "alone (tasks_in ENDING p)" "alone (tasks_in CLOSERS p)"
    "pj_exam_ending p \<longleftrightarrow> tasks_in ENDING p \<noteq> {}" "\<not> pj_closing p \<Longrightarrow> tasks_in CLOSERS p = {}"
  using assms in_tasks [OF assms(2), of HOLDING] in_tasks [OF assms(2), of ENDING] in_tasks [OF assms(2), of CLOSERS]
  by (auto simp: project_inv_def dest: alone_member)

text \<open>A task that goes on, when the groups it leaves and enters match what happens to the lock and
  the flags.\<close>

lemma move_inv:
  assumes p: "project_inv p" and t: "dget (pj_tasks p) t = Some s"
    and q: "pj_tasks q = pj_tasks p" "pj_next_task q = pj_next_task p"
    and lock: "pj_lock q = (if s \<in> HOLDING \<and> s' \<notin> HOLDING then None else if s \<notin> HOLDING \<and> s' \<in> HOLDING then Some t else pj_lock p)"
      "s \<notin> HOLDING \<and> s' \<in> HOLDING \<Longrightarrow> pj_lock p = None"
    and ending: "pj_exam_ending q = (if s' \<in> ENDING then True else if s \<in> ENDING then False else pj_exam_ending p)"
      "s \<notin> ENDING \<and> s' \<in> ENDING \<Longrightarrow> \<not> pj_exam_ending p"
    and closing: "s' \<in> CLOSERS \<Longrightarrow> pj_closing q" "pj_closing p \<and> s \<notin> CLOSERS \<Longrightarrow> pj_closing q" "s \<notin> CLOSERS \<and> s' \<in> CLOSERS \<Longrightarrow> \<not> pj_closing p"
  shows "project_inv (set_stage t s' q)"
proof -
  note d = project_invD [OF p t]
  have in_q: "tasks_in C q = tasks_in C p" for C by (rule tasks_in_frame [OF q(1)])
  have hold: "(if s' \<in> HOLDING then insert t (tasks_in HOLDING p) else tasks_in HOLDING p - {t}) = set_option (pj_lock q)"
    unfolding d(7) lock(1) using d(1,2) lock(2) by (cases "s \<in> HOLDING"; cases "s' \<in> HOLDING") auto
  have ends: "tasks_in ENDING (set_stage t s' q) = (if s' \<in> ENDING then {t} else if s \<in> ENDING then {} else tasks_in ENDING p)"
    using d(3,4,11) ending(2) by (auto simp: in_q)
  have closers: "tasks_in CLOSERS (set_stage t s' q) = (if s' \<in> CLOSERS then {t} else if s \<in> CLOSERS then {} else tasks_in CLOSERS p)"
    using d(5,6,12) closing(3) by (auto simp: in_q)
  have fresh: "tasks_fresh (set_stage t s' q)" using d(8) t q by (intro tasks_fresh_ops(2) [of _ _ s]) (simp_all add: tasks_fresh_def)
  have "alone (if s' \<in> ENDING then {t} else if s \<in> ENDING then {} else tasks_in ENDING p)"
    "alone (if s' \<in> CLOSERS then {t} else if s \<in> CLOSERS then {} else tasks_in CLOSERS p)"
    using d(9,10) by simp_all
  moreover have "pj_exam_ending q \<longleftrightarrow> (if s' \<in> ENDING then {t} else if s \<in> ENDING then {} else tasks_in ENDING p) \<noteq> {}"
    using d(11) ending(1) by simp
  moreover have "\<not> pj_closing q \<longrightarrow> (if s' \<in> CLOSERS then {t} else if s \<in> CLOSERS then {} else tasks_in CLOSERS p) = {}"
    using d(12) closing(1,2) by auto
  moreover have "tasks_in HOLDING (set_stage t s' q) = set_option (pj_lock (set_stage t s' q))"
    using hold unfolding tasks_in_set_stage in_q by simp
  ultimately show ?thesis
    unfolding project_inv_def ends closers using fresh by simp
qed

lemma finish_inv:
  assumes p: "project_inv p" and t: "dget (pj_tasks p) t = Some s"
    and q: "pj_tasks q = pj_tasks p" "pj_next_task q = pj_next_task p"
    and "pj_lock q = (if s \<in> HOLDING then None else pj_lock p)"
    and "pj_exam_ending q = (if s \<in> ENDING then False else pj_exam_ending p)"
    and "pj_closing p \<and> s \<notin> CLOSERS \<Longrightarrow> pj_closing q"
  shows "project_inv (end_task t q)"
proof -
  note d = project_invD [OF p t]
  have in_q: "tasks_in C q = tasks_in C p" for C by (rule tasks_in_frame [OF q(1)])
  have "tasks_fresh (end_task t q)" using d(8) q by (intro tasks_fresh_ops(1)) (simp add: tasks_fresh_def)
  moreover have "tasks_in HOLDING p - {t} = set_option (pj_lock q)" using d(1,2,7) assms(5) by auto
  moreover have "tasks_in ENDING p - {t} = (if s \<in> ENDING then {} else tasks_in ENDING p)" using d(3,4) by auto
  moreover have "tasks_in CLOSERS p - {t} = (if s \<in> CLOSERS then {} else tasks_in CLOSERS p)" using d(5,6) by auto
  ultimately show ?thesis
    unfolding project_inv_def using d(9,10,11,12) assms(6,7) by (auto simp: in_q)
qed

lemma idle_task_inv: "project_inv p \<Longrightarrow> dget (pj_tasks p) t = Some s \<Longrightarrow> s \<notin> HOLDING \<union> ENDING \<union> CLOSERS \<Longrightarrow> project_inv (end_task t p)"
  by (rule finish_inv [of p t s p]) auto

lemma first_step_inv:
  assumes p: "project_inv p"
  shows "project_inv (first_step now tm t p)"
proof (cases "dget (pj_tasks p) t")
  case (Some s)
  note q = idle_task_inv [OF p Some]
  show ?thesis
  proof (cases s)
    case EvalPlanned
    have "project_inv (set_stage t EvalWaiting p)"
      by (rule move_inv [OF p Some]) (simp_all add: EvalPlanned stage_groups)
    with q Some EvalPlanned show ?thesis by (simp add: piece_defs stage_groups)
  next
    case EndPlanned
    have "project_inv (set_stage t EndCutting (mark_ended tm (p\<lparr>pj_exam_ending := True\<rparr>)))" if "exam_end_due now tm p"
      by (rule move_inv [OF p Some]) (use exam_end_due_not_ending [OF that] in \<open>simp_all add: EndPlanned stage_groups\<close>)
    with q Some EndPlanned show ?thesis by (simp add: piece_defs stage_groups)
  next
    case ClosePlanned
    have "project_inv (set_stage t CloseWaiting (p\<lparr>pj_closing := True\<rparr>))" if "\<not> pj_closing p"
      by (rule move_inv [OF p Some]) (use that in \<open>simp_all add: ClosePlanned stage_groups\<close>)
    with q Some ClosePlanned show ?thesis by (simp add: piece_defs stage_groups)
  qed (use p Some in \<open>simp_all add: piece_defs\<close>)
qed (use p in \<open>simp add: piece_defs\<close>)

lemma take_lock_inv:
  assumes p: "project_inv p"
  shows "project_inv (take_lock t p)"
proof (cases "dget (pj_tasks p) t")
  case (Some s)
  show ?thesis
  proof (cases "locked p")
    case False
    then have free: "pj_lock p = None" by (simp add: locked_def)
    show ?thesis
    proof (cases s)
      case EvalWaiting
      have "project_inv (set_stage t EvalRunning (p\<lparr>pj_lock := Some t\<rparr>))"
        by (rule move_inv [OF p Some]) (simp_all add: EvalWaiting stage_groups free)
      with Some EvalWaiting False show ?thesis by (simp add: piece_defs)
    next
      case EndCutting
      have "pj_exam_ending p" using project_invD(3) [OF p Some] by (simp add: EndCutting stage_groups)
      then have "project_inv (set_stage t EndRunning (p\<lparr>pj_lock := Some t\<rparr>))"
        by (intro move_inv [OF p Some]) (simp_all add: EndCutting stage_groups free)
      moreover have "project_inv (end_ending t p)"
        unfolding end_ending_def by (rule finish_inv [OF p Some]) (simp_all add: EndCutting stage_groups free)
      ultimately show ?thesis using Some EndCutting False by (simp add: piece_defs)
    next
      case CloseWaiting
      have "project_inv (set_stage t CloseHolding (p\<lparr>pj_lock := Some t, pj_terminals := 0\<rparr>))"
        by (rule move_inv [OF p Some]) (use project_invD(5) [OF p Some] in \<open>simp_all add: CloseWaiting stage_groups free\<close>)
      with Some CloseWaiting False show ?thesis by (simp add: piece_defs)
    qed (use p Some False in \<open>simp_all add: piece_defs\<close>)
  qed (use p in \<open>simp add: piece_defs\<close>)
qed (use p in \<open>simp add: piece_defs\<close>)

lemma close_decides_inv:
  assumes p: "project_inv p"
  shows "project_inv (close_decides exam_mode t p)"
proof (cases "dget (pj_tasks p) t = Some CloseHolding")
  case True
  have "project_inv (set_stage t s p)" if "s \<in> {CloseEvaluating, CloseStopping}" for s
    by (rule move_inv [OF p True]) (use that project_invD(5) [OF p True] in \<open>auto simp: stage_groups\<close>)
  with True show ?thesis by (simp add: close_decides_def Let_def)
qed (use p in \<open>auto simp: close_decides_def split: option.split stage.split\<close>)

lemma command_done_inv:
  assumes p: "project_inv p"
  shows "project_inv (command_done res tm t p)"
proof (cases "dget (pj_tasks p) t")
  case (Some s)
  show ?thesis
  proof (cases s)
    case EvalRunning
    have "project_inv (set_stage t EvalNotifying (free_lock p))" "project_inv (end_task t (free_lock p))"
      by (rule move_inv [OF p Some] finish_inv [OF p Some]; simp add: EvalRunning stage_groups free_lock_def)+
    with Some EvalRunning show ?thesis by (simp add: piece_defs)
  next
    case EndRunning
    have "pj_exam_ending p" using project_invD(3) [OF p Some] by (simp add: EndRunning stage_groups)
    then have "project_inv (set_stage t EndNotifying (free_lock (p\<lparr>pj_exam := x, pj_retry_at := None\<rparr>)))" for x
      by (intro move_inv [OF p Some]) (simp_all add: EndRunning stage_groups free_lock_def)
    moreover have "project_inv (end_ending t (free_lock (p\<lparr>pj_retry_at := r\<rparr>)))" "project_inv (end_ending t (free_lock p))" for r
      unfolding end_ending_def by (rule finish_inv [OF p Some]; simp add: EndRunning stage_groups free_lock_def)+
    ultimately show ?thesis using Some EndRunning by (simp add: piece_defs split: option.split)
  next
    case CloseEvaluating
    have "project_inv (set_stage t CloseStopping p)" "project_inv (end_task t (free_lock p))"
      by (rule move_inv [OF p Some] finish_inv [OF p Some];
          use project_invD(5) [OF p Some] in \<open>simp add: CloseEvaluating stage_groups free_lock_def\<close>)+
    with Some CloseEvaluating show ?thesis by (simp add: piece_defs)
  next
    case CloseStopping
    have "project_inv (end_task t (free_lock p))" "project_inv (end_task t (free_lock (p\<lparr>pj_closing := False\<rparr>)))"
      by (rule finish_inv [OF p Some]; simp add: CloseStopping stage_groups free_lock_def)+
    with Some CloseStopping show ?thesis by (simp add: piece_defs)
  next
    case UserRunning
    have "project_inv (end_task t (free_lock p))"
      by (rule finish_inv [OF p Some]) (simp_all add: UserRunning stage_groups free_lock_def)
    with Some UserRunning show ?thesis by (simp add: piece_defs)
  qed (use p Some in \<open>simp_all add: piece_defs\<close>)
qed (use p in \<open>simp add: piece_defs\<close>)

lemma notified_inv:
  assumes p: "project_inv p"
  shows "project_inv (notified t p)"
proof (cases "dget (pj_tasks p) t")
  case (Some s)
  have "project_inv (end_ending t p)" if "s = EndNotifying"
    unfolding end_ending_def by (rule finish_inv [OF p Some]) (simp_all add: that stage_groups)
  with p Some idle_task_inv [OF p Some] show ?thesis
    by (cases s) (simp_all add: notified_def stage_groups)
qed (use p in \<open>simp add: notified_def\<close>)

lemma user_command_inv: "project_inv p \<Longrightarrow> project_inv (or_unchanged user_command p)"
  by (auto simp: or_unchanged_def user_command_def locked_def project_inv_def tasks_fresh_ops tasks_in_spawn stage_groups)

lemma requests_inv:
  assumes p: "project_inv p"
  shows "project_inv (or_unchanged (exam_put x now tm) p)" "project_inv (exam_delete tm p)"
    "project_inv (arm tm (p\<lparr>pj_info_interval := i, pj_eval_before_exit := b\<rparr>))"
    "project_inv (touch tm (p\<lparr>pj_subscribers := subs, pj_displays := displays, pj_terminals := terminals\<rparr>))"
  using p project_inv_frame [of "arm tm (p\<lparr>pj_exam := y, pj_retry_at := None\<rparr>)" p for y]
    project_inv_frame [of "arm tm (p\<lparr>pj_info_interval := i, pj_eval_before_exit := b\<rparr>)" p]
    project_inv_frame [of "touch tm (p\<lparr>pj_subscribers := subs, pj_displays := displays, pj_terminals := terminals\<rparr>)" p]
  by (auto simp: or_unchanged_def exam_put_def exam_delete_def Let_def touch_def)

lemma project_step_inv: "project_inv p \<Longrightarrow> project_step p q \<Longrightarrow> project_inv q"
proof (elim project_stepE)
  fix e
  assume p: "project_inv p" and q: "q = exec_project e p"
  show "project_inv q"
    unfolding q by (cases e) (simp_all add: p on_tick_inv first_step_inv take_lock_inv close_decides_inv command_done_inv notified_inv
        user_command_inv requests_inv spawn_inv stage_groups)
qed

section \<open>What no history breaks\<close>

definition new_project :: "string \<Rightarrow> bool \<Rightarrow> int \<Rightarrow> bool \<Rightarrow> real option \<Rightarrow> agent_exam option \<Rightarrow> real \<Rightarrow> project" where
  "new_project owner managed interval before_exit timeout x tm =
     arm tm \<lparr>pj_owner = owner, pj_managed = managed, pj_closing = False, pj_exam = x, pj_exam_ending = False, pj_retry_at = None,
       pj_next_eval = None, pj_last_activity = tm, pj_idle_timeout = timeout, pj_info_interval = interval,
       pj_eval_before_exit = before_exit, pj_subscribers = [], pj_displays = 0, pj_terminals = 0, pj_lock = None, pj_tasks = [],
       pj_next_task = 0\<rparr>"

inductive project_start :: "project \<Rightarrow> bool" where
  "project_start (new_project owner managed interval before_exit timeout x tm)"

lemma new_project_inv: "project_inv (new_project owner managed interval before_exit timeout x tm)"
  by (simp add: new_project_def project_inv_def tasks_fresh_def tasks_in_def arm_def)

interpretation project_machine: invariant_machine project_start project_step project_inv
  by unfold_locales (auto elim!: project_start.cases intro: new_project_inv project_step_inv)

text \<open>The stages in which a command of \<open>sre\<close> runs.\<close>

definition RUNNING :: "stage set" where
  "RUNNING = {EvalRunning, EndRunning, CloseEvaluating, CloseStopping, UserRunning}"

text \<open>C3: Whatever the order of the ticks, the requests and the ends of the commands, at most one
  command of \<open>sre\<close> runs on a project, by the task that holds its lock, and at most one end of the
  exam and one close are in progress.\<close>

theorem one_command:
  assumes "project_start p" "project_step\<^sup>*\<^sup>* p q" "dget (pj_tasks q) t = Some s" "dget (pj_tasks q) u = Some r"
    and "(s \<in> RUNNING \<and> r \<in> RUNNING) \<or> (s \<in> ENDING \<and> r \<in> ENDING) \<or> (s \<in> CLOSERS \<and> r \<in> CLOSERS)"
  shows "t = u \<and> s = r \<and> (s \<in> RUNNING \<longrightarrow> pj_lock q = Some t)"
proof -
  have "project_inv q" using assms(1,2) by (rule project_machine.reach_inv)
  note a = project_invD [OF this assms(3)] and b = project_invD [OF this assms(4)]
  have "RUNNING \<subseteq> HOLDING" by (auto simp: RUNNING_def HOLDING_def)
  then have "s \<in> RUNNING \<Longrightarrow> s \<in> HOLDING" "r \<in> RUNNING \<Longrightarrow> r \<in> HOLDING" by auto
  then have "t = u" using a(1,3,5) b(1,3,5) assms(5) by auto
  with a(1) assms(3,4) \<open>RUNNING \<subseteq> HOLDING\<close> show ?thesis by auto
qed

text \<open>Two periodic evaluations planned and a user's one: the second is refused the lock.\<close>

definition demo_web_project :: project where
  "demo_web_project = new_project ''bob'' True 0 True (Some 100) None 0"

definition demo_busy_web :: project where
  "demo_busy_web = fold exec_project [PvUser, PvUser, PvClose, PvFirst 1 1 1, PvLock 1] demo_web_project"

lemma run_project: "list_all event_ok es \<Longrightarrow> project_step\<^sup>*\<^sup>* p (fold exec_project es p)"
  by (induction es arbitrary: p) (auto intro: project_stepI converse_rtranclp_into_rtranclp)

lemma demo_busy_eq: "pj_tasks demo_busy_web = [(0, UserRunning), (1, CloseWaiting)] \<and> pj_lock demo_busy_web = Some 0"
  by (simp add: demo_busy_web_def demo_web_project_def new_project_def arm_def or_unchanged_def user_command_def locked_def spawn_def
      piece_defs set_stage_def piece_defs)

theorem one_command_witness: "pj_lock demo_busy_web = Some 0"
proof -
  have "project_start demo_web_project" unfolding demo_web_project_def by (rule project_start.intros)
  moreover have "project_step\<^sup>*\<^sup>* demo_web_project demo_busy_web" unfolding demo_busy_web_def by (rule run_project) simp
  ultimately have "0 = (0 :: nat) \<and> UserRunning = UserRunning \<and> (UserRunning \<in> RUNNING \<longrightarrow> pj_lock demo_busy_web = Some 0)"
    by (rule one_command) (simp_all add: demo_busy_eq RUNNING_def)
  then show ?thesis by (simp add: RUNNING_def)
qed

section \<open>The idle reaper\<close>

definition may_reap :: "real \<Rightarrow> real \<Rightarrow> project \<Rightarrow> bool" where
  "may_reap default_timeout tm p \<longleftrightarrow> \<not> exam_running p \<and> 0 < idle_timeout default_timeout p \<and>
     idle_timeout default_timeout p < idle_seconds tm p \<and> pj_terminals p = 0 \<and> pj_displays p = 0 \<and> \<not> locked p \<and>
     (\<forall>who \<in> set (pj_subscribers p). exam_over p \<and> who = pj_owner p)"

definition planned :: "stage \<Rightarrow> project \<Rightarrow> nat" where
  "planned s p = length (filter (\<lambda>x. snd x = s) (pj_tasks p))"

lemma planned_spawn [simp]: "planned s (spawn s' p) = planned s p + (if s' = s then 1 else 0)"
  by (simp add: planned_def spawn_def)

lemma reap_planned: "planned ClosePlanned (reap_if_idle dt tm p) = planned ClosePlanned p + (if may_reap dt tm p then 1 else 0)"
  by (auto simp: reap_if_idle_def Let_def may_reap_def keepers_def filter_empty_conv)

lemma before_reap:
  "planned ClosePlanned (periodic_eval exam_mode tm (end_exam_if_due now tm p)) = planned ClosePlanned p"
  "may_reap dt tm (periodic_eval exam_mode tm (end_exam_if_due now tm p)) = may_reap dt tm p"
  by (auto simp: periodic_eval_def end_exam_if_due_def Let_def spawn_def planned_def may_reap_def exam_running_def exam_over_def
      idle_timeout_def idle_seconds_def locked_def split: option.split)

text \<open>A tick closes a project exactly when the agent manages it and is not closing it, it has an
  idle timeout that has passed, no terminal, no display and no running command, and nobody has its
  page open (the owner apart, once their exam is over); never a project whose exam is in progress.\<close>

theorem tick_reaps:
  "planned ClosePlanned (on_tick exam_mode dt now tm p) =
     planned ClosePlanned p + (if pj_managed p \<and> \<not> pj_closing p \<and> may_reap dt tm p then 1 else 0)"
  by (simp add: on_tick_def reap_planned before_reap)

section \<open>The final evaluation\<close>

definition final_owed :: "project \<Rightarrow> bool" where
  "final_owed p \<longleftrightarrow> (\<exists>x. pj_exam p = Some x \<and> ax_ended x \<and> \<not> ax_final x)"

text \<open>The next tick, then the pieces of the task it plans.\<close>

definition final_events :: "real \<Rightarrow> real \<Rightarrow> nat \<Rightarrow> project_event list" where
  "final_events now tm t = [PvFirst now tm t, PvLock t, PvDone CmdOk tm t, PvNotified t]"


definition demo_owed_web :: project where
  "demo_owed_web = new_project ''bob'' True 0 True None (Some \<lparr>ax_started = Some 0, ax_end = Some 10, ax_interval = 0, ax_ended = True, ax_final = False\<rparr>) 0"


text \<open>An exam from 0 to 10, resumed until 100 while its final evaluation runs.\<close>

definition exam_until :: "real \<Rightarrow> agent_exam" where
  "exam_until e = \<lparr>ax_started = Some 0, ax_end = Some e, ax_interval = 0, ax_ended = False, ax_final = False\<rparr>"

definition resumed_events :: "project_event list" where
  "resumed_events = [PvPut (exam_until 10) 0 0, PvTick False 0 10 10, PvFirst 10 10 0, PvLock 0,
     PvPut (exam_until 100) 11 11, PvDone CmdOk 12 0, PvNotified 0,
     PvTick False 0 100 100, PvFirst 100 100 1, PvLock 1, PvDone CmdFailed 101 1]"


section \<open>The intervals\<close>

text \<open>The interval of a lab or an exam is a whole number of seconds that is never negative,
  and 0 for everything that is not a positive finite number; the one failure is an integer beyond
  the doubles, which raises out of the hooks of the tick.\<close>

theorem interval_bounds:
  "case interval_seconds float_of v of
     Inl e \<Rightarrow> (\<exists>n. v = JInt n \<and> float_limit \<le> \<bar>n\<bar>)
   | Inr i \<Rightarrow> 0 \<le> i \<and> (0 < i \<longrightarrow> v \<noteq> JFloat PInf \<and> v \<noteq> JFloat NaN \<and> v \<noteq> JFloat NInf) \<and>
       (\<forall>r. v = JFloat (Fin r) \<longrightarrow> of_int i \<le> max 0 r \<and> r < of_int i + 1)"
proof -
  have f: "0 \<le> float_seconds x \<and> (0 < float_seconds x \<longrightarrow> x \<noteq> PInf \<and> x \<noteq> NaN \<and> x \<noteq> NInf) \<and>
      (\<forall>r. x = Fin r \<longrightarrow> of_int (float_seconds x) \<le> max 0 r \<and> r < of_int (float_seconds x) + 1)" for x
  proof (cases x)
    case (Fin r)
    then show ?thesis by (simp add: float_seconds_def)
  qed (simp_all add: float_seconds_def)
  show ?thesis
  proof (cases v)
    case (JStr s)
    then show ?thesis using f by (simp add: interval_seconds_def split: option.split)
  next
    case (JFloat x)
    then show ?thesis using f [of x] by (simp add: interval_seconds_def)
  qed (auto simp: interval_seconds_def)
qed

end
