(* ===== verification/Pty.thy ===== *)
theory Pty
  imports Prelude
begin

text \<open>
  One child process on a pseudo-terminal (\<open>src/sreweb/agent/pty_session.py\<close>). The system calls
  are answers given to the operations: \<open>os_write\<close> is what \<open>os.write\<close> does with the bytes (some
  are taken, \<open>BlockingIOError\<close>, another \<open>OSError\<close>). The bytes the kernel took are kept in
  \<open>pt_input\<close>, in order.
\<close>

type_synonym octets = "nat list"

definition OUTPUT_HIGH_WATER :: nat where "OUTPUT_HIGH_WATER = 2 ^ 20"

definition INPUT_HIGH_WATER :: nat where "INPUT_HIGH_WATER = 2 ^ 20"

datatype os_write = Wrote nat | WouldBlock | WriteError

record pty =
  pt_cols :: int
  pt_rows :: int
  pt_master :: bool
  pt_alive :: bool
  pt_pending_in :: octets
  pt_dropped_in :: nat
  pt_pending_out :: nat
  pt_reading :: bool
  pt_writer :: bool
  pt_exited :: bool
  pt_closed :: bool
  pt_window :: "int \<times> int"
  pt_input :: octets

definition window_size :: "int \<Rightarrow> int \<Rightarrow> int \<times> int" where
  "window_size cols rows = (max 1 rows, max 1 cols)"

text \<open>\<open>__init__\<close>, and \<open>start\<close> when the child could be spawned.\<close>

definition new_pty :: "int \<Rightarrow> int \<Rightarrow> pty" where
  "new_pty cols rows =
     \<lparr>pt_cols = cols, pt_rows = rows, pt_master = False, pt_alive = False, pt_pending_in = [], pt_dropped_in = 0,
      pt_pending_out = 0, pt_reading = False, pt_writer = False, pt_exited = False, pt_closed = False,
      pt_window = (0, 0), pt_input = []\<rparr>"

definition start_reading :: "pty \<Rightarrow> pty" where
  "start_reading p = (if pt_master p \<and> \<not> pt_reading p then p\<lparr>pt_reading := True\<rparr> else p)"

definition stop_reading :: "pty \<Rightarrow> pty" where
  "stop_reading p = (if pt_master p \<and> pt_reading p then p\<lparr>pt_reading := False\<rparr> else p)"

definition start_pty :: "pty \<Rightarrow> pty" where
  "start_pty p = start_reading
     (p\<lparr>pt_window := window_size (pt_cols p) (pt_rows p), pt_alive := True, pt_master := True\<rparr>)"

definition close_master :: "pty \<Rightarrow> pty" where
  "close_master p =
     (if \<not> pt_master p then p
      else (let p = stop_reading p in p\<lparr>pt_writer := False, pt_master := False\<rparr>))"

text \<open>The first piece of \<open>close\<close>: the wait for the child and the kill after the grace end in the
  exit of the child.\<close>

definition close_pty :: "pty \<Rightarrow> pty" where
  "close_pty p = (if pt_closed p then p else close_master (p\<lparr>pt_closed := True\<rparr>))"

definition output_pending :: "nat \<Rightarrow> pty \<Rightarrow> pty" where
  "output_pending n p =
     (let p = p\<lparr>pt_pending_out := n\<rparr>
      in if OUTPUT_HIGH_WATER \<le> n then stop_reading p
         else if \<not> pt_closed p then start_reading p
         else p)"

definition drop_input :: "octets \<Rightarrow> pty \<Rightarrow> pty" where
  "drop_input data p = p\<lparr>pt_dropped_in := pt_dropped_in p + length data\<rparr>"

text \<open>\<open>write\<close>: whether something of the data was written or kept. \<open>os.write\<close> takes at most the
  bytes it is given.\<close>

definition pty_write :: "octets \<Rightarrow> os_write \<Rightarrow> pty \<Rightarrow> bool \<times> pty" where
  "pty_write data ans p =
     (if \<not> pt_master p \<or> data = [] then (False, p)
      else if pt_pending_in p \<noteq> [] then
        (if INPUT_HIGH_WATER < length (pt_pending_in p) + length data then (False, drop_input data p)
         else (True, p\<lparr>pt_pending_in := pt_pending_in p @ data\<rparr>))
      else (case ans of
          WriteError \<Rightarrow> (False, p)
        | _ \<Rightarrow>
            (let n = (case ans of Wrote n \<Rightarrow> min n (length data) | _ \<Rightarrow> 0);
                 p = p\<lparr>pt_input := pt_input p @ take n data\<rparr>;
                 rest = drop n data
             in if n < length data then
                  (if INPUT_HIGH_WATER < length rest then (0 < n, drop_input rest p)
                   else (True, p\<lparr>pt_pending_in := pt_pending_in p @ rest, pt_writer := True\<rparr>))
                else (True, p))))"

definition flush_pending :: "os_write \<Rightarrow> pty \<Rightarrow> pty" where
  "flush_pending ans p =
     (if \<not> pt_master p then p
      else (case ans of
          WouldBlock \<Rightarrow> p
        | WriteError \<Rightarrow> p\<lparr>pt_pending_in := [], pt_writer := False\<rparr>
        | Wrote n \<Rightarrow>
            (let p = p\<lparr>pt_input := pt_input p @ take n (pt_pending_in p), pt_pending_in := drop n (pt_pending_in p)\<rparr>
             in if pt_pending_in p = [] then p\<lparr>pt_writer := False\<rparr> else p)))"

definition resize_pty :: "int \<Rightarrow> int \<Rightarrow> pty \<Rightarrow> pty" where
  "resize_pty cols rows p =
     (let p = p\<lparr>pt_cols := cols, pt_rows := rows\<rparr>
      in if pt_master p then p\<lparr>pt_window := window_size cols rows\<rparr> else p)"

section \<open>The input queue\<close>

text \<open>Input waits only while the loop watches the master for room, and never above the bound.\<close>

definition input_ok :: "pty \<Rightarrow> bool" where
  "input_ok p \<longleftrightarrow> length (pt_pending_in p) \<le> INPUT_HIGH_WATER \<and>
     (pt_master p \<longrightarrow> (pt_writer p \<longleftrightarrow> pt_pending_in p \<noteq> []))"

lemma input_ok_new [simp]: "input_ok (new_pty c r)"
  by (simp add: input_ok_def new_pty_def)

lemma reading_fields [simp]:
  "pt_master (start_reading p) = pt_master p" "pt_pending_in (start_reading p) = pt_pending_in p"
  "pt_input (start_reading p) = pt_input p" "pt_writer (start_reading p) = pt_writer p"
  "pt_master (stop_reading p) = pt_master p" "pt_pending_in (stop_reading p) = pt_pending_in p"
  "pt_input (stop_reading p) = pt_input p" "pt_writer (stop_reading p) = pt_writer p"
  "pt_pending_out (start_reading p) = pt_pending_out p" "pt_pending_out (stop_reading p) = pt_pending_out p"
  "pt_closed (start_reading p) = pt_closed p" "pt_closed (stop_reading p) = pt_closed p"
  by (simp_all add: start_reading_def stop_reading_def)

lemma input_ok_ops [simp]:
  "input_ok p \<Longrightarrow> input_ok (close_master p)"
  "input_ok p \<Longrightarrow> input_ok (close_pty p)"
  "input_ok p \<Longrightarrow> input_ok (output_pending n p)"
  "input_ok p \<Longrightarrow> input_ok (resize_pty c r p)"
  "input_ok p \<Longrightarrow> input_ok (p\<lparr>pt_alive := b, pt_exited := e\<rparr>)"
  by (auto simp: input_ok_def close_master_def close_pty_def output_pending_def resize_pty_def Let_def)

lemma input_ok_start: "pt_pending_in p = [] \<Longrightarrow> \<not> pt_writer p \<Longrightarrow> input_ok (start_pty p)"
  by (simp add: input_ok_def start_pty_def)

lemma input_ok_flush [simp]: "input_ok p \<Longrightarrow> input_ok (flush_pending ans p)"
  by (cases ans) (auto simp: input_ok_def flush_pending_def Let_def)

lemma write_cases:
  "(\<exists>kept. snd (pty_write data ans p) = p\<lparr>pt_pending_in := pt_pending_in p @ kept\<rparr> \<and> kept = data \<and> pt_pending_in p \<noteq> []
      \<and> length (pt_pending_in p) + length data \<le> INPUT_HIGH_WATER)
   \<or> (\<exists>d. snd (pty_write data ans p) = p\<lparr>pt_dropped_in := d\<rparr>)
   \<or> (\<exists>n d. pt_pending_in p = [] \<and> snd (pty_write data ans p) = p\<lparr>pt_input := pt_input p @ take n data, pt_dropped_in := d\<rparr>)
   \<or> (\<exists>n. pt_pending_in p = [] \<and> n < length data \<and> length (drop n data) \<le> INPUT_HIGH_WATER \<and>
        snd (pty_write data ans p) =
          p\<lparr>pt_input := pt_input p @ take n data, pt_pending_in := drop n data, pt_writer := True\<rparr>)"
proof -
  have same: "\<exists>d. p = p\<lparr>pt_dropped_in := d\<rparr>" by (rule exI [of _ "pt_dropped_in p"]) simp
  have same': "\<exists>d. p\<lparr>pt_input := x\<rparr> = p\<lparr>pt_input := x, pt_dropped_in := d\<rparr>" for x
    by (rule exI [of _ "pt_dropped_in p"]) simp
  consider "\<not> pt_master p \<or> data = []" | "pt_master p" "data \<noteq> []" "pt_pending_in p \<noteq> []"
    | "pt_master p" "data \<noteq> []" "pt_pending_in p = []" "ans = WriteError"
    | "pt_master p" "data \<noteq> []" "pt_pending_in p = []" "ans \<noteq> WriteError" by blast
  then show ?thesis
  proof cases
    case 1
    then have "snd (pty_write data ans p) = p" by (simp add: pty_write_def)
    with same show ?thesis by metis
  next
    case 2
    then show ?thesis by (cases "INPUT_HIGH_WATER < length (pt_pending_in p) + length data")
        (auto simp: pty_write_def drop_input_def)
  next
    case 3
    then have "snd (pty_write data ans p) = p" by (simp add: pty_write_def)
    with same show ?thesis by metis
  next
    case 4
    define n where "n = (case ans of Wrote n \<Rightarrow> min n (length data) | _ \<Rightarrow> 0)"
    have eq: "snd (pty_write data ans p) =
      (if n < length data then
         (if INPUT_HIGH_WATER < length (drop n data)
          then p\<lparr>pt_input := pt_input p @ take n data, pt_dropped_in := pt_dropped_in p + length (drop n data)\<rparr>
          else p\<lparr>pt_input := pt_input p @ take n data, pt_pending_in := drop n data, pt_writer := True\<rparr>)
       else p\<lparr>pt_input := pt_input p @ take n data\<rparr>)"
      using 4 by (cases ans) (simp_all add: pty_write_def n_def drop_input_def Let_def)
    show ?thesis
    proof (cases "n < length data")
      case True
      show ?thesis
      proof (cases "INPUT_HIGH_WATER < length (drop n data)")
        case big: True
        have "pt_pending_in p = [] \<and> snd (pty_write data ans p) =
          p\<lparr>pt_input := pt_input p @ take n data, pt_dropped_in := pt_dropped_in p + length (drop n data)\<rparr>"
          unfolding eq using True big 4 by simp
        then show ?thesis by blast
      next
        case False
        have "pt_pending_in p = [] \<and> n < length data \<and> length (drop n data) \<le> INPUT_HIGH_WATER \<and> snd (pty_write data ans p) =
          p\<lparr>pt_input := pt_input p @ take n data, pt_pending_in := drop n data, pt_writer := True\<rparr>"
          unfolding eq using True False 4 by simp
        then show ?thesis by blast
      qed
    next
      case False
      then have "pt_pending_in p = [] \<and> snd (pty_write data ans p) = p\<lparr>pt_input := pt_input p @ take n data\<rparr>"
        unfolding eq using 4 by simp
      with same' [of "pt_input p @ take n data"] show ?thesis by (metis (lifting))
    qed
  qed
qed

lemma write_input_ok: "input_ok p \<Longrightarrow> input_ok (snd (pty_write data ans p))"
  using write_cases [of data ans p] by (auto simp: input_ok_def)

text \<open>Input to a program that stopped reading: after any write and any answer of the system, at
  most one mebibyte waits for the program, and the bytes the system took followed by the ones that
  wait are the bytes there were followed by a beginning of the new data: nothing is reordered or
  taken twice, and what is lost is the end of this write only.\<close>

theorem input_in_order:
  assumes "length (pt_pending_in p) \<le> INPUT_HIGH_WATER"
  shows "let q = snd (pty_write data ans p)
    in length (pt_pending_in q) \<le> INPUT_HIGH_WATER \<and>
       (\<exists>n. pt_input q @ pt_pending_in q = pt_input p @ pt_pending_in p @ take n data)"
  using write_cases [of data ans p]
proof (elim disjE exE conjE)
  fix kept assume "snd (pty_write data ans p) = p\<lparr>pt_pending_in := pt_pending_in p @ kept\<rparr>" "kept = data"
    "length (pt_pending_in p) + length data \<le> INPUT_HIGH_WATER"
  then show ?thesis by (auto simp: Let_def intro: exI [of _ "length data"])
next
  fix d assume "snd (pty_write data ans p) = p\<lparr>pt_dropped_in := d\<rparr>"
  then show ?thesis using assms by (auto simp: Let_def intro: exI [of _ 0])
next
  fix n d assume "pt_pending_in p = []" "snd (pty_write data ans p) = p\<lparr>pt_input := pt_input p @ take n data, pt_dropped_in := d\<rparr>"
  then show ?thesis by (auto simp: Let_def)
next
  fix n assume "pt_pending_in p = []" "length (drop n data) \<le> INPUT_HIGH_WATER"
    "snd (pty_write data ans p) = p\<lparr>pt_input := pt_input p @ take n data, pt_pending_in := drop n data, pt_writer := True\<rparr>"
  then show ?thesis by (auto simp: Let_def intro: exI [of _ "length data"])
qed

theorem input_in_order_witness:
  "\<exists>n. pt_input (snd (pty_write [104, 105] (Wrote 1) (start_pty (new_pty 80 24)))) @
       pt_pending_in (snd (pty_write [104, 105] (Wrote 1) (start_pty (new_pty 80 24)))) = [] @ [] @ take n [104, 105]"
  using input_in_order [of "start_pty (new_pty 80 24)" "[104, 105]" "Wrote 1"]
  by (simp add: Let_def start_pty_def new_pty_def start_reading_def)

end
