(* ===== verification/Agent_Access.thy ===== *)
theory Agent_Access
  imports Identity
begin

text \<open>
  The names of the running labs (\<open>src/SRE/params.py\<close>) and the access rules of the agent
  (\<open>src/sreweb/agent/access.py\<close>). What \<open>info.json\<close> says of a lab is a record that holds each value
  the code reads, with the default of its \<open>get\<close>; \<open>AccessError\<close> is an error value with its status.
\<close>

section \<open>Running lab names\<close>

fun contains :: "string \<Rightarrow> string \<Rightarrow> bool" where
  "contains s [] \<longleftrightarrow> s = []"
| "contains s (x # xs) \<longleftrightarrow> take (length s) (x # xs) = s \<or> contains s xs"

definition get_running_lab_name :: "string \<Rightarrow> string \<Rightarrow> string \<Rightarrow> unit + string" where
  "get_running_lab_name lab_name date username =
     (if contains sep3 lab_name \<or> contains sep3 username then Inl ()
      else Inr (date @ sep3 @ lab_name @ sep3 @ username))"

definition get_lab_name_from_running_lab_name :: "string \<Rightarrow> string" where
  "get_lab_name_from_running_lab_name rln =
     (case rln_match rln of Some (d, lab, who) \<Rightarrow> lab | None \<Rightarrow> ''ERROR-running_lab_name-ILLEGAL-FORMAT'')"

definition get_username_from_running_lab_name :: "string \<Rightarrow> string" where
  "get_username_from_running_lab_name rln = (case rln_match rln of Some (d, lab, who) \<Rightarrow> who | None \<Rightarrow> [])"

definition get_start_date_string_from_running_lab_name :: "string \<Rightarrow> string" where
  "get_start_date_string_from_running_lab_name rln = (case rln_match rln of Some (d, lab, who) \<Rightarrow> d | None \<Rightarrow> [])"

text \<open>\<open>replace("@", "/").rpartition("/")[2].removesuffix(".py")\<close>\<close>

definition py_suffix :: "string \<Rightarrow> string" where
  "py_suffix s = (if 3 \<le> length s \<and> drop (length s - 3) s = ''.py'' then take (length s - 3) s else s)"

definition get_abbreviated_lab_name_from_running_lab_name :: "string \<Rightarrow> string" where
  "get_abbreviated_lab_name_from_running_lab_name rln =
     (let name = map (\<lambda>c. if c = CHR ''@'' then CHR ''/'' else c) (get_lab_name_from_running_lab_name rln)
      in py_suffix (rev (takeWhile (\<lambda>c. c \<noteq> CHR ''/'') (rev name))))"

section \<open>What \<open>info.json\<close> says of a lab\<close>

record machine_info =
  mi_name :: string
  mi_hidden :: bool
  mi_allow_connection :: bool
  mi_x11_host :: bool

record switch_info =
  si_name :: string
  si_managed :: bool
  si_allow_connection :: bool

record lab_info =
  li_machines :: "machine_info list"
  li_switches :: "switch_info list"
  li_debug_project :: bool
  li_instructor_mode :: bool
  li_user_allowed_states :: "(string \<times> string) list"
  li_admin_only_states :: "string list"
  li_allow_self_grade :: bool
  li_export_schema_pdf :: bool

section \<open>The rules\<close>

datatype access_error = AccessError nat string

datatype device = DEVICE_MACHINE | DEVICE_SWITCH

definition check_running_lab_name :: "string \<Rightarrow> access_error + string" where
  "check_running_lab_name rln =
     (if rln = [] \<or> CHR ''/'' \<in> set rln \<or> CHR 0x5C \<in> set rln \<or> CHR 0x00 \<in> set rln \<or> rln = ''.'' \<or> rln = ''..'' \<or>
         rln_match rln = None
      then Inl (AccessError 404 ''unknown project'') else Inr rln)"

definition owner_of :: "string \<Rightarrow> string" where
  "owner_of rln = get_username_from_running_lab_name rln"

definition check_owner :: "string \<Rightarrow> identity \<Rightarrow> access_error + unit" where
  "check_owner rln i =
     (if owner_of rln \<noteq> login i \<and> role_of i \<noteq> Instructor then Inl (AccessError 403 ''not your project'') else Inr ())"

definition is_privileged_caller :: "string \<Rightarrow> identity \<Rightarrow> bool" where
  "is_privileged_caller rln i \<longleftrightarrow> role_of i = Instructor \<and> owner_of rln \<noteq> login i"

definition instructor_view_allowed :: "lab_info \<Rightarrow> identity \<Rightarrow> bool" where
  "instructor_view_allowed info i \<longleftrightarrow> role_of i = Instructor \<and> instructor_view i \<and>
     (li_instructor_mode info \<or> li_debug_project info)"

definition visible_machines :: "lab_info \<Rightarrow> identity \<Rightarrow> machine_info list" where
  "visible_machines info i =
     (if role_of i = Instructor then li_machines info else filter (\<lambda>m. \<not> mi_hidden m) (li_machines info))"

definition not_allowed :: access_error where
  "not_allowed = AccessError 403 ''connection to the device is not allowed''"

text \<open>The first visible machine of that name decides, then the first switch.\<close>

fun check_switches :: "switch_info list \<Rightarrow> string \<Rightarrow> bool \<Rightarrow> access_error + device" where
  "check_switches [] name debug = Inl (AccessError 404 ''unknown device'')"
| "check_switches (s # ss) name debug =
     (if si_name s = name then
        (if \<not> si_managed s then Inl (AccessError 403 ''no console'')
         else if \<not> (si_allow_connection s \<or> debug) then Inl not_allowed
         else Inr DEVICE_SWITCH)
      else check_switches ss name debug)"

fun check_machines :: "machine_info list \<Rightarrow> string \<Rightarrow> bool \<Rightarrow> (access_error + device) option" where
  "check_machines [] name debug = None"
| "check_machines (m # ms) name debug =
     (if mi_name m = name
      then Some (if mi_allow_connection m \<or> debug then Inr DEVICE_MACHINE else Inl not_allowed)
      else check_machines ms name debug)"

definition check_device :: "lab_info \<Rightarrow> string \<Rightarrow> identity \<Rightarrow> bool \<Rightarrow> access_error + device" where
  "check_device info name i connect_all =
     (let debug = li_debug_project info \<or> connect_all in
      case check_machines (visible_machines info i) name debug of
        Some r \<Rightarrow> r
      | None \<Rightarrow> check_switches (li_switches info) name debug)"

definition student_path :: identity where
  "student_path = \<lparr>login = ''student'', fullname = [], email = [], role_of = Student, language = ''en'', anonymous = False,
     view_of = StudentView, group = [], administrator = False\<rparr>"

definition device_open_to_students :: "lab_info \<Rightarrow> string \<Rightarrow> bool" where
  "device_open_to_students info name \<longleftrightarrow> (case check_device info name student_path False of Inl e \<Rightarrow> False | Inr d \<Rightarrow> True)"

definition display_available :: "lab_info \<Rightarrow> identity \<Rightarrow> bool" where
  "display_available info i \<longleftrightarrow> list_ex (\<lambda>m. mi_x11_host m \<and> \<not> mi_hidden m) (visible_machines info i)"

definition check_display :: "lab_info \<Rightarrow> identity \<Rightarrow> access_error + unit" where
  "check_display info i = (if display_available info i then Inr () else Inl (AccessError 404 ''no display for this project''))"

definition allowed_states :: "lab_info \<Rightarrow> identity \<Rightarrow> (string \<times> string) list" where
  "allowed_states info i =
     (if li_debug_project info \<or> instructor_view_allowed info i then li_user_allowed_states info
      else filter (\<lambda>(n, d). n \<notin> set (li_admin_only_states info)) (li_user_allowed_states info))"

definition check_state :: "lab_info \<Rightarrow> string \<Rightarrow> identity \<Rightarrow> access_error + unit" where
  "check_state info state i =
     (if state = [] \<or> state \<notin> set (keys_of (allowed_states info i)) then Inl (AccessError 403 ''state not allowed'') else Inr ())"

definition check_self_grade :: "lab_info \<Rightarrow> access_error + unit" where
  "check_self_grade info =
     (if li_allow_self_grade info then Inr () else Inl (AccessError 403 ''self-evaluation is not allowed for this lab''))"

definition check_schema_pdf :: "lab_info \<Rightarrow> access_error + unit" where
  "check_schema_pdf info =
     (if li_export_schema_pdf info then Inr () else Inl (AccessError 403 ''the schema of this lab cannot be exported to PDF''))"

text \<open>\<open>exam\<close>: \<open>None\<close> for a plain project, else whether its exam has ended.\<close>

definition check_exam_action :: "bool option \<Rightarrow> bool \<Rightarrow> bool \<Rightarrow> access_error + unit" where
  "check_exam_action exam privileged during =
     (case exam of
        None \<Rightarrow> Inr ()
      | Some over \<Rightarrow>
          if privileged then Inr ()
          else if over then Inl (AccessError 409 ''the exam is over'')
          else if during then Inl (AccessError 409 ''exam in progress'')
          else Inr ())"

section \<open>The owner of a project\<close>

lemma before_dollar_id: "s \<noteq> [] \<Longrightarrow> last s \<noteq> CHR 0x0A \<Longrightarrow> before_dollar s = s"
  by (simp add: before_dollar_def)

lemma starts3_at: "starts3 s \<Longrightarrow> CHR ''@'' \<in> set s"
  using in_set_takeD [of "CHR ''@''" 3 s] by (simp add: starts3_def sep3_def)

lemma rsplit3_no_sep: "CHR ''@'' \<notin> set s \<Longrightarrow> rsplit3 s = None"
  by (induction s) (auto dest: starts3_at)

lemma sep3_take: "take 3 (sep3 @ s) = sep3" "drop 3 (sep3 @ s) = s"
  by (simp_all add: sep3_def)

lemma rsplit3_last:
  "a \<noteq> [] \<Longrightarrow> b \<noteq> [] \<Longrightarrow> CHR ''@'' \<notin> set b \<Longrightarrow> rsplit3 (a @ sep3 @ b) = Some (a, b)"
proof (induction a)
  case (Cons x a)
  show ?case
  proof (cases "a = []")
    case False
    with Cons show ?thesis by simp
  next
    case True
    have none: "rsplit3 b = None" using Cons.prems(3) by (rule rsplit3_no_sep)
    have no: "\<not> (starts3 (c @ b) \<and> drop 3 (c @ b) \<noteq> [])" if "c = ''@'' \<or> c = ''@@'' \<or> c = []" for c
    proof -
      have "take 3 (c @ b) \<noteq> sep3"
      proof
        assume "take 3 (c @ b) = sep3"
        then have "length c < 3 \<and> (take 3 (c @ b)) ! length c = CHR ''@''" using that by (auto simp: sep3_def)
        moreover have "take 3 (c @ b) ! length c = b ! 0" using that Cons.prems(2) by (auto simp: nth_append)
        ultimately have "b ! 0 = CHR ''@''" by metis
        then show False using Cons.prems(2,3) by (cases b) auto
      qed
      then show ?thesis by (simp add: starts3_def)
    qed
    have "rsplit3 (sep3 @ b) = None"
      using none no [of "''@@''"] no [of "''@''"] no [of "[]"] by (simp add: sep3_def)
    moreover have "starts3 (sep3 @ b)" "drop 3 (sep3 @ b) = b" by (simp_all add: starts3_def sep3_def)
    ultimately show ?thesis using True Cons.prems(2) by simp
  qed
qed simp

text \<open>A running lab name gives back its three parts: for every lab name on one line, date in
  digits and user without \<open>@\<close> that \<open>get_running_lab_name\<close> accepts, the date, the lab and the owner
  read from the name are the ones it was made of, however many \<open>@\<close> the lab ends with.\<close>

theorem running_lab_name_roundtrip:
  assumes "get_running_lab_name lab date who = Inr rln" "date \<noteq> []" "list_all is_digit date" "lab \<noteq> []" "who \<noteq> []"
    and "CHR ''@'' \<notin> set who" "CHR 0x0A \<notin> set lab \<union> set who"
  shows "get_lab_name_from_running_lab_name rln = lab \<and> get_username_from_running_lab_name rln = who \<and>
    get_start_date_string_from_running_lab_name rln = date"
proof -
  have rln: "rln = date @ sep3 @ lab @ sep3 @ who" using assms(1) by (simp add: get_running_lab_name_def split: if_splits)
  have nl: "CHR 0x0A \<notin> set rln"
    using assms(3,7) by (auto simp: rln sep3_def list_all_iff is_digit_def less_eq_char_def)
  moreover have "rln \<noteq> []" using assms(2) by (simp add: rln)
  ultimately have bd: "before_dollar rln = rln" by (intro before_dollar_id) (metis last_in_set)+
  have at: "\<not> is_digit CHR ''@''" by (simp add: is_digit_def)
  have d: "takeWhile is_digit rln = date" "dropWhile is_digit rln = sep3 @ lab @ sep3 @ who"
    using assms(3) at by (simp_all add: rln list_all_iff sep3_def)
  have "rln_match rln = Some (date, lab, who)"
    using assms(2) nl rsplit3_last [OF assms(4,5,6)] by (simp add: rln_match_def bd d starts3_def sep3_take Let_def del: take_append drop_append)
  then show ?thesis
    by (simp add: get_lab_name_from_running_lab_name_def get_username_from_running_lab_name_def
        get_start_date_string_from_running_lab_name_def)
qed

theorem running_lab_name_roundtrip_witness:
  "get_username_from_running_lab_name (''20260101'' @ sep3 @ ''dns@'' @ sep3 @ ''bob'') = ''bob''"
proof -
  have "get_running_lab_name ''dns@'' ''20260101'' ''bob'' = Inr (''20260101'' @ sep3 @ ''dns@'' @ sep3 @ ''bob'')"
    by (simp add: get_running_lab_name_def sep3_def)
  from running_lab_name_roundtrip [OF this] show ?thesis by (simp add: is_digit_def)
qed

text \<open>The portal and the agent agree on whose project it is: a name without a NUL is a running
  lab name for the agent exactly when the portal finds an owner in it, and both read the same
  owner.\<close>

theorem same_owner:
  assumes "CHR 0x00 \<notin> set rln"
  shows "running_lab_name_owner rln = (case check_running_lab_name rln of Inl e \<Rightarrow> None | Inr r \<Rightarrow> Some (owner_of r))"
proof -
  have dot: "rln_match ''.'' = None" "rln_match ''..'' = None"
    by (simp_all add: rln_match_def before_dollar_def is_digit_def Let_def)
  show ?thesis
    using assms dot
    by (cases "rln_match rln")
      (auto simp: running_lab_name_owner_def check_running_lab_name_def owner_of_def get_username_from_running_lab_name_def)
qed

theorem same_owner_witness:
  "running_lab_name_owner ''1@@@a@@@bob'' = Some (owner_of ''1@@@a@@@bob'') \<and> owner_of ''1@@@a@@@bob'' = ''bob''"
  using same_owner [of "''1@@@a@@@bob''"]
  by (simp add: check_running_lab_name_def owner_of_def get_username_from_running_lab_name_def rln_match_def before_dollar_def
      is_digit_def starts3_def sep3_def)

section \<open>The devices\<close>

lemma check_machines_None: "check_machines ms name debug = None \<longleftrightarrow> name \<notin> mi_name ` set ms"
  by (induction ms) auto

lemma check_machines_distinct:
  "distinct (map mi_name ms) \<Longrightarrow> m \<in> set ms \<Longrightarrow>
   check_machines ms (mi_name m) debug = Some (if mi_allow_connection m \<or> debug then Inr DEVICE_MACHINE else Inl not_allowed)"
  by (induction ms) auto

lemma check_switches_distinct:
  "distinct (map si_name ss) \<Longrightarrow> s \<in> set ss \<Longrightarrow>
   check_switches ss (si_name s) debug = (if \<not> si_managed s then Inl (AccessError 403 ''no console'')
     else if \<not> (si_allow_connection s \<or> debug) then Inl not_allowed else Inr DEVICE_SWITCH)"
  by (induction ss) auto

lemma check_switches_unknown: "name \<notin> si_name ` set ss \<Longrightarrow> check_switches ss name debug = Inl (AccessError 404 ''unknown device'')"
  by (induction ss) auto

definition names_unique :: "lab_info \<Rightarrow> bool" where
  "names_unique info \<longleftrightarrow> distinct (map mi_name (li_machines info) @ map si_name (li_switches info))"

text \<open>What a student may open: a machine they see or a managed switch, that allows connections
  unless the project is a debug one.\<close>

definition student_may_open :: "lab_info \<Rightarrow> string \<Rightarrow> bool" where
  "student_may_open info name \<longleftrightarrow>
     (\<exists>m \<in> set (li_machines info). mi_name m = name \<and> \<not> mi_hidden m \<and> (mi_allow_connection m \<or> li_debug_project info)) \<or>
     (\<exists>s \<in> set (li_switches info). si_name s = name \<and> si_managed s \<and> (si_allow_connection s \<or> li_debug_project info))"

lemma check_device_cases:
  assumes "names_unique info"
  shows "(\<exists>d. check_device info name i all = Inr d) \<longleftrightarrow>
     (\<exists>m \<in> set (visible_machines info i). mi_name m = name \<and> (mi_allow_connection m \<or> li_debug_project info \<or> all)) \<or>
     (\<exists>s \<in> set (li_switches info). si_name s = name \<and> si_managed s \<and> (si_allow_connection s \<or> li_debug_project info \<or> all))"
proof -
  have sub: "set (visible_machines info i) \<subseteq> set (li_machines info)" by (auto simp: visible_machines_def)
  have dm: "distinct (map mi_name (visible_machines info i))"
    using assms by (simp add: names_unique_def visible_machines_def distinct_map_filter)
  have ds: "distinct (map si_name (li_switches info))" using assms by (simp add: names_unique_def)
  have apart: "mi_name m \<noteq> si_name s" if "m \<in> set (visible_machines info i)" "s \<in> set (li_switches info)" for m s
    using assms that sub by (auto simp: names_unique_def)
  show ?thesis
  proof (cases "name \<in> mi_name ` set (visible_machines info i)")
    case True
    then obtain m where m: "m \<in> set (visible_machines info i)" "mi_name m = name" by (metis imageE)
    have one: "m' = m" if "m' \<in> set (visible_machines info i)" "mi_name m' = name" for m'
      using that m dm by (metis distinct_map inj_onD)
    have "\<not> (\<exists>s \<in> set (li_switches info). si_name s = name)" using apart [OF m(1)] m(2) by metis
    then have s: "(\<exists>s \<in> set (li_switches info). si_name s = name \<and> Q s) \<longleftrightarrow> False" for Q by blast
    have v: "(\<exists>m \<in> set (visible_machines info i). mi_name m = name \<and> Q m) \<longleftrightarrow> Q m" for Q using m one by metis
    have "check_device info name i all =
        (if mi_allow_connection m \<or> li_debug_project info \<or> all then Inr DEVICE_MACHINE else Inl not_allowed)"
      using check_machines_distinct [OF dm m(1)] by (simp add: check_device_def Let_def m(2))
    then show ?thesis unfolding s v by simp
  next
    case False
    then have "check_machines (visible_machines info i) name b = None" for b by (simp add: check_machines_None)
    then have eq: "check_device info name i all = check_switches (li_switches info) name (li_debug_project info \<or> all)"
      by (simp add: check_device_def Let_def)
    show ?thesis
    proof (cases "name \<in> si_name ` set (li_switches info)")
      case True
      then obtain s where s: "s \<in> set (li_switches info)" "si_name s = name" by auto
      have one: "s' = s" if "s' \<in> set (li_switches info)" "si_name s' = name" for s'
        using that s ds by (metis distinct_map inj_onD)
      have v: "(\<exists>s \<in> set (li_switches info). si_name s = name \<and> Q s) \<longleftrightarrow> Q s" for Q using s one by metis
      have m: "(\<exists>m \<in> set (visible_machines info i). mi_name m = name \<and> Q m) \<longleftrightarrow> False" for Q using False by blast
      show ?thesis unfolding eq v m using check_switches_distinct [OF ds s(1)] s(2) by simp
    next
      case unknown: False
      with False check_switches_unknown [OF unknown] show ?thesis unfolding eq by (simp add: image_iff) metis
    qed
  qed
qed

text \<open>In a lab whose device names are unique, the terminals open to students are exactly the
  visible machines and the managed switches that allow connections (all the listed ones in a debug
  project); the probe of the agent decides as the check of every student does; and whoever opens
  one with the privileged call of an instructor gets at least those.\<close>

theorem device_rules:
  assumes "names_unique info"
  shows "(device_open_to_students info name \<longleftrightarrow> student_may_open info name) \<and>
    (role_of i \<noteq> Instructor \<longrightarrow> ((\<exists>d. check_device info name i False = Inr d) \<longleftrightarrow> student_may_open info name)) \<and>
    (student_may_open info name \<longrightarrow> (\<exists>d. check_device info name i all = Inr d))"
proof -
  have open_iff: "device_open_to_students info name \<longleftrightarrow> (\<exists>d. check_device info name student_path False = Inr d)"
    by (auto simp: device_open_to_students_def split: sum.splits)
  show ?thesis
    unfolding open_iff check_device_cases [OF assms] student_may_open_def
    by (auto simp: visible_machines_def student_path_def)
qed

definition demo_lab :: lab_info where
  "demo_lab = \<lparr>li_machines = [\<lparr>mi_name = ''pc'', mi_hidden = False, mi_allow_connection = True, mi_x11_host = False\<rparr>,
       \<lparr>mi_name = ''check'', mi_hidden = True, mi_allow_connection = True, mi_x11_host = False\<rparr>],
     li_switches = [\<lparr>si_name = ''sw'', si_managed = True, si_allow_connection = False\<rparr>], li_debug_project = False,
     li_instructor_mode = False, li_user_allowed_states = [(''start'', ''s''), (''solved'', ''t'')],
     li_admin_only_states = [''solved''], li_allow_self_grade = True, li_export_schema_pdf = True\<rparr>"

theorem device_rules_witness:
  "device_open_to_students demo_lab ''pc'' \<and> \<not> device_open_to_students demo_lab ''check'' \<and> \<not> device_open_to_students demo_lab ''sw''"
proof -
  have u: "names_unique demo_lab" by (simp add: names_unique_def demo_lab_def)
  have p: "device_open_to_students demo_lab n \<longleftrightarrow> student_may_open demo_lab n" for n
    using device_rules [OF u, of n] by blast
  show ?thesis unfolding p by (simp add: student_may_open_def demo_lab_def)
qed

text \<open>Outside debug projects a student applies a state exactly when the lab allows it to the
  users and does not keep it for the instructors.\<close>

theorem state_rules:
  assumes "\<not> li_debug_project info" "role_of i \<noteq> Instructor"
  shows "check_state info state i = Inr () \<longleftrightarrow>
    state \<noteq> [] \<and> state \<in> set (keys_of (li_user_allowed_states info)) \<and> state \<notin> set (li_admin_only_states info)"
  using assms by (auto simp: check_state_def allowed_states_def instructor_view_allowed_def keys_of_def intro: rev_image_eqI)

theorem state_rules_witness: "check_state demo_lab ''start'' student_path = Inr () \<and> check_state demo_lab ''solved'' student_path \<noteq> Inr ()"
  using state_rules [of demo_lab student_path] by (simp add: demo_lab_def student_path_def keys_of_def)

end
