(* ===== verification/Terminals.thy ===== *)
theory Terminals
  imports Pty Agent_Access
begin

text \<open>
  The shared terminals of the agent (\<open>src/sreweb/agent/terminals.py\<close>): one \<open>sre connect\<close> on a pty
  and the browsers attached to it, and what \<open>terminal_ws\<close> of \<open>src/sreweb/agent/app.py\<close> checks
  before it attaches one. A coroutine is cut at its awaits: \<open>pump_wake\<close>, \<open>pump_data\<close> and
  \<open>pump_exit\<close> are the pieces of \<open>pump\<close>, the timers and the scheduled closes are operations of
  their own. Every write on the pty takes the answer of the system (\<open>os_write\<close>).
\<close>

definition REPLAY_SIZE :: nat where "REPLAY_SIZE = 2 ^ 16"

definition CLIENT_HIGH_WATER :: nat where "CLIENT_HIGH_WATER = 2 ^ 20"

definition MAX_CLIENTS_PER_SESSION :: nat where "MAX_CLIENTS_PER_SESSION = 8"

definition MAX_READONLY_CLIENTS_PER_SESSION :: nat where "MAX_READONLY_CLIENTS_PER_SESSION = 64"

definition WS_OVERRUN :: nat where "WS_OVERRUN = 4410"

definition EARLY_INPUT_MAX :: nat where "EARLY_INPUT_MAX = 4096"

section \<open>The state\<close>

text \<open>What a browser is sent, in order: the \<open>ready\<close> frame with the size, output, a new size, the
  exit code of the child, the close of the socket.\<close>

datatype frame = FReady "int \<times> int" | FBytes octets | FSize "int \<times> int" | FExit "int option" | FClose nat

datatype pump_stage = PumpWaits | PumpSized | PumpSent | PumpDone

record client =
  tc_login :: string
  tc_cols :: int
  tc_rows :: int
  tc_buffer :: octets
  tc_wake :: bool
  tc_dropped :: bool
  tc_readonly :: bool
  tc_size_pending :: "(int \<times> int) option"
  tc_pump :: pump_stage
  tc_sent :: "frame list"

datatype session_note = ToldChanged | ToldClosed | ToldActivity

datatype release_stage = Probing | Holding | Released

record session =
  ts_device :: string
  ts_created_by :: string
  ts_private :: bool
  ts_clients :: "(nat \<times> client) list"
  ts_next_client :: nat
  ts_replay :: octets
  ts_exited :: bool
  ts_exit_code :: "int option"
  ts_closing :: bool
  ts_closed_reported :: bool
  ts_linger :: real
  ts_linger_handle :: bool
  ts_linger_until :: "real option"
  ts_started :: bool
  ts_early_input :: octets
  ts_probed :: bool
  ts_release :: release_stage
  ts_size :: "int \<times> int"
  ts_pty :: pty
  ts_close_due :: bool
  ts_notes :: "session_note list"

text \<open>\<open>__init__\<close>, then \<open>start\<close> when the child could be spawned.\<close>

definition start_session :: "string \<Rightarrow> string \<Rightarrow> bool \<Rightarrow> int \<Rightarrow> int \<Rightarrow> real \<Rightarrow> session" where
  "start_session device created_by private cols rows linger =
     \<lparr>ts_device = device, ts_created_by = created_by, ts_private = private, ts_clients = [], ts_next_client = 1,
      ts_replay = [], ts_exited = False, ts_exit_code = None, ts_closing = False, ts_closed_reported = False,
      ts_linger = max 0 linger, ts_linger_handle = False, ts_linger_until = None, ts_started = False,
      ts_early_input = [], ts_probed = False, ts_release = Probing, ts_size = (cols, rows),
      ts_pty = start_pty (new_pty cols rows), ts_close_due = False, ts_notes = []\<rparr>"

definition session_alive :: "session \<Rightarrow> bool" where
  "session_alive s \<longleftrightarrow> pt_alive (ts_pty s) \<and> \<not> ts_closing s"

definition lingering :: "session \<Rightarrow> bool" where
  "lingering s \<longleftrightarrow> ts_linger_handle s"

definition linger_left :: "real \<Rightarrow> session \<Rightarrow> int option" where
  "linger_left tm s = (case ts_linger_until s of None \<Rightarrow> None | Some u \<Rightarrow> Some (max 0 \<lfloor>u - tm\<rfloor>))"

definition visible_to :: "session \<Rightarrow> identity \<Rightarrow> bool" where
  "visible_to s i \<longleftrightarrow> \<not> ts_private s \<or> is_instructor i \<or> login i = ts_created_by s"

definition live :: "session \<Rightarrow> client list" where
  "live s = filter (\<lambda>c. \<not> tc_dropped c) (vals_of (ts_clients s))"

definition writers :: "session \<Rightarrow> client list" where
  "writers s = filter (\<lambda>c. \<not> tc_readonly c) (live s)"

definition viewers :: "session \<Rightarrow> client list" where
  "viewers s = filter tc_readonly (live s)"

definition writer_count :: "session \<Rightarrow> nat" where
  "writer_count s = length (writers s)"

definition viewer_count :: "session \<Rightarrow> nat" where
  "viewer_count s = length (viewers s)"

definition changed :: "session \<Rightarrow> session" where
  "changed s = s\<lparr>ts_notes := ts_notes s @ [ToldChanged]\<rparr>"

definition map_clients :: "(client \<Rightarrow> client) \<Rightarrow> session \<Rightarrow> session" where
  "map_clients f s = s\<lparr>ts_clients := map (\<lambda>(k, c). (k, f c)) (ts_clients s)\<rparr>"

definition put_client :: "nat \<Rightarrow> client \<Rightarrow> session \<Rightarrow> session" where
  "put_client k c s = s\<lparr>ts_clients := dset (ts_clients s) k c\<rparr>"

definition send :: "frame \<Rightarrow> client \<Rightarrow> client" where
  "send f c = c\<lparr>tc_sent := tc_sent c @ [f]\<rparr>"

section \<open>The size\<close>

definition least :: "int list \<Rightarrow> int" where
  "least xs = fold min xs (hd xs)"

definition tell_size :: "int \<times> int \<Rightarrow> client \<Rightarrow> client" where
  "tell_size z c = (if \<not> tc_dropped c \<and> tc_readonly c then c\<lparr>tc_size_pending := Some z, tc_wake := True\<rparr> else c)"

definition apply_size :: "session \<Rightarrow> session" where
  "apply_size s =
     (if writers s = [] then s
      else (let z = (least (map tc_cols (writers s)), least (map tc_rows (writers s)))
            in if z \<noteq> ts_size s
               then map_clients (tell_size z) (s\<lparr>ts_size := z, ts_pty := resize_pty (fst z) (snd z) (ts_pty s)\<rparr>)
               else s))"

definition resize_client :: "nat \<Rightarrow> int \<Rightarrow> int \<Rightarrow> session \<Rightarrow> session" where
  "resize_client k cols rows s =
     (case dget (ts_clients s) k of
        None \<Rightarrow> s
      | Some c \<Rightarrow> if tc_readonly c then s
                  else apply_size (put_client k (c\<lparr>tc_cols := cols, tc_rows := rows\<rparr>) s))"

section \<open>The life of a session\<close>

definition cancel_linger :: "session \<Rightarrow> session" where
  "cancel_linger s = s\<lparr>ts_linger_handle := False, ts_linger_until := None\<rparr>"

definition finished :: "session \<Rightarrow> session" where
  "finished s =
     (let s = cancel_linger s
      in if ts_closed_reported s then s
         else s\<lparr>ts_closed_reported := True, ts_notes := ts_notes s @ [ToldClosed]\<rparr>)"

text \<open>\<open>close\<close>: up to the wait for the child, then its end.\<close>

definition close_session :: "session \<Rightarrow> session" where
  "close_session s =
     (if ts_closing s then s
      else (let s = cancel_linger (s\<lparr>ts_closing := True\<rparr>)
            in s\<lparr>ts_release := Released, ts_pty := close_pty (ts_pty s)\<rparr>))"

definition close_ends :: "session \<Rightarrow> session" where
  "close_ends s = (if ts_closing s \<and> pt_exited (ts_pty s) then finished s else s)"

definition start_linger :: "real \<Rightarrow> session \<Rightarrow> session" where
  "start_linger tm s =
     (if ts_linger_handle s then s
      else changed (s\<lparr>ts_linger_handle := True, ts_linger_until := Some (tm + ts_linger s)\<rparr>))"

definition linger_expired :: "session \<Rightarrow> session" where
  "linger_expired s =
     (let s = s\<lparr>ts_linger_handle := False, ts_linger_until := None\<rparr>
      in if writers s = [] \<and> \<not> ts_closing s then s\<lparr>ts_close_due := True\<rparr> else s)"

section \<open>The clients\<close>

text \<open>\<open>attach\<close>, and the \<open>ready\<close> frame the caller sends in the same step.\<close>

definition new_client :: "string \<Rightarrow> int \<Rightarrow> int \<Rightarrow> bool \<Rightarrow> octets \<Rightarrow> client" where
  "new_client who cols rows readonly replay =
     \<lparr>tc_login = who, tc_cols = cols, tc_rows = rows, tc_buffer = replay, tc_wake = (replay \<noteq> []), tc_dropped = False,
      tc_readonly = readonly, tc_size_pending = None, tc_pump = PumpWaits, tc_sent = []\<rparr>"

definition attach :: "string \<Rightarrow> int \<Rightarrow> int \<Rightarrow> bool \<Rightarrow> session \<Rightarrow> nat \<times> session" where
  "attach who cols rows readonly s =
     (let k = ts_next_client s;
          s = put_client k (new_client who cols rows readonly (ts_replay s)) (s\<lparr>ts_next_client := k + 1\<rparr>);
          s = (if readonly then s else apply_size (cancel_linger s))
      in (k, changed s))"

definition ready :: "nat \<Rightarrow> session \<Rightarrow> session" where
  "ready k s = (case dget (ts_clients s) k of None \<Rightarrow> s | Some c \<Rightarrow> put_client k (send (FReady (ts_size s)) c) s)"

definition detach :: "real \<Rightarrow> nat \<Rightarrow> bool \<Rightarrow> session \<Rightarrow> session" where
  "detach tm k ended s =
     (let s = s\<lparr>ts_clients := dpop (ts_clients s) k\<rparr>
      in if writers s \<noteq> [] then changed (apply_size s)
         else if ts_closing s then s
         else if ended \<or> ts_linger s \<le> 0 then s\<lparr>ts_close_due := True\<rparr>
         else start_linger tm s)"

section \<open>The input\<close>

definition write_pty :: "octets \<Rightarrow> os_write \<Rightarrow> session \<Rightarrow> session" where
  "write_pty data ans s = s\<lparr>ts_pty := snd (pty_write data ans (ts_pty s))\<rparr>"

definition probe :: "os_write \<Rightarrow> session \<Rightarrow> session" where
  "probe ans s =
     (if \<not> ts_probed s \<and> \<not> ts_started s then write_pty [10] ans (s\<lparr>ts_probed := True\<rparr>) else s)"

text \<open>\<open>_start\<close>: the terminal has shown something, what was held goes through.\<close>

definition show_up :: "os_write \<Rightarrow> session \<Rightarrow> session" where
  "show_up ans s =
     (let s = s\<lparr>ts_started := True\<rparr>
      in if ts_early_input s \<noteq> [] then (write_pty (ts_early_input s) ans s)\<lparr>ts_early_input := []\<rparr> else s)"

definition type_in :: "octets \<Rightarrow> os_write \<Rightarrow> session \<Rightarrow> session" where
  "type_in data ans s =
     (if ts_started s then write_pty data ans s
      else probe ans
        (if length (ts_early_input s) < EARLY_INPUT_MAX
         then s\<lparr>ts_early_input := ts_early_input s @ data\<rparr> else s))"

text \<open>A frame of a browser that types; \<open>terminal_ws\<close> ignores what a read-only client sends.\<close>

definition client_types :: "nat \<Rightarrow> octets \<Rightarrow> os_write \<Rightarrow> session \<Rightarrow> session" where
  "client_types k data ans s =
     (case dget (ts_clients s) k of
        None \<Rightarrow> s
      | Some c \<Rightarrow> if tc_readonly c then s else type_in data ans s)"

text \<open>\<open>_release_early_input\<close>: the two timeouts.\<close>

definition probe_timeout :: "os_write \<Rightarrow> session \<Rightarrow> session" where
  "probe_timeout ans s =
     (if ts_release s \<noteq> Probing then s
      else if ts_started s then s\<lparr>ts_release := Released\<rparr>
      else probe ans (s\<lparr>ts_release := Holding\<rparr>))"

definition hold_timeout :: "os_write \<Rightarrow> session \<Rightarrow> session" where
  "hold_timeout ans s =
     (if ts_release s \<noteq> Holding then s
      else (let s = s\<lparr>ts_release := Released\<rparr> in if ts_started s then s else show_up ans s))"

section \<open>The output\<close>

definition update_pending :: "session \<Rightarrow> session" where
  "update_pending s =
     s\<lparr>ts_pty := output_pending (Max (insert 0 (set (map (length \<circ> tc_buffer) (writers s))))) (ts_pty s)\<rparr>"

definition drop_client :: "client \<Rightarrow> client" where
  "drop_client c = send (FClose WS_OVERRUN) (c\<lparr>tc_dropped := True, tc_buffer := [], tc_wake := True\<rparr>)"

definition feed_client :: "octets \<Rightarrow> client \<Rightarrow> client" where
  "feed_client data c =
     (if tc_dropped c then c
      else (let c = c\<lparr>tc_buffer := tc_buffer c @ data, tc_wake := True\<rparr>
            in if CLIENT_HIGH_WATER \<le> length (tc_buffer c) then drop_client c else c))"

definition overrun :: "octets \<Rightarrow> client \<Rightarrow> bool" where
  "overrun data c \<longleftrightarrow> \<not> tc_dropped c \<and> CLIENT_HIGH_WATER \<le> length (tc_buffer c @ data)"

text \<open>The probe newline echoed by the terminal (bare line ends) is not the shell showing up.\<close>

definition only_line_ends :: "octets \<Rightarrow> bool" where
  "only_line_ends data \<longleftrightarrow> list_all (\<lambda>b. b = 13 \<or> b = 10) data"

definition keep_replay :: "octets \<Rightarrow> octets" where
  "keep_replay r = (if REPLAY_SIZE < length r then drop (length r - REPLAY_SIZE) r else r)"

definition on_output :: "octets \<Rightarrow> os_write \<Rightarrow> session \<Rightarrow> session" where
  "on_output data ans s =
     (let s = (if \<not> ts_started s \<and> (\<not> ts_probed s \<or> \<not> only_line_ends data) then show_up ans s else s);
          s = s\<lparr>ts_replay := keep_replay (ts_replay s @ data)\<rparr>;
          drops = length (filter (overrun data) (vals_of (ts_clients s)));
          s = map_clients (feed_client data) s
      in update_pending (s\<lparr>ts_notes := ts_notes s @ replicate drops ToldChanged\<rparr>))"

text \<open>\<open>_on_readable\<close> and \<open>_flush_pending\<close> of the pty.\<close>

datatype os_read = ReadData octets | ReadBlocks | ReadEnds

definition on_readable :: "os_read \<Rightarrow> os_write \<Rightarrow> session \<Rightarrow> session" where
  "on_readable r ans s =
     (if \<not> pt_reading (ts_pty s) \<or> \<not> pt_master (ts_pty s) then s
      else (case r of
          ReadBlocks \<Rightarrow> s
        | ReadEnds \<Rightarrow> s\<lparr>ts_pty := stop_reading (ts_pty s)\<rparr>
        | ReadData data \<Rightarrow> on_output data ans s))"

definition on_exit :: "int option \<Rightarrow> session \<Rightarrow> session" where
  "on_exit rc s = finished (map_clients (\<lambda>c. c\<lparr>tc_wake := True\<rparr>) (s\<lparr>ts_exit_code := rc, ts_exited := True\<rparr>))"

text \<open>\<open>_wait_exit\<close>: what is left on the master is drained (\<open>chunks\<close>), then it is closed.\<close>

definition wait_exit :: "int option \<Rightarrow> octets list \<Rightarrow> os_write \<Rightarrow> session \<Rightarrow> session" where
  "wait_exit rc chunks ans s =
     (let s = s\<lparr>ts_pty := (ts_pty s)\<lparr>pt_alive := False\<rparr>\<rparr>;
          s = (if pt_master (ts_pty s) then fold (\<lambda>d. on_output d ans) chunks s else s);
          s = s\<lparr>ts_pty := (close_master (ts_pty s))\<lparr>pt_exited := True\<rparr>\<rparr>
      in on_exit rc s)"

section \<open>The sender of a client\<close>

definition pump_exit :: "nat \<Rightarrow> session \<Rightarrow> session" where
  "pump_exit k s =
     (case dget (ts_clients s) k of
        None \<Rightarrow> s
      | Some c \<Rightarrow>
          if ts_exited s \<and> tc_buffer c = []
          then put_client k ((send (FClose 1000) (send (FExit (ts_exit_code s)) c))\<lparr>tc_pump := PumpDone\<rparr>) s
          else put_client k (c\<lparr>tc_pump := PumpWaits\<rparr>) s)"

definition pump_data :: "nat \<Rightarrow> session \<Rightarrow> session" where
  "pump_data k s =
     (case dget (ts_clients s) k of
        None \<Rightarrow> s
      | Some c \<Rightarrow>
          if tc_buffer c = [] then pump_exit k s
          else (let s = put_client k ((send (FBytes (tc_buffer c)) c)\<lparr>tc_buffer := [], tc_pump := PumpSent\<rparr>) s;
                    s = update_pending s
                in s\<lparr>ts_notes := ts_notes s @ [ToldActivity]\<rparr>))"

definition pump_wake :: "nat \<Rightarrow> session \<Rightarrow> session" where
  "pump_wake k s =
     (case dget (ts_clients s) k of
        None \<Rightarrow> s
      | Some c \<Rightarrow>
          if tc_pump c \<noteq> PumpWaits \<or> \<not> tc_wake c then s
          else if tc_dropped c then put_client k (c\<lparr>tc_wake := False, tc_pump := PumpDone\<rparr>) s
          else (case tc_size_pending c of
              Some z \<Rightarrow> put_client k ((send (FSize z) c)\<lparr>tc_wake := False, tc_size_pending := None, tc_pump := PumpSized\<rparr>) s
            | None \<Rightarrow> pump_data k (put_client k (c\<lparr>tc_wake := False\<rparr>) s)))"

text \<open>An await of the sender returns: it goes on where it was.\<close>

definition pump_next :: "nat \<Rightarrow> session \<Rightarrow> session" where
  "pump_next k s =
     (case dget (ts_clients s) k of
        None \<Rightarrow> s
      | Some c \<Rightarrow> (case tc_pump c of PumpSized \<Rightarrow> pump_data k s | PumpSent \<Rightarrow> pump_exit k s | _ \<Rightarrow> s))"

text \<open>The send failed: the task ends with the exception.\<close>

definition pump_fails :: "nat \<Rightarrow> session \<Rightarrow> session" where
  "pump_fails k s =
     (case dget (ts_clients s) k of
        None \<Rightarrow> s
      | Some c \<Rightarrow> if tc_pump c = PumpSent then put_client k (c\<lparr>tc_pump := PumpDone\<rparr>) s else s)"

end
