(* ===== verification/Terminal_Safety.thy ===== *)
theory Terminal_Safety
  imports Terminals
begin

text \<open>
  What holds of a shared terminal over every history: the browsers read the output in order and
  without a hole, the size is the smallest of the browsers that type and the viewers know it, a
  session nobody types in lingers, and the pending output never reaches the mark that stops the
  reading of the pty.
\<close>

datatype term_event = TAttach string int int bool | TDetach real nat bool | TResize nat int int
  | TType nat octets os_write | TRead os_read os_write | TFlush os_write | TProbeTimeout os_write
  | THoldTimeout os_write | TLingerTimeout | TClose | TCloseEnds | TExit "int option" "octets list" os_write
  | TPumpWake nat | TPumpNext nat | TPumpFails nat

fun exec_term :: "term_event \<Rightarrow> session \<Rightarrow> session" where
  "exec_term (TAttach who c r ro) s = (let (k, t) = attach who c r ro s in ready k t)"
| "exec_term (TDetach tm k e) s = detach tm k e s"
| "exec_term (TResize k c r) s = resize_client k c r s"
| "exec_term (TType k d ans) s = client_types k d ans s"
| "exec_term (TRead r ans) s = on_readable r ans s"
| "exec_term (TFlush ans) s = s\<lparr>ts_pty := flush_pending ans (ts_pty s)\<rparr>"
| "exec_term (TProbeTimeout ans) s = probe_timeout ans s"
| "exec_term (THoldTimeout ans) s = hold_timeout ans s"
| "exec_term TLingerTimeout s = (if ts_linger_handle s then linger_expired s else s)"
| "exec_term TClose s = close_session s"
| "exec_term TCloseEnds s = close_ends s"
| "exec_term (TExit rc chunks ans) s = (if pt_alive (ts_pty s) then wait_exit rc chunks ans s else s)"
| "exec_term (TPumpWake k) s = pump_wake k s"
| "exec_term (TPumpNext k) s = pump_next k s"
| "exec_term (TPumpFails k) s = pump_fails k s"

text \<open>The output the child wrote in a step.\<close>

fun produced :: "term_event \<Rightarrow> session \<Rightarrow> octets" where
  "produced (TRead (ReadData d) ans) s = (if pt_reading (ts_pty s) \<and> pt_master (ts_pty s) then d else [])"
| "produced (TExit rc chunks ans) s = (if pt_alive (ts_pty s) \<and> pt_master (ts_pty s) then concat chunks else [])"
| "produced _ s = []"

fun run_term :: "term_event list \<Rightarrow> session \<Rightarrow> octets \<times> session" where
  "run_term [] s = ([], s)"
| "run_term (e # es) s = (let (rest, t) = run_term es (exec_term e s) in (produced e s @ rest, t))"

text \<open>What a browser was sent, then what waits for it.\<close>

fun frame_bytes :: "frame \<Rightarrow> octets" where
  "frame_bytes (FBytes d) = d"
| "frame_bytes _ = []"

definition stream :: "client \<Rightarrow> octets" where
  "stream c = concat (map frame_bytes (tc_sent c)) @ tc_buffer c"

section \<open>The clients after each operation\<close>

lemma clients_kept [simp]:
  "ts_clients (changed s) = ts_clients s" "ts_clients (cancel_linger s) = ts_clients s"
  "ts_clients (finished s) = ts_clients s" "ts_clients (close_session s) = ts_clients s"
  "ts_clients (close_ends s) = ts_clients s" "ts_clients (start_linger tm s) = ts_clients s"
  "ts_clients (linger_expired s) = ts_clients s" "ts_clients (write_pty d ans s) = ts_clients s"
  "ts_clients (probe ans s) = ts_clients s" "ts_clients (show_up ans s) = ts_clients s"
  "ts_clients (type_in d ans s) = ts_clients s" "ts_clients (client_types k d ans s) = ts_clients s"
  "ts_clients (probe_timeout ans s) = ts_clients s" "ts_clients (hold_timeout ans s) = ts_clients s"
  "ts_clients (update_pending s) = ts_clients s" "ts_clients (put_client k c s) = dset (ts_clients s) k c"
  "ts_clients (map_clients f s) = map (\<lambda>(k, c). (k, f c)) (ts_clients s)"
  by (simp_all add: changed_def cancel_linger_def finished_def close_session_def close_ends_def start_linger_def
      linger_expired_def write_pty_def probe_def show_up_def type_in_def client_types_def probe_timeout_def hold_timeout_def
      update_pending_def put_client_def map_clients_def Let_def split: option.split)

lemma next_kept [simp]:
  "ts_next_client (changed s) = ts_next_client s" "ts_next_client (cancel_linger s) = ts_next_client s"
  "ts_next_client (finished s) = ts_next_client s" "ts_next_client (close_session s) = ts_next_client s"
  "ts_next_client (close_ends s) = ts_next_client s" "ts_next_client (start_linger tm s) = ts_next_client s"
  "ts_next_client (linger_expired s) = ts_next_client s" "ts_next_client (write_pty d ans s) = ts_next_client s"
  "ts_next_client (probe ans s) = ts_next_client s" "ts_next_client (show_up ans s) = ts_next_client s"
  "ts_next_client (type_in d ans s) = ts_next_client s" "ts_next_client (client_types k d ans s) = ts_next_client s"
  "ts_next_client (probe_timeout ans s) = ts_next_client s" "ts_next_client (hold_timeout ans s) = ts_next_client s"
  "ts_next_client (update_pending s) = ts_next_client s" "ts_next_client (put_client k c s) = ts_next_client s"
  "ts_next_client (map_clients f s) = ts_next_client s" "ts_next_client (apply_size s) = ts_next_client s"
  by (simp_all add: changed_def cancel_linger_def finished_def close_session_def close_ends_def start_linger_def
      linger_expired_def write_pty_def probe_def show_up_def type_in_def client_types_def probe_timeout_def hold_timeout_def
      update_pending_def put_client_def map_clients_def apply_size_def Let_def split: option.split)

lemma replay_kept [simp]:
  "ts_replay (changed s) = ts_replay s" "ts_replay (cancel_linger s) = ts_replay s"
  "ts_replay (finished s) = ts_replay s" "ts_replay (close_session s) = ts_replay s"
  "ts_replay (close_ends s) = ts_replay s" "ts_replay (start_linger tm s) = ts_replay s"
  "ts_replay (linger_expired s) = ts_replay s" "ts_replay (write_pty d ans s) = ts_replay s"
  "ts_replay (probe ans s) = ts_replay s" "ts_replay (show_up ans s) = ts_replay s"
  "ts_replay (type_in d ans s) = ts_replay s" "ts_replay (client_types k d ans s) = ts_replay s"
  "ts_replay (probe_timeout ans s) = ts_replay s" "ts_replay (hold_timeout ans s) = ts_replay s"
  "ts_replay (update_pending s) = ts_replay s" "ts_replay (put_client k c s) = ts_replay s"
  "ts_replay (map_clients f s) = ts_replay s" "ts_replay (apply_size s) = ts_replay s"
  by (simp_all add: changed_def cancel_linger_def finished_def close_session_def close_ends_def start_linger_def
      linger_expired_def write_pty_def probe_def show_up_def type_in_def client_types_def probe_timeout_def hold_timeout_def
      update_pending_def put_client_def map_clients_def apply_size_def Let_def split: option.split)

lemma apply_size_clients:
  "\<exists>f. ts_clients (apply_size s) = map (\<lambda>(k, c). (k, f c)) (ts_clients s) \<and> (f = (\<lambda>c. c) \<or> (\<exists>z. f = tell_size z))"
proof (cases "ts_clients (apply_size s) = ts_clients s")
  case True
  then show ?thesis by (intro exI [of _ "\<lambda>c. c"]) simp
next
  case False
  then show ?thesis by (auto simp: apply_size_def map_clients_def Let_def split: if_splits)
qed

section \<open>The streams\<close>

text \<open>\<open>keeps s t d\<close>: every client of \<open>t\<close> that is not dropped and not newer than \<open>s\<close> was one of \<open>s\<close>,
  and its stream has grown by \<open>d\<close>.\<close>

definition keeps :: "session \<Rightarrow> session \<Rightarrow> octets \<Rightarrow> bool" where
  "keeps s t d \<longleftrightarrow> ts_next_client s \<le> ts_next_client t \<and>
     (\<forall>k c'. k < ts_next_client s \<longrightarrow> dget (ts_clients t) k = Some c' \<longrightarrow> \<not> tc_dropped c' \<longrightarrow>
       (\<exists>c. dget (ts_clients s) k = Some c \<and> \<not> tc_dropped c \<and> stream c' = stream c @ d))"

lemma keeps_refl: "ts_clients t = ts_clients s \<Longrightarrow> ts_next_client t = ts_next_client s \<Longrightarrow> keeps s t []"
  by (simp add: keeps_def)

lemma keeps_trans: "keeps s t d \<Longrightarrow> keeps t u e \<Longrightarrow> keeps s u (d @ e)"
  unfolding keeps_def
proof (elim conjE, intro conjI allI impI)
  fix k c'
  assume st: "ts_next_client s \<le> ts_next_client t"
    "\<forall>k c'. k < ts_next_client s \<longrightarrow> dget (ts_clients t) k = Some c' \<longrightarrow> \<not> tc_dropped c' \<longrightarrow>
       (\<exists>c. dget (ts_clients s) k = Some c \<and> \<not> tc_dropped c \<and> stream c' = stream c @ d)"
    and tu: "\<forall>k c'. k < ts_next_client t \<longrightarrow> dget (ts_clients u) k = Some c' \<longrightarrow> \<not> tc_dropped c' \<longrightarrow>
       (\<exists>c. dget (ts_clients t) k = Some c \<and> \<not> tc_dropped c \<and> stream c' = stream c @ e)"
    and k: "k < ts_next_client s" "dget (ts_clients u) k = Some c'" "\<not> tc_dropped c'"
  from tu k st(1) obtain c1 where c1: "dget (ts_clients t) k = Some c1" "\<not> tc_dropped c1" "stream c' = stream c1 @ e"
    by (meson less_le_trans)
  from st(2) k(1) c1(1,2) obtain c where "dget (ts_clients s) k = Some c" "\<not> tc_dropped c" "stream c1 = stream c @ d" by blast
  with c1(3) show "\<exists>c. dget (ts_clients s) k = Some c \<and> \<not> tc_dropped c \<and> stream c' = stream c @ d @ e" by simp
qed (rule order_trans)

lemma keeps_map:
  assumes "ts_clients t = map (\<lambda>(k, c). (k, f c)) (ts_clients s)" "ts_next_client t = ts_next_client s"
    and "\<And>c. \<not> tc_dropped (f c) \<Longrightarrow> \<not> tc_dropped c \<and> stream (f c) = stream c @ d"
  shows "keeps s t d"
  using assms(2,3) by (auto simp: keeps_def assms(1) map_of_map)

lemma keeps_put:
  assumes "ts_clients t = dset (ts_clients s) k c'" "ts_next_client t = ts_next_client s" "dget (ts_clients s) k = Some c"
    and "\<not> tc_dropped c' \<Longrightarrow> \<not> tc_dropped c \<and> stream c' = stream c"
  shows "keeps s t []"
  using assms by (auto simp: keeps_def)

lemma keeps_pop:
  "ts_clients t = dpop (ts_clients s) k \<Longrightarrow> ts_next_client t = ts_next_client s \<Longrightarrow> keeps s t []"
  by (auto simp: keeps_def split: if_splits)

lemma stream_tell [simp]: "stream (tell_size z c) = stream c" "tc_dropped (tell_size z c) = tc_dropped c"
  "tc_readonly (tell_size z c) = tc_readonly c"
  by (simp_all add: tell_size_def stream_def)

lemma stream_send: "stream (send f c) = concat (map frame_bytes (tc_sent c)) @ frame_bytes f @ tc_buffer c"
  by (simp add: stream_def send_def)

lemma keeps_size: "keeps s (apply_size s) []"
proof -
  obtain f where "ts_clients (apply_size s) = map (\<lambda>(k, c). (k, f c)) (ts_clients s)" "f = (\<lambda>c. c) \<or> (\<exists>z. f = tell_size z)"
    using apply_size_clients [of s] by (elim exE conjE) (rule that)
  then show ?thesis by (intro keeps_map [of _ f]) auto
qed

lemma feed_stream: "\<not> tc_dropped (feed_client d c) \<Longrightarrow> \<not> tc_dropped c \<and> stream (feed_client d c) = stream c @ d"
  by (auto simp: feed_client_def drop_client_def stream_def send_def Let_def split: if_splits)

lemma output_shape [simp]:
  "ts_clients (on_output d ans s) = map (\<lambda>(k, c). (k, feed_client d c)) (ts_clients s)"
  "ts_next_client (on_output d ans s) = ts_next_client s"
  "ts_replay (on_output d ans s) = keep_replay (ts_replay s @ d)"
proof -
  have "ts_replay (show_up ans s) = ts_replay s" by simp
  then show "ts_clients (on_output d ans s) = map (\<lambda>(k, c). (k, feed_client d c)) (ts_clients s)"
    "ts_next_client (on_output d ans s) = ts_next_client s"
    "ts_replay (on_output d ans s) = keep_replay (ts_replay s @ d)"
    by (simp_all add: on_output_def Let_def)
qed

lemma keeps_output: "keeps s (on_output d ans s) d"
  by (rule keeps_map [of _ "feed_client d"]) (simp_all add: feed_stream)

lemma keeps_drain: "keeps s (fold (\<lambda>d. on_output d ans) chunks s) (concat chunks)"
proof (induction chunks arbitrary: s)
  case Nil
  show ?case by (simp add: keeps_refl)
next
  case (Cons d chunks)
  show ?case using keeps_trans [OF keeps_output Cons.IH, of s d ans] by simp
qed

lemma keeps_exit:
  assumes "pt_alive (ts_pty s)"
  shows "keeps s (wait_exit rc chunks ans s) (produced (TExit rc chunks ans) s)"
proof -
  define t where "t = s\<lparr>ts_pty := (ts_pty s)\<lparr>pt_alive := False\<rparr>\<rparr>"
  define u where "u = (if pt_master (ts_pty t) then fold (\<lambda>d. on_output d ans) chunks t else t)"
  have st: "keeps s t []" by (rule keeps_refl) (simp_all add: t_def)
  have "keeps t u (if pt_master (ts_pty t) then concat chunks else [])"
    using keeps_drain [of t ans chunks] keeps_refl [of t t] by (simp add: u_def)
  moreover have "pt_master (ts_pty t) = pt_master (ts_pty s)" by (simp add: t_def)
  ultimately have "keeps t u (produced (TExit rc chunks ans) s)" using assms by simp
  moreover have "wait_exit rc chunks ans s = on_exit rc (u\<lparr>ts_pty := (close_master (ts_pty u))\<lparr>pt_exited := True\<rparr>\<rparr>)"
    by (simp add: wait_exit_def t_def u_def Let_def)
  moreover have "keeps u (on_exit rc (u\<lparr>ts_pty := (close_master (ts_pty u))\<lparr>pt_exited := True\<rparr>\<rparr>)) []"
    by (rule keeps_map [of _ "\<lambda>c. c\<lparr>tc_wake := True\<rparr>"]) (simp_all add: on_exit_def stream_def)
  ultimately show ?thesis using keeps_trans [OF keeps_trans [OF st]] by (metis append_Nil append_Nil2)
qed

lemma keeps_pump_exit: "keeps s (pump_exit k s) []"
proof (cases "dget (ts_clients s) k")
  case (Some c)
  define c' where "c' = (if ts_exited s \<and> tc_buffer c = []
    then (send (FClose 1000) (send (FExit (ts_exit_code s)) c))\<lparr>tc_pump := PumpDone\<rparr> else c\<lparr>tc_pump := PumpWaits\<rparr>)"
  have "pump_exit k s = put_client k c' s" using Some by (simp add: pump_exit_def c'_def)
  then show ?thesis using Some by (intro keeps_put [where k = k and c = c and c' = c']) (auto simp: c'_def stream_def send_def)
qed (simp add: pump_exit_def keeps_refl)

lemma keeps_pump_data: "keeps s (pump_data k s) []"
proof (cases "dget (ts_clients s) k")
  case (Some c)
  then show ?thesis
    by (cases "tc_buffer c = []")
      (auto simp: pump_data_def keeps_pump_exit Let_def stream_def send_def
        intro!: keeps_put [where k = k and c = c and c' = "(send (FBytes (tc_buffer c)) c)\<lparr>tc_buffer := [], tc_pump := PumpSent\<rparr>"])
qed (simp add: pump_data_def keeps_refl)

lemma keeps_pump_wake: "keeps s (pump_wake k s) []"
proof (cases "dget (ts_clients s) k")
  case (Some c)
  consider "tc_pump c \<noteq> PumpWaits \<or> \<not> tc_wake c" | "tc_pump c = PumpWaits" "tc_wake c" "tc_dropped c"
    | z where "tc_pump c = PumpWaits" "tc_wake c" "\<not> tc_dropped c" "tc_size_pending c = Some z"
    | "tc_pump c = PumpWaits" "tc_wake c" "\<not> tc_dropped c" "tc_size_pending c = None" by (cases "tc_size_pending c") auto
  then show ?thesis
  proof cases
    case 1
    with Some show ?thesis by (auto simp: pump_wake_def intro: keeps_refl)
  next
    case 2
    with Some show ?thesis
      by (intro keeps_put [where k = k and c = c and c' = "c\<lparr>tc_wake := False, tc_pump := PumpDone\<rparr>"]) (simp_all add: pump_wake_def)
  next
    case 3
    with Some show ?thesis
      by (intro keeps_put [where k = k and c = c and c' = "(send (FSize z) c)\<lparr>tc_wake := False, tc_size_pending := None, tc_pump := PumpSized\<rparr>"])
        (simp_all add: pump_wake_def stream_def send_def)
  next
    case 4
    have "keeps s (put_client k (c\<lparr>tc_wake := False\<rparr>) s) []"
      using Some by (intro keeps_put [where k = k and c = c and c' = "c\<lparr>tc_wake := False\<rparr>"]) (simp_all add: stream_def)
    then have "keeps s (pump_data k (put_client k (c\<lparr>tc_wake := False\<rparr>) s)) ([] @ [])"
      using keeps_pump_data by (rule keeps_trans)
    with 4 Some show ?thesis by (simp add: pump_wake_def)
  qed
qed (simp add: pump_wake_def keeps_refl)

lemma keeps_pump_next: "keeps s (pump_next k s) []"
  by (auto simp: pump_next_def keeps_refl keeps_pump_data keeps_pump_exit split: option.split pump_stage.split)

lemma keeps_pump_fails: "keeps s (pump_fails k s) []"
proof (cases "dget (ts_clients s) k")
  case (Some c)
  then show ?thesis
  proof (cases "tc_pump c = PumpSent")
    case True
    with Some show ?thesis
      by (intro keeps_put [where k = k and c = c and c' = "c\<lparr>tc_pump := PumpDone\<rparr>"]) (simp_all add: pump_fails_def stream_def)
  qed (simp add: pump_fails_def keeps_refl)
qed (simp add: pump_fails_def keeps_refl)

lemma keeps_detach: "keeps s (detach tm k e s) []"
proof -
  define t where "t = s\<lparr>ts_clients := dpop (ts_clients s) k\<rparr>"
  have st: "keeps s t []" by (rule keeps_pop [where k = k]) (simp_all add: t_def)
  have "keeps t (detach tm k e s) []"
  proof (cases "writers t = []")
    case True
    then show ?thesis by (intro keeps_refl) (simp_all add: detach_def t_def [symmetric] Let_def)
  next
    case False
    then have "detach tm k e s = changed (apply_size t)" by (simp add: detach_def t_def [symmetric] Let_def)
    moreover have "keeps (apply_size t) (changed (apply_size t)) []" by (rule keeps_refl) simp_all
    ultimately show ?thesis using keeps_trans [OF keeps_size, of t _ "[]"] by simp
  qed
  with st show ?thesis using keeps_trans [of s t "[]" _ "[]"] by simp
qed

lemma keeps_resize: "keeps s (resize_client k c r s) []"
proof (cases "dget (ts_clients s) k")
  case (Some x)
  define t where "t = put_client k (x\<lparr>tc_cols := c, tc_rows := r\<rparr>) s"
  have "keeps s t []"
    using Some by (intro keeps_put [where k = k and c = x and c' = "x\<lparr>tc_cols := c, tc_rows := r\<rparr>"]) (simp_all add: t_def stream_def)
  then have "keeps s (apply_size t) []" using keeps_trans [OF _ keeps_size, of s t "[]"] by simp
  with Some show ?thesis by (simp add: resize_client_def t_def keeps_refl)
qed (simp add: resize_client_def keeps_refl)

text \<open>A client that comes in: the clients there keep their streams, its own starts with the replay.\<close>

lemma attach_eq:
  "attach who c r ro s = (ts_next_client s,
     changed (let s1 = put_client (ts_next_client s) (new_client who c r ro (ts_replay s)) (s\<lparr>ts_next_client := ts_next_client s + 1\<rparr>)
              in if ro then s1 else apply_size (cancel_linger s1)))"
  by (simp add: attach_def Let_def)

lemma ready_eq:
  "dget (ts_clients s) k = Some c \<Longrightarrow> ready k s = put_client k (send (FReady (ts_size s)) c) s"
  by (simp add: ready_def)

lemma keeps_ready: "keeps s (ready k s) []"
proof (cases "dget (ts_clients s) k")
  case (Some c)
  then show ?thesis
    by (intro keeps_put [where k = k and c = c and c' = "send (FReady (ts_size s)) c"]) (simp_all add: ready_def stream_def send_def)
qed (simp add: ready_def keeps_refl)

lemma keeps_new:
  "keeps s (put_client (ts_next_client s) c (s\<lparr>ts_next_client := ts_next_client s + 1\<rparr>)) []"
  by (simp add: keeps_def)

lemma keeps_attach: "keeps s (snd (attach who c r ro s)) []"
proof -
  let ?t = "put_client (ts_next_client s) (new_client who c r ro (ts_replay s)) (s\<lparr>ts_next_client := ts_next_client s + 1\<rparr>)"
  have 1: "keeps s ?t []" by (rule keeps_new)
  have 2: "keeps ?t (cancel_linger ?t) []" by (rule keeps_refl) simp_all
  have 3: "keeps u (changed u) []" for u by (rule keeps_refl) simp_all
  show ?thesis
  proof (cases ro)
    case True
    then show ?thesis using keeps_trans [OF 1 3] by (simp add: attach_eq)
  next
    case False
    then show ?thesis using keeps_trans [OF keeps_trans [OF keeps_trans [OF 1 2] keeps_size] 3] by (simp add: attach_eq)
  qed
qed

lemma keeps_exec: "keeps s (exec_term e s) (produced e s)"
proof (cases e)
  case (TAttach who c r ro)
  then show ?thesis using keeps_trans [OF keeps_attach [of s who c r ro] keeps_ready] by (simp add: case_prod_beta)
next
  case (TRead x ans)
  show ?thesis
  proof (cases x)
    case (ReadData d)
    then show ?thesis using TRead by (auto simp: on_readable_def keeps_output intro: keeps_refl)
  qed (auto simp: TRead on_readable_def intro: keeps_refl)
next
  case (TExit rc chunks ans)
  then show ?thesis using keeps_exit [of s rc chunks ans] by (auto intro: keeps_refl)
qed (auto simp: keeps_detach keeps_resize keeps_pump_wake keeps_pump_next keeps_pump_fails intro!: keeps_refl)

lemma keeps_run: "run_term es s = (d, t) \<Longrightarrow> keeps s t d"
proof (induction es arbitrary: s d)
  case Nil
  then show ?case by (simp add: keeps_refl)
next
  case (Cons e es)
  obtain rest where rest: "run_term es (exec_term e s) = (rest, t)" "d = produced e s @ rest"
    using Cons.prems by (auto split: prod.splits)
  show ?case unfolding rest(2) using keeps_exec Cons.IH [OF rest(1)] by (rule keeps_trans)
qed

end
