(* ===== verification/Terminal_Histories.thy ===== *)
theory Terminal_Histories
  imports Terminal_Safety
begin

text \<open>
  The invariant of a shared terminal, kept by every operation, and what it gives the browsers.
\<close>

section \<open>The invariant\<close>

text \<open>The size last told to a browser.\<close>

fun frame_size :: "frame \<Rightarrow> (int \<times> int) option" where
  "frame_size (FReady z) = Some z"
| "frame_size (FSize z) = Some z"
| "frame_size _ = None"

fun last_size :: "frame list \<Rightarrow> (int \<times> int) option" where
  "last_size [] = None"
| "last_size (f # fs) = (case last_size fs of Some z \<Rightarrow> Some z | None \<Rightarrow> frame_size f)"

definition told_size :: "client \<Rightarrow> (int \<times> int) option" where
  "told_size c = (case tc_size_pending c of Some z \<Rightarrow> Some z | None \<Rightarrow> last_size (tc_sent c))"

definition told_ok :: "int \<times> int \<Rightarrow> client \<Rightarrow> bool" where
  "told_ok z c \<longleftrightarrow> (tc_readonly c \<and> \<not> tc_dropped c \<longrightarrow> told_size c = Some z)"

definition buffer_ok :: "client \<Rightarrow> bool" where
  "buffer_ok c \<longleftrightarrow> length (tc_buffer c) < CLIENT_HIGH_WATER \<and> (tc_dropped c \<longrightarrow> tc_buffer c = [])"

definition smallest :: "session \<Rightarrow> int \<times> int" where
  "smallest s = (Min (set (map tc_cols (writers s))), Min (set (map tc_rows (writers s))))"

text \<open>The size is the smallest of the browsers that type; a browser dropped for its slowness counts
  until its socket is gone.\<close>

definition size_ok :: "session \<Rightarrow> bool" where
  "size_ok s \<longleftrightarrow> (\<forall>c \<in> set (vals_of (ts_clients s)). \<not> tc_readonly c \<longrightarrow> \<not> tc_dropped c) \<longrightarrow> writers s \<noteq> [] \<longrightarrow>
     ts_size s = smallest s"

definition linger_ok :: "session \<Rightarrow> bool" where
  "linger_ok s \<longleftrightarrow> (ts_linger_handle s \<longrightarrow> writers s = [] \<and> \<not> ts_closing s) \<and>
     (ts_linger_until s \<noteq> None \<longleftrightarrow> ts_linger_handle s)"

definition clients_ok :: "session \<Rightarrow> bool" where
  "clients_ok s \<longleftrightarrow> dict_ok (ts_clients s) \<and> (\<forall>k \<in> set (keys_of (ts_clients s)). k < ts_next_client s) \<and>
     (\<forall>c \<in> set (vals_of (ts_clients s)). buffer_ok c \<and> told_ok (ts_size s) c)"

definition session_ok :: "octets \<Rightarrow> session \<Rightarrow> bool" where
  "session_ok h s \<longleftrightarrow> clients_ok s \<and> ts_replay s = drop (length h - REPLAY_SIZE) h \<and> size_ok s \<and> linger_ok s \<and>
     pt_pending_out (ts_pty s) < OUTPUT_HIGH_WATER"

lemmas session_defs = session_ok_def clients_ok_def size_ok_def linger_ok_def

section \<open>Writers and sizes\<close>

lemma writers_set: "set (writers s) = {c \<in> set (vals_of (ts_clients s)). \<not> tc_dropped c \<and> \<not> tc_readonly c}"
  by (auto simp: writers_def live_def)

lemma writers_cong: "ts_clients s = ts_clients t \<Longrightarrow> writers s = writers t"
  by (simp add: writers_def live_def)

lemma least_Min: "xs \<noteq> [] \<Longrightarrow> least xs = Min (set xs)"
proof (cases xs)
  case (Cons y ys)
  then show ?thesis by (simp add: least_def Min.set_eq_fold [symmetric])
qed simp

lemma apply_size_eq:
  "writers s \<noteq> [] \<Longrightarrow> apply_size s =
     (if smallest s \<noteq> ts_size s
      then map_clients (tell_size (smallest s))
             (s\<lparr>ts_size := smallest s, ts_pty := resize_pty (fst (smallest s)) (snd (smallest s)) (ts_pty s)\<rparr>)
      else s)"
  by (simp add: apply_size_def smallest_def least_Min Let_def)

lemma vals_map: "vals_of (map (\<lambda>(k, c). (k, f c)) d) = map f (vals_of d)"
  by (induction d) (auto simp: vals_of_def)

lemma keys_map: "keys_of (map (\<lambda>(k, c). (k, f c)) d) = keys_of d"
  by (induction d) (auto simp: keys_of_def)

lemma dict_ok_keys: "dict_ok d = distinct (keys_of d)"
  by (simp add: dict_ok_def keys_of_def)

lemma tell_size_fields [simp]:
  "tc_cols (tell_size z c) = tc_cols c" "tc_rows (tell_size z c) = tc_rows c" "tc_buffer (tell_size z c) = tc_buffer c"
  "\<not> tc_readonly c \<Longrightarrow> tell_size z c = c"
  by (simp_all add: tell_size_def)

lemma writers_told: "writers (map_clients (tell_size z) s) = writers s"
proof -
  have "filter (\<lambda>c. \<not> tc_readonly c) (filter (\<lambda>c. \<not> tc_dropped c) (map (tell_size z) xs)) =
      filter (\<lambda>c. \<not> tc_readonly c) (filter (\<lambda>c. \<not> tc_dropped c) xs)" for xs
    by (induction xs) auto
  then show ?thesis by (simp add: writers_def live_def vals_map)
qed

lemma writers_apply [simp]: "writers (apply_size s) = writers s"
  by (simp add: apply_size_def Let_def writers_told writers_cong [of "s\<lparr>ts_size := a, ts_pty := b\<rparr>" s for a b])

lemma smallest_cong: "writers s = writers t \<Longrightarrow> smallest s = smallest t"
  by (simp add: smallest_def)

lemma apply_size_ok: "size_ok (apply_size s)"
proof (cases "writers s = []")
  case True
  then show ?thesis by (simp add: size_ok_def)
next
  case False
  have "smallest (apply_size s) = smallest s" by (rule smallest_cong) simp
  then show ?thesis using False by (simp add: size_ok_def apply_size_eq) (simp add: map_clients_def)
qed

lemma tell_told_ok: "told_ok z (tell_size z c)"
  by (simp add: told_ok_def tell_size_def told_size_def)

lemma tell_buffer_ok [simp]: "buffer_ok (tell_size z c) = buffer_ok c"
  by (simp add: buffer_ok_def)

lemma apply_size_clients_ok: "clients_ok s \<Longrightarrow> clients_ok (apply_size s)"
proof (cases "writers s = [] \<or> smallest s = ts_size s")
  case True
  moreover assume "clients_ok s"
  ultimately show ?thesis using apply_size_eq [of s] by (cases "writers s = []") (auto simp: apply_size_def)
next
  case False
  moreover assume "clients_ok s"
  ultimately show ?thesis
    by (simp add: apply_size_eq clients_ok_def dict_ok_keys keys_map vals_map)
      (simp add: map_clients_def tell_told_ok)
qed

lemma apply_size_kept [simp]:
  "ts_linger_handle (apply_size s) = ts_linger_handle s" "ts_linger_until (apply_size s) = ts_linger_until s"
  "ts_closing (apply_size s) = ts_closing s" "pt_pending_out (ts_pty (apply_size s)) = pt_pending_out (ts_pty s)"
  "ts_linger (apply_size s) = ts_linger s" "ts_close_due (apply_size s) = ts_close_due s"
  by (simp_all add: apply_size_def map_clients_def resize_pty_def Let_def)

lemma apply_size_session:
  assumes "clients_ok s" "ts_replay s = drop (length h - REPLAY_SIZE) h" "linger_ok s"
    "pt_pending_out (ts_pty s) < OUTPUT_HIGH_WATER"
  shows "session_ok h (apply_size s)"
  using assms by (simp add: session_ok_def apply_size_clients_ok apply_size_ok) (simp add: linger_ok_def)

section \<open>Operations that leave the clients alone\<close>

lemma write_pending_out [simp]: "pt_pending_out (snd (pty_write d ans p)) = pt_pending_out p"
  using write_cases [of d ans p] by auto

definition calm :: "session \<Rightarrow> session \<Rightarrow> bool" where
  "calm s t \<longleftrightarrow> ts_clients t = ts_clients s \<and> ts_next_client t = ts_next_client s \<and> ts_replay t = ts_replay s \<and>
     ts_size t = ts_size s \<and> ts_linger_handle t = ts_linger_handle s \<and> ts_linger_until t = ts_linger_until s \<and>
     ts_closing t = ts_closing s \<and> pt_pending_out (ts_pty t) = pt_pending_out (ts_pty s) \<and>
     pt_closed (ts_pty t) = pt_closed (ts_pty s) \<and> pt_master (ts_pty t) = pt_master (ts_pty s) \<and>
     pt_reading (ts_pty t) = pt_reading (ts_pty s) \<and> pt_alive (ts_pty t) = pt_alive (ts_pty s)"

lemma write_fields [simp]:
  "pt_closed (snd (pty_write d ans p)) = pt_closed p" "pt_master (snd (pty_write d ans p)) = pt_master p"
  "pt_reading (snd (pty_write d ans p)) = pt_reading p" "pt_alive (snd (pty_write d ans p)) = pt_alive p"
  using write_cases [of d ans p] by auto

lemma flush_fields [simp]:
  "pt_closed (flush_pending ans p) = pt_closed p" "pt_master (flush_pending ans p) = pt_master p"
  "pt_reading (flush_pending ans p) = pt_reading p" "pt_alive (flush_pending ans p) = pt_alive p"
  "pt_pending_out (flush_pending ans p) = pt_pending_out p"
  by (cases ans; simp add: flush_pending_def Let_def)+

lemma calm_trans: "calm s t \<Longrightarrow> calm t u \<Longrightarrow> calm s u"
  by (simp add: calm_def)

lemma calm_basic: "calm s s" "calm s (changed s)" "calm s (write_pty d ans s)"
  "calm s (s\<lparr>ts_started := b\<rparr>)" "calm s (s\<lparr>ts_probed := b\<rparr>)" "calm s (s\<lparr>ts_early_input := d\<rparr>)"
  "calm s (s\<lparr>ts_release := r\<rparr>)" "calm s (s\<lparr>ts_pty := flush_pending ans (ts_pty s)\<rparr>)"
  by (simp_all add: calm_def) (simp_all add: changed_def write_pty_def)

lemma calm_probe: "calm s (probe ans s)"
  using calm_trans [OF calm_basic(5) calm_basic(3)] calm_basic(1) by (simp add: probe_def)

lemma calm_show_up: "calm s (show_up ans s)"
  using calm_trans [OF calm_trans [OF calm_basic(4) calm_basic(3)] calm_basic(6)] calm_basic(4)
  by (simp add: show_up_def Let_def)

lemma calm_type: "calm s (client_types k d ans s)"
proof -
  have "calm s (type_in d ans s)"
    using calm_basic(3) calm_probe calm_trans [OF calm_basic(6) calm_probe] by (simp add: type_in_def)
  then show ?thesis using calm_basic(1) by (simp add: client_types_def split: option.split)
qed

lemma calm_timeouts: "calm s (probe_timeout ans s)" "calm s (hold_timeout ans s)"
  using calm_basic(1,7) calm_trans [OF calm_basic(7) calm_probe] calm_trans [OF calm_basic(7) calm_show_up]
  by (simp_all add: probe_timeout_def hold_timeout_def Let_def)

lemma session_ok_calm:
  assumes "calm s t" "session_ok h s"
  shows "session_ok h t"
proof -
  have w: "writers t = writers s" by (rule writers_cong) (use assms(1) in \<open>simp add: calm_def\<close>)
  show ?thesis using assms w smallest_cong [OF w] by (simp add: calm_def session_defs)
qed

lemma session_ok_changed [simp]: "session_ok h s \<Longrightarrow> session_ok h (changed s)"
  by (rule session_ok_calm [OF calm_basic(2)])

lemma session_ok_pty:
  "session_ok h s \<Longrightarrow> pt_pending_out p < OUTPUT_HIGH_WATER \<Longrightarrow> session_ok h (s\<lparr>ts_pty := p\<rparr>)"
  by (simp add: session_defs smallest_def writers_def live_def)

lemma session_ok_still:
  assumes "session_ok h s" "ts_clients t = ts_clients s" "ts_next_client t = ts_next_client s" "ts_replay t = ts_replay s"
    "ts_size t = ts_size s" "pt_pending_out (ts_pty t) = pt_pending_out (ts_pty s)" "\<not> ts_linger_handle t" "ts_linger_until t = None"
  shows "session_ok h t"
  using assms writers_cong [OF assms(2)] smallest_cong [OF writers_cong [OF assms(2)]] by (simp add: session_defs)

lemma close_pending_out [simp]: "pt_pending_out (close_pty p) = pt_pending_out p" "pt_pending_out (close_master p) = pt_pending_out p"
  by (simp_all add: close_pty_def close_master_def Let_def)

lemma session_ok_finished: "session_ok h s \<Longrightarrow> session_ok h (finished s)"
  by (erule session_ok_still) (simp_all add: finished_def cancel_linger_def Let_def)

lemma session_ok_close: "session_ok h s \<Longrightarrow> session_ok h (close_session s)"
proof (cases "ts_closing s")
  case False
  assume "session_ok h s"
  then show ?thesis by (rule session_ok_still) (use False in \<open>simp_all add: close_session_def cancel_linger_def Let_def\<close>)
qed (simp add: close_session_def)

lemma session_ok_expired: "session_ok h s \<Longrightarrow> session_ok h (linger_expired s)"
  by (erule session_ok_still) (simp_all add: linger_expired_def Let_def)

lemma session_ok_linger: "session_ok h s \<Longrightarrow> writers s = [] \<Longrightarrow> \<not> ts_closing s \<Longrightarrow> session_ok h (start_linger tm s)"
  by (auto simp: start_linger_def session_defs smallest_def writers_def live_def changed_def)

section \<open>One client changes\<close>

lemma all_put:
  "\<forall>c \<in> set (vals_of d). P c \<Longrightarrow> P c' \<Longrightarrow> \<forall>c \<in> set (vals_of (dset d k c')). P c"
proof (induction d)
  case (Cons a d)
  then show ?case by (cases a) (auto simp: vals_of_def)
qed (simp add: vals_of_def)

lemma map_put: "dget d k = Some c \<Longrightarrow> f c' = f c \<Longrightarrow> map f (vals_of (dset d k c')) = map f (vals_of d)"
  by (induction d) (auto simp: vals_of_def split: if_splits)

definition shape :: "client \<Rightarrow> bool \<times> bool \<times> int \<times> int" where
  "shape c = (tc_dropped c, tc_readonly c, tc_cols c, tc_rows c)"

lemma shape_eq:
  assumes "shape x = shape y"
  shows "tc_dropped x = tc_dropped y" "tc_readonly x = tc_readonly y"
  using assms by (simp_all add: shape_def)

lemma shape_writers:
  assumes "map shape xs = map shape ys"
  shows "map shape (filter (\<lambda>c. \<not> tc_readonly c) (filter (\<lambda>c. \<not> tc_dropped c) xs)) =
    map shape (filter (\<lambda>c. \<not> tc_readonly c) (filter (\<lambda>c. \<not> tc_dropped c) ys))"
  using assms
proof (induction xs arbitrary: ys)
  case (Cons x xs)
  then obtain y zs where ys: "ys = y # zs" "shape x = shape y" "map shape xs = map shape zs" by (cases ys) auto
  show ?case using Cons.IH [OF ys(3)] ys(2) unfolding ys(1) by (simp add: shape_eq [OF ys(2)])
qed simp

lemma shape_parts:
  assumes "map shape xs = map shape ys"
  shows "map tc_cols xs = map tc_cols ys \<and> map tc_rows xs = map tc_rows ys"
proof -
  have "map tc_cols zs = map (\<lambda>z. fst (snd (snd z))) (map shape zs) \<and>
    map tc_rows zs = map (\<lambda>z. snd (snd (snd z))) (map shape zs)" for zs
    by (simp add: shape_def)
  then show ?thesis using assms by metis
qed

lemma shape_size:
  assumes "map shape (vals_of (ts_clients t)) = map shape (vals_of (ts_clients s))" "ts_size t = ts_size s"
  shows "writers t = [] \<longleftrightarrow> writers s = []" "smallest t = smallest s" "size_ok s \<Longrightarrow> size_ok t"
proof -
  have w: "map shape (writers t) = map shape (writers s)"
    unfolding writers_def live_def by (rule shape_writers [OF assms(1)])
  then show e: "writers t = [] \<longleftrightarrow> writers s = []" by (metis map_is_Nil_conv)
  show m: "smallest t = smallest s" using shape_parts [OF w] by (simp add: smallest_def del: set_map)
  have "(\<forall>c \<in> set (vals_of (ts_clients t)). \<not> tc_readonly c \<longrightarrow> \<not> tc_dropped c) \<longleftrightarrow>
      (\<forall>z \<in> set (map shape (vals_of (ts_clients t))). \<not> fst (snd z) \<longrightarrow> \<not> fst z)" by (simp add: shape_def)
  also have "\<dots> \<longleftrightarrow> (\<forall>c \<in> set (vals_of (ts_clients s)). \<not> tc_readonly c \<longrightarrow> \<not> tc_dropped c)"
    unfolding assms(1) by (simp add: shape_def)
  finally show "size_ok s \<Longrightarrow> size_ok t" using e m assms(2) by (simp add: size_ok_def)
qed

lemma session_ok_put:
  assumes ok: "session_ok h s" and c: "dget (ts_clients s) k = Some c"
    and c': "shape c' = shape c" "buffer_ok c'" "told_ok (ts_size s) c'"
  shows "session_ok h (put_client k c' s)"
proof -
  have sh: "map shape (vals_of (ts_clients (put_client k c' s))) = map shape (vals_of (ts_clients s))"
    using map_put [where f = shape and c' = c', OF c c'(1)] by simp
  have sz: "ts_size (put_client k c' s) = ts_size s" by (simp add: put_client_def)
  have k: "k < ts_next_client s" using ok c by (auto simp: session_defs keys_of_dget)
  have "clients_ok (put_client k c' s)"
    using ok k c' all_put [where P = "\<lambda>c. buffer_ok c \<and> told_ok (ts_size s) c" and c' = c' and k = k and d = "ts_clients s"]
    by (simp add: session_ok_def clients_ok_def sz)
  moreover have "linger_ok (put_client k c' s)"
    using ok shape_size(1) [OF sh sz] by (simp add: session_ok_def linger_ok_def) (simp add: put_client_def)
  ultimately show ?thesis using ok shape_size(3) [OF sh sz] by (simp add: session_ok_def) (simp add: put_client_def)
qed

lemma client_ok: "session_ok h s \<Longrightarrow> dget (ts_clients s) k = Some c \<Longrightarrow> buffer_ok c \<and> told_ok (ts_size s) c"
  by (auto simp: session_defs dest: dget_vals)

lemma pending_small:
  assumes ok: "session_ok h s"
  shows "Max (insert 0 (set (map (length \<circ> tc_buffer) (writers s)))) < OUTPUT_HIGH_WATER"
proof -
  have "x < OUTPUT_HIGH_WATER" if "x \<in> insert 0 (set (map (length \<circ> tc_buffer) (writers s)))" for x
  proof -
    from that consider "x = 0" | c where "c \<in> set (writers s)" "x = length (tc_buffer c)" by auto
    then show ?thesis
    proof cases
      case 2
      then show ?thesis using ok by (auto simp: session_defs writers_set buffer_ok_def CLIENT_HIGH_WATER_def OUTPUT_HIGH_WATER_def)
    qed (simp add: OUTPUT_HIGH_WATER_def)
  qed
  then show ?thesis by simp
qed

lemma session_ok_update: "session_ok h s \<Longrightarrow> session_ok h (update_pending s)"
  unfolding update_pending_def using pending_small [of h s]
  by (intro session_ok_pty) (simp_all add: output_pending_def Let_def)

section \<open>Output\<close>

lemma feed_fields [simp]: "tc_readonly (feed_client d c) = tc_readonly c" "tc_cols (feed_client d c) = tc_cols c"
  "tc_rows (feed_client d c) = tc_rows c" "tc_size_pending (feed_client d c) = tc_size_pending c"
  by (simp_all add: feed_client_def drop_client_def send_def Let_def)

lemma last_size_snoc: "last_size (fs @ [f]) = (case frame_size f of Some z \<Rightarrow> Some z | None \<Rightarrow> last_size fs)"
  by (induction fs) (auto split: option.splits)

lemma feed_ok: "buffer_ok c \<Longrightarrow> told_ok z c \<Longrightarrow> buffer_ok (feed_client d c) \<and> told_ok z (feed_client d c)"
proof (cases "tc_dropped c \<or> overrun d c")
  case True
  then show "buffer_ok c \<Longrightarrow> told_ok z c \<Longrightarrow> ?thesis"
    by (auto simp: overrun_def buffer_ok_def told_ok_def feed_client_def drop_client_def send_def Let_def CLIENT_HIGH_WATER_def)
next
  case False
  then have "feed_client d c = c\<lparr>tc_buffer := tc_buffer c @ d, tc_wake := True\<rparr>"
    by (auto simp: overrun_def feed_client_def Let_def)
  with False show "buffer_ok c \<Longrightarrow> told_ok z c \<Longrightarrow> ?thesis"
    by (cases "tc_size_pending c") (auto simp: overrun_def buffer_ok_def told_ok_def told_size_def)
qed

lemma feed_dropped: "tc_dropped c \<Longrightarrow> feed_client d c = c"
  by (simp add: feed_client_def)

lemma writers_fed:
  "map (\<lambda>c. (tc_cols c, tc_rows c)) (filter (\<lambda>c. \<not> tc_readonly c) (filter (\<lambda>c. \<not> tc_dropped c) xs)) =
   map (\<lambda>c. (tc_cols c, tc_rows c)) (filter (\<lambda>c. \<not> tc_readonly c) (filter (\<lambda>c. \<not> tc_dropped c) (map (feed_client d) xs)))
   \<or> (\<exists>c \<in> set (map (feed_client d) xs). \<not> tc_readonly c \<and> tc_dropped c)"
proof (induction xs)
  case (Cons x xs)
  show ?case
  proof (cases "tc_readonly x \<or> tc_dropped (feed_client d x) \<longrightarrow> tc_dropped x \<or> tc_readonly x")
    case True
    then show ?thesis using Cons by (cases "tc_dropped x") (auto simp: feed_dropped)
  qed auto
qed simp

lemma fed_size_ok: "size_ok s \<Longrightarrow> size_ok (map_clients (feed_client d) s)"
proof -
  let ?t = "map_clients (feed_client d) s"
  assume ok: "size_ok s"
  have v: "vals_of (ts_clients ?t) = map (feed_client d) (vals_of (ts_clients s))" by (simp add: vals_map)
  show ?thesis
  proof (cases "\<exists>c \<in> set (vals_of (ts_clients ?t)). \<not> tc_readonly c \<and> tc_dropped c")
    case True
    then show ?thesis unfolding size_ok_def by blast
  next
    case False
    then have e: "map (\<lambda>c. (tc_cols c, tc_rows c)) (writers s) = map (\<lambda>c. (tc_cols c, tc_rows c)) (writers ?t)"
      unfolding writers_def live_def v using writers_fed by blast
    have "map tc_cols (writers s) = map tc_cols (writers ?t)" "map tc_rows (writers s) = map tc_rows (writers ?t)"
      using arg_cong [where f = "map fst", OF e] arg_cong [where f = "map snd", OF e] by (simp_all add: comp_def)
    then have sm: "smallest ?t = smallest s" by (simp add: smallest_def del: set_map)
    have "writers s = [] \<longleftrightarrow> writers ?t = []" using e by (metis map_is_Nil_conv)
    moreover have "\<forall>c \<in> set (vals_of (ts_clients s)). \<not> tc_readonly c \<longrightarrow> \<not> tc_dropped c"
    proof (intro ballI impI notI)
      fix c assume c: "c \<in> set (vals_of (ts_clients s))" "\<not> tc_readonly c" "tc_dropped c"
      then have "c \<in> set (vals_of (ts_clients ?t))" unfolding v using feed_dropped [of c d] by force
      with c False show False by blast
    qed
    ultimately show ?thesis using ok sm by (simp add: size_ok_def) (simp add: map_clients_def)
  qed
qed

lemma fed_writers: "writers s = [] \<Longrightarrow> writers (map_clients (feed_client d) s) = []"
proof -
  assume "writers s = []"
  then have "set (writers (map_clients (feed_client d) s)) = {}"
    unfolding writers_set clients_kept vals_map by (auto simp: writers_def live_def filter_empty_conv feed_dropped)
  then show ?thesis by simp
qed

lemma keep_replay_eq: "keep_replay r = drop (length r - REPLAY_SIZE) r"
  by (simp add: keep_replay_def)

lemma replay_output:
  "keep_replay (drop (length h - REPLAY_SIZE) h @ d) = drop (length (h @ d) - REPLAY_SIZE) (h @ d)"
  by (cases "REPLAY_SIZE \<le> length h") (simp_all add: keep_replay_eq add.commute)

lemma notes_map: "(map_clients f s)\<lparr>ts_notes := n\<rparr> = map_clients f (s\<lparr>ts_notes := n\<rparr>)"
  by (cases s) (simp add: map_clients_def)

lemma output_eq:
  "\<exists>u n. calm s u \<and> on_output d ans s =
     update_pending (map_clients (feed_client d) (u\<lparr>ts_replay := keep_replay (ts_replay u @ d), ts_notes := n\<rparr>))"
proof -
  let ?u = "if \<not> ts_started s \<and> (\<not> ts_probed s \<or> \<not> only_line_ends d) then show_up ans s else s"
  have "calm s ?u" using calm_show_up calm_basic(1) by simp
  moreover have "\<exists>n. on_output d ans s =
      update_pending (map_clients (feed_client d) (?u\<lparr>ts_replay := keep_replay (ts_replay ?u @ d), ts_notes := n\<rparr>))"
    unfolding on_output_def Let_def notes_map by (rule exI, rule refl)
  ultimately show ?thesis by blast
qed

lemma session_ok_output: "session_ok h s \<Longrightarrow> session_ok (h @ d) (on_output d ans s)"
proof -
  assume ok: "session_ok h s"
  obtain u n where u: "calm s u" and eq: "on_output d ans s =
     update_pending (map_clients (feed_client d) (u\<lparr>ts_replay := keep_replay (ts_replay u @ d), ts_notes := n\<rparr>))"
    using output_eq by blast
  define v where "v = u\<lparr>ts_replay := keep_replay (ts_replay u @ d), ts_notes := n\<rparr>"
  let ?w = "map_clients (feed_client d) v"
  have uok: "session_ok h u" using u ok by (rule session_ok_calm)
  have cl: "ts_clients v = ts_clients u" by (simp add: v_def)
  have w: "writers v = writers u" by (rule writers_cong [OF cl])
  have vf: "size_ok v" "linger_ok v" "clients_ok v"
    using uok w smallest_cong [OF w] by (simp_all add: session_ok_def size_ok_def linger_ok_def clients_ok_def v_def)
  have sz: "ts_size ?w = ts_size v" by (simp add: map_clients_def)
  have "clients_ok ?w" using vf(3) unfolding clients_ok_def sz
    by (auto simp: vals_map keys_map dict_ok_keys intro: feed_ok [THEN conjunct1] feed_ok [THEN conjunct2])
  moreover have "linger_ok ?w" using vf(2) fed_writers [of v d] by (simp add: linger_ok_def) (simp add: map_clients_def)
  moreover have "ts_replay ?w = drop (length (h @ d) - REPLAY_SIZE) (h @ d)"
    using uok replay_output by (simp add: session_ok_def v_def)
  moreover have "pt_pending_out (ts_pty ?w) < OUTPUT_HIGH_WATER" using uok by (simp add: session_ok_def v_def map_clients_def)
  ultimately have "session_ok (h @ d) ?w" using fed_size_ok [OF vf(1)] by (simp add: session_ok_def)
  then show ?thesis unfolding eq v_def by (rule session_ok_update)
qed

lemma session_ok_drain: "session_ok h s \<Longrightarrow> session_ok (h @ concat chunks) (fold (\<lambda>d. on_output d ans) chunks s)"
proof (induction chunks arbitrary: h s)
  case (Cons d chunks)
  show ?case using Cons.IH [OF session_ok_output [OF Cons.prems]] by simp
qed simp

lemma woken_client: "buffer_ok (c\<lparr>tc_wake := b\<rparr>) = buffer_ok c" "told_ok z (c\<lparr>tc_wake := b\<rparr>) = told_ok z c"
  by (simp_all add: buffer_ok_def told_ok_def told_size_def split: option.split)

lemma woken_ok: "session_ok h s \<Longrightarrow> session_ok h (map_clients (\<lambda>c. c\<lparr>tc_wake := True\<rparr>) s)"
proof -
  let ?t = "map_clients (\<lambda>c. c\<lparr>tc_wake := True\<rparr>) s"
  assume ok: "session_ok h s"
  have sh: "map shape (vals_of (ts_clients ?t)) = map shape (vals_of (ts_clients s))" by (simp add: vals_map shape_def)
  have sz: "ts_size ?t = ts_size s" by (simp add: map_clients_def)
  have "clients_ok ?t" using ok
    by (simp add: session_ok_def clients_ok_def vals_map keys_map dict_ok_keys)
      (simp add: map_clients_def woken_client)
  moreover have "linger_ok ?t" using ok shape_size(1) [OF sh sz] by (simp add: session_ok_def linger_ok_def) (simp add: map_clients_def)
  ultimately show ?thesis using ok shape_size(3) [OF sh sz] by (simp add: session_ok_def) (simp add: map_clients_def)
qed

lemma session_ok_exit:
  assumes "session_ok h s" "pt_alive (ts_pty s)"
  shows "session_ok (h @ produced (TExit rc chunks ans) s) (wait_exit rc chunks ans s)"
proof -
  define t where "t = s\<lparr>ts_pty := (ts_pty s)\<lparr>pt_alive := False\<rparr>\<rparr>"
  define u where "u = (if pt_master (ts_pty t) then fold (\<lambda>d. on_output d ans) chunks t else t)"
  have t: "session_ok h t" using assms(1) unfolding t_def by (intro session_ok_pty) (simp_all add: session_ok_def)
  have pm: "pt_master (ts_pty t) = pt_master (ts_pty s)" by (simp add: t_def)
  have u: "session_ok (h @ produced (TExit rc chunks ans) s) u"
    using t session_ok_drain [OF t] assms(2) by (simp add: u_def pm)
  then have "session_ok (h @ produced (TExit rc chunks ans) s) (u\<lparr>ts_pty := (close_master (ts_pty u))\<lparr>pt_exited := True\<rparr>\<rparr>)"
    by (intro session_ok_pty) (simp_all add: session_ok_def)
  then have "session_ok (h @ produced (TExit rc chunks ans) s)
      ((u\<lparr>ts_pty := (close_master (ts_pty u))\<lparr>pt_exited := True\<rparr>\<rparr>)\<lparr>ts_exit_code := rc, ts_exited := True\<rparr>)"
    by (rule session_ok_calm [rotated]) (simp add: calm_def)
  moreover have "wait_exit rc chunks ans s = finished (map_clients (\<lambda>c. c\<lparr>tc_wake := True\<rparr>)
      ((u\<lparr>ts_pty := (close_master (ts_pty u))\<lparr>pt_exited := True\<rparr>\<rparr>)\<lparr>ts_exit_code := rc, ts_exited := True\<rparr>))"
    by (simp add: wait_exit_def on_exit_def t_def u_def Let_def)
  ultimately show ?thesis by (simp add: session_ok_finished woken_ok)
qed

section \<open>Clients that come and go\<close>

lemma session_ok_pop:
  assumes "session_ok h s"
  shows "clients_ok (s\<lparr>ts_clients := dpop (ts_clients s) k\<rparr>)" "linger_ok (s\<lparr>ts_clients := dpop (ts_clients s) k\<rparr>)"
proof -
  have sub: "set (vals_of (dpop d k)) \<subseteq> set (vals_of d)" for d :: "(nat \<times> client) list"
    by (auto simp: vals_of_def AList.delete_eq)
  show "clients_ok (s\<lparr>ts_clients := dpop (ts_clients s) k\<rparr>)"
    using assms sub [of "ts_clients s"] unfolding session_ok_def clients_ok_def by auto
  show "linger_ok (s\<lparr>ts_clients := dpop (ts_clients s) k\<rparr>)"
  proof -
    have "set (writers (s\<lparr>ts_clients := dpop (ts_clients s) k\<rparr>)) \<subseteq> set (writers s)"
      using sub [of "ts_clients s"] by (auto simp: writers_set)
    then show ?thesis using assms by (auto simp: session_ok_def linger_ok_def)
  qed
qed

lemma session_ok_detach:
  assumes ok: "session_ok h s"
  shows "session_ok h (detach tm k e s)"
proof -
  define t where "t = s\<lparr>ts_clients := dpop (ts_clients s) k\<rparr>"
  have t: "clients_ok t" "linger_ok t" unfolding t_def by (rule session_ok_pop [OF ok])+
  have r: "ts_replay t = drop (length h - REPLAY_SIZE) h" "pt_pending_out (ts_pty t) < OUTPUT_HIGH_WATER"
    using ok by (simp_all add: t_def session_ok_def)
  show ?thesis
  proof (cases "writers t = []")
    case False
    then have "detach tm k e s = changed (apply_size t)" by (simp add: detach_def t_def [symmetric] Let_def)
    then show ?thesis using apply_size_session [OF t(1) r(1) t(2) r(2)] by simp
  next
    case True
    then have tok: "session_ok h t" using t r by (simp add: session_ok_def size_ok_def)
    have "session_ok h (t\<lparr>ts_close_due := True\<rparr>)" using tok by (rule session_ok_calm [rotated]) (simp add: calm_def)
    then show ?thesis using True tok session_ok_linger [OF tok True] by (simp add: detach_def t_def [symmetric] Let_def)
  qed
qed

lemma session_ok_resize:
  assumes ok: "session_ok h s"
  shows "session_ok h (resize_client k c r s)"
proof (cases "dget (ts_clients s) k")
  case None
  with ok show ?thesis by (simp add: resize_client_def)
next
  case (Some x)
  show ?thesis
  proof (cases "tc_readonly x")
    case True
    with Some ok show ?thesis by (simp add: resize_client_def)
  next
    case False
    let ?x = "x\<lparr>tc_cols := c, tc_rows := r\<rparr>"
    let ?t = "put_client k ?x s"
    have x: "buffer_ok ?x \<and> told_ok (ts_size s) ?x"
      using client_ok [OF ok Some] False by (simp add: buffer_ok_def told_ok_def)
    have k: "k < ts_next_client s" using ok Some by (auto simp: session_defs keys_of_dget)
    have cl: "clients_ok s" using ok by (simp add: session_ok_def)
    have all: "\<forall>c \<in> set (vals_of (dset (ts_clients s) k ?x)). buffer_ok c \<and> told_ok (ts_size s) c"
      by (rule all_put) (use cl x in \<open>simp_all add: clients_ok_def\<close>)
    have sz: "ts_size ?t = ts_size s" by (simp add: put_client_def)
    have "clients_ok ?t" unfolding clients_ok_def clients_kept sz next_kept
      using cl k all by (simp add: clients_ok_def)
    moreover have "linger_ok ?t"
    proof -
      have "writers ?t = []" if w: "writers s = []"
      proof -
        have "tc_dropped x" using w writers_set [of s] dget_vals [OF Some] False by auto
        then have "\<forall>c \<in> set (vals_of (dset (ts_clients s) k ?x)). tc_readonly c \<or> tc_dropped c"
          using w writers_set [of s] by (intro all_put) auto
        then have "set (writers ?t) = {}" unfolding writers_set by auto
        then show ?thesis by simp
      qed
      then show ?thesis using ok by (simp add: session_ok_def linger_ok_def) (auto simp: put_client_def)
    qed
    moreover have "ts_replay ?t = drop (length h - REPLAY_SIZE) h" "pt_pending_out (ts_pty ?t) < OUTPUT_HIGH_WATER"
      using ok by (simp_all add: session_ok_def) (simp add: put_client_def)
    ultimately have "session_ok h (apply_size ?t)" by (intro apply_size_session)
    then show ?thesis using Some False by (simp add: resize_client_def)
  qed
qed

lemma session_ok_ready: "session_ok h s \<Longrightarrow> session_ok h (ready k s)"
proof (cases "dget (ts_clients s) k")
  case (Some c)
  assume ok: "session_ok h s"
  show ?thesis unfolding ready_eq [OF Some]
  proof (rule session_ok_put [OF ok Some])
    have "told_size (send (FReady (ts_size s)) c) = (case tc_size_pending c of Some z \<Rightarrow> Some z | None \<Rightarrow> Some (ts_size s))"
      by (simp add: told_size_def send_def last_size_snoc split: option.split)
    then show "told_ok (ts_size s) (send (FReady (ts_size s)) c)"
      using client_ok [OF ok Some] by (auto simp: told_ok_def told_size_def send_def split: option.splits)
  qed (use client_ok [OF ok Some] in \<open>simp_all add: shape_def send_def buffer_ok_def\<close>)
qed (simp add: ready_def)

text \<open>Before its \<open>ready\<close> frame a viewer has not been told a size yet: the two steps go together.\<close>

lemma session_ok_put_new:
  assumes ok: "session_ok h s" and ro: "ro \<longrightarrow> z = ts_size s"
    and c: "c = (if ro then send (FReady z) (new_client who w r ro (ts_replay s)) else new_client who w r ro (ts_replay s))"
  defines "t \<equiv> put_client (ts_next_client s) c (s\<lparr>ts_next_client := ts_next_client s + 1\<rparr>)"
  shows "clients_ok t" "ro \<Longrightarrow> session_ok h t"
proof -
  have cl: "clients_ok s" using ok by (simp add: session_ok_def)
  have "length (ts_replay s) \<le> REPLAY_SIZE" using ok by (simp add: session_ok_def)
  then have new: "buffer_ok c" "told_ok (ts_size s) c" using ro
    by (simp_all add: c buffer_ok_def told_ok_def told_size_def new_client_def send_def REPLAY_SIZE_def CLIENT_HIGH_WATER_def)
  have all: "\<forall>c \<in> set (vals_of (dset (ts_clients s) (ts_next_client s) c)). buffer_ok c \<and> told_ok (ts_size s) c"
    by (rule all_put) (use cl new in \<open>simp_all add: clients_ok_def\<close>)
  have sz: "ts_size t = ts_size s" "ts_next_client t = ts_next_client s + 1" by (simp_all add: t_def put_client_def)
  have tc: "ts_clients t = dset (ts_clients s) (ts_next_client s) c" by (simp add: t_def)
  show clt: "clients_ok t" unfolding clients_ok_def sz tc using cl all by (auto simp: clients_ok_def)
  have fresh: "dget (ts_clients s) (ts_next_client s) = None" using cl by (auto simp: clients_ok_def keys_of_dget)
  have vals: "vals_of (ts_clients t) = vals_of (ts_clients s) @ [c]"
  proof -
    have "dget d k = None \<Longrightarrow> dset d k v = d @ [(k, v)]" for d and k :: nat and v :: client by (induction d) auto
    with fresh tc show ?thesis by (simp add: vals_of_def)
  qed
  assume ro: ro
  then have r: "tc_readonly c" by (simp add: c new_client_def send_def)
  then have w: "writers t = writers s" by (simp add: writers_def live_def vals)
  have "size_ok t" using ok r smallest_cong [OF w] w by (simp add: session_ok_def size_ok_def sz vals)
  moreover have "linger_ok t" using ok w by (simp add: session_ok_def linger_ok_def) (simp add: t_def put_client_def)
  ultimately show "session_ok h t" using clt ok by (simp add: session_ok_def) (simp add: t_def put_client_def)
qed

lemma session_ok_attach:
  assumes ok: "session_ok h s"
  shows "session_ok h (exec_term (TAttach who w r ro) s)"
proof -
  let ?n = "new_client who w r ro (ts_replay s)"
  let ?s = "s\<lparr>ts_next_client := ts_next_client s + 1\<rparr>"
  show ?thesis
  proof (cases ro)
    case False
    let ?t = "put_client (ts_next_client s) ?n ?s"
    have "clients_ok ?t" by (rule session_ok_put_new(1) [OF ok, where ro = False and z = "ts_size s" and who = who and w = w and r = r])
      (simp_all add: False)
    then have "clients_ok (cancel_linger ?t)" by (simp add: clients_ok_def cancel_linger_def)
    moreover have "linger_ok (cancel_linger ?t)" by (simp add: linger_ok_def cancel_linger_def)
    moreover have "pt_pending_out (ts_pty (cancel_linger ?t)) < OUTPUT_HIGH_WATER" "ts_replay ?t = drop (length h - REPLAY_SIZE) h"
      using ok by (simp_all add: session_ok_def cancel_linger_def put_client_def)
    ultimately have "session_ok h (apply_size (cancel_linger ?t))" by (intro apply_size_session) simp_all
    then show ?thesis using False by (simp add: attach_eq session_ok_ready)
  next
    case True
    let ?t = "put_client (ts_next_client s) (send (FReady (ts_size s)) ?n) ?s"
    have "session_ok h ?t" by (rule session_ok_put_new(2) [OF ok]) (simp_all add: True)
    then have t: "session_ok h (changed ?t)" by simp
    have "exec_term (TAttach who w r ro) s = changed ?t"
      using True by (simp add: attach_eq ready_def) (simp add: changed_def put_client_def)
    with t show ?thesis by simp
  qed
qed

section \<open>The senders\<close>

lemma session_ok_pump_exit: "session_ok h s \<Longrightarrow> session_ok h (pump_exit k s)"
proof (cases "dget (ts_clients s) k")
  case (Some c)
  assume ok: "session_ok h s"
  define c' where "c' = (if ts_exited s \<and> tc_buffer c = []
    then (send (FClose 1000) (send (FExit (ts_exit_code s)) c))\<lparr>tc_pump := PumpDone\<rparr> else c\<lparr>tc_pump := PumpWaits\<rparr>)"
  have eq: "pump_exit k s = put_client k c' s" using Some by (simp add: pump_exit_def c'_def)
  have sz: "told_size c' = told_size c"
    using last_size_snoc [of "tc_sent c @ [FExit (ts_exit_code s)]" "FClose 1000"] last_size_snoc [of "tc_sent c" "FExit (ts_exit_code s)"]
    by (simp add: c'_def told_size_def send_def split: option.split)
  show ?thesis unfolding eq
    by (rule session_ok_put [OF ok Some])
      (use client_ok [OF ok Some] sz in \<open>auto simp: c'_def shape_def send_def buffer_ok_def told_ok_def\<close>)
qed (simp add: pump_exit_def)

lemma session_ok_pump_data: "session_ok h s \<Longrightarrow> session_ok h (pump_data k s)"
proof (cases "dget (ts_clients s) k")
  case (Some c)
  assume ok: "session_ok h s"
  show ?thesis
  proof (cases "tc_buffer c = []")
    case True
    with Some ok show ?thesis by (simp add: pump_data_def session_ok_pump_exit)
  next
    case False
    let ?c = "(send (FBytes (tc_buffer c)) c)\<lparr>tc_buffer := [], tc_pump := PumpSent\<rparr>"
    have sz: "told_size ?c = told_size c" by (simp add: told_size_def send_def last_size_snoc split: option.split)
    have "session_ok h (put_client k ?c s)"
      by (rule session_ok_put [OF ok Some])
        (use client_ok [OF ok Some] sz in \<open>simp_all add: shape_def send_def buffer_ok_def told_ok_def CLIENT_HIGH_WATER_def\<close>)
    then have "session_ok h (update_pending (put_client k ?c s))" by (rule session_ok_update)
    then have "session_ok h ((update_pending (put_client k ?c s))\<lparr>ts_notes := n\<rparr>)" for n
      by (rule session_ok_calm [rotated]) (simp add: calm_def)
    then show ?thesis using Some False by (simp add: pump_data_def Let_def)
  qed
qed (simp add: pump_data_def)

lemma session_ok_pump_wake: "session_ok h s \<Longrightarrow> session_ok h (pump_wake k s)"
proof (cases "dget (ts_clients s) k")
  case (Some c)
  assume ok: "session_ok h s"
  note c = client_ok [OF ok Some]
  show ?thesis
  proof (cases "tc_pump c \<noteq> PumpWaits \<or> \<not> tc_wake c")
    case True
    with Some ok show ?thesis by (auto simp: pump_wake_def)
  next
    case awake: False
    show ?thesis
    proof (cases "tc_dropped c")
      case True
      have "session_ok h (put_client k (c\<lparr>tc_wake := False, tc_pump := PumpDone\<rparr>) s)"
        by (rule session_ok_put [OF ok Some]) (use c True in \<open>simp_all add: shape_def buffer_ok_def told_ok_def\<close>)
      with Some awake True show ?thesis by (simp add: pump_wake_def)
    next
      case up: False
      show ?thesis
      proof (cases "tc_size_pending c")
        case (Some z)
        let ?c = "(send (FSize z) c)\<lparr>tc_wake := False, tc_size_pending := None, tc_pump := PumpSized\<rparr>"
        have "told_size ?c = told_size c" using Some by (simp add: told_size_def send_def last_size_snoc)
        then have "session_ok h (put_client k ?c s)"
          by (intro session_ok_put [OF ok \<open>dget (ts_clients s) k = Some c\<close>])
            (use c in \<open>simp_all add: shape_def send_def buffer_ok_def told_ok_def\<close>)
        with \<open>dget (ts_clients s) k = Some c\<close> Some awake up show ?thesis by (simp add: pump_wake_def)
      next
        case None
        have "session_ok h (put_client k (c\<lparr>tc_wake := False\<rparr>) s)"
          by (rule session_ok_put [OF ok Some]) (use c in \<open>simp_all add: shape_def woken_client\<close>)
        then show ?thesis using Some awake up None by (simp add: pump_wake_def session_ok_pump_data)
      qed
    qed
  qed
qed (simp add: pump_wake_def)

lemma session_ok_pump_next: "session_ok h s \<Longrightarrow> session_ok h (pump_next k s)"
  by (simp add: pump_next_def session_ok_pump_data session_ok_pump_exit split: option.split pump_stage.split)

lemma session_ok_pump_fails: "session_ok h s \<Longrightarrow> session_ok h (pump_fails k s)"
proof (cases "dget (ts_clients s) k")
  case (Some c)
  assume ok: "session_ok h s"
  have "told_size (c\<lparr>tc_pump := PumpDone\<rparr>) = told_size c" by (simp add: told_size_def split: option.split)
  then have "session_ok h (put_client k (c\<lparr>tc_pump := PumpDone\<rparr>) s)"
    by (intro session_ok_put [OF ok Some])
      (use client_ok [OF ok Some] in \<open>simp_all add: shape_def buffer_ok_def told_ok_def\<close>)
  then show ?thesis using Some ok by (simp add: pump_fails_def)
qed (simp add: pump_fails_def)

section \<open>Every history\<close>

lemma session_ok_exec: "session_ok h s \<Longrightarrow> session_ok (h @ produced e s) (exec_term e s)"
proof (cases e)
  case (TAttach who w r ro)
  assume "session_ok h s"
  from session_ok_attach [OF this, of who w r ro] TAttach show ?thesis by simp
next
  case (TRead x ans)
  assume ok: "session_ok h s"
  show ?thesis
  proof (cases x)
    case (ReadData d)
    then show ?thesis using TRead ok session_ok_output [OF ok] by (simp add: on_readable_def)
  next
    case ReadBlocks
    then show ?thesis using TRead ok by (simp add: on_readable_def)
  next
    case ReadEnds
    have "session_ok h (s\<lparr>ts_pty := stop_reading (ts_pty s)\<rparr>)" by (rule session_ok_pty [OF ok]) (use ok in \<open>simp add: session_ok_def\<close>)
    then show ?thesis using ReadEnds TRead ok by (simp add: on_readable_def)
  qed
next
  case (TExit rc chunks ans)
  assume ok: "session_ok h s"
  show ?thesis
  proof (cases "pt_alive (ts_pty s)")
    case True
    then show ?thesis using session_ok_exit [OF ok True, of rc chunks ans] TExit by simp
  qed (use ok TExit in simp)
qed (auto simp: session_ok_detach session_ok_resize session_ok_pump_wake session_ok_pump_next session_ok_pump_fails
    session_ok_close session_ok_expired session_ok_calm [OF calm_type] session_ok_calm [OF calm_timeouts(1)]
    session_ok_calm [OF calm_timeouts(2)] session_ok_calm [OF calm_basic(8)] close_ends_def session_ok_finished)

inductive term_step :: "octets \<times> session \<Rightarrow> octets \<times> session \<Rightarrow> bool" where
  "term_step (h, s) (h @ produced e s, exec_term e s)"

inductive_cases term_stepE: "term_step x y"

inductive term_start :: "octets \<times> session \<Rightarrow> bool" where
  "term_start ([], start_session device who private cols rows linger)"

interpretation terminal_machine: invariant_machine term_start term_step "\<lambda>(h, s). session_ok h s"
proof
  fix x assume "term_start x"
  then show "case x of (h, s) \<Rightarrow> session_ok h s"
    by (cases rule: term_start.cases)
      (simp add: session_defs start_session_def start_pty_def new_pty_def vals_of_def keys_of_def writers_def live_def OUTPUT_HIGH_WATER_def)
next
  fix x y assume "case x of (h, s) \<Rightarrow> session_ok h s" "term_step x y"
  then show "case y of (h, s) \<Rightarrow> session_ok h s" by (auto elim!: term_stepE simp: session_ok_exec)
qed

lemma run_steps: "run_term es s = (d, t) \<Longrightarrow> term_step\<^sup>*\<^sup>* (h, s) (h @ d, t)"
proof (induction es arbitrary: h s d)
  case (Cons e es)
  obtain rest where rest: "run_term es (exec_term e s) = (rest, t)" "d = produced e s @ rest"
    using Cons.prems by (auto split: prod.splits)
  have "term_step (h, s) (h @ produced e s, exec_term e s)" by (rule term_step.intros)
  then show ?case using Cons.IH [OF rest(1), of "h @ produced e s"] by (simp add: rest(2) converse_rtranclp_into_rtranclp)
qed simp

section \<open>What the browsers get\<close>

text \<open>C17: A browser that joins a shared terminal reads all of it: what it was sent, followed by what
  waits for it, is the last 64 KiB the terminal had written before it came, followed by everything
  written since, whatever the other browsers do, as long as it was not dropped for its slowness.\<close>

theorem terminal_stream:
  assumes "run_term before (start_session device creator private cols rows linger) = (old, s)"
    and "attach who c r readonly s = (k, s1)" "run_term after (ready k s1) = (new, t)"
    and "dget (ts_clients t) k = Some client" "\<not> tc_dropped client"
  shows "stream client = drop (length old - REPLAY_SIZE) old @ new"
proof -
  have "session_ok old s"
    using terminal_machine.reach_inv [OF term_start.intros run_steps [OF assms(1), of "[]"]] by simp
  then have rep: "ts_replay s = drop (length old - REPLAY_SIZE) old" by (simp add: session_ok_def)
  have k: "k = ts_next_client s" "s1 = snd (attach who c r readonly s)" using assms(2) by (auto simp: attach_eq)
  let ?s0 = "put_client k (new_client who c r readonly (ts_replay s)) (s\<lparr>ts_next_client := ts_next_client s + 1\<rparr>)"
  have q: "calm u (changed u)" for u by (rule calm_basic(2))
  have "keeps ?s0 s1 []"
  proof (cases readonly)
    case True
    then have "s1 = changed ?s0" by (simp add: k attach_eq)
    then show ?thesis by (intro keeps_refl) simp_all
  next
    case False
    have "keeps ?s0 (cancel_linger ?s0) []" "keeps (apply_size (cancel_linger ?s0)) (changed (apply_size (cancel_linger ?s0))) []"
      by (rule keeps_refl; simp)+
    moreover have "s1 = changed (apply_size (cancel_linger ?s0))" using False by (simp add: k attach_eq)
    ultimately show ?thesis using keeps_trans [OF keeps_trans [OF _ keeps_size]] by (metis append_Nil)
  qed
  then have "keeps ?s0 t new"
    using keeps_trans [OF keeps_trans [OF _ keeps_ready] keeps_run [OF assms(3)]] by (metis append_Nil)
  moreover have "k < ts_next_client ?s0" by (simp add: k(1))
  ultimately obtain c0 where "dget (ts_clients ?s0) k = Some c0" "stream client = stream c0 @ new"
    using assms(4,5) unfolding keeps_def by blast
  then show ?thesis using rep by (auto simp: new_client_def stream_def)
qed

definition demo_shell :: session where
  "demo_shell = start_session ''pc1'' ''bob'' False 80 24 0"

lemmas terminal_eval = demo_shell_def start_session_def start_pty_def new_pty_def start_reading_def on_readable_def
  on_output_def show_up_def keep_replay_def REPLAY_SIZE_def update_pending_def output_pending_def Let_def map_clients_def
  attach_def put_client_def apply_size_def writers_def live_def vals_of_def cancel_linger_def new_client_def changed_def
  least_def ready_def send_def pump_wake_def pump_data_def feed_client_def CLIENT_HIGH_WATER_def OUTPUT_HIGH_WATER_def
  stop_reading_def only_line_ends_def overrun_def window_size_def

lemma demo_joined:
  "fst (run_term [TRead (ReadData [36, 32]) WouldBlock] demo_shell) = [36, 32]"
  "fst (attach ''bob'' 80 24 False (snd (run_term [TRead (ReadData [36, 32]) WouldBlock] demo_shell))) = 1"
  by (simp_all add: terminal_eval)

definition demo_join :: session where
  "demo_join = ready 1 (snd (attach ''bob'' 80 24 False (snd (run_term [TRead (ReadData [36, 32]) WouldBlock] demo_shell))))"

lemma demo_read:
  "(case run_term [TPumpWake 1, TRead (ReadData [97]) WouldBlock] demo_join of (new, t) \<Rightarrow>
     new = [97] \<and> (case dget (ts_clients t) 1 of None \<Rightarrow> False | Some c \<Rightarrow> \<not> tc_dropped c))"
  by (simp add: terminal_eval demo_join_def)

theorem terminal_stream_witness:
  "(case dget (ts_clients (snd (run_term [TPumpWake 1, TRead (ReadData [97]) WouldBlock] demo_join))) 1 of
      None \<Rightarrow> False | Some c \<Rightarrow> stream c = [36, 32, 97])"
proof -
  obtain old s where s: "run_term [TRead (ReadData [36, 32]) WouldBlock] demo_shell = (old, s)" by (meson surj_pair)
  obtain k s1 where a: "attach ''bob'' 80 24 False s = (k, s1)" by (meson surj_pair)
  have j: "old = [36, 32]" "k = 1" using demo_joined unfolding s by (simp_all add: a)
  have j3: "demo_join = ready k s1" unfolding demo_join_def s using j(2) by (simp add: a)
  obtain new t where t: "run_term [TPumpWake 1, TRead (ReadData [97]) WouldBlock] (ready k s1) = (new, t)" by (meson surj_pair)
  then obtain c where "new = [97]" "dget (ts_clients t) k = Some c" "\<not> tc_dropped c"
    using demo_read unfolding j3 t by (auto simp: j(2) split: option.splits)
  with terminal_stream [OF s [unfolded demo_shell_def] a t] j show ?thesis unfolding j3 t by (simp add: REPLAY_SIZE_def)
qed


lemma demo_two:
  "(case run_term [TAttach ''bob'' 80 24 False, TAttach ''ann'' 100 20 False] demo_shell of (h, s) \<Rightarrow>
     list_all (\<lambda>c. \<not> tc_dropped c) (vals_of (ts_clients s)) \<and> writers s \<noteq> [] \<and> smallest s = (80, 20))"
  by code_simp


section \<open>The pty is never throttled\<close>

text \<open>A writer is dropped at the same mark at which the reading would stop.\<close>

definition reads :: "pty \<Rightarrow> bool" where
  "reads p \<longleftrightarrow> (pt_master p \<longrightarrow> pt_reading p)"

lemma reads_pending: "n < OUTPUT_HIGH_WATER \<Longrightarrow> reads p \<Longrightarrow> reads (output_pending n p)"
  by (simp add: reads_def output_pending_def start_reading_def Let_def)

lemma reads_update: "session_ok h s \<Longrightarrow> reads (ts_pty s) \<Longrightarrow> reads (ts_pty (update_pending s))"
  unfolding update_pending_def using reads_pending [OF pending_small] by (simp del: set_map)

lemma reads_calm: "calm s t \<Longrightarrow> reads (ts_pty s) \<Longrightarrow> reads (ts_pty t)"
  by (simp add: calm_def reads_def)

lemma reads_kept [simp]:
  "reads (ts_pty (put_client k c s)) = reads (ts_pty s)" "reads (ts_pty (apply_size s)) = reads (ts_pty s)"
  "reads (ts_pty (finished s)) = reads (ts_pty s)" "reads (ts_pty (cancel_linger s)) = reads (ts_pty s)"
  "reads (ts_pty (changed s)) = reads (ts_pty s)" "reads (ts_pty (start_linger tm s)) = reads (ts_pty s)"
  "reads (ts_pty (linger_expired s)) = reads (ts_pty s)" "reads (ts_pty (map_clients f s)) = reads (ts_pty s)"
  "reads (ts_pty (ready k s)) = reads (ts_pty s)" "reads (ts_pty (pump_exit k s)) = reads (ts_pty s)"
  "reads (ts_pty (resize_client k a b s)) = reads (ts_pty s)"
proof -
  have "pt_master (ts_pty (apply_size s)) = pt_master (ts_pty s) \<and> pt_reading (ts_pty (apply_size s)) = pt_reading (ts_pty s)" for s
    by (simp add: apply_size_def resize_pty_def map_clients_def Let_def)
  then show ap: "reads (ts_pty (apply_size s)) = reads (ts_pty s)" for s by (simp add: reads_def)
  show put: "reads (ts_pty (put_client k c s)) = reads (ts_pty s)" for s by (simp add: put_client_def)
  show "reads (ts_pty (ready k s)) = reads (ts_pty s)" by (simp add: ready_def put_client_def split: option.split)
  show "reads (ts_pty (pump_exit k s)) = reads (ts_pty s)" by (simp add: pump_exit_def put_client_def split: option.split)
  show "reads (ts_pty (resize_client k a b s)) = reads (ts_pty s)"
    by (simp add: resize_client_def ap split: option.split) (simp add: put_client_def)
qed (simp_all add: reads_def finished_def cancel_linger_def changed_def start_linger_def linger_expired_def map_clients_def Let_def)

lemma reads_pump_data: "session_ok h s \<Longrightarrow> reads (ts_pty s) \<Longrightarrow> reads (ts_pty (pump_data k s))"
proof (cases "dget (ts_clients s) k")
  case (Some c)
  assume ok: "session_ok h s" and r: "reads (ts_pty s)"
  let ?c = "(send (FBytes (tc_buffer c)) c)\<lparr>tc_buffer := [], tc_pump := PumpSent\<rparr>"
  have sz: "told_size ?c = told_size c" by (simp add: told_size_def send_def last_size_snoc split: option.split)
  have "session_ok h (put_client k ?c s)"
    by (rule session_ok_put [OF ok Some])
      (use client_ok [OF ok Some] sz in \<open>simp_all add: shape_def send_def buffer_ok_def told_ok_def CLIENT_HIGH_WATER_def\<close>)
  then have "reads (ts_pty (update_pending (put_client k ?c s)))" by (rule reads_update) (simp add: r)
  with Some r show ?thesis by (simp add: pump_data_def Let_def)
qed (simp add: pump_data_def)

lemma reads_output: "session_ok h s \<Longrightarrow> reads (ts_pty s) \<Longrightarrow> reads (ts_pty (on_output d ans s))"
proof -
  assume ok: "session_ok h s" and r: "reads (ts_pty s)"
  have "session_ok (h @ d) (on_output d ans s)" using ok by (rule session_ok_output)
  then have lt: "pt_pending_out (ts_pty (on_output d ans s)) < OUTPUT_HIGH_WATER" by (simp add: session_ok_def)
  obtain u n where u: "calm s u" and eq: "on_output d ans s =
     update_pending (map_clients (feed_client d) (u\<lparr>ts_replay := keep_replay (ts_replay u @ d), ts_notes := n\<rparr>))"
    using output_eq by blast
  let ?v = "map_clients (feed_client d) (u\<lparr>ts_replay := keep_replay (ts_replay u @ d), ts_notes := n\<rparr>)"
  have pend: "pt_pending_out (ts_pty (update_pending v)) = Max (insert 0 (set (map (length \<circ> tc_buffer) (writers v))))" for v
    unfolding update_pending_def output_pending_def Let_def by (simp del: set_map)
  have "reads (ts_pty ?v)" using reads_calm [OF u r] by (simp add: map_clients_def)
  moreover have "Max (insert 0 (set (map (length \<circ> tc_buffer) (writers ?v)))) < OUTPUT_HIGH_WATER"
    using lt unfolding eq pend .
  ultimately show ?thesis unfolding eq update_pending_def by (simp del: set_map add: reads_pending)
qed

lemma reads_exit: "reads (ts_pty (wait_exit rc chunks ans s))"
  by (simp add: wait_exit_def on_exit_def Let_def) (simp add: reads_def close_master_def Let_def)

lemma reads_pump_wake:
  assumes "session_ok h s" "reads (ts_pty s)"
  shows "reads (ts_pty (pump_wake k s))"
proof (cases "dget (ts_clients s) k")
  case (Some c)
  have "session_ok h (put_client k (c\<lparr>tc_wake := False\<rparr>) s)"
    by (rule session_ok_put [OF assms(1) Some]) (use client_ok [OF assms(1) Some] in \<open>simp_all add: shape_def woken_client\<close>)
  then have "reads (ts_pty (pump_data k (put_client k (c\<lparr>tc_wake := False\<rparr>) s)))" by (rule reads_pump_data) (simp add: assms)
  then show ?thesis using Some assms by (simp add: pump_wake_def split: option.split)
qed (simp add: pump_wake_def assms)

lemma reads_exec:
  assumes "session_ok h s" "reads (ts_pty s)" "\<And>ans. e \<noteq> TRead ReadEnds ans"
  shows "reads (ts_pty (exec_term e s))"
proof (cases e)
  case (TAttach who w r ro)
  have "reads (ts_pty (snd (attach who w r ro s)))" using assms(2) by (simp add: attach_eq Let_def)
  then show ?thesis using TAttach by (simp add: case_prod_beta)
next
  case (TDetach tm k b)
  then show ?thesis using assms(2) by (simp add: detach_def Let_def)
next
  case (TType k d ans)
  then show ?thesis using reads_calm [OF calm_type assms(2)] by simp
next
  case (TRead x ans)
  then show ?thesis using assms(2,3) reads_output [OF assms(1,2)] by (cases x) (simp_all add: on_readable_def)
next
  case (TFlush ans)
  then show ?thesis using reads_calm [OF calm_basic(8) assms(2)] by simp
next
  case (TProbeTimeout ans)
  then show ?thesis using reads_calm [OF calm_timeouts(1) assms(2)] by simp
next
  case (THoldTimeout ans)
  then show ?thesis using reads_calm [OF calm_timeouts(2) assms(2)] by simp
next
  case TClose
  then show ?thesis using assms(2)
    by (simp add: close_session_def cancel_linger_def close_pty_def close_master_def reads_def Let_def)
next
  case (TExit rc chunks ans)
  then show ?thesis using assms(2) by (simp add: reads_exit)
next
  case (TPumpFails k)
  then show ?thesis using assms(2) by (simp add: pump_fails_def split: option.split)
qed (use assms reads_pump_wake reads_pump_data in \<open>auto simp: close_ends_def pump_next_def split: option.split pump_stage.split\<close>)

lemma reads_run:
  "session_ok h s \<Longrightarrow> reads (ts_pty s) \<Longrightarrow> (\<And>ans. TRead ReadEnds ans \<notin> set es) \<Longrightarrow> reads (ts_pty (snd (run_term es s)))"
proof (induction es arbitrary: h s)
  case (Cons e es)
  have "reads (ts_pty (exec_term e s))" by (rule reads_exec [OF Cons.prems(1,2)]) (use Cons.prems(3) in auto)
  with Cons.IH [OF session_ok_exec [OF Cons.prems(1)]] Cons.prems(3) show ?case by (simp add: case_prod_beta)
qed simp

text \<open>The back-pressure never acts: a browser that types is dropped at one mebibyte of pending output,
  the very mark at which the reading of the pty would stop, so until the pty itself ends or is
  closed it is read in every reachable state, whatever its slowest browser.\<close>

theorem never_throttled:
  assumes "run_term es (start_session device creator private cols rows linger) = (h, s)"
    and "\<And>ans. TRead ReadEnds ans \<notin> set es" "pt_master (ts_pty s)"
  shows "pt_reading (ts_pty s) \<and> pt_pending_out (ts_pty s) < OUTPUT_HIGH_WATER"
proof -
  let ?s0 = "start_session device creator private cols rows linger"
  have start: "session_ok [] ?s0" using terminal_machine.start_inv [OF term_start.intros] by simp
  have "session_ok h s"
    using terminal_machine.reach_inv [OF term_start.intros run_steps [OF assms(1), of "[]"]] by simp
  moreover have "reads (ts_pty ?s0)" by (simp add: reads_def start_session_def start_pty_def start_reading_def new_pty_def)
  then have "reads (ts_pty (snd (run_term es ?s0)))" using start assms(2) by (intro reads_run)
  ultimately show ?thesis using assms(1,3) by (simp add: reads_def session_ok_def)
qed

theorem never_throttled_witness:
  "pt_reading (ts_pty (snd (run_term [TAttach ''bob'' 80 24 False] demo_shell)))"
proof -
  obtain h s where s: "run_term [TAttach ''bob'' 80 24 False] demo_shell = (h, s)" by (meson surj_pair)
  then have "s = snd (run_term [TAttach ''bob'' 80 24 False] demo_shell)" by simp
  then have "pt_master (ts_pty s)" by (simp add: terminal_eval resize_pty_def)
  with never_throttled [OF s [unfolded demo_shell_def]] have "pt_reading (ts_pty s)" by simp
  then show ?thesis unfolding s by simp
qed

end
