(* ===== verification/Terminal_Access.thy ===== *)
theory Terminal_Access
  imports Terminal_Safety
begin

text \<open>
  Who gets which terminal (\<open>terminal_ws\<close> and \<open>_evict_lingering\<close> of \<open>src/sreweb/agent/app.py\<close>): the
  checks that come before a browser is attached, and the sessions of a project.
\<close>

record term_project =
  tp_rln :: string
  tp_closing :: bool
  tp_exam :: "bool option"
  tp_info :: lab_info
  tp_terminals :: "(string \<times> session) list"
  tp_ending :: "session list"

record term_request =
  tq_device :: string
  tq_join :: string
  tq_private :: bool
  tq_readonly :: bool

record term_caps =
  tk_per_device :: nat
  tk_per_project :: nat

definition terminal_count :: "term_project \<Rightarrow> nat" where
  "terminal_count p = length (tp_terminals p)"

definition active_terminal_count :: "term_project \<Rightarrow> nat" where
  "active_terminal_count p = length (filter (\<lambda>s. \<not> lingering s) (vals_of (tp_terminals p)))"

definition terminals_on :: "term_project \<Rightarrow> string \<Rightarrow> nat" where
  "terminals_on p device = length (filter (\<lambda>s. ts_device s = device) (vals_of (tp_terminals p)))"

text \<open>\<open>min\<close> keeps the first of the sessions that have waited longest; the session leaves the list at
  once and is closed behind.\<close>

definition evict_lingering :: "string option \<Rightarrow> term_project \<Rightarrow> term_project" where
  "evict_lingering device p =
     (let candidates = filter (\<lambda>(k, s). lingering s \<and> \<not> ts_closing s \<and> (device = None \<or> device = Some (ts_device s)))
                         (tp_terminals p)
      in case max_by (\<lambda>(k, s). - (case ts_linger_until s of None \<Rightarrow> 0 | Some u \<Rightarrow> u)) candidates of
           None \<Rightarrow> p
         | Some (k, s) \<Rightarrow> p\<lparr>tp_terminals := dpop (tp_terminals p) k, tp_ending := tp_ending p @ [s\<lparr>ts_close_due := True\<rparr>]\<rparr>)"

text \<open>What is granted: one more browser on a session, or a new session, privileged or not, private
  or not.\<close>

datatype admission = Joins string | Opens bool bool

definition admit_join :: "term_project \<Rightarrow> identity \<Rightarrow> term_request \<Rightarrow> access_error + admission" where
  "admit_join p i q =
     (case dget (tp_terminals p) (tq_join q) of
        None \<Rightarrow> Inl (AccessError 404 ''this terminal is gone'')
      | Some s \<Rightarrow>
          if ts_closing s \<or> ts_device s \<noteq> tq_device q then Inl (AccessError 404 ''this terminal is gone'')
          else if \<not> visible_to s i then Inl (AccessError 403 ''private terminal'')
          else if tq_readonly q then
            (if MAX_READONLY_CLIENTS_PER_SESSION \<le> viewer_count s
             then Inl (AccessError 429 ''too many viewers on this terminal'') else Inr (Joins (tq_join q)))
          else if MAX_CLIENTS_PER_SESSION \<le> writer_count s
            then Inl (AccessError 429 ''too many viewers on this terminal'')
          else Inr (Joins (tq_join q)))"

definition make_room :: "term_caps \<Rightarrow> string \<Rightarrow> term_project \<Rightarrow> term_project" where
  "make_room caps device p =
     (let p = (if tk_per_device caps \<le> terminals_on p device then evict_lingering (Some device) p else p)
      in if tk_per_project caps \<le> terminal_count p then evict_lingering None p else p)"

definition admit_open :: "term_caps \<Rightarrow> term_project \<Rightarrow> identity \<Rightarrow> term_request \<Rightarrow> (access_error + admission) \<times> term_project" where
  "admit_open caps p i q =
     (let privileged = is_privileged_caller (tp_rln p) i in
      if tq_private q \<and> \<not> is_instructor i then (Inl (AccessError 403 ''private terminals are for instructors''), p)
      else case check_device (tp_info p) (tq_device q) i privileged of
          Inl e \<Rightarrow> (Inl e, p)
        | Inr d \<Rightarrow>
            (let private = tq_private q \<or> (privileged \<and> \<not> device_open_to_students (tp_info p) (tq_device q));
                 p = make_room caps (tq_device q) p
             in if tk_per_project caps \<le> terminal_count p \<or> tk_per_device caps \<le> terminals_on p (tq_device q)
                then (Inl (AccessError 429 ''too many terminals''), p)
                else (Inr (Opens privileged private), p)))"

text \<open>\<open>exam_host\<close>: the host is in exam mode (\<open>check_not_exam\<close>). The caller has passed \<open>_project\<close>:
  a known project, and \<open>check_owner\<close>.\<close>

definition admit :: "term_caps \<Rightarrow> bool \<Rightarrow> term_project \<Rightarrow> identity \<Rightarrow> term_request \<Rightarrow> (access_error + admission) \<times> term_project" where
  "admit caps exam_host p i q =
     (if exam_host then (Inl (AccessError 409 ''this host is in exam mode''), p)
      else case check_exam_action (tp_exam p) (is_privileged_caller (tp_rln p) i) False of
          Inl e \<Rightarrow> (Inl e, p)
        | Inr u \<Rightarrow>
            if tp_closing p then (Inl (AccessError 404 ''the project is closing''), p)
            else if tq_readonly q \<and> tq_join q = [] then (Inl (AccessError 403 ''a read-only terminal must join a session''), p)
            else if tq_join q \<noteq> [] then (admit_join p i q, p)
            else admit_open caps p i q)"

text \<open>The session of a granted opening, under a new id, when the child could be spawned.\<close>

definition open_terminal :: "string \<Rightarrow> string \<Rightarrow> string \<Rightarrow> bool \<Rightarrow> int \<Rightarrow> int \<Rightarrow> real \<Rightarrow> term_project \<Rightarrow> term_project" where
  "open_terminal k device who private cols rows linger p =
     p\<lparr>tp_terminals := dset (tp_terminals p) k (start_session device who private cols rows linger)\<rparr>"

definition terminal_closed :: "string \<Rightarrow> term_project \<Rightarrow> term_project" where
  "terminal_closed k p = p\<lparr>tp_terminals := dpop (tp_terminals p) k\<rparr>"

section \<open>The caps\<close>

lemma evict_shrinks: "terminal_count (evict_lingering d p) \<le> terminal_count p" "terminals_on (evict_lingering d p) x \<le> terminals_on p x"
proof -
  have len: "length (dpop d k) \<le> length d" for d :: "(string \<times> session) list" and k by (simp add: AList.delete_eq)
  show "terminal_count (evict_lingering d p) \<le> terminal_count p"
    by (simp add: evict_lingering_def terminal_count_def Let_def len split: option.split prod.split)
  have "length (filter P (vals_of (dpop d k))) \<le> length (filter P (vals_of d))" for P and d :: "(string \<times> session) list" and k
    by (induction d) (auto simp: vals_of_def)
  then show "terminals_on (evict_lingering d p) x \<le> terminals_on p x"
    by (simp add: evict_lingering_def terminals_on_def Let_def split: option.split prod.split)
qed

lemma evict_sessions: "set (tp_terminals (evict_lingering d p)) \<subseteq> set (tp_terminals p)"
  "tp_info (evict_lingering d p) = tp_info p" "tp_rln (evict_lingering d p) = tp_rln p"
  by (auto simp: evict_lingering_def Let_def AList.delete_eq split: option.split)

lemma make_room_sessions: "set (tp_terminals (make_room caps d p)) \<subseteq> set (tp_terminals p)"
  "tp_info (make_room caps d p) = tp_info p" "tp_rln (make_room caps d p) = tp_rln p"
  using evict_sessions [of "Some d" p] evict_sessions [of None "evict_lingering (Some d) p"] evict_sessions [of None p]
  by (auto simp: make_room_def Let_def)

lemma admit_sessions:
  assumes "admit caps exam_host p i q = (r, p')"
  shows "set (tp_terminals p') \<subseteq> set (tp_terminals p)" "tp_info p' = tp_info p" "tp_rln p' = tp_rln p"
proof -
  have "p' = p \<or> p' = make_room caps (tq_device q) p"
    using assms by (auto simp: admit_def admit_open_def Let_def split: if_splits sum.splits)
  then show "set (tp_terminals p') \<subseteq> set (tp_terminals p)" "tp_info p' = tp_info p" "tp_rln p' = tp_rln p"
    using make_room_sessions [of caps "tq_device q" p] by auto
qed

section \<open>The terminals of a student's project\<close>

text \<open>A device closed to students has private sessions only, and none of the owner.\<close>

definition sessions_private :: "term_project \<Rightarrow> bool" where
  "sessions_private p \<longleftrightarrow> (\<forall>s \<in> set (vals_of (tp_terminals p)).
     \<not> device_open_to_students (tp_info p) (ts_device s) \<longrightarrow> ts_private s \<and> ts_created_by s \<noteq> owner_of (tp_rln p))"

text \<open>The caller passed \<open>check_owner\<close>, and the owner of the project is a student.\<close>

definition caller_ok :: "term_project \<Rightarrow> identity \<Rightarrow> bool" where
  "caller_ok p i \<longleftrightarrow> check_owner (tp_rln p) i = Inr () \<and> (login i = owner_of (tp_rln p) \<longrightarrow> role_of i = Student)"

text \<open>A request, the end of a session, and any operation of a session; the ids are those the events
  give (\<open>secrets.token_urlsafe\<close>), a new one must be free.\<close>

datatype access_event = AOpen term_caps bool identity term_request string int int real
  | AClosed string | ASession string term_event

fun exec_access :: "access_event \<Rightarrow> term_project \<Rightarrow> term_project" where
  "exec_access (AOpen caps exam_host i q k cols rows linger) p =
     (case admit caps exam_host p i q of
        (Inr (Opens privileged private), p') \<Rightarrow>
          if k \<in> set (keys_of (tp_terminals p')) then p'
          else open_terminal k (tq_device q) (login i) private cols rows linger p'
      | (_, p') \<Rightarrow> p')"
| "exec_access (AClosed k) p = terminal_closed k p"
| "exec_access (ASession k e) p =
     (case dget (tp_terminals p) k of
        None \<Rightarrow> p
      | Some s \<Rightarrow> p\<lparr>tp_terminals := dset (tp_terminals p) k (exec_term e s)\<rparr>)"

fun event_caller_ok :: "term_project \<Rightarrow> access_event \<Rightarrow> bool" where
  "event_caller_ok p (AOpen caps exam_host i q k cols rows linger) \<longleftrightarrow> caller_ok p i"
| "event_caller_ok p _ \<longleftrightarrow> True"

inductive access_step :: "term_project \<Rightarrow> term_project \<Rightarrow> bool" where
  "event_caller_ok p e \<Longrightarrow> access_step p (exec_access e p)"

inductive_cases access_stepE: "access_step p p'"

text \<open>What a session is opened with never changes.\<close>

definition same_opening :: "session \<Rightarrow> session \<Rightarrow> bool" where
  "same_opening s t \<longleftrightarrow> ts_device t = ts_device s \<and> ts_private t = ts_private s \<and> ts_created_by t = ts_created_by s"

lemma opening_trans: "same_opening s t \<Longrightarrow> same_opening t u \<Longrightarrow> same_opening s u"
  by (simp add: same_opening_def)

lemma opening_basic: "same_opening s s" "same_opening s (changed s)" "same_opening s (cancel_linger s)"
  "same_opening s (put_client k c s)" "same_opening s (map_clients f s)" "same_opening s (write_pty d ans s)"
  "same_opening s (update_pending s)" "same_opening s (finished s)" "same_opening s (start_linger tm s)"
  by (simp_all add: same_opening_def changed_def cancel_linger_def put_client_def map_clients_def write_pty_def
      update_pending_def finished_def start_linger_def Let_def)

lemma opening_size: "same_opening s (apply_size s)"
  by (simp add: same_opening_def apply_size_def map_clients_def Let_def)

lemma opening_input: "same_opening s (probe ans s)" "same_opening s (show_up ans s)" "same_opening s (client_types k d ans s)"
  "same_opening s (probe_timeout ans s)" "same_opening s (hold_timeout ans s)"
  by (simp_all add: same_opening_def probe_def show_up_def client_types_def type_in_def probe_timeout_def hold_timeout_def
      write_pty_def Let_def split: option.split)

lemma opening_output: "same_opening s (on_output d ans s)"
proof -
  have "same_opening s (show_up ans s)" by (rule opening_input)
  then show ?thesis by (simp add: on_output_def same_opening_def update_pending_def map_clients_def Let_def)
qed

lemma opening_drain: "same_opening s (fold (\<lambda>d. on_output d ans) chunks s)"
  by (induction chunks arbitrary: s) (auto intro: opening_basic(1) opening_trans [OF opening_output])

lemma opening_exit: "same_opening s (wait_exit rc chunks ans s)"
  using opening_drain [of "s\<lparr>ts_pty := (ts_pty s)\<lparr>pt_alive := False\<rparr>\<rparr>" ans chunks]
  by (simp add: wait_exit_def on_exit_def finished_def cancel_linger_def map_clients_def same_opening_def Let_def)

lemma opening_pump: "same_opening s (pump_exit k s)" "same_opening s (pump_data k s)"
  by (simp_all add: pump_exit_def pump_data_def same_opening_def put_client_def update_pending_def Let_def split: option.split)

lemma opening_wake: "same_opening s (pump_wake k s)"
  using opening_trans [OF opening_basic(4) opening_pump(2)]
  by (auto simp: pump_wake_def opening_basic split: option.split)

lemma opening_exec: "same_opening s (exec_term e s)"
proof (cases e)
  case (TAttach who c r ro)
  have "same_opening s (snd (attach who c r ro s))"
    by (simp add: attach_eq changed_def put_client_def cancel_linger_def apply_size_def map_clients_def same_opening_def Let_def)
  moreover have "same_opening t (ready k t)" for k t by (simp add: ready_def opening_basic split: option.split)
  ultimately show ?thesis using TAttach opening_trans by (auto simp: case_prod_beta)
next
  case (TDetach tm k b)
  then show ?thesis
    by (simp add: detach_def changed_def apply_size_def map_clients_def start_linger_def same_opening_def Let_def)
next
  case (TResize k c r)
  then show ?thesis using opening_trans [OF opening_basic(4) opening_size] opening_basic(1)
    by (simp add: resize_client_def split: option.split)
next
  case (TRead x ans)
  then show ?thesis by (cases x) (simp_all add: on_readable_def opening_output opening_basic, simp add: same_opening_def)
qed (simp_all add: opening_basic opening_input opening_exit opening_wake opening_pump close_ends_def pump_next_def pump_fails_def
    split: option.split pump_stage.split,
    simp_all add: same_opening_def linger_expired_def close_session_def cancel_linger_def Let_def)

section \<open>What a student is granted\<close>

lemma student_check: "role_of i = Student \<Longrightarrow> check_device info d i False = check_device info d student_path False"
  by (simp add: check_device_def visible_machines_def student_path_def)

lemma open_iff: "device_open_to_students info d \<longleftrightarrow> (\<exists>x. check_device info d student_path False = Inr x)"
  by (auto simp: device_open_to_students_def split: sum.splits)

lemma opened_private:
  assumes "admit caps exam_host p i q = (Inr (Opens privileged private), p')" "caller_ok p i"
    and "\<not> device_open_to_students (tp_info p) (tq_device q)"
  shows "private \<and> login i \<noteq> owner_of (tp_rln p)"
proof -
  have opens: "admit_open caps p i q = (Inr (Opens privileged private), p')"
    using assms(1) by (auto simp: admit_def admit_join_def split: if_splits sum.splits option.splits)
  obtain d where d: "check_device (tp_info p) (tq_device q) i (is_privileged_caller (tp_rln p) i) = Inr d"
    and pr: "private \<longleftrightarrow> tq_private q \<or> (is_privileged_caller (tp_rln p) i \<and> \<not> device_open_to_students (tp_info p) (tq_device q))"
    using opens by (auto simp: admit_open_def Let_def split: if_splits sum.splits)
  have "is_privileged_caller (tp_rln p) i"
  proof (rule ccontr)
    assume no: "\<not> is_privileged_caller (tp_rln p) i"
    have "role_of i = Student"
    proof (cases "role_of i")
      case Instructor
      then have "login i = owner_of (tp_rln p)" using no by (simp add: is_privileged_caller_def)
      then show ?thesis using assms(2) by (simp add: caller_ok_def)
    qed
    then have "check_device (tp_info p) (tq_device q) student_path False = Inr d" using d no student_check by simp
    then show False using assms(3) by (simp add: open_iff)
  qed
  then show ?thesis using pr assms(3) by (auto simp: is_privileged_caller_def)
qed

lemma vals_dset_sub: "set (vals_of (dset d k v)) \<subseteq> insert v (set (vals_of d))"
  by (induction d) (auto simp: vals_of_def)

lemma vals_mono: "set d \<subseteq> set e \<Longrightarrow> set (vals_of d) \<subseteq> set (vals_of e)"
  by (auto simp: vals_of_def)

lemma private_kept:
  assumes "sessions_private p" "event_caller_ok p e"
  shows "sessions_private (exec_access e p) \<and> tp_info (exec_access e p) = tp_info p \<and> tp_rln (exec_access e p) = tp_rln p"
proof (cases e)
  case (AOpen caps exam_host i q k cols rows linger)
  obtain r p' where ad: "admit caps exam_host p i q = (r, p')" by (meson surj_pair)
  note sub = vals_mono [OF admit_sessions(1) [OF ad]] admit_sessions(2,3) [OF ad]
  have p': "sessions_private p'" using assms(1) sub by (auto simp: sessions_private_def)
  show ?thesis
  proof (cases "\<exists>a b. r = Inr (Opens a b) \<and> k \<notin> set (keys_of (tp_terminals p'))")
    case False
    then have "exec_access e p = p'" using AOpen ad by (auto split: sum.split admission.split)
    then show ?thesis using p' sub by simp
  next
    case True
    then obtain a b where r: "r = Inr (Opens a b)" "k \<notin> set (keys_of (tp_terminals p'))" by blast
    let ?n = "start_session (tq_device q) (login i) b cols rows linger"
    have eq: "exec_access e p = p'\<lparr>tp_terminals := dset (tp_terminals p') k ?n\<rparr>" using AOpen ad r by (simp add: open_terminal_def)
    have "\<not> device_open_to_students (tp_info p) (ts_device ?n) \<longrightarrow> ts_private ?n \<and> ts_created_by ?n \<noteq> owner_of (tp_rln p)"
      using opened_private ad r assms(2) AOpen by (simp add: start_session_def) blast
    then have "sessions_private (exec_access e p)"
      using p' sub vals_dset_sub [of k ?n "tp_terminals p'"] unfolding eq sessions_private_def by auto
    then show ?thesis using sub by (simp add: eq)
  qed
next
  case (AClosed k)
  then show ?thesis using assms(1) vals_mono [of "dpop (tp_terminals p) k" "tp_terminals p"]
    by (auto simp: terminal_closed_def sessions_private_def AList.delete_eq)
next
  case (ASession k x)
  show ?thesis
  proof (cases "dget (tp_terminals p) k")
    case None
    then show ?thesis using ASession assms by simp
  next
    case (Some s)
    have eq: "exec_access e p = p\<lparr>tp_terminals := dset (tp_terminals p) k (exec_term x s)\<rparr>" using ASession Some by simp
    have "s \<in> set (vals_of (tp_terminals p))" using Some by (rule dget_vals)
    then have "\<not> device_open_to_students (tp_info p) (ts_device (exec_term x s)) \<longrightarrow>
        ts_private (exec_term x s) \<and> ts_created_by (exec_term x s) \<noteq> owner_of (tp_rln p)"
      using assms(1) opening_exec [of s x] by (simp add: sessions_private_def same_opening_def)
    then have "sessions_private (exec_access e p)"
      using assms(1) vals_dset_sub [of k "exec_term x s" "tp_terminals p"] unfolding eq sessions_private_def by auto
    then show ?thesis by (simp add: eq)
  qed
qed

interpretation access_machine: invariant_machine "\<lambda>p. tp_terminals p = []" access_step sessions_private
proof
  show "tp_terminals p = [] \<Longrightarrow> sessions_private p" for p by (simp add: sessions_private_def vals_of_def)
  show "sessions_private p \<Longrightarrow> access_step p p' \<Longrightarrow> sessions_private p'" for p p'
    using private_kept by (auto elim!: access_stepE)
qed

text \<open>C5: A student reaches no terminal of a closed device: whatever terminals the owner and the
  instructors have opened, joined and left on the project of a student, the only terminals the
  student is granted, new or joined, read-only or not, are on devices the lab opens to students;
  the shell an instructor opened on a hidden machine or a closed switch cannot be joined.\<close>

theorem student_terminals:
  assumes "tp_terminals p0 = []" "access_step\<^sup>*\<^sup>* p0 p" "caller_ok p i" "role_of i = Student"
    and "admit caps exam_host p i q = (Inr granted, p')"
  shows "device_open_to_students (tp_info p) (tq_device q)"
proof (rule ccontr)
  assume closed: "\<not> device_open_to_students (tp_info p) (tq_device q)"
  have inv: "sessions_private p" using assms(1,2) by (rule access_machine.reach_inv)
  have own: "login i = owner_of (tp_rln p)" using assms(3,4) by (auto simp: caller_ok_def check_owner_def split: if_splits)
  show False
  proof (cases granted)
    case (Opens a b)
    then show False using opened_private [OF _ assms(3) closed] assms(5) own by blast
  next
    case (Joins k)
    have "admit_join p i q = Inr (Joins k)"
      using assms(5) unfolding Joins by (auto simp: admit_def admit_open_def Let_def split: if_splits sum.splits)
    then obtain s where s: "dget (tp_terminals p) (tq_join q) = Some s" "ts_device s = tq_device q" "visible_to s i"
      by (auto simp: admit_join_def split: option.splits if_splits)
    have "ts_private s \<and> ts_created_by s \<noteq> owner_of (tp_rln p)"
      using inv dget_vals [OF s(1)] closed s(2) by (auto simp: sessions_private_def)
    then show False using s(3) own assms(4) by (auto simp: visible_to_def is_instructor_def)
  qed
qed

definition demo_teacher :: identity where
  "demo_teacher = student_path\<lparr>login := ''ann'', role_of := Instructor\<rparr>"

definition demo_owner :: identity where
  "demo_owner = student_path\<lparr>login := ''bob''\<rparr>"

definition demo_terminals :: term_project where
  "demo_terminals = \<lparr>tp_rln = ''1@@@dns@@@bob'', tp_closing = False, tp_exam = None, tp_info = demo_lab, tp_terminals = [],
     tp_ending = []\<rparr>"

definition demo_caps :: term_caps where
  "demo_caps = \<lparr>tk_per_device = 4, tk_per_project = 12\<rparr>"

definition demo_opened :: term_project where
  "demo_opened = exec_access (AOpen demo_caps False demo_teacher
     \<lparr>tq_device = ''check'', tq_join = [], tq_private = False, tq_readonly = False\<rparr> ''t1'' 80 24 0) demo_terminals"

lemma demo_owner_of: "owner_of ''1@@@dns@@@bob'' = ''bob''"
  by (simp add: owner_of_def get_username_from_running_lab_name_def rln_match_def before_dollar_def is_digit_def starts3_def sep3_def)

lemmas demo_access_simps = demo_teacher_def demo_owner_def demo_terminals_def demo_caps_def demo_lab_def student_path_def
  demo_owner_of admit_def admit_open_def admit_join_def make_room_def check_exam_action_def check_device_def visible_machines_def
  is_privileged_caller_def terminals_on_def terminal_count_def device_open_to_students_def vals_of_def keys_of_def open_terminal_def
  start_session_def visible_to_def is_instructor_def caller_ok_def check_owner_def not_allowed_def Let_def

lemma demo_opened_session:
  "\<exists>s. tp_terminals demo_opened = [(''t1'', s)] \<and> ts_private s \<and> ts_device s = ''check''" "tp_info demo_opened = demo_lab"
  by (simp_all add: demo_opened_def demo_access_simps)

lemma demo_granted:
  "admit demo_caps False demo_opened demo_owner \<lparr>tq_device = ''pc'', tq_join = [], tq_private = False, tq_readonly = False\<rparr> =
     (Inr (Opens False False), demo_opened)"
  by (simp add: demo_opened_def demo_access_simps)

theorem student_terminals_witness: "device_open_to_students (tp_info demo_opened) ''pc'' \<and> tp_terminals demo_opened \<noteq> []"
proof -
  have "caller_ok demo_terminals demo_teacher" by (simp add: demo_access_simps)
  then have step: "access_step demo_terminals demo_opened"
    unfolding demo_opened_def by (intro access_step.intros) simp
  have "tp_rln demo_opened = ''1@@@dns@@@bob''" by (simp add: demo_opened_def demo_access_simps)
  then have "caller_ok demo_opened demo_owner" by (simp add: demo_access_simps)
  with student_terminals [OF _ r_into_rtranclp [of access_step, OF step] _ _ demo_granted]
  have "device_open_to_students (tp_info demo_opened) ''pc''" by (simp add: demo_terminals_def demo_owner_def student_path_def)
  then show ?thesis using demo_opened_session(1) by auto
qed

end
