(* ===== verification/Evaluation_Table.thy ===== *)
theory Evaluation_Table
  imports Prelude "HOL-Library.Multiset"
begin

text \<open>
  The evaluation table of a project, \<^verbatim>\<open>src/src/SRE/evaluation_table.py\<close>: the rows the GUI and the
  web pages show, computed from the grades and the grade parts printed by \<open>sre eval\<close>, with the
  texts of \<^verbatim>\<open>src/src/SRE/common.py\<close> they use. The numbers are those of the JSON, integers or
  doubles: the model only uses zero, the addition and the comparisons of their type, and assumes
  no law of them (the addition of doubles is not associative), so that a total is the sum in the
  order of the code. \<open>numerals\<close> holds what Python's \<open>int\<close> and \<open>str\<close> do on them. The texts given
  to \<open>translate\<close> are an argument, as in the code.
\<close>

unbundle bit_operations_syntax

section \<open>Texts\<close>

text \<open>A title or a description in the JSON: absent or null, a string, or one text per language.\<close>

datatype tt_value = NoText | Plain string | Langs "(string \<times> string) list"

type_synonym translated = "(string \<times> string) list"

definition from_value :: "tt_value \<Rightarrow> translated" where
  "from_value v = (case v of
     Langs d \<Rightarrow> d
   | Plain s \<Rightarrow> if s = [] then [] else [(''en'', s)]
   | NoText \<Rightarrow> [])"

fun first_text :: "translated \<Rightarrow> string" where
  "first_text [] = []"
| "first_text ((l, t) # d) = t"

fun resolve_priority :: "translated \<Rightarrow> string list \<Rightarrow> string" where
  "resolve_priority d [] = first_text d"
| "resolve_priority d (l # ls) = (case dget d l of
     Some t \<Rightarrow> if t = [] then resolve_priority d ls else t
   | None \<Rightarrow> resolve_priority d ls)"

definition bonus_texts :: "string \<Rightarrow> string \<Rightarrow> bool \<Rightarrow> bool \<Rightarrow> string \<Rightarrow> string \<times> string" where
  "bonus_texts lbl max_text bonus in_prefix word =
     (if \<not> bonus then (lbl, max_text)
      else if in_prefix then (word @ '': '' @ lbl, max_text)
      else (lbl, py_strip (max_text @ '' ('' @ word @ '')'')))"

text \<open>\<open>template.format(part=...)\<close>, for a template whose only field is \<open>{part}\<close>.\<close>

fun format_part :: "string \<Rightarrow> string \<Rightarrow> string" where
  "format_part [] p = []"
| "format_part (c # cs) p =
     (if take 6 (c # cs) = ''{part}'' then p @ format_part (drop 5 cs) p else c # format_part cs p)"

section \<open>The data\<close>

text \<open>
  A grade element, with the keys of its dictionary the table reads (\<open>None\<close> for an absent key or a
  null). \<open>ge_bonus\<close> is the truth of its \<open>bonus\<close>.
\<close>

record 'n grade_element =
  ge_title :: tt_value
  ge_max_grade :: "'n option"
  ge_grade :: "'n option"
  ge_grade_letter :: "string option"
  ge_description :: tt_value
  ge_scope :: "int option"
  ge_grade_part :: "string option"
  ge_bonus :: bool

record grade_part =
  gp_title :: string
  gp_description :: tt_value

datatype align = ALeft | ACenter | ARight

record cell =
  cell_text :: string
  cell_color :: "string option"
  cell_align :: align

datatype row_kind = KIND_PART_HEADER | KIND_ELEMENT | KIND_PART_TOTAL | KIND_SEPARATOR | KIND_TOTAL
  | KIND_TOTAL_SELF | KIND_TOTAL_EXO | KIND_MARK

record row =
  row_kind :: row_kind
  row_cells :: "cell list"
  row_bold :: bool
  row_span :: bool

definition mk_cell :: "string \<Rightarrow> string option \<Rightarrow> cell" where
  "mk_cell t c = \<lparr>cell_text = t, cell_color = c, cell_align = ALeft\<rparr>"

definition GRADE_OK_COLOR :: string where "GRADE_OK_COLOR = ''#a8f0a8''"
definition GRADE_MEH_COLOR :: string where "GRADE_MEH_COLOR = ''#f0e8a8''"
definition GRADE_FAIL_COLOR :: string where "GRADE_FAIL_COLOR = ''#f0a8a8''"
definition TOTAL_COLOR :: string where "TOTAL_COLOR = ''#dde8f5''"
definition ZEBRA_COLOR :: string where "ZEBRA_COLOR = ''#f0f0f0''"
definition SEPARATOR_COLOR :: string where "SEPARATOR_COLOR = ''#000000''"

definition SELF_EVAL_SCOPE :: int where "SELF_EVAL_SCOPE = 1"
definition EXO_EVAL_SCOPE :: int where "EXO_EVAL_SCOPE = 2"
definition BOTH_EVAL_SCOPE :: int where "BOTH_EVAL_SCOPE = SELF_EVAL_SCOPE OR EXO_EVAL_SCOPE"

text \<open>
  What a call of the table is given besides the grades: the numbers' \<open>int\<close>, its converse and
  their \<open>str\<close>, the debug variant or not, the languages of the reader and \<open>translate\<close>.
\<close>

record 'n table_args =
  int_of :: "'n \<Rightarrow> int"
  of_pyint :: "int \<Rightarrow> 'n"
  str_of :: "'n \<Rightarrow> string"
  ta_debug :: bool
  ta_langs :: "string list"
  ta_translate :: "string \<Rightarrow> string"

section \<open>The routines\<close>

definition fmt_num :: "'n table_args \<Rightarrow> 'n \<Rightarrow> string" where
  "fmt_num A v = (if v = of_pyint A (int_of A v) then str_int (int_of A v) else str_of A v)"

definition grade_color :: "string option \<Rightarrow> 'n::{zero,ord} option \<Rightarrow> 'n option \<Rightarrow> string option" where
  "grade_color letter grade max_grade = (case letter of
     Some l \<Rightarrow> map_of [(''OK'', GRADE_OK_COLOR), (''MEH'', GRADE_MEH_COLOR), (''FAIL'', GRADE_FAIL_COLOR)] l
   | None \<Rightarrow> (case (grade, max_grade) of
       (Some g, Some m) \<Rightarrow>
         if g = 0 \<and> m = 0 then Some GRADE_OK_COLOR
         else if m \<le> g then Some GRADE_OK_COLOR
         else if 0 < g then Some GRADE_MEH_COLOR
         else Some GRADE_FAIL_COLOR
     | _ \<Rightarrow> None))"

definition header_labels :: "bool \<Rightarrow> (string \<Rightarrow> string) \<Rightarrow> string list" where
  "header_labels debug translate =
     (if debug then [translate ''Element'', translate ''Scope'', translate ''self Grade'',
                     translate ''exo Grade'', translate ''Max grade'']
      else [translate ''Element'', translate ''Grade'', translate ''Max grade''])"

type_synonym 'n group = "grade_part option \<times> 'n grade_element list"
type_synonym 'n part_dict = "(string \<times> (grade_part \<times> 'n grade_element list)) list"

definition setdefault_part :: "'n part_dict \<Rightarrow> grade_part \<Rightarrow> 'n part_dict" where
  "setdefault_part gs p = (if dget gs (gp_title p) = None then dset gs (gp_title p) (p, []) else gs)"

definition place_element :: "'n part_dict \<times> 'n grade_element list \<Rightarrow> 'n grade_element
    \<Rightarrow> 'n part_dict \<times> 'n grade_element list" where
  "place_element st e = (case st of (gs, ungrouped) \<Rightarrow> (case ge_grade_part e of
     None \<Rightarrow> (gs, ungrouped @ [e])
   | Some t \<Rightarrow> (case dget gs t of
       None \<Rightarrow> (gs, ungrouped @ [e])
     | Some (p, es) \<Rightarrow> (dset gs t (p, es @ [e]), ungrouped))))"

definition group_by_part :: "'n grade_element list \<Rightarrow> grade_part list \<Rightarrow> 'n group list" where
  "group_by_part grades parts =
     (let (gs, ungrouped) = foldl place_element (foldl setdefault_part [] parts, []) grades
      in map (\<lambda>(p, es). (Some p, es)) (vals_of gs) @ [(None, ungrouped)])"

definition element_scope :: "'n grade_element \<Rightarrow> int" where
  "element_scope e = (case ge_scope e of
     None \<Rightarrow> BOTH_EVAL_SCOPE
   | Some s \<Rightarrow> if s = 0 then BOTH_EVAL_SCOPE else s)"

definition scope_label :: "int \<Rightarrow> string" where
  "scope_label s = (case map_of [(SELF_EVAL_SCOPE, ''self''), (EXO_EVAL_SCOPE, ''exo''),
       (BOTH_EVAL_SCOPE, ''both'')] s of Some l \<Rightarrow> l | None \<Rightarrow> str_int s)"

record 'n totals =
  t_grade :: 'n
  t_max :: 'n
  t_has_numeric :: bool

definition no_totals :: "'n::zero totals" where
  "no_totals = \<lparr>t_grade = 0, t_max = 0, t_has_numeric = False\<rparr>"

definition add_totals :: "'n::plus option \<Rightarrow> 'n option \<Rightarrow> bool \<Rightarrow> 'n totals \<Rightarrow> 'n totals" where
  "add_totals grade max_grade bonus t =
     (let t1 = (case grade of Some g \<Rightarrow> t\<lparr>t_grade := t_grade t + g, t_has_numeric := True\<rparr> | None \<Rightarrow> t)
      in (case max_grade of Some m \<Rightarrow> if bonus then t1 else t1\<lparr>t_max := t_max t1 + m\<rparr> | None \<Rightarrow> t1))"

text \<open>The three accumulators of a part, and of the table: of the student table and of each scope.\<close>

record 'n tallies =
  s_all :: "'n totals"
  s_self :: "'n totals"
  s_exo :: "'n totals"

definition no_tallies :: "'n::zero tallies" where
  "no_tallies = \<lparr>s_all = no_totals, s_self = no_totals, s_exo = no_totals\<rparr>"

definition in_self :: "'n grade_element \<Rightarrow> bool" where
  "in_self e \<longleftrightarrow> element_scope e AND SELF_EVAL_SCOPE \<noteq> 0"

definition in_exo :: "'n grade_element \<Rightarrow> bool" where
  "in_exo e \<longleftrightarrow> element_scope e AND EXO_EVAL_SCOPE \<noteq> 0"

definition add_element :: "bool \<Rightarrow> 'n::plus grade_element \<Rightarrow> 'n tallies \<Rightarrow> 'n tallies" where
  "add_element debug e s =
     (let add = add_totals (ge_grade e) (ge_max_grade e) (ge_bonus e) in
      if debug then
        (let s1 = (if in_self e then s\<lparr>s_self := add (s_self s)\<rparr> else s)
         in (if in_exo e then s1\<lparr>s_exo := add (s_exo s1)\<rparr> else s1))
      else if ge_grade_letter e \<noteq> None then s
      else s\<lparr>s_all := add (s_all s)\<rparr>)"

section \<open>The rows\<close>

definition text_of :: "'n table_args \<Rightarrow> tt_value \<Rightarrow> string" where
  "text_of A v = resolve_priority (from_value v) (ta_langs A)"

definition label_of :: "'n table_args \<Rightarrow> tt_value \<Rightarrow> tt_value \<Rightarrow> string" where
  "label_of A description title =
     (if text_of A description \<noteq> [] then text_of A description else text_of A title)"

definition part_label :: "'n table_args \<Rightarrow> grade_part \<Rightarrow> string" where
  "part_label A p = label_of A (gp_description p) (Plain (gp_title p))"

definition total_row :: "row_kind \<Rightarrow> string list \<Rightarrow> row" where
  "total_row k texts = \<lparr>row_kind = k, row_cells = map (\<lambda>t. mk_cell t (Some TOTAL_COLOR)) texts,
     row_bold = True, row_span = False\<rparr>"

definition part_total_label :: "'n table_args \<Rightarrow> grade_part \<Rightarrow> string" where
  "part_total_label A p = format_part (ta_translate A ''Total for {part}'') (part_label A p)"

definition part_header :: "'n table_args \<Rightarrow> grade_part \<Rightarrow> row" where
  "part_header A p = \<lparr>row_kind = KIND_PART_HEADER,
     row_cells = [\<lparr>cell_text = part_label A p, cell_color = Some TOTAL_COLOR, cell_align = ACenter\<rparr>],
     row_bold = True, row_span = True\<rparr>"

definition separator :: row where
  "separator = \<lparr>row_kind = KIND_SEPARATOR, row_cells = [mk_cell [] (Some SEPARATOR_COLOR)],
     row_bold = False, row_span = True\<rparr>"

definition or_else :: "'a option \<Rightarrow> 'a option \<Rightarrow> 'a option" where
  "or_else x y = (if x = None then y else x)"

definition element_row :: "'n::{zero,ord} table_args \<Rightarrow> nat \<Rightarrow> 'n grade_element \<Rightarrow> row" where
  "element_row A alt e =
     (let zebra = (if alt mod 2 \<noteq> 0 then Some ZEBRA_COLOR else None);
          num = (\<lambda>x. case x of None \<Rightarrow> [] | Some v \<Rightarrow> fmt_num A v);
          bonus_word = ta_translate A ''Bonus'';
          lbl = label_of A (ge_description e) (ge_title e);
          cells =
            (if ta_debug A then
               (let (element_label, max_text) = bonus_texts lbl (num (ge_max_grade e)) (ge_bonus e) False bonus_word;
                    color = or_else (grade_color None (ge_grade e) (ge_max_grade e)) zebra
                in [mk_cell element_label zebra,
                    mk_cell (scope_label (element_scope e)) zebra,
                    mk_cell (if in_self e then num (ge_grade e) else []) (if in_self e then color else zebra),
                    mk_cell (if in_exo e then num (ge_grade e) else []) (if in_exo e then color else zebra),
                    mk_cell max_text zebra])
             else
               (let (grade_text, max0) = (case ge_grade_letter e of
                       Some l \<Rightarrow> (if l \<in> set [''OK'', ''MEH'', ''FAIL''] then ta_translate A l else l, [])
                     | None \<Rightarrow> (num (ge_grade e), num (ge_max_grade e)));
                    (element_label, max_text) = bonus_texts lbl max0 (ge_bonus e) False bonus_word
                in [mk_cell element_label zebra,
                    mk_cell grade_text (or_else (grade_color (ge_grade_letter e) (ge_grade e) (ge_max_grade e)) zebra),
                    mk_cell max_text zebra]))
      in \<lparr>row_kind = KIND_ELEMENT, row_cells = cells, row_bold = False, row_span = False\<rparr>)"

fun element_loop :: "'n::{zero,plus,ord} table_args \<Rightarrow> nat \<Rightarrow> 'n grade_element list
    \<Rightarrow> row list \<times> 'n tallies \<times> 'n tallies \<Rightarrow> row list \<times> 'n tallies \<times> 'n tallies" where
  "element_loop A alt [] st = st"
| "element_loop A alt (e # es) (rows, part, whole) =
     element_loop A (Suc alt) es
       (rows @ [element_row A alt e], add_element (ta_debug A) e part, add_element (ta_debug A) e whole)"

definition part_total_rows :: "'n::ord table_args \<Rightarrow> grade_part \<Rightarrow> 'n tallies \<Rightarrow> row list" where
  "part_total_rows A p s =
     (let self_n = t_has_numeric (s_self s); exo_n = t_has_numeric (s_exo s) in
      if ta_debug A \<and> (self_n \<or> exo_n) then
        (let max_text =
           (if self_n \<and> exo_n then
              (if t_max (s_self s) = t_max (s_exo s) then fmt_num A (t_max (s_self s))
               else fmt_num A (t_max (s_self s)) @ '' / '' @ fmt_num A (t_max (s_exo s)))
            else fmt_num A (if self_n then t_max (s_self s) else t_max (s_exo s)))
         in [total_row KIND_PART_TOTAL
               [part_total_label A p, [],
                if self_n then fmt_num A (t_grade (s_self s)) else [],
                if exo_n then fmt_num A (t_grade (s_exo s)) else [],
                max_text]])
      else if \<not> ta_debug A \<and> t_has_numeric (s_all s) then
        [total_row KIND_PART_TOTAL
           [part_total_label A p, fmt_num A (t_grade (s_all s)), fmt_num A (t_max (s_all s))]]
      else [])"

fun last_group :: "int \<Rightarrow> 'n group list \<Rightarrow> int" where
  "last_group idx [] = -1"
| "last_group idx ((part, items) # gs) = (let m = last_group (idx + 1) gs in if items = [] then m else max idx m)"

fun group_loop :: "'n::{zero,plus,ord} table_args \<Rightarrow> int \<Rightarrow> int \<Rightarrow> 'n group list \<Rightarrow> row list \<times> 'n tallies
    \<Rightarrow> row list \<times> 'n tallies" where
  "group_loop A last_idx idx [] st = st"
| "group_loop A last_idx idx ((part, items) # gs) (rows, whole) =
     group_loop A last_idx (idx + 1) gs
       (if items = [] then (rows, whole)
        else
          (let rows1 = (case part of Some p \<Rightarrow> rows @ [part_header A p] | None \<Rightarrow> rows);
               (rows2, part_sums, whole2) = element_loop A 0 items (rows1, no_tallies, whole);
               rows3 = (case part of Some p \<Rightarrow> rows2 @ part_total_rows A p part_sums | None \<Rightarrow> rows2);
               rows4 = (if idx \<noteq> last_idx then rows3 @ [separator] else rows3)
           in (rows4, whole2)))"

definition mark_text :: "'n table_args \<Rightarrow> 'n option \<Rightarrow> 'n option \<Rightarrow> string option" where
  "mark_text A mark maximum_mark = (case mark of
     None \<Rightarrow> None
   | Some v \<Rightarrow> Some (case maximum_mark of
       None \<Rightarrow> str_of A v
     | Some m \<Rightarrow> str_of A v @ '' / '' @ str_of A m))"

definition last_rows :: "'n::ord table_args \<Rightarrow> 'n grade_element list \<Rightarrow> 'n tallies \<Rightarrow> string option \<Rightarrow> row list" where
  "last_rows A grades s m =
     (let tr = ta_translate A in
      if ta_debug A then
        [total_row KIND_TOTAL_SELF [tr ''Total (self)'', [], fmt_num A (t_grade (s_self s)), [], fmt_num A (t_max (s_self s))],
         total_row KIND_TOTAL_EXO [tr ''Total (exo)'', [], [], fmt_num A (t_grade (s_exo s)), fmt_num A (t_max (s_exo s))]]
        @ (case m of Some t \<Rightarrow> [total_row KIND_MARK [tr ''Mark'', [], t, [], []]] | None \<Rightarrow> [])
      else
        (let has_letter = list_ex (\<lambda>e. ge_grade_letter e \<noteq> None) grades
         in (if grades \<noteq> [] \<and> \<not> has_letter
             then [total_row KIND_TOTAL [tr ''Total'', fmt_num A (t_grade (s_all s)), fmt_num A (t_max (s_all s))]]
             else [total_row KIND_TOTAL [tr ''Total'', [], []]])
            @ (case m of Some t \<Rightarrow> [total_row KIND_MARK [tr ''Mark'', t, []]] | None \<Rightarrow> [])))"

definition build_evaluation_rows :: "'n::{zero,plus,ord} table_args \<Rightarrow> 'n grade_element list
    \<Rightarrow> grade_part list \<Rightarrow> 'n option \<Rightarrow> 'n option \<Rightarrow> row list" where
  "build_evaluation_rows A grades parts mark maximum_mark =
     (let groups = group_by_part grades parts;
          (rows, whole) = group_loop A (last_group 0 groups) 0 groups ([], no_tallies)
      in rows @ last_rows A grades whole (mark_text A mark maximum_mark))"

section \<open>What the table must be\<close>

text \<open>
  The table without the loops: the elements of a part are the grades that name it, in their order;
  the last group holds the grades that name no part of the list; an empty group has no row; the
  others are written one after the other, two of them apart by one separator.
\<close>

fun first_parts :: "grade_part list \<Rightarrow> grade_part list" where
  "first_parts [] = []"
| "first_parts (p # ps) = p # filter (\<lambda>q. gp_title q \<noteq> gp_title p) (first_parts ps)"

definition groups_spec :: "'n grade_element list \<Rightarrow> grade_part list \<Rightarrow> 'n group list" where
  "groups_spec grades parts =
     map (\<lambda>p. (Some p, filter (\<lambda>e. ge_grade_part e = Some (gp_title p)) grades)) (first_parts parts)
     @ [(None, filter (\<lambda>e. \<forall>p \<in> set parts. ge_grade_part e \<noteq> Some (gp_title p)) grades)]"

definition sum_of :: "bool \<Rightarrow> 'n::{zero,plus} grade_element list \<Rightarrow> 'n tallies" where
  "sum_of debug es = fold (add_element debug) es no_tallies"

definition element_rows :: "'n::{zero,ord} table_args \<Rightarrow> 'n grade_element list \<Rightarrow> row list" where
  "element_rows A es = map (\<lambda>(i, e). element_row A i e) (zip [0..<length es] es)"

definition group_rows :: "'n::{zero,plus,ord} table_args \<Rightarrow> 'n group \<Rightarrow> row list" where
  "group_rows A g = (case g of
     (Some p, items) \<Rightarrow> part_header A p # element_rows A items @ part_total_rows A p (sum_of (ta_debug A) items)
   | (None, items) \<Rightarrow> element_rows A items)"

fun with_separators :: "row list list \<Rightarrow> row list" where
  "with_separators [] = []"
| "with_separators [b] = b"
| "with_separators (b # b' # bs) = b @ separator # with_separators (b' # bs)"

definition table_spec :: "'n::{zero,plus,ord} table_args \<Rightarrow> 'n grade_element list
    \<Rightarrow> grade_part list \<Rightarrow> 'n option \<Rightarrow> 'n option \<Rightarrow> row list" where
  "table_spec A grades parts mark maximum_mark =
     (let groups = filter (\<lambda>g. snd g \<noteq> []) (groups_spec grades parts)
      in with_separators (map (group_rows A) groups)
         @ last_rows A grades (sum_of (ta_debug A) (concat (map snd groups))) (mark_text A mark maximum_mark))"

section \<open>The loops write that table\<close>

lemma element_loop_is:
  "element_loop A k es (rows, part, whole) =
     (rows @ map (\<lambda>(i, e). element_row A i e) (zip [k..<k + length es] es),
      fold (add_element (ta_debug A)) es part, fold (add_element (ta_debug A)) es whole)"
proof (induction es arbitrary: k rows part whole)
  case (Cons e es)
  have "[k..<k + length (e # es)] = k # [Suc k..<Suc k + length es]"
    using upt_conv_Cons [of k "k + length (e # es)"] by simp
  then show ?case by (simp add: Cons.IH)
qed simp

lemma last_group_none: "filter (\<lambda>g. snd g \<noteq> []) gs = [] \<Longrightarrow> last_group idx gs = -1"
  by (induction idx gs rule: last_group.induct) (auto simp: Let_def split: if_splits)

lemma last_group_some: "filter (\<lambda>g. snd g \<noteq> []) gs \<noteq> [] \<Longrightarrow> idx \<le> last_group idx gs"
  by (induction idx gs rule: last_group.induct) (auto simp: Let_def split: if_splits)

lemma group_loop_is:
  assumes "0 \<le> idx" and "filter (\<lambda>g. snd g \<noteq> []) gs \<noteq> [] \<Longrightarrow> last_idx = last_group idx gs"
  shows "group_loop A last_idx idx gs (rows, whole) =
     (rows @ with_separators (map (group_rows A) (filter (\<lambda>g. snd g \<noteq> []) gs)),
      fold (add_element (ta_debug A)) (concat (map snd gs)) whole)"
  using assms
proof (induction gs arbitrary: idx rows whole)
  case (Cons g gs)
  obtain part items where g: "g = (part, items)" by (cases g)
  let ?rest = "filter (\<lambda>g. snd g \<noteq> []) gs"
  have low: "last_group (idx + 1) gs = (if ?rest = [] then -1 else last_group (idx + 1) gs)"
      "?rest \<noteq> [] \<Longrightarrow> idx + 1 \<le> last_group (idx + 1) gs"
    using last_group_none [of gs "idx + 1"] last_group_some [of gs "idx + 1"] by auto
  show ?case
  proof (cases "items = []")
    case True
    then show ?thesis using Cons.prems g by (simp add: Cons.IH)
  next
    case False
    have last_idx: "last_idx = max idx (last_group (idx + 1) gs)"
      using Cons.prems(2) False g by (simp add: Let_def)
    have next_idx: "?rest \<noteq> [] \<Longrightarrow> last_idx = last_group (idx + 1) gs"
      using last_idx low(2) by simp
    have sep: "idx \<noteq> last_idx \<longleftrightarrow> ?rest \<noteq> []"
      using last_idx low Cons.prems(1) by (cases "?rest = []") auto
    have rest: "group_loop A last_idx (idx + 1) gs (rows', whole') =
        (rows' @ with_separators (map (group_rows A) ?rest),
         fold (add_element (ta_debug A)) (concat (map snd gs)) whole')" for rows' whole'
      using Cons.prems(1) next_idx by (intro Cons.IH) auto
    have sep_after: "with_separators (map (group_rows A) (filter (\<lambda>g. snd g \<noteq> []) (g # gs)))
        = group_rows A g @ (if ?rest = [] then [] else separator # with_separators (map (group_rows A) ?rest))"
      using False g by (cases ?rest) simp_all
    show ?thesis
      unfolding sep_after using False g sep
      by (cases part) (simp_all add: element_loop_is rest group_rows_def element_rows_def sum_of_def)
  qed
qed simp

lemma update_map: "distinct (map t ps) \<Longrightarrow> k \<in> t ` set ps
    \<Longrightarrow> dset (map (\<lambda>p. (t p, g p)) ps) k v = map (\<lambda>p. (t p, if t p = k then v else g p)) ps"
  by (induction ps) (auto simp: image_iff intro!: map_cong)

lemma first_parts_titles: "gp_title ` set (first_parts ps) = gp_title ` set ps"
proof (induction ps)
  case (Cons p ps)
  have "gp_title ` {x \<in> X. gp_title x \<noteq> gp_title p} = gp_title ` X - {gp_title p}" for X :: "grade_part set"
    by auto
  then show ?case using Cons.IH by simp
qed simp

lemma first_parts_distinct: "distinct (map gp_title (first_parts ps))"
  by (induction ps) (auto simp: distinct_map inj_on_def)

lemma setdefault_parts: "foldl setdefault_part gs ps =
    gs @ map (\<lambda>p. (gp_title p, (p, []))) (filter (\<lambda>p. gp_title p \<notin> set (map fst gs)) (first_parts ps))"
proof (induction ps arbitrary: gs)
  case (Cons p ps)
  show ?case
  proof (cases "gp_title p \<in> set (map fst gs)")
    case True
    then have "setdefault_part gs p = gs"
      by (auto simp: setdefault_part_def map_of_eq_None_iff)
    moreover have "filter (\<lambda>q. gp_title q \<notin> set (map fst gs) \<and> gp_title q \<noteq> gp_title p) (first_parts ps)
        = filter (\<lambda>q. gp_title q \<notin> set (map fst gs)) (first_parts ps)"
      using True by (intro filter_cong) force+
    ultimately show ?thesis using True Cons.IH [of gs]
      by (simp add: filter_filter conj_commute)
  next
    case False
    then have "dget gs (gp_title p) = None" by (simp add: map_of_eq_None_iff)
    then have "setdefault_part gs p = gs @ [(gp_title p, (p, []))]"
      using False by (simp add: setdefault_part_def update_new)
    moreover have "filter (\<lambda>q. gp_title q \<notin> set (map fst (gs @ [(gp_title p, (p, []))]))) (first_parts ps)
        = filter (\<lambda>q. gp_title q \<notin> set (map fst gs)) (filter (\<lambda>q. gp_title q \<noteq> gp_title p) (first_parts ps))"
      by (auto intro!: filter_cong simp: filter_filter)
    ultimately show ?thesis using False by (simp add: Cons.IH)
  qed
qed simp

lemma place_elements:
  assumes "distinct (map gp_title ps)"
  shows "foldl place_element (map (\<lambda>p. (gp_title p, (p, F p))) ps, ungrouped) es =
    (map (\<lambda>p. (gp_title p, (p, F p @ filter (\<lambda>e. ge_grade_part e = Some (gp_title p)) es))) ps,
     ungrouped @ filter (\<lambda>e. \<forall>p \<in> set ps. ge_grade_part e \<noteq> Some (gp_title p)) es)"
proof (induction es arbitrary: F ungrouped)
  case (Cons e es)
  show ?case
  proof (cases "\<exists>p \<in> set ps. ge_grade_part e = Some (gp_title p)")
    case True
    then obtain p where p: "p \<in> set ps" "ge_grade_part e = Some (gp_title p)" by blast
    have found: "map_of (map (\<lambda>p. (gp_title p, (p, F p))) ps) (gp_title p) = Some (p, F p)"
      using assms p by (intro map_of_is_SomeI) (auto simp: comp_def)
    have only: "q = p" if "q \<in> set ps" "gp_title q = gp_title p" for q
      using assms p that by (auto simp: distinct_map inj_on_def)
    have "place_element (map (\<lambda>p. (gp_title p, (p, F p))) ps, ungrouped) e =
        (map (\<lambda>q. (gp_title q, (q, if gp_title q = gp_title p then F q @ [e] else F q))) ps, ungrouped)"
      using p found only assms
      by (auto simp: place_element_def update_map intro!: map_cong)
    then show ?thesis using p only
      by (auto simp: Cons.IH [where F = "\<lambda>q. if gp_title q = gp_title p then F q @ [e] else F q"])
  next
    case False
    then have "place_element (map (\<lambda>p. (gp_title p, (p, F p))) ps, ungrouped) e =
        (map (\<lambda>p. (gp_title p, (p, F p))) ps, ungrouped @ [e])"
      by (auto simp: place_element_def map_of_eq_None_iff image_iff dest!: map_of_SomeD split: option.splits)
    then show ?thesis using False by (auto simp: Cons.IH intro!: map_cong)
  qed
qed simp

lemma group_by_part_spec: "group_by_part (grades :: 'a grade_element list) parts = groups_spec grades parts"
proof -
  have "(\<forall>p \<in> set (first_parts parts). ge_grade_part e \<noteq> Some (gp_title p))
      \<longleftrightarrow> (\<forall>p \<in> set parts. ge_grade_part e \<noteq> Some (gp_title p))" for e :: "'a grade_element"
    using arg_cong [OF first_parts_titles [of parts], of "\<lambda>T. \<forall>t \<in> T. ge_grade_part e \<noteq> Some t"] by simp
  moreover have "foldl setdefault_part ([] :: 'a part_dict) parts = map (\<lambda>p. (gp_title p, (p, []))) (first_parts parts)"
    by (simp add: setdefault_parts)
  moreover note place_elements [OF first_parts_distinct [of parts], of "\<lambda>_. []" "[]" grades]
  ultimately show ?thesis
    by (simp add: group_by_part_def groups_spec_def vals_of_def comp_def)
qed

lemma nonempty_groups: "concat (map snd (filter (\<lambda>g. snd g \<noteq> []) gs)) = concat (map snd gs)"
  for gs :: "'a group list"
  by (induction gs) auto

lemma table_is_spec:
  "build_evaluation_rows A grades parts mark maximum_mark = table_spec A grades parts mark maximum_mark"
  by (simp add: Let_def build_evaluation_rows_def table_spec_def group_by_part_spec group_loop_is sum_of_def
      nonempty_groups)


lemma with_separators_set: "r \<in> set (with_separators bs) \<Longrightarrow> r = separator \<or> (\<exists>b \<in> set bs. r \<in> set b)"
  by (induction bs rule: with_separators.induct) auto

lemma with_separators_filter: "\<not> P separator \<Longrightarrow> filter P (with_separators bs) = concat (map (filter P) bs)"
  by (induction bs rule: with_separators.induct) auto

lemma groups_partition:
  fixes k :: "'e \<Rightarrow> 'k option"
  assumes "distinct (map t ps)"
  shows "mset (concat (map (\<lambda>p. filter (\<lambda>e. k e = Some (t p)) es) ps))
    = mset (filter (\<lambda>e. \<exists>p \<in> set ps. k e = Some (t p)) es)"
  using assms
proof (induction ps)
  case (Cons p ps)
  have "mset (filter (\<lambda>e. \<exists>q \<in> set (p # ps). k e = Some (t q)) es)
      = mset (filter (\<lambda>e. k e = Some (t p)) es) + mset (filter (\<lambda>e. \<exists>q \<in> set ps. k e = Some (t q)) es)"
    using Cons.prems by (induction es) (auto simp: image_iff)
  then show ?case using Cons by simp
qed simp

lemma mset_split: "mset xs = mset (filter P xs) + mset (filter (\<lambda>x. \<not> P x) xs)"
  by (induction xs) auto

lemma groups_mset: "mset (concat (map snd (groups_spec grades parts))) = mset grades"
proof -
  have "(\<forall>p \<in> set parts. ge_grade_part e \<noteq> Some (gp_title p))
      \<longleftrightarrow> \<not> (\<exists>p \<in> set (first_parts parts). ge_grade_part e = Some (gp_title p))" for e :: "'a grade_element"
    using arg_cong [OF first_parts_titles [of parts], of "\<lambda>T. \<forall>t \<in> T. ge_grade_part e \<noteq> Some t"] by simp
  then have "mset (concat (map snd (groups_spec grades parts)))
      = mset (filter (\<lambda>e. \<exists>p \<in> set (first_parts parts). ge_grade_part e = Some (gp_title p)) grades)
        + mset (filter (\<lambda>e. \<not> (\<exists>p \<in> set (first_parts parts). ge_grade_part e = Some (gp_title p))) grades)"
    by (simp only: groups_spec_def map_append map_map comp_def snd_conv concat_append mset_append
        groups_partition [OF first_parts_distinct, of ge_grade_part] list.map concat.simps append_Nil2)
  then show ?thesis by (simp only: mset_split [symmetric])
qed

lemma element_rows_labels: "map (\<lambda>r. cell_text (hd (row_cells r))) (element_rows A es)
    = map (\<lambda>e. label_of A (ge_description e) (ge_title e)) es"
proof -
  have "cell_text (hd (row_cells (element_row A i e))) = label_of A (ge_description e) (ge_title e)" for i e
    by (simp add: element_row_def Let_def mk_cell_def bonus_texts_def split: prod.splits option.splits)
  then have "map (\<lambda>r. cell_text (hd (row_cells r))) (element_rows A es)
      = map (\<lambda>e. label_of A (ge_description e) (ge_title e)) (map snd (zip [0..<length es] es))"
    by (simp add: element_rows_def comp_def case_prod_beta del: map_snd_zip)
  then show ?thesis by (simp only: map_snd_zip length_upt diff_zero)
qed


definition row_fits :: "'n table_args \<Rightarrow> row \<Rightarrow> bool" where
  "row_fits A r \<longleftrightarrow> length (row_cells r) =
     (if row_span r then 1 else length (header_labels (ta_debug A) (ta_translate A)))"

lemmas row_shapes = row_fits_def header_labels_def total_row_def part_header_def separator_def

lemma element_row_fits: "row_fits A (element_row A i e)" "row_kind (element_row A i e) = KIND_ELEMENT"
  by (simp_all add: row_shapes element_row_def Let_def split: prod.splits option.splits)

lemma element_rows_in: "r \<in> set (element_rows A es) \<Longrightarrow> \<exists>i e. r = element_row A i e"
  by (auto simp: element_rows_def)

lemma part_total_rows_fit: "r \<in> set (part_total_rows A p s) \<Longrightarrow> row_fits A r \<and> row_kind r = KIND_PART_TOTAL"
  by (auto simp: row_shapes part_total_rows_def Let_def split: if_splits)

lemma last_rows_fit: "r \<in> set (last_rows A grades s m) \<Longrightarrow> row_fits A r \<and> row_kind r \<noteq> KIND_ELEMENT"
  by (auto simp: row_shapes last_rows_def Let_def split: if_splits option.splits)

lemma part_header_fits: "row_fits A (part_header A p)" "row_kind (part_header A p) = KIND_PART_HEADER"
  by (simp_all add: row_shapes)

lemma separator_fits: "row_fits A separator" "row_kind separator = KIND_SEPARATOR"
  by (simp_all add: row_shapes)

lemma group_rows_fit: "r \<in> set (group_rows A g) \<Longrightarrow> row_fits A r"
  by (auto simp: group_rows_def part_header_fits dest!: element_rows_in part_total_rows_fit
      split: prod.splits option.splits intro: element_row_fits)

lemma group_elements: "filter (\<lambda>r. row_kind r = KIND_ELEMENT) (group_rows A g) = element_rows A (snd g)"
proof -
  have "filter (\<lambda>r. row_kind r = KIND_ELEMENT) (element_rows A es) = element_rows A es" for es
    by (rule filter_True) (auto dest!: element_rows_in simp: element_row_fits)
  moreover have "filter (\<lambda>r. row_kind r = KIND_ELEMENT) (part_total_rows A p s) = []" for p s
    by (auto simp: filter_empty_conv dest!: part_total_rows_fit)
  ultimately show ?thesis
    by (simp add: group_rows_def part_header_fits split: prod.splits option.splits)
qed

theorem evaluation_table_rows:
  assumes "rows = build_evaluation_rows A grades parts mark maximum_mark"
  shows "(\<forall>r \<in> set rows. row_fits A r)
    \<and> mset (map (\<lambda>r. cell_text (hd (row_cells r))) (filter (\<lambda>r. row_kind r = KIND_ELEMENT) rows))
      = mset (map (\<lambda>e. label_of A (ge_description e) (ge_title e)) grades)"
proof -
  let ?groups = "filter (\<lambda>g. snd g \<noteq> []) (groups_spec grades parts)"
  let ?element = "\<lambda>r. row_kind r = KIND_ELEMENT"
  have rows: "\<exists>ends. rows = with_separators (map (group_rows A) ?groups) @ ends
      \<and> (\<forall>r \<in> set ends. row_fits A r \<and> row_kind r \<noteq> KIND_ELEMENT)"
    using assms by (auto simp: table_is_spec table_spec_def Let_def dest: last_rows_fit)
  then have fits: "\<forall>r \<in> set rows. row_fits A r"
    by (auto dest!: with_separators_set group_rows_fit simp: separator_fits)
  have "filter ?element rows = concat (map (element_rows A) (map snd ?groups))"
    using rows by (auto simp: with_separators_filter separator_fits group_elements comp_def filter_empty_conv)
  then have "map (\<lambda>r. cell_text (hd (row_cells r))) (filter ?element rows)
      = map (\<lambda>e. label_of A (ge_description e) (ge_title e)) (concat (map snd ?groups))"
    by (simp add: map_concat comp_def element_rows_labels)
  then show ?thesis
    using fits by (simp add: nonempty_groups flip: groups_mset [of grades parts])
qed


definition amounts :: "('n grade_element \<Rightarrow> 'n option) \<Rightarrow> 'n grade_element list \<Rightarrow> 'n list" where
  "amounts f es = map the (filter (\<lambda>x. x \<noteq> None) (map f es))"

lemma tallies_of_student:
  fixes es :: "'n::comm_monoid_add grade_element list"
  assumes "\<forall>e \<in> set es. ge_grade_letter e = None"
  shows "t_grade (s_all (fold (add_element False) es s)) = t_grade (s_all s) + sum_list (amounts ge_grade es)
    \<and> t_max (s_all (fold (add_element False) es s))
      = t_max (s_all s) + sum_list (amounts ge_max_grade (filter (\<lambda>e. \<not> ge_bonus e) es))"
  using assms
proof (induction es arbitrary: s)
  case (Cons e es)
  then show ?case
    by (simp add: amounts_def add_element_def add_totals_def Let_def add.assoc split: option.splits)
qed (simp add: amounts_def)

lemma amounts_mset:
  fixes es :: "'n::comm_monoid_add grade_element list"
  assumes "mset es = mset es'"
  shows "sum_list (amounts f (filter P es)) = sum_list (amounts f (filter P es'))"
proof -
  have "mset (amounts f (filter P es)) = mset (amounts f (filter P es'))"
    using assms by (simp add: amounts_def)
  then show ?thesis by (metis sum_mset_sum_list)
qed

text \<open>C35: The rows built by the loops of the evaluation table, with their running totals, the group
  dictionary and the separator test on the index of the last group, are those of the table
  described without them: the parts in the order of their registration, each with the grades
  that name it, in their order, the grades of no known part last, the empty groups left out, one
  separator between two groups and none after the last, each subtotal that of the rows above it
  and the last rows computed from every grade.
\<close>

theorem evaluation_table_exact:
  "build_evaluation_rows A grades parts mark maximum_mark = table_spec A grades parts mark maximum_mark"
  by (rule table_is_spec)

text \<open>In a table of numeric grades, when adding is exact, the total row shows the sum of every
  grade and the sum of the maxima of the elements that are not a bonus, each grade counted once
  whatever part it names, and only the mark comes below.
\<close>

theorem student_totals:
  fixes grades :: "'n::{comm_monoid_add,ord} grade_element list"
  assumes "\<not> ta_debug A" and "grades \<noteq> []" and "\<forall>e \<in> set grades. ge_grade_letter e = None"
  shows "\<exists>above below. build_evaluation_rows A grades parts mark maximum_mark =
     above @ total_row KIND_TOTAL
       [ta_translate A ''Total'', fmt_num A (sum_list (amounts ge_grade grades)),
        fmt_num A (sum_list (amounts ge_max_grade (filter (\<lambda>e. \<not> ge_bonus e) grades)))] # below
     \<and> (\<forall>r \<in> set below. row_kind r = KIND_MARK)"
proof -
  let ?es = "concat (map snd (groups_spec grades parts))"
  have same: "mset ?es = mset grades" by (rule groups_mset)
  then have letters: "\<forall>e \<in> set ?es. ge_grade_letter e = None"
    using assms(3) mset_eq_setD by blast
  have sums: "t_grade (s_all (sum_of False ?es)) = sum_list (amounts ge_grade grades)"
      "t_max (s_all (sum_of False ?es)) = sum_list (amounts ge_max_grade (filter (\<lambda>e. \<not> ge_bonus e) grades))"
    using tallies_of_student [OF letters, of no_tallies] amounts_mset [OF same, of ge_grade "\<lambda>_. True"]
      amounts_mset [OF same, of ge_max_grade "\<lambda>e. \<not> ge_bonus e"]
    by (simp_all add: sum_of_def no_tallies_def no_totals_def)
  have "\<not> list_ex (\<lambda>e. ge_grade_letter e \<noteq> None) grades" using assms(3) by (auto simp: list_ex_iff)
  then have "\<exists>below. last_rows A grades (sum_of False ?es) (mark_text A mark maximum_mark) =
      total_row KIND_TOTAL [ta_translate A ''Total'', fmt_num A (sum_list (amounts ge_grade grades)),
        fmt_num A (sum_list (amounts ge_max_grade (filter (\<lambda>e. \<not> ge_bonus e) grades)))] # below
      \<and> (\<forall>r \<in> set below. row_kind r = KIND_MARK)"
    using assms(1,2) by (auto simp: last_rows_def Let_def sums total_row_def split: option.splits)
  then show ?thesis
    using assms(1) by (auto simp: table_is_spec table_spec_def Let_def nonempty_groups)
qed

section \<open>A table\<close>

definition demo_args :: "int table_args" where
  "demo_args = \<lparr>int_of = id, of_pyint = id, str_of = str_int, ta_debug = False, ta_langs = [''fr'', ''en''],
     ta_translate = id\<rparr>"

definition demo_grade :: "string \<Rightarrow> int \<Rightarrow> int \<Rightarrow> string option \<Rightarrow> bool \<Rightarrow> int grade_element" where
  "demo_grade t g m part bonus = \<lparr>ge_title = Plain t, ge_max_grade = Some m, ge_grade = Some g,
     ge_grade_letter = None, ge_description = NoText, ge_scope = None, ge_grade_part = part, ge_bonus = bonus\<rparr>"

definition demo_grades :: "int grade_element list" where
  "demo_grades = [demo_grade ''ping'' 2 3 (Some ''net'') False, demo_grade ''extra'' 1 2 None True,
     demo_grade ''dns'' 4 4 (Some ''net'') False]"

definition demo_parts :: "grade_part list" where
  "demo_parts = [\<lparr>gp_title = ''net'', gp_description = Langs [(''en'', ''Network''), (''fr'', ''Reseau'')]\<rparr>]"

lemma demo_table: "map (\<lambda>r. map cell_text (row_cells r))
    (build_evaluation_rows demo_args demo_grades demo_parts (Some 14) (Some 20)) =
  [[''Reseau''], [''ping'', ''2'', ''3''], [''dns'', ''4'', ''4''], [''Total for Reseau'', ''6'', ''7''], [''''],
   [''extra'', ''1'', ''2 (Bonus)''], [''Total'', ''7'', ''7''], [''Mark'', ''14 / 20'', '''']]"
  by code_simp

lemma digit_7: "char_of (55 :: nat) = CHR ''7''"
  by code_simp

theorem student_totals_witness:
  "\<exists>above below. build_evaluation_rows demo_args demo_grades demo_parts (Some 14) (Some 20) =
     above @ total_row KIND_TOTAL [''Total'', ''7'', ''7''] # below
     \<and> (\<forall>r \<in> set below. row_kind r = KIND_MARK)"
  using student_totals [of demo_args demo_grades demo_parts "Some 14" "Some 20"]
  by (simp add: demo_args_def demo_grades_def demo_grade_def amounts_def fmt_num_def str_int_def str_nat.simps digit_7)

theorem evaluation_table_rows_witness:
  "\<exists>rows. rows = build_evaluation_rows demo_args demo_grades demo_parts (Some 14) (Some 20)
    \<and> mset (map (\<lambda>r. cell_text (hd (row_cells r))) (filter (\<lambda>r. row_kind r = KIND_ELEMENT) rows))
      = mset [''ping'', ''extra'', ''dns'']"
  using evaluation_table_rows [OF refl, of demo_args demo_grades demo_parts "Some 14" "Some 20"]
  by (simp add: demo_args_def demo_grades_def demo_grade_def label_of_def text_of_def from_value_def)

end
