(* ===== verification/Form_Spec.thy ===== *)
theory Form_Spec
  imports Evaluation_Table
begin

text \<open>
  The forms of the questions, \<^verbatim>\<open>src/src/SRE/form_spec.py\<close>: the fields a description holds (a name
  and a spec between marks), the specs, and the typing of what a page sends (\<open>coerce_answers\<close>). The texts
  between the fields are kept as they are written: the balancing of the instructor fragments,
  which only changes texts, is not modelled. \<open>re.fullmatch\<close> on the pattern of a lab is an
  argument (\<open>None\<close> for a pattern that does not compile).
\<close>

section \<open>JSON values as the answers use them\<close>

text \<open>
  A text, a boolean, an integer, null, or another value (a float, a list, an object), known by
  its truth, its \<open>str\<close> and its \<open>int\<close>.
\<close>

datatype jvalue = VNull | VText string | VFlag bool | VWhole int | VOther bool string "int option"

fun py_str :: "jvalue \<Rightarrow> string" where
  "py_str VNull = ''None''"
| "py_str (VText s) = s"
| "py_str (VFlag b) = (if b then ''True'' else ''False'')"
| "py_str (VWhole i) = str_int i"
| "py_str (VOther _ s _) = s"

fun py_truth :: "jvalue \<Rightarrow> bool" where
  "py_truth VNull = False"
| "py_truth (VText s) = (s \<noteq> [])"
| "py_truth (VFlag b) = b"
| "py_truth (VWhole i) = (i \<noteq> 0)"
| "py_truth (VOther b _ _) = b"

section \<open>The fields of a description\<close>

datatype field_kind = Checkbox | Select | Multiline | Line | Submit

record field_chunk =
  fc_name :: string
  fc_kind :: field_kind
  fc_options :: "(string \<times> string) list"
  fc_lines :: "int option"
  fc_regex :: string
  fc_default :: bool
  fc_label :: string

datatype chunk = TextChunk string | FieldChunk field_chunk

definition blank_field :: "string \<Rightarrow> field_kind \<Rightarrow> field_chunk" where
  "blank_field name kind = \<lparr>fc_name = name, fc_kind = kind, fc_options = [], fc_lines = None, fc_regex = [],
     fc_default = False, fc_label = []\<rparr>"

definition labels :: "field_chunk \<Rightarrow> string list" where
  "labels c = map fst (fc_options c)"

definition values_of :: "field_chunk \<Rightarrow> string list" where
  "values_of c = map snd (fc_options c)"

definition default_value :: "field_chunk \<Rightarrow> jvalue" where
  "default_value c = (case fc_kind c of
     Checkbox \<Rightarrow> VFlag (fc_default c)
   | Submit \<Rightarrow> VFlag False
   | Select \<Rightarrow> VText (if fc_options c \<noteq> [] then values_of c ! 0 else [])
   | _ \<Rightarrow> VText [])"

definition ascii_lower :: "char \<Rightarrow> char" where
  "ascii_lower c = (if 65 \<le> (of_char c :: nat) \<and> (of_char c :: nat) \<le> 90 then char_of ((of_char c :: nat) + 32) else c)"

text \<open>The accented capitals \<open>str.lower\<close> also changes are no letters of \<open>false\<close>.\<close>

definition checkbox_default :: "string \<Rightarrow> bool" where
  "checkbox_default word = (let w = map ascii_lower (py_strip word) in w \<noteq> [] \<and> w \<noteq> ''false'')"

definition digit_char :: "char \<Rightarrow> bool" where
  "digit_char c \<longleftrightarrow> 48 \<le> (of_char c :: nat) \<and> (of_char c :: nat) \<le> 57"

definition decimal :: "string \<Rightarrow> int" where
  "decimal ds = foldl (\<lambda>n c. 10 * n + (of_char c - 48)) 0 ds"

definition default_form_field_lines :: int where "default_form_field_lines = 4"

definition form_field_lines :: "string \<Rightarrow> int option" where
  "form_field_lines spec =
     (if take 1 spec \<noteq> ''+'' then None
      else (let n = decimal (takeWhile digit_char (dropWhile py_space (drop 1 spec)))
            in Some (if n \<noteq> 0 then n else default_form_field_lines)))"

text \<open>\<open>s.split('>>>', 1)\<close> when the mark is there, \<open>None\<close> otherwise.\<close>

fun at_arrows :: "string \<Rightarrow> (string \<times> string) option" where
  "at_arrows [] = None"
| "at_arrows (c # cs) =
     (if take 3 (c # cs) = ''>>>'' then Some ([], drop 2 cs)
      else map_option (\<lambda>(a, b). (c # a, b)) (at_arrows cs))"

definition parse_choice :: "string \<Rightarrow> string \<times> string" where
  "parse_choice choice = (let c = py_strip choice in case at_arrows c of
     Some (l, v) \<Rightarrow> (py_strip l, py_strip v)
   | None \<Rightarrow> (c, c))"

definition parse_field_spec :: "bool \<Rightarrow> string \<Rightarrow> string \<Rightarrow> field_chunk" where
  "parse_field_spec allow_submit name spec =
     (if take 1 spec = ''?'' then (blank_field name Checkbox)\<lparr>fc_default := checkbox_default (drop 1 spec)\<rparr>
      else if allow_submit \<and> take 1 spec = '':'' then
        (let l = py_strip (drop 1 spec) in (blank_field name Submit)\<lparr>fc_label := if l \<noteq> [] then l else name\<rparr>)
      else if take 1 spec = ''>'' \<or> at_arrows spec \<noteq> None then
        (let raw = (if take 1 spec = ''>'' then drop 1 spec else spec)
         in (blank_field name Select)\<lparr>fc_options := map parse_choice (split_on (CHR ''|'') raw)\<rparr>)
      else (case form_field_lines spec of
        Some n \<Rightarrow> (blank_field name Multiline)\<lparr>fc_lines := Some n\<rparr>
      | None \<Rightarrow> (blank_field name Line)\<lparr>fc_regex := spec\<rparr>))"

definition field_open :: string where "field_open = [CHR ''@'', CHR ''@'', CHR ''{'']"
definition field_close :: string where "field_close = [CHR ''}'', CHR ''@'', CHR ''@'']"

text \<open>
  A match of \<open>FIELD_RE\<close> at the start of a text: the name, the spec and what follows. Each group
  stops at a character it excludes, so the match is unique.
\<close>

definition match_field :: "string \<Rightarrow> (string \<times> string \<times> string) option" where
  "match_field s =
     (if take 3 s \<noteq> field_open then None
      else (let name = takeWhile (\<lambda>c. c \<noteq> CHR '':'' \<and> c \<noteq> CHR ''}'') (drop 3 s);
                rest = dropWhile (\<lambda>c. c \<noteq> CHR '':'' \<and> c \<noteq> CHR ''}'') (drop 3 s)
            in if name = [] \<or> take 1 rest \<noteq> '':'' then None
               else (let spec = takeWhile (\<lambda>c. c \<noteq> CHR ''}'') (drop 1 rest);
                         rest2 = dropWhile (\<lambda>c. c \<noteq> CHR ''}'') (drop 1 rest)
                     in if take 3 rest2 = field_close then Some (name, spec, drop 3 rest2) else None)))"

lemma nested_shorter: "length (drop n (dropWhile P (drop m (dropWhile Q t)))) \<le> length t"
  using length_dropWhile_le [of P "drop m (dropWhile Q t)"] length_dropWhile_le [of Q t] by simp

lemma match_field_shorter:
  assumes "match_field s = Some (name, spec, rest)"
  shows "length rest < length s"
proof -
  have "length rest \<le> length (drop 3 s)"
    using assms by (auto simp only: match_field_def Let_def nested_shorter option.inject prod.inject split: if_splits)
  moreover have "s \<noteq> []" using assms by (auto simp: match_field_def field_open_def)
  ultimately show ?thesis by (cases s) auto
qed

text \<open>\<open>FIELD_RE.split\<close>: the text before the first field, then each field with the text after it.\<close>

function split_fields :: "string \<Rightarrow> string \<times> (string \<times> string \<times> string) list" where
  "split_fields s = (case s of
     [] \<Rightarrow> ([], [])
   | c # cs \<Rightarrow> (case match_field s of
       Some (name, spec, rest) \<Rightarrow> (let (t, fs) = split_fields rest in ([], (name, spec, t) # fs))
     | None \<Rightarrow> (let (t, fs) = split_fields cs in (c # t, fs))))"
  by auto
termination by (relation "measure length") (auto dest: match_field_shorter)

declare split_fields.simps [simp del]

definition as_text :: "tt_value \<Rightarrow> string" where
  "as_text d = (case d of Langs l \<Rightarrow> (case dget l [] of Some t \<Rightarrow> if t \<noteq> [] then t else first_text l | None \<Rightarrow> first_text l)
   | Plain s \<Rightarrow> s | NoText \<Rightarrow> [])"

definition parse_form_description :: "bool \<Rightarrow> tt_value \<Rightarrow> chunk list" where
  "parse_form_description allow_submit description =
     (let (t, fs) = split_fields (as_text description)
      in TextChunk t # concat (map (\<lambda>(name, spec, t). [FieldChunk (parse_field_spec allow_submit name spec), TextChunk t]) fs))"

definition field_chunks :: "chunk list \<Rightarrow> field_chunk list" where
  "field_chunks cs = List.map_filter (\<lambda>c. case c of FieldChunk f \<Rightarrow> Some f | TextChunk _ \<Rightarrow> None) cs"

section \<open>Answers\<close>

type_synonym jdict = "(string \<times> jvalue) list"

definition default_answers :: "chunk list \<Rightarrow> jdict" where
  "default_answers cs = foldl (\<lambda>d f. dset d (fc_name f) (default_value f)) [] (field_chunks cs)"

definition as_bool :: "jvalue \<Rightarrow> bool" where
  "as_bool v = (case v of VText s \<Rightarrow> checkbox_default s | _ \<Rightarrow> py_truth v)"

definition text_or_empty :: "jvalue option \<Rightarrow> string" where
  "text_or_empty v = (case v of None \<Rightarrow> [] | Some VNull \<Rightarrow> [] | Some x \<Rightarrow> py_str x)"

definition coerce_field :: "jdict \<Rightarrow> field_chunk \<Rightarrow> jvalue" where
  "coerce_field raw f =
     (let v = dget raw (fc_name f) in
      if fc_kind f = Checkbox \<or> fc_kind f = Submit then
        (case v of Some x \<Rightarrow> VFlag (as_bool x) | None \<Rightarrow> default_value f)
      else if fc_kind f = Select then
        (let s = text_or_empty v in
         if s \<in> set (values_of f) then VText s
         else (case map_of (fc_options f) s of
             Some x \<Rightarrow> VText x
           | None \<Rightarrow> default_value f))
      else VText (text_or_empty v))"

definition coerce_answers :: "chunk list \<Rightarrow> jdict \<Rightarrow> jdict" where
  "coerce_answers cs raw = foldl (\<lambda>d f. dset d (fc_name f) (coerce_field raw f)) [] (field_chunks cs)"

definition validate_answers :: "(string \<Rightarrow> string \<Rightarrow> bool option) \<Rightarrow> chunk list \<Rightarrow> jdict \<Rightarrow> bool
    \<Rightarrow> (string \<times> string) list" where
  "validate_answers fullmatch cs answers allow_empty =
     foldl (\<lambda>errors f.
       if fc_kind f \<noteq> Line \<or> fc_regex f = [] then errors
       else (let v = text_or_empty (dget answers (fc_name f)) in
         if allow_empty \<and> v = [] then errors
         else (case fullmatch (fc_regex f) v of
             None \<Rightarrow> dset errors (fc_name f) ''invalid field pattern''
           | Some False \<Rightarrow> dset errors (fc_name f) (''must match '' @ fc_regex f)
           | Some True \<Rightarrow> errors))) [] (field_chunks cs)"

section \<open>What a form stores\<close>

definition last_named :: "('f \<Rightarrow> string) \<Rightarrow> 'f list \<Rightarrow> string \<Rightarrow> 'f" where
  "last_named n fs k = last (filter (\<lambda>f. n f = k) fs)"

lemma ladd_set: "set (foldl ladd ks (map n fs)) = set ks \<union> n ` set fs"
  by (induction fs arbitrary: ks) (auto simp: ladd_def)

lemma ladd_distinct: "distinct ks \<Longrightarrow> distinct (foldl ladd ks xs)"
  by (induction xs arbitrary: ks) (auto simp: ladd_def)

lemma last_named_in: "k \<in> n ` set fs \<Longrightarrow> last_named n fs k \<in> set fs \<and> n (last_named n fs k) = k"
proof -
  assume "k \<in> n ` set fs"
  then have "filter (\<lambda>f. n f = k) fs \<noteq> []" by (auto simp: filter_empty_conv)
  then have "last_named n fs k \<in> set (filter (\<lambda>f. n f = k) fs)"
    unfolding last_named_def by (rule last_in_set)
  then show ?thesis by simp
qed

text \<open>A dictionary filled in a loop holds, for each key, what the last turn with that key gave.\<close>

lemma filled_dict: "foldl (\<lambda>d f. dset d (n f) (g f)) [] fs
    = map (\<lambda>k. (k, g (last_named n fs k))) (foldl ladd [] (map n fs))"
proof (induction fs rule: rev_induct)
  case (snoc f fs)
  let ?ks = "foldl ladd [] (map n fs)"
  have ks: "set ?ks = n ` set fs" "distinct ?ks"
    using ladd_set [of "[]" n fs] by (simp_all add: ladd_distinct)
  have other: "last_named n (fs @ [f]) k = (if k = n f then f else last_named n fs k)" for k
    by (simp add: last_named_def)
  have keys: "foldl ladd [] (map n (fs @ [f])) = ladd ?ks (n f)" by simp
  have step: "foldl (\<lambda>d f. dset d (n f) (g f)) [] (fs @ [f])
      = dset (map (\<lambda>k. (k, g (last_named n fs k))) ?ks) (n f) (g f)"
    using snoc by simp
  show ?case
  proof (cases "n f \<in> set ?ks")
    case True
    then have "ladd ?ks (n f) = ?ks" by (simp add: ladd_def)
    then show ?thesis
      using update_map [of "\<lambda>k. k" ?ks "n f" "g f" "\<lambda>k. g (last_named n fs k)"] ks True
      unfolding step keys by (auto simp: other intro!: map_cong)
  next
    case False
    then have "ladd ?ks (n f) = ?ks @ [n f]" by (simp add: ladd_def)
    then show ?thesis
      using False unfolding step keys by (auto simp: other update_new image_iff intro!: map_cong)
  qed
qed simp

lemma filled_get:
  fixes g :: "'f \<Rightarrow> 'v"
  shows "dget (foldl (\<lambda>d f. dset d (n f) (g f)) [] fs) k
    = (if k \<in> n ` set fs then Some (g (last_named n fs k)) else None)"
proof -
  have "map_of (map (\<lambda>k. (k, h k)) ks) k = (if k \<in> set ks then Some (h k) else None)" for h :: "string \<Rightarrow> 'v" and ks
    by (induction ks) auto
  then show ?thesis using ladd_set [of "[]" n fs] by (simp add: filled_dict)
qed

lemma map_of_values: "map_of d s = Some v \<Longrightarrow> v \<in> snd ` set d"
  by (force dest: map_of_SomeD)

lemma coerce_field_again:
  assumes "dget d (fc_name f) = Some (coerce_field raw f)"
  shows "coerce_field d f = coerce_field raw f"
proof (cases "fc_kind f")
  case Select
  have "fc_options f \<noteq> [] \<Longrightarrow> values_of f ! 0 \<in> set (values_of f)"
    by (simp add: values_of_def)
  then show ?thesis
    using assms Select map_of_values [of "fc_options f"]
    by (auto simp: coerce_field_def Let_def default_value_def text_or_empty_def values_of_def split: option.splits if_splits)
qed (use assms in \<open>auto simp: coerce_field_def Let_def default_value_def text_or_empty_def as_bool_def split: option.splits\<close>)

text \<open>Typing the answers of a form is done once: what is stored for a form, sent again by a page or read
  back from the file, is typed to itself, for every description, fields of the same name and values
  given by their label included.\<close>

theorem coerce_idempotent: "coerce_answers cs (coerce_answers cs raw) = coerce_answers cs raw"
proof -
  let ?fs = "field_chunks cs"
  have "coerce_field (coerce_answers cs raw) (last_named fc_name ?fs k) = coerce_field raw (last_named fc_name ?fs k)"
    if "k \<in> fc_name ` set ?fs" for k
    using last_named_in [OF that] that
    by (intro coerce_field_again) (simp add: coerce_answers_def filled_get)
  then show ?thesis
    using ladd_set [of "[]" fc_name ?fs]
    by (subst (1) coerce_answers_def) (auto simp: coerce_answers_def [of cs raw] filled_dict intro!: map_cong)
qed

text \<open>What a field may hold.\<close>

definition typed :: "field_chunk \<Rightarrow> jvalue \<Rightarrow> bool" where
  "typed f v \<longleftrightarrow> (case fc_kind f of
     Checkbox \<Rightarrow> (\<exists>b. v = VFlag b)
   | Submit \<Rightarrow> (\<exists>b. v = VFlag b)
   | Select \<Rightarrow> (\<exists>s. v = VText s \<and> (s \<in> set (values_of f) \<or> fc_options f = []))
   | _ \<Rightarrow> (\<exists>s. v = VText s))"

lemma coerce_field_typed: "typed f (coerce_field raw f)"
  by (cases "fc_kind f")
    (auto simp: typed_def coerce_field_def Let_def default_value_def values_of_def split: option.splits dest: map_of_values)

theorem coerce_typed:
  "(\<forall>k v. dget (coerce_answers cs raw) k = Some v \<longrightarrow> (\<exists>f \<in> set (field_chunks cs). fc_name f = k \<and> typed f v))
   \<and> (\<forall>f \<in> set (field_chunks cs). dget (coerce_answers cs raw) (fc_name f) \<noteq> None)"
  using last_named_in [of _ fc_name "field_chunks cs"]
  by (auto simp: coerce_answers_def filled_get coerce_field_typed split: if_splits)
     (metis coerce_field_typed imageI)

section \<open>The description is cut without a loss\<close>

definition marker :: "string \<times> string \<times> string \<Rightarrow> string" where
  "marker f = (case f of (name, spec, t) \<Rightarrow> field_open @ name @ '':'' @ spec @ field_close @ t)"

lemma match_field_is:
  assumes "match_field s = Some (name, spec, rest)"
  shows "s = field_open @ name @ '':'' @ spec @ field_close @ rest
    \<and> name \<noteq> [] \<and> CHR '':'' \<notin> set name \<and> CHR ''}'' \<notin> set name \<and> CHR ''}'' \<notin> set spec"
proof -
  let ?P = "\<lambda>c. c \<noteq> CHR '':'' \<and> c \<noteq> CHR ''}''"
  let ?rest = "dropWhile ?P (drop 3 s)"
  have parts: "take 3 s = field_open" "name = takeWhile ?P (drop 3 s)" "name \<noteq> []" "take 1 ?rest = '':''"
      "spec = takeWhile (\<lambda>c. c \<noteq> CHR ''}'') (drop 1 ?rest)"
      "take 3 (dropWhile (\<lambda>c. c \<noteq> CHR ''}'') (drop 1 ?rest)) = field_close"
      "rest = drop 3 (dropWhile (\<lambda>c. c \<noteq> CHR ''}'') (drop 1 ?rest))"
    using assms by (auto simp only: match_field_def Let_def option.inject prod.inject option.simps split: if_splits)
  have "s = take 3 s @ drop 3 s" by simp
  also have "drop 3 s = name @ ?rest" using parts(2) by simp
  also have "?rest = take 1 ?rest @ drop 1 ?rest" by (simp only: append_take_drop_id)
  also have "drop 1 ?rest = spec @ dropWhile (\<lambda>c. c \<noteq> CHR ''}'') (drop 1 ?rest)" using parts(5) by simp
  also have "dropWhile (\<lambda>c. c \<noteq> CHR ''}'') (drop 1 ?rest) = field_close @ rest"
    using parts(6,7) by (metis append_take_drop_id)
  finally have "s = field_open @ name @ '':'' @ spec @ field_close @ rest"
    using parts(1,4) by (simp only:)
  moreover have "CHR '':'' \<notin> set name" "CHR ''}'' \<notin> set name" "CHR ''}'' \<notin> set spec"
    using parts(2,5) by (auto dest: set_takeWhileD)
  ultimately show ?thesis using parts(3) by blast
qed

theorem split_fields_whole:
  "(case split_fields s of (t, fs) \<Rightarrow> s = t @ concat (map marker fs)
     \<and> (\<forall>(name, spec, _) \<in> set fs. name \<noteq> [] \<and> CHR '':'' \<notin> set name \<and> CHR ''}'' \<notin> set name \<and> CHR ''}'' \<notin> set spec))"
proof (induction s rule: split_fields.induct)
  case (1 s)
  show ?case
  proof (cases s)
    case Nil
    then show ?thesis by (simp add: split_fields.simps [of "[]"])
  next
    case (Cons c cs)
    show ?thesis
    proof (cases "match_field s")
      case None
      obtain t fs where cut: "split_fields cs = (t, fs)" by fastforce
      have "split_fields s = (c # t, fs)"
        unfolding split_fields.simps [of s] using None Cons cut by simp
      then show ?thesis using 1(1) [OF Cons None] Cons cut by simp
    next
      case (Some m)
      obtain name spec rest where m: "m = (name, spec, rest)" by (cases m)
      then have "match_field s = Some (name, spec, rest)" using Some by simp
      obtain t fs where cut: "split_fields rest = (t, fs)" by fastforce
      have "split_fields s = ([], (name, spec, t) # fs)"
        unfolding split_fields.simps [of s] using Some Cons cut m by simp
      then show ?thesis
        using 1(2) [OF Cons Some m [symmetric] refl] match_field_is [of s name spec rest] cut Some m
        by (auto simp: marker_def)
    qed
  qed
qed

end
