(* ===== verification/Answers_File.thy ===== *)
theory Answers_File
  imports Form_Spec
begin

text \<open>
  The answers file of a project and the cheat file beside it, \<^verbatim>\<open>src/src/SRE/answers.py\<close>: what is read
  at a path any student may write to, the metadata of the answers file and the exam fields. A
  directory entry is modelled with what \<open>open\<close>, \<open>fstat\<close>, \<open>lstat\<close>, \<open>unlink\<close> and \<open>rmdir\<close> see of it; the
  bytes of a file are known by what \<open>json\<close> makes of them.
\<close>

section \<open>Directory entries\<close>

datatype node_kind = Regular | Symlink | Directory | Fifo | Socket | OtherKind

datatype body = JsonObject jdict | JsonOther | NotJson

record node =
  nd_inode :: nat
  nd_mtime :: int
  nd_size :: nat
  nd_kind :: node_kind
  nd_nlink :: nat
  nd_uid :: nat
  nd_readable :: bool
  nd_body :: body

text \<open>The signature of a file: inode, time of the last change and size.\<close>

type_synonym signature = "nat \<times> int \<times> nat"

definition signature_of :: "node \<Rightarrow> signature" where
  "signature_of n = (nd_inode n, nd_mtime n, nd_size n)"

text \<open>
  \<open>os.stat\<close> follows a symbolic link: \<open>target\<close> is the entry at its end, if any.
\<close>

definition file_signature :: "node option \<Rightarrow> node option \<Rightarrow> signature option" where
  "file_signature target entry = (case entry of
     None \<Rightarrow> None
   | Some n \<Rightarrow> if nd_kind n = Symlink then map_option signature_of target else Some (signature_of n))"

text \<open>
  \<open>os.open\<close> for reading with \<open>O_NOFOLLOW\<close>: a symbolic link and a socket give an \<open>OSError\<close>, an entry
  without the permission too, a FIFO blocks until a writer comes unless \<open>O_NONBLOCK\<close> is given.
\<close>

datatype opened = NoEntry | OpenError | Blocks | Descriptor node

definition open_nofollow :: "bool \<Rightarrow> node option \<Rightarrow> opened" where
  "open_nofollow nonblock entry = (case entry of
     None \<Rightarrow> NoEntry
   | Some n \<Rightarrow>
       if nd_kind n = Symlink \<or> nd_kind n = Socket \<or> \<not> nd_readable n then OpenError
       else if nd_kind n = Fifo \<and> \<not> nonblock then Blocks
       else Descriptor n)"

text \<open>
  \<open>load_answers\<close>: the answers file as a dictionary, empty for anything that is not a readable JSON
  object; \<open>None\<close> when the call does not return.
\<close>

definition load_answers :: "node option \<Rightarrow> jdict option" where
  "load_answers entry = (case open_nofollow False entry of
     NoEntry \<Rightarrow> Some []
   | OpenError \<Rightarrow> Some []
   | Blocks \<Rightarrow> None
   | Descriptor n \<Rightarrow> Some (if nd_kind n = Directory then []
       else (case nd_body n of JsonObject d \<Rightarrow> d | _ \<Rightarrow> [])))"

text \<open>\<open>d.update(e)\<close>.\<close>

definition dict_update :: "jdict \<Rightarrow> jdict \<Rightarrow> jdict" where
  "dict_update d e = foldl (\<lambda>d (k, v). dset d k v) d e"

section \<open>The cheat file\<close>

definition cheat_file_max_size :: nat where "cheat_file_max_size = 1000000"

datatype cheat_refusal = IsSymlink | IsDirectory | IsFifo | IsSocket | NotRegular | HardLinks nat | OwnedBy nat
  | TooBig nat | AboveLimit

definition trusted_cheat_uids :: "nat \<Rightarrow> nat \<Rightarrow> nat set" where
  "trusted_cheat_uids sre_uid euid = {0, sre_uid, euid}"

definition cheat_entry_problem :: "nat set \<Rightarrow> node \<Rightarrow> cheat_refusal option" where
  "cheat_entry_problem trusted n =
     (if nd_kind n \<noteq> Regular then
        Some (case nd_kind n of Symlink \<Rightarrow> IsSymlink | Directory \<Rightarrow> IsDirectory | Fifo \<Rightarrow> IsFifo
          | Socket \<Rightarrow> IsSocket | _ \<Rightarrow> NotRegular)
      else if 1 < nd_nlink n then Some (HardLinks (nd_nlink n))
      else if nd_uid n \<notin> trusted then Some (OwnedBy (nd_uid n))
      else if cheat_file_max_size < nd_size n then Some (TooBig (nd_size n))
      else None)"

text \<open>
  What the calls on the path find, one after the other: anyone may replace the entry between two of
  them. \<open>cf_read\<close> is what the read of the opened file gives (its length, and its parsing), \<open>cf_unlink\<close>
  and \<open>cf_rmdir\<close> what the system answers to a removal, \<open>cf_lexists\<close> the last look at the path.
\<close>

datatype removal = Removed | Missing | CannotRemove

record cheat_calls =
  cf_open :: "node option"
  cf_lstat :: "node option"
  cf_read :: "nat \<times> body"
  cf_unlink :: removal
  cf_rmdir :: bool
  cf_lexists :: bool

definition remove_entry :: "cheat_calls \<Rightarrow> bool" where
  "remove_entry c = (cf_unlink c \<noteq> CannotRemove \<or> cf_rmdir c \<or> \<not> cf_lexists c)"

datatype cheat_error = CheatFileRefused cheat_refusal bool | CheatOSError | CheatValueError

text \<open>
  \<open>consume_cheat_file\<close>: the result is an error, \<open>Inr None\<close> when there is no file, or the dictionary of
  a file that was read and then unlinked.
\<close>

definition consume_cheat_file :: "nat set \<Rightarrow> cheat_calls \<Rightarrow> cheat_error + jdict option" where
  "consume_cheat_file trusted c = (case open_nofollow True (cf_open c) of
     NoEntry \<Rightarrow> Inr None
   | Descriptor n \<Rightarrow> (case cheat_entry_problem trusted n of
       Some r \<Rightarrow> Inl (CheatFileRefused r (remove_entry c))
     | None \<Rightarrow>
         if cheat_file_max_size < fst (cf_read c) then Inl (CheatFileRefused AboveLimit (remove_entry c))
         else (case snd (cf_read c) of
             JsonObject d \<Rightarrow> if cf_unlink c = Removed then Inr (Some d) else Inl CheatOSError
           | _ \<Rightarrow> Inl CheatValueError))
   | _ \<Rightarrow> (case cf_lstat c of
       None \<Rightarrow> Inr None
     | Some n \<Rightarrow> (case cheat_entry_problem trusted n of
         None \<Rightarrow> Inl CheatOSError
       | Some r \<Rightarrow> Inl (CheatFileRefused r (remove_entry c)))))"

definition merge_cheat :: "jdict \<Rightarrow> jdict \<Rightarrow> jdict" where
  "merge_cheat answers cheat = dict_update answers cheat"

section \<open>The metadata\<close>

definition hostname_keyword :: string where "hostname_keyword = ''hostname''"
definition login_keyword :: string where "login_keyword = ''login''"
definition fullname_keyword :: string where "fullname_keyword = ''fullname''"
definition email_keyword :: string where "email_keyword = ''email''"
definition language_keyword :: string where "language_keyword = ''language''"
definition group_keyword :: string where "group_keyword = ''group''"
definition answers_updated_at :: string where "answers_updated_at = ''answers_updated_at''"
definition kw_time_remaining :: string where "kw_time_remaining = ''exam_time_remaining''"
definition kw_started_at :: string where "kw_started_at = ''exam_started_at''"
definition kw_duration :: string where "kw_duration = ''exam_duration''"
definition kw_exam_mode :: string where "kw_exam_mode = ''exam_mode''"

definition kx_started_at :: string where "kx_started_at = ''started_at''"
definition kx_start_after :: string where "kx_start_after = ''start_after''"
definition kx_end_before :: string where "kx_end_before = ''end_before''"
definition kx_duration :: string where "kx_duration = ''duration''"

text \<open>
  The clock of the host: the local time in seconds, its text, \<open>datetime.fromisoformat\<close> brought to
  the naive local time of the host (\<open>None\<close> for a \<open>ValueError\<close>) and \<open>int\<close> of a text.
\<close>

record host_clock =
  hc_now :: real
  hc_stamp :: string
  hc_fromiso :: "string \<Rightarrow> real option"
  hc_int :: "string \<Rightarrow> int option"

fun py_int :: "host_clock \<Rightarrow> jvalue \<Rightarrow> int option" where
  "py_int H VNull = None"
| "py_int H (VText s) = hc_int H s"
| "py_int H (VFlag b) = Some (if b then 1 else 0)"
| "py_int H (VWhole i) = Some i"
| "py_int H (VOther _ _ i) = i"

definition iso_value :: "host_clock \<Rightarrow> jvalue \<Rightarrow> real option" where
  "iso_value H v = (case v of VText s \<Rightarrow> hc_fromiso H s | _ \<Rightarrow> None)"

definition truthy :: "jvalue option \<Rightarrow> jvalue option" where
  "truthy v = (case v of Some x \<Rightarrow> if py_truth x then Some x else None | None \<Rightarrow> None)"

definition exam_remaining_seconds :: "host_clock \<Rightarrow> jdict \<Rightarrow> int option" where
  "exam_remaining_seconds H d = (case dget d kx_duration of
     None \<Rightarrow> None
   | Some dv \<Rightarrow> (case py_int H dv of
       None \<Rightarrow> None
     | Some duration \<Rightarrow>
         (case (case truthy (dget d kx_started_at) of Some v \<Rightarrow> Some v | None \<Rightarrow> dget d kx_start_after) of
           None \<Rightarrow> None
         | Some ref \<Rightarrow> (case iso_value H ref of
             None \<Rightarrow> None
           | Some t \<Rightarrow>
               (let e = t + 60 * of_int duration;
                    e2 = (case dget d kx_end_before of
                        None \<Rightarrow> e
                      | Some v \<Rightarrow> (case iso_value H v of Some b \<Rightarrow> if b < e then b else e | None \<Rightarrow> e))
                in Some (max 0 (let x = e2 - hc_now H in if 0 \<le> x then \<lfloor>x\<rfloor> else \<lceil>x\<rceil>)))))))"

definition exam_fields :: "host_clock \<Rightarrow> jdict option \<Rightarrow> jdict" where
  "exam_fields H exam_data = (case exam_data of
     None \<Rightarrow> [(kw_exam_mode, VFlag False)]
   | Some d \<Rightarrow>
       (let r = [(kw_exam_mode, VFlag True)];
            r = (case dget d kx_started_at of Some v \<Rightarrow> dset r kw_started_at v | None \<Rightarrow> r);
            r = (case dget d kx_duration of Some v \<Rightarrow> dset r kw_duration v | None \<Rightarrow> r)
        in (case exam_remaining_seconds H d of Some s \<Rightarrow> dset r kw_time_remaining (VWhole s) | None \<Rightarrow> r)))"

record metadata =
  md_hostname :: string
  md_login :: string
  md_fullname :: string
  md_email :: "string option"
  md_language :: string
  md_group :: "string option"

definition with_metadata :: "host_clock \<Rightarrow> jdict \<Rightarrow> metadata \<Rightarrow> jdict option \<Rightarrow> jdict" where
  "with_metadata H answers m exam_data =
     (let d = dset answers hostname_keyword (VText (md_hostname m));
          d = dset d login_keyword (VText (md_login m));
          d = dset d fullname_keyword (VText (md_fullname m));
          d = (case md_email m of Some e \<Rightarrow> dset d email_keyword (VText e) | None \<Rightarrow> d);
          d = (case md_group m of Some g \<Rightarrow> dset d group_keyword (VText g) | None \<Rightarrow> d);
          d = dset d answers_updated_at (VText (hc_stamp H));
          d = dset d language_keyword (VText (md_language m))
      in dict_update d (exam_fields H exam_data))"

end
