(* ===== verification/Answers_Store.thy ===== *)
theory Answers_Store
  imports Answers_File Identity
begin

text \<open>
  The writer of the answers file in the agent, \<^verbatim>\<open>src/src/sreweb/agent/answers.py\<close>: the answers of a
  browser made those of the file, the metadata of the student, the owner of the file, what is
  pushed to the open pages. The operations are functions of the entry they find; how they
  interleave with the Qt GUI is the matter of \<open>Answers_Writers\<close>. \<open>json.loads\<close> and \<open>json.dumps\<close> of
  the form answers are arguments.
\<close>

section \<open>The project as the store sees it\<close>

datatype question_type = DUMMY | TEXT | FORM

record question =
  qn_hash :: "string option"
  qn_type :: question_type
  qn_description :: tt_value

record aproject =
  ap_owner :: string
  ap_default_language :: string
  ap_questions :: "question list"
  ap_exam :: "jdict option"
  ap_sig :: "signature option"
  ap_subscribers :: bool
  ap_events :: "jdict list"
  ap_cheat_warning :: "cheat_error option"
  ap_warnings :: "cheat_error list"
  ap_touched :: real

record answers_store =
  as_hostname :: string
  as_owner :: nat

text \<open>The values of a request: a JSON object, or a value of the answers.\<close>

datatype pvalue = PObject jdict | PValue jvalue

record json_text =
  js_loads :: "string \<Rightarrow> pvalue option"
  js_dumps :: "jdict \<Rightarrow> string"

datatype put_error = UnknownQuestion | BadFormAnswer | BadAnswer

definition HASH_LENGTH :: nat where "HASH_LENGTH = 64"

section \<open>The answers of a request\<close>

definition questions_by_hash :: "aproject \<Rightarrow> (string option \<times> question) list" where
  "questions_by_hash p = foldl (\<lambda>d q. dset d (qn_hash q) q) [] (ap_questions p)"

definition default_language :: "aproject \<Rightarrow> string" where
  "default_language p = (if ap_default_language p \<noteq> [] then ap_default_language p else ''en'')"

definition form_description :: "aproject \<Rightarrow> question \<Rightarrow> tt_value" where
  "form_description p q = (case qn_description q of
     Langs d \<Rightarrow> Plain (case dget d (default_language p) of
         Some t \<Rightarrow> if t \<noteq> [] then t else first_text d
       | None \<Rightarrow> first_text d)
   | v \<Rightarrow> v)"

definition form_answer :: "json_text \<Rightarrow> aproject \<Rightarrow> question \<Rightarrow> pvalue \<Rightarrow> put_error + jvalue" where
  "form_answer J p q v =
     (let coerced = (\<lambda>d. Inr (VText (js_dumps J (coerce_answers (parse_form_description False (form_description p q)) d)))) in
      case v of
        PObject d \<Rightarrow> coerced d
      | PValue (VText s) \<Rightarrow> (case js_loads J s of Some (PObject d) \<Rightarrow> coerced d | _ \<Rightarrow> Inl BadFormAnswer)
      | _ \<Rightarrow> Inl BadFormAnswer)"

definition normalize_one :: "json_text \<Rightarrow> aproject \<Rightarrow> string \<times> pvalue \<Rightarrow> put_error + (string \<times> jvalue)" where
  "normalize_one J p kv = (case kv of (q_hash, v) \<Rightarrow>
     (case dget (questions_by_hash p) (Some q_hash) of
        None \<Rightarrow> Inl UnknownQuestion
      | Some q \<Rightarrow>
          if length q_hash \<noteq> HASH_LENGTH then Inl UnknownQuestion
          else if qn_type q = FORM then ebind (form_answer J p q v) (\<lambda>x. Inr (q_hash, x))
          else (case v of PValue (VText s) \<Rightarrow> Inr (q_hash, VText s) | _ \<Rightarrow> Inl BadAnswer)))"

definition normalize :: "json_text \<Rightarrow> aproject \<Rightarrow> (string \<times> pvalue) list \<Rightarrow> put_error + jdict" where
  "normalize J p patch = emap (normalize_one J p) patch"

section \<open>The metadata\<close>

definition stored :: "jdict \<Rightarrow> string \<Rightarrow> string" where
  "stored answers key = (case truthy (dget answers key) of Some v \<Rightarrow> py_str v | None \<Rightarrow> [])"

definition or_text :: "string \<Rightarrow> string \<Rightarrow> string" where
  "or_text a b = (if a \<noteq> [] then a else b)"

text \<open>\<open>exam_json_data\<close> of \<^verbatim>\<open>agent/exam.py\<close>; the two instants are read by \<open>parse_utc\<close>.\<close>

definition exam_json_data :: "(string \<Rightarrow> real option) \<Rightarrow> jdict \<Rightarrow> jdict" where
  "exam_json_data epoch e =
     (let instant = (\<lambda>k. case dget e k of Some (VText s) \<Rightarrow> epoch s | _ \<Rightarrow> None) in
      case (instant ''started_at'', instant ''end_at'') of
        (Some s, Some t) \<Rightarrow>
          [(kx_started_at, the (dget e ''started_at'')),
           (kx_duration, VWhole (max 1 \<lceil>(t - s) / 60\<rceil>)),
           (kx_end_before, the (dget e ''end_at''))]
      | _ \<Rightarrow> [])"

text \<open>
  What the host gives a write: its clock, the reading of instants and the content of \<open>exam.json\<close>.
\<close>

record host_env =
  he_clock :: host_clock
  he_epoch :: "string \<Rightarrow> real option"
  he_exam_json :: "jdict option"

definition exam_data :: "host_env \<Rightarrow> aproject \<Rightarrow> jdict option" where
  "exam_data E p = (case he_exam_json E of
     Some d \<Rightarrow> Some d
   | None \<Rightarrow> map_option (exam_json_data (he_epoch E)) (ap_exam p))"

definition own_metadata :: "host_env \<Rightarrow> answers_store \<Rightarrow> aproject \<Rightarrow> jdict \<Rightarrow> identity \<Rightarrow> jdict" where
  "own_metadata E S p answers i = with_metadata (he_clock E) answers
     \<lparr>md_hostname = as_hostname S, md_login = login i,
      md_fullname = or_text (fullname i) (stored answers fullname_keyword),
      md_email = (if email i \<noteq> [] then Some (email i) else None),
      md_language = language i,
      md_group = Some (or_text (group i) (stored answers group_keyword))\<rparr>
     (exam_data E p)"

definition kept_metadata :: "host_env \<Rightarrow> answers_store \<Rightarrow> aproject \<Rightarrow> jdict \<Rightarrow> identity option \<Rightarrow> jdict" where
  "kept_metadata E S p answers i =
     (let fallback = (case i of Some x \<Rightarrow> language x | None \<Rightarrow> or_text (ap_default_language p) ''en'') in
      with_metadata (he_clock E) answers
     \<lparr>md_hostname = as_hostname S, md_login = or_text (stored answers login_keyword) (ap_owner p),
      md_fullname = stored answers fullname_keyword,
      md_email = (let e = stored answers email_keyword in if e \<noteq> [] then Some e else None),
      md_language = or_text (stored answers language_keyword) fallback,
      md_group = Some (stored answers group_keyword)\<rparr>
     (exam_data E p))"

definition metadata_stale :: "jdict \<Rightarrow> identity \<Rightarrow> bool" where
  "metadata_stale answers i =
     (if dget answers login_keyword = None \<or> dget answers group_keyword = None then True
      else (fullname i \<noteq> [] \<and> fullname i \<noteq> stored answers fullname_keyword)
        \<or> (group i \<noteq> [] \<and> group i \<noteq> stored answers group_keyword))"

definition public_answers :: "aproject \<Rightarrow> jdict \<Rightarrow> jdict" where
  "public_answers p answers = filter (\<lambda>(k, v). Some k \<in> set (map qn_hash (ap_questions p))) answers"

section \<open>Writing\<close>

text \<open>
  What the system gives a save: the new file (its inode, time and size), or an \<open>OSError\<close> before
  the file is replaced, which leaves it as it was.
\<close>

datatype save_answer = Saved nat int nat | SaveFails

definition file_owner :: "answers_store \<Rightarrow> node option \<Rightarrow> nat" where
  "file_owner S entry = (case entry of
     None \<Rightarrow> as_owner S
   | Some n \<Rightarrow> if nd_kind n = Regular then nd_uid n else as_owner S)"

definition new_file :: "nat \<Rightarrow> jdict \<Rightarrow> nat \<Rightarrow> int \<Rightarrow> nat \<Rightarrow> node" where
  "new_file uid d inode mtime bytes = \<lparr>nd_inode = inode, nd_mtime = mtime, nd_size = bytes, nd_kind = Regular,
     nd_nlink = 1, nd_uid = uid, nd_readable = True, nd_body = JsonObject d\<rparr>"

text \<open>\<open>None\<close>: the save raised.\<close>

definition save_answers :: "answers_store \<Rightarrow> save_answer \<Rightarrow> jdict \<Rightarrow> aproject \<times> node option \<Rightarrow> (aproject \<times> node option) option" where
  "save_answers S a d st = (case st of (p, entry) \<Rightarrow> (case a of
     SaveFails \<Rightarrow> None
   | Saved inode mtime bytes \<Rightarrow>
       (let n = new_file (file_owner S entry) d inode mtime bytes
        in Some (p\<lparr>ap_sig := Some (signature_of n)\<rparr>, Some n))))"

definition broadcast_answers :: "jdict \<Rightarrow> aproject \<Rightarrow> aproject" where
  "broadcast_answers answers p =
     (if ap_subscribers p then p\<lparr>ap_events := ap_events p @ [public_answers p answers]\<rparr> else p)"

definition put_data :: "host_env \<Rightarrow> answers_store \<Rightarrow> aproject \<Rightarrow> jdict \<Rightarrow> identity \<Rightarrow> jdict \<Rightarrow> jdict" where
  "put_data E S p normalized i answers =
     (let answers = dict_update answers normalized in
      if login i = ap_owner p then own_metadata E S p answers i else kept_metadata E S p answers (Some i))"

text \<open>A cheat file cannot be taken: one warning per problem.\<close>

definition warn_cheat :: "cheat_error \<Rightarrow> aproject \<Rightarrow> aproject" where
  "warn_cheat e p = (if ap_cheat_warning p = Some e then p
     else p\<lparr>ap_cheat_warning := Some e, ap_warnings := ap_warnings p @ [e]\<rparr>)"

text \<open>
  \<open>watch_file\<close>: nothing for an unchanged file; without a page, the signature is noted; a file read as
  empty though it has bytes is read again at the next tick; \<open>target\<close> is the entry at the end of a
  symbolic link. \<open>None\<close> when the read does not return.
\<close>

definition watch_file :: "node option \<Rightarrow> node option \<Rightarrow> aproject \<Rightarrow> aproject option" where
  "watch_file target entry p =
     (let s = file_signature target entry in
      if s = ap_sig p then Some p
      else if s = None \<or> \<not> ap_subscribers p then Some (p\<lparr>ap_sig := s\<rparr>)
      else (case load_answers entry of
          None \<Rightarrow> None
        | Some answers \<Rightarrow>
            if answers = [] \<and> 0 < snd (snd (the s)) then Some p
            else Some (broadcast_answers answers (p\<lparr>ap_sig := s\<rparr>))))"

definition note_signature :: "node option \<Rightarrow> node option \<Rightarrow> aproject \<Rightarrow> aproject" where
  "note_signature target entry p = p\<lparr>ap_sig := file_signature target entry\<rparr>"

end
