(* ===== verification/Answers_Writers.thy ===== *)
theory Answers_Writers
  imports Answers_Store
begin

text \<open>
  The two writers of the answers file at work together: the agent, as root, for the browsers, and
  the Qt GUI of the student (the persistence of \<^verbatim>\<open>src/src/sysreseval/view/questions_view.py\<close>). A
  transition is what one of the processes does between two points where the other may act: taking the
  lock on the directory, reading the file and computing its new content, replacing the file. The
  agent is one thread and one asyncio lock per project keeps its operations apart, but the GUI is
  another process. \<open>w_log\<close> is no state of the code: it records the writes done.
\<close>

section \<open>The Qt GUI\<close>

record session_identity =
  si_hostname :: string
  si_login :: string
  si_fullname :: string
  si_email :: "string option"

record gui =
  gu_answers :: jdict
  gu_pending :: jdict
  gu_sig :: "signature option"
  gu_error_reported :: bool
  gu_lang_priority :: "string list"

definition identity_dict :: "session_identity \<Rightarrow> jdict" where
  "identity_dict I = [(hostname_keyword, VText (si_hostname I)), (login_keyword, VText (si_login I)),
     (fullname_keyword, VText (si_fullname I))]
     @ (case si_email I of Some e \<Rightarrow> [(email_keyword, VText e)] | None \<Rightarrow> [])"

definition gui_load :: "session_identity \<Rightarrow> node option \<Rightarrow> node option \<Rightarrow> string list \<Rightarrow> gui option" where
  "gui_load I target entry langs = map_option (\<lambda>d.
     \<lparr>gu_answers = dict_update d (identity_dict I), gu_pending = [], gu_sig = file_signature target entry,
      gu_error_reported = False, gu_lang_priority = langs\<rparr>) (load_answers entry)"

definition gui_data :: "host_env \<Rightarrow> session_identity \<Rightarrow> string list \<Rightarrow> jdict \<Rightarrow> jdict \<Rightarrow> jdict" where
  "gui_data E I langs pending answers = with_metadata (he_clock E) (dict_update answers pending)
     \<lparr>md_hostname = si_hostname I, md_login = si_login I, md_fullname = si_fullname I, md_email = si_email I,
      md_language = (case langs of l # _ \<Rightarrow> l | [] \<Rightarrow> ''en''), md_group = None\<rparr>
     (he_exam_json E)"

definition answer_changed :: "string \<Rightarrow> string \<Rightarrow> gui \<Rightarrow> gui" where
  "answer_changed q v g = g\<lparr>gu_answers := dset (gu_answers g) q (VText v), gu_pending := dset (gu_pending g) q (VText v)\<rparr>"

definition apply_cheat :: "jdict \<Rightarrow> gui \<Rightarrow> gui" where
  "apply_cheat cheat g = g\<lparr>gu_answers := merge_cheat (gu_answers g) cheat, gu_pending := dict_update (gu_pending g) cheat\<rparr>"

definition gui_saved :: "node \<Rightarrow> jdict \<Rightarrow> gui \<Rightarrow> gui" where
  "gui_saved n d g = g\<lparr>gu_sig := Some (signature_of n), gu_error_reported := False, gu_pending := [], gu_answers := d\<rparr>"

definition gui_save_failed :: "gui \<Rightarrow> gui" where
  "gui_save_failed g = g\<lparr>gu_error_reported := True\<rparr>"

definition reload_if_changed :: "session_identity \<Rightarrow> node option \<Rightarrow> node option \<Rightarrow> gui \<Rightarrow> gui option" where
  "reload_if_changed I target entry g =
     (let s = file_signature target entry in
      if s = None \<or> s = gu_sig g then Some g
      else (case load_answers entry of
          None \<Rightarrow> None
        | Some d \<Rightarrow>
            if d = [] \<and> 0 < snd (snd (the s)) then Some g
            else Some (g\<lparr>gu_sig := s, gu_answers := dict_update (dict_update d (gu_pending g)) (identity_dict I)\<rparr>)))"

section \<open>The machine\<close>

datatype writer = Agent | Gui

text \<open>A write of the agent: an answer of a page, the metadata, the kept metadata, a cheat file.\<close>

datatype command = Put jdict identity | Rewrite identity | RewriteKept | Cheat jdict

fun agent_data :: "host_env \<Rightarrow> answers_store \<Rightarrow> aproject \<Rightarrow> command \<Rightarrow> jdict \<Rightarrow> jdict" where
  "agent_data E S p (Put n i) answers = put_data E S p n i answers"
| "agent_data E S p (Rewrite i) answers = own_metadata E S p answers i"
| "agent_data E S p RewriteKept answers = kept_metadata E S p answers None"
| "agent_data E S p (Cheat c) answers = merge_cheat answers c"

datatype agent_phase = AIdle | AWaiting command | AEntered command | AComputed command host_env aproject jdict

datatype gui_phase = GIdle | GWaiting | GEntered | GComputed host_env jdict

datatype entry = AgentWrote host_env aproject command | GuiWrote host_env "string list" jdict

record setting =
  st_store :: answers_store
  st_identity :: session_identity
  st_uid :: nat
  st_sre_uid :: nat
  st_json :: json_text

record world =
  w_file :: "node option"
  w_lock :: "writer option"
  w_proj :: aproject
  w_agent :: agent_phase
  w_gui :: gui
  w_gphase :: gui_phase
  w_log :: "entry list"

datatype op =
    AgentPut "(string \<times> pvalue) list" identity
  | AgentRewrite identity
  | AgentRewriteKept
  | AgentRefresh identity
  | AgentCheat cheat_calls
  | AgentAcquire | AgentGiveUp
  | AgentRead host_env
  | AgentSave save_answer
  | AgentWatch "node option"
  | PagesChange bool
  | ExamChange "jdict option"
  | GuiType string string
  | GuiForce
  | GuiLanguages "string list"
  | GuiCheat cheat_calls
  | GuiAcquire | GuiGiveUp
  | GuiRead host_env
  | GuiSave save_answer
  | GuiReload "node option"

definition unlock :: "writer \<Rightarrow> world \<Rightarrow> world" where
  "unlock x w = (if w_lock w = Some x then w\<lparr>w_lock := None\<rparr> else w)"

text \<open>What the agent does once its write is on the disk.\<close>

definition after_save :: "host_env \<Rightarrow> command \<Rightarrow> jdict \<Rightarrow> aproject \<Rightarrow> aproject" where
  "after_save E c d p = (case c of
     Put _ _ \<Rightarrow> broadcast_answers d (p\<lparr>ap_touched := hc_now (he_clock E)\<rparr>)
   | Cheat _ \<Rightarrow> broadcast_answers d p
   | _ \<Rightarrow> p)"

definition gui_begin :: "gui \<Rightarrow> world \<Rightarrow> world" where
  "gui_begin g w = w\<lparr>w_gui := g, w_gphase := GWaiting\<rparr>"

definition consume_cheat :: "setting \<Rightarrow> cheat_calls \<Rightarrow> world \<Rightarrow> world" where
  "consume_cheat S c w = (case consume_cheat_file (trusted_cheat_uids (st_sre_uid S) 0) c of
     Inl e \<Rightarrow> w\<lparr>w_proj := warn_cheat e (w_proj w)\<rparr>
   | Inr None \<Rightarrow> w\<lparr>w_proj := (w_proj w)\<lparr>ap_cheat_warning := None\<rparr>\<rparr>
   | Inr (Some d) \<Rightarrow> w\<lparr>w_proj := (w_proj w)\<lparr>ap_cheat_warning := None\<rparr>, w_agent := AWaiting (Cheat d)\<rparr>)"

text \<open>The transitions of the agent.\<close>

definition agent_begin :: "setting \<Rightarrow> op \<Rightarrow> world \<Rightarrow> world option" where
  "agent_begin S act w = (case w_agent w of AIdle \<Rightarrow> (case act of
     AgentPut patch i \<Rightarrow> (case normalize (st_json S) (w_proj w) patch of
         Inl _ \<Rightarrow> Some w
       | Inr n \<Rightarrow> Some (w\<lparr>w_agent := AWaiting (Put n i)\<rparr>))
   | AgentRewrite i \<Rightarrow> Some (w\<lparr>w_agent := AWaiting (Rewrite i)\<rparr>)
   | AgentRewriteKept \<Rightarrow> Some (w\<lparr>w_agent := AWaiting RewriteKept\<rparr>)
   | AgentRefresh i \<Rightarrow> (case load_answers (w_file w) of
         None \<Rightarrow> None
       | Some d \<Rightarrow> Some (if metadata_stale d i then w\<lparr>w_agent := AWaiting (Rewrite i)\<rparr> else w))
   | AgentCheat c \<Rightarrow> Some (consume_cheat S c w)
   | AgentWatch target \<Rightarrow> map_option (\<lambda>p. w\<lparr>w_proj := p\<rparr>) (watch_file target (w_file w) (w_proj w))
   | _ \<Rightarrow> None) | _ \<Rightarrow> None)"

definition agent_enter :: "bool \<Rightarrow> world \<Rightarrow> world option" where
  "agent_enter give_up w = (case w_agent w of
     AWaiting c \<Rightarrow>
       if give_up then Some (w\<lparr>w_agent := AEntered c\<rparr>)
       else if w_lock w = None then Some (w\<lparr>w_agent := AEntered c, w_lock := Some Agent\<rparr>)
       else None
   | _ \<Rightarrow> None)"

definition agent_read :: "setting \<Rightarrow> host_env \<Rightarrow> world \<Rightarrow> world option" where
  "agent_read S E w = (case w_agent w of
     AEntered c \<Rightarrow> map_option (\<lambda>d. w\<lparr>w_agent := AComputed c E (w_proj w) (agent_data E (st_store S) (w_proj w) c d)\<rparr>)
         (load_answers (w_file w))
   | _ \<Rightarrow> None)"

definition agent_save :: "setting \<Rightarrow> save_answer \<Rightarrow> world \<Rightarrow> world option" where
  "agent_save S a w = (case w_agent w of
     AComputed c E p d \<Rightarrow> Some (unlock Agent (case save_answers (st_store S) a d (w_proj w, w_file w) of
         None \<Rightarrow> w\<lparr>w_agent := AIdle\<rparr>
       | Some (p', entry) \<Rightarrow> w\<lparr>w_agent := AIdle, w_proj := after_save E c d p', w_file := entry,
           w_log := w_log w @ [AgentWrote E p c]\<rparr>))
   | _ \<Rightarrow> None)"

text \<open>The transitions of the GUI.\<close>

definition gui_start :: "setting \<Rightarrow> op \<Rightarrow> world \<Rightarrow> world option" where
  "gui_start S act w = (case w_gphase w of GIdle \<Rightarrow> (case act of
     GuiType q v \<Rightarrow> Some (gui_begin (answer_changed q v (w_gui w)) w)
   | GuiForce \<Rightarrow> Some (gui_begin (w_gui w) w)
   | GuiLanguages ls \<Rightarrow> Some (gui_begin ((w_gui w)\<lparr>gu_lang_priority := ls\<rparr>) w)
   | GuiCheat c \<Rightarrow> Some (case consume_cheat_file (trusted_cheat_uids (st_sre_uid S) (st_uid S)) c of
         Inr (Some d) \<Rightarrow> gui_begin (apply_cheat d (w_gui w)) w
       | _ \<Rightarrow> w)
   | GuiReload target \<Rightarrow> map_option (\<lambda>g. w\<lparr>w_gui := g\<rparr>) (reload_if_changed (st_identity S) target (w_file w) (w_gui w))
   | _ \<Rightarrow> None) | _ \<Rightarrow> None)"

definition gui_enter :: "bool \<Rightarrow> world \<Rightarrow> world option" where
  "gui_enter give_up w = (case w_gphase w of
     GWaiting \<Rightarrow>
       if give_up then Some (w\<lparr>w_gphase := GEntered\<rparr>)
       else if w_lock w = None then Some (w\<lparr>w_gphase := GEntered, w_lock := Some Gui\<rparr>)
       else None
   | _ \<Rightarrow> None)"

definition gui_read :: "setting \<Rightarrow> host_env \<Rightarrow> world \<Rightarrow> world option" where
  "gui_read S E w = (case w_gphase w of
     GEntered \<Rightarrow> map_option (\<lambda>d. w\<lparr>w_gphase := GComputed E
         (gui_data E (st_identity S) (gu_lang_priority (w_gui w)) (gu_pending (w_gui w)) d)\<rparr>) (load_answers (w_file w))
   | _ \<Rightarrow> None)"

definition gui_save :: "setting \<Rightarrow> save_answer \<Rightarrow> world \<Rightarrow> world option" where
  "gui_save S a w = (case w_gphase w of
     GComputed E d \<Rightarrow> Some (unlock Gui (case a of
         SaveFails \<Rightarrow> w\<lparr>w_gphase := GIdle, w_gui := gui_save_failed (w_gui w)\<rparr>
       | Saved inode mtime bytes \<Rightarrow>
           (let n = new_file (st_uid S) d inode mtime bytes
            in w\<lparr>w_gphase := GIdle, w_file := Some n, w_gui := gui_saved n d (w_gui w),
                 w_log := w_log w @ [GuiWrote E (gu_lang_priority (w_gui w)) (gu_pending (w_gui w))]\<rparr>)))
   | _ \<Rightarrow> None)"

definition writers_step :: "setting \<Rightarrow> op \<Rightarrow> world \<Rightarrow> world option" where
  "writers_step S act w = (case act of
     AgentAcquire \<Rightarrow> agent_enter False w
   | AgentGiveUp \<Rightarrow> agent_enter True w
   | AgentRead E \<Rightarrow> agent_read S E w
   | AgentSave a \<Rightarrow> agent_save S a w
   | PagesChange b \<Rightarrow> Some (w\<lparr>w_proj := (w_proj w)\<lparr>ap_subscribers := b\<rparr>\<rparr>)
   | ExamChange e \<Rightarrow> Some (w\<lparr>w_proj := (w_proj w)\<lparr>ap_exam := e\<rparr>\<rparr>)
   | GuiAcquire \<Rightarrow> gui_enter False w
   | GuiGiveUp \<Rightarrow> gui_enter True w
   | GuiRead E \<Rightarrow> gui_read S E w
   | GuiSave a \<Rightarrow> gui_save S a w
   | GuiType _ _ \<Rightarrow> gui_start S act w
   | GuiForce \<Rightarrow> gui_start S act w
   | GuiLanguages _ \<Rightarrow> gui_start S act w
   | GuiCheat _ \<Rightarrow> gui_start S act w
   | GuiReload _ \<Rightarrow> gui_start S act w
   | _ \<Rightarrow> agent_begin S act w)"

end
