(* ===== verification/Answers_Safety.thy ===== *)
theory Answers_Safety
  imports Answers_Writers
begin

text \<open>
  What holds of the answers file whatever the order of the transitions of its two writers: under the
  lock, the file is what the writes make of it one after the other, so no answer is undone; the
  metadata of a student survive the help of an instructor; a cheat file is taken from a file that
  \<open>sre\<close> or its reader wrote only. Two runs show what the lock and the signature do not give.
\<close>

section \<open>Dictionaries updated with a dictionary\<close>

lemma dict_update_get [simp]: "dget (dict_update d e) k = (case map_of (rev e) k of Some v \<Rightarrow> Some v | None \<Rightarrow> dget d k)"
  unfolding dict_update_def by (induction e rule: rev_induct) (auto split: option.splits)

lemma dict_update_Nil [simp]: "dict_update d [] = d"
  by (simp add: dict_update_def)

section \<open>The file is the writes, one after the other\<close>

definition apply_entry :: "setting \<Rightarrow> jdict \<Rightarrow> entry \<Rightarrow> jdict" where
  "apply_entry S d e = (case e of
     AgentWrote E p c \<Rightarrow> agent_data E (st_store S) p c d
   | GuiWrote E langs pending \<Rightarrow> gui_data E (st_identity S) langs pending d)"

definition replay :: "setting \<Rightarrow> jdict \<Rightarrow> entry list \<Rightarrow> jdict" where
  "replay S d es = foldl (apply_entry S) d es"

lemma replay_snoc [simp]: "replay S d (es @ [e]) = apply_entry S (replay S d es) e"
  by (simp add: replay_def)

lemma replay_Nil [simp]: "replay S d [] = d"
  by (simp add: replay_def)

definition writers_start :: "jdict \<Rightarrow> world \<Rightarrow> bool" where
  "writers_start d w \<longleftrightarrow> load_answers (w_file w) = Some d \<and> w_lock w = None \<and> w_agent w = AIdle
     \<and> (w_gphase w = GIdle \<or> w_gphase w = GWaiting) \<and> w_log w = []"

text \<open>A transition in which no writer goes on without the lock.\<close>

inductive locked_step :: "setting \<Rightarrow> world \<Rightarrow> world \<Rightarrow> bool" for S where
  "writers_step S act w = Some w' \<Longrightarrow> act \<noteq> AgentGiveUp \<Longrightarrow> act \<noteq> GuiGiveUp \<Longrightarrow> locked_step S w w'"

inductive_cases locked_stepE: "locked_step S w w'"

definition agent_sound :: "setting \<Rightarrow> jdict \<Rightarrow> world \<Rightarrow> bool" where
  "agent_sound S d w \<longleftrightarrow> (case w_agent w of
     AEntered c \<Rightarrow> w_lock w = Some Agent
   | AComputed c E p x \<Rightarrow> w_lock w = Some Agent \<and> x = agent_data E (st_store S) p c d
   | _ \<Rightarrow> True)"

definition gui_sound :: "setting \<Rightarrow> jdict \<Rightarrow> world \<Rightarrow> bool" where
  "gui_sound S d w \<longleftrightarrow> (case w_gphase w of
     GEntered \<Rightarrow> w_lock w = Some Gui
   | GComputed E x \<Rightarrow> w_lock w = Some Gui
       \<and> x = gui_data E (st_identity S) (gu_lang_priority (w_gui w)) (gu_pending (w_gui w)) d
   | _ \<Rightarrow> True)"

definition writers_ok :: "setting \<Rightarrow> jdict \<Rightarrow> world \<Rightarrow> bool" where
  "writers_ok S d0 w \<longleftrightarrow> (let d = replay S d0 (w_log w) in
     load_answers (w_file w) = Some d \<and> agent_sound S d w \<and> gui_sound S d w)"

lemma load_new_file [simp]: "load_answers (Some (new_file u d i m b)) = Some d"
  by (simp add: load_answers_def open_nofollow_def new_file_def)

lemma agent_begin_keeps:
  "agent_begin S act w = Some w' \<Longrightarrow> w_file w' = w_file w \<and> w_lock w' = w_lock w \<and> w_log w' = w_log w
    \<and> w_gui w' = w_gui w \<and> w_gphase w' = w_gphase w \<and> agent_sound S d w'"
  by (cases act; force simp: agent_begin_def agent_sound_def consume_cheat_def
      split: if_splits sum.splits option.splits agent_phase.splits)

lemma gui_start_keeps:
  "gui_start S act w = Some w' \<Longrightarrow> w_file w' = w_file w \<and> w_lock w' = w_lock w \<and> w_log w' = w_log w
    \<and> w_proj w' = w_proj w \<and> w_agent w' = w_agent w \<and> gui_sound S d w'"
  by (cases act; force simp: gui_start_def gui_sound_def gui_begin_def
      split: if_splits sum.splits option.splits gui_phase.splits)

lemmas sound_defs = writers_ok_def agent_sound_def gui_sound_def Let_def unlock_def

lemma agent_save_ok:
  assumes "writers_ok S d0 w" and "agent_save S a w = Some w'"
  shows "writers_ok S d0 w'"
proof -
  obtain c E p x where phase: "w_agent w = AComputed c E p x"
    using assms(2) by (auto simp: agent_save_def split: agent_phase.splits)
  then have sound: "w_lock w = Some Agent" "x = agent_data E (st_store S) p c (replay S d0 (w_log w))"
    using assms(1) by (auto simp: sound_defs)
  then have gui: "w_gphase w = GIdle \<or> w_gphase w = GWaiting"
    using assms(1) by (auto simp: sound_defs split: gui_phase.splits)
  then show ?thesis
    using assms phase sound
    by (cases a) (auto simp: agent_save_def save_answers_def sound_defs apply_entry_def)
qed

lemma gui_save_ok:
  assumes "writers_ok S d0 w" and "gui_save S a w = Some w'"
  shows "writers_ok S d0 w'"
proof -
  obtain E x where phase: "w_gphase w = GComputed E x"
    using assms(2) by (auto simp: gui_save_def split: gui_phase.splits)
  then have sound: "w_lock w = Some Gui"
      "x = gui_data E (st_identity S) (gu_lang_priority (w_gui w)) (gu_pending (w_gui w)) (replay S d0 (w_log w))"
    using assms(1) by (auto simp: sound_defs)
  then have agent: "w_agent w = AIdle \<or> (\<exists>c. w_agent w = AWaiting c)"
    using assms(1) by (auto simp: sound_defs split: agent_phase.splits)
  then show ?thesis
    using assms phase sound
    by (cases a) (auto simp: gui_save_def sound_defs apply_entry_def)
qed

lemma enter_ok:
  assumes "writers_ok S d0 w"
  shows "agent_enter False w = Some w' \<Longrightarrow> writers_ok S d0 w'" "gui_enter False w = Some w' \<Longrightarrow> writers_ok S d0 w'"
  using assms
  by (auto simp: agent_enter_def gui_enter_def sound_defs split: agent_phase.splits gui_phase.splits if_splits)

lemma read_ok:
  assumes "writers_ok S d0 w"
  shows "agent_read S E w = Some w' \<Longrightarrow> writers_ok S d0 w'" "gui_read S E w = Some w' \<Longrightarrow> writers_ok S d0 w'"
  using assms
  by (auto simp: agent_read_def gui_read_def sound_defs split: agent_phase.splits gui_phase.splits)

lemma gui_sound_same: "w_lock w' = w_lock w \<Longrightarrow> w_gphase w' = w_gphase w \<Longrightarrow> w_gui w' = w_gui w
    \<Longrightarrow> gui_sound S d w \<Longrightarrow> gui_sound S d w'"
  by (simp add: gui_sound_def split: gui_phase.splits)

lemma agent_sound_same: "w_lock w' = w_lock w \<Longrightarrow> w_agent w' = w_agent w \<Longrightarrow> agent_sound S d w \<Longrightarrow> agent_sound S d w'"
  by (simp add: agent_sound_def split: agent_phase.splits)

lemma begin_ok:
  assumes "writers_ok S d0 w"
  shows "agent_begin S act w = Some w' \<Longrightarrow> writers_ok S d0 w'" "gui_start S act w = Some w' \<Longrightarrow> writers_ok S d0 w'"
proof -
  show "writers_ok S d0 w'" if "agent_begin S act w = Some w'"
    using assms agent_begin_keeps [OF that, of "replay S d0 (w_log w)"] gui_sound_same [of w' w]
    by (simp add: writers_ok_def Let_def)
  show "writers_ok S d0 w'" if "gui_start S act w = Some w'"
    using assms gui_start_keeps [OF that, of "replay S d0 (w_log w)"] agent_sound_same [of w' w]
    by (simp add: writers_ok_def Let_def)
qed

lemma locked_step_ok:
  assumes "writers_ok S d0 w" and "locked_step S w w'"
  shows "writers_ok S d0 w'"
proof -
  obtain act where act: "writers_step S act w = Some w'" "act \<noteq> AgentGiveUp" "act \<noteq> GuiGiveUp"
    using assms(2) by (auto elim: locked_stepE)
  have quiet: "writers_ok S d0 (w\<lparr>w_proj := p\<rparr>)" for p
    using assms(1) by (auto simp: sound_defs split: agent_phase.splits gui_phase.splits)
  show ?thesis
    using act assms(1) quiet
    by (cases act) (auto simp: writers_step_def intro: agent_save_ok gui_save_ok enter_ok read_ok begin_ok)
qed

lemma writers_start_ok: "writers_start d0 w \<Longrightarrow> writers_ok S d0 w"
  by (auto simp: writers_start_def sound_defs)

interpretation writers_machine: invariant_machine "writers_start d0" "locked_step S" "writers_ok S d0"
  by unfold_locales (rule writers_start_ok, assumption, rule locked_step_ok)

text \<open>C13: Under the lock the two writers of an answers file take turns: after every history of the agent
  and of the Qt GUI in which neither goes on without the lock, however their transitions interleave
  and whichever saves fail, the content of the file is what the writes that were done make of the
  first content, one after the other, each computed from the content the one before left.\<close>

theorem writers_serialize:
  assumes "writers_start d0 w0" and "(locked_step S)\<^sup>*\<^sup>* w0 w"
  shows "load_answers (w_file w) = Some (replay S d0 (w_log w))"
  using writers_machine.reach_inv [OF assms] by (simp add: writers_ok_def Let_def)

section \<open>No answer is undone\<close>

definition metadata_keys :: "string list" where
  "metadata_keys = [hostname_keyword, login_keyword, fullname_keyword, email_keyword, language_keyword,
     group_keyword, answers_updated_at, kw_time_remaining, kw_started_at, kw_duration, kw_exam_mode]"

lemmas keyword_defs = hostname_keyword_def login_keyword_def fullname_keyword_def email_keyword_def
  language_keyword_def group_keyword_def answers_updated_at_def kw_time_remaining_def kw_started_at_def
  kw_duration_def kw_exam_mode_def

lemma hash_no_metadata: "length q = HASH_LENGTH \<Longrightarrow> q \<notin> set metadata_keys"
  by (auto simp: metadata_keys_def keyword_defs HASH_LENGTH_def)

lemma exam_fields_keys: "set (keys_of (exam_fields H x)) \<subseteq> {kw_exam_mode, kw_started_at, kw_duration, kw_time_remaining}"
  by (auto simp: exam_fields_def keys_of_def Let_def dom_update keyword_defs split: option.splits)

lemma exam_fields_none: "k \<notin> {kw_exam_mode, kw_started_at, kw_duration, kw_time_remaining}
    \<Longrightarrow> map_of (rev (exam_fields H x)) k = None"
  using exam_fields_keys [of H x] by (auto simp: keys_of_def map_of_eq_None_iff)

lemma with_metadata_other: "q \<notin> set metadata_keys \<Longrightarrow> dget (with_metadata H d m x) q = dget d q"
  by (simp add: with_metadata_def Let_def metadata_keys_def exam_fields_none split: option.splits)

text \<open>The answers a write puts on top of the file.\<close>

definition patch_of :: "entry \<Rightarrow> jdict" where
  "patch_of e = (case e of
     AgentWrote E p (Put n i) \<Rightarrow> n
   | AgentWrote E p (Cheat c) \<Rightarrow> c
   | AgentWrote E p _ \<Rightarrow> []
   | GuiWrote E langs pending \<Rightarrow> pending)"

definition given :: "string \<Rightarrow> jvalue option \<Rightarrow> entry \<Rightarrow> jvalue option" where
  "given q v e = (case map_of (rev (patch_of e)) q of Some x \<Rightarrow> Some x | None \<Rightarrow> v)"

lemma apply_entry_get:
  assumes "q \<notin> set metadata_keys"
  shows "dget (apply_entry S d e) q = given q (dget d q) e"
proof (cases e)
  case (AgentWrote E p c)
  then show ?thesis
    using with_metadata_other [OF assms]
    by (cases c) (simp_all add: apply_entry_def given_def patch_of_def put_data_def own_metadata_def kept_metadata_def
        merge_cheat_def Let_def)
next
  case (GuiWrote E langs pending)
  then show ?thesis
    using with_metadata_other [OF assms]
    by (simp add: apply_entry_def given_def patch_of_def gui_data_def)
qed

lemma replay_get: "q \<notin> set metadata_keys \<Longrightarrow> dget (replay S d es) q = foldl (given q) (dget d q) es"
  by (induction es rule: rev_induct) (simp_all add: apply_entry_get)

text \<open>C14: No answer is undone: after every such history the file holds, for each question, the value the
  last write that gave it a value gave it, or the first one when no write did. What the other writer
  saved in between, its metadata or the exam fields never bring an older value back.\<close>

theorem no_answer_undone:
  assumes "writers_start d0 w0" and "(locked_step S)\<^sup>*\<^sup>* w0 w" and "length q = HASH_LENGTH"
  shows "\<exists>d. load_answers (w_file w) = Some d \<and> dget d q = foldl (given q) (dget d0 q) (w_log w)"
  using writers_machine.reach_inv [OF assms(1,2)] replay_get [OF hash_no_metadata [OF assms(3)]]
  by (simp add: writers_ok_def Let_def)

section \<open>An instructor leaves the student's metadata alone\<close>

lemma stored_text [simp]: "dget d k = Some (VText s) \<Longrightarrow> stored d k = s"
  by (simp add: stored_def truthy_def)

lemma normalize_keys: "normalize J p patch = Inr n \<Longrightarrow> (k, v) \<in> set n \<Longrightarrow> length k = HASH_LENGTH"
proof (unfold normalize_def, induction patch arbitrary: n)
  case (Cons kv patch)
  then show ?case
    by (auto simp: normalize_one_def elim!: ebind_InrE split: prod.splits option.splits if_splits
        pvalue.splits jvalue.splits)
qed simp

lemma normalize_metadata:
  assumes "normalize J p patch = Inr n" and "k \<in> set metadata_keys"
  shows "map_of (rev n) k = None"
  using normalize_keys [OF assms(1)] hash_no_metadata [of k] assms(2)
  by (force simp: map_of_eq_None_iff)

definition personal_keys :: "string list" where
  "personal_keys = [login_keyword, fullname_keyword, email_keyword, group_keyword, language_keyword]"

lemma with_metadata_personal:
  "dget (with_metadata H d m x) login_keyword = Some (VText (md_login m))"
  "dget (with_metadata H d m x) fullname_keyword = Some (VText (md_fullname m))"
  "dget (with_metadata H d m x) language_keyword = Some (VText (md_language m))"
  "dget (with_metadata H d m x) email_keyword = (case md_email m of Some e \<Rightarrow> Some (VText e) | None \<Rightarrow> dget d email_keyword)"
  "dget (with_metadata H d m x) group_keyword = (case md_group m of Some g \<Rightarrow> Some (VText g) | None \<Rightarrow> dget d group_keyword)"
proof -
  have "map_of (rev (exam_fields H x)) k = None" if "k \<in> set personal_keys" for k
    using that by (intro exam_fields_none) (auto simp: personal_keys_def keyword_defs)
  then have none: "map_of (rev (exam_fields H x)) login_keyword = None" "map_of (rev (exam_fields H x)) fullname_keyword = None"
      "map_of (rev (exam_fields H x)) language_keyword = None" "map_of (rev (exam_fields H x)) email_keyword = None"
      "map_of (rev (exam_fields H x)) group_keyword = None"
    by (simp_all add: personal_keys_def)
  have keys: "distinct (hostname_keyword # answers_updated_at # personal_keys)"
    by (simp add: personal_keys_def keyword_defs)
  show "dget (with_metadata H d m x) login_keyword = Some (VText (md_login m))"
    "dget (with_metadata H d m x) fullname_keyword = Some (VText (md_fullname m))"
    "dget (with_metadata H d m x) language_keyword = Some (VText (md_language m))"
    "dget (with_metadata H d m x) email_keyword = (case md_email m of Some e \<Rightarrow> Some (VText e) | None \<Rightarrow> dget d email_keyword)"
    "dget (with_metadata H d m x) group_keyword = (case md_group m of Some g \<Rightarrow> Some (VText g) | None \<Rightarrow> dget d group_keyword)"
    using keys by (auto simp: with_metadata_def Let_def none personal_keys_def split: option.splits)
qed

text \<open>The answers an instructor types on a student's project leave the student's metadata as they are:
  a login, full name, e-mail, group or language the file holds is still there after the write, never
  the instructor's, and a file without a login gets that of the owner of the project.\<close>

theorem helper_keeps_metadata:
  assumes "normalize J p patch = Inr n" and "login i \<noteq> ap_owner p"
  shows "(\<forall>k \<in> set personal_keys. stored d k \<noteq> [] \<longrightarrow> stored (put_data E S p n i d) k = stored d k)
    \<and> (stored d login_keyword = [] \<longrightarrow> stored (put_data E S p n i d) login_keyword = ap_owner p)"
proof -
  have same: "stored (dict_update d n) k = stored d k" if "k \<in> set personal_keys" for k
  proof -
    have "k \<in> set metadata_keys" using that by (auto simp: personal_keys_def metadata_keys_def)
    then show ?thesis using normalize_metadata [OF assms(1)] by (simp add: stored_def)
  qed
  show ?thesis
    using assms(2) same
    by (simp add: personal_keys_def put_data_def kept_metadata_def Let_def with_metadata_personal or_text_def)
qed

section \<open>What is read at a path anyone may write to\<close>


text \<open>The answers file is not opened with the same care: the read of a FIFO a student put in its place
  never returns, and neither does the transition of the agent that reads it, which is its whole loop.\<close>

theorem fifo_blocks:
  "(load_answers entry = None \<longleftrightarrow> (\<exists>n. entry = Some n \<and> nd_kind n = Fifo \<and> nd_readable n))
   \<and> (\<forall>S E w c n. w_agent w = AEntered c \<and> w_file w = Some n \<and> nd_kind n = Fifo \<and> nd_readable n
        \<longrightarrow> writers_step S (AgentRead E) w = None)"
  by (auto simp: load_answers_def open_nofollow_def writers_step_def agent_read_def split: option.splits)

section \<open>Runs\<close>

fun run :: "setting \<Rightarrow> op list \<Rightarrow> world \<Rightarrow> world option" where
  "run S [] w = Some w"
| "run S (a # acts) w = (case writers_step S a w of Some w' \<Rightarrow> run S acts w' | None \<Rightarrow> None)"

lemma run_locked: "run S acts w = Some w' \<Longrightarrow> AgentGiveUp \<notin> set acts \<Longrightarrow> GuiGiveUp \<notin> set acts
    \<Longrightarrow> (locked_step S)\<^sup>*\<^sup>* w w'"
  by (induction acts arbitrary: w)
    (auto split: option.splits intro: converse_rtranclp_into_rtranclp locked_step.intros)

end
