(* ===== verification/Answers_Runs.thy ===== *)
theory Answers_Runs
  imports Answers_Safety
begin

text \<open>
  Concrete runs of the two writers of an answers file: both at work under the lock, a write gone on
  without it, a write of the metadata over one of the GUI; and the witnesses of \<open>Answers_Safety\<close>.
\<close>

definition demo_clock :: host_clock where
  "demo_clock = \<lparr>hc_now = 0, hc_stamp = ''2026-11-04 09:00'', hc_fromiso = (\<lambda>_. None), hc_int = (\<lambda>_. None)\<rparr>"

definition demo_env :: host_env where
  "demo_env = \<lparr>he_clock = demo_clock, he_epoch = (\<lambda>_. None), he_exam_json = None\<rparr>"

definition q1 :: string where "q1 = replicate 64 (CHR ''a'')"
definition q2 :: string where "q2 = replicate 64 (CHR ''b'')"

definition demo_project :: aproject where
  "demo_project = \<lparr>ap_owner = ''alice'', ap_default_language = ''en'',
     ap_questions = [\<lparr>qn_hash = Some q1, qn_type = TEXT, qn_description = NoText\<rparr>,
       \<lparr>qn_hash = Some q2, qn_type = TEXT, qn_description = NoText\<rparr>],
     ap_exam = None, ap_sig = Some (1, 0, 2), ap_subscribers = True, ap_events = [], ap_cheat_warning = None,
     ap_warnings = [], ap_touched = 0\<rparr>"

definition demo_setting :: setting where
  "demo_setting = \<lparr>st_store = \<lparr>as_hostname = ''host1'', as_owner = 990\<rparr>,
     st_identity = \<lparr>si_hostname = ''host1'', si_login = ''alice'', si_fullname = ''Alice'', si_email = None\<rparr>,
     st_uid = 1001, st_sre_uid = 990, st_json = \<lparr>js_loads = (\<lambda>_. None), js_dumps = (\<lambda>_. [])\<rparr>\<rparr>"

definition demo_world :: world where
  "demo_world = \<lparr>w_file = Some (new_file 1001 [] 1 0 2), w_lock = None, w_proj = demo_project, w_agent = AIdle,
     w_gui = \<lparr>gu_answers = [], gu_pending = [], gu_sig = Some (1, 0, 2), gu_error_reported = False,
       gu_lang_priority = [''fr'']\<rparr>, w_gphase = GIdle, w_log = []\<rparr>"

definition student :: identity where
  "student = \<lparr>login = ''alice'', fullname = ''Alice Liddell'', email = [], role_of = Student, language = ''en'',
     anonymous = False, view_of = StudentView, group = ''g1'', administrator = False\<rparr>"

definition teacher :: identity where
  "teacher = student\<lparr>login := ''carol'', fullname := ''Carol'', role_of := Instructor, group := []\<rparr>"

definition from_page :: "(string \<times> pvalue) list" where "from_page = [(q1, PValue (VText ''page''))]"

definition both_write :: "op list" where
  "both_write = [AgentPut from_page student, GuiType q2 ''gui'', GuiAcquire, GuiRead demo_env, GuiSave (Saved 2 0 9),
     AgentAcquire, AgentRead demo_env, AgentSave (Saved 3 0 9)]"

definition unlocked :: "op list" where
  "unlocked = [AgentPut from_page student, GuiType q2 ''gui'', GuiAcquire, GuiRead demo_env,
     AgentGiveUp, AgentRead demo_env, AgentSave (Saved 2 0 9), GuiSave (Saved 3 0 9)]"

definition rewritten :: "op list" where
  "rewritten = [GuiType q2 ''gui'', GuiAcquire, GuiRead demo_env, GuiSave (Saved 2 0 9),
     AgentRewriteKept, AgentAcquire, AgentRead demo_env, AgentSave (Saved 3 0 9), AgentWatch None]"

definition file_answer :: "world \<Rightarrow> string \<Rightarrow> jvalue option" where
  "file_answer w q = (case load_answers (w_file w) of Some d \<Rightarrow> dget d q | None \<Rightarrow> None)"

lemma demo_runs:
  "map_option (\<lambda>w. (file_answer w q1, file_answer w q2)) (run demo_setting both_write demo_world)
     = Some (Some (VText ''page''), Some (VText ''gui''))"
  "map_option (\<lambda>w. (file_answer w q1, file_answer w q2)) (run demo_setting unlocked demo_world)
     = Some (None, Some (VText ''gui''))"
  by code_simp+


lemma demo_writers_start: "writers_start [] demo_world"
  by (simp add: writers_start_def demo_world_def)

lemma demo_reached: "\<exists>w. (locked_step demo_setting)\<^sup>*\<^sup>* demo_world w
    \<and> file_answer w q1 = Some (VText ''page'') \<and> file_answer w q2 = Some (VText ''gui'')"
proof -
  obtain w where w: "run demo_setting both_write demo_world = Some w"
      "file_answer w q1 = Some (VText ''page'')" "file_answer w q2 = Some (VText ''gui'')"
    using demo_runs(1) by (auto simp: map_option_eq_Some)
  then show ?thesis using run_locked [OF w(1)] by (auto simp: both_write_def)
qed

theorem writers_serialize_witness:
  "\<exists>w. (locked_step demo_setting)\<^sup>*\<^sup>* demo_world w
     \<and> load_answers (w_file w) = Some (replay demo_setting [] (w_log w))
     \<and> dget (replay demo_setting [] (w_log w)) q1 = Some (VText ''page'')"
proof -
  obtain w where w: "(locked_step demo_setting)\<^sup>*\<^sup>* demo_world w" "file_answer w q1 = Some (VText ''page'')"
    using demo_reached by blast
  then show ?thesis using writers_serialize [OF demo_writers_start w(1)] by (auto simp: file_answer_def)
qed

theorem no_answer_undone_witness:
  "\<exists>w. (locked_step demo_setting)\<^sup>*\<^sup>* demo_world w
     \<and> (\<exists>d. load_answers (w_file w) = Some d \<and> dget d q1 = foldl (given q1) None (w_log w))
     \<and> file_answer w q1 = Some (VText ''page'')"
proof -
  obtain w where w: "(locked_step demo_setting)\<^sup>*\<^sup>* demo_world w" "file_answer w q1 = Some (VText ''page'')"
    using demo_reached by blast
  then show ?thesis using no_answer_undone [OF demo_writers_start w(1), of q1] by (auto simp: q1_def HASH_LENGTH_def)
qed

definition demo_file :: jdict where
  "demo_file = [(login_keyword, VText ''alice''), (fullname_keyword, VText ''Alice Liddell'')]"

theorem helper_keeps_metadata_witness:
  "normalize (st_json demo_setting) demo_project from_page = Inr [(q1, VText ''page'')]
   \<and> stored (put_data demo_env (st_store demo_setting) demo_project [(q1, VText ''page'')] teacher demo_file) fullname_keyword
      = ''Alice Liddell''"
proof -
  have patch: "normalize (st_json demo_setting) demo_project from_page = Inr [(q1, VText ''page'')]"
    by code_simp
  moreover have "login teacher \<noteq> ap_owner demo_project"
    by (simp add: teacher_def student_def demo_project_def)
  moreover have "stored demo_file fullname_keyword = ''Alice Liddell''" "fullname_keyword \<in> set personal_keys"
    by (simp_all add: demo_file_def personal_keys_def keyword_defs stored_def truthy_def)
  ultimately show ?thesis
    using helper_keeps_metadata [of "st_json demo_setting" demo_project from_page "[(q1, VText ''page'')]" teacher demo_file
        demo_env "st_store demo_setting"] by auto
qed

definition demo_cheat :: cheat_calls where
  "demo_cheat = (let n = (new_file 990 [(q1, VText ''x'')] 7 0 80) in
     \<lparr>cf_open = Some n, cf_lstat = Some n, cf_read = (80, JsonObject [(q1, VText ''x'')]), cf_unlink = Removed,
      cf_rmdir = False, cf_lexists = False\<rparr>)"


definition demo_fifo :: node where
  "demo_fifo = (new_file 1001 [] 8 0 0)\<lparr>nd_kind := Fifo\<rparr>"

theorem fifo_blocks_witness:
  "load_answers (Some demo_fifo) = None
   \<and> writers_step demo_setting (AgentRead demo_env) (demo_world\<lparr>w_agent := AEntered RewriteKept, w_file := Some demo_fifo\<rparr>) = None"
  using fifo_blocks [of "Some demo_fifo"] by (auto simp: demo_fifo_def new_file_def)

text \<open>A write of the metadata alone hides what the Qt GUI wrote: the signature the agent notes is that
  of its own file, so the next tick finds nothing new and the open pages are never sent the answer
  typed in the GUI.\<close>

theorem push_lost:
  "\<exists>w. run demo_setting rewritten demo_world = Some w \<and> file_answer w q2 = Some (VText ''gui'')
     \<and> ap_subscribers (w_proj w) \<and> ap_events (w_proj w) = []
     \<and> ap_sig (w_proj w) = file_signature None (w_file w) \<and> w_agent w = AIdle"
proof -
  have "map_option (\<lambda>w. (file_answer w q2, ap_subscribers (w_proj w), ap_events (w_proj w),
        ap_sig (w_proj w) = file_signature None (w_file w), case w_agent w of AIdle \<Rightarrow> True | _ \<Rightarrow> False))
      (run demo_setting rewritten demo_world) = Some (Some (VText ''gui''), True, [], True, True)"
    by code_simp
  moreover have "(case x of AIdle \<Rightarrow> True | _ \<Rightarrow> False) \<longleftrightarrow> x = AIdle" for x
    by (cases x) auto
  ultimately show ?thesis by auto
qed

end
