(* ===== verification/Command_Access.thy ===== *)
theory Command_Access
  imports Agent_Access
begin

text \<open>
  Who may run \<open>sre\<close>, and on which projects: the rules of \<^verbatim>\<open>src/src/SRE/access.py\<close>, the sequence of
  checks at the start of \<^verbatim>\<open>src/src/sre.py\<close>, the choice of the project a command names
  (\<open>resolve_running_lab_name\<close> of \<^verbatim>\<open>src/src/SRE/utils.py\<close>) and the projects a user stops at once
  (\<^verbatim>\<open>src/src/SRE/command/stop_all.py\<close>). The kernel's process table and \<open>os.path.realpath\<close> are
  arguments.
\<close>

section \<open>The settings, the process and the kernel\<close>

record cli_params =
  cp_sre_uid :: int
  cp_sre_user :: string
  cp_admin_uids :: "int list"
  cp_admin_gids :: "int list"
  cp_use_sudo_user :: bool
  cp_check_project_owner :: bool
  cp_sre_exe :: string
  cp_sre_wrapper :: string

record process =
  pr_uid :: int
  pr_gids :: "int list"
  pr_env :: "(string \<times> string) list"
  pr_ppid :: nat
  pr_user :: bool
  pr_debug :: bool
  pr_action :: string

text \<open>
  \<open>/proc\<close>: the link \<open>exe\<close> of a process (\<open>None\<close> when it cannot be read) and the parent named by its
  \<open>status\<close> (\<open>None\<close> when the file cannot be read, \<open>Some None\<close> when it names none).
\<close>

record proc_entry =
  pe_exe :: "string option"
  pe_parent :: "nat option option"

type_synonym proc_table = "nat \<Rightarrow> proc_entry"

section \<open>The rules\<close>

definition ADMIN_ACTIONS :: "string set" where
  "ADMIN_ACTIONS = {''cat'', ''check-eval'', ''re-eval'', ''sheet'', ''outline'', ''watch''}"

definition WRAPPER_ANCESTOR_DEPTH :: nat where "WRAPPER_ANCESTOR_DEPTH = 6"

definition is_allowed_user :: "cli_params \<Rightarrow> int \<Rightarrow> int list \<Rightarrow> bool" where
  "is_allowed_user P uid gids \<longleftrightarrow>
     (if uid = 0 \<or> uid = cp_sre_uid P then True
      else uid \<in> set (cp_admin_uids P) \<or> set gids \<inter> set (cp_admin_gids P) \<noteq> {})"

definition is_allowed_action :: "cli_params \<Rightarrow> int \<Rightarrow> string \<Rightarrow> bool" where
  "is_allowed_action P uid action \<longleftrightarrow> uid = 0 \<or> uid = cp_sre_uid P \<or> action \<in> ADMIN_ACTIONS"

definition env_get :: "(string \<times> string) list \<Rightarrow> string \<Rightarrow> string" where
  "env_get env k = (case dget env k of Some v \<Rightarrow> v | None \<Rightarrow> [])"

definition resolve_username :: "(string \<times> string) list \<Rightarrow> bool \<Rightarrow> bool \<Rightarrow> string" where
  "resolve_username env user_flag use_sudo_user =
     (if user_flag then env_get env (if use_sudo_user then ''SUDO_USER'' else ''USER_USERNAME'')
      else env_get env ''LOGNAME'')"

definition is_valid_username :: "string \<Rightarrow> bool" where
  "is_valid_username name = valid_login_match name"

definition may_access_project :: "string \<Rightarrow> string \<Rightarrow> bool \<Rightarrow> string list \<Rightarrow> bool" where
  "may_access_project owner username check shared =
     (if \<not> check then True else owner \<noteq> [] \<and> (owner = username \<or> owner \<in> set shared))"

definition launched_by_sudo :: "(string \<Rightarrow> string) \<Rightarrow> (string \<times> string) list \<Rightarrow> string \<Rightarrow> bool" where
  "launched_by_sudo realpath env sre_exe =
     (if env_get env ''SUDO_USER'' = [] then False
      else (let cmd = fst (partition_at (CHR '' '') (env_get env ''SUDO_COMMAND''))
            in cmd \<noteq> [] \<and> realpath cmd = realpath sre_exe))"

text \<open>One turn of the loop looks at \<open>pid\<close>; the number is the turns left.\<close>

fun wrapper_loop :: "proc_table \<Rightarrow> string \<Rightarrow> nat \<Rightarrow> nat \<Rightarrow> bool" where
  "wrapper_loop proc wrapper_real 0 pid = False"
| "wrapper_loop proc wrapper_real (Suc n) pid =
     (if pe_exe (proc pid) = Some wrapper_real then True
      else (case pe_parent (proc pid) of
          None \<Rightarrow> False
        | Some None \<Rightarrow> False
        | Some (Some parent) \<Rightarrow>
            if parent = 0 \<or> parent = 1 \<or> parent = pid then False else wrapper_loop proc wrapper_real n parent))"

definition launched_from_wrapper :: "proc_table \<Rightarrow> (string \<Rightarrow> string) \<Rightarrow> string \<Rightarrow> nat \<Rightarrow> bool" where
  "launched_from_wrapper proc realpath wrapper ppid = wrapper_loop proc (realpath wrapper) WRAPPER_ANCESTOR_DEPTH ppid"

text \<open>The start of \<open>sre\<close>: the checks in their order, then the name the command runs under.\<close>

datatype cli_error = IllegalUserid | UserAndDebug | IllegalAction | InvalidUsername | NotFromWrapper

definition sre_start :: "cli_params \<Rightarrow> proc_table \<Rightarrow> (string \<Rightarrow> string) \<Rightarrow> process \<Rightarrow> cli_error + string" where
  "sre_start P proc realpath c =
     (if \<not> is_allowed_user P (pr_uid c) (pr_gids c) then Inl IllegalUserid
      else if pr_user c \<and> pr_debug c then Inl UserAndDebug
      else if \<not> is_allowed_action P (pr_uid c) (pr_action c) then Inl IllegalAction
      else (let username = resolve_username (pr_env c) (pr_user c) (cp_use_sudo_user P) in
        if \<not> is_valid_username username then Inl InvalidUsername
        else if launched_by_sudo realpath (pr_env c) (cp_sre_exe P)
             \<and> (\<not> pr_user c \<or> \<not> launched_from_wrapper proc realpath (cp_sre_wrapper P) (pr_ppid c))
        then Inl NotFromWrapper
        else Inr username))"

section \<open>The projects of a command\<close>

definition project_accessible :: "cli_params \<Rightarrow> string \<Rightarrow> string \<Rightarrow> bool" where
  "project_accessible P rln username =
     may_access_project (get_username_from_running_lab_name rln) username (cp_check_project_owner P)
       [''root'', cp_sre_user P]"

datatype resolve_error = NotYourProject | NoMatch | Ambiguous "string list"

text \<open>\<open>entries\<close> is the listing of the projects directory, empty when it cannot be read.\<close>

definition running_labs :: "string list \<Rightarrow> string list" where
  "running_labs entries = sort (filter (\<lambda>e. rln_match e \<noteq> None) entries)"

definition candidates_for :: "cli_params \<Rightarrow> bool \<Rightarrow> string \<Rightarrow> string list \<Rightarrow> string list" where
  "candidates_for P in_user_mode username entries =
     (if in_user_mode then filter (\<lambda>l. project_accessible P l username) (running_labs entries)
      else running_labs entries)"

definition resolve_running_lab_name :: "cli_params \<Rightarrow> bool \<Rightarrow> string \<Rightarrow> string list \<Rightarrow> string \<Rightarrow> resolve_error + string" where
  "resolve_running_lab_name P in_user_mode username entries partial =
     (let accessible = candidates_for P in_user_mode username entries in
      if partial \<in> set (running_labs entries) then
        (if partial \<in> set accessible then Inr partial else Inl NotYourProject)
      else (let matches = filter (contains partial) accessible in
        if length matches = 1 then Inr (matches ! 0)
        else if matches = [] then Inl NoMatch
        else Inl (Ambiguous matches)))"

text \<open>\<open>accessible_projects\<close> of \<open>stop-all\<close>: the running labs with their hashes.\<close>

definition accessible_projects :: "cli_params \<Rightarrow> bool \<Rightarrow> string \<Rightarrow> (string \<times> string) list \<Rightarrow> (string \<times> string) list" where
  "accessible_projects P in_user_mode username running =
     (if in_user_mode then filter (\<lambda>(rln, h). project_accessible P rln username) (sort running) else sort running)"

section \<open>The ancestors of a process\<close>

text \<open>The processes the loop looks at, without a bound on their number.\<close>

inductive ancestor :: "proc_table \<Rightarrow> nat \<Rightarrow> nat \<Rightarrow> nat \<Rightarrow> bool" for proc where
  "ancestor proc 0 pid pid"
| "ancestor proc n pid p \<Longrightarrow> pe_parent (proc p) = Some (Some q) \<Longrightarrow> Suc 0 < q \<Longrightarrow> q \<noteq> p
    \<Longrightarrow> ancestor proc (Suc n) pid q"

inductive_cases ancestor_0E: "ancestor proc 0 pid p"
inductive_cases ancestor_SucE: "ancestor proc (Suc n) pid p"

lemma ancestor_first:
  assumes "pe_parent (proc pid) = Some (Some q)" and "Suc 0 < q" and "q \<noteq> pid" and "ancestor proc n q p"
  shows "ancestor proc (Suc n) pid p"
  using assms(4)
proof (induction n arbitrary: p)
  case 0
  then show ?case using assms(1-3) by (auto elim!: ancestor_0E intro: ancestor.intros)
next
  case (Suc n)
  from Suc.prems obtain r where "ancestor proc n q r" "pe_parent (proc r) = Some (Some p)" "Suc 0 < p" "p \<noteq> r"
    by (auto elim: ancestor_SucE)
  then show ?case using ancestor.intros(2) [OF Suc.IH [of r]] by blast
qed

lemma ancestor_rest:
  assumes "ancestor proc (Suc n) pid p"
  shows "\<exists>q. pe_parent (proc pid) = Some (Some q) \<and> Suc 0 < q \<and> q \<noteq> pid \<and> ancestor proc n q p"
  using assms
proof (induction n arbitrary: p)
  case 0
  then show ?case by (auto elim!: ancestor_SucE elim: ancestor_0E intro: ancestor.intros(1))
next
  case (Suc n)
  from Suc.prems obtain r where "ancestor proc (Suc n) pid r" "pe_parent (proc r) = Some (Some p)"
      "Suc 0 < p" "p \<noteq> r"
    by (auto elim: ancestor_SucE)
  then show ?case using Suc.IH [of r] by (auto intro: ancestor.intros(2))
qed

lemma wrapper_loop_is:
  "wrapper_loop proc w n pid \<longleftrightarrow> (\<exists>k < n. \<exists>p. ancestor proc k pid p \<and> pe_exe (proc p) = Some w)"
proof (induction n arbitrary: pid)
  case (Suc n)
  show ?case
  proof (cases "pe_exe (proc pid) = Some w")
    case True
    then show ?thesis using ancestor.intros(1) [of proc pid] by auto
  next
    case False
    have "(\<exists>k < Suc n. \<exists>p. ancestor proc k pid p \<and> pe_exe (proc p) = Some w)
        \<longleftrightarrow> (\<exists>k < n. \<exists>p. ancestor proc (Suc k) pid p \<and> pe_exe (proc p) = Some w)"
      using False by (auto simp: less_Suc_eq_0_disj elim: ancestor_0E)
    also have "\<dots> \<longleftrightarrow> (\<exists>q. pe_parent (proc pid) = Some (Some q) \<and> Suc 0 < q \<and> q \<noteq> pid
        \<and> (\<exists>k < n. \<exists>p. ancestor proc k q p \<and> pe_exe (proc p) = Some w))"
      by (blast dest: ancestor_rest intro: ancestor_first)
    finally show ?thesis
      using False Suc.IH by (auto split: option.splits)
  qed
qed simp

section \<open>What a caller can do\<close>

lemma resolved_in:
  assumes "resolve_running_lab_name P True u entries partial = Inr r"
  shows "r \<in> set (candidates_for P True u entries)"
proof -
  have "filter (contains partial) xs ! 0 \<in> set xs" if "length (filter (contains partial) xs) = 1" for xs
    using nth_mem [of 0 "filter (contains partial) xs"] that by auto
  then show ?thesis
    using assms by (auto simp: resolve_running_lab_name_def Let_def split: if_splits)
qed

lemma candidates_for_iff: "r \<in> set (candidates_for P True u entries) \<longleftrightarrow>
    r \<in> set entries \<and> rln_match r \<noteq> None \<and> project_accessible P r u"
  by (auto simp: candidates_for_def running_labs_def)

lemma accessible_owner: "project_accessible P r u \<Longrightarrow> cp_check_project_owner P
    \<Longrightarrow> get_username_from_running_lab_name r \<in> {u, ''root'', cp_sre_user P}"
  by (auto simp: project_accessible_def may_access_project_def)


text \<open>Who is not root nor the sre user runs the read-only tools only, and only as an administrator by
  uid or by group; nobody runs anything under a name that is not a word of the pattern.\<close>

theorem administrator_contained:
  assumes "sre_start P proc realpath c = Inr u" and "pr_uid c \<noteq> 0" and "pr_uid c \<noteq> cp_sre_uid P"
  shows "pr_action c \<in> ADMIN_ACTIONS
    \<and> (pr_uid c \<in> set (cp_admin_uids P) \<or> set (pr_gids c) \<inter> set (cp_admin_gids P) \<noteq> {})
    \<and> is_valid_username u"
  using assms by (auto simp: sre_start_def is_allowed_user_def is_allowed_action_def Let_def split: if_splits)

section \<open>A call\<close>

definition demo_params :: cli_params where
  "demo_params = \<lparr>cp_sre_uid = 1100, cp_sre_user = ''sre'', cp_admin_uids = [], cp_admin_gids = [2000],
     cp_use_sudo_user = True, cp_check_project_owner = True, cp_sre_exe = ''/opt/sre/sbin/sre'',
     cp_sre_wrapper = ''/opt/sre/bin/sre-wrapper''\<rparr>"

text \<open>Process 30 is \<open>sudo\<close>, its parent 20 the wrapper.\<close>

definition demo_proc :: proc_table where
  "demo_proc pid = (if pid = 30 then \<lparr>pe_exe = Some ''/usr/bin/sudo'', pe_parent = Some (Some 20)\<rparr>
     else if pid = 20 then \<lparr>pe_exe = Some ''/opt/sre/bin/sre-wrapper'', pe_parent = Some (Some 10)\<rparr>
     else \<lparr>pe_exe = None, pe_parent = None\<rparr>)"

definition demo_call :: process where
  "demo_call = \<lparr>pr_uid = 0, pr_gids = [0], pr_env = [(''SUDO_USER'', ''alice''),
     (''SUDO_COMMAND'', ''/opt/sre/sbin/sre --user stop 2'')], pr_ppid = 30, pr_user = True, pr_debug = False,
     pr_action = ''stop''\<rparr>"

definition demo_labs :: "string list" where
  "demo_labs = [''20261104@@@dns@@@bob'', ''20261103@@@dns@@@alice'', ''20261102@@@arp@@@root'']"

lemma demo_call_runs:
  "sre_start demo_params demo_proc id demo_call = Inr ''alice''"
  "launched_by_sudo id (pr_env demo_call) (cp_sre_exe demo_params)"
  "resolve_running_lab_name demo_params True ''alice'' demo_labs ''dns'' = Inr ''20261103@@@dns@@@alice''"
  "resolve_running_lab_name demo_params True ''alice'' demo_labs ''20261104@@@dns@@@bob'' = Inl NotYourProject"
  by code_simp+


theorem administrator_contained_witness:
  "sre_start demo_params demo_proc id (demo_call\<lparr>pr_uid := 1500, pr_gids := [2000], pr_env := [(''LOGNAME'', ''carol'')],
      pr_user := False, pr_action := ''watch''\<rparr>) = Inr ''carol'' \<and> ''watch'' \<in> ADMIN_ACTIONS"
proof -
  let ?c = "demo_call\<lparr>pr_uid := 1500, pr_gids := [2000], pr_env := [(''LOGNAME'', ''carol'')], pr_user := False,
      pr_action := ''watch''\<rparr>"
  have start: "sre_start demo_params demo_proc id ?c = Inr ''carol''" by code_simp
  have "pr_uid ?c \<noteq> 0" "pr_uid ?c \<noteq> cp_sre_uid demo_params" by (simp_all add: demo_params_def)
  from administrator_contained [OF start this] show ?thesis using start by simp
qed

end
