(* ===== verification/Sign_In.thy ===== *)
theory Sign_In
  imports Identity
begin

text \<open>
  Who a request speaks for. Between the portal and an agent: the trust headers
  (\<open>Identity.headers\<close> and \<open>from_headers\<close> of \<^verbatim>\<open>src/src/sreweb/identity.py\<close>). Between a browser and the
  portal: the signed session cookie (\<^verbatim>\<open>src/src/sreweb/portal/session.py\<close>), the sign-in and the change
  of the language that issues it again (\<open>api_language\<close> of \<^verbatim>\<open>portal/routes.py\<close>), the administrators of
  the configuration (\<open>_administrator\<close> of \<^verbatim>\<open>portal/app.py\<close>). The HMAC, the JSON text and the two base64
  encodings are an argument, \<open>codec\<close>; what is used of them is \<open>codec_ok\<close>.
\<close>

section \<open>The encodings\<close>

text \<open>\<open>iat\<close> in a payload: absent, an integer, another number, or no number.\<close>

datatype iat_value = NoIat | IntIat int | FloatIat real | BadIat

text \<open>
  The JSON object of a cookie; a key that is absent is \<open>None\<close>. The keys of a signed payload have the
  types \<open>encode\<close> gives them: a text with values of other types is one \<open>cd_loads\<close> refuses.
\<close>

record cookie_payload =
  pl_login :: "string option"
  pl_fullname :: "string option"
  pl_email :: "string option"
  pl_role :: "string option"
  pl_language :: "string option"
  pl_anonymous :: "bool option"
  pl_group :: "string option"
  pl_administrator :: "bool option"
  pl_iat :: iat_value

record codec =
  cd_sign :: "string \<Rightarrow> string \<Rightarrow> string"
  cd_dumps :: "cookie_payload \<Rightarrow> string"
  cd_loads :: "string \<Rightarrow> cookie_payload option"
  cd_b64 :: "string \<Rightarrow> string"
  cd_unb64 :: "string \<Rightarrow> string option"
  cd_text :: "string \<Rightarrow> string"
  cd_untext :: "string \<Rightarrow> string option"

definition codec_ok :: "codec \<Rightarrow> bool" where
  "codec_ok C \<longleftrightarrow> (\<forall>p n. pl_iat p = IntIat n \<longrightarrow> cd_loads C (cd_dumps C p) = Some p)
     \<and> (\<forall>raw. cd_unb64 C (cd_b64 C raw) = Some raw)
     \<and> (\<forall>secret raw. CHR ''.'' \<notin> set (cd_sign C secret raw))
     \<and> (\<forall>s. cd_untext C (cd_text C s) = Some s)"

section \<open>The trust headers\<close>

definition ROLE_STUDENT :: string where "ROLE_STUDENT = ''student''"
definition ROLE_INSTRUCTOR :: string where "ROLE_INSTRUCTOR = ''instructor''"
definition VIEW_STUDENT :: string where "VIEW_STUDENT = ''student''"
definition VIEW_INSTRUCTOR :: string where "VIEW_INSTRUCTOR = ''instructor''"

definition role_text :: "role \<Rightarrow> string" where
  "role_text r = (case r of Student \<Rightarrow> ROLE_STUDENT | Instructor \<Rightarrow> ROLE_INSTRUCTOR)"

definition text_role :: "string \<Rightarrow> role option" where
  "text_role s = (if s = ROLE_STUDENT then Some Student else if s = ROLE_INSTRUCTOR then Some Instructor else None)"

definition view_text :: "view \<Rightarrow> string" where
  "view_text v = (case v of StudentView \<Rightarrow> VIEW_STUDENT | InstructorView \<Rightarrow> VIEW_INSTRUCTOR)"

definition text_view :: "string \<Rightarrow> view option" where
  "text_view s = (if s = VIEW_STUDENT then Some StudentView else if s = VIEW_INSTRUCTOR then Some InstructorView else None)"

record header_values =
  hv_login :: "string option"
  hv_role :: "string option"
  hv_language :: "string option"
  hv_fullname :: "string option"
  hv_email :: "string option"
  hv_view :: "string option"
  hv_anonymous :: "string option"
  hv_group :: "string option"
  hv_administrator :: "string option"

definition flag_text :: "bool \<Rightarrow> string" where
  "flag_text b = (if b then ''1'' else ''0'')"

definition headers :: "codec \<Rightarrow> identity \<Rightarrow> header_values" where
  "headers C i = \<lparr>hv_login = Some (login i), hv_role = Some (role_text (role_of i)), hv_language = Some (language i),
     hv_fullname = Some (cd_text C (fullname i)), hv_email = Some (cd_text C (email i)),
     hv_view = Some (view_text (view_of i)), hv_anonymous = Some (flag_text (anonymous i)),
     hv_group = Some (cd_text C (group i)), hv_administrator = Some (flag_text (administrator i))\<rparr>"

datatype header_error = MissingLogin | BadHeaderText | InvalidRole | InvalidView | BadIdentity identity_error

definition get_or :: "string option \<Rightarrow> string \<Rightarrow> string" where
  "get_or v d = (case v of Some s \<Rightarrow> s | None \<Rightarrow> d)"

definition get_or_blank :: "string option \<Rightarrow> string \<Rightarrow> string" where
  "get_or_blank v d = (case v of Some s \<Rightarrow> if s = [] then d else s | None \<Rightarrow> d)"

definition decode_header_text :: "codec \<Rightarrow> string \<Rightarrow> header_error + string" where
  "decode_header_text C v = (case cd_untext C v of Some s \<Rightarrow> Inr s | None \<Rightarrow> Inl BadHeaderText)"

text \<open>
  \<open>Identity(...)\<close> with the role and the view as texts: \<open>__post_init__\<close> tests the login first, then
  them, then the rest.
\<close>

definition make_identity :: "string \<Rightarrow> string \<Rightarrow> string \<Rightarrow> string \<Rightarrow> string \<Rightarrow> bool \<Rightarrow> string \<Rightarrow> string \<Rightarrow> bool
    \<Rightarrow> header_error + identity" where
  "make_identity lg fn em rl la an vw gr ad =
     (if \<not> is_valid_login lg then Inl (BadIdentity InvalidLogin)
      else (case text_role rl of
        None \<Rightarrow> Inl InvalidRole
      | Some r \<Rightarrow> (case text_view vw of
          None \<Rightarrow> Inl InvalidView
        | Some v \<Rightarrow>
            (case post_init \<lparr>login = lg, fullname = fn, email = em, role_of = r, language = la, anonymous = an,
                view_of = v, group = gr, administrator = ad\<rparr> of
              Inl e \<Rightarrow> Inl (BadIdentity e)
            | Inr i \<Rightarrow> Inr i))))"

definition from_headers :: "codec \<Rightarrow> header_values \<Rightarrow> header_error + identity" where
  "from_headers C h =
     (if get_or (hv_login h) [] = [] then Inl MissingLogin
      else ebind (decode_header_text C (get_or (hv_fullname h) [])) (\<lambda>fn.
           ebind (decode_header_text C (get_or (hv_email h) [])) (\<lambda>em.
           ebind (decode_header_text C (get_or (hv_group h) [])) (\<lambda>gr.
             make_identity (get_or (hv_login h) []) fn em (get_or_blank (hv_role h) ROLE_STUDENT)
               (get_or_blank (hv_language h) ''en'') (get_or (hv_anonymous h) ''0'' = ''1'')
               (get_or_blank (hv_view h) VIEW_STUDENT) gr (get_or (hv_administrator h) ''0'' = ''1'')))))"

section \<open>The session cookie\<close>

definition MAX_AGE :: int where "MAX_AGE = 14 * 24 * 3600"

definition py_trunc :: "real \<Rightarrow> int" where
  "py_trunc x = (if 0 \<le> x then \<lfloor>x\<rfloor> else \<lceil>x\<rceil>)"

definition cookie_payload_of :: "identity \<Rightarrow> int \<Rightarrow> cookie_payload" where
  "cookie_payload_of i iat = \<lparr>pl_login = Some (login i), pl_fullname = Some (fullname i), pl_email = Some (email i),
     pl_role = Some (role_text (role_of i)), pl_language = Some (language i), pl_anonymous = Some (anonymous i),
     pl_group = Some (group i), pl_administrator = Some (administrator i), pl_iat = IntIat iat\<rparr>"

definition encode :: "codec \<Rightarrow> identity \<Rightarrow> string \<Rightarrow> real \<Rightarrow> string" where
  "encode C i secret now =
     (let raw = cd_dumps C (cookie_payload_of i (py_trunc now)) in cd_b64 C raw @ ''.'' @ cd_sign C secret raw)"

text \<open>\<open>value.rpartition('.')\<close> when there is a dot: what is before the last one and after it.\<close>

definition rpartition_dot :: "string \<Rightarrow> (string \<times> string) option" where
  "rpartition_dot s = (case partition_at (CHR ''.'') (rev s) of
     (a, Some b) \<Rightarrow> Some (rev b, rev a)
   | _ \<Rightarrow> None)"

definition iat_number :: "iat_value \<Rightarrow> real option" where
  "iat_number v = (case v of NoIat \<Rightarrow> Some 0 | IntIat n \<Rightarrow> Some (of_int n) | FloatIat x \<Rightarrow> Some x | BadIat \<Rightarrow> None)"

definition identity_of_payload :: "cookie_payload \<Rightarrow> identity option" where
  "identity_of_payload p = (case pl_login p of
     None \<Rightarrow> None
   | Some lg \<Rightarrow>
       (case make_identity lg (get_or (pl_fullname p) []) (get_or (pl_email p) []) (get_or (pl_role p) ROLE_STUDENT)
            (get_or (pl_language p) ''en'') (pl_anonymous p = Some True) VIEW_STUDENT (get_or (pl_group p) [])
            (pl_administrator p = Some True) of
         Inl _ \<Rightarrow> None
       | Inr i \<Rightarrow> Some i))"

definition decode_iat :: "codec \<Rightarrow> string \<Rightarrow> string \<Rightarrow> real \<Rightarrow> real \<Rightarrow> (identity \<times> int) option" where
  "decode_iat C secret v now max_age = (case rpartition_dot v of
     None \<Rightarrow> None
   | Some (body, signature) \<Rightarrow> (case cd_unb64 C body of
       None \<Rightarrow> None
     | Some raw \<Rightarrow>
         if cd_sign C secret raw \<noteq> signature then None
         else (case cd_loads C raw of
           None \<Rightarrow> None
         | Some p \<Rightarrow> (case iat_number (pl_iat p) of
             None \<Rightarrow> None
           | Some iat \<Rightarrow>
               if now - iat > max_age \<or> iat > now + 300 then None
               else map_option (\<lambda>i. (i, py_trunc iat)) (identity_of_payload p)))))"

text \<open>\<open>set_cookie\<close>: the value and the age the browser keeps it.\<close>

definition set_cookie :: "codec \<Rightarrow> identity \<Rightarrow> string \<Rightarrow> int option \<Rightarrow> real \<Rightarrow> string \<times> int" where
  "set_cookie C i secret issued_at now = (case issued_at of
     None \<Rightarrow> (encode C i secret now, MAX_AGE)
   | Some t \<Rightarrow> (encode C i secret (of_int t), max 1 (py_trunc (of_int t + of_int MAX_AGE - now))))"

definition choose_language :: "string option list \<Rightarrow> string list \<Rightarrow> string" where
  "choose_language candidates languages = (case List.find (\<lambda>c. case c of
       Some s \<Rightarrow> s \<noteq> [] \<and> s \<in> set languages | None \<Rightarrow> False) candidates of
     Some (Some s) \<Rightarrow> s
   | _ \<Rightarrow> hd languages)"

section \<open>A request\<close>

text \<open>The administrators the configuration names, applied at each request.\<close>

definition administrator_of :: "string list \<Rightarrow> identity \<Rightarrow> identity" where
  "administrator_of admins i =
     (if administrator i \<or> login i \<notin> set admins then i
      else (case with_administrator True i of Inr x \<Rightarrow> x | Inl _ \<Rightarrow> i))"

definition request_identity :: "codec \<Rightarrow> string \<Rightarrow> string list \<Rightarrow> real \<Rightarrow> string \<Rightarrow> (identity \<times> int) option" where
  "request_identity C secret admins now v =
     map_option (\<lambda>(i, iat). (administrator_of admins i, iat)) (decode_iat C secret v now (of_int MAX_AGE))"

definition check_language :: "string list \<Rightarrow> string \<Rightarrow> string" where
  "check_language languages l = (if l \<in> set languages then l else hd languages)"

text \<open>\<open>api_language\<close>: the cookie of the request issued again with the new language, at its date.\<close>

definition api_language :: "codec \<Rightarrow> string \<Rightarrow> string list \<Rightarrow> string list \<Rightarrow> real \<Rightarrow> string \<Rightarrow> string
    \<Rightarrow> (string \<times> int) option" where
  "api_language C secret admins languages now v l = (case request_identity C secret admins now v of
     None \<Rightarrow> None
   | Some (i, iat) \<Rightarrow> (case post_init (i\<lparr>language := check_language languages l\<rparr>) of
       Inl _ \<Rightarrow> None
     | Inr j \<Rightarrow> Some (set_cookie C j secret (Some iat) now)))"

end
