(* ===== verification/Sign_In_Safety.thy ===== *)
theory Sign_In_Safety
  imports Sign_In
begin

text \<open>
  The trust headers and the session cookie give back the identity they were made of, a session ends
  fourteen days after its sign-in whatever the cookies issued since, and what the change of language
  does to the administrator flag. \<open>plain_codec\<close> is a codec that obeys the laws assumed of the encodings.
\<close>

section \<open>The headers and the cookie give the identity back\<close>

lemma codec_simps:
  assumes "codec_ok C"
  shows "pl_iat p = IntIat n \<Longrightarrow> cd_loads C (cd_dumps C p) = Some p" "cd_unb64 C (cd_b64 C raw) = Some raw"
    "CHR ''.'' \<notin> set (cd_sign C secret raw)" "cd_untext C (cd_text C s) = Some s"
  using assms by (auto simp: codec_ok_def)

lemma role_texts [simp]: "text_role (role_text r) = Some r" "role_text r \<noteq> []"
  "text_view (view_text v) = Some v" "view_text v \<noteq> []"
  by (auto simp: role_text_def text_role_def view_text_def text_view_def ROLE_STUDENT_def ROLE_INSTRUCTOR_def
      VIEW_STUDENT_def VIEW_INSTRUCTOR_def split: role.splits view.splits)

lemma view_student [simp]: "text_view VIEW_STUDENT = Some StudentView"
  by (simp add: text_view_def)

lemma flag_texts [simp]: "flag_text b = ''1'' \<longleftrightarrow> b"
  by (simp add: flag_text_def)

lemma identity_ok_parts: "identity_ok i \<Longrightarrow> is_valid_login (login i) \<and> login i \<noteq> [] \<and> language i \<noteq> []"
  by (auto simp: identity_ok_iff is_valid_login_def language_match_def before_dollar_def Let_def split: if_splits)

lemma make_identity_ok:
  assumes "identity_ok i"
  shows "make_identity (login i) (fullname i) (email i) (role_text (role_of i)) (language i) (anonymous i)
    (view_text (view_of i)) (group i) (administrator i) = Inr i"
proof -
  have "post_init \<lparr>login = login i, fullname = fullname i, email = email i, role_of = role_of i, language = language i,
      anonymous = anonymous i, view_of = view_of i, group = group i, administrator = administrator i\<rparr> = Inr i"
    using assms by (cases i) (simp add: identity_ok_def)
  then show ?thesis using identity_ok_parts [OF assms] by (simp add: make_identity_def)
qed

text \<open>The trust headers lose nothing: an agent reads back from the headers the portal sends the identity
  the portal gave them, for every valid identity, whatever its names hold.\<close>

theorem headers_roundtrip:
  assumes "codec_ok C" and "identity_ok i"
  shows "from_headers C (headers C i) = Inr i"
  using identity_ok_parts [OF assms(2)]
  by (simp add: from_headers_def headers_def get_or_def get_or_blank_def decode_header_text_def
      codec_simps [OF assms(1)] make_identity_ok [OF assms(2)])

lemma rpartition_signed: "CHR ''.'' \<notin> set s \<Longrightarrow> rpartition_dot (b @ CHR ''.'' # s) = Some (b, s)"
  using partition_at_app [of "CHR ''.''" "rev s" "rev b"] by (simp add: rpartition_dot_def)

lemma rpartition_dot_is:
  assumes "rpartition_dot v = Some (b, s)"
  shows "v = b @ ''.'' @ s"
proof -
  obtain a r where cut: "partition_at (CHR ''.'') (rev v) = (a, Some r)" "b = rev r" "s = rev a"
    using assms by (auto simp: rpartition_dot_def split: prod.splits option.splits)
  have "v = rev (a @ CHR ''.'' # r)"
    using partition_at_Some [OF cut(1)] by (metis rev_rev_ident)
  then show ?thesis using cut(2,3) by simp
qed

lemma py_trunc_int [simp]: "py_trunc (of_int n) = n"
  by (simp add: py_trunc_def)

lemma student_view_ok: "identity_ok i \<Longrightarrow> identity_ok (i\<lparr>view_of := StudentView\<rparr>)"
  by (auto simp: identity_ok_def post_init_def split: if_splits)

lemma decode_encode:
  assumes "codec_ok C" and "identity_ok i"
  shows "decode_iat C secret (encode C i secret t) now max_age =
    (if now - of_int (py_trunc t) > max_age \<or> of_int (py_trunc t) > now + 300 then None
     else Some (i\<lparr>view_of := StudentView\<rparr>, py_trunc t))"
proof -
  let ?i = "i\<lparr>view_of := StudentView\<rparr>"
  have "identity_of_payload (cookie_payload_of i (py_trunc t)) = Some ?i"
    using make_identity_ok [OF student_view_ok [OF assms(2)]]
    by (simp add: identity_of_payload_def cookie_payload_of_def get_or_def view_text_def)
  moreover have "pl_iat (cookie_payload_of i (py_trunc t)) = IntIat (py_trunc t)"
    by (simp add: cookie_payload_of_def)
  moreover from this have "cd_loads C (cd_dumps C (cookie_payload_of i (py_trunc t))) = Some (cookie_payload_of i (py_trunc t))"
    by (rule codec_simps(1) [OF assms(1)])
  ultimately show ?thesis
    by (simp add: decode_iat_def encode_def Let_def rpartition_signed codec_simps(2-) [OF assms(1)] iat_number_def)
qed

text \<open>A cookie that is accepted carries the signature of its body, and is neither too old nor of the future.\<close>

lemma cookie_authentic:
  assumes "decode_iat C secret v now max_age = Some (i, iat)"
  shows "\<exists>body raw p. v = body @ ''.'' @ cd_sign C secret raw \<and> cd_unb64 C body = Some raw
    \<and> cd_loads C raw = Some p \<and> identity_of_payload p = Some i"
  using assms
  by (fastforce simp: decode_iat_def dest!: rpartition_dot_is split: option.splits if_splits)

section \<open>The life of a session\<close>

text \<open>
  The cookies in the browsers: a value, the identity and the date of the sign-in it comes from, and
  whether the configuration named its login an administrator at a change of language since.
\<close>

type_synonym issued = "string \<times> identity \<times> int \<times> bool"

inductive session_step :: "codec \<Rightarrow> string \<Rightarrow> string list \<Rightarrow> issued set \<Rightarrow> issued set \<Rightarrow> bool" for C secret languages where
  sign_in: "identity_ok i \<Longrightarrow> fst (set_cookie C i secret None now) = v
    \<Longrightarrow> session_step C secret languages w (insert (v, i, py_trunc now, False) w)"
| language_change: "(v, i0, t0, g) \<in> w \<Longrightarrow> api_language C secret admins languages now v l = Some (v', age)
    \<Longrightarrow> session_step C secret languages w (insert (v', i0, t0, g \<or> login i0 \<in> set admins) w)"

definition issued_ok :: "codec \<Rightarrow> string \<Rightarrow> issued \<Rightarrow> bool" where
  "issued_ok C secret x = (case x of (v, i0, t0, g) \<Rightarrow>
     \<exists>i. identity_ok i \<and> v = encode C i secret (of_int t0) \<and> login i = login i0 \<and> role_of i = role_of i0
       \<and> group i = group i0 \<and> (administrator i \<longrightarrow> administrator i0 \<or> g))"

lemma encode_trunc: "encode C i secret (of_int (py_trunc t)) = encode C i secret t"
  by (simp add: encode_def)

lemma api_language_issues:
  assumes "codec_ok C" and "issued_ok C secret (v, i0, t0, g)"
    and "api_language C secret admins languages now v l = Some (v', age)"
  shows "issued_ok C secret (v', i0, t0, g \<or> login i0 \<in> set admins)"
proof -
  obtain i where i: "identity_ok i" "v = encode C i secret (of_int t0)" "login i = login i0" "role_of i = role_of i0"
      "group i = group i0" "administrator i \<longrightarrow> administrator i0 \<or> g"
    using assms(2) by (auto simp: issued_ok_def)
  let ?i = "administrator_of admins (i\<lparr>view_of := StudentView\<rparr>)"
  let ?j = "?i\<lparr>language := check_language languages l\<rparr>"
  have same: "login ?i = login i" "role_of ?i = role_of i" "group ?i = group i"
      "administrator ?i \<longrightarrow> administrator i \<or> login i \<in> set admins"
    by (auto simp: administrator_of_def with_administrator_def post_init_def split: sum.splits)
  have "post_init ?j = Inr ?j" "v' = encode C ?j secret (of_int t0)"
    using assms(3)
    by (auto simp: api_language_def request_identity_def i(2) decode_encode [OF assms(1) i(1)] set_cookie_def
        post_init_def split: if_splits sum.splits)
  then show ?thesis
    using i same by (auto simp: issued_ok_def identity_ok_def intro!: exI [of _ ?j])
qed

definition sessions_ok :: "codec \<Rightarrow> string \<Rightarrow> issued set \<Rightarrow> bool" where
  "sessions_ok C secret w \<longleftrightarrow> codec_ok C \<and> (\<forall>x \<in> w. issued_ok C secret x)"

lemma session_step_ok: "sessions_ok C secret w \<Longrightarrow> session_step C secret languages w w' \<Longrightarrow> sessions_ok C secret w'"
proof (erule session_step.cases)
  fix i now v wa
  assume "sessions_ok C secret w" "w = wa" "w' = insert (v, i, py_trunc now, False) wa" "identity_ok i"
    "fst (set_cookie C i secret None now) = v"
  then show "sessions_ok C secret w'"
    by (auto simp: sessions_ok_def issued_ok_def set_cookie_def encode_trunc intro!: exI [of _ i])
next
  fix v i0 t0 g wa admins now l v' age
  assume "sessions_ok C secret w" "w = wa" "w' = insert (v', i0, t0, g \<or> login i0 \<in> set admins) wa"
    "(v, i0, t0, g) \<in> wa" "api_language C secret admins languages now v l = Some (v', age)"
  then show "sessions_ok C secret w'"
    using api_language_issues [of C secret v i0 t0 g admins languages now l v' age] by (auto simp: sessions_ok_def)
qed

interpretation session_machine: invariant_machine "\<lambda>w. codec_ok C \<and> w = {}" "session_step C secret languages" "sessions_ok C secret"
  by unfold_locales (auto simp: sessions_ok_def [of _ _ "{}"] intro: session_step_ok)


section \<open>A codec and a session\<close>

text \<open>A codec that obeys the laws: each character after a mark, a mark at the end.\<close>

definition put_text :: "string \<Rightarrow> string" where
  "put_text s = concat (map (\<lambda>c. [CHR ''c'', c]) s) @ ''e''"

fun take_text :: "string \<Rightarrow> (string \<times> string) option" where
  "take_text (CHR ''c'' # c # r) = map_option (\<lambda>(s, q). (c # s, q)) (take_text r)"
| "take_text (CHR ''e'' # r) = Some ([], r)"
| "take_text _ = None"

lemma take_put_text [simp]: "take_text (put_text s @ r) = Some (s, r)"
  by (induction s) (simp_all add: put_text_def)

definition put_opt :: "string option \<Rightarrow> string" where
  "put_opt v = (case v of None \<Rightarrow> ''n'' | Some s \<Rightarrow> CHR ''s'' # put_text s)"

definition take_opt :: "string \<Rightarrow> (string option \<times> string) option" where
  "take_opt s = (case s of [] \<Rightarrow> None
   | x # r \<Rightarrow> if x = CHR ''n'' then Some (None, r) else map_option (\<lambda>(t, q). (Some t, q)) (take_text r))"

lemma take_put_opt [simp]: "take_opt (put_opt v @ r) = Some (v, r)"
  by (cases v) (simp_all add: take_opt_def put_opt_def)

definition flag_opt :: "bool option \<Rightarrow> string option" where
  "flag_opt b = map_option flag_text b"

definition opt_flag :: "string option \<Rightarrow> bool option" where
  "opt_flag v = map_option (\<lambda>s. s = ''1'') v"

lemma flag_opts [simp]: "opt_flag (flag_opt b) = b"
  by (cases b) (simp_all add: flag_opt_def opt_flag_def)

definition put_int :: "int \<Rightarrow> string" where
  "put_int n = flag_text (0 \<le> n) @ replicate (nat \<bar>n\<bar>) (CHR ''i'')"

definition take_int :: "string \<Rightarrow> int" where
  "take_int s = (if take 1 s = ''1'' then int (length s - 1) else - int (length s - 1))"

lemma take_put_int [simp]: "take_int (put_int n) = n"
  by (auto simp: take_int_def put_int_def flag_text_def)

definition plain_dumps :: "cookie_payload \<Rightarrow> string" where
  "plain_dumps p = put_opt (pl_login p) @ put_opt (pl_fullname p) @ put_opt (pl_email p) @ put_opt (pl_role p)
     @ put_opt (pl_language p) @ put_opt (flag_opt (pl_anonymous p)) @ put_opt (pl_group p)
     @ put_opt (flag_opt (pl_administrator p)) @ (case pl_iat p of IntIat n \<Rightarrow> put_int n | _ \<Rightarrow> [])"

definition plain_loads :: "string \<Rightarrow> cookie_payload option" where
  "plain_loads s =
     Option.bind (take_opt s) (\<lambda>(lg, s). Option.bind (take_opt s) (\<lambda>(fn, s). Option.bind (take_opt s) (\<lambda>(em, s).
     Option.bind (take_opt s) (\<lambda>(rl, s). Option.bind (take_opt s) (\<lambda>(la, s). Option.bind (take_opt s) (\<lambda>(an, s).
     Option.bind (take_opt s) (\<lambda>(gr, s). Option.bind (take_opt s) (\<lambda>(ad, s).
       Some \<lparr>pl_login = lg, pl_fullname = fn, pl_email = em, pl_role = rl, pl_language = la, pl_anonymous = opt_flag an,
         pl_group = gr, pl_administrator = opt_flag ad, pl_iat = IntIat (take_int s)\<rparr>))))))))"

definition plain_codec :: codec where
  "plain_codec = \<lparr>cd_sign = (\<lambda>secret raw. map (\<lambda>c. if c = CHR ''.'' then CHR '','' else c) (secret @ raw)),
     cd_dumps = plain_dumps, cd_loads = plain_loads, cd_b64 = id, cd_unb64 = Some,
     cd_text = put_text, cd_untext = (\<lambda>s. map_option fst (take_text s))\<rparr>"

lemma plain_codec_ok: "codec_ok plain_codec"
proof -
  have "plain_loads (plain_dumps p) = Some p" if "pl_iat p = IntIat n" for p n
    using that by (cases p) (simp add: plain_loads_def plain_dumps_def)
  moreover have "take_text (put_text s) = Some (s, [])" for s
    using take_put_text [of s "[]"] by simp
  ultimately show ?thesis
    by (auto simp: codec_ok_def plain_codec_def)
qed

definition alice :: identity where
  "alice = \<lparr>login = ''alice'', fullname = ''Alice'', email = [], role_of = Instructor, language = ''en'',
     anonymous = False, view_of = StudentView, group = [], administrator = False\<rparr>"

lemma alice_ok: "identity_ok alice" "identity_ok (alice\<lparr>administrator := True\<rparr>)"
  "identity_ok (alice\<lparr>administrator := True, language := ''fr''\<rparr>)"
  by code_simp+

theorem headers_roundtrip_witness:
  "identity_ok alice \<and> from_headers plain_codec (headers plain_codec alice) = Inr alice"
  using headers_roundtrip [OF plain_codec_ok alice_ok(1)] alice_ok(1) by simp

definition first_cookie :: string where "first_cookie = encode plain_codec alice ''key'' 1000"
definition second_cookie :: string where
  "second_cookie = encode plain_codec (alice\<lparr>administrator := True, language := ''fr''\<rparr>) ''key'' 1000"

lemma py_trunc_1000: "py_trunc 1000 = 1000"
  using py_trunc_int [of 1000] by simp

lemma alice_changes_language:
  "api_language plain_codec ''key'' [''alice''] [''en'', ''fr''] 2000 first_cookie ''fr'' = Some (second_cookie, MAX_AGE - 1000)"
proof -
  have "decode_iat plain_codec ''key'' first_cookie 2000 (of_int MAX_AGE) = Some (alice, 1000)"
    unfolding first_cookie_def decode_encode [OF plain_codec_ok alice_ok(1)] py_trunc_1000
    by (simp add: MAX_AGE_def alice_def)
  moreover have "administrator_of [''alice''] alice = alice\<lparr>administrator := True\<rparr>" by code_simp
  moreover have "post_init (alice\<lparr>administrator := True, language := ''fr''\<rparr>) = Inr (alice\<lparr>administrator := True, language := ''fr''\<rparr>)"
    using alice_ok(3) by (simp add: identity_ok_def)
  moreover have "py_trunc (of_int 1000 + of_int MAX_AGE - 2000) = MAX_AGE - 1000"
    using py_trunc_int [of "MAX_AGE - 1000"] by (simp add: MAX_AGE_def)
  ultimately show ?thesis
    by (simp add: api_language_def request_identity_def check_language_def set_cookie_def second_cookie_def MAX_AGE_def)
qed

lemma alice_session: "(session_step plain_codec ''key'' [''en'', ''fr''])\<^sup>*\<^sup>* {}
    {(second_cookie, alice, 1000, True), (first_cookie, alice, 1000, False)}"
proof -
  let ?step = "session_step plain_codec ''key'' [''en'', ''fr'']"
  have "?step {} {(first_cookie, alice, py_trunc 1000, False)}"
    by (rule session_step.sign_in [OF alice_ok(1)]) (simp add: set_cookie_def first_cookie_def)
  then have one: "?step {} {(first_cookie, alice, 1000, False)}" by (simp add: py_trunc_1000)
  have "?step {(first_cookie, alice, 1000, False)}
      (insert (second_cookie, alice, 1000, False \<or> login alice \<in> set [''alice'']) {(first_cookie, alice, 1000, False)})"
    by (rule session_step.language_change [OF _ alice_changes_language]) simp
  then have "?step {(first_cookie, alice, 1000, False)}
      {(second_cookie, alice, 1000, True), (first_cookie, alice, 1000, False)}"
    by (simp add: alice_def)
  then show ?thesis using one by (meson converse_rtranclp_into_rtranclp rtranclp.rtrancl_refl)
qed

lemma second_cookie_decodes:
  "decode_iat plain_codec ''key'' second_cookie 500000 (of_int MAX_AGE)
     = Some (alice\<lparr>administrator := True, language := ''fr''\<rparr>, 1000)"
  unfolding second_cookie_def decode_encode [OF plain_codec_ok alice_ok(3)] py_trunc_1000
  by (simp add: MAX_AGE_def alice_def)


text \<open>The flag outlives the configuration: an instructor who signs in without it and changes the language
  while the configuration names them an administrator is issued a cookie that carries the flag, and
  is still an administrator once the configuration names nobody.\<close>

theorem administrator_outlives:
  "administrator alice = False
   \<and> api_language plain_codec ''key'' [''alice''] [''en'', ''fr''] 2000 (encode plain_codec alice ''key'' 1000) ''fr''
       = Some (second_cookie, MAX_AGE - 1000)
   \<and> (\<exists>i. request_identity plain_codec ''key'' [] 500000 second_cookie = Some (i, 1000) \<and> administrator i)
   \<and> request_identity plain_codec ''key'' [] 500000 (encode plain_codec alice ''key'' 1000) = Some (alice, 1000)"
proof -
  have "decode_iat plain_codec ''key'' first_cookie 500000 (of_int MAX_AGE) = Some (alice, 1000)"
    unfolding first_cookie_def decode_encode [OF plain_codec_ok alice_ok(1)] py_trunc_1000
    by (simp add: MAX_AGE_def alice_def)
  then show ?thesis
    using alice_changes_language second_cookie_decodes
    by (simp add: request_identity_def administrator_of_def first_cookie_def) (simp add: alice_def)
qed

end
