(* ===== verification/Access_Line.thy ===== *)
theory Access_Line
  imports Identity
begin

text \<open>
  The lines of the connection log (\<^verbatim>\<open>src/src/sreweb/portal/accesslog.py\<close>): \<open>format_value\<close>,
  \<open>format_line\<close> and \<open>parse_line\<close>, with the two regular expressions and the JSON text of a string
  written out. A text has the characters of the prelude (code points below 256); an escape
  \<open>\uXXXX\<close> above them, which \<open>format_line\<close> never writes, is not read.
\<close>

section \<open>JSON strings\<close>

text \<open>\<open>json.dumps(text, ensure_ascii=False)\<close>.\<close>

definition lower_hex :: "nat \<Rightarrow> char" where
  "lower_hex n = char_of (if n < 10 then 48 + n else 87 + n)"

definition json_escape :: "char \<Rightarrow> string" where
  "json_escape c =
     (if c = CHR 0x22 then [CHR 0x5C, CHR 0x22]
      else if c = CHR 0x5C then [CHR 0x5C, CHR 0x5C]
      else if c = CHR 0x0A then [CHR 0x5C, CHR ''n'']
      else if c = CHR 0x0D then [CHR 0x5C, CHR ''r'']
      else if c = CHR 0x09 then [CHR 0x5C, CHR ''t'']
      else if c = CHR 0x0C then [CHR 0x5C, CHR ''f'']
      else if c = CHR 0x08 then [CHR 0x5C, CHR ''b'']
      else if c < CHR 0x20 then CHR 0x5C # ''u00'' @ [lower_hex (of_char c div 16), lower_hex (of_char c mod 16)]
      else [c])"

definition json_dumps :: "string \<Rightarrow> string" where
  "json_dumps s = CHR 0x22 # concat (map json_escape s) @ [CHR 0x22]"

text \<open>\<open>json.loads\<close> of a quoted text, given what stands between its quotes.\<close>

definition hex_value :: "char \<Rightarrow> nat option" where
  "hex_value c = (if is_digit c then Some (of_char c - 48)
     else if CHR ''a'' \<le> c \<and> c \<le> CHR ''f'' then Some (of_char c - 87)
     else if CHR ''A'' \<le> c \<and> c \<le> CHR ''F'' then Some (of_char c - 55) else None)"

definition hex4 :: "char \<Rightarrow> char \<Rightarrow> char \<Rightarrow> char \<Rightarrow> char option" where
  "hex4 a b c d = (case (hex_value a, hex_value b, hex_value c, hex_value d) of
     (Some w, Some x, Some y, Some z) \<Rightarrow>
       (let n = ((w * 16 + x) * 16 + y) * 16 + z in if n < 256 then Some (char_of n) else None)
   | _ \<Rightarrow> None)"

definition simple_escape :: "char \<Rightarrow> char option" where
  "simple_escape e = map_of [(CHR 0x22, CHR 0x22), (CHR 0x5C, CHR 0x5C), (CHR ''/'', CHR ''/''),
     (CHR ''b'', CHR 0x08), (CHR ''f'', CHR 0x0C), (CHR ''n'', CHR 0x0A), (CHR ''r'', CHR 0x0D),
     (CHR ''t'', CHR 0x09)] e"

fun json_unescape :: "string \<Rightarrow> string option" where
  "json_unescape [] = Some []"
| "json_unescape (c # cs) =
     (if c = CHR 0x5C then
        (case cs of
           [] \<Rightarrow> None
         | e # r \<Rightarrow>
             if e = CHR ''u'' then
               (case r of
                  w # x # y # z # t \<Rightarrow>
                    (case hex4 w x y z of None \<Rightarrow> None | Some d \<Rightarrow> map_option ((#) d) (json_unescape t))
                | _ \<Rightarrow> None)
             else (case simple_escape e of None \<Rightarrow> None | Some d \<Rightarrow> map_option ((#) d) (json_unescape r)))
      else if c < CHR 0x20 \<or> c = CHR 0x22 then None
      else map_option ((#) c) (json_unescape cs))"

section \<open>Writing a line\<close>

datatype fvalue = VNone | VBool bool | VFloat pyfloat | VStr string | VInt int | VList "string list" | VSet "string list"

type_synonym line_fields = "(string \<times> fvalue) list"

definition bare_char :: "char \<Rightarrow> bool" where
  "bare_char c \<longleftrightarrow> is_alnum c \<or> c \<in> set ''@_.:/+=,-''"

text \<open>\<open>_BARE_RE = ^[A-Za-z0-9@_.:/+=,-]+$\<close> through \<open>match\<close>.\<close>

definition bare_match :: "string \<Rightarrow> bool" where
  "bare_match s \<longleftrightarrow> before_dollar s \<noteq> [] \<and> list_all bare_char (before_dollar s)"

text \<open>\<open>f"{value:.1f}"\<close>.\<close>

definition one_decimal :: "pyfloat \<Rightarrow> string" where
  "one_decimal f = (case f of
     Fin x \<Rightarrow> (let q = nat (py_round (10 * \<bar>x\<bar>)) in
       (if x < 0 then ''-'' else []) @ str_nat (q div 10) @ ''.'' @ [char_of (48 + q mod 10)])
   | PInf \<Rightarrow> ''inf'' | NInf \<Rightarrow> ''-inf'' | NaN \<Rightarrow> ''nan'')"

fun comma_join :: "string list \<Rightarrow> string" where
  "comma_join [] = []"
| "comma_join [w] = w"
| "comma_join (w # v # ws) = w @ CHR '','' # comma_join (v # ws)"

definition format_text :: "string \<Rightarrow> string" where
  "format_text s = (if s = [] then ''-'' else if bare_match s then s else json_dumps s)"

definition format_value :: "fvalue \<Rightarrow> string" where
  "format_value v = (case v of
     VNone \<Rightarrow> ''-''
   | VBool b \<Rightarrow> (if b then ''1'' else ''0'')
   | VFloat f \<Rightarrow> one_decimal f
   | VList xs \<Rightarrow> format_text (comma_join xs)
   | VSet xs \<Rightarrow> format_text (comma_join (sort xs))
   | VInt i \<Rightarrow> format_text (str_int i)
   | VStr s \<Rightarrow> format_text s)"

definition format_line :: "line_fields \<Rightarrow> string" where
  "format_line fs = join_words (map (\<lambda>(k, v). k @ CHR ''='' # format_value v) fs)"

section \<open>Reading a line\<close>

definition key_start :: "char \<Rightarrow> bool" where
  "key_start c \<longleftrightarrow> is_upper c \<or> is_lower c \<or> c = CHR ''_''"

definition key_char :: "char \<Rightarrow> bool" where
  "key_char c \<longleftrightarrow> is_alnum c \<or> c = CHR ''_''"

text \<open>
  \<open>_TOKEN_RE = ([A-Za-z_][A-Za-z0-9_]*)=("(?:[^"\\]|\\.)*"|[^\s"]*)\<close>: the quoted value is tried
  first, up to the first quote that no backslash escapes; a text that does not close it is read
  as an empty bare value.
\<close>

datatype raw_value = Quoted string | Bare string

fun quoted_body :: "string \<Rightarrow> (string \<times> string) option" where
  "quoted_body [] = None"
| "quoted_body (c # cs) =
     (if c = CHR 0x22 then Some ([], cs)
      else if c = CHR 0x5C then
        (case cs of
           [] \<Rightarrow> None
         | d # ds \<Rightarrow> if d = CHR 0x0A then None else map_option (apfst (\<lambda>b. c # d # b)) (quoted_body ds))
      else map_option (apfst ((#) c)) (quoted_body cs))"

definition value_char :: "char \<Rightarrow> bool" where
  "value_char c \<longleftrightarrow> \<not> py_space c \<and> c \<noteq> CHR 0x22"

definition value_at :: "string \<Rightarrow> raw_value \<times> string" where
  "value_at s = (case (if s \<noteq> [] \<and> hd s = CHR 0x22 then quoted_body (tl s) else None) of
     Some (b, rest) \<Rightarrow> (Quoted b, rest)
   | None \<Rightarrow> (Bare (takeWhile value_char s), dropWhile value_char s))"

definition token_at :: "string \<Rightarrow> ((string \<times> raw_value) \<times> string) option" where
  "token_at s =
     (if s = [] \<or> \<not> key_start (hd s) then None
      else (case dropWhile key_char s of
              [] \<Rightarrow> None
            | c # r \<Rightarrow> if c \<noteq> CHR ''='' then None
                       else (let (v, rest) = value_at r in Some ((takeWhile key_char s, v), rest))))"

lemma quoted_body_length: "quoted_body s = Some (b, rest) \<Longrightarrow> length rest < length s"
proof (induction s arbitrary: b rule: quoted_body.induct)
  case (2 c cs)
  then show ?case
    by (cases "c = CHR 0x22"; cases "c = CHR 0x5C"; cases cs) (fastforce split: if_splits)+
qed simp

lemma value_at_length: "value_at s = (v, rest) \<Longrightarrow> length rest \<le> length s"
  using quoted_body_length [of "tl s"] length_dropWhile_le [of value_char s]
  by (cases s) (fastforce simp: value_at_def split: if_splits option.splits)+

lemma token_at_length: "token_at s = Some (x, rest) \<Longrightarrow> length rest < length s"
proof -
  assume "token_at s = Some (x, rest)"
  then obtain c r v where r: "dropWhile key_char s = c # r" "value_at r = (v, rest)"
    by (auto simp: token_at_def split: if_splits list.splits prod.splits)
  from r(1) length_dropWhile_le [of key_char s] have "length r < length s" by simp
  with value_at_length [OF r(2)] show ?thesis by simp
qed

text \<open>\<open>finditer\<close>: from each place the leftmost token, then on from its end.\<close>

function tokens :: "string \<Rightarrow> (string \<times> raw_value) list" where
  "tokens [] = []"
| "tokens (c # cs) = (case token_at (c # cs) of
     None \<Rightarrow> tokens cs
   | Some (x, rest) \<Rightarrow> x # tokens rest)"
  by pat_completeness auto

termination
  by (relation "measure length") (auto dest: token_at_length)

fun store_tokens :: "(string \<times> string) list \<Rightarrow> (string \<times> raw_value) list \<Rightarrow> (string \<times> string) list option" where
  "store_tokens d [] = Some d"
| "store_tokens d ((k, Quoted b) # ts) =
     (case json_unescape b of None \<Rightarrow> None | Some v \<Rightarrow> store_tokens (dset d k v) ts)"
| "store_tokens d ((k, Bare b) # ts) = store_tokens (dset d k (if b = ''-'' then [] else b)) ts"

text \<open>\<open>parse_line\<close>, \<open>None\<close> when \<open>json.loads\<close> raises.\<close>

definition parse_line :: "string \<Rightarrow> (string \<times> string) list option" where
  "parse_line line =
     (let txt = py_strip line;
          w = takeWhile (\<lambda>c. \<not> py_space c) txt;
          r = dropWhile (\<lambda>c. \<not> py_space c) txt
      in if w \<noteq> [] \<and> r \<noteq> [] \<and> CHR ''='' \<notin> set w
         then store_tokens [(''ts'', w)] (tokens (dropWhile py_space r))
         else store_tokens [] (tokens txt))"

section \<open>Lemmas\<close>

lemma char_le: "(c \<le> d) = (of_char c \<le> (of_char d :: nat))" "(c < d) = (of_char c < (of_char d :: nat))"
  by (simp_all add: less_eq_char_def less_char_def)

lemma bare_char_value: "bare_char c \<Longrightarrow> value_char c"
  by (auto simp: bare_char_def value_char_def py_space_def is_alnum_def is_lower_def is_upper_def is_digit_def char_le Let_def)

lemma bare_char_line: "bare_char c \<Longrightarrow> c \<noteq> CHR 0x0A"
  by (auto simp: bare_char_def is_alnum_def is_lower_def is_upper_def is_digit_def char_le)

lemma key_char_simps: "key_start c \<Longrightarrow> key_char c" "\<not> key_char (CHR ''='')" "key_char c \<Longrightarrow> value_char c" "\<not> key_start (CHR '' '')"
  by (auto simp: key_start_def key_char_def is_alnum_def value_char_def py_space_def is_lower_def is_upper_def is_digit_def
      char_le Let_def)

lemma hex_value_lower: "n < 16 \<Longrightarrow> hex_value (lower_hex n) = Some n"
proof -
  assume "n < 16"
  moreover have "list_all (\<lambda>n. hex_value (lower_hex n) = Some n) [0..<16]" by code_simp
  ultimately show ?thesis by (simp add: list_all_iff)
qed

lemma lower_hex_plain: "n < 16 \<Longrightarrow> lower_hex n \<notin> {CHR 0x22, CHR 0x5C, CHR 0x0A}"
  using hex_value_lower [of n] by (auto simp: hex_value_def is_digit_def char_le)

lemma hex_pair: "c < CHR 0x20 \<Longrightarrow> of_char c div 16 < (16 :: nat) \<and> of_char c mod 16 < (16 :: nat) \<and>
    hex4 (CHR ''0'') (CHR ''0'') (lower_hex (of_char c div 16)) (lower_hex (of_char c mod 16)) = Some c"
  by (auto simp: hex4_def hex_value_lower char_le hex_value_def [of "CHR ''0''"] is_digit_def Let_def)

lemma json_escape_cases:
  obtains (plain) "json_escape c = [c]" "c \<noteq> CHR 0x22" "c \<noteq> CHR 0x5C" "c \<noteq> CHR 0x0A" "\<not> c < CHR 0x20"
  | (short) e where "json_escape c = [CHR 0x5C, e]" "e \<noteq> CHR 0x0A" "e \<noteq> CHR ''u''" "simple_escape e = Some c"
  | (hex) h l where "json_escape c = CHR 0x5C # ''u00'' @ [h, l]" "hex4 (CHR ''0'') (CHR ''0'') h l = Some c"
      "h \<noteq> CHR 0x22" "h \<noteq> CHR 0x5C" "h \<noteq> CHR 0x0A" "l \<noteq> CHR 0x22" "l \<noteq> CHR 0x5C" "l \<noteq> CHR 0x0A"
proof -
  consider "c \<in> {CHR 0x22, CHR 0x5C, CHR 0x0A, CHR 0x0D, CHR 0x09, CHR 0x0C, CHR 0x08}"
    | "c \<notin> {CHR 0x22, CHR 0x5C, CHR 0x0A, CHR 0x0D, CHR 0x09, CHR 0x0C, CHR 0x08}" "c < CHR 0x20"
    | "c \<notin> {CHR 0x22, CHR 0x5C, CHR 0x0A, CHR 0x0D, CHR 0x09, CHR 0x0C, CHR 0x08}" "\<not> c < CHR 0x20"
    by blast
  then show thesis
  proof cases
    case 1
    then show thesis by (auto simp: json_escape_def simple_escape_def intro: short)
  next
    case 2
    let ?h = "lower_hex (of_char c div 16)" and ?l = "lower_hex (of_char c mod 16)"
    from 2 have e: "json_escape c = CHR 0x5C # ''u00'' @ [?h, ?l]" by (simp add: json_escape_def)
    from hex_pair [OF 2(2)] have x: "hex4 (CHR ''0'') (CHR ''0'') ?h ?l = Some c"
      and d: "of_char c div 16 < (16 :: nat)" "of_char c mod 16 < (16 :: nat)" by blast+
    from lower_hex_plain [OF d(1)] lower_hex_plain [OF d(2)]
    show thesis by (intro hex [OF e x]) blast+
  next
    case 3
    then show thesis by (intro plain) (simp_all add: json_escape_def)
  qed
qed

lemma unescape_escape1: "json_unescape (json_escape c @ r) = map_option ((#) c) (json_unescape r)"
  by (cases c rule: json_escape_cases) simp_all

lemma unescape_escape: "json_unescape (concat (map json_escape s)) = Some s"
  by (induction s) (simp_all add: unescape_escape1)

lemma quoted_escape1: "quoted_body (json_escape c @ r) = map_option (apfst (\<lambda>b. json_escape c @ b)) (quoted_body r)"
  by (cases c rule: json_escape_cases; cases "quoted_body r") auto

lemma quoted_escape: "quoted_body (concat (map json_escape s) @ CHR 0x22 # r) = Some (concat (map json_escape s), r)"
  by (induction s) (simp_all add: quoted_escape1)

lemma escape_one_line: "CHR 0x0A \<notin> set (json_escape c)"
  by (cases c rule: json_escape_cases) auto

lemma dumps_one_line: "CHR 0x0A \<notin> set (json_dumps s)"
  using escape_one_line by (auto simp: json_dumps_def)

section \<open>What is written is read back\<close>

text \<open>The text of a value before any quoting, and what reading it gives.\<close>

definition value_text :: "fvalue \<Rightarrow> string" where
  "value_text v = (case v of
     VNone \<Rightarrow> [] | VBool b \<Rightarrow> (if b then ''1'' else ''0'') | VFloat f \<Rightarrow> one_decimal f | VStr s \<Rightarrow> s
   | VInt i \<Rightarrow> str_int i | VList xs \<Rightarrow> comma_join xs | VSet xs \<Rightarrow> comma_join (sort xs))"

definition read_back :: "fvalue \<Rightarrow> string" where
  "read_back v = (if value_text v = ''-'' then [] else value_text v)"

text \<open>A value the pattern of the bare texts accepts with its final newline.\<close>

definition newline_slips :: "fvalue \<Rightarrow> bool" where
  "newline_slips v \<longleftrightarrow> bare_match (value_text v) \<and> last (value_text v) = CHR 0x0A"

definition key_ok :: "string \<Rightarrow> bool" where
  "key_ok k \<longleftrightarrow> k \<noteq> [] \<and> key_start (hd k) \<and> list_all key_char k"

definition stamp_ok :: "string \<Rightarrow> bool" where
  "stamp_ok ts \<longleftrightarrow> ts \<noteq> [] \<and> CHR ''='' \<notin> set ts \<and> list_all (\<lambda>c. \<not> py_space c) ts"

definition fields_ok :: "line_fields \<Rightarrow> bool" where
  "fields_ok fs \<longleftrightarrow> fs \<noteq> [] \<and> distinct (map fst fs) \<and> list_all (\<lambda>(k, v). key_ok k \<and> k \<noteq> ''ts'' \<and> \<not> newline_slips v) fs"

text \<open>The file: one line per record, behind its time.\<close>

definition log_file :: "(string \<times> line_fields) list \<Rightarrow> string" where
  "log_file rs = concat (map (\<lambda>(ts, fs). ts @ CHR '' '' # format_line fs @ [CHR 0x0A]) rs)"

definition raw_of :: "fvalue \<Rightarrow> raw_value" where
  "raw_of v = (if value_text v = [] then Bare ''-'' else if bare_match (value_text v) then Bare (value_text v)
     else Quoted (concat (map json_escape (value_text v))))"

lemma digit_bare: "n < 10 \<Longrightarrow> bare_char (char_of (48 + n :: nat))"
  by (simp add: bare_char_def is_alnum_def is_digit_def char_le)

lemma str_nat_bare: "str_nat n \<noteq> [] \<and> list_all bare_char (str_nat n)"
proof (induction n rule: str_nat.induct)
  case (1 n)
  then show ?case using digit_bare [of "n mod 10"] by (subst (1 2) str_nat.simps) auto
qed

lemma bare_literals: "list_all bare_char ''-''" "list_all bare_char ''.''" "list_all bare_char ''inf''"
    "list_all bare_char ''-inf''" "list_all bare_char ''nan''"
  by (simp_all add: bare_char_def is_alnum_def is_lower_def char_le)

lemma one_decimal_bare: "one_decimal f \<noteq> [] \<and> list_all bare_char (one_decimal f)"
proof (cases f)
  case (Fin x)
  define q where "q = nat (py_round (10 * \<bar>x\<bar>))"
  have "one_decimal f = (if x < 0 then ''-'' else []) @ str_nat (q div 10) @ ''.'' @ [char_of (48 + q mod 10)]"
    by (simp add: one_decimal_def Fin q_def Let_def)
  moreover have "bare_char (char_of (48 + q mod 10))" by (rule digit_bare) simp
  ultimately show ?thesis using str_nat_bare [of "q div 10"] bare_literals(1,2) by simp
qed (use bare_literals in \<open>simp_all add: one_decimal_def\<close>)

lemma bare_last: "s \<noteq> [] \<Longrightarrow> list_all bare_char s \<Longrightarrow> bare_char (last s)"
  by (simp add: list_all_iff)

lemma before_dollar_plain: "last s \<noteq> CHR 0x0A \<Longrightarrow> before_dollar s = s"
  by (simp add: before_dollar_def)

lemma bare_matchI: "s \<noteq> [] \<Longrightarrow> list_all bare_char s \<Longrightarrow> bare_match s"
  using bare_last [of s] bare_char_line [of "last s"] by (simp add: bare_match_def before_dollar_plain)

lemma bare_matchD: "bare_match s \<Longrightarrow> last s \<noteq> CHR 0x0A \<Longrightarrow> s \<noteq> [] \<and> list_all bare_char s"
  by (simp add: bare_match_def before_dollar_plain)

lemma bare_match_nonempty: "bare_match s \<Longrightarrow> s \<noteq> []"
  by (auto simp: bare_match_def before_dollar_def)

lemma format_value_text: "format_value v = format_text (value_text v)"
proof (cases v)
  case (VBool b)
  have "bare_match ''1''" "bare_match ''0''"
    by (simp_all add: bare_match_def before_dollar_def bare_char_def is_alnum_def is_digit_def char_le)
  with VBool show ?thesis by (simp add: format_value_def value_text_def format_text_def)
next
  case (VFloat f)
  then show ?thesis
    using one_decimal_bare [of f] by (simp add: format_value_def value_text_def format_text_def bare_matchI)
qed (simp_all add: format_value_def value_text_def format_text_def)

lemma value_at_dumps: "value_at (json_dumps s @ r) = (Quoted (concat (map json_escape s)), r)"
  by (simp add: value_at_def json_dumps_def quoted_escape)

lemma value_at_bare:
  assumes "b \<noteq> []" "list_all bare_char b" "r = [] \<or> hd r = CHR '' ''"
  shows "value_at (b @ r) = (Bare b, r)"
proof -
  have v: "\<forall>c \<in> set b. value_char c" using assms(2) by (auto simp: list_all_iff bare_char_value)
  then have "hd (b @ r) \<noteq> CHR 0x22" using assms(1) by (auto simp: value_char_def dest: hd_in_set)
  moreover have "r = [] \<or> \<not> value_char (hd r)" using assms(3) by (auto simp: value_char_def py_space_def)
  ultimately show ?thesis using v by (cases r) (auto simp: value_at_def)
qed

lemma value_at_format:
  assumes "\<not> newline_slips v" "r = [] \<or> hd r = CHR '' ''"
  shows "value_at (format_value v @ r) = (raw_of v, r)"
  using assms value_at_bare [of "''-''" r] value_at_bare [of "value_text v" r] bare_matchD [of "value_text v"]
  by (auto simp: format_value_text format_text_def raw_of_def value_at_dumps newline_slips_def bare_char_def)

lemma token_at_format:
  assumes "key_ok k" "\<not> newline_slips v" "r = [] \<or> hd r = CHR '' ''"
  shows "token_at (k @ CHR ''='' # format_value v @ r) = Some ((k, raw_of v), r)"
  using assms by (auto simp: token_at_def key_ok_def value_at_format list_all_iff key_char_simps)

lemma tokens_Some: "token_at s = Some (x, r) \<Longrightarrow> tokens s = x # tokens r"
  by (cases s) (simp_all add: token_at_def)

lemma tokens_space: "tokens (CHR '' '' # s) = tokens s"
  by (simp add: token_at_def key_char_simps)

lemma format_line_Cons:
  "format_line ((k, v) # fs) = k @ CHR ''='' # format_value v @ (if fs = [] then [] else CHR '' '' # format_line fs)"
  by (cases fs) (auto simp: format_line_def)

lemma tokens_format_line:
  "list_all (\<lambda>(k, v). key_ok k \<and> \<not> newline_slips v) fs \<Longrightarrow> tokens (format_line fs) = map (apsnd raw_of) fs"
proof (induction fs)
  case (Cons f fs)
  obtain k v where f: "f = (k, v)" by force
  let ?r = "if fs = [] then [] else CHR '' '' # format_line fs"
  have "token_at (format_line (f # fs)) = Some ((k, raw_of v), ?r)"
    unfolding f format_line_Cons using Cons.prems f by (intro token_at_format) auto
  with Cons show ?case by (auto simp: tokens_Some tokens_space f simp del: tokens.simps) simp
qed (simp add: format_line_def)

lemma bare_dash: "bare_match ''-''"
  using bare_literals(1) by (simp add: bare_matchI)

lemma store_raw: "store_tokens d ((k, raw_of v) # ts) = store_tokens (dset d k (read_back v)) ts"
  using bare_dash by (cases "value_text v = ''-''") (simp_all add: raw_of_def read_back_def unescape_escape)

lemma store_raws:
  "distinct (map fst d @ map fst fs) \<Longrightarrow>
   store_tokens d (map (apsnd raw_of) fs) = Some (d @ map (apsnd read_back) fs)"
proof (induction fs arbitrary: d)
  case (Cons f fs)
  obtain k v where f: "f = (k, v)" by force
  with Cons.prems have "dset d k (read_back v) = d @ [(k, read_back v)]" by (simp add: update_new)
  with Cons.IH [of "d @ [(k, read_back v)]"] Cons.prems show ?case by (simp add: f store_raw del: store_tokens.simps)
qed simp

lemma py_strip_whole: "s = [] \<or> \<not> py_space (hd s) \<and> \<not> py_space (last s) \<Longrightarrow> py_strip s = s"
proof (cases s)
  case (Cons c cs)
  assume "s = [] \<or> \<not> py_space (hd s) \<and> \<not> py_space (last s)"
  with Cons have h: "\<not> py_space (hd s)" "\<not> py_space (last s)" "s \<noteq> []" by simp_all
  from h(1,3) have "dropWhile py_space s = s" by (cases s) simp_all
  moreover from h(2,3) have "dropWhile py_space (rev s) = rev s" by (cases s rule: rev_cases) simp_all
  ultimately show ?thesis by (simp add: py_strip_def)
qed (simp add: py_strip_def)

lemma format_value_last: "\<not> newline_slips v \<Longrightarrow> format_value v \<noteq> [] \<and> \<not> py_space (last (format_value v))"
  using bare_matchD [of "value_text v"] bare_char_value [of "last (value_text v)"]
  by (auto simp: format_value_text format_text_def newline_slips_def json_dumps_def py_space_def value_char_def list_all_iff)

lemma format_line_last:
  "fs \<noteq> [] \<Longrightarrow> list_all (\<lambda>(k, v). \<not> newline_slips v) fs \<Longrightarrow> format_line fs \<noteq> [] \<and> \<not> py_space (last (format_line fs))"
  by (induction fs) (auto simp: format_line_Cons format_value_last split: if_splits)

lemma format_value_one_line: "CHR 0x0A \<notin> set (format_value v) \<longleftrightarrow> \<not> newline_slips v"
proof (cases "newline_slips v")
  case True
  then have "format_value v = value_text v" "value_text v \<noteq> []" "last (value_text v) = CHR 0x0A"
    using bare_match_nonempty by (auto simp: newline_slips_def format_value_text format_text_def)
  with True show ?thesis by (metis last_in_set)
next
  case False
  then show ?thesis
    using bare_matchD [of "value_text v"] bare_char_line
    by (auto simp: newline_slips_def format_value_text format_text_def dumps_one_line list_all_iff)
qed

lemma key_one_line: "key_ok k \<Longrightarrow> CHR 0x0A \<notin> set k"
proof
  assume "key_ok k" "CHR 0x0A \<in> set k"
  then have "value_char (CHR 0x0A)" by (auto simp: key_ok_def list_all_iff intro: key_char_simps(3))
  then show False by (simp add: value_char_def py_space_def)
qed

lemma format_line_one_line:
  "list_all (\<lambda>(k, v). key_ok k \<and> \<not> newline_slips v) fs \<Longrightarrow> CHR 0x0A \<notin> set (format_line fs)"
proof (induction fs)
  case (Cons f fs)
  then show ?case
    by (cases f) (simp add: format_line_Cons format_value_one_line key_one_line)
qed (simp add: format_line_def)

section \<open>The file\<close>

lemma split_on_line: "c \<notin> set xs \<Longrightarrow> split_on c (xs @ c # ys) = xs # split_on c ys"
  by (induction xs) auto

lemma stamp_one_line: "stamp_ok ts \<Longrightarrow> CHR 0x0A \<notin> set ts"
  by (auto simp: stamp_ok_def list_all_iff py_space_def)

lemma split_on_none: "c \<notin> set xs \<Longrightarrow> split_on c xs = [xs]"
  by (induction xs) auto

lemma parse_stamped:
  assumes "stamp_ok ts" "fields_ok fs"
  shows "parse_line (ts @ CHR '' '' # format_line fs) = Some ((''ts'', ts) # map (apsnd read_back) fs)"
proof -
  let ?l = "ts @ CHR '' '' # format_line fs"
  from assms(1) have ts: "ts \<noteq> []" "CHR ''='' \<notin> set ts" "\<forall>c \<in> set ts. \<not> py_space c"
    by (auto simp: stamp_ok_def list_all_iff)
  from assms(2) have fs: "fs \<noteq> []" "list_all (\<lambda>(k, v). key_ok k \<and> \<not> newline_slips v) fs"
    "list_all (\<lambda>(k, v). \<not> newline_slips v) fs" "''ts'' \<notin> fst ` set fs" "distinct (map fst fs)"
    by (auto simp: fields_ok_def list_all_iff)
  have sp: "py_space (CHR '' '')" by (simp add: py_space_def)
  obtain k v fs' where f: "fs = (k, v) # fs'" using fs(1) by (cases fs) auto
  from f fs(2) have "\<not> py_space (hd (format_line fs))" "format_line fs \<noteq> []"
    by (auto simp: format_line_Cons key_ok_def value_char_def dest!: key_char_simps(1,3))
  moreover from ts have "\<not> py_space (hd ?l)" by (simp add: hd_append)
  ultimately have "py_strip ?l = ?l" "dropWhile py_space (format_line fs) = format_line fs"
    using format_line_last [OF fs(1,3)] by (auto simp: py_strip_whole neq_Nil_conv)
  moreover have "takeWhile (\<lambda>c. \<not> py_space c) ?l = ts" "dropWhile (\<lambda>c. \<not> py_space c) ?l = CHR '' '' # format_line fs"
    using ts(3) sp by (simp_all add: takeWhile_append dropWhile_append)
  ultimately show ?thesis
    using ts(1,2) fs(4,5) store_raws [of "[(''ts'', ts)]" fs]
    by (simp add: parse_line_def tokens_format_line [OF fs(2)] sp del: store_tokens.simps)
qed

text \<open>C24: What the connection log writes is what its reader finds: the lines of the file, read one by
  one, give the records in order, each with its time and the fields of the event, whatever the
  values hold (quotes, backslashes, blanks, control characters), as long as no value is a bare text
  with a newline at its end.\<close>

theorem log_file_roundtrip:
  assumes "list_all (\<lambda>(ts, fs). stamp_ok ts \<and> fields_ok fs) rs"
  shows "map parse_line (butlast (split_on (CHR 0x0A) (log_file rs))) =
    map (\<lambda>(ts, fs). Some ((''ts'', ts) # map (apsnd read_back) fs)) rs"
proof -
  have "split_on (CHR 0x0A) (log_file rs) = map (\<lambda>(ts, fs). ts @ CHR '' '' # format_line fs) rs @ [[]]"
    using assms
  proof (induction rs)
    case (Cons r rs)
    obtain ts fs where r: "r = (ts, fs)" by force
    with Cons.prems have "stamp_ok ts" "fields_ok fs" by simp_all
    then have "CHR 0x0A \<notin> set (ts @ CHR '' '' # format_line fs)"
      using format_line_one_line [of fs] stamp_one_line by (auto simp: fields_ok_def list_all_iff)
    from split_on_line [OF this, of "log_file rs"] Cons r show ?case by (simp add: log_file_def)
  qed (simp add: log_file_def)
  with assms show ?thesis by (auto simp: list_all_iff parse_stamped)
qed

theorem log_file_roundtrip_witness:
  "map parse_line (butlast (split_on (CHR 0x0A) (log_file
      [(''t1'', [(''event'', VStr ''login''), (''name'', VStr [CHR ''a'', CHR 0x22, CHR 0x0A])])]))) =
    [Some [(''ts'', ''t1''), (''event'', ''login''), (''name'', [CHR ''a'', CHR 0x22, CHR 0x0A])]]"
  using log_file_roundtrip [of "[(''t1'', [(''event'', VStr ''login''), (''name'', VStr [CHR ''a'', CHR 0x22, CHR 0x0A])])]"]
  by (simp add: stamp_ok_def fields_ok_def key_ok_def newline_slips_def value_text_def read_back_def py_space_def
      key_start_def key_char_def is_alnum_def is_lower_def is_upper_def char_le bare_match_def before_dollar_def bare_char_def is_digit_def)

text \<open>The pattern of the bare texts accepts one newline at the end, so a value made of bare
  characters and ended by a newline (the name of a project in the path of a request, \<open>%0A\<close>
  decoded) is written as it is and cuts the line of its event in two: the first one loses the
  fields that follow, the second one has no event.\<close>

theorem newline_forges:
  assumes "r \<noteq> []" "list_all bare_char r" "stamp_ok ts" "fields_ok fs" "fields_ok fs'" "key_ok k"
  shows "split_on (CHR 0x0A) (ts @ CHR '' '' # format_line (fs @ (k, VStr (r @ [CHR 0x0A])) # fs')) =
    [ts @ CHR '' '' # format_line (fs @ [(k, VStr r)]), CHR '' '' # format_line fs']"
proof -
  have v: "format_value (VStr (r @ [CHR 0x0A])) = r @ [CHR 0x0A]" "format_value (VStr r) = r"
    using assms(1,2) bare_matchI [of r]
    by (simp_all add: format_value_def format_text_def bare_match_def before_dollar_def)
  have "format_line (fs @ (k, VStr (r @ [CHR 0x0A])) # fs') = format_line (fs @ [(k, VStr r)]) @ CHR 0x0A # CHR '' '' # format_line fs'"
    using assms(5) v by (induction fs) (auto simp: format_line_Cons fields_ok_def)
  moreover have line: "CHR 0x0A \<notin> set (ts @ CHR '' '' # format_line (fs @ [(k, VStr r)]))"
  proof -
    have "\<not> newline_slips (VStr r)"
      using bare_last [OF assms(1,2)] bare_char_line by (auto simp: newline_slips_def value_text_def)
    moreover have "list_all (\<lambda>(k, v). key_ok k \<and> \<not> newline_slips v) fs"
      using assms(4) by (auto simp: fields_ok_def list_all_iff)
    ultimately show ?thesis
      using assms(6) format_line_one_line [of "fs @ [(k, VStr r)]"] stamp_one_line [OF assms(3)] by simp
  qed
  moreover have "CHR 0x0A \<notin> set (CHR '' '' # format_line fs')"
    using assms(5) format_line_one_line [of fs'] by (auto simp: fields_ok_def list_all_iff)
  then have "split_on (CHR 0x0A) (CHR '' '' # format_line fs') = [CHR '' '' # format_line fs']" by (rule split_on_none)
  ultimately show ?thesis
    using split_on_line [OF line, of "CHR '' '' # format_line fs'"] by (simp del: split_on.simps)
qed

theorem newline_forges_witness:
  "split_on (CHR 0x0A) (''t1'' @ CHR '' '' # format_line ([(''event'', VStr ''stop'')] @
      (''rln'', VStr (''x'' @ [CHR 0x0A])) # [(''status'', VStr ''404'')])) =
    [''t1 event=stop rln=x'', '' status=404'']"
proof -
  have s: "stamp_ok ''t1''" "key_ok ''rln''" "list_all bare_char ''x''" "bare_match ''stop''" "bare_match ''x''" "bare_match ''404''"
    "fields_ok [(''event'', VStr ''stop'')]" "fields_ok [(''status'', VStr ''404'')]"
    by (simp_all add: stamp_ok_def fields_ok_def key_ok_def newline_slips_def value_text_def py_space_def
        key_start_def key_char_def is_alnum_def is_lower_def is_upper_def char_le bare_match_def before_dollar_def bare_char_def is_digit_def)
  from newline_forges [OF _ s(3) s(1) s(7) s(8) s(2)] s(4-6) show ?thesis
    by (simp add: format_line_def format_value_def format_text_def del: split_on.simps)
qed

end
