(* ===== verification/Access_Log.thy ===== *)
theory Access_Log
  imports Access_Line Sign_In Exam_Registry
begin

text \<open>
  The sessions and the middleware of the connection log (\<^verbatim>\<open>src/src/sreweb/portal/accesslog.py\<close>): the
  table of the events, \<open>Visits\<close>, and of \<open>AccessLog\<close> the lines, the sessions, the expiry and the
  middleware. A request of the middleware is two steps, what it does before it awaits the handler and
  its \<open>finally\<close>; between them it is in flight. The clock is an argument, the address library is an
  argument of the environment; the logger, its files and the database are the list of the lines.
\<close>

section \<open>The tables\<close>

definition EVENTS :: "((string \<times> string) \<times> string) list" where
  "EVENTS = [
    ((''POST'', ''/api/projects''), ''start''), ((''DELETE'', ''/api/projects/{host}/{rln}''), ''stop''),
    ((''GET'', ''/api/projects/{host}/{rln}/events''), ''project''),
    ((''GET'', ''/api/projects/{host}/{rln}/terminals/{device}''), ''terminal''),
    ((''GET'', ''/api/projects/{host}/{rln}/display/ws''), ''display''),
    ((''POST'', ''/api/projects/{host}/{rln}/display''), ''display_start''),
    ((''POST'', ''/api/projects/{host}/{rln}/eval''), ''eval''),
    ((''POST'', ''/api/projects/{host}/{rln}/states/{state}''), ''state''),
    ((''POST'', ''/logout''), ''logout''), ((''POST'', ''/api/logout''), ''logout''),
    ((''POST'', ''/api/pool/hosts''), ''admin''), ((''DELETE'', ''/api/pool/hosts/{name}''), ''admin''),
    ((''POST'', ''/api/pool/hosts/{name}/{action}''), ''admin''),
    ((''POST'', ''/api/presentations''), ''present_start''),
    ((''PUT'', ''/api/presentations/{id}/audience''), ''present_audience''),
    ((''DELETE'', ''/api/presentations/{id}''), ''present_stop''),
    ((''GET'', ''/present/{id}''), ''present_open''), ((''POST'', ''/api/focus''), ''focus_start''),
    ((''DELETE'', ''/api/focus/{id}''), ''focus_stop''), ((''GET'', ''/api/history''), ''history''),
    ((''GET'', ''/api/history/sessions''), ''history''), ((''GET'', ''/api/history/statistics''), ''history''),
    ((''GET'', ''/api/archives''), ''archives''), ((''GET'', ''/api/archives/summary''), ''archives''),
    ((''GET'', ''/api/archives/{id}''), ''archives''), ((''GET'', ''/api/groups''), ''groups''),
    ((''GET'', ''/api/groups/{kind}/{name}''), ''groups''), ((''POST'', ''/api/groups''), ''group_edit''),
    ((''PUT'', ''/api/groups/custom/{name}''), ''group_edit''),
    ((''DELETE'', ''/api/groups/custom/{name}''), ''group_edit''),
    ((''POST'', ''/api/groups/custom/{name}/members''), ''group_edit''),
    ((''DELETE'', ''/api/groups/custom/{name}/members''), ''group_edit''),
    ((''DELETE'', ''/api/groups/custom/{name}/members/{login}''), ''group_edit''),
    ((''POST'', ''/api/exams''), ''exam_edit''), ((''PUT'', ''/api/exams/{id}''), ''exam_edit''),
    ((''DELETE'', ''/api/exams/{id}''), ''exam_edit''), ((''POST'', ''/api/exams/{id}/end''), ''exam_edit''),
    ((''POST'', ''/api/exams/{id}/adjust''), ''exam_edit''),
    ((''POST'', ''/api/exams/{id}/labs''), ''exam_edit''),
    ((''POST'', ''/api/exams/{id}/close-projects''), ''exam_edit''),
    ((''POST'', ''/api/exam/{id}/dismiss''), ''exam_dismiss'')]"

definition WS_EVENTS :: "string list" where
  "WS_EVENTS = [
    ''project'', ''terminal'', ''display'']"

definition PROJECT_EVENTS :: "string list" where
  "PROJECT_EVENTS = [
    ''project'', ''terminal'', ''display'', ''display_start'', ''stop'', ''eval'', ''state'', ''present_start'',
    ''present_open'', ''focus_start'']"

definition KEEPALIVE :: "(string \<times> string) list" where
  "KEEPALIVE = [
    (''GET'', ''/api/projects''), (''GET'', ''/api/watch''), (''GET'', ''/api/pool''),
    (''GET'', ''/api/pool/status''), (''POST'', ''/api/projects/{host}/{rln}/touch''),
    (''GET'', ''/api/presence''), (''GET'', ''/api/presentations''), (''GET'', ''/api/presentations/{id}''),
    (''PUT'', ''/api/presentations/{id}/view''), (''PUT'', ''/api/presentations/{id}/evaluation''),
    (''GET'', ''/api/presentations/{id}/ws''), (''GET'', ''/api/focus''), (''GET'', ''/api/focus/{id}''),
    (''PUT'', ''/api/focus/{id}/view''), (''GET'', ''/api/focus/{id}/ws''),
    (''GET'', ''/api/archives/options''), (''GET'', ''/api/groups/people''), (''GET'', ''/api/exam''),
    (''GET'', ''/api/exams''), (''GET'', ''/api/exams/{id}'')]"

definition IGNORED :: "string list" where
  "IGNORED = [
    [], ''/static'', ''/i18n/{lang}.json'', ''/site/logo'', ''/api/presence/ws'']"

definition LOGIN_ROUTES :: "(string \<times> string) list" where
  "LOGIN_ROUTES = [
    (''POST'', ''/login''), (''POST'', ''/api/login'')]"

definition DENIED_STATUSES :: "nat list" where
  "DENIED_STATUSES = [401, 403, 429]"

definition MAX_USER_AGENT :: nat where "MAX_USER_AGENT = 200"

definition event_for :: "string \<Rightarrow> string \<Rightarrow> string option" where
  "event_for mth canonical = map_of EVENTS (if mth = ''HEAD'' then ''GET'' else mth, canonical)"

section \<open>Requests\<close>

text \<open>\<open>ae_addresses\<close> and \<open>ae_networks\<close>: what \<open>client_allowed\<close> reads, \<open>trusted_proxies\<close>;
  \<open>ae_address_text\<close>: \<open>str(ip_address(x))\<close>, \<open>None\<close> when it raises; \<open>ae_iso\<close>: \<open>iso_time\<close>.\<close>

record access_env =
  ae_addresses :: "string \<Rightarrow> (nat \<times> nat) list"
  ae_address_text :: "string \<Rightarrow> string option"
  ae_networks :: "network list"
  ae_iso :: "real \<Rightarrow> string"
  ae_timeout :: real

record request =
  rq_method :: string
  rq_canonical :: string
  rq_path :: string
  rq_identity :: "identity option"
  rq_remote :: string
  rq_xff :: string
  rq_agent :: string
  rq_info :: "(string \<times> string) list"
  rq_query :: "(string \<times> string) list"

definition last_entry :: "string \<Rightarrow> string" where
  "last_entry s = py_strip (rev (takeWhile (\<lambda>c. c \<noteq> CHR '','') (rev s)))"

definition forwarded_address :: "access_env \<Rightarrow> string \<Rightarrow> string \<Rightarrow> string" where
  "forwarded_address E peer xff =
     (let fallback = (if peer = [] then ''-'' else peer)
      in if ae_networks E \<noteq> [] \<and> xff \<noteq> [] \<and> client_allowed (ae_addresses E) peer (ae_networks E)
         then (case ae_address_text E (takeWhile (\<lambda>c. c \<noteq> CHR ''%'') (last_entry xff)) of Some a \<Rightarrow> a | None \<Rightarrow> fallback)
         else fallback)"

definition address :: "access_env \<Rightarrow> request \<Rightarrow> string" where
  "address E rq = forwarded_address E (rq_remote rq) (rq_xff rq)"

section \<open>The sessions\<close>

type_synonym visit_key = "string \<times> string"

record visit =
  vi_login :: string
  vi_addr :: string
  vi_role :: string
  vi_anon :: bool
  vi_name :: string
  vi_ua :: string
  vi_first :: real
  vi_last :: real
  vi_group :: string
  vi_requests :: nat
  vi_sockets :: nat
  vi_projects :: "string list"

type_synonym visits = "(visit_key \<times> visit) list"

definition visit_key_of :: "visit \<Rightarrow> visit_key" where
  "visit_key_of v = (vi_login v, vi_addr v)"

definition duration :: "visit \<Rightarrow> real" where
  "duration v = vi_last v - vi_first v"

definition touch_visit :: "identity \<Rightarrow> string \<Rightarrow> string \<Rightarrow> real \<Rightarrow> bool \<Rightarrow> visits \<Rightarrow> (visit \<times> bool) \<times> visits" where
  "touch_visit i addr ua now count vs =
     (let k = (login i, addr);
          v = (case dget vs k of
                 None \<Rightarrow> \<lparr>vi_login = login i, vi_addr = addr, vi_role = role_text (role_of i), vi_anon = anonymous i,
                    vi_name = fullname i, vi_ua = ua, vi_first = now, vi_last = now, vi_group = group i,
                    vi_requests = 0, vi_sockets = 0, vi_projects = []\<rparr>
               | Some v \<Rightarrow> if group i \<noteq> [] \<and> group i \<noteq> vi_group v then v\<lparr>vi_group := group i\<rparr> else v);
          v = v\<lparr>vi_last := max (vi_last v) now\<rparr>;
          v = (if count then v\<lparr>vi_requests := Suc (vi_requests v)\<rparr> else v)
      in ((v, dget vs k = None), dset vs k v))"

definition change_visit :: "visit_key option \<Rightarrow> (visit \<Rightarrow> visit) \<Rightarrow> visits \<Rightarrow> visits" where
  "change_visit k f vs = (case k of None \<Rightarrow> vs | Some k \<Rightarrow> (case dget vs k of None \<Rightarrow> vs | Some v \<Rightarrow> dset vs k (f v)))"

definition socket_opened :: "visit_key option \<Rightarrow> visits \<Rightarrow> visits" where
  "socket_opened k = change_visit k (\<lambda>v. v\<lparr>vi_sockets := Suc (vi_sockets v)\<rparr>)"

definition socket_closed :: "visit_key option \<Rightarrow> real \<Rightarrow> visits \<Rightarrow> visits" where
  "socket_closed k now = change_visit k (\<lambda>v. v\<lparr>vi_sockets := vi_sockets v - 1, vi_last := max (vi_last v) now\<rparr>)"

definition add_project :: "visit_key option \<Rightarrow> string \<Rightarrow> visits \<Rightarrow> visits" where
  "add_project k rln = change_visit k (\<lambda>v. if rln \<noteq> [] \<and> rln \<notin> set (vi_projects v)
     then v\<lparr>vi_projects := vi_projects v @ [rln]\<rparr> else v)"

definition expired :: "real \<Rightarrow> real \<Rightarrow> visit \<Rightarrow> bool" where
  "expired now timeout v \<longleftrightarrow> vi_sockets v = 0 \<and> timeout \<le> now - vi_last v"

definition expire_visits :: "real \<Rightarrow> real \<Rightarrow> visits \<Rightarrow> visit list \<times> visits" where
  "expire_visits now timeout vs =
     (let gone = filter (expired now timeout) (vals_of vs)
      in (gone, fold (\<lambda>v vs. dpop vs (visit_key_of v)) gone vs))"

section \<open>The log\<close>

record access_log =
  al_visits :: visits
  al_lines :: "line_fields list"

definition record_line :: "string \<Rightarrow> line_fields \<Rightarrow> access_log \<Rightarrow> access_log" where
  "record_line event fs A = A\<lparr>al_lines := al_lines A @ [(''event'', VStr event) # fs]\<rparr>"

definition on_visits :: "(visits \<Rightarrow> visits) \<Rightarrow> access_log \<Rightarrow> access_log" where
  "on_visits f A = A\<lparr>al_visits := f (al_visits A)\<rparr>"

definition touch :: "access_env \<Rightarrow> request \<Rightarrow> identity \<Rightarrow> real \<Rightarrow> bool \<Rightarrow> access_log \<Rightarrow> visit \<times> access_log" where
  "touch E rq i now count A =
     (let addr = address E rq;
          ((v, new), vs) = touch_visit i addr (take MAX_USER_AGENT (rq_agent rq)) now count (al_visits A);
          A = A\<lparr>al_visits := vs\<rparr>
      in (v, if new then record_line ''session_open'' [(''login'', VStr (vi_login v)), (''addr'', VStr addr),
               (''role'', VStr (vi_role v)), (''anon'', VBool (vi_anon v)), (''name'', VStr (vi_name v)),
               (''group'', VStr (vi_group v)), (''ua'', VStr (vi_ua v))] A
             else A))"

definition log_login :: "access_env \<Rightarrow> request \<Rightarrow> identity \<Rightarrow> string \<Rightarrow> real \<Rightarrow> access_log \<Rightarrow> access_log" where
  "log_login E rq i mode now A =
     snd (touch E rq i now True (record_line ''login'' [(''login'', VStr (login i)), (''addr'', VStr (address E rq)),
       (''mode'', VStr mode), (''role'', VStr (role_text (role_of i))), (''anon'', VBool (anonymous i)),
       (''name'', VStr (fullname i)), (''group'', VStr (group i))] A))"

definition log_login_failed :: "access_env \<Rightarrow> request \<Rightarrow> string \<Rightarrow> string \<Rightarrow> access_log \<Rightarrow> access_log" where
  "log_login_failed E rq who reason A = record_line ''login_failed''
     [(''login'', VStr who), (''addr'', VStr (address E rq)), (''reason'', VStr reason)] A"

definition closed :: "access_env \<Rightarrow> string \<Rightarrow> visit \<Rightarrow> access_log \<Rightarrow> access_log" where
  "closed E reason v A = record_line ''session_close'' [(''login'', VStr (vi_login v)), (''addr'', VStr (vi_addr v)),
     (''role'', VStr (vi_role v)), (''name'', VStr (vi_name v)), (''group'', VStr (vi_group v)),
     (''reason'', VStr reason), (''since'', VStr (ae_iso E (vi_first v))), (''duration'', VInt (py_round (duration v))),
     (''requests'', VInt (int (vi_requests v))), (''projects'', VList (vi_projects v))] A"

definition close_visit :: "access_env \<Rightarrow> visit_key \<Rightarrow> string \<Rightarrow> access_log \<Rightarrow> access_log" where
  "close_visit E k reason A = (case dget (al_visits A) k of
     None \<Rightarrow> A | Some v \<Rightarrow> closed E reason v (on_visits (\<lambda>vs. dpop vs k) A))"

definition expire :: "access_env \<Rightarrow> real \<Rightarrow> access_log \<Rightarrow> access_log" where
  "expire E now A = (let (gone, vs) = expire_visits now (ae_timeout E) (al_visits A)
     in fold (closed E ''idle'') gone (A\<lparr>al_visits := vs\<rparr>))"

definition close_all :: "access_env \<Rightarrow> string \<Rightarrow> access_log \<Rightarrow> access_log" where
  "close_all E reason A = fold (closed E reason) (vals_of (al_visits A)) (A\<lparr>al_visits := []\<rparr>)"

section \<open>The middleware\<close>

text \<open>What a request in flight waits to log.\<close>

datatype flight_kind = Ignored | PlainCall bool | EventCall string | SocketCall string

record flight =
  fl_kind :: flight_kind
  fl_key :: "visit_key option"
  fl_fields :: line_fields
  fl_method :: string
  fl_path :: string
  fl_start :: real

text \<open>\<open>{**fields, **more}\<close>.\<close>

definition with_fields :: "line_fields \<Rightarrow> line_fields \<Rightarrow> line_fields" where
  "with_fields fs extra = foldl (\<lambda>d (k, v). dset d k v) fs extra"

definition text_of :: "fvalue option \<Rightarrow> string" where
  "text_of v = (case v of Some (VStr s) \<Rightarrow> s | _ \<Rightarrow> [])"

definition route_fields :: "request \<Rightarrow> string \<Rightarrow> line_fields \<Rightarrow> line_fields" where
  "route_fields rq event fs =
     (let fs = foldl (\<lambda>d n. case dget (rq_info rq) n of None \<Rightarrow> d | Some x \<Rightarrow> dset d n (VStr x)) fs
                     [''host'', ''rln'', ''state'', ''device'', ''id''];
          fs = (if event = ''terminal'' then
             with_fields fs [(''join'', case dget (rq_query rq) ''join'' of None \<Rightarrow> VNone
                 | Some x \<Rightarrow> if x = [] then VNone else VStr x),
               (''private'', VBool (dget (rq_query rq) ''private'' \<in> {Some ''1'', Some ''true''}))] else fs);
          fs = (if dget (rq_query rq) ''view'' = Some VIEW_INSTRUCTOR
             then dset fs ''view'' (VStr VIEW_INSTRUCTOR) else fs)
      in if event = ''admin'' then with_fields fs [(''method'', VStr (rq_method rq)), (''path'', VStr (rq_path rq))]
         else fs)"

definition mw_method :: "request \<Rightarrow> string" where
  "mw_method rq = (if rq_method rq = ''HEAD'' then ''GET'' else rq_method rq)"

definition mw_touch :: "access_env \<Rightarrow> request \<Rightarrow> real \<Rightarrow> access_log \<Rightarrow> visit_key option \<times> access_log" where
  "mw_touch E rq now A = (case rq_identity rq of
     None \<Rightarrow> (None, A)
   | Some i \<Rightarrow> (let (v, A) = touch E rq i now ((mw_method rq, rq_canonical rq) \<notin> set KEEPALIVE) A
               in (Some (visit_key_of v), A)))"

definition mw_begin :: "access_env \<Rightarrow> request \<Rightarrow> real \<Rightarrow> access_log \<Rightarrow> flight \<times> access_log" where
  "mw_begin E rq now A =
     (let fl = \<lparr>fl_kind = Ignored, fl_key = None, fl_fields = [], fl_method = rq_method rq, fl_path = rq_path rq, fl_start = now\<rparr>
      in if rq_canonical rq \<in> set IGNORED then (fl, A)
         else
           let (key, A) = mw_touch E rq now A;
               fs = [(''login'', VStr (case rq_identity rq of None \<Rightarrow> ''-'' | Some i \<Rightarrow> login i)),
                     (''addr'', VStr (address E rq))]
           in (case event_for (mw_method rq) (rq_canonical rq) of
                 None \<Rightarrow> (fl\<lparr>fl_kind := PlainCall ((mw_method rq, rq_canonical rq) \<notin> set LOGIN_ROUTES),
                           fl_key := key, fl_fields := fs\<rparr>, A)
               | Some event \<Rightarrow>
                   (let fs = route_fields rq event fs;
                        fl = fl\<lparr>fl_key := key, fl_fields := fs\<rparr>
                    in if event \<in> set WS_EVENTS
                       then (fl\<lparr>fl_kind := SocketCall event\<rparr>,
                             on_visits (socket_opened key) (record_line (event @ ''_open'') fs A))
                       else (fl\<lparr>fl_kind := EventCall event\<rparr>, A))))"

text \<open>How the handler ended: its status (\<open>None\<close>: cancelled, or an exception that is no answer), the
  fields it added (\<open>request[ACCESS_KEY]\<close>) and the close code of the socket it prepared
  (\<open>request[WS_KEY]\<close>).\<close>

record outcome =
  oc_status :: "nat option"
  oc_extra :: line_fields
  oc_socket :: "int option option"

definition status_value :: "outcome \<Rightarrow> fvalue" where
  "status_value oc = (case oc_status oc of None \<Rightarrow> VStr ''abort'' | Some s \<Rightarrow> if s = 0 then VStr ''abort'' else VInt (int s))"

definition end_event :: "access_env \<Rightarrow> flight \<Rightarrow> string \<Rightarrow> outcome \<Rightarrow> real \<Rightarrow> access_log \<Rightarrow> access_log" where
  "end_event E fl event oc now A =
     (let fs = with_fields (fl_fields fl) (oc_extra oc);
          A = record_line event (fs @ [(''status'', status_value oc), (''duration'', VFloat (Fin (now - fl_start fl)))]) A
      in case (fl_key fl, oc_status oc) of
           (Some k, Some s) \<Rightarrow>
             (if s < 400 then
                (if event \<in> set PROJECT_EVENTS then on_visits (add_project (Some k) (text_of (dget fs ''rln''))) A
                 else if event = ''start'' then on_visits (add_project (Some k) (text_of (dget (oc_extra oc) ''rln''))) A
                 else if event = ''logout'' then close_visit E k ''logout'' A
                 else A)
              else A)
         | _ \<Rightarrow> A)"

definition end_plain :: "bool \<Rightarrow> flight \<Rightarrow> outcome \<Rightarrow> access_log \<Rightarrow> access_log" where
  "end_plain denied fl oc A =
     (case oc_status oc of
        Some s \<Rightarrow> if denied \<and> s \<in> set DENIED_STATUSES
          then record_line ''denied'' (fl_fields fl @ [(''method'', VStr (fl_method fl)), (''path'', VStr (fl_path fl)),
                 (''status'', VInt (int s))]) A
          else A
      | None \<Rightarrow> A)"

definition end_socket :: "flight \<Rightarrow> string \<Rightarrow> outcome \<Rightarrow> real \<Rightarrow> access_log \<Rightarrow> access_log" where
  "end_socket fl event oc now A =
     (let A = on_visits (socket_closed (fl_key fl) now) A;
          fs = with_fields (fl_fields fl) (oc_extra oc);
          spent = (''duration'', VFloat (Fin (now - fl_start fl)))
      in case oc_socket oc of
           Some code \<Rightarrow>
             record_line (event @ ''_close'') (fs @ [spent, (''code'', case code of None \<Rightarrow> VNone | Some c \<Rightarrow> VInt c)])
               (on_visits (add_project (fl_key fl) (text_of (dget fs ''rln''))) A)
         | None \<Rightarrow> record_line (event @ ''_close'') (fs @ [spent, (''status'', status_value oc)]) A)"

definition mw_end :: "access_env \<Rightarrow> flight \<Rightarrow> outcome \<Rightarrow> real \<Rightarrow> access_log \<Rightarrow> access_log" where
  "mw_end E fl oc now A = (case fl_kind fl of
     Ignored \<Rightarrow> A
   | PlainCall denied \<Rightarrow> end_plain denied fl oc A
   | EventCall event \<Rightarrow> end_event E fl event oc now A
   | SocketCall event \<Rightarrow> end_socket fl event oc now A)"

end
