(* ===== verification/Access_Log_Safety.thy ===== *)
theory Access_Log_Safety
  imports Access_Log
begin

text \<open>
  What the connection log promises, over every interleaving of the requests: each session of a login
  from an address is opened and closed in turn, each socket that is logged open is logged closed once
  it is gone, and a session left alone without a socket ends. What it does not promise: a session
  with an open socket is closed as idle when an earlier session of the same user was closed while it
  had a socket.
\<close>

section \<open>The machine\<close>

record log_state =
  ls_log :: access_log
  ls_flights :: "(nat \<times> flight) list"

datatype log_event = Arrive nat request real | Leave nat outcome real | Signed request identity string real
  | NotSigned request string string | Expiry real | Stopped

definition exec_log :: "access_env \<Rightarrow> log_event \<Rightarrow> log_state \<Rightarrow> log_state option" where
  "exec_log E ev s = (case ev of
     Arrive n rq now \<Rightarrow>
       (if dget (ls_flights s) n \<noteq> None then None
        else (let (fl, A) = mw_begin E rq now (ls_log s)
              in Some (s\<lparr>ls_log := A, ls_flights := dset (ls_flights s) n fl\<rparr>)))
   | Leave n oc now \<Rightarrow>
       (case dget (ls_flights s) n of None \<Rightarrow> None
        | Some fl \<Rightarrow> Some (s\<lparr>ls_log := mw_end E fl oc now (ls_log s), ls_flights := dpop (ls_flights s) n\<rparr>))
   | Signed rq i mode now \<Rightarrow> Some (s\<lparr>ls_log := log_login E rq i mode now (ls_log s)\<rparr>)
   | NotSigned rq who reason \<Rightarrow> Some (s\<lparr>ls_log := log_login_failed E rq who reason (ls_log s)\<rparr>)
   | Expiry now \<Rightarrow> Some (s\<lparr>ls_log := expire E now (ls_log s)\<rparr>)
   | Stopped \<Rightarrow> Some (s\<lparr>ls_log := close_all E ''shutdown'' (ls_log s)\<rparr>))"

inductive log_step :: "access_env \<Rightarrow> log_state \<Rightarrow> log_state \<Rightarrow> bool" for E where
  happens: "exec_log E ev s = Some t \<Longrightarrow> log_step E s t"

inductive_cases log_stepE: "log_step E s t"

definition log_start :: "log_state \<Rightarrow> bool" where
  "log_start s \<longleftrightarrow> s = \<lparr>ls_log = \<lparr>al_visits = [], al_lines = []\<rparr>, ls_flights = []\<rparr>"

section \<open>The sessions in the lines\<close>

definition session_line :: "visit_key \<Rightarrow> line_fields \<Rightarrow> bool option" where
  "session_line k l = (if dget l ''login'' = Some (VStr (fst k)) \<and> dget l ''addr'' = Some (VStr (snd k))
     then (if dget l ''event'' = Some (VStr ''session_open'') then Some True
           else if dget l ''event'' = Some (VStr ''session_close'') then Some False else None)
     else None)"

text \<open>\<open>session_run\<close> reads the lines as a session that is open or not; \<open>None\<close> is a session opened
  twice, or closed when it was not open.\<close>

definition session_next :: "visit_key \<Rightarrow> bool option \<Rightarrow> line_fields \<Rightarrow> bool option" where
  "session_next k st l = (case st of None \<Rightarrow> None
   | Some b \<Rightarrow> (case session_line k l of None \<Rightarrow> Some b | Some o' \<Rightarrow> if b = o' then None else Some o'))"

definition session_run :: "visit_key \<Rightarrow> line_fields list \<Rightarrow> bool option" where
  "session_run k ls = foldl (session_next k) (Some False) ls"

definition lines_of :: "string \<Rightarrow> line_fields list \<Rightarrow> nat" where
  "lines_of e ls = length (filter (\<lambda>l. dget l ''event'' = Some (VStr e)) ls)"

definition holds :: "visit_key \<Rightarrow> flight \<Rightarrow> bool" where
  "holds k fl \<longleftrightarrow> fl_key fl = Some k \<and> (case fl_kind fl of SocketCall e \<Rightarrow> True | _ \<Rightarrow> False)"

text \<open>The sockets of a session that are open.\<close>

definition live :: "(nat \<times> flight) list \<Rightarrow> visit_key \<Rightarrow> nat" where
  "live fls k = length (filter (\<lambda>(n, fl). holds k fl) fls)"

definition sockets_open :: "(nat \<times> flight) list \<Rightarrow> string \<Rightarrow> nat" where
  "sockets_open fls e = length (filter (\<lambda>(n, fl). fl_kind fl = SocketCall e) fls)"

definition visit_ok :: "(visit_key \<Rightarrow> nat) \<Rightarrow> visit_key \<Rightarrow> visit \<Rightarrow> bool" where
  "visit_ok lv k v \<longleftrightarrow> visit_key_of v = k \<and> vi_first v \<le> vi_last v \<and> distinct (vi_projects v) \<and>
     [] \<notin> set (vi_projects v) \<and> vi_sockets v \<le> lv k"

definition log_ok :: "(visit_key \<Rightarrow> nat) \<Rightarrow> access_log \<Rightarrow> bool" where
  "log_ok lv A \<longleftrightarrow> dict_ok (al_visits A) \<and> (\<forall>k v. dget (al_visits A) k = Some v \<longrightarrow> visit_ok lv k v) \<and>
     (\<forall>k. session_run k (al_lines A) = Some (dget (al_visits A) k \<noteq> None))"

definition flight_ok :: "flight \<Rightarrow> bool" where
  "flight_ok fl \<longleftrightarrow> (case fl_kind fl of
     EventCall e \<Rightarrow> e \<in> snd ` set EVENTS \<and> e \<notin> set WS_EVENTS
   | SocketCall e \<Rightarrow> e \<in> set WS_EVENTS | _ \<Rightarrow> True)"

definition log_inv :: "log_state \<Rightarrow> bool" where
  "log_inv s \<longleftrightarrow> dict_ok (ls_flights s) \<and> (\<forall>n fl. dget (ls_flights s) n = Some fl \<longrightarrow> flight_ok fl) \<and>
     log_ok (live (ls_flights s)) (ls_log s) \<and>
     (\<forall>e \<in> set WS_EVENTS. lines_of (e @ ''_open'') (al_lines (ls_log s)) =
        lines_of (e @ ''_close'') (al_lines (ls_log s)) + sockets_open (ls_flights s) e)"

section \<open>The lines\<close>

lemma session_run_snoc [simp]: "session_run k (ls @ [l]) = session_next k (session_run k ls) l"
  by (simp add: session_run_def)

lemma lines_of_snoc [simp]: "lines_of e (ls @ [l]) = lines_of e ls + (if dget l ''event'' = Some (VStr e) then 1 else 0)"
  by (simp add: lines_of_def)

lemma record_line_simps [simp]:
  "al_visits (record_line e fs A) = al_visits A" "al_lines (record_line e fs A) = al_lines A @ [(''event'', VStr e) # fs]"
  "al_visits (on_visits f A) = f (al_visits A)" "al_lines (on_visits f A) = al_lines A"
  by (simp_all add: record_line_def on_visits_def)

lemma session_next_other: "e \<notin> {''session_open'', ''session_close''} \<Longrightarrow> session_next k st ((''event'', VStr e) # fs) = st"
  by (auto simp: session_next_def session_line_def split: option.split)

lemma record_line_ok: "e \<notin> {''session_open'', ''session_close''} \<Longrightarrow> log_ok lv (record_line e fs A) = log_ok lv A"
  by (simp add: log_ok_def session_next_other)

lemma change_visit_simps [simp]:
  "change_visit None f vs = vs"
  "dget (change_visit (Some k) f vs) k' = (if k' = k then map_option f (dget vs k) else dget vs k')"
  "dict_ok vs \<Longrightarrow> dict_ok (change_visit ko f vs)"
  by (auto simp: change_visit_def split: option.split)

lemma change_visit_ok:
  assumes "log_ok lv A" "\<And>v. ko = Some (visit_key_of v) \<Longrightarrow> visit_ok lv (visit_key_of v) v \<Longrightarrow> visit_ok lv' (visit_key_of v) (f v)"
    and "\<And>k v. ko \<noteq> Some k \<Longrightarrow> visit_ok lv k v \<Longrightarrow> visit_ok lv' k v"
  shows "log_ok lv' (on_visits (change_visit ko f) A)"
proof (cases ko)
  case None
  with assms(1,3) show ?thesis by (simp add: log_ok_def)
next
  case (Some k)
  have vs: "visit_ok lv k' w" if "dget (al_visits A) k' = Some w" for k' w
    using assms(1) that unfolding log_ok_def by blast
  have "visit_ok lv' k' w" if w: "dget (change_visit ko f (al_visits A)) k' = Some w" for k' w
  proof (cases "k' = k")
    case True
    with w Some obtain v where v: "dget (al_visits A) k = Some v" "w = f v" by auto
    from vs [OF v(1)] have "visit_key_of v = k" "visit_ok lv (visit_key_of v) v" by (simp_all add: visit_ok_def)
    with assms(2) [of v] Some v(2) True show ?thesis by simp
  next
    case False
    with w Some have "dget (al_visits A) k' = Some w" by simp
    with vs assms(3) [of k' w] False Some show ?thesis by simp
  qed
  with assms(1) Some show ?thesis by (simp add: log_ok_def)
qed

lemma add_project_ok: "log_ok lv A \<Longrightarrow> log_ok lv (on_visits (add_project k rln) A)"
  unfolding add_project_def by (rule change_visit_ok) (auto simp: visit_ok_def visit_key_of_def)

lemma socket_opened_ok:
  "log_ok lv A \<Longrightarrow> (\<And>k. lv' k = lv k + (if ko = Some k then 1 else 0)) \<Longrightarrow> log_ok lv' (on_visits (socket_opened ko) A)"
  unfolding socket_opened_def by (rule change_visit_ok) (auto simp: visit_ok_def visit_key_of_def)

lemma socket_closed_ok:
  "log_ok lv A \<Longrightarrow> (\<And>k. lv' k = lv k - (if ko = Some k then 1 else 0)) \<Longrightarrow> log_ok lv' (on_visits (socket_closed ko now) A)"
  unfolding socket_closed_def by (rule change_visit_ok) (auto simp: visit_ok_def visit_key_of_def)

section \<open>The sessions\<close>

lemma touch_visit_ok:
  assumes "touch_visit i addr ua now count vs = ((v, new), vs')"
    and "\<forall>k v. dget vs k = Some v \<longrightarrow> visit_ok lv k v"
  shows "vs' = dset vs (visit_key_of v) v" "visit_ok lv (visit_key_of v) v" "visit_key_of v = (login i, addr)"
    "new = (dget vs (visit_key_of v) = None)"
  using assms
  by (auto simp: touch_visit_def Let_def visit_ok_def visit_key_of_def le_max_iff_disj split: option.splits if_splits)

lemma touch_ok:
  assumes "log_ok lv A" "touch E rq i now count A = (v, A')"
  shows "log_ok lv A'" "visit_key_of v = (login i, address E rq)" "dget (al_visits A') (visit_key_of v) = Some v"
    "e \<noteq> ''session_open'' \<Longrightarrow> lines_of e (al_lines A') = lines_of e (al_lines A)"
proof -
  let ?addr = "address E rq" and ?ua = "take MAX_USER_AGENT (rq_agent rq)"
  obtain w new vs where t: "touch_visit i ?addr ?ua now count (al_visits A) = ((w, new), vs)" by (metis prod.exhaust)
  from assms(1) have "\<forall>k v. dget (al_visits A) k = Some v \<longrightarrow> visit_ok lv k v" by (simp add: log_ok_def)
  note w = touch_visit_ok [OF t this]
  from assms(2) t have v: "v = w" by (simp add: touch_def Let_def)
  from w(3) have k: "vi_login w = login i" "vi_addr w = ?addr" by (simp_all add: visit_key_of_def)
  from assms(1) w v t assms(2) k
  show "log_ok lv A'" "visit_key_of v = (login i, address E rq)" "dget (al_visits A') (visit_key_of v) = Some v"
    "e \<noteq> ''session_open'' \<Longrightarrow> lines_of e (al_lines A') = lines_of e (al_lines A)"
    by (auto simp: touch_def Let_def log_ok_def session_next_def session_line_def split: if_splits)
qed

section \<open>Closing\<close>

lemma closed_simps [simp]:
  "al_visits (closed E r v A) = al_visits A"
  "e \<noteq> ''session_close'' \<Longrightarrow> lines_of e (al_lines (closed E r v A)) = lines_of e (al_lines A)"
  "session_run k (al_lines (closed E r v A)) = (if k = visit_key_of v
     then (if session_run k (al_lines A) = Some True then Some False else None) else session_run k (al_lines A))"
  by (auto simp: closed_def session_next_def session_line_def visit_key_of_def split: option.split)

lemma fold_closed_simps [simp]:
  "al_visits (fold (closed E r) gone A) = al_visits A"
  "e \<noteq> ''session_close'' \<Longrightarrow> lines_of e (al_lines (fold (closed E r) gone A)) = lines_of e (al_lines A)"
  by (induction gone arbitrary: A) simp_all

lemma fold_closed_run:
  "distinct (map visit_key_of gone) \<Longrightarrow> session_run k (al_lines (fold (closed E r) gone A)) =
    (if k \<in> visit_key_of ` set gone then (if session_run k (al_lines A) = Some True then Some False else None)
     else session_run k (al_lines A))"
  by (induction gone arbitrary: A) auto

lemma dget_fold_dpop: "dget (fold (\<lambda>v vs. dpop vs (f v)) gone vs) k = (if k \<in> f ` set gone then None else dget vs k)"
  by (induction gone arbitrary: vs) auto

lemma dict_ok_fold_dpop: "dict_ok vs \<Longrightarrow> dict_ok (fold (\<lambda>v vs. dpop vs (f v)) gone vs)"
  by (induction gone arbitrary: vs) simp_all

lemma log_ok_keys:
  assumes "log_ok lv A"
  shows "map visit_key_of (vals_of (al_visits A)) = keys_of (al_visits A)"
proof -
  have "visit_key_of (snd x) = fst x" if "x \<in> set (al_visits A)" for x
  proof -
    from assms that have "dget (al_visits A) (fst x) = Some (snd x)" by (simp add: log_ok_def dget_of_in)
    with assms show ?thesis unfolding log_ok_def visit_ok_def by blast
  qed
  then show ?thesis by (simp add: vals_of_def keys_of_def)
qed

lemma log_ok_vals:
  assumes "log_ok lv A" "v \<in> set (vals_of (al_visits A))"
  shows "dget (al_visits A) (visit_key_of v) = Some v"
proof -
  from assms(2) obtain k where "(k, v) \<in> set (al_visits A)" by (rule vals_ofE)
  with assms(1) have "dget (al_visits A) k = Some v" by (simp add: log_ok_def dget_of_in)
  moreover with assms(1) have "visit_key_of v = k" unfolding log_ok_def visit_ok_def by blast
  ultimately show ?thesis by simp
qed

text \<open>Every visit of a list is closed: \<open>expire\<close> and \<open>close_all\<close>.\<close>

lemma close_these_ok:
  assumes "log_ok lv A" "distinct (map visit_key_of gone)" "set gone \<subseteq> set (vals_of (al_visits A))"
    and "dict_ok vs" "\<And>k. dget vs k = (if k \<in> visit_key_of ` set gone then None else dget (al_visits A) k)"
  shows "log_ok lv (fold (closed E r) gone (A\<lparr>al_visits := vs\<rparr>))"
proof -
  let ?A = "fold (closed E r) gone (A\<lparr>al_visits := vs\<rparr>)"
  have opened: "session_run k (al_lines A) = Some (dget (al_visits A) k \<noteq> None)" for k
    using assms(1) unfolding log_ok_def by blast
  have gone: "dget (al_visits A) k \<noteq> None" if k: "k \<in> visit_key_of ` set gone" for k
  proof -
    from k obtain v where v: "v \<in> set gone" "k = visit_key_of v" by blast
    with assms(3) have "v \<in> set (vals_of (al_visits A))" by blast
    from log_ok_vals [OF assms(1) this] v(2) show ?thesis by simp
  qed
  have run: "session_run k (al_lines ?A) = Some (dget vs k \<noteq> None)" for k
    using fold_closed_run [OF assms(2), of k E r "A\<lparr>al_visits := vs\<rparr>"] opened [of k] gone [of k]
    by (cases "k \<in> visit_key_of ` set gone") (simp_all add: assms(5))
  have "visit_ok lv k v" if "dget vs k = Some v" for k v
  proof -
    from that have "dget (al_visits A) k = Some v" by (simp add: assms(5) split: if_splits)
    with assms(1) show ?thesis unfolding log_ok_def by blast
  qed
  with run assms(4) show ?thesis by (simp add: log_ok_def)
qed

lemma expire_ok:
  assumes "log_ok lv A"
  shows "log_ok lv (expire E now A)"
proof -
  let ?gone = "filter (expired now (ae_timeout E)) (vals_of (al_visits A))"
  have "distinct (map visit_key_of ?gone)"
    using assms log_ok_keys [OF assms] by (metis distinct_map_filter dict_ok_def keys_of_def log_ok_def)
  then show ?thesis
    unfolding expire_def expire_visits_def Let_def prod.case
    by (rule close_these_ok [OF assms]) (use assms in \<open>auto simp: dget_fold_dpop log_ok_def intro: dict_ok_fold_dpop\<close>)
qed

lemma close_all_ok:
  assumes "log_ok lv A"
  shows "log_ok lv (close_all E r A)"
proof -
  have d: "distinct (map visit_key_of (vals_of (al_visits A)))"
    using assms log_ok_keys [OF assms] by (simp add: dict_ok_def keys_of_def log_ok_def)
  have "k \<notin> visit_key_of ` set (vals_of (al_visits A)) \<Longrightarrow> dget (al_visits A) k = None" for k
    using log_ok_keys [OF assms] keys_of_dget [of k "al_visits A"] by (metis list.set_map)
  then show ?thesis unfolding close_all_def by (intro close_these_ok [OF assms d]) auto
qed

lemma close_visit_ok:
  assumes "log_ok lv A"
  shows "log_ok lv (close_visit E k r A)"
proof (cases "dget (al_visits A) k")
  case (Some v)
  with assms have "visit_key_of v = k" unfolding log_ok_def visit_ok_def by blast
  then have "log_ok lv (fold (closed E r) [v] (A\<lparr>al_visits := dpop (al_visits A) k\<rparr>))"
    using assms Some dget_vals [OF Some] by (intro close_these_ok [OF assms]) (auto simp: log_ok_def)
  with Some show ?thesis by (simp add: close_visit_def on_visits_def)
qed (simp add: close_visit_def assms)

lemma close_visit_lines [simp]:
  "e \<noteq> ''session_close'' \<Longrightarrow> lines_of e (al_lines (close_visit E k r A)) = lines_of e (al_lines A)"
  by (simp add: close_visit_def split: option.split)

lemma expire_lines [simp]: "e \<noteq> ''session_close'' \<Longrightarrow> lines_of e (al_lines (expire E now A)) = lines_of e (al_lines A)"
  by (simp add: expire_def expire_visits_def Let_def)

lemma close_all_lines [simp]: "e \<noteq> ''session_close'' \<Longrightarrow> lines_of e (al_lines (close_all E r A)) = lines_of e (al_lines A)"
  by (simp add: close_all_def)

section \<open>The middleware\<close>

lemma ws_events: "e \<in> set WS_EVENTS \<longleftrightarrow> e = ''project'' \<or> e = ''terminal'' \<or> e = ''display''"
  by (auto simp: WS_EVENTS_def)

lemma event_names:
  assumes "e \<in> snd ` set EVENTS"
  shows "e \<notin> {''session_open'', ''session_close''}" "w \<in> set WS_EVENTS \<Longrightarrow> e \<noteq> w @ ''_open'' \<and> e \<noteq> w @ ''_close''"
  using assms by (auto simp: EVENTS_def ws_events)

lemma event_for_in: "event_for m c = Some e \<Longrightarrow> e \<in> snd ` set EVENTS"
  unfolding event_for_def by (drule map_of_SomeD) force

lemma socket_names:
  assumes "e \<in> set WS_EVENTS"
  shows "e @ ''_open'' \<notin> {''session_open'', ''session_close''}" "e @ ''_close'' \<notin> {''session_open'', ''session_close''}"
    "w \<in> set WS_EVENTS \<Longrightarrow> (w @ ''_open'' = e @ ''_open'') = (w = e)" "w \<in> set WS_EVENTS \<Longrightarrow> w @ ''_open'' \<noteq> e @ ''_close''"
  using assms by (auto simp: ws_events)

lemma socket_line_ok:
  assumes "e \<in> set WS_EVENTS"
  shows "log_ok lv (record_line (e @ ''_open'') fs A) = log_ok lv A" "log_ok lv (record_line (e @ ''_close'') fs A) = log_ok lv A"
  by (rule record_line_ok, rule socket_names(1), rule assms) (rule record_line_ok, rule socket_names(2), rule assms)

lemma mw_begin_ok:
  assumes "log_ok lv A" "mw_begin E rq now A = (fl, A')"
  shows "flight_ok fl" "log_ok (\<lambda>k. lv k + (if holds k fl then 1 else 0)) A'"
    "w \<in> set WS_EVENTS \<Longrightarrow> lines_of (w @ ''_open'') (al_lines A') =
       lines_of (w @ ''_open'') (al_lines A) + (if fl_kind fl = SocketCall w then 1 else 0)"
    "w \<in> set WS_EVENTS \<Longrightarrow> lines_of (w @ ''_close'') (al_lines A') = lines_of (w @ ''_close'') (al_lines A)"
proof -
  obtain key A1 where kA: "mw_touch E rq now A = (key, A1)" by force
  have A1: "log_ok lv A1" "\<And>e. e \<noteq> ''session_open'' \<Longrightarrow> lines_of e (al_lines A1) = lines_of e (al_lines A)"
    using kA touch_ok(1,4) [OF assms(1)] assms(1) by (auto simp: mw_touch_def split: option.splits prod.splits)
  have w: "w @ ''_open'' \<noteq> ''session_open'' \<and> w @ ''_close'' \<noteq> ''session_open''" if "w \<in> set WS_EVENTS"
    using socket_names(1,2) [OF that] by auto
  let ?goal = "flight_ok fl \<and> log_ok (\<lambda>k. lv k + (if holds k fl then 1 else 0)) A' \<and> (w \<in> set WS_EVENTS \<longrightarrow>
    lines_of (w @ ''_open'') (al_lines A') = lines_of (w @ ''_open'') (al_lines A) + (if fl_kind fl = SocketCall w then 1 else 0) \<and>
    lines_of (w @ ''_close'') (al_lines A') = lines_of (w @ ''_close'') (al_lines A))"
  have ?goal
  proof (cases "rq_canonical rq \<in> set IGNORED \<or> event_for (mw_method rq) (rq_canonical rq) = None")
    case True
    with assms kA A1 w show ?thesis by (auto simp: mw_begin_def Let_def flight_ok_def holds_def split: if_splits)
  next
    case False
    then obtain e where e: "event_for (mw_method rq) (rq_canonical rq) = Some e" "rq_canonical rq \<notin> set IGNORED" by blast
    show ?thesis
    proof (cases "e \<in> set WS_EVENTS")
      case True
      have "log_ok (\<lambda>k. lv k + (if key = Some k then 1 else 0))
          (on_visits (socket_opened key) (record_line (e @ ''_open'') fs A1))" for fs
        using A1(1) True by (intro socket_opened_ok [of lv]) (simp_all add: socket_line_ok)
      then show ?thesis
        using assms(2) kA A1(2) e True w socket_names(3) [OF True, of w] socket_names(4) [of w e]
        by (auto simp: mw_begin_def Let_def flight_ok_def holds_def)
    next
      case False
      then have "A' = A1" "fl_kind fl = EventCall e" using assms(2) kA e by (auto simp: mw_begin_def Let_def)
      with A1 w event_for_in [OF e(1)] False show ?thesis by (simp add: flight_ok_def holds_def)
    qed
  qed
  then show "flight_ok fl" "log_ok (\<lambda>k. lv k + (if holds k fl then 1 else 0)) A'"
    "w \<in> set WS_EVENTS \<Longrightarrow> lines_of (w @ ''_open'') (al_lines A') =
       lines_of (w @ ''_open'') (al_lines A) + (if fl_kind fl = SocketCall w then 1 else 0)"
    "w \<in> set WS_EVENTS \<Longrightarrow> lines_of (w @ ''_close'') (al_lines A') = lines_of (w @ ''_close'') (al_lines A)"
    by blast+
qed

lemma end_event_ok:
  assumes "log_ok lv A" "e \<notin> {''session_open'', ''session_close''}"
  shows "log_ok lv (end_event E fl e oc now A)"
  using assms
  by (cases "fl_key fl"; cases "oc_status oc")
    (simp_all add: end_event_def Let_def record_line_ok add_project_ok close_visit_ok)

lemma end_plain_ok: "log_ok lv A \<Longrightarrow> log_ok lv (end_plain denied fl oc A)"
  by (auto simp: end_plain_def record_line_ok split: option.split)

lemma end_socket_ok:
  assumes "log_ok lv A" "e \<in> set WS_EVENTS" "\<And>k. lv' k = lv k - (if fl_key fl = Some k then 1 else 0)"
  shows "log_ok lv' (end_socket fl e oc now A)"
  using socket_closed_ok [OF assms(1,3)] assms(2)
  by (simp add: end_socket_def Let_def socket_line_ok add_project_ok split: option.split)

lemma end_event_lines:
  assumes "e \<in> snd ` set EVENTS" "w \<in> set WS_EVENTS" "x = w @ ''_open'' \<or> x = w @ ''_close''"
  shows "lines_of x (al_lines (end_event E fl e oc now A)) = lines_of x (al_lines A)"
proof -
  from event_names(2) [OF assms(1,2)] assms(3) have "e \<noteq> x" by blast
  moreover from socket_names(1,2) [OF assms(2)] assms(3) have "x \<noteq> ''session_close''" by auto
  ultimately show ?thesis by (auto simp: end_event_def Let_def split: option.split)
qed

lemma end_plain_lines:
  "w \<in> set WS_EVENTS \<Longrightarrow> x = w @ ''_open'' \<or> x = w @ ''_close'' \<Longrightarrow>
   lines_of x (al_lines (end_plain denied fl oc A)) = lines_of x (al_lines A)"
  by (auto simp: end_plain_def ws_events split: option.split)

lemma end_socket_lines:
  "lines_of x (al_lines (end_socket fl e oc now A)) = lines_of x (al_lines A) + (if x = e @ ''_close'' then 1 else 0)"
  by (auto simp: end_socket_def Let_def split: option.split)

lemma mw_end_ok:
  assumes "log_ok lv A" "flight_ok fl"
  shows "log_ok (\<lambda>k. lv k - (if holds k fl then 1 else 0)) (mw_end E fl oc now A)"
    "w \<in> set WS_EVENTS \<Longrightarrow> lines_of (w @ ''_open'') (al_lines (mw_end E fl oc now A)) = lines_of (w @ ''_open'') (al_lines A)"
    "w \<in> set WS_EVENTS \<Longrightarrow> lines_of (w @ ''_close'') (al_lines (mw_end E fl oc now A)) =
       lines_of (w @ ''_close'') (al_lines A) + (if fl_kind fl = SocketCall w then 1 else 0)"
proof -
  show "log_ok (\<lambda>k. lv k - (if holds k fl then 1 else 0)) (mw_end E fl oc now A)"
  proof (cases "fl_kind fl")
    case (SocketCall e)
    with assms show ?thesis by (auto simp: mw_end_def flight_ok_def holds_def intro: end_socket_ok)
  next
    case (EventCall e)
    with assms event_names(1) [of e] show ?thesis by (simp add: mw_end_def flight_ok_def holds_def end_event_ok)
  qed (use assms in \<open>simp_all add: mw_end_def holds_def end_plain_ok\<close>)
  show "lines_of (w @ ''_open'') (al_lines (mw_end E fl oc now A)) = lines_of (w @ ''_open'') (al_lines A)"
    "lines_of (w @ ''_close'') (al_lines (mw_end E fl oc now A)) =
       lines_of (w @ ''_close'') (al_lines A) + (if fl_kind fl = SocketCall w then 1 else 0)" if "w \<in> set WS_EVENTS"
    using assms(2) that socket_names(4)
    by (auto simp: mw_end_def flight_ok_def end_socket_lines end_plain_lines end_event_lines split: flight_kind.split)
qed

section \<open>The machine keeps its promises\<close>

lemma filter_dpop:
  "dict_ok d \<Longrightarrow> dget d n = Some x \<Longrightarrow>
   length (filter P (dpop d n)) = length (filter P d) - (if P (n, x) then 1 else 0)"
proof (induction d)
  case (Cons a d)
  show ?case
  proof (cases "fst a = n")
    case True
    with Cons.prems have "n \<notin> fst ` set d" "a = (n, x)" by (cases a; force simp: dict_ok_def)+
    then show ?thesis by (simp add: delete_idem)
  next
    case False
    with Cons.prems have "dict_ok d" "dget d n = Some x" by (cases a; simp add: dict_ok_def)+
    moreover from this have "P (n, x) \<Longrightarrow> 0 < length (filter P d)"
      by (metis dget_in filter_empty_conv length_greater_0_conv)
    ultimately show ?thesis using Cons.IH False by (cases a) auto
  qed
qed simp

lemma filter_dset_new: "dget d n = None \<Longrightarrow> length (filter P (dset d n x)) = length (filter P d) + (if P (n, x) then 1 else 0)"
  by (simp add: update_new map_of_eq_None_iff)

lemma log_step_inv:
  assumes "log_inv s" "log_step E s t"
  shows "log_inv t"
proof -
  from assms(2) obtain ev where ev: "exec_log E ev s = Some t" by (rule log_stepE)
  have fl: "dict_ok (ls_flights s)" "\<And>n fl. dget (ls_flights s) n = Some fl \<Longrightarrow> flight_ok fl"
    and A: "log_ok (live (ls_flights s)) (ls_log s)"
    and ws: "\<And>e. e \<in> set WS_EVENTS \<Longrightarrow> lines_of (e @ ''_open'') (al_lines (ls_log s)) =
        lines_of (e @ ''_close'') (al_lines (ls_log s)) + sockets_open (ls_flights s) e"
    using assms(1) by (auto simp: log_inv_def)
  have other: "log_inv t" if "ls_flights t = ls_flights s" "log_ok (live (ls_flights s)) (ls_log t)"
    "\<And>e. e \<in> set WS_EVENTS \<Longrightarrow> lines_of (e @ ''_open'') (al_lines (ls_log t)) = lines_of (e @ ''_open'') (al_lines (ls_log s)) \<and>
       lines_of (e @ ''_close'') (al_lines (ls_log t)) = lines_of (e @ ''_close'') (al_lines (ls_log s))"
    using that fl ws by (auto simp: log_inv_def)
  have names: "e @ ''_open'' \<notin> {''session_open'', ''session_close'', ''login'', ''login_failed''} \<and>
      e @ ''_close'' \<notin> {''session_open'', ''session_close'', ''login'', ''login_failed''}" if "e \<in> set WS_EVENTS" for e
    using that by (auto simp: ws_events)
  show ?thesis
  proof (cases ev)
    case (Arrive n rq now)
    obtain f B where b: "mw_begin E rq now (ls_log s) = (f, B)" by force
    with ev Arrive have t: "t = s\<lparr>ls_log := B, ls_flights := dset (ls_flights s) n f\<rparr>" "dget (ls_flights s) n = None"
      by (auto simp: exec_log_def split: if_splits)
    have "live (dset (ls_flights s) n f) = (\<lambda>k. live (ls_flights s) k + (if holds k f then 1 else 0))"
      by (rule ext) (simp add: live_def filter_dset_new [OF t(2)])
    moreover have "sockets_open (dset (ls_flights s) n f) e = sockets_open (ls_flights s) e + (if fl_kind f = SocketCall e then 1 else 0)" for e
      by (simp add: sockets_open_def filter_dset_new [OF t(2)])
    ultimately show ?thesis using fl ws mw_begin_ok [OF A b] by (auto simp: log_inv_def t)
  next
    case (Leave n oc now)
    with ev obtain f where f: "dget (ls_flights s) n = Some f"
      and t: "t = s\<lparr>ls_log := mw_end E f oc now (ls_log s), ls_flights := dpop (ls_flights s) n\<rparr>"
      by (auto simp: exec_log_def split: option.splits)
    have "live (dpop (ls_flights s) n) = (\<lambda>k. live (ls_flights s) k - (if holds k f then 1 else 0))"
      by (rule ext) (simp add: live_def filter_dpop [OF fl(1) f])
    moreover have "sockets_open (ls_flights s) e = sockets_open (dpop (ls_flights s) n) e + (if fl_kind f = SocketCall e then 1 else 0)" for e
      using filter_dpop [OF fl(1) f, of "\<lambda>(n, fl). fl_kind fl = SocketCall e"] dget_in [OF f]
        filter_empty_conv [of "\<lambda>(n, fl). fl_kind fl = SocketCall e" "ls_flights s"]
      by (cases "filter (\<lambda>(n, fl). fl_kind fl = SocketCall e) (ls_flights s)") (auto simp: sockets_open_def)
    ultimately show ?thesis using fl ws mw_end_ok [OF A fl(2) [OF f]] by (auto simp: log_inv_def t)
  next
    case (Signed rq i mode now)
    obtain v B where b: "touch E rq i now True (record_line ''login'' [(''login'', VStr (login i)), (''addr'', VStr (address E rq)),
       (''mode'', VStr mode), (''role'', VStr (role_text (role_of i))), (''anon'', VBool (anonymous i)),
       (''name'', VStr (fullname i)), (''group'', VStr (identity.group i))] (ls_log s)) = (v, B)" by force
    from ev Signed b have t: "t = s\<lparr>ls_log := B\<rparr>" by (simp add: exec_log_def log_login_def)
    from touch_ok(1,4) [OF _ b] A names show ?thesis by (intro other) (auto simp: t record_line_ok)
  next
    case (NotSigned rq who reason)
    with ev A names show ?thesis by (intro other) (auto simp: exec_log_def log_login_failed_def record_line_ok)
  next
    case (Expiry now)
    with ev A names show ?thesis by (intro other) (auto simp: exec_log_def expire_ok)
  next
    case Stopped
    with ev A names show ?thesis by (intro other) (auto simp: exec_log_def close_all_ok)
  qed
qed

lemma log_start_inv: "log_start s \<Longrightarrow> log_inv s"
  by (simp add: log_start_def log_inv_def log_ok_def session_run_def lines_of_def sockets_open_def)

interpretation lg: invariant_machine log_start "log_step E" log_inv for E
  by unfold_locales (auto intro: log_start_inv log_step_inv)

text \<open>C10: Whatever the order of the requests, the answers, the sign-ins, the expiries and the stop, the
  lines of the connection log tell of each login and address a session that is opened and closed in
  turn, and open exactly when the portal holds a session for them; each socket has been logged open,
  and closed when it is gone; a session has its own key, a duration that is not negative, each project
  once, and no more sockets than the requests in flight.\<close>

theorem access_log_invariant:
  assumes "log_start s" "(log_step E)\<^sup>*\<^sup>* s t"
  shows "(\<forall>k. session_run k (al_lines (ls_log t)) = Some (dget (al_visits (ls_log t)) k \<noteq> None)) \<and>
    (\<forall>e \<in> set WS_EVENTS. lines_of (e @ ''_open'') (al_lines (ls_log t)) =
       lines_of (e @ ''_close'') (al_lines (ls_log t)) + sockets_open (ls_flights t) e) \<and>
    (\<forall>k v. dget (al_visits (ls_log t)) k = Some v \<longrightarrow>
       visit_key_of v = k \<and> 0 \<le> duration v \<and> distinct (vi_projects v) \<and> vi_sockets v \<le> live (ls_flights t) k)"
  using lg.reach_inv [OF assms] by (simp add: log_inv_def log_ok_def visit_ok_def duration_def)

section \<open>The end of a session\<close>

lemma fold_closed_lines:
  "\<exists>ls. al_lines (fold (closed E r) gone A) = al_lines A @ ls \<and>
     (\<forall>v \<in> set gone. \<exists>l \<in> set ls. session_line (visit_key_of v) l = Some False \<and> dget l ''reason'' = Some (VStr r) \<and>
        dget l ''requests'' = Some (VInt (int (vi_requests v))))"
proof (induction gone arbitrary: A)
  case (Cons w gone)
  obtain l where l: "al_lines (closed E r w A) = al_lines A @ [l]" "session_line (visit_key_of w) l = Some False"
    "dget l ''reason'' = Some (VStr r)" "dget l ''requests'' = Some (VInt (int (vi_requests w)))"
    by (simp add: closed_def session_line_def visit_key_of_def)
  from Cons.IH [of "closed E r w A"] obtain ls where ls: "al_lines (fold (closed E r) gone (closed E r w A)) = (al_lines A @ [l]) @ ls"
    "\<forall>v \<in> set gone. \<exists>l \<in> set ls. session_line (visit_key_of v) l = Some False \<and> dget l ''reason'' = Some (VStr r) \<and>
        dget l ''requests'' = Some (VInt (int (vi_requests v)))" unfolding l(1) by blast
  show ?case by (intro exI [of _ "l # ls"]) (use l ls in auto)
qed simp

lemma expire_visits_dget:
  assumes "log_ok lv A" "dget (al_visits A) k = Some v"
  shows "dget (al_visits (expire E now A)) k = (if expired now (ae_timeout E) v then None else Some v)"
proof -
  have k: "visit_key_of v = k" using assms unfolding log_ok_def visit_ok_def by blast
  have only: "w = v" if "w \<in> set (vals_of (al_visits A))" "visit_key_of w = k" for w
    using log_ok_vals [OF assms(1) that(1)] that(2) assms(2) by simp
  have "k \<in> visit_key_of ` set (filter (expired now (ae_timeout E)) (vals_of (al_visits A)))
      \<longleftrightarrow> expired now (ae_timeout E) v" (is "?l \<longleftrightarrow> ?r")
  proof
    assume ?l
    then obtain w where "w \<in> set (vals_of (al_visits A))" "expired now (ae_timeout E) w" "visit_key_of w = k" by auto
    with only [of w] show ?r by simp
  next
    assume ?r
    with dget_vals [OF assms(2)] show ?l by (intro image_eqI [of _ _ v]) (simp_all add: k)
  qed
  with assms(2) show ?thesis by (simp add: expire_def expire_visits_def Let_def dget_fold_dpop)
qed

text \<open>The expiry ends the sessions left alone: a session none of whose sockets is open, and that
  made no request for the time configured, is removed, and logged closed as idle with its number of
  requests; no session that counts a socket, or that was heard of since, is touched.\<close>

theorem quiet_session_ends:
  assumes "log_start s" "(log_step E)\<^sup>*\<^sup>* s t" "dget (al_visits (ls_log t)) k = Some v"
    and "exec_log E (Expiry now) t = Some u"
  shows "(live (ls_flights t) k = 0 \<and> ae_timeout E \<le> now - vi_last v \<longrightarrow>
       dget (al_visits (ls_log u)) k = None \<and>
       (\<exists>ls. al_lines (ls_log u) = al_lines (ls_log t) @ ls \<and> (\<exists>l \<in> set ls. session_line k l = Some False \<and>
          dget l ''reason'' = Some (VStr ''idle'') \<and> dget l ''requests'' = Some (VInt (int (vi_requests v)))))) \<and>
    (0 < vi_sockets v \<or> now - vi_last v < ae_timeout E \<longrightarrow> dget (al_visits (ls_log u)) k = Some v)"
proof -
  let ?A = "ls_log t"
  from lg.reach_inv [OF assms(1,2)] have ok: "log_ok (live (ls_flights t)) ?A" by (simp add: log_inv_def)
  with assms(3) have v: "visit_ok (live (ls_flights t)) k v" unfolding log_ok_def by blast
  from assms(4) have u: "ls_log u = expire E now ?A" by (auto simp: exec_log_def)
  note gone = expire_visits_dget [OF ok assms(3), of E now]
  have line: "\<exists>ls. al_lines (expire E now ?A) = al_lines ?A @ ls \<and> (\<exists>l \<in> set ls. session_line k l = Some False \<and>
      dget l ''reason'' = Some (VStr ''idle'') \<and> dget l ''requests'' = Some (VInt (int (vi_requests v))))"
    if "expired now (ae_timeout E) v"
  proof -
    let ?gone = "filter (expired now (ae_timeout E)) (vals_of (al_visits ?A))"
    from that dget_vals [OF assms(3)] have "v \<in> set ?gone" by simp
    with fold_closed_lines [of E "''idle''" ?gone "?A\<lparr>al_visits := fold (\<lambda>v vs. dpop vs (visit_key_of v)) ?gone (al_visits ?A)\<rparr>"] v
    show ?thesis by (force simp: expire_def expire_visits_def Let_def visit_ok_def)
  qed
  from v gone line show ?thesis by (auto simp: u expired_def visit_ok_def)
qed

section \<open>Runs\<close>

fun run_log :: "access_env \<Rightarrow> log_event list \<Rightarrow> log_state \<Rightarrow> log_state option" where
  "run_log E [] s = Some s"
| "run_log E (ev # evs) s = (case exec_log E ev s of None \<Rightarrow> None | Some t \<Rightarrow> run_log E evs t)"

lemma run_log_steps: "run_log E evs s = Some t \<Longrightarrow> (log_step E)\<^sup>*\<^sup>* s t"
  by (induction evs arbitrary: s) (auto split: option.splits intro: converse_rtranclp_into_rtranclp happens)

definition visitor :: identity where
  "visitor = \<lparr>login = ''bob'', fullname = ''Bob'', email = [], role_of = Student, language = ''en'', anonymous = False,
     view_of = StudentView, group = [], administrator = False\<rparr>"

definition demo_request :: "string \<Rightarrow> string \<Rightarrow> identity option \<Rightarrow> request" where
  "demo_request mth canonical who = \<lparr>rq_method = mth, rq_canonical = canonical, rq_path = canonical, rq_identity = who,
     rq_remote = ''h'', rq_xff = [], rq_agent = [], rq_info = [], rq_query = []\<rparr>"

definition answered :: "int option option \<Rightarrow> outcome" where
  "answered c = \<lparr>oc_status = Some 200, oc_extra = [], oc_socket = c\<rparr>"

definition PROJECT_PAGE :: string where "PROJECT_PAGE = ''/api/projects/{host}/{rln}/events''"

definition demo_log_env :: access_env where
  "demo_log_env = \<lparr>ae_addresses = (\<lambda>_. []), ae_address_text = (\<lambda>_. None), ae_networks = [], ae_iso = (\<lambda>_. []), ae_timeout = 60\<rparr>"

definition lost_session :: "log_event list" where
  "lost_session = [Signed (demo_request ''POST'' ''/login'' None) visitor ''ldap'' 0,
     Arrive 1 (demo_request ''GET'' PROJECT_PAGE (Some visitor)) 1,
     Arrive 2 (demo_request ''POST'' ''/logout'' (Some visitor)) 2, Leave 2 (answered None) 2,
     Signed (demo_request ''POST'' ''/login'' None) visitor ''ldap'' 3,
     Arrive 3 (demo_request ''GET'' PROJECT_PAGE (Some visitor)) 4]"

lemma lost_session_run:
  "map_option (\<lambda>t. (map_option vi_sockets (dget (al_visits (ls_log t)) (''bob'', ''h'')), live (ls_flights t) (''bob'', ''h''),
       sockets_open (ls_flights t) ''project''))
     (run_log demo_log_env lost_session \<lparr>ls_log = \<lparr>al_visits = [], al_lines = []\<rparr>, ls_flights = []\<rparr>) = Some (Some 1, 2, 2)"
  by code_simp

theorem access_log_invariant_witness:
  "\<exists>t :: log_state. session_run (''bob'', ''h'') (al_lines (ls_log t)) = Some True \<and> live (ls_flights t) (''bob'', ''h'') = 2 \<and>
     lines_of ''project_open'' (al_lines (ls_log t)) = lines_of ''project_close'' (al_lines (ls_log t)) + 2"
proof -
  obtain t where t: "run_log demo_log_env lost_session \<lparr>ls_log = \<lparr>al_visits = [], al_lines = []\<rparr>, ls_flights = []\<rparr> = Some t"
    "dget (al_visits (ls_log t)) (''bob'', ''h'') \<noteq> None" "live (ls_flights t) (''bob'', ''h'') = 2"
    "sockets_open (ls_flights t) ''project'' = 2"
    using lost_session_run by auto
  have "log_start \<lparr>ls_log = \<lparr>al_visits = [], al_lines = []\<rparr>, ls_flights = []\<rparr>" by (simp add: log_start_def)
  note inv = access_log_invariant [OF this run_log_steps [OF t(1)]]
  then have "session_run (''bob'', ''h'') (al_lines (ls_log t)) = Some (dget (al_visits (ls_log t)) (''bob'', ''h'') \<noteq> None)"
    by blast
  with t(2) have "session_run (''bob'', ''h'') (al_lines (ls_log t)) = Some True" by simp
  moreover have "''project'' \<in> set WS_EVENTS" by (simp add: WS_EVENTS_def)
  with inv t(4) have "lines_of (''project'' @ ''_open'') (al_lines (ls_log t)) = lines_of (''project'' @ ''_close'') (al_lines (ls_log t)) + 2"
    by metis
  ultimately show ?thesis using t(3) by (intro exI [of _ t]) simp
qed

lemma end_socket_visit:
  assumes "fl_key fl = Some k" "dget (al_visits A) k = Some v"
  shows "\<exists>v'. dget (al_visits (end_socket fl e oc now A)) k = Some v' \<and>
    vi_sockets v' = vi_sockets v - 1 \<and> vi_last v' = max (vi_last v) now"
  using assms by (auto simp: end_socket_def Let_def socket_closed_def add_project_def split: option.split)

text \<open>C39: The count of the sockets of a session is wrong after a sign-out while a page is still open:
  the socket of the old session, when it closes, is taken from the count of the new one. In any
  history, when a session counts one socket and two of its keys are open, the end of one of them
  and the expiry close the session as idle although the page of the other one is still open.\<close>

theorem session_forgets_socket:
  assumes "log_start s" "(log_step E)\<^sup>*\<^sup>* s t" "dget (al_visits (ls_log t)) k = Some v" "vi_sockets v = 1"
    and "dget (ls_flights t) n = Some fl" "dget (ls_flights t) m = Some fl'" "n \<noteq> m" "holds k fl" "holds k fl'"
    and "exec_log E (Leave n oc now) t = Some u" "exec_log E (Expiry later) u = Some w"
    and "max (vi_last v) now + ae_timeout E \<le> later"
  shows "dget (al_visits (ls_log w)) k = None \<and> 0 < live (ls_flights w) k"
proof -
  from assms(5,10) have u: "ls_log u = mw_end E fl oc now (ls_log t)" "ls_flights u = dpop (ls_flights t) n"
    by (auto simp: exec_log_def)
  from assms(8) obtain e where fl: "fl_kind fl = SocketCall e" "fl_key fl = Some k"
    by (auto simp: holds_def split: flight_kind.splits)
  from end_socket_visit [OF fl(2) assms(3), of e oc now] obtain v' where
    v': "dget (al_visits (ls_log u)) k = Some v'" "vi_sockets v' = 0" "vi_last v' = max (vi_last v) now"
    using assms(4) by (auto simp: u(1) mw_end_def fl(1))
  have "log_step E t u" using assms(10) by (rule happens)
  with assms(2) have "(log_step E)\<^sup>*\<^sup>* s u" by (rule rtranclp.rtrancl_into_rtrancl)
  from lg.reach_inv [OF assms(1) this] have "log_ok (live (ls_flights u)) (ls_log u)" by (simp add: log_inv_def)
  from expire_visits_dget [OF this v'(1), of E later] v'(2,3) assms(12)
  have "dget (al_visits (expire E later (ls_log u))) k = None" by (simp add: expired_def)
  moreover from assms(11) have w: "ls_log w = expire E later (ls_log u)" "ls_flights w = ls_flights u"
    by (auto simp: exec_log_def)
  moreover from assms(6,7) have "(m, fl') \<in> set (ls_flights w)" by (intro dget_in) (simp add: w(2) u(2))
  then have "0 < live (ls_flights w) k" using assms(9) by (auto simp: live_def filter_empty_conv)
  ultimately show ?thesis by simp
qed

lemma lost_session_state:
  obtains t v fl fl' where "run_log demo_log_env lost_session \<lparr>ls_log = \<lparr>al_visits = [], al_lines = []\<rparr>, ls_flights = []\<rparr> = Some t"
    "dget (al_visits (ls_log t)) (''bob'', ''h'') = Some v" "vi_sockets v = 1" "vi_last v = 4"
    "dget (ls_flights t) 1 = Some fl" "holds (''bob'', ''h'') fl" "dget (ls_flights t) 3 = Some fl'" "holds (''bob'', ''h'') fl'"
proof -
  have "map_option (\<lambda>t. (map_option (\<lambda>v. (vi_sockets v, vi_last v)) (dget (al_visits (ls_log t)) (''bob'', ''h'')),
       map_option (holds (''bob'', ''h'')) (dget (ls_flights t) 1), map_option (holds (''bob'', ''h'')) (dget (ls_flights t) 3)))
     (run_log demo_log_env lost_session \<lparr>ls_log = \<lparr>al_visits = [], al_lines = []\<rparr>, ls_flights = []\<rparr>) =
     Some (Some (1, 4), Some True, Some True)"
    by code_simp
  then show thesis using that by auto
qed

theorem session_forgets_socket_witness:
  "\<exists>w :: log_state. dget (al_visits (ls_log w)) (''bob'', ''h'') = None \<and> 0 < live (ls_flights w) (''bob'', ''h'')"
proof -
  let ?s = "\<lparr>ls_log = \<lparr>al_visits = [], al_lines = []\<rparr>, ls_flights = []\<rparr> :: log_state"
  obtain t v fl fl' where t: "run_log demo_log_env lost_session ?s = Some t"
    "dget (al_visits (ls_log t)) (''bob'', ''h'') = Some v" "vi_sockets v = 1" "vi_last v = 4"
    "dget (ls_flights t) 1 = Some fl" "holds (''bob'', ''h'') fl" "dget (ls_flights t) 3 = Some fl'" "holds (''bob'', ''h'') fl'"
    by (rule lost_session_state)
  obtain u where u: "exec_log demo_log_env (Leave 1 (answered (Some None)) 5) t = Some u" using t(5) by (simp add: exec_log_def)
  obtain w where w: "exec_log demo_log_env (Expiry 100) u = Some w" by (simp add: exec_log_def)
  have "log_start ?s" by (simp add: log_start_def)
  from session_forgets_socket [OF this run_log_steps [OF t(1)] t(2,3,5,7) _ t(6,8) u w] t(4) show ?thesis
    by (auto simp: demo_log_env_def)
qed

theorem quiet_session_ends_witness:
  "\<exists>u :: log_state. dget (al_visits (ls_log u)) (''bob'', ''h'') = None"
proof -
  let ?s = "\<lparr>ls_log = \<lparr>al_visits = [], al_lines = []\<rparr>, ls_flights = []\<rparr> :: log_state"
  let ?evs = "[Signed (demo_request ''POST'' ''/login'' None) visitor ''ldap'' 0]"
  have "map_option (\<lambda>t. (map_option vi_last (dget (al_visits (ls_log t)) (''bob'', ''h'')), live (ls_flights t) (''bob'', ''h'')))
     (run_log demo_log_env ?evs ?s) = Some (Some 0, 0)" by code_simp
  then obtain t v where t: "run_log demo_log_env ?evs ?s = Some t" "dget (al_visits (ls_log t)) (''bob'', ''h'') = Some v"
    "vi_last v = 0" "live (ls_flights t) (''bob'', ''h'') = 0" by auto
  obtain u where u: "exec_log demo_log_env (Expiry 60) t = Some u" by (simp add: exec_log_def)
  have "log_start ?s" by (simp add: log_start_def)
  from quiet_session_ends [OF this run_log_steps [OF t(1)] t(2) u] t(3,4) show ?thesis
    by (auto simp: demo_log_env_def)
qed

end
