(* ===== verification/Role_Cache.thy ===== *)
theory Role_Cache
  imports Identity
begin

text \<open>
  The roles and groups looked up in the directory, kept per login (\<^verbatim>\<open>src/src/sreweb/portal/roles.py\<close>):
  \<open>RoleCache.get\<close> with its lock per login, as the steps between two awaits of a caller, and
  \<open>complete_owners\<close>, which completes the rows of the Watch page. The directory
  (\<open>LdapRoleResolver.resolve\<close>, in a thread) is what the environment answers. A lock is asyncio's: it
  is given to its waiters in the order they came, and a caller that finds it free while others wait
  goes behind them.
\<close>

section \<open>The cache\<close>

record directory_lookup =
  dl_role :: role
  dl_group :: string
  dl_administrator :: bool
  dl_fullname :: string

definition no_lookup :: directory_lookup where
  "no_lookup = \<lparr>dl_role = Student, dl_group = [], dl_administrator = False, dl_fullname = []\<rparr>"

record task_lock =
  tl_held :: bool
  tl_waiters :: "nat list"

record role_cache =
  rc_ttl :: real
  rc_negative_ttl :: real
  rc_roles :: "(string \<times> directory_lookup \<times> real) list"
  rc_locks :: "(string \<times> task_lock) list"
  rc_warned :: "string list"
  rc_lookups :: nat

text \<open>Where a call of \<open>get\<close> is: behind the lock of its login, or in its lookup.\<close>

datatype caller = Waiting string | Looking string

text \<open>What the calls did, in order: a lookup started, done (with what is kept, until when) or given up
  with its caller, an entry forgotten, an answer.\<close>

datatype cache_note = Started string real | Finished string directory_lookup real | Abandoned string
  | Forgot string | Answered nat string directory_lookup real

record cache_state =
  cs_cache :: role_cache
  cs_callers :: "(nat \<times> caller) list"
  cs_notes :: "cache_note list"

definition cached :: "role_cache \<Rightarrow> string \<Rightarrow> real \<Rightarrow> directory_lookup option" where
  "cached R who now = (case dget (rc_roles R) who of
     None \<Rightarrow> None | Some (d, expires) \<Rightarrow> if now < expires then Some d else None)"

definition lock_of :: "role_cache \<Rightarrow> string \<Rightarrow> task_lock" where
  "lock_of R who = (case dget (rc_locks R) who of None \<Rightarrow> \<lparr>tl_held = False, tl_waiters = []\<rparr> | Some l \<Rightarrow> l)"

definition put_lock :: "string \<Rightarrow> task_lock \<Rightarrow> cache_state \<Rightarrow> cache_state" where
  "put_lock who l s = s\<lparr>cs_cache := (cs_cache s)\<lparr>rc_locks := dset (rc_locks (cs_cache s)) who l\<rparr>\<rparr>"

definition note_that :: "cache_note \<Rightarrow> cache_state \<Rightarrow> cache_state" where
  "note_that e s = s\<lparr>cs_notes := cs_notes s @ [e]\<rparr>"

text \<open>Inside the lock: the cached lookup if it came meanwhile, else a lookup in a thread.\<close>

definition locked_part :: "nat \<Rightarrow> string \<Rightarrow> real \<Rightarrow> cache_state \<Rightarrow> cache_state" where
  "locked_part n who now s = (case cached (cs_cache s) who now of
     Some d \<Rightarrow> note_that (Answered n who d now) (put_lock who ((lock_of (cs_cache s) who)\<lparr>tl_held := False\<rparr>)
       (s\<lparr>cs_callers := dpop (cs_callers s) n\<rparr>))
   | None \<Rightarrow> note_that (Started who now)
       (s\<lparr>cs_cache := (cs_cache s)\<lparr>rc_lookups := Suc (rc_lookups (cs_cache s))\<rparr>,
          cs_callers := dset (cs_callers s) n (Looking who)\<rparr>))"

text \<open>\<open>get\<close>, up to its first await: the answer of the cache, or the lock.\<close>

definition get_role :: "nat \<Rightarrow> string \<Rightarrow> real \<Rightarrow> cache_state \<Rightarrow> cache_state" where
  "get_role n who now s = (case cached (cs_cache s) who now of
     Some d \<Rightarrow> note_that (Answered n who d now) s
   | None \<Rightarrow> (let l = lock_of (cs_cache s) who
       in if \<not> tl_held l \<and> tl_waiters l = []
          then locked_part n who now (put_lock who (l\<lparr>tl_held := True\<rparr>) s)
          else (put_lock who (l\<lparr>tl_waiters := tl_waiters l @ [n]\<rparr>) s)\<lparr>cs_callers := dset (cs_callers s) n (Waiting who)\<rparr>))"

text \<open>A waiter gets the lock.\<close>

definition resume :: "nat \<Rightarrow> string \<Rightarrow> real \<Rightarrow> cache_state \<Rightarrow> cache_state" where
  "resume n who now s = locked_part n who now
     (put_lock who \<lparr>tl_held = True, tl_waiters = removeAll n (tl_waiters (lock_of (cs_cache s) who))\<rparr> s)"

text \<open>The lookup of a caller is over, with what the directory says or with the message of the exception;
  a failure is kept as the lookup of a student, for another time.\<close>

definition finish :: "nat \<Rightarrow> string \<Rightarrow> string + directory_lookup \<Rightarrow> real \<Rightarrow> cache_state \<Rightarrow> cache_state" where
  "finish n who answer now s =
     (let R = cs_cache s;
          (found, expires, warned) = (case answer of
             Inr d \<Rightarrow> (d, now + rc_ttl R, rc_warned R)
           | Inl msg \<Rightarrow> (no_lookup, now + rc_negative_ttl R, ladd (rc_warned R) msg))
      in note_that (Answered n who found now) (note_that (Finished who found expires)
           (put_lock who ((lock_of R who)\<lparr>tl_held := False\<rparr>)
             (s\<lparr>cs_cache := R\<lparr>rc_roles := dset (rc_roles R) who (found, expires), rc_warned := warned\<rparr>,
                cs_callers := dpop (cs_callers s) n\<rparr>))))"

text \<open>The caller is cancelled (its browser left): a waiter leaves the queue, a lookup frees the lock and
  keeps nothing.\<close>

definition cancel :: "nat \<Rightarrow> cache_state \<Rightarrow> cache_state" where
  "cancel n s = (case dget (cs_callers s) n of
     None \<Rightarrow> s
   | Some (Waiting who) \<Rightarrow>
       (let l = lock_of (cs_cache s) who
        in (put_lock who (l\<lparr>tl_waiters := removeAll n (tl_waiters l)\<rparr>) s)\<lparr>cs_callers := dpop (cs_callers s) n\<rparr>)
   | Some (Looking who) \<Rightarrow>
       note_that (Abandoned who) ((put_lock who ((lock_of (cs_cache s) who)\<lparr>tl_held := False\<rparr>) s)
         \<lparr>cs_callers := dpop (cs_callers s) n\<rparr>))"

definition forget :: "string option \<Rightarrow> cache_state \<Rightarrow> cache_state" where
  "forget who s = (case who of
     None \<Rightarrow> s\<lparr>cs_cache := (cs_cache s)\<lparr>rc_roles := []\<rparr>, cs_notes := cs_notes s @ map Forgot (keys_of (rc_roles (cs_cache s)))\<rparr>
   | Some l \<Rightarrow> note_that (Forgot l) (s\<lparr>cs_cache := (cs_cache s)\<lparr>rc_roles := dpop (rc_roles (cs_cache s)) l\<rparr>\<rparr>))"

section \<open>The machine\<close>

datatype cache_event = Ask nat string real | Woken nat real | Answer nat "string + directory_lookup" real
  | Cancelled nat | Forgotten "string option"

definition exec_cache :: "cache_event \<Rightarrow> cache_state \<Rightarrow> cache_state option" where
  "exec_cache ev s = (case ev of
     Ask n who now \<Rightarrow> if dget (cs_callers s) n \<noteq> None then None else Some (get_role n who now s)
   | Woken n now \<Rightarrow> (case dget (cs_callers s) n of
       Some (Waiting who) \<Rightarrow>
         (let l = lock_of (cs_cache s) who
          in if \<not> tl_held l \<and> tl_waiters l \<noteq> [] \<and> hd (tl_waiters l) = n then Some (resume n who now s) else None)
     | _ \<Rightarrow> None)
   | Answer n a now \<Rightarrow> (case dget (cs_callers s) n of
       Some (Looking who) \<Rightarrow> Some (finish n who a now s) | _ \<Rightarrow> None)
   | Cancelled n \<Rightarrow> if dget (cs_callers s) n = None then None else Some (cancel n s)
   | Forgotten who \<Rightarrow> Some (forget who s))"

inductive cache_step :: "cache_state \<Rightarrow> cache_state \<Rightarrow> bool" where
  happens: "exec_cache ev s = Some t \<Longrightarrow> cache_step s t"

inductive_cases cache_stepE: "cache_step s t"

definition cache_start :: "real \<Rightarrow> real \<Rightarrow> cache_state" where
  "cache_start ttl negative_ttl = \<lparr>cs_cache = \<lparr>rc_ttl = ttl, rc_negative_ttl = negative_ttl, rc_roles = [], rc_locks = [],
     rc_warned = [], rc_lookups = 0\<rparr>, cs_callers = [], cs_notes = []\<rparr>"

section \<open>The rows of the Watch page\<close>

record watch_row =
  wr_owner :: string
  wr_group :: string
  wr_fullname :: string
  wr_managed :: "bool option"

definition managed :: "watch_row \<Rightarrow> bool" where
  "managed r \<longleftrightarrow> wr_managed r \<noteq> Some False"

definition wanted_row :: "watch_row \<Rightarrow> bool" where
  "wanted_row r \<longleftrightarrow> wr_group r = [] \<or> \<not> managed r"

definition logins_wanted :: "watch_row list \<Rightarrow> string list" where
  "logins_wanted rows = filter is_valid_login (sort (remdups (map wr_owner (filter wanted_row rows))))"

definition complete_row :: "(string \<times> directory_lookup) list \<Rightarrow> watch_row \<Rightarrow> watch_row" where
  "complete_row found r = (case dget found (wr_owner r) of
     None \<Rightarrow> r
   | Some d \<Rightarrow>
       (let r' = (if wr_group r = [] \<and> dl_group d \<noteq> [] then r\<lparr>wr_group := dl_group d\<rparr> else r)
        in if \<not> managed r' \<and> dl_fullname d \<noteq> [] then r'\<lparr>wr_fullname := dl_fullname d\<rparr> else r'))"

text \<open>\<open>answers\<close>: what \<open>get\<close> gives for each login.\<close>

definition complete_owners :: "(string \<Rightarrow> directory_lookup) \<Rightarrow> watch_row list \<Rightarrow> watch_row list" where
  "complete_owners answers rows =
     (let logins = logins_wanted rows
      in if logins = [] then rows else map (complete_row (map (\<lambda>l. (l, answers l)) logins)) rows)"

end
