(* ===== verification/Role_Cache_Safety.thy ===== *)
theory Role_Cache_Safety
  imports Role_Cache
begin

text \<open>
  The cache of the directory against what it stands for: one login at a time, a lookup in flight or
  not, and the last lookup with its end. The notes of every interleaving of the callers are those
  this specification allows, the callers behind a lock share one lookup, and no caller is left
  behind a lock nobody holds.
\<close>

section \<open>The specification\<close>

record directory_state =
  ds_busy :: bool
  ds_kept :: "(directory_lookup \<times> real) option"

fun note_login :: "cache_note \<Rightarrow> string" where
  "note_login (Started l _) = l"
| "note_login (Finished l _ _) = l"
| "note_login (Abandoned l) = l"
| "note_login (Forgot l) = l"
| "note_login (Answered _ l _ _) = l"

text \<open>A lookup starts when none is in flight and nothing is kept that still holds; an answer is what
  is kept, before its end.\<close>

definition spec_allows :: "directory_state \<Rightarrow> cache_note \<Rightarrow> bool" where
  "spec_allows d e = (case e of
     Started _ t \<Rightarrow> \<not> ds_busy d \<and> (case ds_kept d of None \<Rightarrow> True | Some (x, expires) \<Rightarrow> expires \<le> t)
   | Finished _ _ _ \<Rightarrow> ds_busy d
   | Abandoned _ \<Rightarrow> ds_busy d
   | Forgot _ \<Rightarrow> True
   | Answered _ _ x t \<Rightarrow> (case ds_kept d of None \<Rightarrow> False | Some (y, expires) \<Rightarrow> x = y \<and> t \<le> expires))"

definition spec_does :: "directory_state \<Rightarrow> cache_note \<Rightarrow> directory_state" where
  "spec_does d e = (case e of
     Started _ _ \<Rightarrow> d\<lparr>ds_busy := True\<rparr>
   | Finished _ x expires \<Rightarrow> \<lparr>ds_busy = False, ds_kept = Some (x, expires)\<rparr>
   | Abandoned _ \<Rightarrow> d\<lparr>ds_busy := False\<rparr>
   | Forgot _ \<Rightarrow> d\<lparr>ds_kept := None\<rparr>
   | Answered _ _ _ _ \<Rightarrow> d)"

definition spec_next :: "string \<Rightarrow> directory_state option \<Rightarrow> cache_note \<Rightarrow> directory_state option" where
  "spec_next l st e = (case st of None \<Rightarrow> None
   | Some d \<Rightarrow> if note_login e \<noteq> l then Some d else if spec_allows d e then Some (spec_does d e) else None)"

definition spec_run :: "string \<Rightarrow> cache_note list \<Rightarrow> directory_state option" where
  "spec_run l es = foldl (spec_next l) (Some \<lparr>ds_busy = False, ds_kept = None\<rparr>) es"

text \<open>The state of a login in the code.\<close>

definition looking :: "cache_state \<Rightarrow> string \<Rightarrow> bool" where
  "looking s l \<longleftrightarrow> (\<exists>n. dget (cs_callers s) n = Some (Looking l))"

definition directory_of :: "cache_state \<Rightarrow> string \<Rightarrow> directory_state" where
  "directory_of s l = \<lparr>ds_busy = looking s l, ds_kept = dget (rc_roles (cs_cache s)) l\<rparr>"

abbreviation waiters :: "cache_state \<Rightarrow> string \<Rightarrow> nat list" where
  "waiters s l \<equiv> tl_waiters (lock_of (cs_cache s) l)"

abbreviation held :: "cache_state \<Rightarrow> string \<Rightarrow> bool" where
  "held s l \<equiv> tl_held (lock_of (cs_cache s) l)"

definition obeys :: "cache_state \<Rightarrow> bool" where
  "obeys s \<longleftrightarrow> (\<forall>l. spec_run l (cs_notes s) = Some (directory_of s l))"

definition queues_ok :: "cache_state \<Rightarrow> bool" where
  "queues_ok s \<longleftrightarrow> (\<forall>l. held s l = looking s l \<and> distinct (waiters s l) \<and>
     (\<forall>n. n \<in> set (waiters s l) \<longleftrightarrow> dget (cs_callers s) n = Some (Waiting l)))"

definition one_lookup :: "cache_state \<Rightarrow> bool" where
  "one_lookup s \<longleftrightarrow> (\<forall>n m l. dget (cs_callers s) n = Some (Looking l) \<longrightarrow> dget (cs_callers s) m = Some (Looking l) \<longrightarrow> n = m)"

definition cache_inv :: "cache_state \<Rightarrow> bool" where
  "cache_inv s \<longleftrightarrow> 0 \<le> rc_ttl (cs_cache s) \<and> 0 \<le> rc_negative_ttl (cs_cache s) \<and> obeys s \<and> queues_ok s \<and> one_lookup s"

section \<open>The steps\<close>

lemma spec_run_snoc [simp]: "spec_run l (es @ [e]) = spec_next l (spec_run l es) e"
  by (simp add: spec_run_def)

lemma spec_run_two [simp]: "spec_run l (es @ [e, e']) = spec_next l (spec_next l (spec_run l es) e) e'"
  by (simp add: spec_run_def)

lemma note_that_simps [simp]:
  "cs_cache (note_that e s) = cs_cache s" "cs_callers (note_that e s) = cs_callers s" "cs_notes (note_that e s) = cs_notes s @ [e]"
  by (simp_all add: note_that_def)

lemma put_lock_simps [simp]:
  "lock_of (cs_cache (put_lock who l s)) x = (if x = who then l else lock_of (cs_cache s) x)"
  "cs_callers (put_lock who l s) = cs_callers s" "cs_notes (put_lock who l s) = cs_notes s"
  "rc_roles (cs_cache (put_lock who l s)) = rc_roles (cs_cache s)" "rc_ttl (cs_cache (put_lock who l s)) = rc_ttl (cs_cache s)"
  "rc_negative_ttl (cs_cache (put_lock who l s)) = rc_negative_ttl (cs_cache s)"
  "rc_lookups (cs_cache (put_lock who l s)) = rc_lookups (cs_cache s)"
  by (simp_all add: put_lock_def lock_of_def)

lemma directory_of_note [simp]: "looking (note_that e s) l = looking s l" "directory_of (note_that e s) l = directory_of s l"
  by (simp_all add: looking_def directory_of_def)

lemma cached_put_lock [simp]: "cached (cs_cache (put_lock who l s)) x now = cached (cs_cache s) x now"
  by (simp add: cached_def)

lemma lock_of_other [simp]:
  "lock_of (R\<lparr>rc_lookups := a\<rparr>) x = lock_of R x" "lock_of (R\<lparr>rc_roles := b\<rparr>) x = lock_of R x" "lock_of (R\<lparr>rc_warned := c\<rparr>) x = lock_of R x"
  by (simp_all add: lock_of_def)

lemma cached_Some: "cached R who now = Some d \<longleftrightarrow> (\<exists>expires. dget (rc_roles R) who = Some (d, expires) \<and> now < expires)"
  by (auto simp: cached_def split: option.splits)

lemma cached_None: "cached R who now = None \<longleftrightarrow> (case dget (rc_roles R) who of None \<Rightarrow> True | Some (x, expires) \<Rightarrow> expires \<le> now)"
  by (auto simp: cached_def split: option.splits)

text \<open>The state of a caller that has just got the lock of \<open>who\<close>.\<close>

definition has_lock :: "nat \<Rightarrow> string \<Rightarrow> cache_state \<Rightarrow> bool" where
  "has_lock n who s \<longleftrightarrow> 0 \<le> rc_ttl (cs_cache s) \<and> 0 \<le> rc_negative_ttl (cs_cache s) \<and> obeys s \<and> one_lookup s \<and>
     \<not> looking s who \<and> dget (cs_callers s) n \<in> {None, Some (Waiting who)} \<and>
     (\<forall>l. held s l = (l = who \<or> looking s l) \<and> distinct (waiters s l) \<and>
       (\<forall>m. m \<in> set (waiters s l) \<longleftrightarrow> m \<noteq> n \<and> dget (cs_callers s) m = Some (Waiting l)))"

lemma locked_part_inv:
  assumes "has_lock n who s"
  shows "cache_inv (locked_part n who now s)"
proof -
  have n: "dget (cs_callers s) n \<noteq> Some (Looking l)" for l using assms by (auto simp: has_lock_def)
  have run: "spec_run l (cs_notes s) = Some (directory_of s l)" for l using assms by (simp add: has_lock_def obeys_def)
  have idle: "\<not> looking s who" using assms by (simp add: has_lock_def)
  show ?thesis
  proof (cases "cached (cs_cache s) who now")
    case None
    let ?t = "s\<lparr>cs_cache := (cs_cache s)\<lparr>rc_lookups := Suc (rc_lookups (cs_cache s))\<rparr>, cs_callers := dset (cs_callers s) n (Looking who)\<rparr>"
    have t: "locked_part n who now s = note_that (Started who now) ?t" by (simp add: locked_part_def None)
    have l: "looking ?t l = (l = who \<or> looking s l)" for l using n by (auto simp: looking_def) metis
    have "obeys (note_that (Started who now) ?t)"
      using run None idle l
      by (auto simp: obeys_def spec_next_def spec_allows_def spec_does_def directory_of_def cached_None split: option.splits)
    with assms l show ?thesis unfolding t by (auto simp: cache_inv_def has_lock_def queues_ok_def one_lookup_def looking_def)
  next
    case (Some d)
    let ?t = "put_lock who ((lock_of (cs_cache s) who)\<lparr>tl_held := False\<rparr>) (s\<lparr>cs_callers := dpop (cs_callers s) n\<rparr>)"
    have t: "locked_part n who now s = note_that (Answered n who d now) ?t" by (simp add: locked_part_def Some)
    have l: "looking ?t l = looking s l" for l using n by (auto simp: looking_def) metis
    have "obeys (note_that (Answered n who d now) ?t)"
      using run Some l by (auto simp: obeys_def spec_next_def spec_allows_def spec_does_def directory_of_def cached_Some)
    with assms l show ?thesis unfolding t by (auto simp: cache_inv_def has_lock_def queues_ok_def one_lookup_def)
  qed
qed

lemma cache_inv_Nil: "0 \<le> ttl \<Longrightarrow> 0 \<le> neg \<Longrightarrow> cache_inv (cache_start ttl neg)"
  by (simp add: cache_inv_def cache_start_def obeys_def spec_run_def directory_of_def looking_def queues_ok_def lock_of_def
      one_lookup_def)

lemma get_role_inv:
  assumes "cache_inv s" "dget (cs_callers s) n = None"
  shows "cache_inv (get_role n who now s)"
proof (cases "cached (cs_cache s) who now")
  case None
  let ?l = "lock_of (cs_cache s) who"
  have n: "n \<notin> set (waiters s l)" for l using assms by (auto simp: cache_inv_def queues_ok_def)
  show ?thesis
  proof (cases "\<not> tl_held ?l \<and> tl_waiters ?l = []")
    case True
    with assms n have "has_lock n who (put_lock who (?l\<lparr>tl_held := True\<rparr>) s)"
      by (auto simp: cache_inv_def has_lock_def queues_ok_def obeys_def directory_of_def one_lookup_def looking_def)
    with None True show ?thesis by (simp add: get_role_def Let_def locked_part_inv)
  next
    case False
    let ?t = "(put_lock who (?l\<lparr>tl_waiters := tl_waiters ?l @ [n]\<rparr>) s)\<lparr>cs_callers := dset (cs_callers s) n (Waiting who)\<rparr>"
    have l: "looking ?t x = looking s x" for x using assms(2) by (auto simp: looking_def) (metis option.distinct(1))
    have "queues_ok ?t"
      using assms n l by (auto simp: queues_ok_def cache_inv_def)
    with assms n l have "cache_inv ?t"
      by (auto simp: cache_inv_def obeys_def directory_of_def one_lookup_def)
    with None False show ?thesis by (auto simp: get_role_def Let_def)
  qed
next
  case (Some d)
  then have "get_role n who now s = note_that (Answered n who d now) s" by (simp add: get_role_def)
  with assms(1) Some show ?thesis
    by (auto simp: cache_inv_def obeys_def queues_ok_def one_lookup_def spec_next_def spec_allows_def spec_does_def cached_Some)
      (simp add: directory_of_def)
qed

lemma resume_inv:
  assumes "cache_inv s" "dget (cs_callers s) n = Some (Waiting who)" "\<not> held s who"
  shows "cache_inv (resume n who now s)"
proof -
  have "has_lock n who (put_lock who \<lparr>tl_held = True, tl_waiters = removeAll n (waiters s who)\<rparr> s)"
    using assms
    by (auto simp: cache_inv_def has_lock_def queues_ok_def obeys_def directory_of_def one_lookup_def looking_def distinct_removeAll)
  then show ?thesis by (simp add: resume_def locked_part_inv)
qed

lemma looking_gone:
  assumes "one_lookup s" "dget (cs_callers s) n = Some (Looking who)" "cs_callers t = dpop (cs_callers s) n"
  shows "looking t l = (l \<noteq> who \<and> looking s l)"
proof (cases "l = who")
  case True
  have "m = n" if "dget (cs_callers s) m = Some (Looking who)" for m
    using assms(1,2) that unfolding one_lookup_def by blast
  then show ?thesis using True by (auto simp: looking_def assms(3))
next
  case False
  with assms(2) have "m \<noteq> n" if "dget (cs_callers s) m = Some (Looking l)" for m using that by auto
  with False show ?thesis by (auto simp: looking_def assms(3))
qed

lemma cache_finish_inv:
  assumes "cache_inv s" "dget (cs_callers s) n = Some (Looking who)"
  shows "cache_inv (finish n who a now s)"
proof -
  from assms(1) have one: "one_lookup s" by (simp add: cache_inv_def)
  from assms(1) have run: "spec_run l (cs_notes s) = Some (directory_of s l)" for l by (simp add: cache_inv_def obeys_def)
  from assms(2) have busy: "looking s who" by (auto simp: looking_def)
  obtain found expires warned where f: "(case a of Inr d \<Rightarrow> (d, now + rc_ttl (cs_cache s), rc_warned (cs_cache s))
     | Inl msg \<Rightarrow> (no_lookup, now + rc_negative_ttl (cs_cache s), ladd (rc_warned (cs_cache s)) msg)) = (found, expires, warned)"
    by (metis prod_cases3)
  have later: "now \<le> expires" using f assms(1) by (auto simp: cache_inv_def split: sum.splits)
  let ?t = "put_lock who ((lock_of (cs_cache s) who)\<lparr>tl_held := False\<rparr>)
    (s\<lparr>cs_cache := (cs_cache s)\<lparr>rc_roles := dset (rc_roles (cs_cache s)) who (found, expires), rc_warned := warned\<rparr>,
       cs_callers := dpop (cs_callers s) n\<rparr>)"
  have t: "finish n who a now s = note_that (Answered n who found now) (note_that (Finished who found expires) ?t)"
    using f by (simp add: finish_def Let_def split: sum.splits)
  have l: "looking ?t l = (l \<noteq> who \<and> looking s l)" for l by (rule looking_gone [OF one assms(2)]) simp
  have "obeys (finish n who a now s)"
    unfolding obeys_def t using run busy l later
    by (auto simp: spec_next_def spec_allows_def spec_does_def directory_of_def)
  moreover have "queues_ok (finish n who a now s)" "one_lookup (finish n who a now s)"
    unfolding t using assms l by (auto simp: cache_inv_def queues_ok_def one_lookup_def)
  ultimately show ?thesis using assms(1) by (simp add: cache_inv_def t)
qed

lemma cancel_inv:
  assumes "cache_inv s"
  shows "cache_inv (cancel n s)"
proof (cases "dget (cs_callers s) n")
  case None
  with assms show ?thesis by (simp add: cancel_def)
next
  case (Some c)
  show ?thesis
  proof (cases c)
    case (Waiting who)
    have l: "looking (cancel n s) l = looking s l" for l
      using Some Waiting by (auto simp: cancel_def Let_def looking_def) (metis caller.distinct(1) option.inject)
    have "queues_ok (cancel n s)"
      using assms Some Waiting l by (auto simp: queues_ok_def cache_inv_def cancel_def Let_def distinct_removeAll)
    with assms Some Waiting l show ?thesis
      by (auto simp: cache_inv_def obeys_def directory_of_def one_lookup_def cancel_def Let_def)
  next
    case (Looking who)
    from assms have one: "one_lookup s" by (simp add: cache_inv_def)
    from assms have run: "spec_run l (cs_notes s) = Some (directory_of s l)" for l by (simp add: cache_inv_def obeys_def)
    from Some Looking have c: "dget (cs_callers s) n = Some (Looking who)" by simp
    then have busy: "looking s who" by (auto simp: looking_def)
    have l: "looking (cancel n s) l = (l \<noteq> who \<and> looking s l)" for l
      by (rule looking_gone [OF one c]) (simp add: cancel_def c)
    have "obeys (cancel n s)"
      unfolding obeys_def using run busy l
      by (auto simp: cancel_def c spec_next_def spec_allows_def spec_does_def directory_of_def)
    moreover have "queues_ok (cancel n s)" "one_lookup (cancel n s)"
      using assms l c by (auto simp: cache_inv_def queues_ok_def one_lookup_def cancel_def)
    ultimately show ?thesis using assms by (simp add: cache_inv_def cancel_def c)
  qed
qed

lemma forget_all_run:
  "spec_run l es = Some d \<Longrightarrow> spec_run l (es @ map Forgot ls) = Some (if l \<in> set ls then d\<lparr>ds_kept := None\<rparr> else d)"
  by (induction ls rule: rev_induct) (auto simp: spec_run_def spec_next_def spec_allows_def spec_does_def)

lemma forget_inv:
  assumes "cache_inv s"
  shows "cache_inv (forget who s)"
proof -
  from assms have run: "spec_run l (cs_notes s) = Some (directory_of s l)" for l by (simp add: cache_inv_def obeys_def)
  have l: "looking (forget who s) l = looking s l" for l by (simp add: forget_def looking_def note_that_def split: option.split)
  have "obeys (forget who s)"
    unfolding obeys_def
  proof
    fix l
    show "spec_run l (cs_notes (forget who s)) = Some (directory_of (forget who s) l)"
    proof (cases who)
      case None
      have "l \<in> set (keys_of (rc_roles (cs_cache s))) \<longleftrightarrow> dget (rc_roles (cs_cache s)) l \<noteq> None" by (rule keys_of_dget)
      with forget_all_run [OF run [of l], of "keys_of (rc_roles (cs_cache s))"] l [of l] None show ?thesis
        by (auto simp: forget_def directory_of_def)
    next
      case (Some x)
      with run [of l] l [of l] show ?thesis
        by (auto simp: forget_def directory_of_def spec_next_def spec_allows_def spec_does_def)
    qed
  qed
  with assms l show ?thesis
    by (cases who) (simp_all add: cache_inv_def queues_ok_def one_lookup_def forget_def)
qed

lemma cache_step_inv: "cache_inv s \<Longrightarrow> cache_step s t \<Longrightarrow> cache_inv t"
  by (erule cache_stepE)
    (auto simp: exec_cache_def Let_def get_role_inv resume_inv cache_finish_inv cancel_inv forget_inv
      split: cache_event.splits if_splits option.splits caller.splits)

definition cache_started :: "cache_state \<Rightarrow> bool" where
  "cache_started s \<longleftrightarrow> (\<exists>ttl neg. 0 \<le> ttl \<and> 0 \<le> neg \<and> s = cache_start ttl neg)"

interpretation rc: invariant_machine cache_started cache_step cache_inv
  by unfold_locales (auto simp: cache_started_def intro: cache_inv_Nil cache_step_inv)


fun run_cache :: "cache_event list \<Rightarrow> cache_state \<Rightarrow> cache_state option" where
  "run_cache [] s = Some s"
| "run_cache (ev # evs) s = (case exec_cache ev s of None \<Rightarrow> None | Some t \<Rightarrow> run_cache evs t)"

lemma run_cache_steps: "run_cache evs s = Some t \<Longrightarrow> cache_step\<^sup>*\<^sup>* s t"
  by (induction evs arbitrary: s) (auto split: option.splits intro: converse_rtranclp_into_rtranclp happens)

definition demo_found :: directory_lookup where
  "demo_found = \<lparr>dl_role = Instructor, dl_group = ''L3'', dl_administrator = False, dl_fullname = ''Alice''\<rparr>"

definition demo_calls :: "cache_event list" where
  "demo_calls = [Ask 1 ''alice'' 0, Ask 2 ''alice'' 1, Ask 3 ''alice'' 2, Answer 1 (Inr demo_found) 3, Woken 2 4, Woken 3 4]"

lemma demo_calls_run:
  "map_option cs_notes (run_cache demo_calls (cache_start 60 10)) = Some [Started ''alice'' 0, Finished ''alice'' demo_found 63,
     Answered 1 ''alice'' demo_found 3, Answered 2 ''alice'' demo_found 4, Answered 3 ''alice'' demo_found 4]"
  by code_simp


section \<open>The callers behind a lock\<close>

lemma serve_waiters:
  assumes "cache_inv t" "\<not> held t l" "cached (cs_cache t) l now = Some d"
  shows "\<exists>u. run_cache (map (\<lambda>n. Woken n now) (waiters t l)) t = Some u \<and>
    cs_notes u = cs_notes t @ map (\<lambda>n. Answered n l d now) (waiters t l) \<and>
    rc_lookups (cs_cache u) = rc_lookups (cs_cache t) \<and> (\<forall>n. dget (cs_callers u) n \<noteq> Some (Waiting l))"
  using assms
proof (induction "waiters t l" arbitrary: t)
  case Nil
  then have "dget (cs_callers t) n \<noteq> Some (Waiting l)" for n
    by (metis cache_inv_def queues_ok_def empty_iff list.set(1))
  with Nil.hyps show ?case by simp
next
  case (Cons n ns)
  from Cons.prems(1) have q: "queues_ok t" by (simp add: cache_inv_def)
  from q Cons.hyps(2) have n: "dget (cs_callers t) n = Some (Waiting l)" "distinct (n # ns)"
    by (metis list.set_intros(1) queues_ok_def, metis queues_ok_def)
  let ?s = "put_lock l \<lparr>tl_held = False, tl_waiters = removeAll n (waiters t l)\<rparr>
    (put_lock l \<lparr>tl_held = True, tl_waiters = removeAll n (waiters t l)\<rparr> t\<lparr>cs_callers := dpop (cs_callers t) n\<rparr>)"
  have e: "exec_cache (Woken n now) t = Some (note_that (Answered n l d now) ?s)"
    using Cons.prems(2,3) n(1) Cons.hyps(2) [symmetric] by (simp add: exec_cache_def resume_def locked_part_def)
  let ?t = "note_that (Answered n l d now) ?s"
  have "cache_inv ?t" using cache_step_inv [OF Cons.prems(1) happens [OF e]] .
  moreover have w: "waiters ?t l = ns" using Cons.hyps(2) [symmetric] n(2) by simp
  moreover have "\<not> held ?t l" "cached (cs_cache ?t) l now = Some d" using Cons.prems(3) by simp_all
  ultimately obtain u where u: "run_cache (map (\<lambda>n. Woken n now) ns) ?t = Some u"
    "cs_notes u = cs_notes ?t @ map (\<lambda>n. Answered n l d now) ns"
    "rc_lookups (cs_cache u) = rc_lookups (cs_cache ?t)" "\<forall>n. dget (cs_callers u) n \<noteq> Some (Waiting l)"
    using Cons.hyps(1) [of ?t] by metis
  with e Cons.hyps(2) [symmetric] show ?case by (intro exI [of _ u]) simp
qed



lemma waiters_go_on:
  assumes "cache_inv t" "dget (cs_callers t) n = Some (Waiting l)"
  shows "looking t l \<or> exec_cache (Woken (hd (waiters t l)) now) t \<noteq> None"
proof (cases "looking t l")
  case False
  from assms have w: "n \<in> set (waiters t l)" and q: "queues_ok t" by (auto simp: cache_inv_def queues_ok_def)
  from w have "hd (waiters t l) \<in> set (waiters t l)" by (cases "waiters t l") auto
  with q have "dget (cs_callers t) (hd (waiters t l)) = Some (Waiting l)" unfolding queues_ok_def by blast
  moreover from q False have "\<not> held t l" by (simp add: queues_ok_def)
  ultimately show ?thesis using w by (auto simp: exec_cache_def Let_def)
qed simp

section \<open>The rows of the Watch page\<close>

text \<open>What a row gets from the directory, by itself.\<close>

definition completed :: "(string \<Rightarrow> directory_lookup) \<Rightarrow> watch_row \<Rightarrow> watch_row" where
  "completed answers r = (if is_valid_login (wr_owner r) then
      r\<lparr>wr_group := if wr_group r = [] then dl_group (answers (wr_owner r)) else wr_group r,
        wr_fullname := if \<not> managed r \<and> dl_fullname (answers (wr_owner r)) \<noteq> [] then dl_fullname (answers (wr_owner r))
          else wr_fullname r\<rparr>
    else r)"

lemma dget_map_pair: "dget (map (\<lambda>l. (l, f l)) ls) k = (if k \<in> set ls then Some (f k) else None)"
  by (induction ls) auto

text \<open>The rows of the Watch page are completed one by one: the lookups are shared by the rows of one
  owner and asked for some rows only, but each row becomes what the directory says of its own owner,
  an empty group filled in, the full name of a project the agent does not manage replaced, and
  nothing else.\<close>

theorem complete_owners_rowwise: "complete_owners answers rows = map (completed answers) rows"
proof -
  have row: "complete_row (map (\<lambda>l. (l, answers l)) (logins_wanted rows)) r = completed answers r" if "r \<in> set rows" for r
  proof (cases "is_valid_login (wr_owner r) \<and> wanted_row r")
    case True
    with that have "wr_owner r \<in> set (logins_wanted rows)" by (auto simp: logins_wanted_def)
    with True show ?thesis by (auto simp: complete_row_def completed_def dget_map_pair Let_def managed_def)
  next
    case False
    then show ?thesis
      by (auto simp: complete_row_def completed_def dget_map_pair logins_wanted_def wanted_row_def Let_def managed_def)
  qed
  have "completed answers r = r" if "logins_wanted rows = []" "r \<in> set rows" for r
    using that row [of r] by (simp add: complete_row_def)
  with row show ?thesis by (auto simp: complete_owners_def Let_def intro!: map_idI [symmetric])
qed

end
