(* ===== verification/Save_Stream.thy ===== *)
theory Save_Stream
  imports Prelude "HOL-Library.Word"
begin

text \<open>
  The encrypted payload of a save file (\<^verbatim>\<open>src/src/SRE/save_archive.py\<close>): \<open>EncryptingWriter\<close> cuts what
  is written into chunks, seals each one with its place in the file and ends with a marker,
  \<open>DecryptingReader\<close> opens them in order. The cipher (AES-GCM of the \<open>cryptography\<close> package, with its
  key) is an argument; what is used of it is \<open>aead_ok\<close>. A stream is read as it arrives, in pieces.
\<close>

type_synonym octet = "8 word"
type_synonym octets = "octet list"

definition SAVE_CHUNK :: nat where "SAVE_CHUNK = 16 * 1024 * 1024"
definition NONCE_SIZE :: nat where "NONCE_SIZE = 12"

text \<open>\<open>struct.Struct('>I')\<close> and \<open>struct.Struct('>Q')\<close>: the bytes of a number, the highest first.\<close>

fun pack :: "nat \<Rightarrow> nat \<Rightarrow> octets" where
  "pack 0 n = []"
| "pack (Suc k) n = pack k (n div 256) @ [word_of_nat n]"

definition unpack :: "octets \<Rightarrow> nat" where
  "unpack bs = foldl (\<lambda>n b. n * 256 + unat b) 0 bs"

record aead =
  ad_encrypt :: "octets \<Rightarrow> octets \<Rightarrow> octets \<Rightarrow> octets"
  ad_decrypt :: "octets \<Rightarrow> octets \<Rightarrow> octets \<Rightarrow> octets option"

definition chunk_aad :: "octets \<Rightarrow> nat \<Rightarrow> bool \<Rightarrow> octets" where
  "chunk_aad aad index final = aad @ pack 8 index @ [if final then 1 else 0]"

section \<open>The writer\<close>

record save_writer =
  sw_buf :: octets
  sw_index :: nat
  sw_closed :: bool
  sw_out :: octets

definition new_writer :: save_writer where
  "new_writer = \<lparr>sw_buf = [], sw_index = 0, sw_closed = False, sw_out = []\<rparr>"

text \<open>One frame; \<open>nonces\<close>: what \<open>secrets.token_bytes\<close> gives for each of them.\<close>

definition frame :: "aead \<Rightarrow> octets \<Rightarrow> (nat \<Rightarrow> octets) \<Rightarrow> nat \<Rightarrow> octets \<Rightarrow> bool \<Rightarrow> octets" where
  "frame K aad nonces index plaintext final =
     (let ciphertext = ad_encrypt K (nonces index) plaintext (chunk_aad aad index final)
      in pack 4 (length ciphertext) @ [if final then 1 else 0] @ nonces index @ ciphertext)"

definition emit_chunk :: "aead \<Rightarrow> octets \<Rightarrow> (nat \<Rightarrow> octets) \<Rightarrow> octets \<Rightarrow> bool \<Rightarrow> save_writer \<Rightarrow> save_writer" where
  "emit_chunk K aad nonces plaintext final w =
     w\<lparr>sw_out := sw_out w @ frame K aad nonces (sw_index w) plaintext final, sw_index := Suc (sw_index w)\<rparr>"

function write_loop :: "aead \<Rightarrow> octets \<Rightarrow> (nat \<Rightarrow> octets) \<Rightarrow> save_writer \<Rightarrow> save_writer" where
  "write_loop K aad nonces w =
     (if SAVE_CHUNK \<le> length (sw_buf w)
      then write_loop K aad nonces
        ((emit_chunk K aad nonces (take SAVE_CHUNK (sw_buf w)) False w)\<lparr>sw_buf := drop SAVE_CHUNK (sw_buf w)\<rparr>)
      else w)"
  by pat_completeness auto

termination
  by (relation "measure (\<lambda>(K, aad, nonces, w). length (sw_buf w))") (auto simp: SAVE_CHUNK_def)

declare write_loop.simps [simp del]

definition write_data :: "aead \<Rightarrow> octets \<Rightarrow> (nat \<Rightarrow> octets) \<Rightarrow> octets \<Rightarrow> save_writer \<Rightarrow> save_writer" where
  "write_data K aad nonces data w = write_loop K aad nonces (w\<lparr>sw_buf := sw_buf w @ data\<rparr>)"

definition close_writer :: "aead \<Rightarrow> octets \<Rightarrow> (nat \<Rightarrow> octets) \<Rightarrow> save_writer \<Rightarrow> save_writer" where
  "close_writer K aad nonces w =
     (if sw_closed w then w
      else (let w = (if sw_buf w \<noteq> [] then (emit_chunk K aad nonces (sw_buf w) False w)\<lparr>sw_buf := []\<rparr> else w)
            in (emit_chunk K aad nonces [] True w)\<lparr>sw_closed := True\<rparr>))"

section \<open>The reader\<close>

text \<open>\<open>read(n)\<close> of the file: at most \<open>n\<close> bytes of what has arrived, none at its end.\<close>

fun read_once :: "nat \<Rightarrow> octets list \<Rightarrow> octets \<times> octets list" where
  "read_once n [] = ([], [])"
| "read_once n (p # ps) = (take n p, if length p \<le> n then ps else drop n p # ps)"

function read_exact :: "nat \<Rightarrow> octets list \<Rightarrow> octets \<times> octets list" where
  "read_exact n input =
     (if n = 0 then ([], input)
      else (let (chunk, rest) = read_once n input
            in if chunk = [] then ([], rest)
               else (let (more, rest') = read_exact (n - length chunk) rest in (chunk @ more, rest'))))"
  by pat_completeness auto

termination
  by (relation "measure fst") auto

declare read_exact.simps [simp del]

record save_reader =
  sr_input :: "octets list"
  sr_plain :: octets
  sr_index :: nat
  sr_eof :: bool

definition open_reader :: "octets list \<Rightarrow> save_reader" where
  "open_reader input = \<lparr>sr_input = input, sr_plain = [], sr_index = 0, sr_eof = False\<rparr>"

datatype save_error = Truncated | CannotDecrypt

definition next_chunk :: "aead \<Rightarrow> octets \<Rightarrow> save_reader \<Rightarrow> save_error + octets \<times> save_reader" where
  "next_chunk K aad r =
     (let (head, input) = read_exact (4 + 1 + NONCE_SIZE) (sr_input r)
      in if length head < 4 + 1 + NONCE_SIZE then Inl Truncated
         else
           let len = unpack (take 4 head);
               final = (head ! 4 = 1);
               nonce = drop (4 + 1) head;
               (ciphertext, input) = read_exact len input
           in if length ciphertext < len then Inl Truncated
              else (case ad_decrypt K nonce ciphertext (chunk_aad aad (sr_index r) final) of
                      None \<Rightarrow> Inl CannotDecrypt
                    | Some plaintext \<Rightarrow> Inr (plaintext,
                        r\<lparr>sr_input := input, sr_index := Suc (sr_index r), sr_eof := sr_eof r \<or> final\<rparr>)))"

lemma read_exact_simps:
  "read_exact 0 input = ([], input)" "read_exact n [] = ([], [])" "0 < n \<Longrightarrow> read_exact n ([] # ps) = ([], ps)"
  "0 < n \<Longrightarrow> p \<noteq> [] \<Longrightarrow> read_exact n (p # ps) =
     (let (more, rest) = read_exact (n - min n (length p)) (if length p \<le> n then ps else drop n p # ps) in (take n p @ more, rest))"
  by (subst read_exact.simps; simp)+

lemma read_exact_concat: "read_exact n input = (data, rest) \<Longrightarrow> data @ concat rest = concat input"
proof (induction n input arbitrary: data rest rule: read_exact.induct)
  case (1 n input)
  consider "n = 0" | "input = []" | ps where "0 < n" "input = [] # ps" | p ps where "0 < n" "p \<noteq> []" "input = p # ps"
    by (cases input) auto
  then show ?case
  proof cases
    case 4
    let ?rest = "if length p \<le> n then ps else drop n p # ps"
    obtain more rest' where m: "read_exact (n - min n (length p)) ?rest = (more, rest')" by force
    from "1.IH" [of "(take n p, ?rest)" "take n p" ?rest more rest'] 4 m have "more @ concat rest' = concat ?rest"
      by (simp add: min.commute)
    moreover from "1.prems" 4 m have "data = take n p @ more" "rest = rest'" by (simp_all add: read_exact_simps)
    moreover have "take n p @ concat ?rest = p @ concat ps" by (simp flip: append_assoc)
    ultimately show ?thesis using 4(3) by simp
  qed (use "1.prems" in \<open>auto simp: read_exact_simps\<close>)
qed

lemma next_chunk_shrinks:
  assumes "next_chunk K aad r = Inr (p, r')"
  shows "length (concat (sr_input r')) < length (concat (sr_input r))"
proof -
  obtain head input where h: "read_exact (4 + 1 + NONCE_SIZE) (sr_input r) = (head, input)" by force
  obtain c input' where c: "read_exact (unpack (take 4 head)) input = (c, input')" by force
  from assms h c have head: "0 < length head" and r': "sr_input r' = input'"
    by (auto simp: next_chunk_def Let_def split: if_splits option.splits)
  have "length head + length (concat input) = length (concat (sr_input r))"
    "length c + length (concat input') = length (concat input)"
    using arg_cong [OF read_exact_concat [OF h], of length] arg_cong [OF read_exact_concat [OF c], of length]
    by (simp_all del: length_concat)
  with head show ?thesis unfolding r' by linarith
qed

text \<open>\<open>read(n)\<close>, everything without a number.\<close>

function read_loop :: "aead \<Rightarrow> octets \<Rightarrow> nat option \<Rightarrow> save_reader \<Rightarrow> save_error + octets \<times> save_reader" where
  "read_loop K aad want r =
     (if want = Some 0 then Inr ([], r)
      else if sr_plain r = []
      then (if sr_eof r then Inr ([], r)
            else (case next_chunk K aad r of
                    Inl e \<Rightarrow> Inl e
                  | Inr (p, r') \<Rightarrow> read_loop K aad want (r'\<lparr>sr_plain := p\<rparr>)))
      else (let n = (case want of None \<Rightarrow> length (sr_plain r) | Some k \<Rightarrow> min k (length (sr_plain r)))
            in case read_loop K aad (map_option (\<lambda>k. k - n) want) (r\<lparr>sr_plain := drop n (sr_plain r)\<rparr>) of
                 Inl e \<Rightarrow> Inl e
               | Inr (out, r') \<Rightarrow> Inr (take n (sr_plain r) @ out, r')))"
  by pat_completeness auto

termination
  by (relation "measures [\<lambda>(K, aad, want, r). length (concat (sr_input r)), \<lambda>(K, aad, want, r). length (sr_plain r)]")
    (auto dest: next_chunk_shrinks simp del: length_concat split: option.splits)

declare read_loop.simps [simp del]

function finish_reader :: "aead \<Rightarrow> octets \<Rightarrow> save_reader \<Rightarrow> save_error + save_reader" where
  "finish_reader K aad r =
     (if sr_eof r then Inr r
      else (case next_chunk K aad r of Inl e \<Rightarrow> Inl e | Inr (p, r') \<Rightarrow> finish_reader K aad r'))"
  by pat_completeness auto

termination
  by (relation "measure (\<lambda>(K, aad, r). length (concat (sr_input r)))") (auto dest: next_chunk_shrinks simp del: length_concat)

declare finish_reader.simps [simp del]

text \<open>What the extraction does: reads, then \<open>finish\<close>.\<close>

fun read_all :: "aead \<Rightarrow> octets \<Rightarrow> nat option list \<Rightarrow> save_reader \<Rightarrow> save_error + octets list \<times> save_reader" where
  "read_all K aad [] r = Inr ([], r)"
| "read_all K aad (n # ns) r = (case read_loop K aad n r of
     Inl e \<Rightarrow> Inl e
   | Inr (out, r') \<Rightarrow> (case read_all K aad ns r' of Inl e \<Rightarrow> Inl e | Inr (outs, r'') \<Rightarrow> Inr (out # outs, r'')))"

end
