(* ===== verification/Save_Safety.thy ===== *)
theory Save_Safety
  imports Save_Stream "HOL-Library.Sublist"
begin

text \<open>
  The encrypted payload of a save file: however the data is written and however the file arrives, it
  is read back as a plain file would be; and whatever a changed file holds, what is read from it is a
  beginning of the data of the save that has its header, the whole of it once the end is reached.
\<close>

section \<open>The cipher\<close>

text \<open>\<open>sealed\<close>: the plaintexts sealed with the key, each with its associated data. What was sealed is
  opened, a ciphertext is 16 bytes longer than its plaintext, and (the authenticity of AES-GCM) nothing
  else is opened.\<close>

definition aead_ok :: "aead \<Rightarrow> (octets \<times> octets) set \<Rightarrow> bool" where
  "aead_ok K sealed \<longleftrightarrow> (\<forall>n p a. (a, p) \<in> sealed \<longrightarrow> ad_decrypt K n (ad_encrypt K n p a) a = Some p) \<and>
     (\<forall>n p a. length (ad_encrypt K n p a) = length p + 16)"

definition authentic :: "aead \<Rightarrow> (octets \<times> octets) set \<Rightarrow> bool" where
  "authentic K sealed \<longleftrightarrow> (\<forall>n c a p. ad_decrypt K n c a = Some p \<longrightarrow> (a, p) \<in> sealed)"

text \<open>What one save seals: its chunks in their places, then the end.\<close>

definition sealed_by :: "octets \<Rightarrow> octets list \<Rightarrow> (octets \<times> octets) set" where
  "sealed_by aad cs = {(chunk_aad aad i False, cs ! i) | i. i < length cs} \<union> {(chunk_aad aad (length cs) True, [])}"

definition frames_from :: "aead \<Rightarrow> octets \<Rightarrow> (nat \<Rightarrow> octets) \<Rightarrow> octets list \<Rightarrow> nat \<Rightarrow> octets" where
  "frames_from K aad nonces cs i =
     concat (map (\<lambda>j. frame K aad nonces j (cs ! j) False) [i..<length cs]) @ frame K aad nonces (length cs) [] True"

function chunks_of :: "octets \<Rightarrow> octets list" where
  "chunks_of xs = (if xs = [] then [] else take SAVE_CHUNK xs # chunks_of (drop SAVE_CHUNK xs))"
  by pat_completeness auto

termination
  by (relation "measure length") (auto simp: SAVE_CHUNK_def)

declare chunks_of.simps [simp del]

section \<open>The numbers\<close>

lemma length_pack [simp]: "length (pack k n) = k"
  by (induction k arbitrary: n) simp_all

lemma unpack_snoc: "unpack (bs @ [b]) = unpack bs * 256 + unat b"
  by (simp add: unpack_def)

lemma unpack_pack: "unpack (pack k n) = n mod 256 ^ k"
proof (induction k arbitrary: n)
  case 0
  show ?case by (simp add: unpack_def)
next
  case (Suc k)
  have "unat (word_of_nat n :: octet) = n mod 256" by (simp add: unat_of_nat)
  then show ?case using mod_mult2_eq [of n 256 "256 ^ k"] by (simp add: unpack_snoc Suc)
qed

lemma pack_inj: "i < 256 ^ k \<Longrightarrow> j < 256 ^ k \<Longrightarrow> pack k i = pack k j \<longleftrightarrow> i = j"
  by (metis mod_less unpack_pack)

lemma chunk_aad_inj:
  assumes "length a = length b" "i < 2 ^ 64" "j < 2 ^ 64"
  shows "chunk_aad a i x = chunk_aad b j y \<longleftrightarrow> a = b \<and> i = j \<and> x = y"
proof -
  have "(256 :: nat) ^ 8 = 2 ^ 64" by simp
  with assms show ?thesis by (auto simp: chunk_aad_def pack_inj [of i 8 j])
qed

section \<open>The writer\<close>

lemma SAVE_CHUNK_pos: "0 < SAVE_CHUNK"
  by (simp add: SAVE_CHUNK_def)

lemma chunks_of_Nil: "chunks_of [] = []"
  by (subst chunks_of.simps) simp

lemma chunks_of_step: "xs \<noteq> [] \<Longrightarrow> chunks_of xs = take SAVE_CHUNK xs # chunks_of (drop SAVE_CHUNK xs)"
  by (subst chunks_of.simps) simp

lemma chunks_of_simps:
  "xs \<noteq> [] \<Longrightarrow> length xs < SAVE_CHUNK \<Longrightarrow> chunks_of xs = [xs]"
  "length c = SAVE_CHUNK \<Longrightarrow> chunks_of (c @ xs) = c # chunks_of xs"
proof -
  show "xs \<noteq> [] \<Longrightarrow> length xs < SAVE_CHUNK \<Longrightarrow> chunks_of xs = [xs]" by (simp add: chunks_of_step chunks_of_Nil)
  assume "length c = SAVE_CHUNK"
  moreover from this have "c @ xs \<noteq> []" using SAVE_CHUNK_pos by auto
  ultimately show "chunks_of (c @ xs) = c # chunks_of xs" using chunks_of_step [of "c @ xs"] by simp
qed

lemma chunks_of_whole:
  "\<forall>c \<in> set cs. length c = SAVE_CHUNK \<Longrightarrow> length xs < SAVE_CHUNK \<Longrightarrow>
   chunks_of (concat cs @ xs) = cs @ (if xs = [] then [] else [xs])"
  by (induction cs) (auto simp: chunks_of_simps chunks_of_Nil)

lemma concat_chunks_of: "concat (chunks_of xs) = xs"
proof (induction xs rule: chunks_of.induct)
  case (1 xs)
  then show ?case by (cases "xs = []") (simp_all add: chunks_of_step chunks_of_Nil)
qed

lemma chunks_of_short: "c \<in> set (chunks_of xs) \<Longrightarrow> length c \<le> SAVE_CHUNK"
proof (induction xs rule: chunks_of.induct)
  case (1 xs)
  then show ?case by (cases "xs = []") (auto simp: chunks_of_step chunks_of_Nil)
qed

definition chunk_frames :: "aead \<Rightarrow> octets \<Rightarrow> (nat \<Rightarrow> octets) \<Rightarrow> octets list \<Rightarrow> octets" where
  "chunk_frames K aad nonces cs = concat (map (\<lambda>j. frame K aad nonces j (cs ! j) False) [0..<length cs])"

lemma chunk_frames_snoc: "chunk_frames K aad nonces (cs @ [c]) = chunk_frames K aad nonces cs @ frame K aad nonces (length cs) c False"
proof -
  have "map (\<lambda>j. frame K aad nonces j ((cs @ [c]) ! j) False) [0..<length cs] = map (\<lambda>j. frame K aad nonces j (cs ! j) False) [0..<length cs]"
    by (simp add: nth_append)
  then show ?thesis unfolding chunk_frames_def by (simp del: map_eq_conv)
qed

definition written :: "aead \<Rightarrow> octets \<Rightarrow> (nat \<Rightarrow> octets) \<Rightarrow> octets \<Rightarrow> save_writer \<Rightarrow> bool" where
  "written K aad nonces data w \<longleftrightarrow> \<not> sw_closed w \<and>
     (\<exists>cs. data = concat cs @ sw_buf w \<and> (\<forall>c \<in> set cs. length c = SAVE_CHUNK) \<and> sw_index w = length cs \<and>
        sw_out w = chunk_frames K aad nonces cs)"

lemma emit_written:
  assumes "written K aad nonces data w" "SAVE_CHUNK \<le> length (sw_buf w)"
  shows "written K aad nonces data
    ((emit_chunk K aad nonces (take SAVE_CHUNK (sw_buf w)) False w)\<lparr>sw_buf := drop SAVE_CHUNK (sw_buf w)\<rparr>)"
proof -
  from assms(1) obtain cs where cs: "data = concat cs @ sw_buf w" "\<forall>c \<in> set cs. length c = SAVE_CHUNK" "sw_index w = length cs"
    "sw_out w = chunk_frames K aad nonces cs" "\<not> sw_closed w"
    by (auto simp: written_def)
  with assms(2) show ?thesis
    unfolding written_def
    by (intro conjI exI [of _ "cs @ [take SAVE_CHUNK (sw_buf w)]"]) (auto simp: emit_chunk_def chunk_frames_snoc)
qed

lemma write_loop_written:
  "written K aad nonces data w \<Longrightarrow>
   written K aad nonces data (write_loop K aad nonces w) \<and> length (sw_buf (write_loop K aad nonces w)) < SAVE_CHUNK"
proof (induction K aad nonces w rule: write_loop.induct)
  case (1 K aad nonces w)
  then show ?case
    by (cases "SAVE_CHUNK \<le> length (sw_buf w)") (simp_all add: write_loop.simps [of K aad nonces w] emit_written)
qed

lemma write_written:
  assumes "written K aad nonces data w"
  shows "written K aad nonces (data @ d) (write_data K aad nonces d w) \<and> length (sw_buf (write_data K aad nonces d w)) < SAVE_CHUNK"
proof -
  from assms have "written K aad nonces (data @ d) (w\<lparr>sw_buf := sw_buf w @ d\<rparr>)" by (auto simp: written_def)
  from write_loop_written [OF this] show ?thesis by (simp add: write_data_def)
qed

lemma writes_written:
  "written K aad nonces data w \<Longrightarrow> length (sw_buf w) < SAVE_CHUNK \<Longrightarrow>
   written K aad nonces (data @ concat ds) (fold (write_data K aad nonces) ds w) \<and>
   length (sw_buf (fold (write_data K aad nonces) ds w)) < SAVE_CHUNK"
proof (induction ds arbitrary: data w)
  case (Cons d ds)
  from write_written [OF Cons.prems(1), of d] Cons.IH [of "data @ d" "write_data K aad nonces d w"] show ?case by simp
qed simp

text \<open>The encrypted file does not depend on how the data is written: it is the frames of the data cut
  into chunks of \<open>SAVE_CHUNK\<close> bytes (a shorter last one), each sealed with its number, and of the end.\<close>

lemma writer_stream:
  "sw_out (close_writer K aad nonces (fold (write_data K aad nonces) ds new_writer)) =
   frames_from K aad nonces (chunks_of (concat ds)) 0"
proof -
  let ?w = "fold (write_data K aad nonces) ds new_writer"
  have "written K aad nonces [] new_writer" by (simp add: written_def new_writer_def chunk_frames_def)
  from writes_written [OF this, of ds] SAVE_CHUNK_pos
  have w: "written K aad nonces (concat ds) ?w" "length (sw_buf ?w) < SAVE_CHUNK" by (simp_all add: new_writer_def)
  from w(1) obtain cs where cs: "concat ds = concat cs @ sw_buf ?w" "\<forall>c \<in> set cs. length c = SAVE_CHUNK" "sw_index ?w = length cs"
    "sw_out ?w = chunk_frames K aad nonces cs" "\<not> sw_closed ?w"
    unfolding written_def by blast
  have c: "chunks_of (concat ds) = cs @ (if sw_buf ?w = [] then [] else [sw_buf ?w])"
    using chunks_of_whole [OF cs(2) w(2)] cs(1) by simp
  have f: "frames_from K aad nonces x 0 = chunk_frames K aad nonces x @ frame K aad nonces (length x) [] True" for x
    by (simp add: frames_from_def chunk_frames_def)
  show ?thesis using cs(3-5)
    by (cases "sw_buf ?w = []") (simp_all add: f c close_writer_def Let_def emit_chunk_def chunk_frames_snoc)
qed

section \<open>The reader\<close>

text \<open>A file whose pieces, as they arrive, are not empty.\<close>

definition pieces :: "octets \<Rightarrow> octets list \<Rightarrow> bool" where
  "pieces bs input \<longleftrightarrow> concat input = bs \<and> [] \<notin> set input"

lemma read_exact_pieces:
  "pieces bs input \<Longrightarrow> \<exists>rest. read_exact n input = (take n bs, rest) \<and> pieces (drop n bs) rest"
proof (induction n input arbitrary: bs rule: read_exact.induct)
  case (1 n input)
  consider "n = 0" | "input = []" | p ps where "0 < n" "p \<noteq> []" "input = p # ps"
    using "1.prems" by (cases "n = 0"; cases input; force simp: pieces_def)
  then show ?case
  proof cases
    case 3
    let ?rest = "if length p \<le> n then ps else drop n p # ps"
    have bs: "bs = p @ concat ps" "[] \<notin> set ps" using "1.prems" 3 by (auto simp: pieces_def)
    then have "pieces (drop (min n (length p)) bs) ?rest" by (auto simp: pieces_def min_def)
    with "1.IH" [of "(take n p, ?rest)" "take n p" ?rest "drop (min n (length p)) bs"] 3
    obtain rest where r: "read_exact (n - min n (length p)) ?rest = (take (n - min n (length p)) (drop (min n (length p)) bs), rest)"
      "pieces (drop (n - min n (length p)) (drop (min n (length p)) bs)) rest"
      by (auto simp: min.commute)
    with 3 bs show ?thesis by (auto simp: read_exact_simps min_def split: if_splits)
  qed (use "1.prems" in \<open>auto simp: read_exact_simps pieces_def\<close>)
qed

lemma next_chunk_frame:
  assumes "pieces (frame K aad nonces i p final @ tail) (sr_input r)" "sr_index r = i" "length (nonces i) = NONCE_SIZE"
    and "(chunk_aad aad i final, p) \<in> sealed" "aead_ok K sealed" "length p \<le> SAVE_CHUNK"
  shows "\<exists>input. next_chunk K aad r = Inr (p, r\<lparr>sr_input := input, sr_index := Suc i, sr_eof := sr_eof r \<or> final\<rparr>) \<and> pieces tail input"
proof -
  let ?c = "ad_encrypt K (nonces i) p (chunk_aad aad i final)"
  let ?h = "pack 4 (length ?c) @ [if final then 1 else 0] @ nonces i"
  have f: "frame K aad nonces i p final @ tail = ?h @ ?c @ tail" by (simp add: frame_def Let_def)
  have h: "length ?h = 4 + 1 + NONCE_SIZE" by (simp add: assms(3))
  from read_exact_pieces [OF assms(1), of "4 + 1 + NONCE_SIZE"] obtain input where
    "read_exact (4 + 1 + NONCE_SIZE) (sr_input r) = (take (4 + 1 + NONCE_SIZE) (?h @ ?c @ tail), input)"
    "pieces (drop (4 + 1 + NONCE_SIZE) (?h @ ?c @ tail)) input" unfolding f by blast
  then have 1: "read_exact (4 + 1 + NONCE_SIZE) (sr_input r) = (?h, input)" "pieces (?c @ tail) input"
    unfolding h [symmetric] by simp_all
  have "length ?c = length p + 16" using assms(5) by (simp add: aead_ok_def)
  with assms(6) have "length ?c < 256 ^ 4" by (simp add: SAVE_CHUNK_def)
  then have len: "unpack (pack 4 (length ?c)) = length ?c" by (simp add: unpack_pack)
  from read_exact_pieces [OF 1(2), of "length ?c"] obtain input' where
    2: "read_exact (length ?c) input = (?c, input')" "pieces tail input'" by auto
  have "ad_decrypt K (nonces i) ?c (chunk_aad aad i final) = Some p" using assms(4,5) by (simp add: aead_ok_def)
  moreover have "take 4 ?h = pack 4 (length ?c)" "?h ! 4 = (if final then 1 else 0)" "drop (4 + 1) ?h = nonces i"
    by (simp_all add: nth_append)
  ultimately show ?thesis
    using 1 2 len assms(2,3) by (cases final; intro exI [of _ input']) (simp_all add: next_chunk_def Let_def nth_append)
qed

section \<open>A file that nobody changed\<close>

text \<open>What a plain file gives: \<open>read(n)\<close> the next \<open>n\<close> bytes, or what is left.\<close>

fun plain_read :: "nat option \<Rightarrow> octets \<Rightarrow> octets" where
  "plain_read None R = R"
| "plain_read (Some n) R = take n R"

fun plain_rest :: "nat option \<Rightarrow> octets \<Rightarrow> octets" where
  "plain_rest None R = []"
| "plain_rest (Some n) R = drop n R"

fun plain_reads :: "nat option list \<Rightarrow> octets \<Rightarrow> octets list" where
  "plain_reads [] R = []"
| "plain_reads (n # ns) R = plain_read n R # plain_reads ns (plain_rest n R)"

text \<open>The reader of the frames of \<open>cs\<close>, when \<open>R\<close> is left to read.\<close>

definition reading :: "aead \<Rightarrow> octets \<Rightarrow> (nat \<Rightarrow> octets) \<Rightarrow> octets list \<Rightarrow> save_reader \<Rightarrow> octets \<Rightarrow> bool" where
  "reading K aad nonces cs r R \<longleftrightarrow>
     (if sr_eof r then R = sr_plain r
      else sr_index r \<le> length cs \<and> R = sr_plain r @ concat (drop (sr_index r) cs) \<and>
        pieces (frames_from K aad nonces cs (sr_index r)) (sr_input r))"

lemma frames_from_step:
  "i < length cs \<Longrightarrow> frames_from K aad nonces cs i = frame K aad nonces i (cs ! i) False @ frames_from K aad nonces cs (Suc i)"
  "frames_from K aad nonces cs (length cs) = frame K aad nonces (length cs) [] True @ []"
  by (simp_all add: frames_from_def upt_conv_Cons)

text \<open>The cipher, the nonces and the chunks of one save.\<close>

definition save_ok :: "aead \<Rightarrow> octets \<Rightarrow> (nat \<Rightarrow> octets) \<Rightarrow> octets list \<Rightarrow> bool" where
  "save_ok K aad nonces cs \<longleftrightarrow> aead_ok K (sealed_by aad cs) \<and> (\<forall>i. length (nonces i) = NONCE_SIZE) \<and>
     (\<forall>c \<in> set cs. length c \<le> SAVE_CHUNK)"

lemma next_chunk_reading:
  assumes "save_ok K aad nonces cs" "reading K aad nonces cs r R" "\<not> sr_eof r"
  shows "\<exists>p r'. next_chunk K aad r = Inr (p, r') \<and> R = sr_plain r @ p @ concat (drop (Suc (sr_index r)) cs) \<and>
    reading K aad nonces cs (r'\<lparr>sr_plain := p\<rparr>) (p @ concat (drop (Suc (sr_index r)) cs)) \<and> sr_plain r' = sr_plain r"
proof -
  from assms(2,3) have i: "sr_index r \<le> length cs" "R = sr_plain r @ concat (drop (sr_index r) cs)"
    "pieces (frames_from K aad nonces cs (sr_index r)) (sr_input r)" by (simp_all add: reading_def)
  from assms(1) have K: "aead_ok K (sealed_by aad cs)" "length (nonces i) = NONCE_SIZE" for i by (simp_all add: save_ok_def)
  show ?thesis
  proof (cases "sr_index r = length cs")
    case True
    have "(chunk_aad aad (length cs) True, []) \<in> sealed_by aad cs" by (simp add: sealed_by_def)
    with next_chunk_frame [of K aad nonces "length cs" "[]" True "[]" r "sealed_by aad cs"] i(3) K True obtain input where
      "next_chunk K aad r = Inr ([], r\<lparr>sr_input := input, sr_index := Suc (length cs), sr_eof := True\<rparr>)"
      by (auto simp: frames_from_step)
    with i(2) True show ?thesis by (simp add: reading_def)
  next
    case False
    with i(1) have l: "sr_index r < length cs" by simp
    then have "(chunk_aad aad (sr_index r) False, cs ! sr_index r) \<in> sealed_by aad cs" by (auto simp: sealed_by_def)
    moreover from l assms(1) have "length (cs ! sr_index r) \<le> SAVE_CHUNK" by (simp add: save_ok_def)
    ultimately obtain input where n: "next_chunk K aad r = Inr (cs ! sr_index r, r\<lparr>sr_input := input, sr_index := Suc (sr_index r), sr_eof := False\<rparr>)"
      "pieces (frames_from K aad nonces cs (Suc (sr_index r))) input"
      using next_chunk_frame [of K aad nonces "sr_index r" "cs ! sr_index r" False _ r "sealed_by aad cs"] i(3) K l assms(3)
      by (auto simp: frames_from_step)
    have "concat (drop (sr_index r) cs) = cs ! sr_index r @ concat (drop (Suc (sr_index r)) cs)"
      using Cons_nth_drop_Suc [OF l] by (metis concat.simps(2))
    with i(2) n l assms(3) show ?thesis by (simp add: reading_def)
  qed
qed

lemma reading_step:
  assumes "reading K aad nonces cs r R" "n \<le> length (sr_plain r)"
  shows "reading K aad nonces cs (r\<lparr>sr_plain := drop n (sr_plain r)\<rparr>) (drop n R)" "take n (sr_plain r) = take n R"
  using assms by (auto simp: reading_def split: if_splits)

lemma read_loop_zero: "read_loop K aad (Some 0) r = Inr ([], r)"
  by (subst read_loop.simps) simp

lemma read_loop_end: "sr_plain r = [] \<Longrightarrow> sr_eof r \<Longrightarrow> read_loop K aad want r = Inr ([], r)"
  by (subst read_loop.simps) simp

lemma read_loop_reading:
  assumes "save_ok K aad nonces cs" "reading K aad nonces cs r R"
  shows "\<exists>r'. read_loop K aad want r = Inr (plain_read want R, r') \<and> reading K aad nonces cs r' (plain_rest want R)"
  using assms
proof (induction K aad want r arbitrary: R rule: read_loop.induct)
  case (1 K aad want r)
  consider "want = Some 0" | "want \<noteq> Some 0" "sr_plain r = []" "sr_eof r" | "want \<noteq> Some 0" "sr_plain r = []" "\<not> sr_eof r"
    | "want \<noteq> Some 0" "sr_plain r \<noteq> []" by blast
  then show ?case
  proof cases
    case 1
    with "1.prems" show ?thesis by (simp add: read_loop_zero)
  next
    case 2
    with "1.prems" have "R = []" by (simp add: reading_def)
    with 2 "1.prems" show ?thesis by (cases want) (simp_all add: read_loop_end)
  next
    case 3
    from next_chunk_reading [OF "1.prems" 3(3)] 3(2) obtain p r' where
      "next_chunk K aad r = Inr (p, r')" "reading K aad nonces cs (r'\<lparr>sr_plain := p\<rparr>) R" by auto
    with "1.IH"(1) [OF 3 _ refl, of p r' R] "1.prems"(1) 3 show ?thesis
      by (simp add: read_loop.simps [of K aad want r])
  next
    case 4
    define n where "n = (case want of None \<Rightarrow> length (sr_plain r) | Some k \<Rightarrow> min k (length (sr_plain r)))"
    have n: "n \<le> length (sr_plain r)" "want = Some k \<Longrightarrow> n \<le> k" for k by (auto simp: n_def split: option.splits)
    note s = reading_step [OF "1.prems"(2) n(1)]
    from "1.IH"(2) [OF 4 n_def "1.prems"(1) s(1)] obtain r' where
      "read_loop K aad (map_option (\<lambda>k. k - n) want) (r\<lparr>sr_plain := drop n (sr_plain r)\<rparr>) =
         Inr (plain_read (map_option (\<lambda>k. k - n) want) (drop n R), r')"
      "reading K aad nonces cs r' (plain_rest (map_option (\<lambda>k. k - n) want) (drop n R))" by blast
    moreover have "take n R @ plain_read (map_option (\<lambda>k. k - n) want) (drop n R) = plain_read want R"
      using n(2) by (cases want) (auto simp flip: take_add)
    moreover have "plain_rest (map_option (\<lambda>k. k - n) want) (drop n R) = plain_rest want R"
      using n(2) by (cases want) auto
    ultimately show ?thesis
      using 4 s(2) by (simp add: read_loop.simps [of K aad want r] n_def [symmetric] Let_def)
  qed
qed

lemma finish_reading:
  "save_ok K aad nonces cs \<Longrightarrow> reading K aad nonces cs r R \<Longrightarrow> \<exists>r'. finish_reader K aad r = Inr r'"
proof (induction K aad r arbitrary: R rule: finish_reader.induct)
  case (1 K aad r)
  show ?case
  proof (cases "sr_eof r")
    case False
    from next_chunk_reading [OF "1.prems" False] obtain p r' S where n: "next_chunk K aad r = Inr (p, r')"
      "reading K aad nonces cs (r'\<lparr>sr_plain := p\<rparr>) S" by blast
    from n(2) have "\<exists>S'. reading K aad nonces cs r' S'" by (auto simp: reading_def split: if_splits)
    with "1.IH" [OF False n(1) refl] "1.prems"(1) n(1) False show ?thesis
      by (auto simp: finish_reader.simps [of K aad r])
  qed (simp add: finish_reader.simps)
qed

lemma read_all_reading:
  "save_ok K aad nonces cs \<Longrightarrow> reading K aad nonces cs r R \<Longrightarrow>
   \<exists>r' S. read_all K aad ns r = Inr (plain_reads ns R, r') \<and> reading K aad nonces cs r' S"
proof (induction ns arbitrary: r R)
  case (Cons n ns)
  from read_loop_reading [OF Cons.prems, of n] obtain r' where
    "read_loop K aad n r = Inr (plain_read n R, r')" "reading K aad nonces cs r' (plain_rest n R)" by blast
  with Cons.IH [OF Cons.prems(1) this(2)] show ?case by auto
qed auto

text \<open>C16: A save file is read as a plain one: however the data is written, in whatever pieces the file
  arrives, and whatever sizes the extraction asks for, each read gives what it would give on the
  data itself, and the end of the file is found.\<close>

theorem save_roundtrip:
  assumes "save_ok K aad nonces (chunks_of (concat ds))"
    and "pieces (sw_out (close_writer K aad nonces (fold (write_data K aad nonces) ds new_writer))) input"
  shows "\<exists>r. read_all K aad ns (open_reader input) = Inr (plain_reads ns (concat ds), r) \<and> (\<exists>r'. finish_reader K aad r = Inr r')"
proof -
  let ?cs = "chunks_of (concat ds)"
  have "reading K aad nonces ?cs (open_reader input) (concat ds)"
    using assms(2) unfolding writer_stream by (simp add: reading_def open_reader_def concat_chunks_of)
  from read_all_reading [OF assms(1) this] obtain r S where
    "read_all K aad ns (open_reader input) = Inr (plain_reads ns (concat ds), r)" "reading K aad nonces ?cs r S" by blast
  with finish_reading [OF assms(1) this(2)] show ?thesis by blast
qed

section \<open>A file that somebody changed\<close>

text \<open>\<open>saves\<close>: what was sealed with the key, each save by its header's digest (32 bytes) and its chunks;
  two saves with the same header are the same save.\<close>

definition saves_ok :: "(octets \<times> octets list) set \<Rightarrow> bool" where
  "saves_ok saves \<longleftrightarrow> (\<forall>a cs. (a, cs) \<in> saves \<longrightarrow> length a = 32 \<and> length cs < 2 ^ 64) \<and>
     (\<forall>a cs cs'. (a, cs) \<in> saves \<longrightarrow> (a, cs') \<in> saves \<longrightarrow> cs = cs')"

definition sealed_by_all :: "(octets \<times> octets list) set \<Rightarrow> (octets \<times> octets) set" where
  "sealed_by_all saves = (\<Union>(a, cs) \<in> saves. sealed_by a cs)"

text \<open>The reader of a file of any content, with what it has given out.\<close>

definition genuine :: "octets list \<Rightarrow> octets \<Rightarrow> save_reader \<Rightarrow> bool" where
  "genuine cs out r \<longleftrightarrow>
     (if sr_eof r then sr_index r = Suc (length cs) \<and> out @ sr_plain r = concat cs
      else sr_index r \<le> length cs \<and> out @ sr_plain r = concat (take (sr_index r) cs))"

lemma next_chunk_opens:
  assumes "next_chunk K aad r = Inr (p, r')"
  shows "\<exists>n c final. ad_decrypt K n c (chunk_aad aad (sr_index r) final) = Some p \<and> sr_index r' = Suc (sr_index r) \<and>
    sr_eof r' = (sr_eof r \<or> final) \<and> sr_plain r' = sr_plain r"
proof -
  obtain head input where h: "read_exact (4 + 1 + NONCE_SIZE) (sr_input r) = (head, input)" by force
  obtain c input' where c: "read_exact (unpack (take 4 head)) input = (c, input')" by force
  from assms h c have "ad_decrypt K (drop 5 head) c (chunk_aad aad (sr_index r) (head ! 4 = 1)) = Some p"
    "r' = r\<lparr>sr_input := input', sr_index := Suc (sr_index r), sr_eof := sr_eof r \<or> head ! 4 = 1\<rparr>"
    by (auto simp: next_chunk_def Let_def split: if_splits option.splits)
  then show ?thesis by (intro exI [of _ "drop 5 head"] exI [of _ c] exI [of _ "head ! 4 = 1"]) simp
qed

lemma opened_in_place:
  assumes "saves_ok saves" "(aad, cs) \<in> saves" "(chunk_aad aad i final, p) \<in> sealed_by_all saves" "i \<le> length cs"
  shows "if final then i = length cs \<and> p = [] else i < length cs \<and> p = cs ! i"
proof -
  from assms(3) obtain a ds where s: "(a, ds) \<in> saves" "(chunk_aad aad i final, p) \<in> sealed_by a ds"
    by (auto simp: sealed_by_all_def)
  from assms(1,2) s(1) have l: "length aad = length a" "length cs < 2 ^ 64" "length ds < 2 ^ 64"
    unfolding saves_ok_def by metis+
  have same: "aad = a \<Longrightarrow> cs = ds" using assms(1,2) s(1) unfolding saves_ok_def by blast
  from s(2) consider j where "j < length ds" "chunk_aad aad i final = chunk_aad a j False" "p = ds ! j"
    | "chunk_aad aad i final = chunk_aad a (length ds) True" "p = []" by (auto simp: sealed_by_def)
  then show ?thesis
  proof cases
    case 1
    with chunk_aad_inj [OF l(1), of i j final False] l assms(4) same show ?thesis by simp
  next
    case 2
    with chunk_aad_inj [OF l(1), of i "length ds" final True] l assms(4) same show ?thesis by simp
  qed
qed

lemma next_chunk_genuine:
  assumes "authentic K (sealed_by_all saves)" "saves_ok saves" "(aad, cs) \<in> saves" "genuine cs out r" "\<not> sr_eof r"
    and "next_chunk K aad r = Inr (p, r')"
  shows "genuine cs (out @ sr_plain r) (r'\<lparr>sr_plain := p\<rparr>)"
proof -
  from next_chunk_opens [OF assms(6)] obtain n c final where d: "ad_decrypt K n c (chunk_aad aad (sr_index r) final) = Some p"
    "sr_index r' = Suc (sr_index r)" "sr_eof r' = final" using assms(5) by auto
  from assms(4,5) have i: "sr_index r \<le> length cs" "out @ sr_plain r = concat (take (sr_index r) cs)" by (simp_all add: genuine_def)
  from assms(1) d(1) have "(chunk_aad aad (sr_index r) final, p) \<in> sealed_by_all saves" by (auto simp: authentic_def)
  from opened_in_place [OF assms(2,3) this i(1)] i d(2,3) show ?thesis
    by (cases final) (auto simp: genuine_def take_Suc_conv_app_nth)
qed

lemma read_loop_genuine:
  assumes "authentic K (sealed_by_all saves)" "saves_ok saves" "(aad, cs) \<in> saves" "genuine cs out r"
    and "read_loop K aad want r = Inr (data, r')"
  shows "genuine cs (out @ data) r' \<and> (want = None \<longrightarrow> sr_eof r' \<and> sr_plain r' = [])"
  using assms
proof (induction K aad want r arbitrary: out data rule: read_loop.induct)
  case (1 K aad want r)
  consider "want = Some 0" | "want \<noteq> Some 0" "sr_plain r = []" "sr_eof r" | "want \<noteq> Some 0" "sr_plain r = []" "\<not> sr_eof r"
    | "want \<noteq> Some 0" "sr_plain r \<noteq> []" by blast
  then show ?case
  proof cases
    case 1
    with "1.prems"(4,5) show ?thesis by (auto simp: read_loop_zero)
  next
    case 2
    with "1.prems"(4,5) show ?thesis by (auto simp: read_loop_end)
  next
    case 3
    from "1.prems"(5) 3 obtain p r'' where n: "next_chunk K aad r = Inr (p, r'')"
      "read_loop K aad want (r''\<lparr>sr_plain := p\<rparr>) = Inr (data, r')"
      by (auto simp: read_loop.simps [of K aad want r] split: sum.splits)
    from next_chunk_genuine [OF "1.prems"(1-4) 3(3) n(1)] 3(2) have "genuine cs out (r''\<lparr>sr_plain := p\<rparr>)" by simp
    from "1.IH"(1) [OF 3 n(1) refl "1.prems"(1-3) this n(2)] show ?thesis .
  next
    case 4
    define n where "n = (case want of None \<Rightarrow> length (sr_plain r) | Some k \<Rightarrow> min k (length (sr_plain r)))"
    from "1.prems"(5) 4 obtain more where d: "data = take n (sr_plain r) @ more"
      "read_loop K aad (map_option (\<lambda>k. k - n) want) (r\<lparr>sr_plain := drop n (sr_plain r)\<rparr>) = Inr (more, r')"
      by (auto simp: read_loop.simps [of K aad want r] n_def [symmetric] Let_def split: sum.splits)
    have "genuine cs (out @ take n (sr_plain r)) (r\<lparr>sr_plain := drop n (sr_plain r)\<rparr>)"
      using "1.prems"(4) by (simp add: genuine_def)
    from "1.IH"(2) [OF 4 n_def "1.prems"(1-3) this d(2)] d(1) show ?thesis by simp
  qed
qed

lemma read_all_genuine:
  assumes "authentic K (sealed_by_all saves)" "saves_ok saves" "(aad, cs) \<in> saves" "genuine cs out r"
    and "read_all K aad ns r = Inr (outs, r')"
  shows "genuine cs (out @ concat outs) r'"
  using assms(4,5)
proof (induction ns arbitrary: out r outs)
  case (Cons n ns)
  from Cons.prems(2) obtain data s more where d: "read_loop K aad n r = Inr (data, s)" "read_all K aad ns s = Inr (more, r')"
    "outs = data # more" by (auto split: sum.splits)
  from read_loop_genuine [OF assms(1-3) Cons.prems(1) d(1)] have "genuine cs (out @ data) s" by simp
  from Cons.IH [OF this d(2)] d(3) show ?case by simp
qed simp

lemma genuine_prefix:
  assumes "genuine cs out r"
  shows "prefix out (concat cs)"
proof -
  have "concat cs = concat (take i cs) @ concat (drop i cs)" for i by (simp flip: concat_append)
  with assms have "\<exists>rest. concat cs = (out @ sr_plain r) @ rest" by (cases "sr_eof r") (auto simp: genuine_def)
  then show ?thesis by (auto simp: prefix_def)
qed

definition placed :: "octets list \<Rightarrow> save_reader \<Rightarrow> bool" where
  "placed cs r \<longleftrightarrow> (if sr_eof r then sr_index r = Suc (length cs) else sr_index r \<le> length cs)"

lemma genuine_placed: "genuine cs out r \<Longrightarrow> placed cs r"
  by (simp add: genuine_def placed_def split: if_splits)

lemma finish_placed:
  assumes "authentic K (sealed_by_all saves)" "saves_ok saves" "(aad, cs) \<in> saves" "placed cs r"
    and "finish_reader K aad r = Inr r'"
  shows "sr_index r' = Suc (length cs)"
  using assms
proof (induction K aad r rule: finish_reader.induct)
  case (1 K aad r)
  show ?case
  proof (cases "sr_eof r")
    case True
    with "1.prems"(4,5) show ?thesis by (simp add: finish_reader.simps placed_def)
  next
    case False
    with "1.prems"(5) obtain p s where n: "next_chunk K aad r = Inr (p, s)" "finish_reader K aad s = Inr r'"
      by (auto simp: finish_reader.simps [of K aad r] split: sum.splits)
    from next_chunk_opens [OF n(1)] False obtain m c final where d: "ad_decrypt K m c (chunk_aad aad (sr_index r) final) = Some p"
      "sr_index s = Suc (sr_index r)" "sr_eof s = final" by auto
    from "1.prems"(1) d(1) have "(chunk_aad aad (sr_index r) final, p) \<in> sealed_by_all saves" by (auto simp: authentic_def)
    from opened_in_place [OF "1.prems"(2,3) this] "1.prems"(4) False d(2,3) have "placed cs s"
      by (auto simp: placed_def split: if_splits)
    with "1.IH" [OF False n(1) refl "1.prems"(1-3) _ n(2)] show ?thesis by blast
  qed
qed

text \<open>C8: A changed save file never gives anything but the beginning of the data of the save that has
  its header: with a key that only sealed the chunks of some saves, and whatever bytes the file holds
  (frames of other saves, frames in another order, repeated, missing, cut), what is read in all the
  reads that succeed is a prefix of the data of that save; a read of everything that succeeds gave all
  of it, and \<open>finish\<close> succeeds only once every chunk of it and its end have been there.\<close>

theorem changed_file_detected:
  assumes "authentic K (sealed_by_all saves)" "saves_ok saves" "(aad, cs) \<in> saves"
    and "read_all K aad ns (open_reader input) = Inr (outs, r)"
  shows "prefix (concat outs) (concat cs) \<and>
    (\<forall>data r'. read_loop K aad None r = Inr (data, r') \<longrightarrow> concat outs @ data = concat cs) \<and>
    (\<forall>r'. finish_reader K aad r = Inr r' \<longrightarrow> sr_index r' = Suc (length cs))"
proof -
  have "genuine cs [] (open_reader input)" by (simp add: genuine_def open_reader_def)
  from read_all_genuine [OF assms(1-3) this assms(4)] have g: "genuine cs (concat outs) r" by simp
  have "concat outs @ data = concat cs" if "read_loop K aad None r = Inr (data, r')" for data r'
    using read_loop_genuine [OF assms(1-3) g that] by (auto simp: genuine_def)
  with genuine_prefix [OF g] finish_placed [OF assms(1-3) genuine_placed [OF g]] show ?thesis by blast
qed

section \<open>A save\<close>

text \<open>A cipher that opens the chunks of one save only: the plaintext with 16 bytes behind it.\<close>

definition demo_aad :: octets where "demo_aad = replicate 32 7"
definition demo_data :: octets where "demo_data = [1, 2, 3]"
definition demo_nonces :: "nat \<Rightarrow> octets" where "demo_nonces i = replicate NONCE_SIZE 0"

definition demo_sealed :: "(octets \<times> octets) list" where
  "demo_sealed = [(chunk_aad demo_aad 0 False, demo_data), (chunk_aad demo_aad 1 True, [])]"

definition demo_aead :: aead where
  "demo_aead = \<lparr>ad_encrypt = \<lambda>n p a. p @ replicate 16 0, ad_decrypt = \<lambda>n c a.
     (let p = take (length c - 16) c in if (a, p) \<in> set demo_sealed then Some p else None)\<rparr>"

lemma demo_sealed_set: "set demo_sealed = sealed_by demo_aad [demo_data]"
  by (auto simp: demo_sealed_def sealed_by_def)

lemma demo_chunks: "chunks_of demo_data = [demo_data]"
  by (rule chunks_of_simps) (simp_all add: demo_data_def SAVE_CHUNK_def)

lemma demo_save: "save_ok demo_aead demo_aad demo_nonces [demo_data]"
  by (simp add: save_ok_def aead_ok_def demo_sealed_set [symmetric] demo_aead_def demo_nonces_def)
    (simp add: demo_data_def SAVE_CHUNK_def)

lemma demo_authentic: "authentic demo_aead (sealed_by_all {(demo_aad, [demo_data])})"
  by (auto simp: authentic_def sealed_by_all_def demo_sealed_set [symmetric] demo_aead_def Let_def split: if_splits)

theorem save_roundtrip_witness:
  "\<exists>r. read_all demo_aead demo_aad [Some 2, None] (open_reader
     [sw_out (close_writer demo_aead demo_aad demo_nonces (fold (write_data demo_aead demo_aad demo_nonces) [[1, 2], [3]] new_writer))])
   = Inr ([[1, 2], [3]], r)"
proof -
  let ?out = "sw_out (close_writer demo_aead demo_aad demo_nonces (fold (write_data demo_aead demo_aad demo_nonces) [[1, 2], [3]] new_writer))"
  have c: "concat [[1, 2], [3]] = demo_data" by (simp add: demo_data_def)
  have "?out \<noteq> []" unfolding writer_stream by (simp add: frames_from_def frame_def Let_def)
  then have "pieces ?out [?out]" by (simp add: pieces_def)
  from save_roundtrip [OF _ this, of "[Some 2, None]"] demo_save show ?thesis
    unfolding c demo_chunks by (auto simp: demo_data_def simp del: read_all.simps fold_simps)
qed

theorem changed_file_detected_witness:
  "\<exists>input outs r. read_all demo_aead demo_aad [Some 2] (open_reader input) = Inr (outs, r) \<and> outs = [[1, 2]] \<and>
     prefix (concat outs) (concat [demo_data])"
proof -
  let ?input = "[frames_from demo_aead demo_aad demo_nonces [demo_data] 0]"
  have "frames_from demo_aead demo_aad demo_nonces [demo_data] 0 \<noteq> []" by (simp add: frames_from_def frame_def Let_def)
  then have "reading demo_aead demo_aad demo_nonces [demo_data] (open_reader ?input) demo_data"
    by (simp add: reading_def open_reader_def pieces_def)
  from read_all_reading [OF demo_save this, of "[Some 2]"] obtain r where
    r: "read_all demo_aead demo_aad [Some 2] (open_reader ?input) = Inr ([[1, 2]], r)" by (auto simp: demo_data_def)
  have "saves_ok {(demo_aad, [demo_data])}" by (simp add: saves_ok_def demo_aad_def)
  from changed_file_detected [OF demo_authentic this _ r] r show ?thesis by blast
qed

end
