(* ===== verification/Access_Stats.thy ===== *)
theory Access_Stats
  imports Access_Log Exam_Model
begin

text \<open>
  The statistics of the connection log (\<^verbatim>\<open>src/src/sreweb/portal/accessstats.py\<close>) from its rows and
  from the open sessions (\<open>session_of_row\<close> and \<open>session_of_visit\<close> of
  \<^verbatim>\<open>src/src/sreweb/portal/accesshistory.py\<close>). Times are real numbers; the details of a row are the
  fields of its line that have no column, as \<open>row_of\<close> keeps them. \<open>strptime\<close> of the time format of
  the lines, \<open>str\<close> of the values that are neither texts nor integers and \<open>int\<close> of a text are arguments (\<open>py_values\<close>). A
  computation that raises gives \<open>None\<close>.
\<close>

section \<open>The rows and the sessions\<close>

record log_row =
  lr_id :: int
  lr_ts :: "real option"
  lr_event :: string
  lr_login :: string
  lr_addr :: string
  lr_rln :: string
  lr_lab :: string
  lr_status :: string
  lr_duration :: "real option"
  lr_details :: line_fields

record py_values =
  py_time :: "string \<Rightarrow> real option"
  py_str :: "fvalue \<Rightarrow> string"
  py_int_text :: "string \<Rightarrow> int option"

record log_session =
  hs_id :: "int option"
  hs_login :: string
  hs_name :: string
  hs_role :: string
  hs_group :: string
  hs_addr :: string
  hs_start :: "real option"
  hs_end :: "real option"
  hs_closed :: "real option"
  hs_duration :: real
  hs_requests :: int
  hs_projects :: "string list"
  hs_reason :: "string option"
  hs_sockets :: "nat option"

definition SESSION_CLOSE_EVENT :: string where "SESSION_CLOSE_EVENT = ''session_close''"

text \<open>Python's truth of a value, and \<open>str(value or '')\<close>.\<close>

fun value_true :: "fvalue \<Rightarrow> bool" where
  "value_true VNone = False"
| "value_true (VBool b) = b"
| "value_true (VFloat x) = (x \<noteq> Fin 0)"
| "value_true (VStr s) = (s \<noteq> [])"
| "value_true (VInt i) = (i \<noteq> 0)"
| "value_true (VList l) = (l \<noteq> [])"
| "value_true (VSet l) = (l \<noteq> [])"

definition value_str :: "py_values \<Rightarrow> fvalue \<Rightarrow> string" where
  "value_str Q v = (case v of VStr s \<Rightarrow> s | VInt i \<Rightarrow> str_int i | _ \<Rightarrow> py_str Q v)"

definition text_or_blank :: "py_values \<Rightarrow> fvalue option \<Rightarrow> string" where
  "text_or_blank Q v = (case v of Some x \<Rightarrow> if value_true x then value_str Q x else [] | None \<Rightarrow> [])"

definition parse_log_time :: "py_values \<Rightarrow> fvalue option \<Rightarrow> real option" where
  "parse_log_time Q v = (case v of Some x \<Rightarrow> if value_true x then py_time Q (value_str Q x) else None | None \<Rightarrow> None)"

text \<open>\<open>_int\<close>: \<open>int()\<close> of an infinite number raises \<open>OverflowError\<close>, which is not caught.\<close>

definition int_or_zero :: "py_values \<Rightarrow> fvalue option \<Rightarrow> int option" where
  "int_or_zero Q v = (case v of
     Some (VInt i) \<Rightarrow> Some i
   | Some (VBool b) \<Rightarrow> Some (if b then 1 else 0)
   | Some (VFloat (Fin x)) \<Rightarrow> Some (if 0 \<le> x then \<lfloor>x\<rfloor> else \<lceil>x\<rceil>)
   | Some (VFloat PInf) \<Rightarrow> None
   | Some (VFloat NInf) \<Rightarrow> None
   | Some (VStr s) \<Rightarrow> Some (case py_int_text Q s of Some i \<Rightarrow> i | None \<Rightarrow> 0)
   | _ \<Rightarrow> Some 0)"

definition projects_of_details :: "fvalue option \<Rightarrow> string list" where
  "projects_of_details v = (case v of
     Some (VStr s) \<Rightarrow> if s = [] then [] else [s]
   | Some (VList l) \<Rightarrow> l
   | _ \<Rightarrow> [])"

definition session_of_row :: "py_values \<Rightarrow> log_row \<Rightarrow> log_session option" where
  "session_of_row Q r =
     (let d = lr_details r;
          spent = (case lr_duration r of Some x \<Rightarrow> x | None \<Rightarrow> 0);
          start = (case parse_log_time Q (dget d ''since'') of
            Some t \<Rightarrow> Some t
          | None \<Rightarrow> (case lr_ts r of Some ts \<Rightarrow> Some (ts - spent) | None \<Rightarrow> None));
          reason = dget d ''reason''
      in case int_or_zero Q (dget d ''requests'') of
           None \<Rightarrow> None
         | Some requests \<Rightarrow> Some \<lparr>hs_id = Some (lr_id r), hs_login = lr_login r,
             hs_name = text_or_blank Q (dget d ''name''), hs_role = text_or_blank Q (dget d ''role''),
             hs_group = text_or_blank Q (dget d ''group''), hs_addr = lr_addr r,
             hs_start = start, hs_end = map_option (\<lambda>t. t + spent) start, hs_closed = lr_ts r,
             hs_duration = spent, hs_requests = requests, hs_projects = projects_of_details (dget d ''projects''),
             hs_reason = (case reason of Some v \<Rightarrow> if value_true v then Some (value_str Q v) else None | None \<Rightarrow> None),
             hs_sockets = None\<rparr>)"

definition session_of_visit :: "visit \<Rightarrow> log_session" where
  "session_of_visit v = \<lparr>hs_id = None, hs_login = vi_login v, hs_name = vi_name v, hs_role = vi_role v,
     hs_group = vi_group v, hs_addr = vi_addr v, hs_start = Some (vi_first v), hs_end = Some (vi_last v),
     hs_closed = None, hs_duration = duration v, hs_requests = int (vi_requests v), hs_projects = vi_projects v,
     hs_reason = None, hs_sockets = Some (vi_sockets v)\<rparr>"

section \<open>The instants\<close>

type_synonym span = "real \<times> real"

text \<open>\<open>lab_of_rln\<close> of this module: all three parts must be there.\<close>

definition stats_lab :: "string \<Rightarrow> string" where
  "stats_lab rln = (case split3 rln of
     [stamp, lab, owner] \<Rightarrow> if stamp \<noteq> [] \<and> lab \<noteq> [] \<and> owner \<noteq> [] then normal_lab lab else []
   | _ \<Rightarrow> [])"

definition intersects :: "real \<Rightarrow> real \<Rightarrow> real \<Rightarrow> real \<Rightarrow> bool" where
  "intersects start fin since until \<longleftrightarrow> start < until \<and> (since < fin \<or> since \<le> start)"

definition clip :: "real \<Rightarrow> real \<Rightarrow> real \<Rightarrow> real \<Rightarrow> span option" where
  "clip start fin since until =
     (let lo = max start since; hi = min fin until in if lo \<le> hi then Some (lo, hi) else None)"

definition merge_step :: "span list \<Rightarrow> span \<Rightarrow> span list" where
  "merge_step merged iv =
     (if merged \<noteq> [] \<and> fst iv \<le> snd (last merged)
      then (if snd (last merged) < snd iv then butlast merged @ [(fst (last merged), snd iv)] else merged)
      else merged @ [iv])"

definition merge_intervals :: "span list \<Rightarrow> span list" where
  "merge_intervals ivs = foldl merge_step [] (sort ivs)"

definition total_of :: "span list \<Rightarrow> real" where
  "total_of ivs = sum_list (map (\<lambda>(start, fin). fin - start) ivs)"

text \<open>\<open>peak_of\<close>: the ends come before the starts of the same instant.\<close>

definition peak_events :: "span list \<Rightarrow> (real \<times> int) list" where
  "peak_events ivs = sort (concat (map (\<lambda>(start, fin). if start < fin then [(start, 1), (fin, -1)] else []) ivs))"

definition peak_step :: "int \<times> real option \<times> int \<Rightarrow> real \<times> int \<Rightarrow> int \<times> real option \<times> int" where
  "peak_step st ev = (case st of (best, first, count) \<Rightarrow>
     (let count = count + snd ev in if best < count then (count, Some (fst ev), count) else (best, first, count)))"

definition peak_of :: "span list \<Rightarrow> int \<times> real option" where
  "peak_of ivs = (case foldl peak_step (0, None, 0) (peak_events ivs) of (best, first, count) \<Rightarrow> (best, first))"

definition BUCKETS :: "(real \<times> real option) list" where
  "BUCKETS = [(0, Some 900), (900, Some 1800), (1800, Some 3600), (3600, Some 7200), (7200, Some 14400), (14400, None)]"

definition in_bucket :: "real \<Rightarrow> real \<times> real option \<Rightarrow> bool" where
  "in_bucket t b \<longleftrightarrow> fst b \<le> t \<and> (case snd b of None \<Rightarrow> True | Some hi \<Rightarrow> t < hi)"

text \<open>One time: the first bucket it falls in counts one more.\<close>

fun count_in :: "real \<Rightarrow> ((real \<times> real option) \<times> nat) list \<Rightarrow> ((real \<times> real option) \<times> nat) list" where
  "count_in t [] = []"
| "count_in t ((b, n) # rows) = (if in_bucket t b then (b, Suc n) # rows else (b, n) # count_in t rows)"

definition distribution_of :: "real list \<Rightarrow> ((real \<times> real option) \<times> nat) list" where
  "distribution_of ts = foldl (\<lambda>rows t. count_in t rows) (map (\<lambda>b. (b, 0)) BUCKETS) ts"

definition median :: "real list \<Rightarrow> real" where
  "median vs = (let ordered = sort vs; n = length vs in
     if vs = [] then 0 else if odd n then ordered ! (n div 2) else (ordered ! (n div 2 - 1) + ordered ! (n div 2)) / 2)"

section \<open>The users and the labs\<close>

definition PROJECT_CLOSE_EVENT :: string where "PROJECT_CLOSE_EVENT = ''project_close''"
definition START_EVENT :: string where "START_EVENT = ''start''"
definition EVAL_EVENT :: string where "EVAL_EVENT = ''eval''"
definition OK_STATUS :: string where "OK_STATUS = ''200''"

record user_stat =
  us_login :: string
  us_name :: string
  us_role :: string
  us_group :: string
  us_sessions :: nat
  us_open :: nat
  us_requests :: int
  us_evaluations :: nat
  us_intervals :: "span list"
  us_pages :: "span list"
  us_addresses :: "string list"
  us_projects :: "string list"

definition new_user :: "string \<Rightarrow> user_stat" where
  "new_user who = \<lparr>us_login = who, us_name = [], us_role = [], us_group = [], us_sessions = 0, us_open = 0,
     us_requests = 0, us_evaluations = 0, us_intervals = [], us_pages = [], us_addresses = [], us_projects = []\<rparr>"

definition seen :: "log_session \<Rightarrow> user_stat \<Rightarrow> user_stat" where
  "seen s u = u\<lparr>us_name := if hs_name s \<noteq> [] then hs_name s else us_name u,
     us_role := if hs_role s \<noteq> [] then hs_role s else us_role u,
     us_group := if hs_group s \<noteq> [] then hs_group s else us_group u\<rparr>"

definition is_student :: "user_stat \<Rightarrow> bool" where
  "is_student u \<longleftrightarrow> us_role u \<noteq> ''instructor''"

record lab_stat =
  lb_lab :: string
  lb_starts :: nat
  lb_evaluations :: nat
  lb_pages :: "(string \<times> span list) list"
  lb_users :: "string list"
  lb_projects :: "string list"

definition new_lab :: "string \<Rightarrow> lab_stat" where
  "new_lab lab = \<lparr>lb_lab = lab, lb_starts = 0, lb_evaluations = 0, lb_pages = [], lb_users = [], lb_projects = []\<rparr>"

text \<open>\<open>_get(table, cls, key)\<close> and what is then done to the entry.\<close>

definition at_entry :: "('k \<Rightarrow> 'v) \<Rightarrow> 'k \<Rightarrow> ('v \<Rightarrow> 'v) \<Rightarrow> ('k \<times> 'v) list \<Rightarrow> ('k \<times> 'v) list" where
  "at_entry new k f table = dset table k (f (case dget table k of None \<Rightarrow> new k | Some e \<Rightarrow> e))"

record tally =
  ta_users :: "(string \<times> user_stat) list"
  ta_labs :: "(string \<times> lab_stat) list"
  ta_used :: "string list"
  ta_started :: nat

definition no_tally :: tally where
  "no_tally = \<lparr>ta_users = [], ta_labs = [], ta_used = [], ta_started = 0\<rparr>"

text \<open>A session. (A span that \<open>clip\<close> does not give is kept as \<open>None\<close>, which the merge cannot
  unpack: it raises.)\<close>

definition user_session :: "log_session \<Rightarrow> span \<Rightarrow> user_stat \<Rightarrow> user_stat" where
  "user_session s iv u = (let u = seen s u in
     u\<lparr>us_sessions := Suc (us_sessions u), us_open := us_open u + (if hs_closed s = None then 1 else 0),
       us_intervals := us_intervals u @ [iv], us_addresses := ladd (us_addresses u) (hs_addr s),
       us_requests := us_requests u + hs_requests s, us_projects := lunion (us_projects u) (hs_projects s)\<rparr>)"

definition add_session :: "real \<Rightarrow> real \<Rightarrow> log_session \<Rightarrow> tally \<Rightarrow> tally option" where
  "add_session since until s t = (case (hs_start s, hs_end s) of
     (Some start, Some fin) \<Rightarrow>
       (let fin = max fin start
        in if \<not> intersects start fin since until then Some t
           else (case clip start fin since until of
                   None \<Rightarrow> None
                 | Some iv \<Rightarrow> Some (t\<lparr>ta_users := at_entry new_user (hs_login s) (user_session s iv) (ta_users t),
                     ta_used := lunion (ta_used t) (hs_projects s)\<rparr>)))
   | _ \<Rightarrow> Some t)"

text \<open>A row: the page of a project closed, a project started, an evaluation.\<close>

definition in_period :: "real option \<Rightarrow> real \<Rightarrow> real \<Rightarrow> bool" where
  "in_period ts since until = (case ts of None \<Rightarrow> False | Some t \<Rightarrow> since \<le> t \<and> t < until)"

definition add_if :: "string \<Rightarrow> string list \<Rightarrow> string list" where
  "add_if rln l = (if rln = [] then l else ladd l rln)"

definition on_user :: "string \<Rightarrow> string \<Rightarrow> (user_stat \<Rightarrow> user_stat) \<Rightarrow> tally \<Rightarrow> tally" where
  "on_user who rln f t = t\<lparr>ta_users := at_entry new_user who
       (\<lambda>u. let u = f u in u\<lparr>us_projects := add_if rln (us_projects u)\<rparr>) (ta_users t),
     ta_used := add_if rln (ta_used t)\<rparr>"

definition on_lab :: "string \<Rightarrow> string \<Rightarrow> string \<Rightarrow> (lab_stat \<Rightarrow> lab_stat) \<Rightarrow> tally \<Rightarrow> tally" where
  "on_lab lab who rln f t = (if lab = [] then t else
     t\<lparr>ta_labs := at_entry new_lab lab (\<lambda>e. let e = f e in
         e\<lparr>lb_users := ladd (lb_users e) who, lb_projects := add_if rln (lb_projects e)\<rparr>) (ta_labs t)\<rparr>)"

definition add_page :: "real \<Rightarrow> real \<Rightarrow> log_row \<Rightarrow> tally \<Rightarrow> tally option" where
  "add_page since until r t =
     (if (case dget (lr_details r) ''spectator'' of Some v \<Rightarrow> value_true v | None \<Rightarrow> False) then Some t
      else (case (lr_duration r, lr_ts r) of
        (Some spent, Some fin) \<Rightarrow>
          (let start = fin - max 0 spent
           in if \<not> intersects start fin since until then Some t
              else (case clip start fin since until of
                      None \<Rightarrow> None
                    | Some iv \<Rightarrow> Some (on_lab (stats_lab (lr_rln r)) (lr_login r) (lr_rln r)
                        (\<lambda>e. e\<lparr>lb_pages := at_entry (\<lambda>_. []) (lr_login r) (\<lambda>ivs. ivs @ [iv]) (lb_pages e)\<rparr>)
                        (on_user (lr_login r) (lr_rln r) (\<lambda>u. u\<lparr>us_pages := us_pages u @ [iv]\<rparr>) t))))
      | _ \<Rightarrow> Some t))"

definition add_start :: "real \<Rightarrow> real \<Rightarrow> log_row \<Rightarrow> tally \<Rightarrow> tally" where
  "add_start since until r t =
     (if dget (lr_details r) ''result'' \<noteq> Some (VStr ''created'') \<or> \<not> in_period (lr_ts r) since until then t
      else on_lab (if stats_lab (lr_rln r) \<noteq> [] then stats_lab (lr_rln r) else lr_lab r) (lr_login r) (lr_rln r)
        (\<lambda>e. e\<lparr>lb_starts := Suc (lb_starts e)\<rparr>)
        (on_user (lr_login r) (lr_rln r) (\<lambda>u. u) (t\<lparr>ta_started := Suc (ta_started t)\<rparr>)))"

definition add_eval :: "real \<Rightarrow> real \<Rightarrow> log_row \<Rightarrow> tally \<Rightarrow> tally" where
  "add_eval since until r t =
     (if lr_status r \<noteq> OK_STATUS \<or> \<not> in_period (lr_ts r) since until then t
      else on_lab (stats_lab (lr_rln r)) (lr_login r) (lr_rln r)
        (\<lambda>e. e\<lparr>lb_evaluations := Suc (lb_evaluations e)\<rparr>)
        (on_user (lr_login r) (lr_rln r) (\<lambda>u. u\<lparr>us_evaluations := Suc (us_evaluations u)\<rparr>) t))"

definition add_row :: "real \<Rightarrow> real \<Rightarrow> log_row \<Rightarrow> tally \<Rightarrow> tally option" where
  "add_row since until r t =
     (if lr_event r = PROJECT_CLOSE_EVENT then add_page since until r t
      else if lr_event r = START_EVENT then Some (add_start since until r t)
      else if lr_event r = EVAL_EVENT then Some (add_eval since until r t)
      else Some t)"

fun run_all :: "('a \<Rightarrow> 's \<Rightarrow> 's option) \<Rightarrow> 'a list \<Rightarrow> 's \<Rightarrow> 's option" where
  "run_all f [] s = Some s"
| "run_all f (x # xs) s = (case f x s of None \<Rightarrow> None | Some t \<Rightarrow> run_all f xs t)"

text \<open>\<open>session_of_row\<close> of each closing line, the oldest first, then the open sessions.\<close>

definition all_sessions :: "py_values \<Rightarrow> log_row list \<Rightarrow> log_session list \<Rightarrow> log_session list option" where
  "all_sessions Q rows open_sessions =
     map_option (\<lambda>closed. closed @ open_sessions)
       (those (map (session_of_row Q) (filter (\<lambda>r. lr_event r = SESSION_CLOSE_EVENT) (rev rows))))"

definition tally_of :: "real \<Rightarrow> real \<Rightarrow> log_session list \<Rightarrow> log_row list \<Rightarrow> tally option" where
  "tally_of since until sessions rows =
     Option.bind (run_all (add_session since until) sessions no_tally) (run_all (add_row since until) rows)"

section \<open>The answer\<close>

record user_row =
  ur_login :: string
  ur_name :: string
  ur_role :: string
  ur_group :: string
  ur_sessions :: nat
  ur_open :: nat
  ur_time :: real
  ur_page_time :: real
  ur_first :: "real option"
  ur_last :: "real option"
  ur_addresses :: nat
  ur_projects :: nat
  ur_evaluations :: nat
  ur_requests :: int

definition user_row_of :: "user_stat \<Rightarrow> user_row" where
  "user_row_of u = (let merged = merge_intervals (us_intervals u) in
     \<lparr>ur_login = us_login u, ur_name = us_name u, ur_role = (if is_student u then ''student'' else ''instructor''),
       ur_group = us_group u, ur_sessions = us_sessions u, ur_open = us_open u, ur_time = total_of merged,
       ur_page_time = total_of (merge_intervals (us_pages u)),
       ur_first = (if merged = [] then None else Some (fst (hd merged))),
       ur_last = (if merged = [] then None else Some (snd (last merged))),
       ur_addresses = length (us_addresses u), ur_projects = length (us_projects u),
       ur_evaluations = us_evaluations u, ur_requests = us_requests u\<rparr>)"

record group_stat =
  gs_group :: string
  gs_students :: nat
  gs_sessions :: nat
  gs_time :: real
  gs_projects :: "string list"
  gs_evaluations :: nat

definition new_group :: "string \<Rightarrow> group_stat" where
  "new_group g = \<lparr>gs_group = g, gs_students = 0, gs_sessions = 0, gs_time = 0, gs_projects = [], gs_evaluations = 0\<rparr>"

definition add_to_group :: "(string \<times> group_stat) list \<Rightarrow> user_stat \<Rightarrow> (string \<times> group_stat) list" where
  "add_to_group groups u = (if is_student u then
     at_entry new_group (us_group u) (\<lambda>g. g\<lparr>gs_students := Suc (gs_students g), gs_sessions := gs_sessions g + us_sessions u,
       gs_time := gs_time g + total_of (merge_intervals (us_intervals u)),
       gs_projects := lunion (gs_projects g) (us_projects u),
       gs_evaluations := gs_evaluations g + us_evaluations u\<rparr>) groups
   else groups)"

text \<open>A row of the groups: the group, its number of projects and the average time of its students.\<close>

definition group_row_of :: "group_stat \<Rightarrow> group_stat \<times> nat \<times> real" where
  "group_row_of g = (g, length (gs_projects g), if gs_students g = 0 then 0 else gs_time g / real (gs_students g))"

record lab_row =
  lw_lab :: string
  lw_projects :: nat
  lw_users :: nat
  lw_students :: nat
  lw_time :: real
  lw_average :: real
  lw_starts :: nat
  lw_evaluations :: nat

text \<open>\<open>users[login]\<close> of a login that has no entry raises.\<close>

definition lab_row_of :: "(string \<times> user_stat) list \<Rightarrow> lab_stat \<Rightarrow> lab_row option" where
  "lab_row_of users e =
     (let times = map (\<lambda>(who, pages). total_of (merge_intervals pages)) (lb_pages e); time = sum_list times
      in map_option (\<lambda>us. \<lparr>lw_lab = lb_lab e, lw_projects = length (lb_projects e), lw_users = length (lb_users e),
             lw_students = length (filter is_student us), lw_time = time,
             lw_average = (if times = [] then 0 else time / real (length times)),
             lw_starts = lb_starts e, lw_evaluations = lb_evaluations e\<rparr>)
           (those (map (dget users) (lb_users e))))"

record totals_row =
  tt_users :: nat
  tt_students :: nat
  tt_instructors :: nat
  tt_groups :: nat
  tt_sessions :: nat
  tt_open :: nat
  tt_addresses :: nat
  tt_time :: real
  tt_students_time :: real
  tt_average :: real
  tt_median :: real
  tt_longest :: real
  tt_peak :: "int \<times> real option"
  tt_started :: nat
  tt_used :: nat
  tt_evaluations :: nat
  tt_page_time :: real

record statistics =
  st_totals :: totals_row
  st_users :: "user_row list"
  st_groups :: "(group_stat \<times> nat \<times> real) list"
  st_labs :: "lab_row list"
  st_distribution :: "((real \<times> real option) \<times> nat) list"

definition student_times :: "user_row list \<Rightarrow> real list" where
  "student_times rows = map ur_time (filter (\<lambda>r. ur_role r = ''student'') rows)"

definition totals_of :: "tally \<Rightarrow> user_row list \<Rightarrow> (group_stat \<times> nat \<times> real) list \<Rightarrow> totals_row" where
  "totals_of t user_rows group_rows =
     (let users = vals_of (ta_users t); times = student_times user_rows
      in \<lparr>tt_users = length user_rows, tt_students = length times, tt_instructors = length user_rows - length times,
         tt_groups = length (filter (\<lambda>(g, _). gs_group g \<noteq> []) group_rows),
         tt_sessions = sum_list (map ur_sessions user_rows), tt_open = sum_list (map ur_open user_rows),
         tt_addresses = length (lunion [] (concat (map us_addresses users))),
         tt_time = sum_list (map ur_time user_rows), tt_students_time = sum_list times,
         tt_average = (if times = [] then 0 else sum_list times / real (length times)),
         tt_median = median times, tt_longest = (if times = [] then 0 else Max (set times)),
         tt_peak = peak_of (concat (map (\<lambda>u. merge_intervals (us_intervals u)) users)),
         tt_started = ta_started t, tt_used = length (ta_used t),
         tt_evaluations = sum_list (map ur_evaluations user_rows), tt_page_time = sum_list (map ur_page_time user_rows)\<rparr>)"

definition statistics_of :: "tally \<Rightarrow> statistics option" where
  "statistics_of t =
     (let users = vals_of (ta_users t);
          user_rows = sort_key (\<lambda>r. (- ur_time r, ur_login r)) (map user_row_of users);
          group_rows = map group_row_of (sort_key gs_group (vals_of (foldl add_to_group [] users)))
      in map_option (\<lambda>lab_rows. \<lparr>st_totals = totals_of t user_rows group_rows, st_users = user_rows, st_groups = group_rows,
             st_labs = sort_key (\<lambda>r. (- lw_time r, lw_lab r)) lab_rows,
             st_distribution = distribution_of (student_times user_rows)\<rparr>)
           (those (map (lab_row_of (ta_users t)) (vals_of (ta_labs t)))))"

definition compute_statistics :: "py_values \<Rightarrow> log_row list \<Rightarrow> log_session list \<Rightarrow> real \<Rightarrow> real \<Rightarrow> statistics option" where
  "compute_statistics Q rows open_sessions since until =
     Option.bind (all_sessions Q rows open_sessions)
       (\<lambda>sessions. Option.bind (tally_of since until sessions rows) statistics_of)"

end
