(* ===== verification/Access_Stats_Safety.thy ===== *)
theory Access_Stats_Safety
  imports Access_Stats "HOL-Library.Multiset"
begin

text \<open>
  The statistics of the connection log: the merge of intervals is the canonical form of their union,
  the peak is the greatest number of intervals open at once, the loops over the sessions and the rows
  give the summary of each login and of each lab described from its own rows, and the totals agree
  with the rows.
\<close>

section \<open>The union of intervals\<close>

text \<open>The instants some intervals cover, and the form a merged list has.\<close>

definition covered :: "span list \<Rightarrow> real set" where
  "covered ivs = (\<Union>iv \<in> set ivs. {fst iv..snd iv})"

definition spans_ok :: "span list \<Rightarrow> bool" where
  "spans_ok ivs \<longleftrightarrow> (\<forall>iv \<in> set ivs. fst iv \<le> snd iv)"

definition separated :: "span list \<Rightarrow> bool" where
  "separated ivs \<longleftrightarrow> spans_ok ivs \<and> sorted_wrt (\<lambda>a b. snd a < fst b) ivs"

lemma covered_simps [simp]: "covered [] = {}" "covered (iv # ivs) = {fst iv..snd iv} \<union> covered ivs"
  "covered (ivs @ jvs) = covered ivs \<union> covered jvs"
  by (auto simp: covered_def)

lemma spans_ok_simps [simp]: "spans_ok []" "spans_ok (iv # ivs) \<longleftrightarrow> fst iv \<le> snd iv \<and> spans_ok ivs"
  "spans_ok (ivs @ jvs) \<longleftrightarrow> spans_ok ivs \<and> spans_ok jvs"
  by (auto simp: spans_ok_def)

lemma separated_simps [simp]: "separated []"
  "separated (iv # ivs) \<longleftrightarrow> fst iv \<le> snd iv \<and> (\<forall>jv \<in> set ivs. snd iv < fst jv) \<and> separated ivs"
  "separated (ivs @ [iv]) \<longleftrightarrow> separated ivs \<and> fst iv \<le> snd iv \<and> (\<forall>jv \<in> set ivs. snd jv < fst iv)"
  by (auto simp: separated_def sorted_wrt_append)

lemma covered_sort [simp]: "covered (sort ivs) = covered ivs"
  by (simp add: covered_def)

lemma merge_step_separated:
  assumes "separated ms" "fst iv \<le> snd iv" "\<forall>m \<in> set ms. fst m \<le> fst iv"
  shows "separated (merge_step ms iv) \<and> covered (merge_step ms iv) = covered ms \<union> {fst iv..snd iv} \<and>
    (\<forall>m \<in> set (merge_step ms iv). fst m \<le> fst iv)"
proof (cases ms rule: rev_cases)
  case Nil
  with assms(2) show ?thesis by (simp add: merge_step_def)
next
  case (snoc ks m)
  show ?thesis
  proof (cases "fst iv \<le> snd m")
    case True
    with snoc assms have "{fst m..snd m} \<union> {fst iv..snd iv} = {fst m..max (snd m) (snd iv)}" by auto
    with True snoc assms show ?thesis by (auto simp: merge_step_def)
  next
    case False
    with snoc assms have "\<forall>k \<in> set ms. snd k < fst iv" by force
    with assms have "separated (ms @ [iv])" by simp
    with False snoc assms show ?thesis by (auto simp: merge_step_def)
  qed
qed

lemma merge_loop:
  assumes "sorted ivs" "spans_ok ivs" "separated ms" "\<forall>m \<in> set ms. \<forall>iv \<in> set ivs. fst m \<le> fst iv"
  shows "separated (foldl merge_step ms ivs) \<and> covered (foldl merge_step ms ivs) = covered ms \<union> covered ivs"
  using assms
proof (induction ivs arbitrary: ms)
  case (Cons iv ivs)
  have later: "fst iv \<le> fst jv" if "jv \<in> set ivs" for jv
    using Cons.prems(1) that by (auto simp: less_eq_prod_def)
  from merge_step_separated [of ms iv] Cons.prems(2-4)
  have s: "separated (merge_step ms iv)" "covered (merge_step ms iv) = covered ms \<union> {fst iv..snd iv}"
    "\<forall>m \<in> set (merge_step ms iv). fst m \<le> fst iv" by auto
  have "\<forall>m \<in> set (merge_step ms iv). \<forall>jv \<in> set ivs. fst m \<le> fst jv"
    using s(3) later order_trans by blast
  from Cons.IH [OF _ _ s(1) this] Cons.prems(1,2) s(2) show ?case by auto
qed simp

lemma merge_separated:
  assumes "spans_ok ivs"
  shows "separated (merge_intervals ivs)" "covered (merge_intervals ivs) = covered ivs"
  using merge_loop [of "sort ivs" "[]"] assms by (simp_all add: merge_intervals_def spans_ok_def)

lemma separated_starts:
  assumes "separated (iv # ivs)" "t \<in> covered (iv # ivs)"
  shows "fst iv \<le> t" "t \<le> snd iv \<or> t \<in> covered ivs"
proof -
  have "fst iv \<le> x" if "jv \<in> set ivs" "fst jv \<le> x" for jv x
    using assms(1) that by (fastforce simp: separated_def)
  with assms show "fst iv \<le> t" by (auto simp: covered_def)
  from assms(2) show "t \<le> snd iv \<or> t \<in> covered ivs" by auto
qed

lemma covered_tail:
  assumes "separated (iv # ivs)"
  shows "covered ivs = covered (iv # ivs) - {..snd iv}"
  using assms by (fastforce simp: covered_def)

lemma gap_after:
  assumes "separated (iv # ivs)" "snd iv < d"
  obtains t where "snd iv < t" "t \<le> d" "t \<notin> covered (iv # ivs)"
proof (cases ivs)
  case Nil
  with assms(2) show ?thesis by (intro that [of d]) auto
next
  case (Cons jv js)
  define t where "t = (snd iv + min d (fst jv)) / 2"
  from assms Cons have b: "snd iv < fst jv" by simp
  have t: "snd iv < t" "t \<le> d" "t < fst jv" using assms(2) b by (auto simp: t_def min_def field_simps)
  have "t \<notin> covered ivs"
  proof
    assume "t \<in> covered ivs"
    with separated_starts(1) [of jv js t] assms(1) Cons have "fst jv \<le> t" by simp
    with t(3) show False by simp
  qed
  with t that show ?thesis by auto
qed

lemma separated_first_end:
  assumes "separated (a # as)" "separated (b # bs)" "covered (a # as) = covered (b # bs)" "fst a = fst b"
  shows "snd b \<le> snd a"
proof (rule ccontr)
  assume "\<not> snd b \<le> snd a"
  then have "snd a < snd b" by simp
  then obtain t where "snd a < t" "t \<le> snd b" "t \<notin> covered (a # as)" by (rule gap_after [OF assms(1)])
  moreover have "fst b \<le> t" using assms(1,4) \<open>snd a < t\<close> by simp
  moreover from this \<open>t \<le> snd b\<close> have "t \<in> covered (b # bs)" by simp
  ultimately show False using assms(3) by (simp del: covered_simps)
qed

lemma separated_unique: "separated as \<Longrightarrow> separated bs \<Longrightarrow> covered as = covered bs \<Longrightarrow> as = bs"
proof (induction as arbitrary: bs)
  case Nil
  then show ?case by (cases bs) auto
next
  case (Cons a as)
  from Cons.prems obtain b bs' where bs: "bs = b # bs'" by (cases bs) auto
  have in_a: "fst a \<in> covered (a # as)" "fst b \<in> covered (b # bs')" using Cons.prems(1,2) bs by auto
  have "fst b \<le> fst a" "fst a \<le> fst b"
    using separated_starts(1) [of b bs' "fst a"] separated_starts(1) [of a as "fst b"] in_a Cons.prems bs by auto
  then have f: "fst a = fst b" by simp
  have eq: "covered (a # as) = covered (b # bs')" using Cons.prems(3) bs by simp
  from separated_first_end [OF Cons.prems(1) _ eq f] separated_first_end [OF _ Cons.prems(1) eq [symmetric] f [symmetric]]
    Cons.prems(2) bs have s: "snd a = snd b" by (simp del: separated_simps)
  from covered_tail [OF Cons.prems(1)] covered_tail [of b bs'] Cons.prems(2,3) bs s have "covered as = covered bs'" by simp
  moreover have "separated as" "separated bs'" using Cons.prems(1,2) bs by simp_all
  ultimately show ?case using Cons.IH [of bs'] bs f s by (simp add: prod_eq_iff)
qed

text \<open>C31: The merge gives the one list of intervals, increasing and apart, that covers the instants of
  the given ones: whatever their order, the intervals that overlap, touch or repeat count once.\<close>

theorem merge_exact:
  assumes "\<forall>iv \<in> set ivs. fst iv \<le> snd iv"
  shows "merge_intervals ivs = ms \<longleftrightarrow> separated ms \<and> covered ms = covered ivs"
  using merge_separated [of ivs] separated_unique [of "merge_intervals ivs" ms] assms by (auto simp: spans_ok_def)

section \<open>The peak\<close>

text \<open>How many of the intervals are open at an instant.\<close>

definition open_at :: "span list \<Rightarrow> real \<Rightarrow> nat" where
  "open_at ivs t = length (filter (\<lambda>iv. fst iv \<le> t \<and> t < snd iv) ivs)"

lemma open_at_simps [simp]: "open_at [] t = 0"
  "open_at (iv # ivs) t = (if fst iv \<le> t \<and> t < snd iv then 1 else 0) + open_at ivs t"
  "open_at (ivs @ jvs) t = open_at ivs t + open_at jvs t"
  by (simp_all add: open_at_def)

definition psum :: "(real \<times> int) list \<Rightarrow> nat \<Rightarrow> int" where
  "psum es k = sum_list (map snd (take k es))"

text \<open>The loop: the greatest sum of a beginning, and the instant of the first one that reaches it.\<close>

lemma psum_snoc: "k \<le> length es \<Longrightarrow> psum (es @ [e]) k = psum es k"
  "psum (es @ [e]) (Suc (length es)) = sum_list (map snd es) + snd e"
  by (simp_all add: psum_def)

definition peak_found :: "(real \<times> int) list \<Rightarrow> int \<Rightarrow> real option \<Rightarrow> bool" where
  "peak_found es best first \<longleftrightarrow> (\<forall>k \<le> length es. psum es k \<le> best) \<and> (case first of
     None \<Rightarrow> best = 0
   | Some t \<Rightarrow> \<exists>k < length es. fst (es ! k) = t \<and> psum es (Suc k) = best \<and> (\<forall>j \<le> k. psum es j < best))"

lemma peak_step_eq: "peak_step (best, first, c) ev =
    (if best < c + snd ev then (c + snd ev, Some (fst ev), c + snd ev) else (best, first, c + snd ev))"
  by (simp add: peak_step_def Let_def)

lemma peak_loop:
  "\<exists>best first. foldl peak_step (0, None, 0) es = (best, first, sum_list (map snd es)) \<and> peak_found es best first"
proof (induction es rule: rev_induct)
  case Nil
  then show ?case by (simp add: peak_found_def psum_def)
next
  case (snoc e es)
  then obtain best first where fold: "foldl peak_step (0, None, 0) es = (best, first, sum_list (map snd es))"
    and found: "peak_found es best first" by blast
  let ?n = "length es" and ?c = "sum_list (map snd es) + snd e"
  have upto: "(\<forall>k \<le> length (es @ [e]). psum (es @ [e]) k \<le> b) \<longleftrightarrow> (\<forall>k \<le> ?n. psum es k \<le> b) \<and> ?c \<le> b" for b
    by (auto simp: psum_snoc le_Suc_eq)
  show ?case
  proof (cases "best < ?c")
    case True
    have "peak_found (es @ [e]) ?c (Some (fst e))"
      unfolding peak_found_def upto using found True
      by (auto simp: peak_found_def psum_snoc intro!: exI [of _ ?n])
    with fold True show ?thesis by (simp add: peak_step_eq)
  next
    case False
    have "peak_found (es @ [e]) best first"
      unfolding peak_found_def upto using found False
      by (auto simp: peak_found_def psum_snoc nth_append intro: less_SucI split: option.splits)
    with fold False show ?thesis by (simp add: peak_step_eq)
  qed
qed

text \<open>The events up to an instant sum to the intervals open then.\<close>

abbreviation span_events :: "span list \<Rightarrow> (real \<times> int) list" where
  "span_events ivs \<equiv> concat (map (\<lambda>(start, fin). if start < fin then [(start, 1), (fin, -1)] else []) ivs)"

lemma sum_span_events: "sum_list (map snd (filter (\<lambda>e. fst e \<le> t) (span_events ivs))) = int (open_at ivs t)"
  by (induction ivs) (auto split: prod.splits)

lemma sum_list_map_sort: "sum_list (map f (filter P (sort xs))) = sum_list (map f (filter P xs))" for f :: "_ \<Rightarrow> int"
proof -
  have "mset (map f (filter P (sort xs))) = mset (map f (filter P xs))" by (simp add: mset_filter)
  then show ?thesis by (metis sum_mset_sum_list)
qed

lemma filter_sorted_take:
  fixes es :: "(real \<times> int) list"
  assumes "sorted es"
  shows "filter (\<lambda>e. fst e \<le> t) es = take (length (filter (\<lambda>e. fst e \<le> t) es)) es"
  using assms
proof (induction es)
  case (Cons e es)
  show ?case
  proof (cases "fst e \<le> t")
    case True
    with Cons show ?thesis by simp
  next
    case False
    with Cons.prems have "filter (\<lambda>e. fst e \<le> t) es = []" by (auto simp: filter_empty_conv less_eq_prod_def)
    with False show ?thesis by simp
  qed
qed simp

definition upto_count :: "(real \<times> int) list \<Rightarrow> real \<Rightarrow> nat" where
  "upto_count es t = length (filter (\<lambda>e. fst e \<le> t) es)"

lemma open_at_psum: "int (open_at ivs t) = psum (peak_events ivs) (upto_count (peak_events ivs) t)"
proof -
  have "psum (peak_events ivs) (upto_count (peak_events ivs) t) = sum_list (map snd (filter (\<lambda>e. fst e \<le> t) (peak_events ivs)))"
    unfolding psum_def upto_count_def by (subst filter_sorted_take [of "peak_events ivs", symmetric]) (simp_all add: peak_events_def)
  then show ?thesis by (simp add: peak_events_def sum_list_map_sort sum_span_events)
qed

lemma upto_count_nth:
  assumes "sorted es" "k < length es"
  shows "k < upto_count es t \<longleftrightarrow> fst (es ! k) \<le> t"
proof -
  let ?f = "filter (\<lambda>e. fst e \<le> t) es"
  from filter_sorted_take [OF assms(1), of t] have f: "?f = take (length ?f) es" .
  show ?thesis
  proof
    assume "k < upto_count es t"
    then have "es ! k \<in> set ?f" using f by (metis nth_mem nth_take upto_count_def)
    then show "fst (es ! k) \<le> t" by simp
  next
    assume le: "fst (es ! k) \<le> t"
    show "k < upto_count es t"
    proof (rule ccontr)
      assume "\<not> k < upto_count es t"
      then have "length ?f \<le> k" by (simp add: upto_count_def)
      have "fst (es ! j) \<le> t" if "j \<le> k" for j
        using sorted_nth_mono [OF assms(1) that assms(2)] le by (auto simp: less_eq_prod_def)
      then have "filter (\<lambda>e. fst e \<le> t) (take (Suc k) es) = take (Suc k) es"
        using assms(2) by (auto simp: filter_id_conv in_set_conv_nth less_Suc_eq_le) (metis fst_conv)
      then have "Suc k \<le> length ?f"
        using assms(2) by (metis append_take_drop_id filter_append le_add1 length_append length_take min.absorb2 Suc_leI)
      with \<open>length ?f \<le> k\<close> show False by simp
    qed
  qed
qed

lemma peak_events_in: "(t, d) \<in> set (peak_events ivs) \<Longrightarrow> d = 1 \<or> d = -1"
  by (auto simp: peak_events_def split: if_splits)

lemma psum_Suc: "k < length es \<Longrightarrow> psum es (Suc k) = psum es k + snd (es ! k)"
  by (simp add: psum_def take_Suc_conv_app_nth)

text \<open>After a start, only starts are left at the same instant.\<close>

lemma psum_starts:
  assumes "sorted es" "\<forall>e \<in> set es. snd e = 1 \<or> snd e = -1" "k < length es" "snd (es ! k) = 1" "Suc k \<le> m" "m \<le> length es"
    and "\<forall>j < m. fst (es ! j) \<le> fst (es ! k)"
  shows "psum es (Suc k) \<le> psum es m"
  using assms(5,6,7)
proof (induction m rule: dec_induct)
  case (step m)
  then have m: "m < length es" "fst (es ! m) \<le> fst (es ! k)" by auto
  from sorted_nth_mono [OF assms(1), of k m] m step.hyps(1) have "es ! k \<le> es ! m" by simp
  with m(2) assms(4) have "1 \<le> snd (es ! m)" by (auto simp: less_eq_prod_def)
  with psum_Suc [OF m(1)] step show ?case by simp
qed simp

lemma peak_of_open:
  assumes "peak_of ivs = (n, first)"
  shows "int (open_at ivs t) \<le> n" "first = None \<Longrightarrow> n = 0"
    "first = Some t \<Longrightarrow> 0 < n \<and> int (open_at ivs t) = n \<and> (\<forall>u < t. int (open_at ivs u) < n)"
proof -
  let ?es = "peak_events ivs"
  have found: "peak_found ?es n first"
    using peak_loop [of ?es] assms by (auto simp: peak_of_def)
  have sorted: "sorted ?es" by (simp add: peak_events_def)
  have le: "upto_count ?es t \<le> length ?es" for t by (simp add: upto_count_def)
  show all: "int (open_at ivs t) \<le> n" for t using found le by (simp add: open_at_psum peak_found_def)
  show "n = 0" if "first = None" using found that by (simp add: peak_found_def)
  show "0 < n \<and> int (open_at ivs t) = n \<and> (\<forall>u < t. int (open_at ivs u) < n)" if t: "first = Some t"
  proof -
    from found t obtain k where k: "k < length ?es" "fst (?es ! k) = t" "psum ?es (Suc k) = n" "\<forall>j \<le> k. psum ?es j < n"
      by (auto simp: peak_found_def)
    from k(4) [rule_format, of 0] have "0 < n" by (simp add: psum_def)
    moreover have "int (open_at ivs u) < n" if "u < t" for u
      using upto_count_nth [OF sorted k(1), of u] that k(2,4) by (simp add: open_at_psum)
    moreover have "n \<le> int (open_at ivs t)"
    proof -
      have one: "snd (?es ! k) = 1"
      proof -
        have "(fst (?es ! k), snd (?es ! k)) \<in> set ?es" using nth_mem [OF k(1)] by simp
        from peak_events_in [OF this] psum_Suc [OF k(1)] k(3) k(4) [rule_format, OF order_refl] show ?thesis by auto
      qed
      have k_in: "Suc k \<le> upto_count ?es t" using upto_count_nth [OF sorted k(1), of t] k(2) by simp
      have "psum ?es (Suc k) \<le> psum ?es (upto_count ?es t)"
      proof (rule psum_starts [OF sorted _ k(1) one k_in le])
        show "\<forall>e \<in> set ?es. snd e = 1 \<or> snd e = -1" using peak_events_in by force
        show "\<forall>j < upto_count ?es t. fst (?es ! j) \<le> fst (?es ! k)"
        proof (intro allI impI)
          fix j assume j: "j < upto_count ?es t"
          with le [of t] have "j < length ?es" by simp
          from upto_count_nth [OF sorted this, of t] j k(2) show "fst (?es ! j) \<le> fst (?es ! k)" by simp
        qed
      qed
      with k(3) show ?thesis by (simp add: open_at_psum)
    qed
    ultimately show ?thesis using all [of t] by auto
  qed
qed

text \<open>C32: The peak is the greatest number of intervals open at one instant, and its instant the first one
  with that number open: intervals that only touch are not open together, one without length is
  open at no instant.\<close>

theorem peak_exact:
  "case peak_of ivs of (n, first) \<Rightarrow> (\<forall>t. int (open_at ivs t) \<le> n) \<and>
    (case first of None \<Rightarrow> n = 0 | Some t \<Rightarrow> 0 < n \<and> int (open_at ivs t) = n \<and> (\<forall>u < t. int (open_at ivs u) < n))"
  using peak_of_open [of ivs] by (auto split: option.split)

section \<open>What counts, and for whom\<close>

definition session_counts :: "real \<Rightarrow> real \<Rightarrow> log_session \<Rightarrow> bool" where
  "session_counts since until s = (case (hs_start s, hs_end s) of
     (Some start, Some fin) \<Rightarrow> start < until \<and> (since < max fin start \<or> since \<le> start) | _ \<Rightarrow> False)"

definition session_span :: "real \<Rightarrow> real \<Rightarrow> log_session \<Rightarrow> span" where
  "session_span since until s = (max (the (hs_start s)) since, min (max (the (hs_end s)) (the (hs_start s))) until)"

definition page_counts :: "real \<Rightarrow> real \<Rightarrow> log_row \<Rightarrow> bool" where
  "page_counts since until r \<longleftrightarrow> lr_event r = PROJECT_CLOSE_EVENT \<and>
     \<not> (case dget (lr_details r) ''spectator'' of Some v \<Rightarrow> value_true v | None \<Rightarrow> False) \<and>
     (case (lr_duration r, lr_ts r) of (Some spent, Some fin) \<Rightarrow>
        fin - max 0 spent < until \<and> (since < fin \<or> since \<le> fin - max 0 spent) | _ \<Rightarrow> False)"

definition page_span :: "real \<Rightarrow> real \<Rightarrow> log_row \<Rightarrow> span" where
  "page_span since until r = (max (the (lr_ts r) - max 0 (the (lr_duration r))) since, min (the (lr_ts r)) until)"

definition start_counts :: "real \<Rightarrow> real \<Rightarrow> log_row \<Rightarrow> bool" where
  "start_counts since until r \<longleftrightarrow> lr_event r = START_EVENT \<and> dget (lr_details r) ''result'' = Some (VStr ''created'') \<and>
     in_period (lr_ts r) since until"

definition eval_counts :: "real \<Rightarrow> real \<Rightarrow> log_row \<Rightarrow> bool" where
  "eval_counts since until r \<longleftrightarrow> lr_event r = EVAL_EVENT \<and> lr_status r = OK_STATUS \<and> in_period (lr_ts r) since until"

definition row_counts :: "real \<Rightarrow> real \<Rightarrow> log_row \<Rightarrow> bool" where
  "row_counts since until r \<longleftrightarrow> page_counts since until r \<or> start_counts since until r \<or> eval_counts since until r"

definition sessions_of :: "real \<Rightarrow> real \<Rightarrow> log_session list \<Rightarrow> string \<Rightarrow> log_session list" where
  "sessions_of since until ss who = filter (\<lambda>s. hs_login s = who \<and> session_counts since until s) ss"

definition rows_of_user :: "real \<Rightarrow> real \<Rightarrow> log_row list \<Rightarrow> string \<Rightarrow> log_row list" where
  "rows_of_user since until rs who = filter (\<lambda>r. lr_login r = who \<and> row_counts since until r) rs"

definition last_text :: "string list \<Rightarrow> string" where
  "last_text ts = (let kept = filter (\<lambda>t. t \<noteq> []) ts in if kept = [] then [] else last kept)"

text \<open>A user, described from the sessions and the rows of their login alone.\<close>

definition user_of :: "real \<Rightarrow> real \<Rightarrow> log_session list \<Rightarrow> log_row list \<Rightarrow> string \<Rightarrow> user_stat" where
  "user_of since until ss rs who =
     (let mine = sessions_of since until ss who; rows = rows_of_user since until rs who
      in \<lparr>us_login = who, us_name = last_text (map hs_name mine), us_role = last_text (map hs_role mine),
          us_group = last_text (map hs_group mine), us_sessions = length mine,
          us_open = length (filter (\<lambda>s. hs_closed s = None) mine), us_requests = sum_list (map hs_requests mine),
          us_evaluations = length (filter (eval_counts since until) rows),
          us_intervals = map (session_span since until) mine,
          us_pages = map (page_span since until) (filter (page_counts since until) rows),
          us_addresses = lunion [] (map hs_addr mine),
          us_projects = foldl (\<lambda>l rln. add_if rln l) (lunion [] (concat (map hs_projects mine))) (map lr_rln rows)\<rparr>)"

definition user_seen :: "real \<Rightarrow> real \<Rightarrow> log_session list \<Rightarrow> log_row list \<Rightarrow> string \<Rightarrow> bool" where
  "user_seen since until ss rs who \<longleftrightarrow> sessions_of since until ss who \<noteq> [] \<or> rows_of_user since until rs who \<noteq> []"

section \<open>The loops\<close>

lemma run_all_append: "run_all f (xs @ ys) s = Option.bind (run_all f xs s) (run_all f ys)"
  by (induction xs arbitrary: s) (auto split: option.splits)

lemma run_all_snoc: "run_all f (xs @ [x]) s = Option.bind (run_all f xs s) (f x)"
  by (induction xs arbitrary: s) (auto split: option.split)

lemma last_text_snoc: "last_text (ts @ [t]) = (if t \<noteq> [] then t else last_text ts)"
  by (simp add: last_text_def Let_def)

lemma lunion_snoc: "lunion xs [] = xs" "lunion xs [y] = ladd xs y" "lunion xs (ys @ zs) = lunion (lunion xs ys) zs"
  by (simp_all add: lunion_def)

lemma at_entry_dget [simp]: "dget (at_entry new k f d) k' =
    (if k' = k then Some (f (case dget d k of None \<Rightarrow> new k | Some e \<Rightarrow> e)) else dget d k')"
  by (simp add: at_entry_def)

lemma dict_ok_at_entry [simp]: "dict_ok d \<Longrightarrow> dict_ok (at_entry new k f d)"
  by (simp add: at_entry_def)

lemma add_session_eq:
  assumes "since < until"
  shows "add_session since until s t = Some (if session_counts since until s
    then t\<lparr>ta_users := at_entry new_user (hs_login s) (user_session s (session_span since until s)) (ta_users t),
      ta_used := lunion (ta_used t) (hs_projects s)\<rparr> else t)"
  using assms by (auto simp: add_session_def session_counts_def session_span_def intersects_def clip_def Let_def
      split: option.split)

lemma add_row_eq:
  assumes "since < until"
  shows "add_row since until r t = Some (
    if page_counts since until r then on_lab (stats_lab (lr_rln r)) (lr_login r) (lr_rln r)
        (\<lambda>e. e\<lparr>lb_pages := at_entry (\<lambda>_. []) (lr_login r) (\<lambda>ivs. ivs @ [page_span since until r]) (lb_pages e)\<rparr>)
        (on_user (lr_login r) (lr_rln r) (\<lambda>u. u\<lparr>us_pages := us_pages u @ [page_span since until r]\<rparr>) t)
    else if start_counts since until r then add_start since until r t
    else if eval_counts since until r then add_eval since until r t else t)"
proof -
  have e: "START_EVENT \<noteq> PROJECT_CLOSE_EVENT" "EVAL_EVENT \<noteq> PROJECT_CLOSE_EVENT" "EVAL_EVENT \<noteq> START_EVENT"
    by (simp_all add: START_EVENT_def PROJECT_CLOSE_EVENT_def EVAL_EVENT_def)
  have "add_page since until r t = Some (if page_counts since until r then on_lab (stats_lab (lr_rln r)) (lr_login r) (lr_rln r)
        (\<lambda>e. e\<lparr>lb_pages := at_entry (\<lambda>_. []) (lr_login r) (\<lambda>ivs. ivs @ [page_span since until r]) (lb_pages e)\<rparr>)
        (on_user (lr_login r) (lr_rln r) (\<lambda>u. u\<lparr>us_pages := us_pages u @ [page_span since until r]\<rparr>) t) else t)"
    if "lr_event r = PROJECT_CLOSE_EVENT"
    using assms that by (auto simp: add_page_def page_counts_def page_span_def intersects_def clip_def Let_def split: option.split)
  with e show ?thesis
    by (auto simp: add_row_def page_counts_def start_counts_def eval_counts_def add_start_def add_eval_def)
qed

lemma ta_users_on_lab [simp]: "ta_users (on_lab lab who rln f t) = ta_users t"
  by (simp add: on_lab_def)

lemma user_of_session:
  "user_of since until (ss @ [s]) [] who = (if hs_login s = who \<and> session_counts since until s
     then user_session s (session_span since until s) (user_of since until ss [] who) else user_of since until ss [] who)"
  by (simp add: user_of_def sessions_of_def rows_of_user_def user_session_def seen_def last_text_snoc lunion_snoc Let_def)

lemma user_of_row:
  "user_of since until ss (rs @ [r]) who = (if lr_login r = who \<and> row_counts since until r then
     (let u = user_of since until ss rs who in u\<lparr>
       us_evaluations := us_evaluations u + (if eval_counts since until r then 1 else 0),
       us_pages := us_pages u @ (if page_counts since until r then [page_span since until r] else []),
       us_projects := add_if (lr_rln r) (us_projects u)\<rparr>)
     else user_of since until ss rs who)"
  by (simp add: user_of_def rows_of_user_def Let_def)

definition users_view :: "real \<Rightarrow> real \<Rightarrow> log_session list \<Rightarrow> log_row list \<Rightarrow> tally \<Rightarrow> bool" where
  "users_view since until ss rs t \<longleftrightarrow> dict_ok (ta_users t) \<and> (\<forall>who. dget (ta_users t) who =
     (if user_seen since until ss rs who then Some (user_of since until ss rs who) else None))"

lemma user_of_blank: "\<not> user_seen since until ss rs who \<Longrightarrow> user_of since until ss rs who = new_user who"
  by (simp add: user_seen_def user_of_def new_user_def last_text_def lunion_def)

lemma users_view_entry:
  assumes "users_view since until ss rs t"
  shows "(case dget (ta_users t) who of None \<Rightarrow> new_user who | Some e \<Rightarrow> e) = user_of since until ss rs who"
  using assms user_of_blank by (auto simp: users_view_def)

lemma sessions_users:
  assumes "since < until"
  shows "\<exists>t. run_all (add_session since until) ss no_tally = Some t \<and> users_view since until ss [] t"
proof (induction ss rule: rev_induct)
  case Nil
  then show ?case by (simp add: users_view_def no_tally_def user_seen_def sessions_of_def rows_of_user_def)
next
  case (snoc s ss)
  then obtain t where t: "run_all (add_session since until) ss no_tally = Some t" "users_view since until ss [] t" by blast
  have seen: "user_seen since until (ss @ [s]) [] who \<longleftrightarrow>
      hs_login s = who \<and> session_counts since until s \<or> user_seen since until ss [] who" for who
    by (auto simp: user_seen_def sessions_of_def rows_of_user_def)
  let ?t = "if session_counts since until s
    then t\<lparr>ta_users := at_entry new_user (hs_login s) (user_session s (session_span since until s)) (ta_users t),
      ta_used := lunion (ta_used t) (hs_projects s)\<rparr> else t"
  have "users_view since until (ss @ [s]) [] ?t"
    using t(2) users_view_entry [OF t(2)] by (auto simp: users_view_def seen user_of_session)
  moreover have "add_session since until s t = Some ?t" by (rule add_session_eq [OF assms])
  ultimately show ?case using t(1) by (simp add: run_all_snoc del: split_paired_Ex)
qed

text \<open>What a row does to the users: the entry of its login, when it counts.\<close>

definition row_of_user :: "real \<Rightarrow> real \<Rightarrow> log_row \<Rightarrow> user_stat \<Rightarrow> user_stat" where
  "row_of_user since until r u = u\<lparr>
     us_evaluations := us_evaluations u + (if eval_counts since until r then 1 else 0),
     us_pages := us_pages u @ (if page_counts since until r then [page_span since until r] else []),
     us_projects := add_if (lr_rln r) (us_projects u)\<rparr>"

lemma counts_apart:
  "page_counts since until r \<Longrightarrow> \<not> start_counts since until r \<and> \<not> eval_counts since until r"
  "start_counts since until r \<Longrightarrow> \<not> eval_counts since until r"
  by (simp_all add: page_counts_def start_counts_def eval_counts_def START_EVENT_def PROJECT_CLOSE_EVENT_def EVAL_EVENT_def)

lemma add_row_users:
  assumes "since < until"
  obtains t' where "add_row since until r t = Some t'"
    "ta_users t' = (if row_counts since until r
       then at_entry new_user (lr_login r) (row_of_user since until r) (ta_users t) else ta_users t)"
proof -
  have fns: "page_counts since until r \<Longrightarrow> row_of_user since until r =
        (\<lambda>u. let u = u\<lparr>us_pages := us_pages u @ [page_span since until r]\<rparr> in u\<lparr>us_projects := add_if (lr_rln r) (us_projects u)\<rparr>)"
    "start_counts since until r \<Longrightarrow> row_of_user since until r = (\<lambda>u. let u = u in u\<lparr>us_projects := add_if (lr_rln r) (us_projects u)\<rparr>)"
    "eval_counts since until r \<Longrightarrow> row_of_user since until r =
        (\<lambda>u. let u = u\<lparr>us_evaluations := Suc (us_evaluations u)\<rparr> in u\<lparr>us_projects := add_if (lr_rln r) (us_projects u)\<rparr>)"
    using counts_apart [of since until r] by (auto simp: row_of_user_def fun_eq_iff Let_def)
  have started: "start_counts since until r \<Longrightarrow> add_start since until r t =
      on_lab (if stats_lab (lr_rln r) \<noteq> [] then stats_lab (lr_rln r) else lr_lab r) (lr_login r) (lr_rln r)
        (\<lambda>e. e\<lparr>lb_starts := Suc (lb_starts e)\<rparr>) (on_user (lr_login r) (lr_rln r) (\<lambda>u. u) (t\<lparr>ta_started := Suc (ta_started t)\<rparr>))"
    by (simp add: add_start_def start_counts_def)
  have evaluated: "eval_counts since until r \<Longrightarrow> add_eval since until r t =
      on_lab (stats_lab (lr_rln r)) (lr_login r) (lr_rln r) (\<lambda>e. e\<lparr>lb_evaluations := Suc (lb_evaluations e)\<rparr>)
        (on_user (lr_login r) (lr_rln r) (\<lambda>u. u\<lparr>us_evaluations := Suc (us_evaluations u)\<rparr>) t)"
    by (simp add: add_eval_def eval_counts_def)
  show ?thesis
  proof (rule that [OF add_row_eq [OF assms]])
    show "ta_users (if page_counts since until r then on_lab (stats_lab (lr_rln r)) (lr_login r) (lr_rln r)
        (\<lambda>e. e\<lparr>lb_pages := at_entry (\<lambda>_. []) (lr_login r) (\<lambda>ivs. ivs @ [page_span since until r]) (lb_pages e)\<rparr>)
        (on_user (lr_login r) (lr_rln r) (\<lambda>u. u\<lparr>us_pages := us_pages u @ [page_span since until r]\<rparr>) t)
      else if start_counts since until r then add_start since until r t
      else if eval_counts since until r then add_eval since until r t else t) =
      (if row_counts since until r then at_entry new_user (lr_login r) (row_of_user since until r) (ta_users t) else ta_users t)"
      using counts_apart [of since until r] by (auto simp: row_counts_def fns on_user_def started evaluated)
  qed
qed

lemma rows_users:
  assumes "since < until" "users_view since until ss [] t"
  shows "\<exists>u. run_all (add_row since until) rs t = Some u \<and> users_view since until ss rs u"
proof (induction rs rule: rev_induct)
  case Nil
  with assms(2) show ?case by simp
next
  case (snoc r rs)
  then obtain u where u: "run_all (add_row since until) rs t = Some u" "users_view since until ss rs u" by blast
  have seen: "user_seen since until ss (rs @ [r]) who \<longleftrightarrow>
      lr_login r = who \<and> row_counts since until r \<or> user_seen since until ss rs who" for who
    by (auto simp: user_seen_def rows_of_user_def)
  obtain u' where u': "add_row since until r u = Some u'" "ta_users u' = (if row_counts since until r
       then at_entry new_user (lr_login r) (row_of_user since until r) (ta_users u) else ta_users u)"
    using add_row_users [OF assms(1)] .
  have "users_view since until ss (rs @ [r]) u'"
    using u(2) users_view_entry [OF u(2)]
    by (auto simp: users_view_def u'(2) seen user_of_row row_of_user_def Let_def)
  with u(1) u'(1) show ?case by (simp add: run_all_snoc)
qed

section \<open>The labs\<close>

definition lab_key :: "real \<Rightarrow> real \<Rightarrow> log_row \<Rightarrow> string" where
  "lab_key since until r =
     (if start_counts since until r \<and> stats_lab (lr_rln r) = [] then lr_lab r
      else if row_counts since until r then stats_lab (lr_rln r) else [])"

definition rows_of_lab :: "real \<Rightarrow> real \<Rightarrow> log_row list \<Rightarrow> string \<Rightarrow> log_row list" where
  "rows_of_lab since until rs lab = filter (\<lambda>r. lab_key since until r = lab) rs"

definition pages_by_login :: "real \<Rightarrow> real \<Rightarrow> log_row list \<Rightarrow> (string \<times> span list) list" where
  "pages_by_login since until rs =
     foldl (\<lambda>d r. at_entry (\<lambda>_. []) (lr_login r) (\<lambda>ivs. ivs @ [page_span since until r]) d) []
       (filter (page_counts since until) rs)"

text \<open>A lab, described from its rows alone.\<close>

definition lab_of :: "real \<Rightarrow> real \<Rightarrow> log_row list \<Rightarrow> string \<Rightarrow> lab_stat" where
  "lab_of since until rs lab =
     (let rows = rows_of_lab since until rs lab
      in \<lparr>lb_lab = lab, lb_starts = length (filter (start_counts since until) rows),
          lb_evaluations = length (filter (eval_counts since until) rows), lb_pages = pages_by_login since until rows,
          lb_users = lunion [] (map lr_login rows), lb_projects = foldl (\<lambda>l rln. add_if rln l) [] (map lr_rln rows)\<rparr>)"

definition row_of_lab :: "real \<Rightarrow> real \<Rightarrow> log_row \<Rightarrow> lab_stat \<Rightarrow> lab_stat" where
  "row_of_lab since until r e = e\<lparr>
     lb_starts := lb_starts e + (if start_counts since until r then 1 else 0),
     lb_evaluations := lb_evaluations e + (if eval_counts since until r then 1 else 0),
     lb_pages := (if page_counts since until r
       then at_entry (\<lambda>_. []) (lr_login r) (\<lambda>ivs. ivs @ [page_span since until r]) (lb_pages e) else lb_pages e),
     lb_users := ladd (lb_users e) (lr_login r), lb_projects := add_if (lr_rln r) (lb_projects e)\<rparr>"

lemma ta_labs_on_user [simp]: "ta_labs (on_user who rln f t) = ta_labs t"
  by (simp add: on_user_def)

lemma lab_of_row:
  "lab_of since until (rs @ [r]) lab =
     (if lab_key since until r = lab then row_of_lab since until r (lab_of since until rs lab) else lab_of since until rs lab)"
  by (simp add: lab_of_def rows_of_lab_def row_of_lab_def pages_by_login_def lunion_snoc Let_def)

lemma add_row_labs:
  assumes "since < until" "add_row since until r t = Some t'"
  shows "ta_labs t' = (if lab_key since until r \<noteq> []
    then at_entry new_lab (lab_key since until r) (row_of_lab since until r) (ta_labs t) else ta_labs t)"
proof -
  have t': "t' = (if page_counts since until r then on_lab (stats_lab (lr_rln r)) (lr_login r) (lr_rln r)
        (\<lambda>e. e\<lparr>lb_pages := at_entry (\<lambda>_. []) (lr_login r) (\<lambda>ivs. ivs @ [page_span since until r]) (lb_pages e)\<rparr>)
        (on_user (lr_login r) (lr_rln r) (\<lambda>u. u\<lparr>us_pages := us_pages u @ [page_span since until r]\<rparr>) t)
      else if start_counts since until r then add_start since until r t
      else if eval_counts since until r then add_eval since until r t else t)"
    using assms(2) unfolding add_row_eq [OF assms(1)] by simp
  have fns: "page_counts since until r \<Longrightarrow> row_of_lab since until r = (\<lambda>e. let e =
        e\<lparr>lb_pages := at_entry (\<lambda>_. []) (lr_login r) (\<lambda>ivs. ivs @ [page_span since until r]) (lb_pages e)\<rparr>
        in e\<lparr>lb_users := ladd (lb_users e) (lr_login r), lb_projects := add_if (lr_rln r) (lb_projects e)\<rparr>)"
    "start_counts since until r \<Longrightarrow> row_of_lab since until r = (\<lambda>e. let e = e\<lparr>lb_starts := Suc (lb_starts e)\<rparr>
        in e\<lparr>lb_users := ladd (lb_users e) (lr_login r), lb_projects := add_if (lr_rln r) (lb_projects e)\<rparr>)"
    "eval_counts since until r \<Longrightarrow> row_of_lab since until r = (\<lambda>e. let e = e\<lparr>lb_evaluations := Suc (lb_evaluations e)\<rparr>
        in e\<lparr>lb_users := ladd (lb_users e) (lr_login r), lb_projects := add_if (lr_rln r) (lb_projects e)\<rparr>)"
    using counts_apart [of since until r] by (auto simp: row_of_lab_def fun_eq_iff Let_def)
  have keys: "page_counts since until r \<or> eval_counts since until r \<Longrightarrow> lab_key since until r = stats_lab (lr_rln r)"
    "start_counts since until r \<Longrightarrow> lab_key since until r =
       (if stats_lab (lr_rln r) \<noteq> [] then stats_lab (lr_rln r) else lr_lab r)"
    "\<not> row_counts since until r \<Longrightarrow> lab_key since until r = []"
    using counts_apart [of since until r] by (auto simp: lab_key_def row_counts_def)
  consider (page) "page_counts since until r" | (start) "start_counts since until r" | (eval) "eval_counts since until r"
    | (none) "\<not> row_counts since until r" by (auto simp: row_counts_def)
  then show ?thesis
  proof cases
    case page
    then show ?thesis unfolding t' by (simp add: keys fns on_lab_def)
  next
    case start
    with counts_apart(1) [of since until r] show ?thesis
      unfolding t' by (auto simp: keys fns on_lab_def add_start_def start_counts_def)
  next
    case eval
    with counts_apart [of since until r] show ?thesis
      unfolding t' by (auto simp: keys fns on_lab_def add_eval_def eval_counts_def)
  next
    case none
    then show ?thesis unfolding t' by (simp add: keys row_counts_def)
  qed
qed

definition labs_view :: "real \<Rightarrow> real \<Rightarrow> log_row list \<Rightarrow> tally \<Rightarrow> bool" where
  "labs_view since until rs t \<longleftrightarrow> dict_ok (ta_labs t) \<and> (\<forall>lab. dget (ta_labs t) lab =
     (if lab \<noteq> [] \<and> rows_of_lab since until rs lab \<noteq> [] then Some (lab_of since until rs lab) else None))"

lemma rows_labs:
  assumes "since < until" "run_all (add_row since until) rs t = Some u" "ta_labs t = []"
  shows "labs_view since until rs u"
  using assms(2)
proof (induction rs arbitrary: u rule: rev_induct)
  case Nil
  with assms(3) show ?case by (simp add: labs_view_def rows_of_lab_def)
next
  case (snoc r rs)
  then obtain v where v: "run_all (add_row since until) rs t = Some v" "add_row since until r v = Some u"
    by (auto simp: run_all_snoc bind_eq_Some_conv)
  from snoc.IH [OF v(1)] have view: "labs_view since until rs v" .
  have blank: "rows_of_lab since until rs lab = [] \<Longrightarrow> lab_of since until rs lab = new_lab lab" for lab
    by (simp add: lab_of_def new_lab_def pages_by_login_def lunion_def)
  from view blank have entry: "(case dget (ta_labs v) lab of None \<Rightarrow> new_lab lab | Some e \<Rightarrow> e) = lab_of since until rs lab"
    if "lab \<noteq> []" for lab using that by (auto simp: labs_view_def)
  have rows: "rows_of_lab since until (rs @ [r]) lab = [] \<longleftrightarrow>
      lab_key since until r \<noteq> lab \<and> rows_of_lab since until rs lab = []" for lab
    by (simp add: rows_of_lab_def)
  from view entry show ?case
    by (auto simp: labs_view_def add_row_labs [OF assms(1) v(2)] rows lab_of_row)
qed

section \<open>The statistics of the rows\<close>

lemma those_map: "(\<And>x. x \<in> set xs \<Longrightarrow> f x = Some (g x)) \<Longrightarrow> those (map f xs) = Some (map g xs)"
  by (induction xs) auto

lemma sessions_keep_labs: "run_all (add_session since until) ss t = Some u \<Longrightarrow> ta_labs u = ta_labs t"
  by (induction ss arbitrary: t)
    (force simp: add_session_def Let_def split: option.splits if_splits)+

lemma tally_views:
  assumes "since < until"
  obtains t where "tally_of since until ss rs = Some t" "users_view since until ss rs t" "labs_view since until rs t"
proof -
  from sessions_users [OF assms, of ss] obtain t where
    t: "run_all (add_session since until) ss no_tally = Some t" "users_view since until ss [] t" by blast
  from rows_users [OF assms t(2), of rs] obtain u where
    u: "run_all (add_row since until) rs t = Some u" "users_view since until ss rs u" by blast
  from rows_labs [OF assms u(1)] sessions_keep_labs [OF t(1)] have "labs_view since until rs u" by (simp add: no_tally_def)
  with t(1) u that show ?thesis by (simp add: tally_of_def)
qed

lemma vals_of_set: "dict_ok d \<Longrightarrow> set (vals_of d) = (\<lambda>k. the (dget d k)) ` set (keys_of d)"
  by (force simp: vals_of_def keys_of_def dget_of_in)

lemma users_vals:
  assumes "users_view since until ss rs t"
  shows "vals_of (ta_users t) = map (user_of since until ss rs) (keys_of (ta_users t))"
    "set (keys_of (ta_users t)) = {who. user_seen since until ss rs who}" "distinct (keys_of (ta_users t))"
proof -
  have d: "dict_ok (ta_users t)" using assms by (simp add: users_view_def)
  then show "distinct (keys_of (ta_users t))" by (simp add: dict_ok_def keys_of_def)
  have "user_of since until ss rs k = v" if "(k, v) \<in> set (ta_users t)" for k v
    using dget_of_in [OF d that] assms by (auto simp: users_view_def split: if_splits)
  then show "vals_of (ta_users t) = map (user_of since until ss rs) (keys_of (ta_users t))"
    by (auto simp: vals_of_def keys_of_def)
  show "set (keys_of (ta_users t)) = {who. user_seen since until ss rs who}"
    using assms by (auto simp: users_view_def keys_of_dget split: if_splits)
qed

lemma row_counts_seen:
  assumes "r \<in> set rs" "row_counts since until r"
  shows "user_seen since until ss rs (lr_login r)"
  using assms by (auto simp: user_seen_def rows_of_user_def filter_empty_conv)

lemma lab_key_counts: "lab_key since until r \<noteq> [] \<Longrightarrow> row_counts since until r"
  by (auto simp: lab_key_def row_counts_def split: if_splits)

text \<open>The row of a lab: how many logins, students and projects its rows name, and for how long its pages
  were open, each login for the union of theirs.\<close>

definition pages_of_login :: "real \<Rightarrow> real \<Rightarrow> log_row list \<Rightarrow> string \<Rightarrow> span list" where
  "pages_of_login since until rows who =
     map (page_span since until) (filter (\<lambda>r. page_counts since until r \<and> lr_login r = who) rows)"

definition lab_summary :: "real \<Rightarrow> real \<Rightarrow> log_session list \<Rightarrow> log_row list \<Rightarrow> string \<Rightarrow> lab_row" where
  "lab_summary since until ss rs lab =
     (let rows = rows_of_lab since until rs lab; logins = lr_login ` set rows;
          viewers = lr_login ` set (filter (page_counts since until) rows);
          time = (\<Sum>who \<in> viewers. total_of (merge_intervals (pages_of_login since until rows who)))
      in \<lparr>lw_lab = lab, lw_projects = card (lr_rln ` set rows - {[]}), lw_users = card logins,
          lw_students = card {who \<in> logins. is_student (user_of since until ss rs who)}, lw_time = time,
          lw_average = (if viewers = {} then 0 else time / real (card viewers)),
          lw_starts = length (filter (start_counts since until) rows),
          lw_evaluations = length (filter (eval_counts since until) rows)\<rparr>)"

lemma length_lunion: "length (lunion [] xs) = card (set xs)"
  by (metis append_Nil distinct.simps(1) distinct_card distinct_lunion set_lunion list.set(1) Un_empty_left)

lemma set_add_ifs: "set (foldl (\<lambda>l rln. add_if rln l) acc xs) = set acc \<union> (set xs - {[]})"
  "distinct (foldl (\<lambda>l rln. add_if rln l) acc xs) = distinct acc"
  by (induction xs arbitrary: acc) (auto simp: add_if_def)

lemma pages_by_login_dict: "dict_ok (pages_by_login since until rows)"
  unfolding pages_by_login_def by (induction rows rule: rev_induct) simp_all

lemma pages_by_login_dget:
  "dget (pages_by_login since until rows) who =
     (if pages_of_login since until rows who = [] then None else Some (pages_of_login since until rows who))"
  unfolding pages_by_login_def pages_of_login_def by (induction rows rule: rev_induct) auto

lemma sum_list_dict:
  assumes "dict_ok d"
  shows "sum_list (map (\<lambda>(k, v). f v) d) = (\<Sum>k \<in> set (keys_of d). f (the (dget d k)))"
  using assms
proof (induction d)
  case (Cons p d)
  obtain k v where p: "p = (k, v)" by force
  with Cons.prems have k: "k \<notin> set (keys_of d)" and d: "dict_ok d" by (auto simp: dict_ok_def keys_of_def)
  have "(\<Sum>x \<in> set (keys_of d). f (the (dget (p # d) x))) = (\<Sum>x \<in> set (keys_of d). f (the (dget d x)))"
    using k p by (intro sum.cong) auto
  with Cons.IH [OF d] k p show ?case by (simp add: keys_of_def)
qed (simp add: keys_of_def)

lemma pages_keys: "set (keys_of (pages_by_login since until rows)) = lr_login ` set (filter (page_counts since until) rows)"
  by (force simp: keys_of_dget pages_by_login_dget pages_of_login_def filter_empty_conv split: if_splits)

lemma lab_row_of_eq:
  assumes "users_view since until ss rs t" "lab \<noteq> []"
  shows "lab_row_of (ta_users t) (lab_of since until rs lab) = Some (lab_summary since until ss rs lab)"
proof -
  let ?rows = "rows_of_lab since until rs lab"
  let ?d = "pages_by_login since until ?rows"
  let ?logins = "lunion [] (map lr_login ?rows)"
  have "dget (ta_users t) who = Some (user_of since until ss rs who)" if "who \<in> set ?logins" for who
  proof -
    from that obtain r where r: "r \<in> set rs" "lab_key since until r = lab" "lr_login r = who" by (auto simp: rows_of_lab_def)
    with assms(2) lab_key_counts [of since until r] row_counts_seen [OF r(1)] have "user_seen since until ss rs who" by auto
    with assms(1) show ?thesis by (simp add: users_view_def)
  qed
  then have us: "those (map (dget (ta_users t)) ?logins) = Some (map (user_of since until ss rs) ?logins)" by (rule those_map)
  have dist: "distinct ?logins" by simp
  have students: "length (filter is_student (map (user_of since until ss rs) ?logins)) =
      card {who \<in> lr_login ` set ?rows. is_student (user_of since until ss rs who)}"
  proof -
    have "length (filter is_student (map (user_of since until ss rs) ?logins)) =
        length (filter (\<lambda>who. is_student (user_of since until ss rs who)) ?logins)"
      by (simp add: filter_map comp_def)
    also have "\<dots> = card (set (filter (\<lambda>who. is_student (user_of since until ss rs who)) ?logins))"
      by (rule distinct_card [symmetric]) (rule distinct_filter [OF dist])
    also have "set (filter (\<lambda>who. is_student (user_of since until ss rs who)) ?logins) =
        {who \<in> lr_login ` set ?rows. is_student (user_of since until ss rs who)}" by simp
    finally show ?thesis .
  qed
  have time: "sum_list (map (\<lambda>(who, pages). total_of (merge_intervals pages)) ?d) =
      (\<Sum>who \<in> lr_login ` set (filter (page_counts since until) ?rows).
         total_of (merge_intervals (pages_of_login since until ?rows who)))"
    unfolding sum_list_dict [OF pages_by_login_dict, of "\<lambda>pages. total_of (merge_intervals pages)"] pages_keys
    by (rule sum.cong) (auto simp: pages_by_login_dget pages_of_login_def filter_empty_conv)
  have count: "length ?d = card (lr_login ` set (filter (page_counts since until) ?rows))"
    using distinct_card [of "keys_of ?d"] pages_by_login_dict [of since until ?rows] pages_keys [of since until ?rows]
    by (simp add: dict_ok_def keys_of_def)
  have empty: "?d = [] \<longleftrightarrow> lr_login ` set (filter (page_counts since until) ?rows) = {}"
    unfolding pages_keys [symmetric] by (simp add: keys_of_def)
  have projects: "length (foldl (\<lambda>l rln. add_if rln l) [] (map lr_rln ?rows)) = card (lr_rln ` set ?rows - {[]})"
    using distinct_card [of "foldl (\<lambda>l rln. add_if rln l) [] (map lr_rln ?rows)"] by (simp add: set_add_ifs)
  show ?thesis
    unfolding lab_row_of_def lab_of_def Let_def
    by (simp add: us students [unfolded filter_map length_map] time count empty projects length_lunion lab_summary_def Let_def del: set_filter)
qed

lemma labs_vals:
  assumes "labs_view since until rs t"
  shows "set (vals_of (ta_labs t)) = lab_of since until rs ` {lab. lab \<noteq> [] \<and> rows_of_lab since until rs lab \<noteq> []}"
proof -
  have "lab \<in> set (keys_of (ta_labs t)) \<longleftrightarrow> lab \<noteq> [] \<and> rows_of_lab since until rs lab \<noteq> []" for lab
    using assms by (simp add: labs_view_def keys_of_dget del: not_None_eq)
  then have "set (keys_of (ta_labs t)) = {lab. lab \<noteq> [] \<and> rows_of_lab since until rs lab \<noteq> []}" by blast
  with assms show ?thesis by (auto simp: labs_view_def vals_of_set split: if_splits)
qed

text \<open>The answer, from the tally.\<close>

definition ranked :: "user_row list \<Rightarrow> user_row list" where
  "ranked rows = sort_key (\<lambda>r. (- ur_time r, ur_login r)) rows"

lemma statistics_found:
  assumes "since < until" "all_sessions Q rows open_sessions = Some ss"
  obtains t S where "users_view since until ss rows t" "labs_view since until rows t"
    "compute_statistics Q rows open_sessions since until = Some S"
    "st_users S = ranked (map user_row_of (vals_of (ta_users t)))"
    "st_groups S = map group_row_of (sort_key gs_group (vals_of (foldl add_to_group [] (vals_of (ta_users t)))))"
    "set (st_labs S) = lab_summary since until ss rows ` {lab. lab \<noteq> [] \<and> rows_of_lab since until rows lab \<noteq> []}"
    "st_totals S = totals_of t (st_users S) (st_groups S)" "st_distribution S = distribution_of (student_times (st_users S))"
proof -
  from tally_views [OF assms(1)] obtain t where t: "tally_of since until ss rows = Some t"
    "users_view since until ss rows t" "labs_view since until rows t" .
  let ?labs = "vals_of (ta_labs t)"
  have "lab_row_of (ta_users t) e = Some (lab_summary since until ss rows (lb_lab e))" if "e \<in> set ?labs" for e
    using that lab_row_of_eq [OF t(2)] unfolding labs_vals [OF t(3)] by (auto simp: lab_of_def Let_def)
  then have l: "those (map (lab_row_of (ta_users t)) ?labs) = Some (map (\<lambda>e. lab_summary since until ss rows (lb_lab e)) ?labs)"
    by (rule those_map)
  have "(\<lambda>e. lab_summary since until ss rows (lb_lab e)) ` set ?labs =
      lab_summary since until ss rows ` {lab. lab \<noteq> [] \<and> rows_of_lab since until rows lab \<noteq> []}"
    unfolding labs_vals [OF t(3)] by (auto simp: lab_of_def Let_def image_iff)
  with l t assms(2) show ?thesis
    by (intro that [OF t(2,3)]) (auto simp: compute_statistics_def statistics_of_def Let_def ranked_def)
qed


section \<open>The totals\<close>

lemma separated_total:
  "separated ivs \<Longrightarrow> \<forall>iv \<in> set ivs. lo \<le> fst iv \<and> snd iv \<le> hi \<Longrightarrow> lo \<le> hi \<Longrightarrow> 0 \<le> total_of ivs \<and> total_of ivs \<le> hi - lo"
proof (induction ivs arbitrary: lo)
  case (Cons iv ivs)
  have "\<forall>jv \<in> set ivs. snd iv \<le> fst jv \<and> snd jv \<le> hi" using Cons.prems(1,2) by (auto intro: less_imp_le)
  with Cons.IH [of "snd iv"] Cons.prems have "0 \<le> total_of ivs \<and> total_of ivs \<le> hi - snd iv" by simp
  with Cons.prems show ?case by (auto simp: total_of_def case_prod_beta)
qed (simp add: total_of_def)

lemma separated_open: "separated ivs \<Longrightarrow> open_at ivs t \<le> 1"
proof (induction ivs)
  case (Cons iv ivs)
  have "open_at ivs t = 0" if "fst iv \<le> t \<and> t < snd iv"
    using Cons.prems that by (auto simp: open_at_def filter_empty_conv)
  with Cons show ?case by auto
qed simp

lemma merged_within:
  assumes "spans_ok ivs" "\<forall>iv \<in> set ivs. lo \<le> fst iv \<and> snd iv \<le> hi" "m \<in> set (merge_intervals ivs)"
  shows "lo \<le> fst m \<and> snd m \<le> hi"
proof -
  have "fst m \<le> snd m" using merge_separated(1) [OF assms(1)] assms(3) by (auto simp: separated_def spans_ok_def)
  with assms(3) have "fst m \<in> covered ivs" "snd m \<in> covered ivs"
    unfolding merge_separated(2) [OF assms(1), symmetric] by (auto simp: covered_def)
  with assms(2) show ?thesis by (fastforce simp: covered_def)
qed

lemma session_span_in:
  assumes "since < until" "session_counts since until s"
  shows "since \<le> fst (session_span since until s) \<and> fst (session_span since until s) \<le> snd (session_span since until s) \<and>
    snd (session_span since until s) \<le> until"
  using assms by (auto simp: session_counts_def session_span_def split: option.splits)

lemma user_spans:
  assumes "since < until"
  shows "spans_ok (us_intervals (user_of since until ss rs who))"
    "\<forall>iv \<in> set (us_intervals (user_of since until ss rs who)). since \<le> fst iv \<and> snd iv \<le> until"
  using session_span_in [OF assms] by (auto simp: user_of_def Let_def spans_ok_def sessions_of_def)

lemma user_time:
  assumes "since < until"
  shows "0 \<le> ur_time (user_row_of (user_of since until ss rs who)) \<and>
    ur_time (user_row_of (user_of since until ss rs who)) \<le> until - since"
proof -
  let ?m = "merge_intervals (us_intervals (user_of since until ss rs who))"
  have "separated ?m" by (rule merge_separated(1) [OF user_spans(1) [OF assms]])
  moreover have "\<forall>iv \<in> set ?m. since \<le> fst iv \<and> snd iv \<le> until" using merged_within [OF user_spans [OF assms]] by blast
  ultimately have "0 \<le> total_of ?m \<and> total_of ?m \<le> until - since" using assms by (intro separated_total) auto
  then show ?thesis by (simp add: user_row_of_def Let_def)
qed

lemma open_at_concat:
  "\<forall>ivs \<in> set ivss. separated ivs \<Longrightarrow> open_at (concat ivss) t \<le> length ivss"
proof (induction ivss)
  case (Cons ivs ivss)
  with separated_open [of ivs t] show ?case by fastforce
qed simp

text \<open>Sums over the entries of a table.\<close>

lemma sum_at_entry:
  fixes f :: "'v \<Rightarrow> 'n::comm_monoid_add"
  assumes "f (new k) = 0" "\<And>e. f (g e) = f e + c"
  shows "sum_list (map f (vals_of (at_entry new k g d))) = sum_list (map f (vals_of d)) + c"
  using assms
proof (induction d)
  case Nil
  then show ?case by (simp add: at_entry_def vals_of_def)
next
  case (Cons p d)
  obtain k' v where p: "p = (k', v)" by force
  show ?case
  proof (cases "k' = k")
    case True
    with p assms(2) show ?thesis by (simp add: at_entry_def vals_of_def ac_simps)
  next
    case False
    with p Cons.IH [OF assms] show ?thesis by (simp add: at_entry_def vals_of_def ac_simps)
  qed
qed

lemma groups_sum:
  fixes f :: "group_stat \<Rightarrow> 'n::comm_monoid_add"
  assumes "\<And>g. f (new_group g) = 0"
    and "\<And>e u. f (e\<lparr>gs_students := Suc (gs_students e), gs_sessions := gs_sessions e + us_sessions u,
       gs_time := gs_time e + total_of (merge_intervals (us_intervals u)), gs_projects := lunion (gs_projects e) (us_projects u),
       gs_evaluations := gs_evaluations e + us_evaluations u\<rparr>) = f e + c u"
  shows "sum_list (map f (vals_of (foldl add_to_group d us))) = sum_list (map f (vals_of d)) + sum_list (map c (filter is_student us))"
proof (induction us arbitrary: d)
  case (Cons u us)
  have "sum_list (map f (vals_of (add_to_group d u))) = sum_list (map f (vals_of d)) + (if is_student u then c u else 0)"
    using sum_at_entry [of f new_group "us_group u" _ "c u" d] assms by (simp add: add_to_group_def)
  with Cons show ?case by (simp add: ac_simps)
qed simp

lemma sum_list_sorted: "sum_list (map f (sort_key k xs)) = sum_list (map f xs)"
  for f :: "'a \<Rightarrow> 'n::comm_monoid_add"
proof -
  have "mset (map f (sort_key k xs)) = mset (map f xs)" by simp
  then show ?thesis by (metis sum_mset_sum_list)
qed

lemma filter_ranked: "length (filter P (ranked rows)) = length (filter P rows)"
proof -
  have "mset (filter P (ranked rows)) = mset (filter P rows)" by (simp add: ranked_def)
  then show ?thesis by (metis size_mset)
qed

lemma sum_ranked: "sum_list (map f (filter P (ranked rows))) = sum_list (map f (filter P rows))"
  for f :: "user_row \<Rightarrow> 'n::comm_monoid_add"
proof -
  have "mset (map f (filter P (ranked rows))) = mset (map f (filter P rows))" by (simp add: ranked_def)
  then show ?thesis by (metis sum_mset_sum_list)
qed

lemma count_in_sum:
  "\<exists>b \<in> fst ` set rows. in_bucket t b \<Longrightarrow> sum_list (map snd (count_in t rows)) = Suc (sum_list (map snd rows))"
  "map fst (count_in t rows) = map fst rows"
  by (induction t rows rule: count_in.induct) auto

lemma bucket_found: "0 \<le> t \<Longrightarrow> \<exists>b \<in> set BUCKETS. in_bucket t b"
  by (auto simp: BUCKETS_def in_bucket_def)

lemma distribution_sum:
  assumes "\<forall>t \<in> set ts. 0 \<le> t"
  shows "sum_list (map snd (distribution_of ts)) = length ts"
proof -
  have "\<forall>t \<in> set ts. 0 \<le> t \<Longrightarrow> map fst rows = BUCKETS \<Longrightarrow>
      sum_list (map snd (foldl (\<lambda>rows t. count_in t rows) rows ts)) = sum_list (map snd rows) + length ts" for rows
  proof (induction ts arbitrary: rows)
    case (Cons t ts)
    have "fst ` set rows = set BUCKETS" using Cons.prems(2) by (metis list.set_map)
    with count_in_sum(1) [of rows t] bucket_found [of t] Cons count_in_sum(2) [of t rows] show ?case by simp
  qed simp
  from this [of "map (\<lambda>b. (b, 0)) BUCKETS"] assms show ?thesis by (simp add: distribution_of_def comp_def)
qed

lemma sum_list_le: "\<forall>x \<in> set xs. x \<le> b \<Longrightarrow> sum_list xs \<le> real (length xs) * b" for b :: real
  by (induction xs) (auto simp: algebra_simps)

lemma peak_within:
  assumes "since < until" "users_view since until ss rs t"
    and "peak_of (concat (map (\<lambda>u. merge_intervals (us_intervals u)) (vals_of (ta_users t)))) = (n, first)"
  shows "0 \<le> n \<and> n \<le> int (length (vals_of (ta_users t))) \<and> (\<forall>a. first = Some a \<longrightarrow> since \<le> a \<and> a < until)"
proof -
  let ?ivss = "map (\<lambda>u. merge_intervals (us_intervals u)) (vals_of (ta_users t))"
  note v = users_vals(1) [OF assms(2)]
  have sep: "\<forall>ivs \<in> set ?ivss. separated ivs"
    using merge_separated(1) [OF user_spans(1) [OF assms(1)]] unfolding v by auto
  have le: "open_at (concat ?ivss) x \<le> length (vals_of (ta_users t))" for x
    using open_at_concat [OF sep, of x] by simp
  have within: "since \<le> fst m \<and> snd m \<le> until" if "m \<in> set (concat ?ivss)" for m
  proof -
    from that obtain who where "m \<in> set (merge_intervals (us_intervals (user_of since until ss rs who)))"
      unfolding v by auto
    then show ?thesis by (rule merged_within [OF user_spans [OF assms(1)]])
  qed
  show ?thesis
  proof (cases first)
    case None
    with peak_of_open(2) [OF assms(3)] show ?thesis by simp
  next
    case (Some a)
    note p = peak_of_open(3) [OF assms(3) Some]
    from p have "open_at (concat ?ivss) a \<noteq> 0" by auto
    then obtain m where "m \<in> set (concat ?ivss)" "fst m \<le> a" "a < snd m" by (auto simp: open_at_def filter_empty_conv)
    with within [of m] p le [of a] Some show ?thesis by auto
  qed
qed

lemma student_users:
  "length (student_times (ranked (map user_row_of us))) = length (filter is_student us)"
  "sum_list (student_times (ranked (map user_row_of us))) =
     sum_list (map (\<lambda>u. total_of (merge_intervals (us_intervals u))) (filter is_student us))"
proof -
  have role: "ur_role (user_row_of u) = ''student'' \<longleftrightarrow> is_student u" for u by (simp add: user_row_of_def Let_def)
  have time: "ur_time (user_row_of u) = total_of (merge_intervals (us_intervals u))" for u
    by (simp add: user_row_of_def Let_def)
  show "length (student_times (ranked (map user_row_of us))) = length (filter is_student us)"
    by (simp add: student_times_def filter_ranked filter_map comp_def role)
  show "sum_list (student_times (ranked (map user_row_of us))) =
     sum_list (map (\<lambda>u. total_of (merge_intervals (us_intervals u))) (filter is_student us))"
    by (simp add: student_times_def sum_ranked filter_map comp_def role time)
qed


section \<open>A period\<close>

definition demo_values :: py_values where
  "demo_values = \<lparr>py_time = (\<lambda>_. Some 100), py_str = (\<lambda>_. ''?''), py_int_text = (\<lambda>_. None)\<rparr>"

definition demo_rows :: "log_row list" where
  "demo_rows = [\<lparr>lr_id = 2, lr_ts = Some 180, lr_event = ''project_close'', lr_login = ''ann'', lr_addr = ''h'',
       lr_rln = ''1@@@dns@@@ann'', lr_lab = [], lr_status = [], lr_duration = Some 30, lr_details = []\<rparr>,
     \<lparr>lr_id = 1, lr_ts = Some 170, lr_event = ''session_close'', lr_login = ''ann'', lr_addr = ''h'',
       lr_rln = [], lr_lab = [], lr_status = [], lr_duration = Some 60,
       lr_details = [(''since'', VStr ''t''), (''requests'', VInt 3), (''role'', VStr ''student'')]\<rparr>]"

definition demo_session :: log_session where
  "demo_session = \<lparr>hs_id = Some 1, hs_login = ''ann'', hs_name = [], hs_role = ''student'', hs_group = [], hs_addr = ''h'',
     hs_start = Some 100, hs_end = Some 160, hs_closed = Some 170, hs_duration = 60, hs_requests = 3, hs_projects = [],
     hs_reason = None, hs_sockets = None\<rparr>"

lemma demo_sessions: "all_sessions demo_values demo_rows [] = Some [demo_session]"
  by (simp add: all_sessions_def demo_rows_def demo_values_def demo_session_def session_of_row_def SESSION_CLOSE_EVENT_def
      parse_log_time_def value_str_def text_or_blank_def int_or_zero_def projects_of_details_def)



theorem peak_exact_witness: "case peak_of [(1, 5), (2, 4)] of (n, first) \<Rightarrow> 2 \<le> n"
proof -
  have "open_at [(1, 5), (2, 4)] 3 = 2" by simp
  with peak_exact [of "[(1, 5), (2, 4)]"] show ?thesis by (fastforce dest: spec [of _ 3])
qed

theorem merge_exact_witness:
  "merge_intervals [(5, 8), (1, 3), (2, 5), (10, 11)] = [(1, 8), (10, 11)]"
  using merge_exact [of "[(5, 8), (1, 3), (2, 5), (10, 11)]" "[(1, 8), (10, 11)]"] by auto

end
