(* ===== verification/Access_Sink.thy ===== *)
theory Access_Sink
  imports Prelude
begin

text \<open>
  The writer of the database of the connection log (\<open>DatabaseSink\<close> of
  \<^verbatim>\<open>src/src/sreweb/portal/accessdb.py\<close>): a bounded queue that the requests fill, and one thread that
  empties it in batches. A step is what a thread does between two points where the other may run: an
  operation on the queue, an attempt at the server, the lock. The server (connections, statements,
  commits) answers what the environment says; \<open>Unreached\<close> is a transient error, with whether the
  server had committed. The rows are of any type, with their time. The last fields note what became
  of each row, for the theorems.
\<close>

section \<open>The state\<close>

definition BATCH :: nat where "BATCH = 500"
definition PURGE_PERIOD :: real where "PURGE_PERIOD = 86400"
definition BACKOFF :: "real list" where "BACKOFF = [1, 2, 5, 10, 30, 60]"

record 'r sink_config =
  sc_queue :: nat
  sc_keep :: nat
  sc_time :: "'r \<Rightarrow> real"

text \<open>Where the caller is in \<open>put_row\<close> (it holds the lock), and where the writer is in \<open>_run\<close>.\<close>

datatype 'r put_stage = NoCall | MustDrop 'r | MustPut 'r

datatype writer_stage = Taking | Collecting | Deciding | Settling | Asleep real | Ended

record 'r sink =
  sk_queue :: "'r option list"
  sk_caller :: "'r put_stage"
  sk_idle :: bool
  sk_stop :: bool
  sk_closed :: bool
  sk_connected :: bool
  sk_last_error :: "string option"
  sk_dropped :: nat
  sk_drop_warned :: bool
  sk_failures :: nat
  sk_failed_since :: "real option"
  sk_warned :: "string list"
  sk_last_purge :: "real option"
  sk_stage :: writer_stage
  sk_conn :: bool
  sk_rows :: "'r list"
  sk_table :: "'r list"
  sk_put :: "'r list"
  sk_over :: "'r list"
  sk_refused :: "'r list"
  sk_written :: "'r list"
  sk_commits :: "'r list"
  sk_lost :: "'r list"

text \<open>\<open>__init__\<close> and \<open>start\<close>, on a table that is empty.\<close>

definition new_sink :: "'r sink" where
  "new_sink = \<lparr>sk_queue = [], sk_caller = NoCall, sk_idle = True, sk_stop = False, sk_closed = False,
     sk_connected = False, sk_last_error = None, sk_dropped = 0, sk_drop_warned = False, sk_failures = 0,
     sk_failed_since = None, sk_warned = [], sk_last_purge = None, sk_stage = Taking, sk_conn = False, sk_rows = [],
     sk_table = [], sk_put = [], sk_over = [], sk_refused = [], sk_written = [], sk_commits = [], sk_lost = []\<rparr>"

definition queued :: "'r sink \<Rightarrow> 'r list" where
  "queued s = map the (filter (\<lambda>x. x \<noteq> None) (sk_queue s))"

text \<open>\<open>queue.Queue\<close>: no bound when its size is 0.\<close>

definition queue_full :: "'r sink_config \<Rightarrow> 'r sink \<Rightarrow> bool" where
  "queue_full C s \<longleftrightarrow> 0 < sc_queue C \<and> sc_queue C \<le> length (sk_queue s)"

section \<open>The callers\<close>

text \<open>\<open>put_row\<close>: the row is queued, or the queue is full; then its oldest item is taken off, and the row
  is queued.\<close>

definition put_row :: "'r sink_config \<Rightarrow> 'r \<Rightarrow> 'r sink \<Rightarrow> 'r sink" where
  "put_row C r s =
     (if sk_closed s then s
      else (let s = s\<lparr>sk_idle := False, sk_put := sk_put s @ [r]\<rparr>
            in if queue_full C s then s\<lparr>sk_caller := MustDrop r\<rparr> else s\<lparr>sk_queue := sk_queue s @ [Some r]\<rparr>))"

definition put_drop :: "'r \<Rightarrow> 'r sink \<Rightarrow> 'r sink" where
  "put_drop r s = (case sk_queue s of
     [] \<Rightarrow> s\<lparr>sk_caller := MustPut r\<rparr>
   | item # items \<Rightarrow> s\<lparr>sk_queue := items, sk_caller := MustPut r,
       sk_over := sk_over s @ (case item of None \<Rightarrow> [] | Some x \<Rightarrow> [x])\<rparr>)"

definition put_again :: "'r sink_config \<Rightarrow> 'r \<Rightarrow> 'r sink \<Rightarrow> 'r sink" where
  "put_again C r s =
     (let s = (if queue_full C s then s\<lparr>sk_over := sk_over s @ [r]\<rparr> else s\<lparr>sk_queue := sk_queue s @ [Some r]\<rparr>)
      in s\<lparr>sk_caller := NoCall, sk_dropped := Suc (sk_dropped s), sk_drop_warned := True\<rparr>)"

definition close_sink :: "'r sink_config \<Rightarrow> 'r sink \<Rightarrow> 'r sink" where
  "close_sink C s =
     (if sk_closed s then s
      else (let s = s\<lparr>sk_closed := True, sk_stop := True\<rparr>
            in if queue_full C s then s else s\<lparr>sk_queue := sk_queue s @ [None]\<rparr>))"

section \<open>The writer\<close>

text \<open>\<open>_take\<close>: the first item, or none in time, then up to a batch of what is there.\<close>

definition take_first :: "'r sink \<Rightarrow> 'r sink" where
  "take_first s = (case sk_queue s of
     [] \<Rightarrow> s\<lparr>sk_rows := [], sk_stage := Deciding\<rparr>
   | item # items \<Rightarrow> s\<lparr>sk_queue := items, sk_rows := (case item of None \<Rightarrow> [] | Some r \<Rightarrow> [r]), sk_stage := Collecting\<rparr>)"

definition take_more :: "'r sink \<Rightarrow> 'r sink" where
  "take_more s =
     (if length (sk_rows s) < BATCH
      then (case sk_queue s of
              [] \<Rightarrow> s\<lparr>sk_stage := Deciding\<rparr>
            | item # items \<Rightarrow> s\<lparr>sk_queue := items, sk_rows := sk_rows s @ (case item of None \<Rightarrow> [] | Some r \<Rightarrow> [r])\<rparr>)
      else s\<lparr>sk_stage := Deciding\<rparr>)"

text \<open>What the server does with a statement and its commit, and with an attempt: the connection, the
  batch, the rows one by one, the message of the error.\<close>

datatype write_result = Committed | Unreached bool | Declined

record attempt =
  at_refused :: "string option"
  at_batch :: write_result
  at_each :: "nat \<Rightarrow> write_result"
  at_message :: string

definition committed :: "'r list \<Rightarrow> 'r sink \<Rightarrow> 'r sink" where
  "committed rs s = s\<lparr>sk_table := sk_table s @ rs, sk_commits := sk_commits s @ rs\<rparr>"

text \<open>\<open>_write_each\<close>: the written and the refused rows leave the list; whether it came to its end.\<close>

fun write_each :: "(nat \<Rightarrow> write_result) \<Rightarrow> nat \<Rightarrow> 'r list \<Rightarrow> 'r sink \<Rightarrow> bool \<times> 'r sink" where
  "write_each answer n [] s = (True, s\<lparr>sk_rows := []\<rparr>)"
| "write_each answer n (r # rs) s = (case answer n of
     Committed \<Rightarrow> write_each answer (Suc n) rs ((committed [r] s)\<lparr>sk_written := sk_written s @ [r]\<rparr>)
   | Declined \<Rightarrow> write_each answer (Suc n) rs (s\<lparr>sk_refused := sk_refused s @ [r]\<rparr>)
   | Unreached done_there \<Rightarrow> (False, (if done_there then committed [r] s else s)\<lparr>sk_rows := r # rs\<rparr>))"

definition write_rows :: "attempt \<Rightarrow> 'r sink \<Rightarrow> bool \<times> 'r sink" where
  "write_rows a s = (case at_batch a of
     Committed \<Rightarrow> (True, (committed (sk_rows s) s)\<lparr>sk_written := sk_written s @ sk_rows s, sk_rows := []\<rparr>)
   | Unreached done_there \<Rightarrow> (False, if done_there then committed (sk_rows s) s else s)
   | Declined \<Rightarrow> write_each (at_each a) 0 (sk_rows s) s)"

definition fail :: "string \<Rightarrow> real \<Rightarrow> 'r sink \<Rightarrow> 'r sink" where
  "fail msg now s = s\<lparr>sk_failures := Suc (sk_failures s), sk_connected := False,
     sk_failed_since := (case sk_failed_since s of None \<Rightarrow> Some now | Some t \<Rightarrow> Some t),
     sk_last_error := Some msg, sk_warned := ladd (sk_warned s) msg\<rparr>"

definition recovered :: "'r sink \<Rightarrow> 'r sink" where
  "recovered s = s\<lparr>sk_failures := 0, sk_failed_since := None, sk_warned := [], sk_drop_warned := False,
     sk_last_error := None, sk_connected := True\<rparr>"

text \<open>The end of the thread: what is in hand and queued is counted as lost.\<close>

definition end_writer :: "'r sink \<Rightarrow> 'r sink" where
  "end_writer s = s\<lparr>sk_stage := Ended, sk_conn := False, sk_connected := False,
     sk_lost := sk_lost s @ sk_rows s @ queued s, sk_rows := [], sk_queue := []\<rparr>"

text \<open>The purge: the rows older than the days kept, unless it fails on the way (\<open>pg_gone\<close>: the rows that
  were deleted before).\<close>

datatype purge_result = Purged | PurgeUnreached string | PurgeRefused string

record 'r purge =
  pg_result :: purge_result
  pg_gone :: "'r \<Rightarrow> bool"

definition purge_due :: "'r sink_config \<Rightarrow> real \<Rightarrow> 'r sink \<Rightarrow> bool" where
  "purge_due C now s \<longleftrightarrow> sc_keep C \<noteq> 0 \<and>
     (case sk_last_purge s of None \<Rightarrow> True | Some t \<Rightarrow> PURGE_PERIOD \<le> now - t)"

definition utc_ms :: "real \<Rightarrow> real" where
  "utc_ms ts = real_of_int (py_round (ts * 1000000) div 1000) / 1000"

definition purge_table :: "'r sink_config \<Rightarrow> 'r purge \<Rightarrow> real \<Rightarrow> 'r sink \<Rightarrow> 'r sink" where
  "purge_table C p now s =
     (let old = (\<lambda>r. sc_time C r < utc_ms (now - real (sc_keep C) * 86400))
      in case pg_result p of
           Purged \<Rightarrow> s\<lparr>sk_table := filter (\<lambda>r. \<not> old r) (sk_table s), sk_last_purge := Some now\<rparr>
         | PurgeUnreached msg \<Rightarrow>
             (fail msg now (s\<lparr>sk_table := filter (\<lambda>r. \<not> (old r \<and> pg_gone p r)) (sk_table s)\<rparr>))\<lparr>sk_conn := False\<rparr>
         | PurgeRefused msg \<Rightarrow> s\<lparr>sk_table := filter (\<lambda>r. \<not> (old r \<and> pg_gone p r)) (sk_table s), sk_last_purge := Some now,
             sk_warned := ladd (sk_warned s) (''purge: '' @ msg)\<rparr>)"

text \<open>What comes after the rows were taken: the end, a purge, or an attempt.\<close>

definition failed :: "string \<Rightarrow> real \<Rightarrow> 'r sink \<Rightarrow> 'r sink" where
  "failed msg now s =
     (let s = s\<lparr>sk_conn := False\<rparr>
      in if sk_stop s then end_writer s
         else (let s = fail msg now s
               in s\<lparr>sk_stage := Asleep (BACKOFF ! (min (sk_failures s) (length BACKOFF) - 1))\<rparr>))"

definition decide :: "'r sink_config \<Rightarrow> attempt \<Rightarrow> 'r purge \<Rightarrow> real \<Rightarrow> 'r sink \<Rightarrow> 'r sink" where
  "decide C a p now s =
     (if sk_rows s = [] then
        (if sk_stop s then end_writer s
         else (if sk_conn s \<and> purge_due C now s then purge_table C p now s else s)\<lparr>sk_stage := Taking\<rparr>)
      else (case (if sk_conn s then None else at_refused a) of
              Some msg \<Rightarrow> failed msg now s
            | None \<Rightarrow> (case write_rows a (s\<lparr>sk_conn := True\<rparr>) of
                         (True, s) \<Rightarrow> (recovered s)\<lparr>sk_stage := Settling\<rparr>
                       | (False, s) \<Rightarrow> failed (at_message a) now s)))"

text \<open>The lock, and the purge of the day.\<close>

definition settle :: "'r sink_config \<Rightarrow> 'r purge \<Rightarrow> real \<Rightarrow> 'r sink \<Rightarrow> 'r sink" where
  "settle C p now s =
     (let s = (if sk_queue s = [] then s\<lparr>sk_idle := True\<rparr> else s)
      in (if purge_due C now s then purge_table C p now s else s)\<lparr>sk_stage := Taking\<rparr>)"

section \<open>The two threads\<close>

datatype 'r sink_event = Put 'r | PutDrop | PutAgain | CloseSink | TakeFirst | TakeMore
  | Decide attempt "'r purge" real | Settle "'r purge" real | WokenUp

definition exec_sink :: "'r sink_config \<Rightarrow> 'r sink_event \<Rightarrow> 'r sink \<Rightarrow> 'r sink option" where
  "exec_sink C ev s = (case ev of
     Put r \<Rightarrow> if sk_caller s = NoCall then Some (put_row C r s) else None
   | PutDrop \<Rightarrow> (case sk_caller s of MustDrop r \<Rightarrow> Some (put_drop r s) | _ \<Rightarrow> None)
   | PutAgain \<Rightarrow> (case sk_caller s of MustPut r \<Rightarrow> Some (put_again C r s) | _ \<Rightarrow> None)
   | CloseSink \<Rightarrow> if sk_caller s = NoCall then Some (close_sink C s) else None
   | TakeFirst \<Rightarrow> if sk_stage s = Taking then Some (take_first s) else None
   | TakeMore \<Rightarrow> if sk_stage s = Collecting then Some (take_more s) else None
   | Decide a p now \<Rightarrow> if sk_stage s = Deciding then Some (decide C a p now s) else None
   | Settle p now \<Rightarrow> if sk_stage s = Settling \<and> sk_caller s = NoCall then Some (settle C p now s) else None
   | WokenUp \<Rightarrow> (case sk_stage s of Asleep t \<Rightarrow> Some (s\<lparr>sk_stage := Deciding\<rparr>) | _ \<Rightarrow> None))"

inductive sink_step :: "'r sink_config \<Rightarrow> 'r sink \<Rightarrow> 'r sink \<Rightarrow> bool" for C where
  sink_does: "exec_sink C ev s = Some t \<Longrightarrow> sink_step C s t"

inductive_cases sink_stepE: "sink_step C s t"

end
