(* ===== verification/Access_Sink_Safety.thy ===== *)
theory Access_Sink_Safety
  imports Access_Sink "HOL-Library.Multiset" "HOL-Library.Sublist"
begin

text \<open>
  What becomes of the rows given to the writer of the database: the accounting and the order of every
  row over all interleavings of the two threads and all answers of the server, and that a server that
  answers gets every row.
\<close>

section \<open>What becomes of the rows\<close>

definition pending :: "'r sink \<Rightarrow> 'r list" where
  "pending s = (case sk_caller s of NoCall \<Rightarrow> [] | MustDrop r \<Rightarrow> [r] | MustPut r \<Rightarrow> [r])"

text \<open>Every row put is written, refused, dropped, lost or on its way; the written ones and those on their
  way are in the order they were put; the table holds what was committed, but for the purge.\<close>

definition flow :: "bool \<Rightarrow> 'r list \<Rightarrow> 'r list \<Rightarrow> 'r list \<Rightarrow> 'r list \<Rightarrow> 'r list \<Rightarrow> 'r list \<Rightarrow> 'r list \<Rightarrow> 'r list \<Rightarrow> bool" where
  "flow forever puts written refused over lost way commits table \<longleftrightarrow>
     mset puts = mset written + mset refused + mset over + mset lost + mset way \<and>
     subseq (written @ way) puts \<and> subseq written commits \<and> set commits \<subseteq> set puts \<and>
     subseq table commits \<and> (forever \<longrightarrow> table = commits)"

lemma subseq_without: "subseq (as @ ms @ bs) ys \<Longrightarrow> subseq (as @ bs) ys"
  using list_emb_append_mono [of "(=)" as as bs "ms @ bs"] by (auto intro: subseq_order.trans list_emb_append2)

lemma flow_put: "flow k P W R V L way M T \<Longrightarrow> flow k (P @ [r]) W R V L (way @ [r]) M T"
  by (auto simp: flow_def subseq_append simp flip: append_assoc)

lemma flow_over: "flow k P W R V L (a @ x @ b) M T \<Longrightarrow> flow k P W R (V @ x) L (a @ b) M T"
  using subseq_without [of "W @ a" x b P] by (auto simp: flow_def)

lemma flow_refuse: "flow k P W R V L (x # b) M T \<Longrightarrow> flow k P W (R @ [x]) V L b M T"
  using subseq_without [of W "[x]" b P] by (auto simp: flow_def)

lemma flow_commit: "flow k P W R V L way M T \<Longrightarrow> set rs \<subseteq> set way \<Longrightarrow> flow k P W R V L way (M @ rs) (T @ rs)"
proof -
  assume f: "flow k P W R V L way M T" and "set rs \<subseteq> set way"
  moreover have "set way \<subseteq> set P" using f by (metis flow_def mset_subset_eq_add_right set_mset_mono set_mset_mset)
  ultimately show ?thesis by (auto simp: flow_def intro: list_emb_append2 subseq_append_iff [THEN iffD2])
qed

lemma flow_write:
  assumes "flow k P W R V L (rs @ b) M T"
  shows "flow k P (W @ rs) R V L b (M @ rs) (T @ rs)"
  using flow_commit [OF assms, of rs] assms by (auto simp: flow_def intro!: list_emb_append_mono)

lemma flow_lose: "flow k P W R V L way M T \<Longrightarrow> flow k P W R V (L @ way) [] M T"
  using subseq_without [of W way "[]" P] by (auto simp: flow_def)

lemma flow_purge: "flow False P W R V L way M T \<Longrightarrow> flow False P W R V L way M (filter f T)"
  by (auto simp: flow_def intro: subseq_order.trans [of "filter f T" T M])

definition rows_ok :: "'r sink_config \<Rightarrow> 'r list \<Rightarrow> 'r sink \<Rightarrow> bool" where
  "rows_ok C hand s \<longleftrightarrow> flow (sc_keep C = 0) (sk_put s) (sk_written s) (sk_refused s) (sk_over s) (sk_lost s)
     (hand @ queued s @ pending s) (sk_commits s) (sk_table s)"

definition threads_ok :: "'r sink_config \<Rightarrow> 'r sink \<Rightarrow> bool" where
  "threads_ok C s \<longleftrightarrow>
     sk_stop s = sk_closed s \<and> (sk_closed s \<longrightarrow> sk_caller s = NoCall) \<and> (None \<in> set (sk_queue s) \<longrightarrow> sk_closed s) \<and>
     (sk_stage s = Ended \<longrightarrow> sk_closed s \<and> sk_queue s = []) \<and>
     (sk_stage s = Taking \<or> sk_stage s = Settling \<or> sk_stage s = Ended \<longrightarrow> sk_rows s = []) \<and>
     (sk_idle s \<longrightarrow> sk_rows s = [] \<and> queued s = [] \<and> sk_caller s = NoCall) \<and>
     length (sk_rows s) \<le> BATCH \<and> (0 < sc_queue C \<longrightarrow> length (sk_queue s) \<le> sc_queue C) \<and>
     ((\<exists>r. sk_caller s = MustPut r) \<longrightarrow> \<not> queue_full C s) \<and>
     length (sk_over s) \<le> sk_dropped s + (if \<exists>r. sk_caller s = MustPut r then 1 else 0) \<and>
     (\<forall>t. sk_stage s = Asleep t \<longrightarrow> t \<in> set BACKOFF)"

definition sink_inv :: "'r sink_config \<Rightarrow> 'r sink \<Rightarrow> bool" where
  "sink_inv C s \<longleftrightarrow> rows_ok C (sk_rows s) s \<and> threads_ok C s"

lemma sink_start: "sink_inv C new_sink"
  by (simp add: sink_inv_def rows_ok_def flow_def threads_ok_def new_sink_def queued_def pending_def queue_full_def)

lemma put_rows:
  assumes "rows_ok C hand s" "sk_caller s = NoCall"
  shows "rows_ok C hand (put_row C r s)"
  using assms flow_put [of "sc_keep C = 0" "sk_put s" "sk_written s" "sk_refused s" "sk_over s" "sk_lost s"
      "hand @ queued s" "sk_commits s" "sk_table s" r]
  by (simp add: rows_ok_def put_row_def Let_def queued_def pending_def)

lemma put_threads: "threads_ok C s \<Longrightarrow> sk_caller s = NoCall \<Longrightarrow> threads_ok C (put_row C r s)"
  by (simp add: threads_ok_def put_row_def queue_full_def Let_def) auto

lemma put_keeps_rows: "sk_rows (put_row C r s) = sk_rows s" "sk_rows (put_drop r s) = sk_rows s"
  by (simp_all add: put_row_def put_drop_def Let_def split: list.split)

lemma put_drop_rows:
  assumes "rows_ok C hand s" "sk_caller s = MustDrop r"
  shows "rows_ok C hand (put_drop r s)"
proof (cases "sk_queue s")
  case (Cons item items)
  with assms flow_over [of "sc_keep C = 0" "sk_put s" "sk_written s" "sk_refused s" "sk_over s" "sk_lost s" hand
      "case item of None \<Rightarrow> [] | Some x \<Rightarrow> [x]"] show ?thesis
    by (cases item) (simp_all add: rows_ok_def put_drop_def queued_def pending_def)
qed (use assms in \<open>simp add: rows_ok_def put_drop_def queued_def pending_def\<close>)

lemma put_drop_threads:
  assumes "threads_ok C s" "sk_caller s = MustDrop r"
  shows "threads_ok C (put_drop r s)"
proof (cases "sk_queue s")
  case (Cons item items)
  with assms show ?thesis
    by (cases item) (auto simp: threads_ok_def put_drop_def queue_full_def queued_def)
qed (use assms in \<open>auto simp: threads_ok_def put_drop_def queue_full_def queued_def\<close>)

lemma put_again_inv: "sink_inv C s \<Longrightarrow> sk_caller s = MustPut r \<Longrightarrow> sink_inv C (put_again C r s)"
  by (auto simp: sink_inv_def rows_ok_def threads_ok_def queued_def pending_def put_again_def queue_full_def)

lemma close_inv: "sink_inv C s \<Longrightarrow> sk_caller s = NoCall \<Longrightarrow> sink_inv C (close_sink C s)"
  by (auto simp: sink_inv_def rows_ok_def threads_ok_def queued_def pending_def close_sink_def queue_full_def Let_def)

lemma take_first_inv:
  assumes "sink_inv C s" "sk_stage s = Taking"
  shows "sink_inv C (take_first s)"
proof (cases "sk_queue s")
  case Nil
  with assms show ?thesis by (auto simp: sink_inv_def rows_ok_def threads_ok_def take_first_def queued_def pending_def queue_full_def)
next
  case (Cons item items)
  with assms show ?thesis
    by (cases item; auto simp: sink_inv_def rows_ok_def threads_ok_def take_first_def queued_def pending_def queue_full_def BATCH_def)
qed

lemma take_more_inv:
  assumes "sink_inv C s" "sk_stage s = Collecting"
  shows "sink_inv C (take_more s)"
proof (cases "sk_queue s")
  case Nil
  with assms show ?thesis by (auto simp: sink_inv_def rows_ok_def threads_ok_def take_more_def queued_def pending_def queue_full_def)
next
  case (Cons item items)
  with assms show ?thesis
    by (cases item; auto simp: sink_inv_def rows_ok_def threads_ok_def take_more_def queued_def pending_def queue_full_def)
qed

section \<open>The attempts\<close>

text \<open>What an attempt and a purge leave alone.\<close>

definition same_threads :: "'r sink \<Rightarrow> 'r sink \<Rightarrow> bool" where
  "same_threads s t \<longleftrightarrow> sk_queue t = sk_queue s \<and> sk_caller t = sk_caller s \<and> sk_idle t = sk_idle s \<and>
     sk_stop t = sk_stop s \<and> sk_closed t = sk_closed s \<and> sk_dropped t = sk_dropped s \<and> sk_over t = sk_over s \<and>
     sk_stage t = sk_stage s"

lemma write_each_ok:
  "write_each answer n rs s = (b, t) \<Longrightarrow> rows_ok C rs s \<Longrightarrow>
   rows_ok C (sk_rows t) t \<and> same_threads s t \<and> (b \<longrightarrow> sk_rows t = []) \<and> length (sk_rows t) \<le> length rs"
proof (induction answer n rs s rule: write_each.induct)
  case (1 answer n s)
  then show ?case by (auto simp: rows_ok_def same_threads_def queued_def pending_def)
next
  case (2 answer n r rs s)
  show ?case
  proof (cases "answer n")
    case Committed
    let ?s = "(committed [r] s)\<lparr>sk_written := sk_written s @ [r]\<rparr>"
    from flow_write [of "sc_keep C = 0" "sk_put s" "sk_written s" "sk_refused s" "sk_over s" "sk_lost s" "[r]"] 2(4)
    have "rows_ok C rs ?s" by (simp add: rows_ok_def committed_def queued_def pending_def)
    with 2(1) [OF Committed] 2(3) Committed show ?thesis by (auto simp: same_threads_def committed_def)
  next
    case Declined
    let ?s = "s\<lparr>sk_refused := sk_refused s @ [r]\<rparr>"
    from flow_refuse [of "sc_keep C = 0" "sk_put s" "sk_written s" "sk_refused s" "sk_over s" "sk_lost s" r] 2(4)
    have "rows_ok C rs ?s" by (simp add: rows_ok_def queued_def pending_def)
    with 2(2) [OF Declined] 2(3) Declined show ?thesis by (auto simp: same_threads_def)
  next
    case (Unreached done_there)
    with 2(3,4) flow_commit [of "sc_keep C = 0" "sk_put s" "sk_written s" "sk_refused s" "sk_over s" "sk_lost s"
        "r # rs @ queued s @ pending s" "sk_commits s" "sk_table s" "[r]"] show ?thesis
      by (cases done_there) (auto simp: rows_ok_def same_threads_def committed_def queued_def pending_def)
  qed
qed

lemma write_rows_ok:
  assumes "write_rows a s = (b, t)" "rows_ok C (sk_rows s) s"
  shows "rows_ok C (sk_rows t) t \<and> same_threads s t \<and> (b \<longrightarrow> sk_rows t = []) \<and> length (sk_rows t) \<le> length (sk_rows s)"
proof (cases "at_batch a")
  case Committed
  with assms flow_write [of "sc_keep C = 0" "sk_put s" "sk_written s" "sk_refused s" "sk_over s" "sk_lost s" "sk_rows s"]
  show ?thesis by (auto simp: write_rows_def rows_ok_def same_threads_def committed_def queued_def pending_def)
next
  case (Unreached done_there)
  with assms flow_commit [of "sc_keep C = 0" "sk_put s" "sk_written s" "sk_refused s" "sk_over s" "sk_lost s"
      "sk_rows s @ queued s @ pending s" "sk_commits s" "sk_table s" "sk_rows s"]
  show ?thesis by (cases done_there) (auto simp: write_rows_def rows_ok_def same_threads_def committed_def queued_def pending_def)
next
  case Declined
  with assms write_each_ok [of "at_each a" 0 "sk_rows s" s b t C] show ?thesis by (simp add: write_rows_def)
qed

lemma fail_keeps: "rows_ok C h (fail msg now s) = rows_ok C h s" "same_threads s (fail msg now s)"
  "sk_rows (fail msg now s) = sk_rows s" "0 < sk_failures (fail msg now s)"
  by (simp_all add: fail_def rows_ok_def same_threads_def queued_def pending_def)

lemma purge_ok:
  assumes "rows_ok C h s" "purge_due C now s"
  shows "rows_ok C h (purge_table C p now s) \<and> same_threads s (purge_table C p now s) \<and>
    sk_rows (purge_table C p now s) = sk_rows s"
proof -
  have "\<not> sc_keep C = 0" using assms(2) by (simp add: purge_due_def)
  with assms(1) flow_purge [of "sk_put s" "sk_written s" "sk_refused s" "sk_over s" "sk_lost s" "h @ queued s @ pending s"
      "sk_commits s" "sk_table s"] show ?thesis
    by (simp add: purge_table_def rows_ok_def same_threads_def fail_def queued_def pending_def split: purge_result.split)
qed

text \<open>The writer goes on: the threads stay in order when only the rows in hand and the stage change.\<close>

lemma threads_stage:
  assumes "threads_ok C s" "same_threads s t" "length (sk_rows t) \<le> length (sk_rows s)" "sk_idle s \<Longrightarrow> sk_rows t = []"
    and "st = Taking \<or> st = Settling \<Longrightarrow> sk_rows t = []" "\<And>x. st = Asleep x \<Longrightarrow> x \<in> set BACKOFF" "st \<noteq> Ended"
  shows "threads_ok C (t\<lparr>sk_stage := st\<rparr>)"
  using assms by (auto simp: threads_ok_def same_threads_def queued_def queue_full_def)

lemma rows_stage [simp]: "rows_ok C h (t\<lparr>sk_stage := st\<rparr>) = rows_ok C h t" "rows_ok C h (t\<lparr>sk_conn := b\<rparr>) = rows_ok C h t"
  "same_threads s (t\<lparr>sk_conn := b\<rparr>) = same_threads s t"
  by (simp_all add: rows_ok_def queued_def pending_def same_threads_def)

lemma same_threads_refl [simp]: "same_threads s s"
  by (simp add: same_threads_def)

lemma same_threads_trans: "same_threads s t \<Longrightarrow> same_threads t u \<Longrightarrow> same_threads s u"
  by (simp add: same_threads_def)

lemma end_writer_inv:
  assumes "rows_ok C (sk_rows t) t" "threads_ok C s" "same_threads s t" "sk_stop t"
  shows "sink_inv C (end_writer t)"
proof -
  have "sk_caller t = NoCall" "sk_closed t" "sk_stop t = sk_closed t" using assms(2-4) by (auto simp: threads_ok_def same_threads_def)
  with assms flow_lose [of "sc_keep C = 0" "sk_put t" "sk_written t" "sk_refused t" "sk_over t" "sk_lost t"
      "sk_rows t @ queued t" "sk_commits t" "sk_table t"] show ?thesis
    by (auto simp: sink_inv_def rows_ok_def threads_ok_def end_writer_def queued_def pending_def queue_full_def same_threads_def)
qed

lemma backoff_in: "0 < n \<Longrightarrow> BACKOFF ! (min n (length BACKOFF) - 1) \<in> set BACKOFF"
  by (rule nth_mem) (auto simp: BACKOFF_def)

lemma failed_inv:
  assumes "rows_ok C (sk_rows t) t" "threads_ok C s" "same_threads s t" "length (sk_rows t) \<le> length (sk_rows s)" "\<not> sk_idle s"
  shows "sink_inv C (failed msg now t)"
proof (cases "sk_stop t")
  case True
  with assms end_writer_inv [of C "t\<lparr>sk_conn := False\<rparr>" s] show ?thesis by (simp add: failed_def)
next
  case False
  let ?t = "fail msg now (t\<lparr>sk_conn := False\<rparr>)"
  have "same_threads s ?t" using same_threads_trans [OF assms(3)] fail_keeps(2) [of "t\<lparr>sk_conn := False\<rparr>"]
    by (simp add: same_threads_def)
  moreover have "sk_rows ?t = sk_rows t" by (simp add: fail_keeps)
  ultimately have "threads_ok C (?t\<lparr>sk_stage := Asleep (BACKOFF ! (min (sk_failures ?t) (length BACKOFF) - 1))\<rparr>)"
    using assms backoff_in [of "sk_failures ?t"] by (intro threads_stage [OF assms(2)]) (auto simp: fail_keeps)
  with False assms(1) show ?thesis by (simp add: failed_def Let_def sink_inv_def fail_keeps)
qed

lemma decide_inv:
  assumes "sink_inv C s" "sk_stage s = Deciding"
  shows "sink_inv C (decide C a p now s)"
proof (cases "sk_rows s = []")
  case True
  from assms have r: "rows_ok C (sk_rows s) s" and t: "threads_ok C s" by (simp_all add: sink_inv_def)
  show ?thesis
  proof (cases "sk_stop s")
    case True
    with \<open>sk_rows s = []\<close> end_writer_inv [OF r t same_threads_refl] show ?thesis by (simp add: decide_def)
  next
    case False
    define u where "u = (if sk_conn s \<and> purge_due C now s then purge_table C p now s else s)"
    have "rows_ok C [] u" "same_threads s u" "sk_rows u = []" using purge_ok [OF r] r True by (simp_all add: u_def)
    with False True threads_stage [OF t, of u Taking] show ?thesis by (simp add: decide_def sink_inv_def flip: u_def)
  qed
next
  case False
  from assms have r: "rows_ok C (sk_rows s) s" and t: "threads_ok C s" and i: "\<not> sk_idle s"
    using False by (auto simp: sink_inv_def threads_ok_def)
  show ?thesis
  proof (cases "if sk_conn s then None else at_refused a")
    case (Some msg)
    with False failed_inv [OF r t same_threads_refl _ i] show ?thesis by (simp add: decide_def)
  next
    case None
    obtain b u where u: "write_rows a (s\<lparr>sk_conn := True\<rparr>) = (b, u)" by force
    have "rows_ok C (sk_rows u) u \<and> same_threads s u \<and> (b \<longrightarrow> sk_rows u = []) \<and> length (sk_rows u) \<le> length (sk_rows s)"
      using write_rows_ok [OF u, of C] r by (simp add: same_threads_def)
    then have w: "rows_ok C (sk_rows u) u" "same_threads s u" "b \<Longrightarrow> sk_rows u = []" "length (sk_rows u) \<le> length (sk_rows s)"
      by auto
    show ?thesis
    proof (cases b)
      case True
      have "same_threads s (recovered u)" "sk_rows (recovered u) = sk_rows u" "rows_ok C h (recovered u) = rows_ok C h u" for h
        using w(2) by (simp_all add: recovered_def same_threads_def rows_ok_def queued_def pending_def)
      with threads_stage [OF t, of "recovered u" Settling] w True i None False u show ?thesis
        by (simp add: decide_def sink_inv_def)
    next
      case False
      with failed_inv [OF w(1) t w(2,4) i] None \<open>sk_rows s \<noteq> []\<close> u show ?thesis by (simp add: decide_def)
    qed
  qed
qed

lemma settle_inv:
  assumes "sink_inv C s" "sk_stage s = Settling" "sk_caller s = NoCall"
  shows "sink_inv C (settle C p now s)"
proof -
  define i where "i = (if sk_queue s = [] then s\<lparr>sk_idle := True\<rparr> else s)"
  from assms have i: "rows_ok C (sk_rows i) i" "threads_ok C i" "sk_rows i = []"
    by (auto simp: i_def sink_inv_def rows_ok_def threads_ok_def queued_def pending_def queue_full_def)
  define t where "t = (if purge_due C now i then purge_table C p now i else i)"
  have "rows_ok C [] t" "same_threads i t" "sk_rows t = []" using purge_ok [OF i(1)] i(1,3) by (simp_all add: t_def)
  with i threads_stage [OF i(2), of t Taking] show ?thesis by (simp add: settle_def Let_def sink_inv_def flip: i_def t_def)
qed

lemma woken_inv: "sink_inv C s \<Longrightarrow> sk_stage s = Asleep x \<Longrightarrow> sink_inv C (s\<lparr>sk_stage := Deciding\<rparr>)"
  by (auto simp: sink_inv_def threads_ok_def queued_def queue_full_def)

lemma sink_step_inv: "sink_inv C s \<Longrightarrow> sink_step C s t \<Longrightarrow> sink_inv C t"
proof (elim sink_stepE)
  fix ev assume "sink_inv C s" "exec_sink C ev s = Some t"
  then show "sink_inv C t"
    using put_rows [of C _ s] put_threads [of C s] put_drop_rows [of C _ s] put_drop_threads [of C s] put_again_inv [of C s]
      close_inv [of C s] take_first_inv [of C s] take_more_inv [of C s] decide_inv [of C s] settle_inv [of C s] woken_inv [of C s]
    by (cases ev) (auto simp: exec_sink_def sink_inv_def put_keeps_rows split: if_splits put_stage.splits writer_stage.splits)
qed

interpretation sk: invariant_machine "\<lambda>s. s = new_sink" "sink_step C" "sink_inv C" for C
  by unfold_locales (auto intro: sink_start sink_step_inv)

text \<open>C11: The writer of the database loses no row without counting it and keeps their order: whatever the
  order of the requests, of the writer's steps and of the answers of the server (refused connections,
  batches refused and written row by row, connections lost before or after a commit, purges cut
  short), each row put is written, refused by the server, dropped from a full queue, counted at the
  end, or still on its way; what is written follows the order of the puts; the table holds nothing
  else; the flag \<open>flush\<close> waits for says that nothing is on its way; the queue and the batches keep
  their bounds, and the count of the dropped rows is not below their number.\<close>

theorem sink_accounts:
  assumes "(sink_step C)\<^sup>*\<^sup>* new_sink s"
  shows "mset (sk_put s) = mset (sk_written s) + mset (sk_refused s) + mset (sk_over s) + mset (sk_lost s) +
      mset (sk_rows s @ queued s @ pending s) \<and>
    subseq (sk_written s @ sk_rows s @ queued s @ pending s) (sk_put s) \<and>
    subseq (sk_written s) (sk_commits s) \<and> set (sk_commits s) \<subseteq> set (sk_put s) \<and> subseq (sk_table s) (sk_commits s) \<and>
    (sc_keep C = 0 \<longrightarrow> sk_table s = sk_commits s) \<and>
    (sk_idle s \<longrightarrow> sk_rows s @ queued s @ pending s = []) \<and>
    length (sk_rows s) \<le> BATCH \<and> (0 < sc_queue C \<longrightarrow> length (sk_queue s) \<le> sc_queue C) \<and>
    (sk_caller s = NoCall \<longrightarrow> length (sk_over s) \<le> sk_dropped s)"
proof -
  from sk.reach_inv [OF refl assms] have rows: "rows_ok C (sk_rows s) s" and threads: "threads_ok C s" by (simp_all add: sink_inv_def)
  then have "sk_idle s \<longrightarrow> sk_rows s @ queued s @ pending s = []" by (simp add: threads_ok_def pending_def)
  moreover have "sk_caller s = NoCall \<longrightarrow> length (sk_over s) \<le> sk_dropped s"
    using threads unfolding threads_ok_def by (intro impI) simp
  ultimately show ?thesis using rows threads unfolding rows_ok_def flow_def threads_ok_def by simp
qed

fun run_sink :: "'r sink_config \<Rightarrow> 'r sink_event list \<Rightarrow> 'r sink \<Rightarrow> 'r sink option" where
  "run_sink C [] s = Some s"
| "run_sink C (ev # evs) s = (case exec_sink C ev s of None \<Rightarrow> None | Some t \<Rightarrow> run_sink C evs t)"

lemma run_sink_append: "run_sink C (evs @ evs') s = Option.bind (run_sink C evs s) (run_sink C evs')"
  by (induction evs arbitrary: s) (auto split: option.split)

lemma run_sink_steps: "run_sink C evs s = Some t \<Longrightarrow> (sink_step C)\<^sup>*\<^sup>* s t"
  by (induction evs arbitrary: s) (auto split: option.splits intro: converse_rtranclp_into_rtranclp sink_does)

section \<open>A server that answers\<close>

text \<open>The writer takes what is there, up to a batch.\<close>

lemma collects:
  assumes "sk_stage s = Collecting" "sk_queue s = q"
  shows "\<exists>k t rs. run_sink C (replicate k TakeMore) s = Some t \<and>
    t = s\<lparr>sk_stage := Deciding, sk_queue := sk_queue t, sk_rows := sk_rows s @ rs\<rparr> \<and>
    queued s = rs @ queued t \<and> length (sk_queue t) \<le> length q \<and> (sk_queue t = [] \<or> sk_rows t \<noteq> [])"
  using assms
proof (induction q arbitrary: s)
  case Nil
  then show ?case
    by (intro exI [of _ "1::nat"] exI [of _ "s\<lparr>sk_stage := Deciding\<rparr>"] exI [of _ "[]"])
      (simp add: exec_sink_def take_more_def queued_def)
next
  case (Cons item q)
  show ?case
  proof (cases "length (sk_rows s) < BATCH")
    case False
    then have "sk_rows s \<noteq> []" by (auto simp: BATCH_def)
    with False Cons.prems show ?thesis
      by (intro exI [of _ "1::nat"] exI [of _ "s\<lparr>sk_stage := Deciding\<rparr>"] exI [of _ "[]"])
        (simp add: exec_sink_def take_more_def queued_def)
  next
    case True
    let ?x = "case item of None \<Rightarrow> [] | Some r \<Rightarrow> [r]"
    let ?s = "s\<lparr>sk_queue := q, sk_rows := sk_rows s @ ?x\<rparr>"
    have step: "exec_sink C TakeMore s = Some ?s" using True Cons.prems by (simp add: exec_sink_def take_more_def)
    from Cons.IH [of ?s] Cons.prems(1) obtain k t rs where
      t: "run_sink C (replicate k TakeMore) ?s = Some t"
        "t = ?s\<lparr>sk_stage := Deciding, sk_queue := sk_queue t, sk_rows := sk_rows ?s @ rs\<rparr>"
        "queued ?s = rs @ queued t" "length (sk_queue t) \<le> length q" "sk_queue t = [] \<or> sk_rows t \<noteq> []" by auto
    have "queued s = (?x @ rs) @ queued t" using t(3) Cons.prems(2) by (simp add: queued_def split: option.split)
    moreover have "t = s\<lparr>sk_stage := Deciding, sk_queue := sk_queue t, sk_rows := sk_rows s @ ?x @ rs\<rparr>" using t(2) by simp
    ultimately show ?thesis using step t(1,4,5)
      by (intro exI [of _ "Suc k"] exI [of _ t] exI [of _ "?x @ rs"]) (simp add: Cons.prems(2))
  qed
qed

definition answering :: "attempt \<Rightarrow> bool" where
  "answering a \<longleftrightarrow> at_refused a = None \<and> at_batch a = Committed"

definition writer_runs :: "'r sink_config \<Rightarrow> attempt \<Rightarrow> 'r purge \<Rightarrow> real \<Rightarrow> 'r sink \<Rightarrow> 'r sink \<Rightarrow> bool" where
  "writer_runs C a p now s t \<longleftrightarrow>
     (\<exists>evs. set evs \<subseteq> {TakeFirst, TakeMore, Decide a p now, Settle p now} \<and> run_sink C evs s = Some t)"

lemma writer_runs_trans: "writer_runs C a p now s t \<Longrightarrow> writer_runs C a p now t u \<Longrightarrow> writer_runs C a p now s u"
  unfolding writer_runs_def by (metis (no_types, lifting) Un_least bind.bind_lunit run_sink_append set_append)

lemma writer_runs_one:
  "exec_sink C ev s = Some t \<Longrightarrow> ev \<in> {TakeFirst, TakeMore, Decide a p now, Settle p now} \<Longrightarrow> writer_runs C a p now s t"
  unfolding writer_runs_def by (intro exI [of _ "[ev]"]) simp

lemma purge_keeps:
  "sk_queue (purge_table C p now s) = sk_queue s" "sk_closed (purge_table C p now s) = sk_closed s"
  "sk_written (purge_table C p now s) = sk_written s" "sk_lost (purge_table C p now s) = sk_lost s"
  "sk_caller (purge_table C p now s) = sk_caller s" "sk_idle (purge_table C p now s) = sk_idle s"
  by (simp_all add: purge_table_def fail_def Let_def split: purge_result.split)

text \<open>One turn of the loop.\<close>

lemma writer_turn:
  assumes "sink_inv C s" "sk_stage s = Taking" "sk_caller s = NoCall" "answering a" "sk_queue s \<noteq> []"
  shows "\<exists>t. writer_runs C a p now s t \<and> sk_closed t = sk_closed s \<and> sk_lost t = sk_lost s \<and> sk_caller t = NoCall \<and>
    (\<exists>rs. sk_written t = sk_written s @ rs \<and> queued s = rs @ queued t) \<and> length (sk_queue t) < length (sk_queue s) \<and>
    (if sk_stage t = Ended then sk_closed s \<and> sk_queue t = [] else sk_stage t = Taking \<and> (sk_queue t = [] \<longrightarrow> sk_idle t))"
proof -
  obtain item q where q: "sk_queue s = item # q" using assms(5) by (cases "sk_queue s") auto
  let ?x = "case item of None \<Rightarrow> [] | Some r \<Rightarrow> [r]"
  let ?s = "s\<lparr>sk_queue := q, sk_rows := ?x, sk_stage := Collecting\<rparr>"
  have first: "writer_runs C a p now s ?s"
    using assms(2) q by (intro writer_runs_one [of C TakeFirst]) (simp_all add: exec_sink_def take_first_def)
  from collects [of ?s q C] obtain k t rs where
    t: "run_sink C (replicate k TakeMore) ?s = Some t" "t = ?s\<lparr>sk_stage := Deciding, sk_queue := sk_queue t, sk_rows := ?x @ rs\<rparr>"
      "queued ?s = rs @ queued t" "length (sk_queue t) \<le> length q" "sk_queue t = [] \<or> sk_rows t \<noteq> []" by auto
  have "writer_runs C a p now ?s t" unfolding writer_runs_def using t(1)
    by (intro exI [of _ "replicate k TakeMore"]) auto
  with first have took: "writer_runs C a p now s t" by (rule writer_runs_trans)
  have x: "queued s = ?x @ queued ?s" by (simp add: queued_def q split: option.split)
  have rt: "sk_rows t = ?x @ rs" by (subst t(2)) simp
  have rows: "queued s = sk_rows t @ queued t" using x t(3) rt by simp
  have same: "sk_stage t = Deciding" "sk_closed t = sk_closed s" "sk_stop t = sk_stop s" "sk_lost t = sk_lost s"
    "sk_caller t = NoCall" "sk_written t = sk_written s"
    using assms(3) by (subst t(2); simp)+
  have shorter: "length (sk_queue t) < length (sk_queue s)" using t(4) q by simp
  show ?thesis
  proof (cases "sk_rows t = []")
    case True
    then have none: "sk_queue t = []" "queued t = []" using t(5) by (simp_all add: queued_def)
    from True rt have "item = None" by (cases item) simp_all
    with assms(1) q have closed: "sk_closed s" "sk_stop s" by (auto simp: sink_inv_def threads_ok_def)
    have "exec_sink C (Decide a p now) t = Some (end_writer t)" using True same closed by (simp add: exec_sink_def decide_def)
    then have "writer_runs C a p now t (end_writer t)" by (rule writer_runs_one) simp
    with took have "writer_runs C a p now s (end_writer t)" by (rule writer_runs_trans)
    then show ?thesis
      using True none same closed rows shorter by (intro exI [of _ "end_writer t"]) (simp add: end_writer_def queued_def)
  next
    case False
    define u where "u = (recovered ((committed (sk_rows t) (t\<lparr>sk_conn := True\<rparr>))\<lparr>sk_written := sk_written t @ sk_rows t, sk_rows := []\<rparr>))
      \<lparr>sk_stage := Settling\<rparr>"
    have "exec_sink C (Decide a p now) t = Some u"
      using False same assms(4) by (simp add: exec_sink_def decide_def write_rows_def answering_def u_def committed_def)
    then have "writer_runs C a p now t u" by (rule writer_runs_one) simp
    with took have su: "writer_runs C a p now s u" by (rule writer_runs_trans)
    have u: "sk_queue u = sk_queue t" "sk_closed u = sk_closed s" "sk_lost u = sk_lost s" "sk_caller u = NoCall"
      "sk_written u = sk_written s @ sk_rows t" "sk_stage u = Settling"
      using same by (simp_all add: u_def recovered_def committed_def)
    have "writer_runs C a p now u (settle C p now u)" using u by (intro writer_runs_one [of C "Settle p now"]) (simp_all add: exec_sink_def)
    with su have run: "writer_runs C a p now s (settle C p now u)" by (rule writer_runs_trans)
    have "sk_queue (settle C p now u) = sk_queue t" "sk_closed (settle C p now u) = sk_closed s" "sk_lost (settle C p now u) = sk_lost s"
      "sk_caller (settle C p now u) = NoCall" "sk_written (settle C p now u) = sk_written s @ sk_rows t"
      "sk_stage (settle C p now u) = Taking" "sk_queue t = [] \<longrightarrow> sk_idle (settle C p now u)"
      using u by (simp_all add: settle_def Let_def purge_keeps)
    with run rows shorter show ?thesis by (intro exI [of _ "settle C p now u"]) (simp add: queued_def)
  qed
qed

text \<open>C23: When the server answers, the writer writes everything that waits: from any state in which it
  comes to take rows, its own steps, without any help from the callers, reach a state where every row
  that was queued is written, in order, none is lost and the flag of \<open>flush\<close> is set; after
  \<open>close\<close>, where the thread has ended.\<close>

theorem sink_drains:
  assumes "(sink_step C)\<^sup>*\<^sup>* new_sink s" "sk_stage s = Taking" "sk_caller s = NoCall" "answering a"
  shows "\<exists>t. writer_runs C a p now s t \<and> sk_written t = sk_written s @ queued s \<and> queued t = [] \<and> sk_lost t = sk_lost s \<and>
    (if sk_closed s then sk_stage t = Ended else sk_stage t = Taking \<and> (queued s \<noteq> [] \<longrightarrow> sk_idle t))"
proof -
  have stay: "writer_runs C a p now s s" for s :: "'a sink" unfolding writer_runs_def by (intro exI [of _ "[]"]) simp
  have empty: "\<exists>t. writer_runs C a p now s t \<and> sk_written t = sk_written s \<and> queued t = [] \<and> sk_lost t = sk_lost s \<and> sk_stage t = Ended"
    if "sink_inv C s" "sk_stage s = Taking" "sk_closed s" "sk_queue s = []" for s :: "'a sink"
  proof -
    let ?s = "s\<lparr>sk_rows := [], sk_stage := Deciding\<rparr>"
    have "sk_stop s" using that by (simp add: sink_inv_def threads_ok_def)
    then have "writer_runs C a p now s ?s" "writer_runs C a p now ?s (end_writer ?s)"
      using that by (auto simp: exec_sink_def take_first_def decide_def intro: writer_runs_one [of C TakeFirst] writer_runs_one [of C "Decide a p now"])
    then have "writer_runs C a p now s (end_writer ?s)" by (rule writer_runs_trans)
    with that(4) show ?thesis by (intro exI [of _ "end_writer ?s"]) (simp add: end_writer_def queued_def)
  qed
  have "sink_inv C s" using sk.reach_inv [OF refl assms(1)] by simp
  then show ?thesis using assms(2,3)
  proof (induction "length (sk_queue s)" arbitrary: s rule: less_induct)
    case less
    show ?case
    proof (cases "sk_queue s = []")
      case True
      with empty [OF less.prems(1,2) _ True] less.prems(2) stay [of s] show ?thesis
        by (cases "sk_closed s") (auto simp: queued_def)
    next
      case False
      from writer_turn [OF less.prems assms(4) False, of p now] obtain u rs where u:
        "writer_runs C a p now s u" "sk_closed u = sk_closed s" "sk_lost u = sk_lost s" "sk_caller u = NoCall"
        "sk_written u = sk_written s @ rs" "queued s = rs @ queued u" "length (sk_queue u) < length (sk_queue s)"
        "if sk_stage u = Ended then sk_closed s \<and> sk_queue u = [] else sk_stage u = Taking \<and> (sk_queue u = [] \<longrightarrow> sk_idle u)"
        by blast
      from u(1) less.prems(1) have inv: "sink_inv C u"
        unfolding writer_runs_def using run_sink_steps sk.steps_inv by blast
      consider (ended) "sk_stage u = Ended" | (idle) "sk_stage u = Taking" "sk_queue u = []" "\<not> sk_closed s"
        | (more) "sk_stage u = Taking" "sk_queue u \<noteq> [] \<or> sk_closed s" using u(8) by (auto split: if_splits)
      then show ?thesis
      proof cases
        case ended
        with u show ?thesis by (intro exI [of _ u]) (auto simp: queued_def)
      next
        case idle
        with u show ?thesis by (intro exI [of _ u]) (auto simp: queued_def)
      next
        case more
        from less.hyps [OF u(7) inv more(1) u(4)] obtain t where t: "writer_runs C a p now u t"
          "sk_written t = sk_written u @ queued u" "queued t = []" "sk_lost t = sk_lost u"
          "if sk_closed u then sk_stage t = Ended else sk_stage t = Taking \<and> (queued u \<noteq> [] \<longrightarrow> sk_idle t)" by blast
        have "queued u \<noteq> []" if "\<not> sk_closed s"
        proof -
          from that more(2) obtain item q where "sk_queue u = item # q" by (cases "sk_queue u") auto
          with that inv u(2) show ?thesis by (cases item) (auto simp: sink_inv_def threads_ok_def queued_def)
        qed
        with t u writer_runs_trans [OF u(1) t(1)] show ?thesis by (intro exI [of _ t]) auto
      qed
    qed
  qed
qed

section \<open>A full queue\<close>

definition demo_sink :: "nat sink_config" where
  "demo_sink = \<lparr>sc_queue = 1, sc_keep = 0, sc_time = real\<rparr>"

definition demo_sink_state :: "nat sink" where
  "demo_sink_state = new_sink\<lparr>sk_queue := [Some 2], sk_idle := False, sk_dropped := 1, sk_drop_warned := True,
     sk_put := [1, 2], sk_over := [1]\<rparr>"

lemma demo_sink_run: "run_sink demo_sink [Put 1, Put 2, PutDrop, PutAgain] new_sink = Some demo_sink_state"
  by (simp add: exec_sink_def put_row_def put_drop_def put_again_def queue_full_def demo_sink_def demo_sink_state_def new_sink_def)

theorem sink_accounts_witness:
  "(sink_step demo_sink)\<^sup>*\<^sup>* new_sink demo_sink_state \<and> length (sk_over demo_sink_state) \<le> sk_dropped demo_sink_state"
  using run_sink_steps [OF demo_sink_run] sink_accounts [OF run_sink_steps [OF demo_sink_run]]
  by (simp add: demo_sink_state_def new_sink_def)

theorem sink_drains_witness:
  "\<exists>t. writer_runs demo_sink \<lparr>at_refused = None, at_batch = Committed, at_each = (\<lambda>_. Committed), at_message = []\<rparr>
      \<lparr>pg_result = Purged, pg_gone = (\<lambda>_. False)\<rparr> 0 demo_sink_state t \<and> sk_written t = [2]"
proof -
  have s: "sk_stage demo_sink_state = Taking" "sk_caller demo_sink_state = NoCall" "queued demo_sink_state = [2]"
    "sk_written demo_sink_state = []" by (simp_all add: demo_sink_state_def new_sink_def queued_def)
  from sink_drains [OF run_sink_steps [OF demo_sink_run] s(1,2),
      of "\<lparr>at_refused = None, at_batch = Committed, at_each = (\<lambda>_. Committed), at_message = []\<rparr>"
         "\<lparr>pg_result = Purged, pg_gone = (\<lambda>_. False)\<rparr>" 0] s(3,4)
  show ?thesis by (auto simp: answering_def)
qed

end
