(* ===== verification/Access_Rows.thy ===== *)
theory Access_Rows
  imports Access_Stats Access_Sink
begin

text \<open>
  The rows of the connection log in the database (\<open>row_of\<close> of \<^verbatim>\<open>src/src/sreweb/portal/accessdb.py\<close> and
  \<open>row_to_dict\<close> of \<^verbatim>\<open>src/src/sreweb/portal/accesshistory.py\<close>): the fields that have a column, cut at its
  width, and the others as typed JSON. The length of that JSON text is an argument (\<open>bytes\<close>); what a
  column holds is what the table gives back. \<open>clean_text\<close> changes the lone surrogates only, which no
  text of the model has.
\<close>

section \<open>From a line to a row\<close>

definition WIDTHS :: "(string \<times> nat) list" where
  "WIDTHS = [(''event'', 32), (''login'', 64), (''addr'', 64), (''host'', 64), (''rln'', 255), (''lab'', 255), (''status'', 16)]"

definition MAX_DETAILS :: nat where "MAX_DETAILS = 65000"

definition width_of :: "string \<Rightarrow> nat" where
  "width_of name = (case dget WIDTHS name of Some n \<Rightarrow> n | None \<Rightarrow> 0)"

record db_row =
  dr_ts :: real
  dr_event :: string
  dr_login :: string
  dr_addr :: string
  dr_host :: string
  dr_rln :: string
  dr_lab :: string
  dr_status :: string
  dr_duration :: "pyfloat option"
  dr_details :: line_fields

definition column :: "py_values \<Rightarrow> nat \<Rightarrow> fvalue option \<Rightarrow> string" where
  "column Q width v = (case v of
     None \<Rightarrow> []
   | Some VNone \<Rightarrow> []
   | Some (VBool b) \<Rightarrow> if b then ''1'' else ''0''
   | Some x \<Rightarrow> if x = VStr [] \<or> x = VStr ''-'' then [] else take width (value_str Q x))"

definition duration_column :: "fvalue option \<Rightarrow> pyfloat option" where
  "duration_column v = (case v of Some (VInt i) \<Rightarrow> Some (Fin (real_of_int i)) | Some (VFloat x) \<Rightarrow> Some x | _ \<Rightarrow> None)"

text \<open>A value of the JSON, read back: a set is written as a sorted list.\<close>

definition json_value :: "fvalue \<Rightarrow> fvalue" where
  "json_value v = (case v of VSet l \<Rightarrow> VList (sort l) | _ \<Rightarrow> v)"

definition details_of :: "(line_fields \<Rightarrow> nat) \<Rightarrow> line_fields \<Rightarrow> line_fields" where
  "details_of bytes rest =
     (if MAX_DETAILS < bytes rest then [(''truncated'', VBool True), (''keys'', VList (sort (keys_of rest)))]
      else map (apsnd json_value) rest)"

definition row_of :: "py_values \<Rightarrow> (line_fields \<Rightarrow> nat) \<Rightarrow> real \<Rightarrow> string \<Rightarrow> line_fields \<Rightarrow> db_row" where
  "row_of Q bytes ts event fs =
     (let rest = dpop fs ''event'';
          text = (\<lambda>name. column Q (width_of name) (dget rest name));
          left = foldl dpop rest [''login'', ''addr'', ''host'', ''rln'', ''lab'', ''status'']
      in \<lparr>dr_ts = utc_ms ts, dr_event = take (width_of ''event'') event, dr_login = text ''login'', dr_addr = text ''addr'',
          dr_host = text ''host'', dr_rln = text ''rln'', dr_lab = text ''lab'', dr_status = text ''status'',
          dr_duration = duration_column (dget left ''duration''), dr_details = details_of bytes (dpop left ''duration'')\<rparr>)"

section \<open>From a row to the page\<close>

text \<open>\<open>row_to_dict\<close> of what the table gives back. (A duration that is not a number is refused by the
  driver: its row is not in the table.)\<close>

definition row_to_dict :: "int \<Rightarrow> db_row \<Rightarrow> log_row option" where
  "row_to_dict n r =
     (let row = (\<lambda>d. Some \<lparr>lr_id = n, lr_ts = Some (dr_ts r), lr_event = dr_event r, lr_login = dr_login r, lr_addr = dr_addr r,
            lr_rln = dr_rln r, lr_lab = dr_lab r, lr_status = dr_status r, lr_duration = d, lr_details = dr_details r\<rparr>)
      in case dr_duration r of None \<Rightarrow> row None | Some (Fin x) \<Rightarrow> row (Some x) | Some _ \<Rightarrow> None)"

section \<open>A session read back\<close>

definition closing_fields :: "access_env \<Rightarrow> string \<Rightarrow> visit \<Rightarrow> access_log \<Rightarrow> line_fields" where
  "closing_fields E reason v A = tl (last (al_lines (closed E reason v A)))"

definition closing_details :: "access_env \<Rightarrow> string \<Rightarrow> visit \<Rightarrow> line_fields" where
  "closing_details E reason v = [(''role'', VStr (vi_role v)), (''name'', VStr (vi_name v)), (''group'', VStr (vi_group v)),
     (''reason'', VStr reason), (''since'', VStr (ae_iso E (vi_first v))), (''requests'', VInt (int (vi_requests v))),
     (''projects'', VList (vi_projects v))]"


definition demo_visit :: visit where
  "demo_visit = \<lparr>vi_login = ''ann'', vi_addr = ''10.0.0.1'', vi_role = ''student'', vi_anon = False, vi_name = ''Ann'', vi_ua = [],
     vi_first = 100, vi_last = 160, vi_group = ''g1'', vi_requests = 3, vi_sockets = 0, vi_projects = [''1@@@dns@@@ann'']\<rparr>"

definition demo_access :: access_env where
  "demo_access = \<lparr>ae_addresses = (\<lambda>_. []), ae_address_text = (\<lambda>_. None), ae_networks = [], ae_iso = (\<lambda>_. ''t''), ae_timeout = 60\<rparr>"


end
