(* ===== verification/Spec2Isabelle.thy ===== *)
theory Spec2Isabelle
  imports Exam_Students Exam_Sync Pool_Histories Focus_Safety Rfb_Filter Rate_Limit Agent_Safety Terminal_Histories
    Terminal_Access Answers_Runs Command_Access Sign_In_Safety Access_Log_Safety Role_Cache_Safety Save_Safety
    Access_Stats_Safety Access_Sink_Safety Access_Rows
begin

text \<open>
  A verification library of the web site of SysResEval (\<open>src/src/sreweb\<close>) and of the parts of \<open>sre\<close> it
  rests on.

  \<^bold>\<open>The program.\<close> SysResEval runs network labs in containers (\<open>sre\<close>, \<open>src/src/SRE\<close>). The site puts
  them in a browser. Two programs make it: one \<^emph>\<open>agent\<close> per host (\<open>sreweb/agent\<close>), which runs the
  projects of its users through \<open>sre\<close>, and one \<^emph>\<open>portal\<close> (\<open>sreweb/portal\<close>), which signs the browsers
  in, keeps the pool of hosts, places each new project on one, relays the requests, and holds the
  state that spans hosts: the exams, the presentations, the help of the instructors. Both are asyncio
  programs of one thread: what runs between two awaits is one transition of the models, and every
  state below is the value of the objects between transitions.

  \<^bold>\<open>The theories\<close>, in the order of their imports.

  \<^item> \<open>Prelude\<close>: Python dictionaries (association lists in insertion order), sets, \<open>max(key=)\<close>, text,
    JSON values, errors as values of a sum; the locale \<open>invariant_machine\<close> (a machine whose steps keep
    an invariant), interpreted by every component with a history, and \<open>delta_sync\<close> (each login is
    told the difference between what its page shows and what it must show), interpreted by the
    presentations, the exams and the focuses.
  \<^item> \<open>Identity\<close> (\<open>identity.py\<close>), \<open>User_Groups\<close> (\<open>portal/groups.py\<close>): who a user is, the group keys and the
    memberships. \<open>Presence\<close>, \<open>Presentation\<close> (\<open>portal/presentation.py\<close>): the connected pages with
    every message sent to them, and the presentations; \<open>resync\<close> tells each login the difference.
  \<^item> \<open>Exam_Model\<close>, \<open>Exam_Requests\<close>, \<open>Exam_Registry\<close>, \<open>Exam_Operations\<close> (\<open>portal/exams.py\<close>,
    \<open>portal/examstore.py\<close>): the exams, their clock and phases, the parsing of the requests, the
    registry with its write-through to a database that may refuse any operation, and every operation.
    \<open>Exam_Access\<close>: which exam binds a student and what they may open, start and see.
    \<open>Exam_Invariants\<close>, \<open>Exam_Histories\<close>: the registry invariant (memory, rows and owed writes agree)
    over every history, and the clocks that start once. \<open>Exam_Recovery\<close>: the owed writes are paid,
    a restart restores the registry. \<open>Exam_Students\<close>: no project is lost when the labs change.
    \<open>Exam_Projects\<close>, \<open>Exam_Sync\<close> (\<open>portal/examprojects.py\<close>): the exam objects the agents hold refine
    what the registry says, and the close jobs end.
  \<^item> \<open>Pool\<close> (\<open>portal/pool.py\<close> and the hosts of \<open>config.py\<close>), \<open>Pool_Manager\<close> (\<open>portal/manager.py\<close>):
    hosts, polls, reservations, placement; wakes, power-offs and restarts. \<open>Pool_Safety\<close>: the
    invariant of the tables and what \<open>pick\<close> chooses. \<open>Pool_Membership\<close>: the state file.
    \<open>Pool_Policy\<close>: the two plans against their rules. \<open>Pool_Histories\<close>: every operation keeps the
    invariant.
  \<^item> \<open>Focus\<close>, \<open>Focus_Safety\<close> (\<open>portal/focus.py\<close>): an instructor helps a student; the two pages.
  \<^item> \<open>Rate_Limit\<close> (\<open>portal/ratelimit.py\<close>): the three limiters.
  \<^item> \<open>Rfb_Filter\<close> (\<open>agent/rfb_filter.py\<close>): the parser of what a viewer of a virtual desktop sends.
  \<^item> \<open>Agent_Access\<close> (\<open>agent/access.py\<close>, the running lab names of \<open>SRE/params.py\<close>): who may do what.
    \<open>Agent_Projects\<close>, \<open>Agent_Safety\<close> (\<open>agent/schedulers.py\<close>, \<open>agent/registry.py\<close>, \<open>exam_put\<close> and
    \<open>exam_delete\<close> of \<open>agent/app.py\<close>): the evaluations, the end of an exam and the close of a
    project as tasks around one lock, cut at their awaits.
  \<^item> \<open>Pty\<close> (\<open>agent/pty_session.py\<close>), \<open>Terminals\<close> (\<open>agent/terminals.py\<close>), \<open>Terminal_Safety\<close>,
    \<open>Terminal_Histories\<close>: the shared terminals, the streams the browsers read and the invariant of a
    session. \<open>Terminal_Access\<close> (\<open>terminal_ws\<close> of \<open>agent/app.py\<close>): who is granted which terminal.
  \<^item> \<open>Sign_In\<close>, \<open>Sign_In_Safety\<close> (\<open>identity.py\<close>, \<open>portal/session.py\<close>, \<open>api_language\<close> of \<open>portal/routes.py\<close>):
    the trust headers and the session cookie, and the life of a session over its changes of language.
  \<^item> \<open>Evaluation_Table\<close> (\<open>SRE/evaluation_table.py\<close>, the texts of \<open>SRE/common.py\<close>): the rows of the table of
    the grades, against the table described without its loops. \<open>Form_Spec\<close> (\<open>SRE/form_spec.py\<close>): the fields
    of the forms and the typing of their answers.
  \<^item> \<open>Answers_File\<close> (\<open>SRE/answers.py\<close>), \<open>Answers_Store\<close> (\<open>agent/answers.py\<close>): the answers file, its metadata
    and the cheat file, as the agent reads and writes them. \<open>Answers_Writers\<close>: the agent and the Qt view
    (\<open>sysreseval/view/questions_view.py\<close>) at work on one file, as a machine whose transitions are the
    lock, the read and the replacement of either. \<open>Answers_Safety\<close>, \<open>Answers_Runs\<close>: they take turns, no
    answer is undone, and the runs in which a write hides another.
  \<^item> \<open>Command_Access\<close> (\<open>SRE/access.py\<close>, \<open>sre.py\<close>, \<open>SRE/utils.py\<close>, \<open>stop_all.py\<close>): who may run \<open>sre\<close>, and on
    which projects.
  \<^item> \<open>Access_Line\<close>, \<open>Access_Log\<close>, \<open>Access_Log_Safety\<close> (\<open>portal/accesslog.py\<close>): the lines of the connection
    log and their reading back; the sessions of the browsers and the middleware that logs each route,
    cut at the await of the handler; the machine of the requests in flight and what its lines tell.
    \<open>Access_Stats\<close>, \<open>Access_Stats_Safety\<close> (\<open>portal/accessstats.py\<close>, the sessions of
    \<open>portal/accesshistory.py\<close>): the statistics of a period, loop by loop, against the summary of each
    login and lab. \<open>Access_Sink\<close>, \<open>Access_Sink_Safety\<close>, \<open>Access_Rows\<close> (\<open>portal/accessdb.py\<close>): the writer
    of the database as two threads around a bounded queue, and the rows of the lines, read back.
  \<^item> \<open>Role_Cache\<close>, \<open>Role_Cache_Safety\<close> (\<open>portal/roles.py\<close>): the cache of the directory with one lock per
    login, cut at its awaits, against the specification of one login; the rows of the Watch page.
  \<^item> \<open>Save_Stream\<close>, \<open>Save_Safety\<close> (\<open>SRE/save_archive.py\<close>): the encrypted payload of a save file, its
    writer and its reader over a file that arrives in pieces, and what a changed file can give.

  \<^bold>\<open>How the state corresponds to the code.\<close> A class or dataclass is a record with its attributes in
  order (\<open>Pool\<close> is \<open>pool\<close>, \<open>Exams\<close> is \<open>exams\<close>, \<open>TerminalSession\<close> is \<open>session\<close>); a handler is a function from the state,
  the arguments and the time to the state, and an error is the left value of a sum. Times are real
  numbers given by the caller. The outside is an argument: which message can be written and which
  database operation succeeds (\<open>env\<close>), what an agent answers (\<open>net\<close>, \<open>agent_answer\<close>, \<open>poll\<close>), what
  the system does with a write on a pty (\<open>os_write\<close>) or with a save (\<open>save_answer\<close>), what each call finds
  at a path others write to (\<open>node\<close>, \<open>cheat_calls\<close>), the process table (\<open>proc_table\<close>), the encodings
  (\<open>codec\<close>, \<open>json_text\<close>), the memberships and the lookups the directory gives, the cipher of the save
  files (\<open>aead\<close>), the networks and the texts of the times (\<open>access_env\<close>). Texts are
  lists of characters below 256; the texts of error messages are shortened to their fixed part.

  \<^bold>\<open>What the lemmas show.\<close> Invariants over every history of operations (pool, registry, focuses,
  project tasks, terminals, admissions, the two writers of an answers file, sign-in sessions, the
  connection log, the cache of the roles, the writer of the database), each through an interpretation of \<open>invariant_machine\<close>;
  the exact result of the decisions (\<open>for_login\<close>, \<open>project_access\<close>, \<open>pick\<close>, \<open>check_device\<close>); equivalence of
  the loops with their rule (\<open>wake_plan\<close>, \<open>feed\<close> in chunks, the evaluation table, the statistics of the
  connection log, the ancestors of a process); the refinement of the registry by the agents and of one write after the other by two
  interleaved writers, of one lookup at a time by the cache of the roles; round trips (state file,
  restart, running lab names, headers, forms, log lines, save files); the detection of every change
  of an encrypted save; bounds (RFB buffer, status numbers,
  rate limits, terminal queues); termination of the close jobs; and, as closed theorems, the runs in
  which the code does not do what it means to.

  \<^bold>\<open>Bounds and fuel.\<close> No function takes fuel: every loop of the code that is modelled is a fold or a
  structural recursion, but the parser of the RFB filter, the cut of a form description, the tokens of
  a log line and the reads and writes of a save file, which recur on the length of what is left (each
  turn takes at least one character or byte of it). The loop over the
  ancestors of a process counts the turns the code counts (six). The sizes and periods are those of the code.

  \<^bold>\<open>Not modelled.\<close> What \<open>sre\<close> does with containers (\<open>src/src/SRE/lib_sre.py\<close> and the commands), the labs
  and their probes (\<open>src/lab\<close>, \<open>src/lib\<close>). The Qt windows (\<open>src/src/sysreseval\<close>) but for the persistence of
  the answers. Of the portal: the HTTP routes and the relay, the LDAP sign-in, the SQL of the
  connection log and the filters of its pages, the archives. Of a save file: its header and the tar in it. Of the agent: the processes it spawns, the files it scans, the virtual
  desktops. In the modelled components: logging, the JSON views, the asyncio tasks that call the
  operations, the balancing of the instructor fragments of a form. A pass of the reconciliation over
  one student is one transition, though the code awaits the agents in it; an answers file is written
  by its two writers only, and the creation of its directory is not a transition.
\<close>

end
